(* ===== verification/Prelude.thy ===== *)
theory Prelude
  imports Main "HOL-Library.AList" "HOL-Library.Multiset" "HOL-Library.Sublist"
    "HOL-Library.List_Lexorder" "HOL-Library.Char_ord"
begin

text \<open>
  Shared vocabulary of the development: the collections of simplification and invariant facts, the
  result type of fallible Go functions, the order in which Go's \<^verbatim>\<open>range\<close> visits
  a map, loops that can fail, slice surgery on lists, and a generic locale for state machines
  with an invariant that every component with a step relation interprets.
\<close>

section \<open>Collections of facts\<close>

named_theorems uri_simps \<open>equations of the URI accessors\<close>
named_theorems heap_simps \<open>equations of the group heap\<close>
named_theorems inv_intros \<open>rules that establish an invariant after an operation\<close>
named_theorems step_simps \<open>equations of the state-machine handlers\<close>

section \<open>Strings and errors\<close>

type_synonym go_time = int \<comment> \<open>nanoseconds since Go's zero time; 0 is the zero time\<close>

text \<open>
  \<^verbatim>\<open>strings.HasPrefix\<close>, and \<^verbatim>\<open>strings.SplitN(s, sep, 2)\<close> for a
  one-character separator: the text before and after the first separator, or the text alone.
\<close>

definition strings_HasPrefix :: "string \<Rightarrow> string \<Rightarrow> bool" where
  "strings_HasPrefix s p \<longleftrightarrow> take (length p) s = p"

definition strings_SplitN2 :: "string \<Rightarrow> char \<Rightarrow> string list" where
  "strings_SplitN2 s c =
     (if c \<in> set s then [takeWhile (\<lambda>x. x \<noteq> c) s, tl (dropWhile (\<lambda>x. x \<noteq> c) s)] else [s])"

lemma strings_HasPrefix_append [simp]: "strings_HasPrefix (p @ s) p"
  by (simp add: strings_HasPrefix_def)

lemma strings_HasPrefix_iff: "strings_HasPrefix s p \<longleftrightarrow> (\<exists>r. s = p @ r)"
  by (metis append_eq_conv_conj strings_HasPrefix_def)

lemma strings_SplitN2_append:
  "c \<notin> set a \<Longrightarrow> strings_SplitN2 (a @ c # b) c = [a, b]"
  by (induction a) (auto simp: strings_SplitN2_def)

lemma strings_SplitN2_cases:
  obtains (one) "c \<notin> set s" "strings_SplitN2 s c = [s]"
  | (two) a b where "s = a @ c # b" "c \<notin> set a" "strings_SplitN2 s c = [a, b]"
proof (cases "c \<in> set s")
  case True
  then obtain a b where "s = a @ c # b" "c \<notin> set a"
    by (meson split_list_first)
  then show ?thesis using strings_SplitN2_append two by blast
next
  case False
  then show ?thesis using one by (simp add: strings_SplitN2_def)
qed

text \<open>Splitting a text at the last occurrence of a character is unique.\<close>

lemma append_last_sep_inject:
  fixes c :: char
  assumes "a @ c # b = a' @ c # b'" "c \<notin> set b" "c \<notin> set b'"
  shows "a = a' \<and> b = b'"
proof -
  have "rev b @ c # rev a = rev b' @ c # rev a'"
    using arg_cong [OF assms(1), of rev] by simp
  then have "strings_SplitN2 (rev b @ c # rev a) c = strings_SplitN2 (rev b' @ c # rev a') c"
    by simp
  then have "[rev b, rev a] = [rev b', rev a']"
    using assms by (simp add: strings_SplitN2_append)
  then show ?thesis by simp
qed

section \<open>Iterating over Go maps\<close>

text \<open>
  Go visits the entries of a map in an unspecified order that may differ from one loop to the
  next. A loop over a map therefore takes the visiting order as an argument, a function from the
  key list to the order visited, and every theorem holds for all of them: \<open>range_order\<close> only
  says that each key is visited exactly once.
\<close>

definition range_order :: "('k list \<Rightarrow> 'k list) \<Rightarrow> bool" where
  "range_order ord \<longleftrightarrow> (\<forall>ks. mset (ord ks) = mset ks)"

lemma range_orderD:
  assumes "range_order ord"
  shows "mset (ord ks) = mset ks" and "set (ord ks) = set ks"
    and "distinct (ord ks) = distinct ks" and "length (ord ks) = length ks"
proof -
  show m: "mset (ord ks) = mset ks"
    using assms by (simp add: range_order_def)
  show "set (ord ks) = set ks"
    by (rule mset_eq_setD [OF m])
  show "distinct (ord ks) = distinct ks"
    by (rule mset_eq_imp_distinct_iff [OF m])
  show "length (ord ks) = length ks"
    by (rule mset_eq_length [OF m])
qed

lemma range_order_id: "range_order id" and range_order_rev: "range_order rev"
  by (simp_all add: range_order_def)

section \<open>Loops that may fail\<close>

text \<open>A loop whose body may stop the computation: \<open>None\<close> at the first failing iteration.\<close>

fun ofold :: "('a \<Rightarrow> 's \<Rightarrow> 's option) \<Rightarrow> 'a list \<Rightarrow> 's \<Rightarrow> 's option" where
  "ofold f [] s = Some s"
| "ofold f (x # xs) s = Option.bind (f x s) (ofold f xs)"

lemma ofold_Nil_fun [simp]: "ofold f [] = Some"
  by (simp add: fun_eq_iff)

lemma ofold_append: "ofold f (xs @ ys) s = Option.bind (ofold f xs s) (ofold f ys)"
  by (induction xs arbitrary: s) (auto split: Option.bind_splits)

lemma ofold_cong [fundef_cong]:
  assumes "xs = ys" "s = t" "\<And>x u. x \<in> set ys \<Longrightarrow> f x u = g x u"
  shows "ofold f xs s = ofold g ys t"
proof -
  have "ofold f ys u = ofold g ys u" for u
    using assms(3) by (induction ys arbitrary: u) (auto intro!: Option.bind_cong)
  then show ?thesis using assms(1,2) by simp
qed

text \<open>The invariant rule of such a loop: a body that succeeds and keeps \<open>P\<close>.\<close>

lemma ofold_invariant:
  assumes "\<And>x s. x \<in> set xs \<Longrightarrow> P s \<Longrightarrow> \<exists>t. f x s = Some t \<and> P t" "P s"
  shows "\<exists>t. ofold f xs s = Some t \<and> P t"
  using assms
proof (induction xs arbitrary: s)
  case Nil
  then show ?case by simp
next
  case (Cons x xs)
  then obtain t where "f x s = Some t" "P t" by force
  with Cons show ?case by simp
qed

text \<open>The same for a loop that accumulates the sets \<open>A x\<close>.\<close>

lemma ofold_accum:
  assumes "\<And>x E s. x \<in> set xs \<Longrightarrow> P E s \<Longrightarrow> \<exists>t. f x s = Some t \<and> P (E \<union> A x) t" "P E s"
  shows "\<exists>t. ofold f xs s = Some t \<and> P (E \<union> (\<Union>x \<in> set xs. A x)) t"
  using assms
proof (induction xs arbitrary: E s)
  case Nil
  then show ?case by simp
next
  case (Cons x xs)
  then obtain t where "f x s = Some t" "P (E \<union> A x) t" by fastforce
  with Cons.IH [OF _ this(2)] Cons.prems(1) show ?case
    by (simp add: Un_assoc)
qed

text \<open>A loop that returns true from inside its body, over tests that may fail.\<close>

fun oexists :: "('a \<Rightarrow> bool option) \<Rightarrow> 'a list \<Rightarrow> bool option" where
  "oexists f [] = Some False"
| "oexists f (x # xs) = (case f x of None \<Rightarrow> None | Some b \<Rightarrow> if b then Some True else oexists f xs)"

lemma oexists_cong [fundef_cong]:
  "xs = ys \<Longrightarrow> (\<And>x. x \<in> set ys \<Longrightarrow> f x = g x) \<Longrightarrow> oexists f xs = oexists g ys"
  by (induction xs arbitrary: ys) (auto split: option.splits)

lemma oexists_False: "oexists f xs = Some False \<longleftrightarrow> (\<forall>x\<in>set xs. f x = Some False)"
  by (induction xs) (auto split: option.splits)

lemma oexists_True: "oexists f xs = Some True \<Longrightarrow> \<exists>x\<in>set xs. f x = Some True"
  by (induction xs) (auto split: option.splits if_splits)

lemma oexists_Some: "\<forall>x\<in>set xs. f x \<noteq> None \<Longrightarrow> oexists f xs \<noteq> None"
  by (induction xs) (auto split: option.splits)

section \<open>Association lists\<close>

lemma map_of_eq_Some_in_keys: "map_of h k = Some g \<Longrightarrow> k \<in> fst ` set h"
  by (metis domI dom_map_of_conv_image_fst)

section \<open>Slice surgery\<close>

text \<open>
  \<^verbatim>\<open>for i, x := range s { if p(x) { s = append(s[:i], s[i+1:]...); break } }\<close>: the
  first element that satisfies the test is cut out.
\<close>

fun remove_first :: "('a \<Rightarrow> bool) \<Rightarrow> 'a list \<Rightarrow> 'a list" where
  "remove_first p [] = []"
| "remove_first p (x # xs) = (if p x then xs else x # remove_first p xs)"

lemma remove_first_absent: "\<forall>x\<in>set xs. \<not> p x \<Longrightarrow> remove_first p xs = xs"
  by (induction xs) auto

lemma set_remove_first_subset: "set (remove_first p xs) \<subseteq> set xs"
  by (induction xs) auto

lemma distinct_remove_first: "distinct xs \<Longrightarrow> distinct (remove_first p xs)"
  by (induction xs) (auto dest: subsetD [OF set_remove_first_subset])

lemma remove_first_eq_remove1: "remove_first (\<lambda>x. x = a) xs = remove1 a xs"
  by (induction xs) auto

lemma length_remove_first: "length (remove_first p xs) \<le> length xs"
  by (induction xs) auto

lemma remove_first_eq_Nil: "remove_first p xs = [] \<longleftrightarrow> xs = [] \<or> (\<exists>x. xs = [x] \<and> p x)"
  by (cases xs) auto

section \<open>State machines with an invariant\<close>

text \<open>
  The contract every state machine of the program is checked against: some start states, a step
  relation and an invariant that holds at the start and is kept by every step. The client facts
  are about runs and reachable states.
\<close>

locale invariant_machine =
  fixes start_state :: "'s \<Rightarrow> bool"
    and step :: "'s \<Rightarrow> 'e \<Rightarrow> 's \<Rightarrow> bool"
    and inv :: "'s \<Rightarrow> bool"
  assumes start_inv: "start_state s \<Longrightarrow> inv s"
    and step_inv: "inv s \<Longrightarrow> step s e t \<Longrightarrow> inv t"
begin

inductive reach :: "'s \<Rightarrow> bool" where
  reach_start: "start_state s \<Longrightarrow> reach s"
| reach_step: "reach s \<Longrightarrow> step s e t \<Longrightarrow> reach t"

inductive run :: "'s \<Rightarrow> 'e list \<Rightarrow> 's \<Rightarrow> bool" where
  run_nil: "run s [] s"
| run_cons: "step s e t \<Longrightarrow> run t es u \<Longrightarrow> run s (e # es) u"

lemma reach_inv: "reach s \<Longrightarrow> inv s"
  by (induction rule: reach.induct) (auto intro: start_inv step_inv)

lemma run_inv: "run s es t \<Longrightarrow> inv s \<Longrightarrow> inv t"
  by (induction rule: run.induct) (auto intro: step_inv)

lemma run_reach: "run s es t \<Longrightarrow> reach s \<Longrightarrow> reach t"
  by (induction rule: run.induct) (auto intro: reach.intros)

inductive_cases run_nilE: "run s [] t"
inductive_cases run_consE: "run s (e # es) u"

lemma run_append: "run s (es @ fs) u \<longleftrightarrow> (\<exists>t. run s es t \<and> run t fs u)"
proof
  show "run s (es @ fs) u \<Longrightarrow> \<exists>t. run s es t \<and> run t fs u"
    by (induction es arbitrary: s) (auto intro: run.intros elim!: run_consE, blast intro: run.intros)
  show "\<exists>t. run s es t \<and> run t fs u \<Longrightarrow> run s (es @ fs) u"
    by (induction es arbitrary: s) (auto intro: run.intros elim: run_nilE elim!: run_consE)
qed

text \<open>A measure that no step raises and that the steps of interest lower bounds their number.\<close>

lemma run_bound:
  assumes "run s es t" and "inv s"
    and "\<And>s e t. inv s \<Longrightarrow> step s e t \<Longrightarrow> (m t :: nat) + (if P e then 1 else 0) \<le> m s"
  shows "length (filter P es) + m t \<le> m s"
  using assms(1,2)
proof (induction rule: run.induct)
  case (run_nil s)
  then show ?case by simp
next
  case (run_cons s e t es u)
  then have "length (filter P es) + m u \<le> m t"
    using step_inv by blast
  with assms(3) [OF run_cons.prems run_cons.hyps(1)] show ?case
    by (auto split: if_splits)
qed

end

text \<open>
  A machine that works off a finite amount of work: some steps finish a piece of it and no step
  adds any, and as long as work is left some step reduces it. Then the number of finishing
  steps is bounded, and from every state the work can be completed.
\<close>

locale work_machine = invariant_machine start_state step inv
  for start_state :: "'s \<Rightarrow> bool" and step :: "'s \<Rightarrow> 'e \<Rightarrow> 's \<Rightarrow> bool" and inv :: "'s \<Rightarrow> bool" +
  fixes pending :: "'s \<Rightarrow> nat" and work :: "'s \<Rightarrow> nat" and finishes :: "'e \<Rightarrow> bool"
  assumes step_pending: "inv s \<Longrightarrow> step s e t \<Longrightarrow> pending t + (if finishes e then 1 else 0) \<le> pending s"
    and progress: "inv s \<Longrightarrow> 0 < work s \<Longrightarrow> \<exists>e t. step s e t \<and> work t < work s"
begin

lemma finishes_bounded:
  assumes "run s es t" "inv s"
  shows "length (filter finishes es) \<le> pending s"
proof -
  have "length (filter finishes es) + pending t \<le> pending s"
    by (rule run_bound [OF assms]) (rule step_pending)
  then show ?thesis by simp
qed

lemma can_complete: "inv s \<Longrightarrow> \<exists>es t. run s es t \<and> work t = 0"
proof (induction "work s" arbitrary: s rule: less_induct)
  case less
  show ?case
  proof (cases "work s = 0")
    case True
    then show ?thesis using run_nil by blast
  next
    case False
    then obtain e t where "step s e t" "work t < work s" using progress less.prems by blast
    with less show ?thesis using run_cons step_inv by meson
  qed
qed

end

end
