(* ===== verification/Formae_Uri.thy ===== *)
theory Formae_Uri
  imports Prelude
begin

text \<open>
  \<^verbatim>\<open>pkg/model/uri.go\<close>: the KSUID-based resource URIs
  \<^verbatim>\<open>formae://<ksuid>#/<property>\<close> that name resources and their properties, and
  \<^verbatim>\<open>createOperationURI\<close> of the changeset package, the key of an operation node. A Go
  string is its list of bytes.
\<close>

section \<open>Definitions\<close>

type_synonym FormaeURI = string

record TripletKey =
  tk_Stack :: string
  tk_Label :: string
  tk_Type :: string

definition formae_scheme :: string where
  "formae_scheme = ''formae://''"

definition NewFormaeURI :: "string \<Rightarrow> string \<Rightarrow> FormaeURI" where
  "NewFormaeURI uri property =
     (if property = '''' then formae_scheme @ uri @ ''#''
      else formae_scheme @ uri @ ''#/'' @ property)"

definition IsValid :: "FormaeURI \<Rightarrow> bool" where
  "IsValid s =
     (if \<not> strings_HasPrefix s formae_scheme then False
      else let remainder = drop 9 s in
        if CHR ''#'' \<notin> set remainder then False
        else let parts = strings_SplitN2 remainder (CHR ''#'') in
          if length parts \<noteq> 2 \<or> parts ! 0 = [] then False
          else let fragment = parts ! 1 in
            fragment = '''' \<or> strings_HasPrefix fragment ''/'')"

definition KSUID :: "FormaeURI \<Rightarrow> string" where
  "KSUID s =
     (if \<not> strings_HasPrefix s formae_scheme then ''''
      else let parts = strings_SplitN2 (drop 9 s) (CHR ''#'') in
        if length parts \<noteq> 2 then '''' else parts ! 0)"

definition PropertyPath :: "FormaeURI \<Rightarrow> string" where
  "PropertyPath s =
     (if \<not> strings_HasPrefix s formae_scheme then ''''
      else let parts = strings_SplitN2 (drop 9 s) (CHR ''#'') in
        if length parts \<noteq> 2 then ''''
        else let fragment = parts ! 1 in
          if fragment = '''' \<or> fragment = ''/'' then ''''
          else if strings_HasPrefix fragment ''/'' then drop 1 fragment
          else fragment)"

definition Stripped :: "FormaeURI \<Rightarrow> FormaeURI" where
  "Stripped f = NewFormaeURI (KSUID f) ''''"

section \<open>The accessors on the two shapes of a URI\<close>

lemma length_formae_scheme [simp]: "length formae_scheme = 9"
  by (simp add: formae_scheme_def)

lemma KSUID_split [uri_simps]:
  "CHR ''#'' \<notin> set k \<Longrightarrow> KSUID (formae_scheme @ k @ CHR ''#'' # f) = k"
  by (simp add: KSUID_def strings_SplitN2_append)

lemma PropertyPath_split [uri_simps]:
  "CHR ''#'' \<notin> set k \<Longrightarrow> PropertyPath (formae_scheme @ k @ CHR ''#'' # f) =
     (if f = '''' \<or> f = ''/'' then '''' else if strings_HasPrefix f ''/'' then drop 1 f else f)"
  by (simp add: PropertyPath_def strings_SplitN2_append)

lemma IsValid_split [uri_simps]:
  "CHR ''#'' \<notin> set k \<Longrightarrow> IsValid (formae_scheme @ k @ CHR ''#'' # f) \<longleftrightarrow>
     k \<noteq> [] \<and> (f = '''' \<or> strings_HasPrefix f ''/'')"
  by (simp add: IsValid_def strings_SplitN2_append)

lemma NewFormaeURI_shape:
  "NewFormaeURI k p = formae_scheme @ k @ CHR ''#'' # (if p = '''' then '''' else CHR ''/'' # p)"
  by (simp add: NewFormaeURI_def)

lemma NewFormaeURI_stripped_inject [simp]: "NewFormaeURI k '''' = NewFormaeURI k' '''' \<longleftrightarrow> k = k'"
  by (simp add: NewFormaeURI_def)

lemma KSUID_no_hash: "CHR ''#'' \<notin> set (KSUID u)"
  by (rule strings_SplitN2_cases [of "CHR ''#''" "drop 9 u"]) (auto simp: KSUID_def)

lemma KSUID_NewFormaeURI [simp]: "CHR ''#'' \<notin> set k \<Longrightarrow> KSUID (NewFormaeURI k p) = k"
  by (simp add: NewFormaeURI_shape uri_simps)

lemma KSUID_Stripped [simp]: "KSUID (Stripped u) = KSUID u"
  by (simp add: Stripped_def KSUID_no_hash)

lemma Stripped_eq_iff: "Stripped u = Stripped v \<longleftrightarrow> KSUID u = KSUID v"
  by (simp add: Stripped_def)

lemma Stripped_NewFormaeURI [simp]:
  "CHR ''#'' \<notin> set k \<Longrightarrow> Stripped (NewFormaeURI k p) = NewFormaeURI k ''''"
  by (simp add: Stripped_def)

lemma PropertyPath_stripped [simp]:
  "CHR ''#'' \<notin> set k \<Longrightarrow> PropertyPath (NewFormaeURI k '''') = ''''"
  by (simp add: NewFormaeURI_shape uri_simps)

end
