(* ===== verification/Domain.thy ===== *)
theory Domain
  imports Complex_Main Formae_Uri
begin

text \<open>
  \<^verbatim>\<open>pkg/model\<close>: the data of a forma (stacks, targets, resources, schemas), the
  enumerations of \<^verbatim>\<open>internal/metastructure/types\<close>, and the operations on formas
  that only touch these fields. A \<^verbatim>\<open>json.RawMessage\<close> is modelled by what the program
  can observe of its bytes with \<^verbatim>\<open>encoding/json\<close>: nil, empty, not decodable, or the
  decoded value; a decoded number is the rational value of its float64.
\<close>

section \<open>JSON values and raw messages\<close>

datatype json =
    JNull
  | JBool bool
  | JNum rat
  | JStr string
  | JArr "json list"
  | JObj "(string \<times> json) list"

datatype raw =
    RawNil
  | RawEmpty
  | RawInvalid string
  | RawJson json

section \<open>Enumerations\<close>

datatype Command = CommandApply | CommandEval | CommandDestroy | CommandSync

datatype FormaApplyMode =
    FormaApplyModePatch | FormaApplyModeReconcile | FormaApplyModeNone | FormaApplyModeProperties

datatype FormaCommandSource =
    FormaCommandSourceUser | FormaCommandSourceSynchronize | FormaCommandSourceDiscovery

datatype OperationType =
    OperationCreate | OperationUpdate | OperationDelete | OperationRead | OperationReplace

datatype ResourceUpdateState =
    ResourceUpdateStateUnknown | ResourceUpdateStateNotStarted | ResourceUpdateStatePending
  | ResourceUpdateStateInProgress | ResourceUpdateStateFailed | ResourceUpdateStateSuccess
  | ResourceUpdateStateCancelInProgress | ResourceUpdateStateCancelComplete
  | ResourceUpdateStateRejected

text \<open>The string value of an operation, as formatted into keys and actor names.\<close>

fun operation_string :: "OperationType \<Rightarrow> string" where
  "operation_string OperationCreate = ''create''"
| "operation_string OperationUpdate = ''update''"
| "operation_string OperationDelete = ''delete''"
| "operation_string OperationRead = ''read''"
| "operation_string OperationReplace = ''replace''"

section \<open>Schemas, resources, targets, stacks, formas\<close>

record FieldHint =
  fh_CreateOnly :: bool
  fh_Persist :: bool
  fh_WriteOnly :: bool
  fh_Required :: bool
  fh_RequiredOnCreate :: bool

record Schema =
  sch_Identifier :: string
  sch_Tags :: string
  sch_Fields :: "string list"
  sch_Nonprovisionable :: bool
  sch_Hints :: "(string \<times> FieldHint) list"
  sch_Discoverable :: bool

record Resource =
  res_Label :: string
  res_Group :: string
  res_Type :: string
  res_Stack :: string
  res_Target :: string
  res_Schema :: Schema
  res_Properties :: raw
  res_ReadOnlyProperties :: raw
  res_PatchDocument :: raw
  res_NativeID :: string
  res_Managed :: bool
  res_Ksuid :: string

record Target =
  tgt_Label :: string
  tgt_Namespace :: string
  tgt_Config :: raw

record Stack =
  stk_Label :: string
  stk_Description :: string

record Description =
  desc_Text :: string
  desc_Confirm :: bool

record Prop =
  prop_Default :: json
  prop_Value :: json
  prop_Flag :: string
  prop_Type :: string

record Forma =
  forma_Description :: Description
  forma_Properties :: "(string \<times> Prop) list"
  forma_Stacks :: "Stack list"
  forma_Targets :: "Target list"
  forma_Resources :: "Resource list"

text \<open>The zero values that composite literals leave in the fields they do not set.\<close>

definition zero_Schema :: Schema where
  "zero_Schema = \<lparr>sch_Identifier = [], sch_Tags = [], sch_Fields = [],
     sch_Nonprovisionable = False, sch_Hints = [], sch_Discoverable = False\<rparr>"

definition zero_Resource :: Resource where
  "zero_Resource = \<lparr>res_Label = [], res_Group = [], res_Type = [], res_Stack = [], res_Target = [],
     res_Schema = zero_Schema, res_Properties = RawNil, res_ReadOnlyProperties = RawNil,
     res_PatchDocument = RawNil, res_NativeID = [], res_Managed = False, res_Ksuid = []\<rparr>"

definition zero_Target :: Target where
  "zero_Target = \<lparr>tgt_Label = [], tgt_Namespace = [], tgt_Config = RawNil\<rparr>"

definition zero_Forma :: Forma where
  "zero_Forma = \<lparr>forma_Description = \<lparr>desc_Text = [], desc_Confirm = False\<rparr>,
     forma_Properties = [], forma_Stacks = [], forma_Targets = [], forma_Resources = []\<rparr>"

section \<open>Operations on resources and schemas\<close>

text \<open>\<^verbatim>\<open>strings.Split(s, "::")\<close>, scanning from the left.\<close>

fun split_colons :: "string \<Rightarrow> string list" where
  "split_colons [] = [[]]"
| "split_colons [c] = [[c]]"
| "split_colons (c # d # cs) =
     (if c = CHR '':'' \<and> d = CHR '':'' then [] # split_colons cs
      else (case split_colons (d # cs) of [] \<Rightarrow> [[c]] | f # fs \<Rightarrow> (c # f) # fs))"

fun strings_Join :: "string list \<Rightarrow> string \<Rightarrow> string" where
  "strings_Join [] sep = []"
| "strings_Join [x] sep = x"
| "strings_Join (x # y # ys) sep = x @ sep @ strings_Join (y # ys) sep"

definition res_URI :: "Resource \<Rightarrow> FormaeURI" where
  "res_URI r = NewFormaeURI (res_Ksuid r) ''''"

definition Fqn :: "Resource \<Rightarrow> string" where
  "Fqn r = strings_Join (rev (split_colons (res_Type r))) ''.''"

definition Namespace :: "Resource \<Rightarrow> string" where
  "Namespace r = split_colons (res_Type r) ! 0"

definition filterFields ::
  "(string list \<Rightarrow> string list) \<Rightarrow> Schema \<Rightarrow> (FieldHint \<Rightarrow> bool) \<Rightarrow> string list" where
  "filterFields ord s selector =
     filter (\<lambda>k. case map_of (sch_Hints s) k of None \<Rightarrow> False | Some h \<Rightarrow> selector h)
       (ord (map fst (sch_Hints s)))"

definition CreateOnly :: "(string list \<Rightarrow> string list) \<Rightarrow> Schema \<Rightarrow> string list" where
  "CreateOnly ord s = filterFields ord s fh_CreateOnly"

definition Metadata :: "(string list \<Rightarrow> string list) \<Rightarrow> Schema \<Rightarrow> string list" where
  "Metadata ord s = filterFields ord s fh_Persist"

definition Required :: "(string list \<Rightarrow> string list) \<Rightarrow> Schema \<Rightarrow> string list" where
  "Required ord s = filterFields ord s fh_Required"

definition RequiredOnCreate :: "(string list \<Rightarrow> string list) \<Rightarrow> Schema \<Rightarrow> string list" where
  "RequiredOnCreate ord s = filterFields ord s fh_RequiredOnCreate"

definition WriteOnly :: "(string list \<Rightarrow> string list) \<Rightarrow> Schema \<Rightarrow> string list" where
  "WriteOnly ord s = filterFields ord s fh_WriteOnly"

section \<open>Operations on formas\<close>

definition SingleStackLabel :: "Forma \<Rightarrow> string" where
  "SingleStackLabel f =
     (if length (forma_Stacks f) \<noteq> 1 then ''default'' else stk_Label (forma_Stacks f ! 0))"

text \<open>The stack entry a label resolves to: the last match of the loop over the forma's stacks.\<close>

definition stack_for :: "Forma \<Rightarrow> string \<Rightarrow> Stack option" where
  "stack_for f l = fold (\<lambda>s acc. if stk_Label s = l then Some s else acc) (forma_Stacks f) None"

definition split_add :: "Forma \<Rightarrow> Resource \<Rightarrow> (string \<times> Forma) list \<Rightarrow> (string \<times> Forma) list" where
  "split_add f r stacks =
     (case map_of stacks (res_Stack r) of
        Some sf \<Rightarrow> AList.update (res_Stack r) (sf\<lparr>forma_Resources := forma_Resources sf @ [r]\<rparr>) stacks
      | None \<Rightarrow>
          (case stack_for f (res_Stack r) of
             Some stack \<Rightarrow> AList.update (res_Stack r)
               (zero_Forma\<lparr>forma_Properties := forma_Properties f, forma_Stacks := [stack],
                  forma_Resources := [r]\<rparr>) stacks
           | None \<Rightarrow> AList.update (res_Stack r)
               (zero_Forma\<lparr>forma_Properties := forma_Properties f,
                  forma_Stacks := [\<lparr>stk_Label = res_Stack r, stk_Description = []\<rparr>],
                  forma_Resources := [r]\<rparr>) stacks))"

definition SplitByStack :: "(string list \<Rightarrow> string list) \<Rightarrow> Forma \<Rightarrow> Forma list" where
  "SplitByStack ord f =
     (let stacks = fold (split_add f) (forma_Resources f) []
      in map (\<lambda>l. the (map_of stacks l)) (ord (map fst stacks)))"

definition add_stack :: "Resource \<Rightarrow> Forma \<Rightarrow> Forma" where
  "add_stack res f =
     (if res_Stack res \<noteq> [] \<and> \<not> list_ex (\<lambda>s. stk_Label s = res_Stack res) (forma_Stacks f)
      then f\<lparr>forma_Stacks := forma_Stacks f @ [\<lparr>stk_Label = res_Stack res, stk_Description = []\<rparr>]\<rparr>
      else f)"

definition add_target :: "Resource \<Rightarrow> Forma \<Rightarrow> Forma" where
  "add_target res f =
     (if res_Target res \<noteq> [] \<and> \<not> list_ex (\<lambda>t. tgt_Label t = res_Target res) (forma_Targets f)
      then f\<lparr>forma_Targets := forma_Targets f @
        [\<lparr>tgt_Label = res_Target res, tgt_Namespace = [], tgt_Config = RawNil\<rparr>]\<rparr>
      else f)"

definition FormaFromResources :: "Resource list \<Rightarrow> Forma" where
  "FormaFromResources resources =
     fold (\<lambda>res f. let f' = add_target res (add_stack res f)
                   in f'\<lparr>forma_Resources := forma_Resources f' @ [res]\<rparr>)
       resources zero_Forma"

section \<open>Facts about types and fields\<close>

lemma split_colons_not_Nil [simp]: "split_colons s \<noteq> []"
  by (induction s rule: split_colons.induct) (auto split: list.splits)

lemma set_filterFields:
  assumes "range_order ord" "distinct (map fst (sch_Hints s))"
  shows "set (filterFields ord s sel) = {k. \<exists>h. (k, h) \<in> set (sch_Hints s) \<and> sel h}"
proof -
  have "(case map_of (sch_Hints s) k of None \<Rightarrow> False | Some h \<Rightarrow> sel h) \<longleftrightarrow>
      (\<exists>h. (k, h) \<in> set (sch_Hints s) \<and> sel h)" for k
    by (auto split: option.splits simp: map_of_eq_Some_iff [OF assms(2), symmetric])
  then show ?thesis
    by (force simp: filterFields_def range_orderD [OF assms(1)])
qed

lemma operation_string_chars:
  "CHR ''/'' \<notin> set (operation_string op) \<and> CHR ''-'' \<notin> set (operation_string op)"
  by (cases op) simp_all

lemma operation_string_inject [simp]: "operation_string a = operation_string b \<longleftrightarrow> a = b"
  by (cases a; cases b) auto

lemma res_URI_inject [simp]: "res_URI r = res_URI s \<longleftrightarrow> res_Ksuid r = res_Ksuid s"
  by (simp add: res_URI_def)

section \<open>Splitting a forma by stack\<close>

lemma stack_for_Some: "stack_for f l = Some s \<Longrightarrow> stk_Label s = l"
proof -
  have "fold (\<lambda>s acc. if stk_Label s = l then Some s else acc) xs acc = Some s \<Longrightarrow>
      (\<forall>t. acc = Some t \<longrightarrow> stk_Label t = l) \<Longrightarrow> stk_Label s = l" for xs acc
    by (induction xs arbitrary: acc) (auto split: if_splits)
  then show "stack_for f l = Some s \<Longrightarrow> stk_Label s = l"
    unfolding stack_for_def by blast
qed

text \<open>What the loop of \<open>SplitByStack\<close> has built after the resources \<open>rs\<close>.\<close>

definition split_inv :: "Resource list \<Rightarrow> (string \<times> Forma) list \<Rightarrow> bool" where
  "split_inv rs stacks \<longleftrightarrow> distinct (map fst stacks) \<and> set (map fst stacks) = res_Stack ` set rs \<and>
     (\<forall>l sf. map_of stacks l = Some sf \<longrightarrow>
        SingleStackLabel sf = l \<and> forma_Resources sf = filter (\<lambda>r. res_Stack r = l) rs)"

lemma split_inv_Nil: "split_inv [] []"
  by (simp add: split_inv_def)

lemma split_invD:
  "split_inv rs stacks \<Longrightarrow> map_of stacks l = Some sf \<Longrightarrow>
    SingleStackLabel sf = l \<and> forma_Resources sf = filter (\<lambda>r. res_Stack r = l) rs"
  by (simp add: split_inv_def)

lemma split_inv_keys:
  "split_inv rs stacks \<Longrightarrow> mset (map fst stacks) = mset (remdups (map res_Stack rs))"
  by (intro set_eq_iff_mset_eq_distinct [THEN iffD1]) (simp_all add: split_inv_def)

lemma fst_update: "set (map fst (AList.update k v al)) = insert k (set (map fst al))"
  by (induction al) auto

lemma split_inv_add:
  assumes "split_inv rs stacks"
  shows "split_inv (rs @ [r]) (split_add f r stacks)"
proof -
  let ?l = "res_Stack r"
  obtain sf where sf: "split_add f r stacks = AList.update ?l sf stacks"
    "SingleStackLabel sf = ?l" "forma_Resources sf = filter (\<lambda>r. res_Stack r = ?l) (rs @ [r])"
  proof (cases "map_of stacks ?l")
    case None
    then have "?l \<notin> res_Stack ` set rs"
      using assms by (metis dom_map_of_conv_image_fst domIff list.set_map split_inv_def)
    then have none: "filter (\<lambda>r. res_Stack r = ?l) rs = []"
      by (metis (mono_tags, lifting) filter_empty_conv image_eqI)
    show ?thesis
    proof (cases "stack_for f ?l")
      case None': None
      show ?thesis
        by (rule that, simp add: split_add_def None None', simp_all add: SingleStackLabel_def none)
    next
      case (Some s)
      show ?thesis
        by (rule that, simp add: split_add_def None Some,
            simp_all add: SingleStackLabel_def none stack_for_Some [OF Some])
    qed
  next
    case (Some sf)
    then have "SingleStackLabel sf = ?l" "forma_Resources sf = filter (\<lambda>r. res_Stack r = ?l) rs"
      using assms by (auto simp: split_inv_def)
    then show ?thesis
      by (intro that, simp add: split_add_def Some,
          auto simp: SingleStackLabel_def split: if_splits)
  qed
  have "map_of (split_add f r stacks) = (map_of stacks)(?l \<mapsto> sf)"
    by (simp add: sf(1) update_conv')
  moreover have "distinct (map fst (split_add f r stacks))"
    using assms by (simp add: sf(1) distinct_update split_inv_def)
  moreover have "set (map fst (split_add f r stacks)) = res_Stack ` set (rs @ [r])"
    using assms fst_update [of ?l sf stacks] by (simp add: sf(1) split_inv_def)
  ultimately show ?thesis
    using assms sf(2,3) unfolding split_inv_def by (auto split: if_splits)
qed

lemma split_inv_fold: "split_inv rs stacks \<Longrightarrow> split_inv (rs @ rs') (fold (split_add f) rs' stacks)"
proof (induction rs' arbitrary: rs stacks)
  case Nil
  then show ?case by simp
next
  case (Cons r rs')
  then show ?case using Cons.IH [OF split_inv_add [OF Cons.prems]] by simp
qed

section \<open>Properties\<close>

text \<open>\<open>SplitByStack\<close> partitions the resources of a forma by their stack label whatever order
  the map is visited in: it returns one forma per label that occurs, that forma carries exactly
  the resources with that label, in their original order, and its single stack label is the
  label.\<close>

theorem SplitByStack_partition:
  assumes "range_order ord"
  shows "mset (map (\<lambda>s. (SingleStackLabel s, forma_Resources s)) (SplitByStack ord f)) =
    mset (map (\<lambda>l. (l, filter (\<lambda>r. res_Stack r = l) (forma_Resources f)))
      (remdups (map res_Stack (forma_Resources f))))"
proof -
  let ?st = "fold (split_add f) (forma_Resources f) []"
  let ?g = "\<lambda>l. (l, filter (\<lambda>r. res_Stack r = l) (forma_Resources f))"
  have inv: "split_inv (forma_Resources f) ?st"
    using split_inv_fold [OF split_inv_Nil, of "forma_Resources f" f] by simp
  have "(SingleStackLabel (the (map_of ?st l)), forma_Resources (the (map_of ?st l))) = ?g l"
    if l: "l \<in> set (ord (map fst ?st))" for l
  proof -
    obtain sf where sf: "map_of ?st l = Some sf"
      using l map_of_eq_None_iff [of ?st l] by (auto simp: range_orderD(2) [OF assms])
    show ?thesis using split_invD [OF inv sf] by (simp only: sf option.sel)
  qed
  then have "map (\<lambda>s. (SingleStackLabel s, forma_Resources s)) (SplitByStack ord f) =
      map ?g (ord (map fst ?st))"
    unfolding SplitByStack_def Let_def map_map comp_def by (intro map_cong refl)
  moreover have "mset (ord (map fst ?st)) = mset (remdups (map res_Stack (forma_Resources f)))"
    unfolding range_orderD(1) [OF assms] by (rule split_inv_keys [OF inv])
  ultimately show ?thesis
    by (simp only: mset_map)
qed

theorem SplitByStack_partition_witness:
  "mset (map (\<lambda>s. (SingleStackLabel s, forma_Resources s)) (SplitByStack rev
      (zero_Forma\<lparr>forma_Resources := [zero_Resource\<lparr>res_Stack := ''a''\<rparr>,
         zero_Resource\<lparr>res_Stack := ''b''\<rparr>, zero_Resource\<lparr>res_Stack := ''a''\<rparr>]\<rparr>))) =
   {#(''a'', [zero_Resource\<lparr>res_Stack := ''a''\<rparr>, zero_Resource\<lparr>res_Stack := ''a''\<rparr>]),
     (''b'', [zero_Resource\<lparr>res_Stack := ''b''\<rparr>])#}"
  unfolding SplitByStack_partition [OF range_order_rev] by simp

end
