(* ===== verification/Progress.thy ===== *)
theory Progress
  imports Domain
begin

text \<open>
  \<^verbatim>\<open>pkg/plugin/resource/resource.go\<close>: the progress a plugin reports on one
  operation, when it counts as finished, and which error codes are worth a retry. The empty
  strings that Go's zero values put into the string-typed enumerations are constructors of their
  own (\<open>PNotSet\<close>, \<open>OperationStatusNotSet\<close>, \<open>ErrNotSet\<close>), because zero-valued results
  are really produced.
\<close>

section \<open>Definitions\<close>

datatype Operation =
    PNotSet | PCreate | PUpdate | PDelete | PRead | PCheckStatus | PList | PNoOp | PNotSupported

datatype OperationStatus =
    OperationStatusNotSet | OperationStatusSuccess | OperationStatusFailure
  | OperationStatusInProgress | OperationStatusPending

datatype OperationErrorCode =
    ErrNotUpdatable | ErrInvalidRequest | ErrAccessDenied | ErrUnauthorizedTaggingOperation
  | ErrInvalidCredentials | ErrAlreadyExists | ErrNotFound | ErrResourceConflict | ErrThrottling
  | ErrServiceLimitExceeded | ErrNotStabilized | ErrGeneralServiceException
  | ErrServiceInternalError | ErrServiceTimeout | ErrNetworkFailure | ErrInternalFailure
  | ErrDependencyFailure | ErrUnforeseenError | ErrPluginNotFound | ErrNotSet

record ProgressResult =
  pr_Operation :: Operation
  pr_OperationStatus :: OperationStatus
  pr_RequestID :: string
  pr_NativeID :: string
  pr_Metadata :: raw
  pr_ResourceType :: string
  pr_ResourceProperties :: raw
  pr_StartTs :: go_time
  pr_ModifiedTs :: go_time
  pr_ErrorCode :: OperationErrorCode
  pr_StatusMessage :: string
  pr_Attempts :: int
  pr_MaxAttempts :: int

definition zero_ProgressResult :: ProgressResult where
  "zero_ProgressResult = \<lparr>pr_Operation = PNotSet, pr_OperationStatus = OperationStatusNotSet,
     pr_RequestID = [], pr_NativeID = [], pr_Metadata = RawNil, pr_ResourceType = [],
     pr_ResourceProperties = RawNil, pr_StartTs = 0, pr_ModifiedTs = 0, pr_ErrorCode = ErrNotSet,
     pr_StatusMessage = [], pr_Attempts = 0, pr_MaxAttempts = 0\<rparr>"

definition recoverableErrorCodes :: "OperationErrorCode list" where
  "recoverableErrorCodes = [ErrThrottling, ErrNotStabilized, ErrServiceInternalError,
     ErrServiceTimeout, ErrNetworkFailure, ErrInternalFailure, ErrNotFound]"

definition IsRecoverable :: "OperationErrorCode \<Rightarrow> bool" where
  "IsRecoverable code \<longleftrightarrow> code \<in> set recoverableErrorCodes"

definition FinishedSuccessfully :: "ProgressResult \<Rightarrow> bool" where
  "FinishedSuccessfully pr \<longleftrightarrow> pr_OperationStatus pr = OperationStatusSuccess"

definition Failed :: "ProgressResult \<Rightarrow> bool" where
  "Failed pr =
     (if pr_OperationStatus pr \<noteq> OperationStatusFailure then False
      else \<not> IsRecoverable (pr_ErrorCode pr) \<or> pr_Attempts pr > pr_MaxAttempts pr)"

definition HasFinished :: "ProgressResult \<Rightarrow> bool" where
  "HasFinished pr \<longleftrightarrow> FinishedSuccessfully pr \<or> Failed pr"

definition InProgress :: "ProgressResult \<Rightarrow> bool" where
  "InProgress pr \<longleftrightarrow> \<not> HasFinished pr"

section \<open>Facts\<close>

lemmas progress_defs = FinishedSuccessfully_def Failed_def HasFinished_def InProgress_def

lemma Failed_not_FinishedSuccessfully: "Failed pr \<Longrightarrow> \<not> FinishedSuccessfully pr"
  by (auto simp: progress_defs split: if_splits)

lemma InProgress_iff:
  "InProgress pr \<longleftrightarrow> (pr_OperationStatus pr \<noteq> OperationStatusSuccess \<and>
     (pr_OperationStatus pr = OperationStatusFailure \<longrightarrow>
        IsRecoverable (pr_ErrorCode pr) \<and> pr_Attempts pr \<le> pr_MaxAttempts pr))"
  by (auto simp: progress_defs)

end
