(* ===== verification/Resource_Update.thy ===== *)
theory Resource_Update
  imports Progress
begin

text \<open>
  \<^verbatim>\<open>internal/metastructure/resource_update/resource_update.go\<close>: the logical update of
  one resource, its classification, the bookkeeping of plugin progress, and the state that
  follows from it. \<^verbatim>\<open>mergeRefsPreservingUserRefs\<close>, which edits JSON text through the
  gjson and sjson packages, is the argument \<open>merge\<close> of the operations that call it; its
  error result is always nil in the source.
\<close>

section \<open>Definitions\<close>

record ResourceUpdate =
  ru_Resource :: Resource
  ru_ResourceTarget :: Target
  ru_ExistingResource :: Resource
  ru_ExistingTarget :: Target
  ru_Operation :: OperationType
  ru_MetaData :: raw
  ru_State :: ResourceUpdateState
  ru_StartTs :: go_time
  ru_ModifiedTs :: go_time
  ru_Retries :: nat
  ru_Remaining :: int
  ru_Version :: string
  ru_MostRecentProgressResult :: ProgressResult
  ru_ProgressResult :: "ProgressResult list"
  ru_Source :: FormaCommandSource
  ru_RemainingResolvables :: "FormaeURI list"
  ru_StackLabel :: string
  ru_GroupID :: string
  ru_ReferenceLabels :: "(string \<times> string) list"
  ru_PreviousProperties :: raw
  ru_Filter :: "(raw \<Rightarrow> Target \<Rightarrow> bool) option"

definition zero_ResourceUpdate :: ResourceUpdate where
  "zero_ResourceUpdate = \<lparr>ru_Resource = zero_Resource, ru_ResourceTarget = zero_Target,
     ru_ExistingResource = zero_Resource, ru_ExistingTarget = zero_Target,
     ru_Operation = OperationRead, ru_MetaData = RawNil,
     ru_State = ResourceUpdateStateNotStarted, ru_StartTs = 0, ru_ModifiedTs = 0, ru_Retries = 0,
     ru_Remaining = 0, ru_Version = [], ru_MostRecentProgressResult = zero_ProgressResult,
     ru_ProgressResult = [], ru_Source = FormaCommandSourceUser, ru_RemainingResolvables = [],
     ru_StackLabel = [], ru_GroupID = [], ru_ReferenceLabels = [], ru_PreviousProperties = RawNil,
     ru_Filter = None\<rparr>"

definition ru_URI :: "ResourceUpdate \<Rightarrow> FormaeURI" where
  "ru_URI ru = res_URI (ru_Resource ru)"

definition HasResolvables :: "ResourceUpdate \<Rightarrow> bool" where
  "HasResolvables ru \<longleftrightarrow> length (ru_RemainingResolvables ru) > 0"

definition RequiresDelete :: "ResourceUpdate \<Rightarrow> bool" where
  "RequiresDelete ru \<longleftrightarrow> ru_Operation ru = OperationDelete \<or> ru_Operation ru = OperationReplace"

definition IsCreate :: "ResourceUpdate \<Rightarrow> bool" where
  "IsCreate ru \<longleftrightarrow> ru_Operation ru = OperationCreate \<or> ru_Operation ru = OperationReplace"

definition IsUpdate :: "ResourceUpdate \<Rightarrow> bool" where
  "IsUpdate ru \<longleftrightarrow> ru_Operation ru = OperationUpdate"

definition IsSync :: "ResourceUpdate \<Rightarrow> bool" where
  "IsSync ru \<longleftrightarrow> ru_Operation ru = OperationRead"

definition IsDelete :: "ResourceUpdate \<Rightarrow> bool" where
  "IsDelete ru \<longleftrightarrow> ru_Operation ru = OperationDelete \<or> ru_Operation ru = OperationReplace"

definition HasProgress :: "ResourceUpdate \<Rightarrow> bool" where
  "HasProgress ru \<longleftrightarrow> list_ex (\<lambda>p. pr_Operation p \<noteq> PRead) (ru_ProgressResult ru)"

definition FindProgress :: "ResourceUpdate \<Rightarrow> Operation \<Rightarrow> ProgressResult option" where
  "FindProgress ru operation = find (\<lambda>p. pr_Operation p = operation) (ru_ProgressResult ru)"

fun requiredOperations :: "OperationType \<Rightarrow> Operation list" where
  "requiredOperations OperationRead = [PRead]"
| "requiredOperations OperationCreate = [PCreate]"
| "requiredOperations OperationDelete = [PRead, PDelete]"
| "requiredOperations OperationUpdate = [PRead, PUpdate]"
| "requiredOperations OperationReplace = [PRead, PDelete, PCreate]"

text \<open>The loop of \<^verbatim>\<open>updateState\<close>: it stops at the first failed progress.\<close>

fun final_state :: "ProgressResult list \<Rightarrow> ResourceUpdateState \<Rightarrow> ResourceUpdateState" where
  "final_state [] st = st"
| "final_state (p # ps) st =
     (if Failed p then ResourceUpdateStateFailed
      else if pr_OperationStatus p \<noteq> OperationStatusSuccess
           then final_state ps ResourceUpdateStateInProgress
      else final_state ps st)"

definition updateState :: "ResourceUpdate \<Rightarrow> ResourceUpdate" where
  "updateState ru =
     (if ru_ProgressResult ru = [] then ru\<lparr>ru_State := ResourceUpdateStateNotStarted\<rparr>
      else if length (ru_ProgressResult ru) < length (requiredOperations (ru_Operation ru))
           then ru\<lparr>ru_State := ResourceUpdateStateInProgress\<rparr>
      else ru\<lparr>ru_State := final_state (ru_ProgressResult ru) ResourceUpdateStateSuccess\<rparr>)"

definition Reject :: "go_time \<Rightarrow> ResourceUpdate \<Rightarrow> ResourceUpdate" where
  "Reject now ru = ru\<lparr>ru_State := ResourceUpdateStateRejected, ru_ModifiedTs := now\<rparr>"

definition MarkAsSuccess :: "go_time \<Rightarrow> ResourceUpdate \<Rightarrow> ResourceUpdate" where
  "MarkAsSuccess now ru = ru\<lparr>ru_State := ResourceUpdateStateSuccess, ru_ModifiedTs := now\<rparr>"

definition MarkAsFailed :: "go_time \<Rightarrow> ResourceUpdate \<Rightarrow> ResourceUpdate" where
  "MarkAsFailed now ru = ru\<lparr>ru_State := ResourceUpdateStateFailed, ru_ModifiedTs := now\<rparr>"

definition FilterProgressMessage :: "ResourceUpdate \<Rightarrow> (ProgressResult \<Rightarrow> bool) \<Rightarrow> string" where
  "FilterProgressMessage ru flt =
     (case find flt (ru_ProgressResult ru) of None \<Rightarrow> '''' | Some p \<Rightarrow> pr_StatusMessage p)"

definition MostRecentFailureMessage :: "ResourceUpdate \<Rightarrow> string" where
  "MostRecentFailureMessage ru =
     (let msg = FilterProgressMessage ru (\<lambda>p. Failed p \<and> pr_StatusMessage p \<noteq> '''')
      in if msg \<noteq> '''' then msg
         else FilterProgressMessage ru
           (\<lambda>p. pr_OperationStatus p = OperationStatusFailure \<and> pr_StatusMessage p \<noteq> ''''))"

definition MostRecentStatusMessage :: "ResourceUpdate \<Rightarrow> string" where
  "MostRecentStatusMessage ru =
     (case find (\<lambda>p. pr_StatusMessage p \<noteq> '''') (rev (ru_ProgressResult ru)) of
        None \<Rightarrow> '''' | Some p \<Rightarrow> pr_StatusMessage p)"

subsection \<open>Properties from a plugin result\<close>

text \<open>
  \<^verbatim>\<open>json.Unmarshal\<close> into a \<^verbatim>\<open>map[string]any\<close>, and
  \<^verbatim>\<open>json.Marshal\<close>, which writes the keys of every map in sorted order.
\<close>

fun unmarshal_map :: "raw \<Rightarrow> (string \<times> json) list option" where
  "unmarshal_map (RawJson (JObj kvs)) = Some kvs"
| "unmarshal_map (RawJson JNull) = Some []"
| "unmarshal_map _ = None"

fun json_sorted :: "json \<Rightarrow> json" where
  "json_sorted (JArr js) = JArr (map json_sorted js)"
| "json_sorted (JObj kvs) = JObj (sort_key fst (map (\<lambda>(k, v). (k, json_sorted v)) kvs))"
| "json_sorted j = j"

definition marshal_map :: "(string \<times> json) list \<Rightarrow> raw" where
  "marshal_map kvs = RawJson (json_sorted (JObj kvs))"

text \<open>
  \<^verbatim>\<open>updateProperties\<close>: the incoming properties are split by the schema's fields;
  the regular ones are merged into the target, the rest become its read-only properties.
\<close>

definition updateProperties ::
  "(raw \<Rightarrow> raw \<Rightarrow> raw) \<Rightarrow> string list \<Rightarrow> raw \<Rightarrow> raw \<Rightarrow> (raw \<times> raw) option" where
  "updateProperties merge schemaFields incoming targetProperties =
     (let incoming' = (if incoming = RawNil \<or> incoming = RawEmpty then RawJson (JObj []) else incoming)
      in case unmarshal_map incoming' of
           None \<Rightarrow> None
         | Some allProperties \<Rightarrow>
             let properties = filter (\<lambda>(k, v). k \<in> set schemaFields) allProperties;
                 readOnly = filter (\<lambda>(k, v). k \<notin> set schemaFields) allProperties
             in Some (merge targetProperties (marshal_map properties),
                  if length readOnly > 0 then marshal_map readOnly else RawNil))"

definition updateResourceProperties ::
  "(raw \<Rightarrow> raw \<Rightarrow> raw) \<Rightarrow> ResourceUpdate \<Rightarrow> raw \<Rightarrow> ResourceUpdate option" where
  "updateResourceProperties merge ru incoming =
     map_option (\<lambda>(p, ro). ru\<lparr>ru_Resource := (ru_Resource ru)
         \<lparr>res_Properties := p, res_ReadOnlyProperties := ro\<rparr>\<rparr>)
       (updateProperties merge (sch_Fields (res_Schema (ru_Resource ru))) incoming
         (res_Properties (ru_Resource ru)))"

definition updateExistingResourceProperties ::
  "(raw \<Rightarrow> raw \<Rightarrow> raw) \<Rightarrow> ResourceUpdate \<Rightarrow> raw \<Rightarrow> ResourceUpdate option" where
  "updateExistingResourceProperties merge ru incoming =
     map_option (\<lambda>(p, ro). ru\<lparr>ru_ExistingResource := (ru_ExistingResource ru)
         \<lparr>res_Properties := p, res_ReadOnlyProperties := ro\<rparr>\<rparr>)
       (updateProperties merge (sch_Fields (res_Schema (ru_Resource ru))) incoming
         (res_Properties (ru_ExistingResource ru)))"

text \<open>
  Both functions mutate the update in place and may then fail; the first component is the update
  as it is left, the second whether an error is returned.
\<close>

definition updateResourceUpdateFromProgress ::
  "(raw \<Rightarrow> raw \<Rightarrow> raw) \<Rightarrow> ResourceUpdate \<Rightarrow> ProgressResult \<Rightarrow> ResourceUpdate \<times> bool" where
  "updateResourceUpdateFromProgress merge ru progress =
     (let ru1 = updateState ru;
          ru2 = ru1\<lparr>ru_Resource := (ru_Resource ru1)\<lparr>res_NativeID := pr_NativeID progress\<rparr>\<rparr>;
          ru3 = (if ru_StartTs ru2 = 0 then ru2\<lparr>ru_StartTs := pr_StartTs progress\<rparr> else ru2);
          ru4 = ru3\<lparr>ru_ModifiedTs := pr_ModifiedTs progress\<rparr>;
          result = (if FinishedSuccessfully progress \<and> ru_Operation ru4 = OperationUpdate \<and>
                       pr_Operation progress = PRead
                    then updateExistingResourceProperties merge ru4 (pr_ResourceProperties progress)
                    else updateResourceProperties merge ru4 (pr_ResourceProperties progress))
      in case result of None \<Rightarrow> (ru4, True) | Some ru5 \<Rightarrow> (ru5, False))"

definition store_progress :: "ResourceUpdate \<Rightarrow> ProgressResult \<Rightarrow> ResourceUpdate" where
  "store_progress ru progress =
     (if list_ex (\<lambda>p. pr_Operation p = pr_Operation progress) (ru_ProgressResult ru)
      then ru\<lparr>ru_ProgressResult := map (\<lambda>p. if pr_Operation p = pr_Operation progress
             then progress else p) (ru_ProgressResult ru)\<rparr>
      else ru\<lparr>ru_ProgressResult := ru_ProgressResult ru @ [progress],
             ru_MostRecentProgressResult := progress\<rparr>)"

definition RecordProgress ::
  "(raw \<Rightarrow> raw \<Rightarrow> raw) \<Rightarrow> ResourceUpdate \<Rightarrow> ProgressResult \<Rightarrow> ResourceUpdate \<times> bool" where
  "RecordProgress merge ru progress =
     updateResourceUpdateFromProgress merge (store_progress ru progress) progress"

end
