(* ===== verification/Pipeline.thy ===== *)
theory Pipeline
  imports Resource_Update
begin

text \<open>
  The first half of \<^verbatim>\<open>internal/metastructure/changeset/changeset.go\<close>: resource update
  groups, the links between them, the construction of a pipeline from resource updates, and cycle
  detection.

  Groups are heap objects that point at each other. A pointer to a group is the operation URI the
  group is created under: \<^verbatim>\<open>Init\<close> creates one group per key of
  \<^verbatim>\<open>ResourceUpdateGroups\<close>, no later code creates one, and no code assigns the
  \<^verbatim>\<open>URI\<close> field, so comparing two groups' URIs is comparing the pointers. The heap keeps
  a group after its key is deleted from the map, since other groups still point to it. Following a
  pointer outside the heap is Go's nil dereference: the operation is \<open>None\<close>, a panic.
\<close>

section \<open>Groups, heap and links\<close>

record ResourceUpdateGroup =
  rug_URI :: FormaeURI
  rug_Updates :: "ResourceUpdate list"
  rug_DownstreamGroups :: "FormaeURI list"
  rug_UpstreamGroups :: "FormaeURI list"

type_synonym group_heap = "(FormaeURI \<times> ResourceUpdateGroup) list"

fun heap_upd ::
  "FormaeURI \<Rightarrow> (ResourceUpdateGroup \<Rightarrow> ResourceUpdateGroup) \<Rightarrow> group_heap \<Rightarrow> group_heap" where
  "heap_upd p f [] = []"
| "heap_upd p f ((k, g) # h) = (if k = p then (k, f g) # h else (k, g) # heap_upd p f h)"

text \<open>The loops over Go maps, each with an iteration order of its own.\<close>

datatype range_site =
    SiteDeleteOps | SiteCreateUpdateOps | SiteConnect | SiteHasCycles | SiteExecutable
  | SiteAvailable | SiteResume | SiteFinished

type_synonym range_orders = "range_site \<Rightarrow> string list \<Rightarrow> string list"

definition range_orders :: "range_orders \<Rightarrow> bool" where
  "range_orders ord \<longleftrightarrow> (\<forall>s. range_order (ord s))"

text \<open>\<^verbatim>\<open>for k, v := range m\<close> over a map with string keys.\<close>

definition range_map :: "(string list \<Rightarrow> string list) \<Rightarrow> (string \<times> 'v) list \<Rightarrow> (string \<times> 'v) list"
  where
  "range_map ord m =
     concat (map (\<lambda>k. case map_of m k of None \<Rightarrow> [] | Some v \<Rightarrow> [(k, v)]) (ord (map fst m)))"

definition createOperationURI :: "FormaeURI \<Rightarrow> OperationType \<Rightarrow> FormaeURI" where
  "createOperationURI baseURI operation =
     KSUID baseURI @ ''/'' @ PropertyPath baseURI @ ''/'' @ operation_string operation"

abbreviation op_URI :: "ResourceUpdate \<Rightarrow> FormaeURI" where
  "op_URI u \<equiv> createOperationURI (ru_URI u) (ru_Operation u)"

definition getResourceUpdateIdentifier :: "ResourceUpdate \<Rightarrow> string" where
  "getResourceUpdateIdentifier update =
     ru_URI update @ ''-'' @ operation_string (ru_Operation update)"

definition LinkWith :: "FormaeURI \<Rightarrow> FormaeURI \<Rightarrow> group_heap \<Rightarrow> group_heap option" where
  "LinkWith rug upstream h =
     (case map_of h rug of None \<Rightarrow> None | Some r \<Rightarrow>
      case map_of h upstream of None \<Rightarrow> None | Some _ \<Rightarrow>
        if upstream \<in> set (rug_UpstreamGroups r) then Some h
        else Some (heap_upd upstream
               (\<lambda>g. g\<lparr>rug_DownstreamGroups := rug_DownstreamGroups g @ [rug]\<rparr>)
               (heap_upd rug (\<lambda>g. g\<lparr>rug_UpstreamGroups := rug_UpstreamGroups g @ [upstream]\<rparr>) h)))"

definition RemoveUpstreamGroup :: "FormaeURI \<Rightarrow> FormaeURI \<Rightarrow> group_heap \<Rightarrow> group_heap option" where
  "RemoveUpstreamGroup rug upstream h =
     (case map_of h rug of None \<Rightarrow> None | Some _ \<Rightarrow>
        Some (heap_upd rug (\<lambda>g. g\<lparr>rug_UpstreamGroups :=
          remove_first (\<lambda>p. p = upstream) (rug_UpstreamGroups g)\<rparr>) h))"

definition UnlinkWith :: "FormaeURI \<Rightarrow> FormaeURI \<Rightarrow> group_heap \<Rightarrow> group_heap option" where
  "UnlinkWith rug upstream h =
     (case map_of h upstream of None \<Rightarrow> None | Some _ \<Rightarrow>
        map_option (heap_upd upstream (\<lambda>g. g\<lparr>rug_DownstreamGroups :=
          remove_first (\<lambda>p. p = rug) (rug_DownstreamGroups g)\<rparr>)) (RemoveUpstreamGroup rug upstream h))"

definition HasRunningUpdate :: "ResourceUpdateGroup \<Rightarrow> bool" where
  "HasRunningUpdate rug \<longleftrightarrow>
     list_ex (\<lambda>u. ru_State u = ResourceUpdateStateInProgress) (rug_Updates rug)"

definition GetRunningUpdate :: "ResourceUpdateGroup \<Rightarrow> ResourceUpdate option" where
  "GetRunningUpdate rug = find (\<lambda>u. ru_State u = ResourceUpdateStateInProgress) (rug_Updates rug)"

text \<open>\<^verbatim>\<open>NextUpdate\<close> returns a pointer: the index into \<^verbatim>\<open>Updates\<close>.\<close>

definition NextUpdate :: "ResourceUpdateGroup \<Rightarrow> (nat \<times> ResourceUpdate \<times> string) option" where
  "NextUpdate rug =
     (case List.find (\<lambda>i. ru_State (rug_Updates rug ! i) = ResourceUpdateStateNotStarted)
        [0..<length (rug_Updates rug)] of
        None \<Rightarrow> None
      | Some i \<Rightarrow> Some (i, rug_Updates rug ! i, getResourceUpdateIdentifier (rug_Updates rug ! i)))"

definition Pop :: "ResourceUpdate \<Rightarrow> ResourceUpdateGroup \<Rightarrow> ResourceUpdateGroup" where
  "Pop update rug = rug\<lparr>rug_Updates :=
     remove_first (\<lambda>u. ru_URI u = ru_URI update \<and> ru_Operation u = ru_Operation update)
       (rug_Updates rug)\<rparr>"

definition Done :: "ResourceUpdateGroup \<Rightarrow> bool" where
  "Done rug \<longleftrightarrow> rug_Updates rug = []"

section \<open>Building the pipeline\<close>

text \<open>A replace is split into a delete and a create of the same resource.\<close>

fun split_replace :: "ResourceUpdate \<Rightarrow> ResourceUpdate list" where
  "split_replace update =
     (if ru_Operation update = OperationReplace
      then [update\<lparr>ru_Operation := OperationDelete\<rparr>, update\<lparr>ru_Operation := OperationCreate\<rparr>]
      else [update])"

definition all_ops :: "ResourceUpdate list \<Rightarrow> ResourceUpdate list" where
  "all_ops resourceUpdates = concat (map split_replace resourceUpdates)"

definition new_group :: "ResourceUpdate \<Rightarrow> ResourceUpdateGroup" where
  "new_group update = \<lparr>rug_URI = op_URI update, rug_Updates = [update],
     rug_DownstreamGroups = [], rug_UpstreamGroups = []\<rparr>"

definition create_groups :: "ResourceUpdate list \<Rightarrow> group_heap" where
  "create_groups allOps = fold (\<lambda>u. AList.update (op_URI u) (new_group u)) allOps []"

text \<open>Collecting operations of some kind into a map, the last one under a key winning.\<close>

definition collect_ops ::
  "(ResourceUpdate \<Rightarrow> bool) \<Rightarrow> (ResourceUpdate \<Rightarrow> string) \<Rightarrow> ResourceUpdate list \<Rightarrow>
    (string \<times> ResourceUpdate) list" where
  "collect_ops p key allOps = fold (\<lambda>op m. if p op then AList.update (key op) op m else m) allOps []"

abbreviation is_delete_op :: "ResourceUpdate \<Rightarrow> bool" where
  "is_delete_op op \<equiv> ru_Operation op = OperationDelete"

abbreviation is_create_op :: "ResourceUpdate \<Rightarrow> bool" where
  "is_create_op op \<equiv> ru_Operation op = OperationCreate"

abbreviation is_create_update_op :: "ResourceUpdate \<Rightarrow> bool" where
  "is_create_update_op op \<equiv> ru_Operation op = OperationCreate \<or> ru_Operation op = OperationUpdate"

definition buildDeleteDependencies ::
  "range_orders \<Rightarrow> ResourceUpdate list \<Rightarrow> group_heap \<Rightarrow> group_heap option" where
  "buildDeleteDependencies ord allOps h =
     (let deleteOps = collect_ops is_delete_op ru_URI allOps
      in ofold (\<lambda>(_, deleteOp).
           let dependentOpURI = createOperationURI (ru_URI deleteOp) OperationDelete
           in ofold (\<lambda>resolvableURI h.
                let dependencyBaseURI = Stripped resolvableURI
                in case map_of deleteOps dependencyBaseURI of
                     None \<Rightarrow> Some h
                   | Some _ \<Rightarrow>
                       LinkWith (createOperationURI dependencyBaseURI OperationDelete)
                         dependentOpURI h)
              (ru_RemainingResolvables deleteOp))
           (range_map (ord SiteDeleteOps) deleteOps) h)"

definition buildCreateUpdateDependencies ::
  "range_orders \<Rightarrow> ResourceUpdate list \<Rightarrow> group_heap \<Rightarrow> group_heap option" where
  "buildCreateUpdateDependencies ord allOps h =
     (let createUpdateOps = collect_ops is_create_update_op ru_URI allOps
      in ofold (\<lambda>(_, createOp).
           let dependentOpURI = createOperationURI (ru_URI createOp) (ru_Operation createOp)
           in ofold (\<lambda>resolvableURI h.
                let dependencyBaseURI = Stripped resolvableURI
                in case map_of createUpdateOps dependencyBaseURI of
                     None \<Rightarrow> Some h
                   | Some dependencyOp \<Rightarrow>
                       LinkWith dependentOpURI
                         (createOperationURI dependencyBaseURI (ru_Operation dependencyOp)) h)
              (ru_RemainingResolvables createOp))
           (range_map (ord SiteCreateUpdateOps) createUpdateOps) h)"

definition resource_key :: "ResourceUpdate \<Rightarrow> string" where
  "resource_key op = res_Stack (ru_Resource op) @ ''/'' @ res_Label (ru_Resource op) @ ''/'' @
     res_Type (ru_Resource op)"

definition connectDeleteToCreate ::
  "range_orders \<Rightarrow> ResourceUpdate list \<Rightarrow> group_heap \<Rightarrow> group_heap option" where
  "connectDeleteToCreate ord allOps h =
     (let deleteOps = collect_ops is_delete_op resource_key allOps;
          createOps = collect_ops is_create_op resource_key allOps
      in ofold (\<lambda>(resourceKey, deleteOp) h.
           case map_of createOps resourceKey of
             None \<Rightarrow> Some h
           | Some createOp \<Rightarrow>
               let deleteOpURI = createOperationURI (ru_URI deleteOp) OperationDelete;
                   createOpURI = createOperationURI (ru_URI createOp) OperationCreate
               in if map_of h deleteOpURI \<noteq> None \<and> map_of h createOpURI \<noteq> None
                  then LinkWith createOpURI deleteOpURI h else Some h)
           (range_map (ord SiteConnect) deleteOps) h)"

definition buildOperationRelationships ::
  "range_orders \<Rightarrow> ResourceUpdate list \<Rightarrow> group_heap \<Rightarrow> group_heap option" where
  "buildOperationRelationships ord allOps h =
     Option.bind (buildDeleteDependencies ord allOps h) (\<lambda>h.
     Option.bind (buildCreateUpdateDependencies ord allOps h) (\<lambda>h.
     connectDeleteToCreate ord allOps h))"

section \<open>Cycle detection\<close>

text \<open>
  \<^verbatim>\<open>dfs\<close> explores every path with its own copy of the visited set. It ends because a path
  cannot be longer than the heap.
\<close>

function dfs :: "group_heap \<Rightarrow> FormaeURI \<Rightarrow> FormaeURI list \<Rightarrow> bool option" where
  "dfs h grp visited =
     (case map_of h grp of
        None \<Rightarrow> None
      | Some g \<Rightarrow>
          if grp \<in> set visited then Some True
          else if length (rug_DownstreamGroups g) = 0 then Some False
          else oexists (\<lambda>d. dfs h d (grp # visited)) (rug_DownstreamGroups g))"
  by pat_completeness auto

termination
proof (relation "measure (\<lambda>(h, _, visited). card (set (map fst h) - set visited))", goal_cases)
  case 1
  show ?case by simp
next
  case (2 h grp visited g d)
  then have "grp \<in> set (map fst h) - set visited"
    by (simp add: map_of_eq_Some_in_keys)
  then have "set (map fst h) - set (grp # visited) \<subset> set (map fst h) - set visited"
    by auto
  then show ?case
    by (auto intro!: psubset_card_mono)
qed

declare dfs.simps [simp del]

definition HasCycles :: "range_orders \<Rightarrow> FormaeURI list \<Rightarrow> group_heap \<Rightarrow> bool option" where
  "HasCycles ord keys h = oexists (\<lambda>grp. dfs h grp []) (ord SiteHasCycles keys)"

text \<open>
  \<^verbatim>\<open>Init\<close> on a new pipeline: the keys of \<^verbatim>\<open>ResourceUpdateGroups\<close> with the
  heap, or \<^verbatim>\<open>FormaCyclesDetectedError\<close>.
\<close>

datatype init_error = FormaCyclesDetectedError

record ResourceUpdatePipeline =
  pl_keys :: "FormaeURI list"
  pl_heap :: group_heap

definition pipeline_Init ::
  "range_orders \<Rightarrow> ResourceUpdate list \<Rightarrow> (init_error + ResourceUpdatePipeline) option" where
  "pipeline_Init ord resourceUpdates =
     (let allOps = all_ops resourceUpdates;
          groups = create_groups allOps
      in Option.bind (buildOperationRelationships ord allOps groups) (\<lambda>h.
         map_option (\<lambda>cyclic.
             if cyclic then Inl FormaCyclesDetectedError
             else Inr \<lparr>pl_keys = map fst groups, pl_heap = h\<rparr>)
           (HasCycles ord (map fst groups) h)))"


section \<open>The heap as a graph\<close>

text \<open>
  Views of the heap for the proofs: the fields of the group at an address, empty outside the
  heap, and the edge relation, an edge leading from a group to one that waits for it.
\<close>

definition down :: "group_heap \<Rightarrow> FormaeURI \<Rightarrow> FormaeURI list" where
  "down h k = (case map_of h k of None \<Rightarrow> [] | Some g \<Rightarrow> rug_DownstreamGroups g)"

definition up :: "group_heap \<Rightarrow> FormaeURI \<Rightarrow> FormaeURI list" where
  "up h k = (case map_of h k of None \<Rightarrow> [] | Some g \<Rightarrow> rug_UpstreamGroups g)"

definition upds :: "group_heap \<Rightarrow> FormaeURI \<Rightarrow> ResourceUpdate list" where
  "upds h k = (case map_of h k of None \<Rightarrow> [] | Some g \<Rightarrow> rug_Updates g)"

definition uris_ok :: "group_heap \<Rightarrow> bool" where
  "uris_ok h \<longleftrightarrow> (\<forall>(k, g) \<in> set h. rug_URI g = k)"

definition edges :: "group_heap \<Rightarrow> (FormaeURI \<times> FormaeURI) set" where
  "edges h = {(u, d). d \<in> set (down h u)}"

definition links_ok :: "group_heap \<Rightarrow> bool" where
  "links_ok h \<longleftrightarrow> (\<forall>u d. d \<in> set (down h u) \<longleftrightarrow> u \<in> set (up h d)) \<and>
     (\<forall>k. distinct (down h k) \<and> distinct (up h k))"

text \<open>Two heaps with the same groups, up to their links.\<close>

definition same_nodes :: "group_heap \<Rightarrow> group_heap \<Rightarrow> bool" where
  "same_nodes h h' \<longleftrightarrow> map fst h' = map fst h \<and> upds h' = upds h \<and> (uris_ok h \<longrightarrow> uris_ok h')"

lemma views_Some:
  assumes "map_of h k = Some g"
  shows "down h k = rug_DownstreamGroups g" "up h k = rug_UpstreamGroups g" "upds h k = rug_Updates g"
  using assms by (simp_all add: down_def up_def upds_def)

lemma views_dom:
  "d \<in> set (down h k) \<Longrightarrow> \<exists>g. map_of h k = Some g"
  "d \<in> set (up h k) \<Longrightarrow> \<exists>g. map_of h k = Some g"
  "u \<in> set (upds h k) \<Longrightarrow> \<exists>g. map_of h k = Some g"
  by (cases "map_of h k"; simp add: down_def up_def upds_def)+

lemma map_fst_heap_upd [heap_simps]: "map fst (heap_upd p f h) = map fst h"
  by (induction h) auto

lemma fst_set_heap_upd [heap_simps]: "fst ` set (heap_upd p f h) = fst ` set h"
  by (metis list.set_map map_fst_heap_upd)

lemma map_of_heap_upd [heap_simps]:
  "map_of (heap_upd p f h) k = (if k = p then map_option f (map_of h k) else map_of h k)"
  by (induction h) auto

lemma heap_upd_id: "(\<And>g. map_of h p = Some g \<Longrightarrow> f g = g) \<Longrightarrow> heap_upd p f h = h"
  by (induction h) auto

lemma uris_ok_Cons: "uris_ok ((k, g) # h) \<longleftrightarrow> rug_URI g = k \<and> uris_ok h"
  by (simp add: uris_ok_def)

lemma uris_ok_heap_upd [heap_simps]:
  assumes "\<And>g. rug_URI (f g) = rug_URI g"
  shows "uris_ok (heap_upd p f h) = uris_ok h"
proof (induction h)
  case (Cons a h)
  then show ?case by (cases a) (simp add: uris_ok_Cons assms)
qed simp

lemma map_of_keys_cong: "map fst h = map fst h' \<Longrightarrow> map_of h k = None \<longleftrightarrow> map_of h' k = None"
  by (metis list.set_map map_of_eq_None_iff)

lemma same_nodes_refl: "same_nodes h h"
  by (simp add: same_nodes_def)

lemma same_nodes_trans: "same_nodes h h1 \<Longrightarrow> same_nodes h1 h2 \<Longrightarrow> same_nodes h h2"
  by (simp add: same_nodes_def)

lemma same_nodes_keys: "same_nodes h h' \<Longrightarrow> map_of h' k = None \<longleftrightarrow> map_of h k = None"
  by (metis map_of_keys_cong same_nodes_def)

lemma LinkWith_ok:
  assumes "links_ok h" "map_of h a \<noteq> None" "map_of h b \<noteq> None"
  shows "\<exists>h'. LinkWith a b h = Some h' \<and> links_ok h' \<and> same_nodes h h' \<and>
    edges h' = insert (b, a) (edges h)"
proof -
  obtain ga gb where ga: "map_of h a = Some ga" and gb: "map_of h b = Some gb"
    using assms(2,3) by auto
  have sym: "\<And>u d. d \<in> set (down h u) \<longleftrightarrow> u \<in> set (up h d)"
    and dist: "\<And>k. distinct (down h k) \<and> distinct (up h k)"
    using assms(1) by (auto simp: links_ok_def)
  show ?thesis
  proof (cases "b \<in> set (rug_UpstreamGroups ga)")
    case True
    then have "(b, a) \<in> edges h" using sym ga by (simp add: edges_def up_def)
    then show ?thesis
      using True ga gb assms(1) same_nodes_refl by (auto simp: LinkWith_def)
  next
    case False
    define h' where "h' = heap_upd b (\<lambda>g. g\<lparr>rug_DownstreamGroups := rug_DownstreamGroups g @ [a]\<rparr>)
      (heap_upd a (\<lambda>g. g\<lparr>rug_UpstreamGroups := rug_UpstreamGroups g @ [b]\<rparr>) h)"
    have up: "up h' k = up h k @ (if k = a then [b] else [])" for k
      using ga by (auto simp: h'_def up_def heap_simps split: option.splits)
    have down: "down h' k = down h k @ (if k = b then [a] else [])" for k
      using gb by (auto simp: h'_def down_def heap_simps split: option.splits)
    have new: "b \<notin> set (up h a)" using False ga by (simp add: up_def)
    then have "links_ok h'"
      using sym dist by (auto simp: links_ok_def up down)
    moreover have "same_nodes h h'"
      by (auto simp: same_nodes_def h'_def heap_simps upds_def fun_eq_iff split: option.splits)
    moreover have "edges h' = insert (b, a) (edges h)"
      by (auto simp: edges_def down)
    moreover have "LinkWith a b h = Some h'"
      using False ga gb by (simp add: LinkWith_def h'_def)
    ultimately show ?thesis by blast
  qed
qed


section \<open>Collected operations\<close>

lemma collect_ops_snoc:
  "collect_ops p key (ops @ [x]) =
     (if p x then AList.update (key x) x (collect_ops p key ops) else collect_ops p key ops)"
  by (simp add: collect_ops_def)

lemma map_of_collect_ops:
  "map_of (collect_ops p key ops) k = find (\<lambda>op. p op \<and> key op = k) (rev ops)"
proof (induction ops rule: rev_induct)
  case Nil
  then show ?case by (simp add: collect_ops_def)
next
  case (snoc x ops)
  then show ?case by (auto simp: collect_ops_snoc update_conv')
qed

lemma find_rev_SomeD: "find q (rev ops) = Some x \<Longrightarrow> x \<in> set ops \<and> q x"
  by (auto simp: find_Some_iff) (metis nth_mem set_rev length_rev)

lemma find_rev_None: "find q (rev ops) = None \<longleftrightarrow> (\<forall>x \<in> set ops. \<not> q x)"
  by (auto simp: find_None_iff)

lemma collect_opsD:
  "map_of (collect_ops p key ops) k = Some op \<Longrightarrow> op \<in> set ops \<and> p op \<and> key op = k"
  unfolding map_of_collect_ops by (drule find_rev_SomeD) simp

lemma collect_ops_dom:
  "map_of (collect_ops p key ops) k \<noteq> None \<longleftrightarrow> (\<exists>op \<in> set ops. p op \<and> key op = k)"
  unfolding map_of_collect_ops find_rev_None by blast

text \<open>When the key tells the operations apart, every operation is collected.\<close>

lemma collect_ops_eq:
  assumes "inj_on key {op \<in> set ops. p op}"
  shows "map_of (collect_ops p key ops) k = Some op \<longleftrightarrow> op \<in> set ops \<and> p op \<and> key op = k"
proof
  assume r: "op \<in> set ops \<and> p op \<and> key op = k"
  then have "map_of (collect_ops p key ops) k \<noteq> None"
    unfolding collect_ops_dom by (intro bexI [of _ op]) simp_all
  then obtain op' where "map_of (collect_ops p key ops) k = Some op'" by auto
  moreover from collect_opsD [OF this] r have "op' = op"
    using inj_onD [OF assms] by blast
  ultimately show "map_of (collect_ops p key ops) k = Some op" by simp
qed (rule collect_opsD)

lemma distinct_collect_ops: "distinct (map fst (collect_ops p key ops))"
proof (induction ops rule: rev_induct)
  case Nil
  then show ?case by (simp add: collect_ops_def)
next
  case (snoc x ops)
  then show ?case by (simp add: collect_ops_snoc distinct_update)
qed

lemma set_range_map:
  assumes "range_order ord"
  shows "set (range_map ord m) = {(k, v). map_of m k = Some v}"
proof -
  have "(k, v) \<in> set (range_map ord m) \<longleftrightarrow> k \<in> fst ` set m \<and> map_of m k = Some v" for k v
    using range_orderD(2) [OF assms, of "map fst m"]
    by (auto simp: range_map_def split: option.splits) (metis fst_conv)
  then show ?thesis by (auto dest: map_of_eq_Some_in_keys)
qed

lemma map_of_create_groups:
  "map_of (create_groups ops) k = map_option new_group (find (\<lambda>op. op_URI op = k) (rev ops))"
proof (induction ops rule: rev_induct)
  case Nil
  then show ?case by (simp add: create_groups_def)
next
  case (snoc x ops)
  then show ?case by (auto simp: create_groups_def update_conv')
qed

lemma create_groups_dom: "op \<in> set ops \<Longrightarrow> map_of (create_groups ops) (op_URI op) \<noteq> None"
  by (auto simp: map_of_create_groups find_rev_None)

lemma distinct_create_groups: "distinct (map fst (create_groups ops))"
proof (induction ops rule: rev_induct)
  case Nil
  then show ?case by (simp add: create_groups_def)
next
  case (snoc x ops)
  then show ?case by (simp add: create_groups_def distinct_update)
qed

lemma links_ok_create_groups: "links_ok (create_groups ops)"
  and edges_create_groups: "edges (create_groups ops) = {}"
  by (auto simp: links_ok_def edges_def down_def up_def map_of_create_groups new_group_def
      split: option.splits)

lemma uris_ok_create_groups: "uris_ok (create_groups ops)"
proof -
  have "rug_URI g = k" if "map_of (create_groups ops) k = Some g" for k g
    using that find_rev_SomeD by (fastforce simp: map_of_create_groups new_group_def)
  then show ?thesis
    using distinct_create_groups by (auto simp: uris_ok_def)
qed

section \<open>The links that are built\<close>

text \<open>A heap that extends the fresh groups by the edges \<open>E\<close>.\<close>

definition built :: "ResourceUpdate list \<Rightarrow> (FormaeURI \<times> FormaeURI) set \<Rightarrow> group_heap \<Rightarrow> bool" where
  "built ops E h \<longleftrightarrow> links_ok h \<and> same_nodes (create_groups ops) h \<and> edges h = E"

lemma built_dom:
  "built ops E h \<Longrightarrow> op \<in> set ops \<Longrightarrow> op_URI op = k \<Longrightarrow> map_of h k \<noteq> None"
  using create_groups_dom same_nodes_keys unfolding built_def by blast

lemma built_LinkWith:
  assumes "built ops E h" "x \<in> set ops" "op_URI x = a" "y \<in> set ops" "op_URI y = b"
  shows "\<exists>h'. LinkWith a b h = Some h' \<and> built ops (E \<union> {(b, a)}) h'"
  using LinkWith_ok [OF _ built_dom [OF assms(1,2,3)] built_dom [OF assms(1,4,5)]] assms(1)
    same_nodes_trans unfolding built_def by fastforce

definition delete_edges :: "ResourceUpdate list \<Rightarrow> (FormaeURI \<times> FormaeURI) set" where
  "delete_edges ops =
     (\<Union>(k, op) \<in> {(k, op). map_of (collect_ops is_delete_op ru_URI ops) k = Some op}.
      \<Union>r \<in> set (ru_RemainingResolvables op).
        if map_of (collect_ops is_delete_op ru_URI ops) (Stripped r) = None then {}
        else {(op_URI op, createOperationURI (Stripped r) OperationDelete)})"

definition create_edges :: "ResourceUpdate list \<Rightarrow> (FormaeURI \<times> FormaeURI) set" where
  "create_edges ops =
     (\<Union>(k, op) \<in> {(k, op). map_of (collect_ops is_create_update_op ru_URI ops) k = Some op}.
      \<Union>r \<in> set (ru_RemainingResolvables op).
        case map_of (collect_ops is_create_update_op ru_URI ops) (Stripped r) of
          None \<Rightarrow> {} | Some dep \<Rightarrow> {(op_URI dep, op_URI op)})"

definition connect_edges :: "ResourceUpdate list \<Rightarrow> (FormaeURI \<times> FormaeURI) set" where
  "connect_edges ops =
     (\<Union>(k, op) \<in> {(k, op). map_of (collect_ops is_delete_op resource_key ops) k = Some op}.
        case map_of (collect_ops is_create_op resource_key ops) k of
          None \<Rightarrow> {} | Some cr \<Rightarrow> {(op_URI op, op_URI cr)})"


lemma built_buildDelete:
  assumes ord: "range_orders ord" and "built ops E h"
  shows "\<exists>h'. buildDeleteDependencies ord ops h = Some h' \<and> built ops (E \<union> delete_edges ops) h'"
proof -
  let ?ops = "collect_ops is_delete_op ru_URI ops"
  let ?link = "\<lambda>op r. if map_of ?ops (Stripped r) = None then {}
    else {(op_URI op, createOperationURI (Stripped r) OperationDelete)}"
  have link: "\<exists>h'. (case map_of ?ops (Stripped r) of None \<Rightarrow> Some h
      | Some _ \<Rightarrow> LinkWith (createOperationURI (Stripped r) OperationDelete)
          (createOperationURI (ru_URI op) OperationDelete) h) = Some h' \<and> built ops (E \<union> ?link op r) h'"
    if m: "map_of ?ops k = Some op" and b: "built ops E h" for k op r E h
  proof (cases "map_of ?ops (Stripped r)")
    case None
    then show ?thesis using b by simp
  next
    case (Some dep)
    note op = collect_opsD [OF m] and dep = collect_opsD [OF Some]
    from built_LinkWith [OF b, of dep "createOperationURI (Stripped r) OperationDelete" op] op dep Some
    show ?thesis by auto
  qed
  have "\<exists>h'. buildDeleteDependencies ord ops h = Some h' \<and> built ops
      (E \<union> (\<Union>x \<in> set (range_map (ord SiteDeleteOps) ?ops).
         \<Union>r \<in> set (ru_RemainingResolvables (snd x)). ?link (snd x) r)) h'"
    unfolding buildDeleteDependencies_def Let_def
  proof (rule ofold_accum [where P = "built ops"], goal_cases)
    case (1 x E s)
    obtain k op where x: "x = (k, op)" by (cases x)
    with 1 set_range_map [of "ord SiteDeleteOps" ?ops] ord have "map_of ?ops k = Some op"
      by (simp add: range_orders_def)
    from link [OF this] show ?case
      unfolding x prod.case snd_conv by (rule ofold_accum [where P = "built ops"]) (assumption, rule 1(2))
  qed (rule assms(2))
  then show ?thesis
    using set_range_map [of "ord SiteDeleteOps" ?ops] ord
    by (simp add: delete_edges_def range_orders_def split_beta)
qed

lemma built_buildCreateUpdate:
  assumes ord: "range_orders ord" and "built ops E h"
  shows "\<exists>h'. buildCreateUpdateDependencies ord ops h = Some h' \<and>
    built ops (E \<union> create_edges ops) h'"
proof -
  let ?ops = "collect_ops is_create_update_op ru_URI ops"
  let ?link = "\<lambda>op r. case map_of ?ops (Stripped r) of
     None \<Rightarrow> {} | Some dep \<Rightarrow> {(op_URI dep, op_URI op)}"
  have link: "\<exists>h'. (case map_of ?ops (Stripped r) of None \<Rightarrow> Some h
      | Some dep \<Rightarrow> LinkWith (createOperationURI (ru_URI op) (ru_Operation op))
          (createOperationURI (Stripped r) (ru_Operation dep)) h) = Some h' \<and>
      built ops (E \<union> ?link op r) h'"
    if m: "map_of ?ops k = Some op" and b: "built ops E h" for k op r E h
  proof (cases "map_of ?ops (Stripped r)")
    case None
    then show ?thesis using b by simp
  next
    case (Some dep)
    note op = collect_opsD [OF m] and dep = collect_opsD [OF Some]
    from built_LinkWith [OF b, of op "op_URI op" dep "op_URI dep"] op dep Some
    show ?thesis by simp
  qed
  have "\<exists>h'. buildCreateUpdateDependencies ord ops h = Some h' \<and> built ops
      (E \<union> (\<Union>x \<in> set (range_map (ord SiteCreateUpdateOps) ?ops).
         \<Union>r \<in> set (ru_RemainingResolvables (snd x)). ?link (snd x) r)) h'"
    unfolding buildCreateUpdateDependencies_def Let_def
  proof (rule ofold_accum [where P = "built ops"], goal_cases)
    case (1 x E s)
    obtain k op where x: "x = (k, op)" by (cases x)
    with 1 set_range_map [of "ord SiteCreateUpdateOps" ?ops] ord have "map_of ?ops k = Some op"
      by (simp add: range_orders_def)
    from link [OF this] show ?case
      unfolding x prod.case snd_conv by (rule ofold_accum [where P = "built ops"]) (assumption, rule 1(2))
  qed (rule assms(2))
  then show ?thesis
    using set_range_map [of "ord SiteCreateUpdateOps" ?ops] ord
    by (simp add: create_edges_def range_orders_def split_beta)
qed

lemma built_connect:
  assumes ord: "range_orders ord" and "built ops E h"
  shows "\<exists>h'. connectDeleteToCreate ord ops h = Some h' \<and> built ops (E \<union> connect_edges ops) h'"
proof -
  let ?dels = "collect_ops is_delete_op resource_key ops"
  let ?crs = "collect_ops is_create_op resource_key ops"
  have "\<exists>h'. connectDeleteToCreate ord ops h = Some h' \<and> built ops
      (E \<union> (\<Union>x \<in> set (range_map (ord SiteConnect) ?dels). case map_of ?crs (fst x) of
          None \<Rightarrow> {} | Some cr \<Rightarrow> {(op_URI (snd x), op_URI cr)})) h'"
    unfolding connectDeleteToCreate_def Let_def
  proof (rule ofold_accum [where P = "built ops"], goal_cases)
    case (1 x E s)
    obtain k op where x: "x = (k, op)" by (cases x)
    with 1 set_range_map [of "ord SiteConnect" ?dels] ord have "map_of ?dels k = Some op"
      by (simp add: range_orders_def)
    note op = collect_opsD [OF this]
    show ?case
    proof (cases "map_of ?crs k")
      case None
      then show ?thesis using 1 x by simp
    next
      case (Some cr)
      note cr = collect_opsD [OF Some]
      have "map_of s (op_URI op) \<noteq> None" "map_of s (op_URI cr) \<noteq> None"
        using built_dom [OF 1(2)] op cr by blast+
      with built_LinkWith [OF 1(2), of cr "op_URI cr" op "op_URI op"] op cr Some
      show ?thesis by (simp add: x)
    qed
  qed (rule assms(2))
  then show ?thesis
    using set_range_map [of "ord SiteConnect" ?dels] ord
    by (simp add: connect_edges_def range_orders_def split_beta)
qed

definition dependency_edges :: "ResourceUpdate list \<Rightarrow> (FormaeURI \<times> FormaeURI) set" where
  "dependency_edges ops = delete_edges ops \<union> create_edges ops \<union> connect_edges ops"

lemma built_relationships:
  assumes "range_orders ord"
  shows "\<exists>h. buildOperationRelationships ord ops (create_groups ops) = Some h \<and>
    built ops (dependency_edges ops) h"
proof -
  have "built ops {} (create_groups ops)"
    by (simp add: built_def links_ok_create_groups edges_create_groups same_nodes_refl)
  from built_buildDelete [OF assms this] obtain h1 where
    h1: "buildDeleteDependencies ord ops (create_groups ops) = Some h1"
    "built ops (delete_edges ops) h1" by auto
  from built_buildCreateUpdate [OF assms this(2)] obtain h2 where
    h2: "buildCreateUpdateDependencies ord ops h1 = Some h2"
    "built ops (delete_edges ops \<union> create_edges ops) h2" by auto
  from built_connect [OF assms this(2)] h1 h2 show ?thesis
    by (auto simp: buildOperationRelationships_def dependency_edges_def)
qed


section \<open>Cycle detection is exact\<close>

definition edges_closed :: "group_heap \<Rightarrow> bool" where
  "edges_closed h \<longleftrightarrow> (\<forall>(u, d) \<in> edges h. map_of h d \<noteq> None)"

lemma links_ok_closed: "links_ok h \<Longrightarrow> edges_closed h"
  by (auto simp: edges_closed_def edges_def links_ok_def dest: views_dom(2))

lemma dfs_not_None:
  assumes "edges_closed h" "map_of h g \<noteq> None"
  shows "dfs h g visited \<noteq> None"
  using assms
proof (induction h g visited rule: dfs.induct)
  case (1 h g visited)
  then obtain gr where gr: "map_of h g = Some gr" by auto
  have "\<forall>d \<in> set (rug_DownstreamGroups gr). map_of h d \<noteq> None"
    using 1(2) unfolding views_Some(1) [OF gr, symmetric] edges_closed_def edges_def by blast
  then have "oexists (\<lambda>d. dfs h d (g # visited)) (rug_DownstreamGroups gr) \<noteq> None"
    if "g \<notin> set visited" "length (rug_DownstreamGroups gr) \<noteq> 0"
    using 1(1) [OF gr that] 1(2) by (intro oexists_Some) blast
  then show ?case
    using gr by (auto simp: dfs.simps [of h g])
qed

lemma dfs_True:
  assumes "dfs h g visited = Some True" "\<forall>v \<in> set visited. (v, g) \<in> (edges h)\<^sup>+"
  shows "\<exists>x. (x, x) \<in> (edges h)\<^sup>+"
  using assms
proof (induction h g visited rule: dfs.induct)
  case (1 h g visited)
  then obtain gr where gr: "map_of h g = Some gr"
    by (auto simp: dfs.simps [of h g] split: option.splits)
  show ?case
  proof (cases "g \<in> set visited")
    case True
    then show ?thesis using 1 by auto
  next
    case False
    with 1(2) gr obtain d where d: "d \<in> set (rug_DownstreamGroups gr)"
      "dfs h d (g # visited) = Some True"
      by (auto simp: dfs.simps [of h g] split: if_splits dest!: oexists_True)
    then have "(g, d) \<in> edges h" using gr by (simp add: edges_def down_def)
    then have "\<forall>v \<in> set (g # visited). (v, d) \<in> (edges h)\<^sup>+"
      using 1(3) by (auto intro: trancl_into_trancl)
    with 1(1) [OF gr False _ d(1,2)] d(1) show ?thesis by fastforce
  qed
qed

lemma dfs_False:
  assumes "dfs h g visited = Some False" "(g, x) \<in> (edges h)\<^sup>*"
  shows "x \<notin> set visited \<and> (x, x) \<notin> (edges h)\<^sup>+"
  using assms
proof (induction h g visited arbitrary: x rule: dfs.induct)
  case (1 h g visited)
  from 1(2) obtain gr where gr: "map_of h g = Some gr" and new: "g \<notin> set visited"
    by (auto simp: dfs.simps [of h g] split: option.splits if_splits)
  have sub: "dfs h d (g # visited) = Some False" if "(g, d) \<in> edges h" for d
    using that 1(2) gr new
    by (auto simp: dfs.simps [of h g] edges_def down_def oexists_False split: if_splits)
  have IH: "y \<notin> set (g # visited) \<and> (y, y) \<notin> (edges h)\<^sup>+"
    if d: "(g, d) \<in> edges h" and y: "(d, y) \<in> (edges h)\<^sup>*" for d y
  proof -
    have "d \<in> set (rug_DownstreamGroups gr)"
      using d by (simp add: edges_def views_Some(1) [OF gr])
    moreover from this have "length (rug_DownstreamGroups gr) \<noteq> 0" by auto
    ultimately show ?thesis using 1(1) [OF gr new _ _ sub [OF d] y] by simp
  qed
  have "(g, g) \<notin> (edges h)\<^sup>+"
    using IH by (fastforce dest: tranclD)
  then show ?case
    using 1(3) IH new by (auto elim: converse_rtranclE)
qed

lemma HasCycles_iff:
  assumes "range_orders ord" "edges_closed h" "set keys = dom (map_of h)"
  shows "HasCycles ord keys h = Some (\<not> acyclic (edges h))"
proof -
  let ?f = "\<lambda>g. dfs h g []"
  have keys: "set (ord SiteHasCycles keys) = dom (map_of h)"
    using assms(1,3) range_orderD(2) [of "ord SiteHasCycles" keys] by (simp add: range_orders_def)
  have "oexists ?f (ord SiteHasCycles keys) \<noteq> None"
    unfolding keys using dfs_not_None [OF assms(2)] by (intro oexists_Some) (auto simp: keys)
  then obtain b where b: "HasCycles ord keys h = Some b"
    by (auto simp: HasCycles_def)
  have "b \<longleftrightarrow> \<not> acyclic (edges h)"
  proof (cases b)
    case True
    with b obtain g where "dfs h g [] = Some True"
      by (auto simp: HasCycles_def dest: oexists_True)
    from dfs_True [OF this] True show ?thesis by (auto simp: acyclic_def)
  next
    case False
    have "(x, x) \<notin> (edges h)\<^sup>+" for x
    proof
      assume c: "(x, x) \<in> (edges h)\<^sup>+"
      then obtain y where "(x, y) \<in> edges h" by (auto dest: tranclD)
      then have "x \<in> dom (map_of h)" by (auto simp: edges_def dest: views_dom(1))
      with b False keys have "dfs h x [] = Some False"
        by (auto simp: HasCycles_def oexists_False)
      from dfs_False [OF this] c show False by auto
    qed
    with False show ?thesis by (simp add: acyclic_def)
  qed
  with b show ?thesis by simp
qed

lemma pipeline_Init_cases:
  assumes "range_orders ord"
  obtains (cyclic) "\<not> acyclic (dependency_edges (all_ops us))"
    "pipeline_Init ord us = Some (Inl FormaCyclesDetectedError)"
  | (ok) h where "acyclic (dependency_edges (all_ops us))"
    "pipeline_Init ord us = Some (Inr \<lparr>pl_keys = map fst (create_groups (all_ops us)), pl_heap = h\<rparr>)"
    "built (all_ops us) (dependency_edges (all_ops us)) h"
proof -
  let ?ops = "all_ops us"
  obtain h where h: "buildOperationRelationships ord ?ops (create_groups ?ops) = Some h"
    and b: "built ?ops (dependency_edges ?ops) h"
    using built_relationships [OF assms] by blast
  have "map fst h = map fst (create_groups ?ops)" using b by (simp add: built_def same_nodes_def)
  then have "set (map fst (create_groups ?ops)) = dom (map_of h)"
    by (metis dom_map_of_conv_image_fst list.set_map)
  with HasCycles_iff [OF assms] b links_ok_closed
  have "HasCycles ord (map fst (create_groups ?ops)) h = Some (\<not> acyclic (dependency_edges ?ops))"
    by (metis built_def)
  with h b show ?thesis
    by (cases "acyclic (dependency_edges ?ops)") (auto simp: pipeline_Init_def Let_def intro: cyclic ok)
qed


section \<open>The dependency specification\<close>

text \<open>
  Which operation has to finish before which: a delete of a dependent before the delete of what it
  refers to, a create or update of what an operation refers to before that operation, and the
  delete of a resource before the create that takes its place.
\<close>

definition precedes :: "ResourceUpdate \<Rightarrow> ResourceUpdate \<Rightarrow> bool" where
  "precedes x y \<longleftrightarrow>
     (is_delete_op x \<and> is_delete_op y \<and> ru_URI y \<in> Stripped ` set (ru_RemainingResolvables x)) \<or>
     (is_create_update_op x \<and> is_create_update_op y \<and>
        ru_URI x \<in> Stripped ` set (ru_RemainingResolvables y)) \<or>
     (is_delete_op x \<and> is_create_op y \<and> resource_key x = resource_key y)"

definition must_precede :: "ResourceUpdate list \<Rightarrow> (FormaeURI \<times> FormaeURI) set" where
  "must_precede ops = {(op_URI x, op_URI y) | x y. x \<in> set ops \<and> y \<in> set ops \<and> precedes x y}"

text \<open>Each resource is deleted at most once and created or updated at most once.\<close>

definition distinct_resources :: "ResourceUpdate list \<Rightarrow> bool" where
  "distinct_resources ops \<longleftrightarrow>
     distinct (map ru_URI (filter is_delete_op ops)) \<and>
     distinct (map ru_URI (filter is_create_update_op ops)) \<and>
     distinct (map resource_key (filter is_delete_op ops)) \<and>
     distinct (map resource_key (filter is_create_op ops))"

lemma pairs_eqI:
  "(\<And>a b. (a, b) \<in> E \<longleftrightarrow> (\<exists>x y. a = f x \<and> b = f y \<and> P x y)) \<Longrightarrow> E = {(f x, f y) | x y. P x y}"
  by auto

lemma in_case_option_set:
  "p \<in> (case x of None \<Rightarrow> {} | Some d \<Rightarrow> {f d}) \<longleftrightarrow> (\<exists>d. x = Some d \<and> p = f d)"
  by (cases x) auto

lemma delete_edges_spec:
  assumes "distinct_resources ops"
  shows "delete_edges ops = {(op_URI x, op_URI y) | x y. x \<in> set ops \<and> y \<in> set ops \<and>
    is_delete_op x \<and> is_delete_op y \<and> ru_URI y \<in> Stripped ` set (ru_RemainingResolvables x)}"
proof -
  let ?m = "map_of (collect_ops is_delete_op ru_URI ops)"
  have "inj_on ru_URI {op \<in> set ops. is_delete_op op}"
    using assms by (simp add: distinct_resources_def distinct_map)
  note m = collect_ops_eq [OF this]
  have dom: "?m k \<noteq> None \<longleftrightarrow> (\<exists>y \<in> set ops. is_delete_op y \<and> ru_URI y = k)" for k
    by (rule collect_ops_dom)
  have "(a, b) \<in> delete_edges ops \<longleftrightarrow> (\<exists>x r. x \<in> set ops \<and> is_delete_op x \<and>
      r \<in> set (ru_RemainingResolvables x) \<and> ?m (Stripped r) \<noteq> None \<and>
      a = op_URI x \<and> b = createOperationURI (Stripped r) OperationDelete)" for a b
    by (auto simp: delete_edges_def m split: if_splits)
  then show ?thesis unfolding dom by (auto; metis image_eqI)
qed

lemma create_edges_spec:
  assumes "distinct_resources ops"
  shows "create_edges ops = {(op_URI x, op_URI y) | x y. x \<in> set ops \<and> y \<in> set ops \<and>
    is_create_update_op x \<and> is_create_update_op y \<and>
    ru_URI x \<in> Stripped ` set (ru_RemainingResolvables y)}"
proof -
  let ?m = "map_of (collect_ops is_create_update_op ru_URI ops)"
  have "inj_on ru_URI {op \<in> set ops. is_create_update_op op}"
    using assms by (simp add: distinct_resources_def distinct_map)
  note m = collect_ops_eq [OF this]
  have "(a, b) \<in> create_edges ops \<longleftrightarrow> (\<exists>k y r x. ?m k = Some y \<and>
      r \<in> set (ru_RemainingResolvables y) \<and> ?m (Stripped r) = Some x \<and>
      a = op_URI x \<and> b = op_URI y)" for a b
    unfolding create_edges_def by (simp add: in_case_option_set) blast
  then show ?thesis unfolding m by (intro pairs_eqI) blast
qed

lemma connect_edges_spec:
  assumes "distinct_resources ops"
  shows "connect_edges ops = {(op_URI x, op_URI y) | x y. x \<in> set ops \<and> y \<in> set ops \<and>
    is_delete_op x \<and> is_create_op y \<and> resource_key x = resource_key y}"
proof -
  let ?m = "map_of (collect_ops is_delete_op resource_key ops)"
  let ?c = "map_of (collect_ops is_create_op resource_key ops)"
  have i: "inj_on resource_key {op \<in> set ops. is_delete_op op}"
    "inj_on resource_key {op \<in> set ops. is_create_op op}"
    using assms by (simp_all add: distinct_resources_def distinct_map)
  note m = collect_ops_eq [OF i(1)] and c = collect_ops_eq [OF i(2)]
  have "(a, b) \<in> connect_edges ops \<longleftrightarrow> (\<exists>x y k. ?m k = Some x \<and> ?c k = Some y \<and>
      a = op_URI x \<and> b = op_URI y)" for a b
    unfolding connect_edges_def by (simp add: in_case_option_set) blast
  then show ?thesis unfolding m c by (intro pairs_eqI) metis
qed

lemma dependency_edges_spec:
  assumes "distinct_resources ops"
  shows "dependency_edges ops = must_precede ops"
  unfolding dependency_edges_def must_precede_def precedes_def delete_edges_spec [OF assms]
    create_edges_spec [OF assms] connect_edges_spec [OF assms]
  by (rule pairs_eqI) blast


section \<open>Keys identify operations\<close>

text \<open>A KSUID is 27 base-62 characters; all the code relies on is that it has no \<^verbatim>\<open>#\<close>.\<close>

definition clean_ksuid :: "ResourceUpdate \<Rightarrow> bool" where
  "clean_ksuid u \<longleftrightarrow> CHR ''#'' \<notin> set (res_Ksuid (ru_Resource u))"

lemma op_URI_clean:
  "clean_ksuid u \<Longrightarrow> op_URI u = res_Ksuid (ru_Resource u) @ ''//'' @ operation_string (ru_Operation u)"
  by (simp add: clean_ksuid_def createOperationURI_def ru_URI_def res_URI_def)

lemma op_URI_inject:
  assumes "clean_ksuid x" "clean_ksuid y"
  shows "op_URI x = op_URI y \<longleftrightarrow> ru_URI x = ru_URI y \<and> ru_Operation x = ru_Operation y"
proof
  assume "op_URI x = op_URI y"
  then have "(res_Ksuid (ru_Resource x) @ ''/'') @ CHR ''/'' # operation_string (ru_Operation x) =
      (res_Ksuid (ru_Resource y) @ ''/'') @ CHR ''/'' # operation_string (ru_Operation y)"
    using assms by (simp add: op_URI_clean)
  from append_last_sep_inject [OF this] show "ru_URI x = ru_URI y \<and> ru_Operation x = ru_Operation y"
    by (simp add: operation_string_chars operation_string_inject ru_URI_def res_URI_def)
qed simp

lemma getResourceUpdateIdentifier_inject:
  "getResourceUpdateIdentifier x = getResourceUpdateIdentifier y \<longleftrightarrow>
     ru_URI x = ru_URI y \<and> ru_Operation x = ru_Operation y"
  using append_last_sep_inject [of "ru_URI x" "CHR ''-''" "operation_string (ru_Operation x)"
      "ru_URI y" "operation_string (ru_Operation y)"]
  by (auto simp: getResourceUpdateIdentifier_def operation_string_chars operation_string_inject)

lemma set_keys_create_groups: "set (map fst (create_groups ops)) = op_URI ` set ops"
proof -
  have "k \<in> dom (map_of (create_groups ops)) \<longleftrightarrow> k \<in> op_URI ` set ops" for k
    using find_rev_None [of "\<lambda>op. op_URI op = k" ops]
    by (auto simp: map_of_create_groups domIff)
  then show ?thesis by (auto simp: dom_map_of_conv_image_fst)
qed

lemma upds_create_groups:
  assumes "distinct (map op_URI ops)" "op \<in> set ops"
  shows "upds (create_groups ops) (op_URI op) = [op]"
proof -
  have "find (\<lambda>x. op_URI x = op_URI op) (rev ops) \<noteq> None"
    using assms(2) by (auto simp: find_rev_None)
  then obtain x where x: "find (\<lambda>x. op_URI x = op_URI op) (rev ops) = Some x" by auto
  from find_rev_SomeD [OF this] assms have "x = op"
    by (auto simp: distinct_map dest: inj_onD)
  with x show ?thesis by (simp add: upds_def map_of_create_groups new_group_def)
qed

section \<open>Sample updates\<close>

definition sample_update :: "string \<Rightarrow> OperationType \<Rightarrow> FormaeURI list \<Rightarrow> ResourceUpdate" where
  "sample_update k op deps = zero_ResourceUpdate\<lparr>ru_Operation := op, ru_RemainingResolvables := deps,
     ru_Resource := zero_Resource\<lparr>res_Ksuid := k, res_Label := k, res_Stack := ''prod'',
       res_Type := ''AWS::EC2::VPC''\<rparr>\<rparr>"

text \<open>A network that is replaced and a subnet that refers to its identifier.\<close>

definition sample_updates :: "ResourceUpdate list" where
  "sample_updates = [sample_update ''sub'' OperationCreate [''formae://vpc#/Id''],
     sample_update ''vpc'' OperationReplace []]"

section \<open>Properties\<close>

text \<open>C5: building a pipeline is correct. For updates that name each operation once,
  \<^verbatim>\<open>Init\<close> never dereferences nil, whatever order Go's maps are visited in; it
  reports \<^verbatim>\<open>FormaCyclesDetectedError\<close> exactly when the dependency specification has a
  cycle; and otherwise the pipeline has exactly one group per operation (a replace being a delete
  and a create), holding that operation, and its links are exactly the specified dependencies, recorded
  consistently in both directions without duplicates.\<close>

theorem pipeline_Init_correct:
  assumes "range_orders ord" "distinct_resources (all_ops us)" "distinct (map op_URI (all_ops us))"
  shows "if acyclic (must_precede (all_ops us))
    then (\<exists>p. pipeline_Init ord us = Some (Inr p) \<and>
           edges (pl_heap p) = must_precede (all_ops us) \<and> links_ok (pl_heap p) \<and>
           distinct (pl_keys p) \<and> set (pl_keys p) = op_URI ` set (all_ops us) \<and>
           (\<forall>op. op \<in> set (all_ops us) \<longrightarrow> upds (pl_heap p) (op_URI op) = [op]))
    else pipeline_Init ord us = Some (Inl FormaCyclesDetectedError)"
  using assms(1)
proof (cases rule: pipeline_Init_cases [of ord us])
  case cyclic
  then show ?thesis by (simp add: dependency_edges_spec [OF assms(2)])
next
  case (ok h)
  from ok(3) have "edges h = must_precede (all_ops us)" "links_ok h"
    "upds h = upds (create_groups (all_ops us))"
    by (simp_all add: built_def same_nodes_def dependency_edges_spec [OF assms(2)])
  with ok show ?thesis
    using distinct_create_groups set_keys_create_groups upds_create_groups [OF assms(3)]
    by (auto simp: dependency_edges_spec [OF assms(2)])
qed


theorem pipeline_Init_correct_witness:
  "\<exists>p. pipeline_Init (\<lambda>_. rev) sample_updates = Some (Inr p) \<and>
     edges (pl_heap p) = must_precede (all_ops sample_updates) \<and> length (pl_keys p) = 3"
proof -
  have ord: "range_orders (\<lambda>_. rev)" by (simp add: range_orders_def range_order_rev)
  have dist: "distinct_resources (all_ops sample_updates)" "distinct (map op_URI (all_ops sample_updates))"
    by code_simp+
  have "map_option (map_sum id (\<lambda>p. length (pl_keys p))) (pipeline_Init (\<lambda>_. rev) sample_updates)
      = Some (Inr 3)"
    by code_simp
  then show ?thesis
    using pipeline_Init_correct [OF ord dist] by (auto split: if_splits)
qed


text \<open>C29: cycle detection is exact. On every heap whose downstream pointers stay inside it,
  \<^verbatim>\<open>HasCycles\<close> terminates, does not panic, and returns true exactly when the group
  graph has a cycle, although its search discards the visited set of every finished branch.\<close>

theorem HasCycles_exact:
  assumes "range_orders ord" "edges_closed h" "set keys = dom (map_of h)"
  shows "HasCycles ord keys h = Some (\<not> acyclic (edges h))"
  using assms by (rule HasCycles_iff)

definition sample_cycle :: group_heap where
  "sample_cycle =
     [(''a'', \<lparr>rug_URI = ''a'', rug_Updates = [], rug_DownstreamGroups = [''b''], rug_UpstreamGroups = [''c'']\<rparr>),
      (''b'', \<lparr>rug_URI = ''b'', rug_Updates = [], rug_DownstreamGroups = [''c''], rug_UpstreamGroups = [''a'']\<rparr>),
      (''c'', \<lparr>rug_URI = ''c'', rug_Updates = [], rug_DownstreamGroups = [''a''], rug_UpstreamGroups = [''b'']\<rparr>)]"

theorem HasCycles_exact_witness: "\<not> acyclic (edges sample_cycle)"
proof -
  have "range_orders (\<lambda>_. id)" by (simp add: range_orders_def range_order_id)
  moreover have "edges_closed sample_cycle"
    by (auto simp: edges_closed_def edges_def down_def sample_cycle_def split: if_splits)
  moreover have "set [''a'', ''b'', ''c''] = dom (map_of sample_cycle)"
    by (auto simp: sample_cycle_def split: if_splits)
  ultimately have "HasCycles (\<lambda>_. id) [''a'', ''b'', ''c''] sample_cycle = Some (\<not> acyclic (edges sample_cycle))"
    by (rule HasCycles_exact)
  moreover have "HasCycles (\<lambda>_. id) [''a'', ''b'', ''c''] sample_cycle = Some True"
    by code_simp
  ultimately show ?thesis by simp
qed

text \<open>the outcome of \<^verbatim>\<open>Init\<close> does not depend on the order in which Go visits its
  maps: two runs on the same updates agree on the error, on the groups and their updates, and on the set of
  links, even when several updates name the same operation.\<close>

theorem pipeline_Init_order_independent:
  assumes "range_orders ord" "range_orders ord'"
  shows "rel_option (rel_sum (=) (\<lambda>p q. pl_keys p = pl_keys q \<and> upds (pl_heap p) = upds (pl_heap q) \<and>
           edges (pl_heap p) = edges (pl_heap q)))
         (pipeline_Init ord us) (pipeline_Init ord' us)"
  by (rule pipeline_Init_cases [OF assms(1), of us]; rule pipeline_Init_cases [OF assms(2), of us])
    (simp_all add: built_def same_nodes_def)

theorem pipeline_Init_order_independent_witness:
  "rel_option (rel_sum (=) (\<lambda>p q. pl_keys p = pl_keys q \<and> upds (pl_heap p) = upds (pl_heap q) \<and>
       edges (pl_heap p) = edges (pl_heap q)))
     (pipeline_Init (\<lambda>_. id) sample_updates) (pipeline_Init (\<lambda>_. rev) sample_updates)"
  by (rule pipeline_Init_order_independent)
    (simp_all add: range_orders_def range_order_id range_order_rev)

end
