(* ===== verification/Changeset.thy ===== *)
theory Changeset
  imports Pipeline
begin

text \<open>
  The second half of \<^verbatim>\<open>internal/metastructure/changeset/changeset.go\<close>: executing a
  changeset. Which updates may start, what the end of one update does to the pipeline, how a
  failure cascades, and when the changeset is complete. The state of every operation is the
  \<^verbatim>\<open>Changeset\<close>; the update a pointer argument refers to is passed by value, and a
  store through such a pointer is a store into the heap of groups. \<^verbatim>\<open>sort.Slice\<close> may
  put updates with equal URIs in any order; the stable sort used here does so too, since the
  order of its input is arbitrary.
\<close>

section \<open>Definitions\<close>

record Changeset =
  cs_CommandID :: string
  cs_Pipeline :: ResourceUpdatePipeline
  cs_trackedUpdates :: "string list" \<comment> \<open>the keys mapped to true\<close>

abbreviation cs_keys :: "Changeset \<Rightarrow> FormaeURI list" where
  "cs_keys c \<equiv> pl_keys (cs_Pipeline c)"

abbreviation cs_heap :: "Changeset \<Rightarrow> group_heap" where
  "cs_heap c \<equiv> pl_heap (cs_Pipeline c)"

definition with_heap :: "group_heap \<Rightarrow> Changeset \<Rightarrow> Changeset" where
  "with_heap h c = c\<lparr>cs_Pipeline := (cs_Pipeline c)\<lparr>pl_heap := h\<rparr>\<rparr>"

definition delete_key :: "FormaeURI \<Rightarrow> Changeset \<Rightarrow> Changeset" where
  "delete_key uri c = c\<lparr>cs_Pipeline := (cs_Pipeline c)\<lparr>pl_keys := removeAll uri (cs_keys c)\<rparr>\<rparr>"

definition NewChangesetFromResourceUpdates ::
  "range_orders \<Rightarrow> ResourceUpdate list \<Rightarrow> string \<Rightarrow> (init_error + Changeset) option" where
  "NewChangesetFromResourceUpdates ord resourceUpdates commandID =
     map_option (map_sum id (\<lambda>p.
         \<lparr>cs_CommandID = commandID, cs_Pipeline = p, cs_trackedUpdates = []\<rparr>))
       (pipeline_Init ord resourceUpdates)"

subsection \<open>Executable updates\<close>

type_synonym exec_state = "ResourceUpdate list \<times> int \<times> string list \<times> group_heap"

text \<open>One iteration of the loop of \<^verbatim>\<open>GetExecutableUpdates\<close>; the element appended to the
  result is the pointer whose state is then set.\<close>

definition exec_step :: "string \<Rightarrow> int \<Rightarrow> FormaeURI \<Rightarrow> exec_state \<Rightarrow> exec_state option" where
  "exec_step namespace maxN key = (\<lambda>(executable, total, tracked, h).
     (case map_of h key of
        None \<Rightarrow> None
      | Some g \<Rightarrow>
          if HasRunningUpdate g then Some (executable, total, tracked, h)
          else if length (rug_UpstreamGroups g) = 0 \<and> \<not> Done g \<and> length (rug_Updates g) > 0 then
            (case NextUpdate g of
               None \<Rightarrow> Some (executable, total, tracked, h)
             | Some (i, nextUpdate, updateKey) \<Rightarrow>
                 if total < maxN \<and> Namespace (ru_Resource nextUpdate) = namespace \<and>
                    ru_State nextUpdate = ResourceUpdateStateNotStarted \<and>
                    updateKey \<notin> set tracked
                 then let started = nextUpdate\<lparr>ru_State := ResourceUpdateStateInProgress\<rparr>
                      in Some (executable @ [started], total + 1, updateKey # tracked,
                           heap_upd key (\<lambda>g. g\<lparr>rug_Updates := (rug_Updates g)[i := started]\<rparr>) h)
                 else Some (executable, total, tracked, h))
          else Some (executable, total, tracked, h)))"

definition GetExecutableUpdates ::
  "range_orders \<Rightarrow> string \<Rightarrow> int \<Rightarrow> Changeset \<Rightarrow> (ResourceUpdate list \<times> Changeset) option" where
  "GetExecutableUpdates ord namespace maxN c =
     map_option (\<lambda>(executable, _, tracked, h).
         (sort_key ru_URI executable, (with_heap h c)\<lparr>cs_trackedUpdates := tracked\<rparr>))
       (ofold (exec_step namespace maxN) (ord SiteExecutable (cs_keys c))
          ([], 0, cs_trackedUpdates c, cs_heap c))"

text \<open>One iteration of \<^verbatim>\<open>AvailableExecutableUpdates\<close>, counting by namespace.\<close>

definition avail_step ::
  "string list \<Rightarrow> group_heap \<Rightarrow> FormaeURI \<Rightarrow> (string \<times> int) list \<Rightarrow> (string \<times> int) list option" where
  "avail_step tracked h key result =
     (case map_of h key of
        None \<Rightarrow> None
      | Some g \<Rightarrow>
          if HasRunningUpdate g then Some result
          else if length (rug_UpstreamGroups g) = 0 \<and> \<not> Done g \<and> length (rug_Updates g) > 0 then
            (case NextUpdate g of
               None \<Rightarrow> Some result
             | Some (i, nextUpdate, updateKey) \<Rightarrow>
                 if ru_State nextUpdate = ResourceUpdateStateNotStarted \<and> updateKey \<notin> set tracked
                 then let ns = Namespace (ru_Resource nextUpdate)
                      in Some (case map_of result ns of
                           None \<Rightarrow> AList.update ns 1 result
                         | Some n \<Rightarrow> AList.update ns (n + 1) result)
                 else Some result)
          else Some result)"

definition AvailableExecutableUpdates ::
  "range_orders \<Rightarrow> Changeset \<Rightarrow> (string \<times> int) list option" where
  "AvailableExecutableUpdates ord c =
     ofold (avail_step (cs_trackedUpdates c) (cs_heap c)) (ord SiteAvailable (cs_keys c)) []"

subsection \<open>The end of an update\<close>

text \<open>
  \<^verbatim>\<open>for _, d := range upstream.DownstreamGroups { d.RemoveUpstreamGroup(upstream) }\<close>
  followed by the deletion of the key, when the group is done.
\<close>

definition remove_if_done :: "FormaeURI \<Rightarrow> Changeset \<Rightarrow> Changeset option" where
  "remove_if_done uri c =
     (case map_of (cs_heap c) uri of
        None \<Rightarrow> None
      | Some g \<Rightarrow>
          if Done g
          then map_option (\<lambda>h. delete_key uri (with_heap h c))
                 (ofold (\<lambda>d. RemoveUpstreamGroup d uri) (rug_DownstreamGroups g) (cs_heap c))
          else Some c)"

text \<open>
  The unblocking loop ranges over \<^verbatim>\<open>upstream.DownstreamGroups\<close> while
  \<^verbatim>\<open>UnlinkWith\<close> cuts elements out of the same backing array: the length is fixed when
  the loop starts, the elements are read from the array as it is then. \<open>arr\<close> is that array;
  cutting an element out of the slice moves the later ones down and leaves the tail in place.
\<close>

definition unblock_one ::
  "ResourceUpdate \<Rightarrow> FormaeURI \<Rightarrow> FormaeURI \<Rightarrow> group_heap \<Rightarrow> group_heap option" where
  "unblock_one update upstream downstream h =
     (case map_of h downstream of
        None \<Rightarrow> None
      | Some g \<Rightarrow>
          ofold (\<lambda>downstreamUpdate h.
              if list_ex (\<lambda>r. Stripped r = ru_URI update) (ru_RemainingResolvables downstreamUpdate)
              then UnlinkWith downstream upstream h else Some h)
            (rug_Updates g) h)"

definition unblock_step ::
  "ResourceUpdate \<Rightarrow> FormaeURI \<Rightarrow> nat \<Rightarrow> FormaeURI list \<times> group_heap \<Rightarrow>
    (FormaeURI list \<times> group_heap) option" where
  "unblock_step update upstream i = (\<lambda>(arr, h).
     map_option (\<lambda>h'. case map_of h' upstream of
           None \<Rightarrow> (arr, h')
         | Some g \<Rightarrow> (rug_DownstreamGroups g @ drop (length (rug_DownstreamGroups g)) arr, h'))
       (unblock_one update upstream (arr ! i) h))"

definition unblock_downstream ::
  "ResourceUpdate \<Rightarrow> FormaeURI \<Rightarrow> group_heap \<Rightarrow> group_heap option" where
  "unblock_downstream update upstream h =
     (case map_of h upstream of
        None \<Rightarrow> None
      | Some g \<Rightarrow>
          map_option snd
            (ofold (unblock_step update upstream) [0..<length (rug_DownstreamGroups g)]
              (rug_DownstreamGroups g, h)))"

subsection \<open>Cascading failures\<close>

type_synonym fail_state = "group_heap \<times> ResourceUpdate list \<times> FormaeURI list"

text \<open>
  The recursion of \<^verbatim>\<open>recursivelyFailDependencies\<close> visits a group at most once; the
  first argument bounds its depth, and \<open>Suc\<close> of the number of groups is always enough (see
  \<open>fail_dependencies\<close> below).
\<close>

fun recursivelyFailDependencies ::
  "nat \<Rightarrow> FormaeURI list \<Rightarrow> ResourceUpdate \<Rightarrow> fail_state \<Rightarrow> fail_state option" where
  "recursivelyFailDependencies 0 keys failedUpdate s = None"
| "recursivelyFailDependencies (Suc n) keys failedUpdate (h, failedUpdates, visited) =
     (let uri = op_URI failedUpdate
      in if uri \<in> set visited then Some (h, failedUpdates, visited)
         else if uri \<notin> set keys then Some (h, failedUpdates, uri # visited)
         else case map_of h uri of
                None \<Rightarrow> None
              | Some upstream \<Rightarrow>
                  ofold (\<lambda>d (h, failedUpdates, visited).
                      case map_of h d of
                        None \<Rightarrow> None
                      | Some g \<Rightarrow>
                          ofold (\<lambda>i (h, failedUpdates, visited).
                              let downstreamUpdate = upds h d ! i;
                                  failed = downstreamUpdate\<lparr>ru_State := ResourceUpdateStateFailed\<rparr>
                              in if ru_State downstreamUpdate = ResourceUpdateStateNotStarted
                                 then recursivelyFailDependencies n keys failed
                                   (heap_upd d (\<lambda>g. g\<lparr>rug_Updates := (rug_Updates g)[i := failed]\<rparr>) h,
                                    failedUpdates @ [failed], visited)
                                 else Some (h, failedUpdates, visited))
                            [0..<length (rug_Updates g)] (h, failedUpdates, visited))
                    (rug_DownstreamGroups upstream) (h, failedUpdates, uri # visited))"

definition failResourceUpdate ::
  "Changeset \<Rightarrow> ResourceUpdate \<Rightarrow> (Changeset \<times> ResourceUpdate list) option" where
  "failResourceUpdate c update =
     map_option (\<lambda>(h, failedUpdates, _). (with_heap h c, failedUpdates @ [update]))
       (recursivelyFailDependencies (Suc (length (cs_heap c))) (cs_keys c) update (cs_heap c, [], []))"

definition pop_failed :: "ResourceUpdate \<Rightarrow> Changeset \<Rightarrow> Changeset option" where
  "pop_failed failedUpdate c =
     (let failedURI = op_URI failedUpdate
      in if failedURI \<in> set (cs_keys c)
         then remove_if_done failedURI
                (with_heap (heap_upd failedURI (Pop failedUpdate) (cs_heap c)) c)
         else Some c)"

definition UpdatePipeline ::
  "ResourceUpdate \<Rightarrow> Changeset \<Rightarrow> (Changeset \<times> (string + ResourceUpdate list)) option" where
  "UpdatePipeline update c =
     (let uri = op_URI update
      in if uri \<notin> set (cs_keys c)
         then Some (c, Inl (''resource group not found for URI: '' @ uri))
         else if ru_State update = ResourceUpdateStateSuccess then
           (let c1 = with_heap (heap_upd uri (Pop update) (cs_heap c)) c
            in Option.bind
                 (if is_create_update_op update then unblock_downstream update uri (cs_heap c1)
                  else Some (cs_heap c1))
                 (\<lambda>h. map_option (\<lambda>c. (c, Inr [])) (remove_if_done uri (with_heap h c1))))
         else if ru_State update = ResourceUpdateStateFailed \<or>
                 ru_State update = ResourceUpdateStateRejected then
           (let c1 = with_heap (heap_upd uri (Pop update) (cs_heap c)) c
            in Option.bind (failResourceUpdate c1 update) (\<lambda>(c2, failedUpdates).
               Option.bind (ofold pop_failed failedUpdates c2) (\<lambda>c3.
               map_option (\<lambda>c4. (c4, Inr failedUpdates)) (remove_if_done uri c3))))
         else Some (c, Inr []))"

subsection \<open>Completion\<close>

definition IsComplete :: "Changeset \<Rightarrow> bool" where
  "IsComplete c \<longleftrightarrow>
     length (cs_keys c) = 0 \<or>
     list_all (\<lambda>k. list_all (\<lambda>u. ru_State u = ResourceUpdateStateFailed \<or>
         ru_State u = ResourceUpdateStateRejected) (upds (cs_heap c) k)) (cs_keys c)"


section \<open>The invariant of a changeset\<close>

text \<open>
  The keys of the pipeline are the live groups. A live group holds exactly one update, filed under
  its own operation URI; a removed group is empty. The groups a live group waits for are live,
  links between live groups agree in both directions and have no cycle. A live update is waiting
  or running; a running one waits for nothing, a waiting one has not been handed out. The set
  \<open>X\<close> exempts groups whose update is just being finished.
\<close>

definition live_edges :: "Changeset \<Rightarrow> (FormaeURI \<times> FormaeURI) set" where
  "live_edges c = {(u, d). u \<in> set (cs_keys c) \<and> d \<in> set (cs_keys c) \<and> d \<in> set (down (cs_heap c) u)}"

definition one_update :: "FormaeURI \<Rightarrow> ResourceUpdate list \<Rightarrow> bool" where
  "one_update k us \<longleftrightarrow> (\<exists>ru. us = [ru] \<and> op_URI ru = k \<and> clean_ksuid ru)"

definition nodes_ok :: "FormaeURI set \<Rightarrow> FormaeURI list \<Rightarrow> group_heap \<Rightarrow> bool" where
  "nodes_ok X keys h \<longleftrightarrow> distinct keys \<and> set keys \<subseteq> dom (map_of h) \<and> uris_ok h \<and>
     (\<forall>k. k \<notin> set keys \<longrightarrow> upds h k = []) \<and>
     (\<forall>k \<in> set keys. one_update k (upds h k) \<or> k \<in> X \<and> upds h k = [])"

definition live_links_ok :: "FormaeURI list \<Rightarrow> group_heap \<Rightarrow> bool" where
  "live_links_ok keys h \<longleftrightarrow>
     (\<forall>k. set (down h k) \<subseteq> dom (map_of h) \<and> distinct (up h k)) \<and>
     (\<forall>k \<in> set keys. set (up h k) \<subseteq> set keys) \<and>
     (\<forall>u \<in> set keys. \<forall>d \<in> set keys. d \<in> set (down h u) \<longleftrightarrow> u \<in> set (up h d))"

definition state_ok :: "string list \<Rightarrow> FormaeURI list \<Rightarrow> ResourceUpdate \<Rightarrow> bool" where
  "state_ok tracked ups ru \<longleftrightarrow>
     (ru_State ru = ResourceUpdateStateNotStarted \<and> getResourceUpdateIdentifier ru \<notin> set tracked) \<or>
     (ru_State ru = ResourceUpdateStateInProgress \<and> ups = [])"

definition wf_except :: "FormaeURI set \<Rightarrow> Changeset \<Rightarrow> bool" where
  "wf_except X c \<longleftrightarrow> nodes_ok X (cs_keys c) (cs_heap c) \<and> live_links_ok (cs_keys c) (cs_heap c) \<and>
     acyclic (live_edges c) \<and>
     (\<forall>k \<in> set (cs_keys c) - X. \<forall>ru \<in> set (upds (cs_heap c) k).
        state_ok (cs_trackedUpdates c) (up (cs_heap c) k) ru)"

definition wf_changeset :: "Changeset \<Rightarrow> bool" where
  "wf_changeset c \<longleftrightarrow> wf_except {} c"

lemma with_heap_simps [simp]:
  "cs_keys (with_heap h c) = cs_keys c" "cs_heap (with_heap h c) = h"
  "cs_trackedUpdates (with_heap h c) = cs_trackedUpdates c"
  "cs_CommandID (with_heap h c) = cs_CommandID c"
  "with_heap h' (with_heap h c) = with_heap h' c"
  by (simp_all add: with_heap_def)

lemma delete_key_simps [simp]:
  "cs_keys (delete_key k c) = removeAll k (cs_keys c)" "cs_heap (delete_key k c) = cs_heap c"
  "cs_trackedUpdates (delete_key k c) = cs_trackedUpdates c"
  "cs_CommandID (delete_key k c) = cs_CommandID c"
  by (simp_all add: delete_key_def)

lemma wf_except_mono: "wf_except X c \<Longrightarrow> X \<subseteq> Y \<Longrightarrow> wf_except Y c"
  unfolding wf_except_def nodes_ok_def by blast

lemma wf_except_live:
  assumes "wf_except X c" "k \<in> set (cs_keys c)" "k \<notin> X"
  obtains g ru where "map_of (cs_heap c) k = Some g" "rug_Updates g = [ru]" "op_URI ru = k"
    "clean_ksuid ru" "state_ok (cs_trackedUpdates c) (rug_UpstreamGroups g) ru"
proof -
  obtain g where g: "map_of (cs_heap c) k = Some g"
    using assms(1,2) by (auto simp: wf_except_def nodes_ok_def)
  moreover obtain ru where "upds (cs_heap c) k = [ru]" "op_URI ru = k" "clean_ksuid ru"
    using assms by (auto simp: wf_except_def nodes_ok_def one_update_def)
  moreover from this have "state_ok (cs_trackedUpdates c) (up (cs_heap c) k) ru"
    using assms by (simp add: wf_except_def)
  ultimately show ?thesis using that by (simp add: views_Some)
qed

section \<open>Removing a finished group\<close>

text \<open>
  What the removal of one group amounts to: its key is gone, its updates are gone, no group that
  waited for it waits for it any more, and nothing else changes.
\<close>

definition group_gone :: "FormaeURI \<Rightarrow> Changeset \<Rightarrow> Changeset \<Rightarrow> bool" where
  "group_gone uri c c' \<longleftrightarrow>
     cs_keys c' = removeAll uri (cs_keys c) \<and> cs_trackedUpdates c' = cs_trackedUpdates c \<and>
     cs_CommandID c' = cs_CommandID c \<and>
     map fst (cs_heap c') = map fst (cs_heap c) \<and> uris_ok (cs_heap c') = uris_ok (cs_heap c) \<and>
     upds (cs_heap c') = (upds (cs_heap c))(uri := []) \<and>
     (\<forall>k. k \<noteq> uri \<longrightarrow> down (cs_heap c') k = down (cs_heap c) k) \<and>
     set (down (cs_heap c') uri) \<subseteq> set (down (cs_heap c) uri) \<and>
     (\<forall>k. set (up (cs_heap c') k) = set (up (cs_heap c) k) -
        (if k \<in> set (down (cs_heap c) uri) then {uri} else {})) \<and>
     (\<forall>k. distinct (up (cs_heap c) k) \<longrightarrow> distinct (up (cs_heap c') k))"

lemma dom_map_of_fst: "map fst h' = map fst h \<Longrightarrow> dom (map_of h') = dom (map_of h)"
  by (metis dom_map_of_conv_image_fst list.set_map)

lemma group_gone_live_links:
  assumes "live_links_ok (cs_keys c) (cs_heap c)" "group_gone uri c c'"
  shows "live_links_ok (cs_keys c') (cs_heap c')"
proof -
  let ?h = "cs_heap c" and ?h' = "cs_heap c'"
  have keys: "set (cs_keys c') = set (cs_keys c) - {uri}"
    using assms(2) by (simp add: group_gone_def)
  have dom: "dom (map_of ?h') = dom (map_of ?h)"
    using assms(2) by (intro dom_map_of_fst) (simp add: group_gone_def)
  have ups: "set (up ?h' k) = set (up ?h k) - (if k \<in> set (down ?h uri) then {uri} else {})"
    and downs: "k \<noteq> uri \<Longrightarrow> down ?h' k = down ?h k" and down_uri: "set (down ?h' uri) \<subseteq> set (down ?h uri)" for k
    using assms(2) by (simp_all add: group_gone_def)
  have "set (down ?h' k) \<subseteq> dom (map_of ?h') \<and> distinct (up ?h' k)" for k
    using assms down_uri downs [of k] unfolding dom
    by (cases "k = uri") (auto simp: live_links_ok_def group_gone_def)
  moreover have "set (up ?h' k) \<subseteq> set (cs_keys c')" if "k \<in> set (cs_keys c')" for k
  proof -
    have "uri \<in> set (up ?h k) \<Longrightarrow> k \<in> set (down ?h uri)"
      using assms(1) that unfolding live_links_ok_def keys by blast
    then show ?thesis
      using assms(1) that ups unfolding live_links_ok_def keys by auto
  qed
  moreover have "d \<in> set (down ?h' u) \<longleftrightarrow> u \<in> set (up ?h' d)"
    if "u \<in> set (cs_keys c')" "d \<in> set (cs_keys c')" for u d
    using assms(1) that downs ups unfolding live_links_ok_def keys by auto
  ultimately show ?thesis unfolding live_links_ok_def by blast
qed

lemma live_edges_group_gone:
  assumes "group_gone uri c c'"
  shows "live_edges c' = {(u, d) \<in> live_edges c. u \<noteq> uri \<and> d \<noteq> uri}"
  using assms by (auto simp: live_edges_def group_gone_def)

lemma wf_except_group_gone:
  assumes "wf_except X c" "group_gone uri c c'"
  shows "wf_except (X - {uri}) c'"
proof -
  have "nodes_ok (X - {uri}) (cs_keys c') (cs_heap c')"
    using assms dom_map_of_fst [of "cs_heap c'" "cs_heap c"]
    by (auto simp: wf_except_def nodes_ok_def group_gone_def distinct_removeAll)
  moreover have "acyclic (live_edges c')"
    using assms by (auto simp: wf_except_def live_edges_group_gone intro: acyclic_subset)
  moreover have "state_ok (cs_trackedUpdates c') (up (cs_heap c') k) ru"
    if "k \<in> set (cs_keys c') - (X - {uri})" "ru \<in> set (upds (cs_heap c') k)" for k ru
  proof -
    have k: "k \<in> set (cs_keys c) - X" "ru \<in> set (upds (cs_heap c) k)"
      using that assms(2) by (auto simp: group_gone_def)
    have "set (up (cs_heap c') k) \<subseteq> set (up (cs_heap c) k)"
      using assms(2) by (auto simp: group_gone_def)
    then have "up (cs_heap c) k = [] \<Longrightarrow> up (cs_heap c') k = []" by auto
    moreover have "cs_trackedUpdates c' = cs_trackedUpdates c"
      using assms(2) by (simp add: group_gone_def)
    ultimately show ?thesis
      using assms(1) k unfolding wf_except_def state_ok_def by auto
  qed
  ultimately show ?thesis
    using group_gone_live_links assms unfolding wf_except_def by blast
qed


lemma views_remove_up [heap_simps]:
  fixes h :: group_heap and p u d :: FormaeURI
  defines "h' \<equiv> heap_upd p (\<lambda>g. g\<lparr>rug_UpstreamGroups := remove_first (\<lambda>q. q = u) (rug_UpstreamGroups g)\<rparr>) h"
  shows "up h' k = (if k = p then remove1 u (up h k) else up h k)" "down h' = down h" "upds h' = upds h"
  unfolding h'_def up_def down_def upds_def
  by (auto simp: heap_simps fun_eq_iff remove_first_eq_remove1 split: option.splits)

lemma views_remove_down [heap_simps]:
  fixes h :: group_heap and p u d :: FormaeURI
  defines "h' \<equiv> heap_upd p (\<lambda>g. g\<lparr>rug_DownstreamGroups := remove_first (\<lambda>q. q = d) (rug_DownstreamGroups g)\<rparr>) h"
  shows "down h' k = (if k = p then remove1 d (down h k) else down h k)" "up h' = up h" "upds h' = upds h"
  unfolding h'_def up_def down_def upds_def
  by (auto simp: heap_simps fun_eq_iff remove_first_eq_remove1 split: option.splits)

lemma views_pop [heap_simps]:
  "up (heap_upd p (Pop u) h) = up h" "down (heap_upd p (Pop u) h) = down h"
  "uris_ok (heap_upd p (Pop u) h) = uris_ok h"
  "k \<noteq> p \<Longrightarrow> upds (heap_upd p (Pop u) h) k = upds h k"
  by (auto simp: up_def down_def upds_def heap_simps fun_eq_iff Pop_def split: option.splits)

text \<open>The groups in \<open>D\<close> no longer wait for \<open>uri\<close>; no other field has changed.\<close>

definition ups_cut :: "FormaeURI \<Rightarrow> FormaeURI set \<Rightarrow> group_heap \<Rightarrow> group_heap \<Rightarrow> bool" where
  "ups_cut uri D h h' \<longleftrightarrow> map fst h' = map fst h \<and> uris_ok h' = uris_ok h \<and> upds h' = upds h \<and>
     down h' = down h \<and>
     (\<forall>k. distinct (up h k) \<longrightarrow>
        set (up h' k) = set (up h k) - (if k \<in> D then {uri} else {}) \<and> distinct (up h' k))"

lemma ups_cut_trans:
  assumes "ups_cut uri D h h1" "ups_cut uri E h1 h2"
  shows "ups_cut uri (D \<union> E) h h2"
  unfolding ups_cut_def
proof (intro conjI allI impI)
  fix k
  assume d: "distinct (up h k)"
  then have 1: "set (up h1 k) = set (up h k) - (if k \<in> D then {uri} else {})" "distinct (up h1 k)"
    using assms(1) by (simp_all add: ups_cut_def)
  then have 2: "set (up h2 k) = set (up h1 k) - (if k \<in> E then {uri} else {})" "distinct (up h2 k)"
    using assms(2) by (simp_all add: ups_cut_def)
  from 1 2 show "set (up h2 k) = set (up h k) - (if k \<in> D \<union> E then {uri} else {})"
    by auto
  show "distinct (up h2 k)" by (fact 2)
qed (use assms in \<open>simp_all add: ups_cut_def\<close>)

lemma unlink_loop:
  assumes "set ds \<subseteq> dom (map_of h)"
  shows "\<exists>h'. ofold (\<lambda>d. RemoveUpstreamGroup d uri) ds h = Some h' \<and> ups_cut uri (set ds) h h'"
  using assms
proof (induction ds arbitrary: h)
  case Nil
  then show ?case by (simp add: ups_cut_def)
next
  case (Cons d ds)
  then obtain g where g: "map_of h d = Some g" by auto
  define h1 where "h1 = heap_upd d (\<lambda>g. g\<lparr>rug_UpstreamGroups :=
     remove_first (\<lambda>p. p = uri) (rug_UpstreamGroups g)\<rparr>) h"
  have h1: "RemoveUpstreamGroup d uri h = Some h1"
    by (simp add: RemoveUpstreamGroup_def g h1_def)
  have keys: "map fst h1 = map fst h" by (simp add: h1_def heap_simps)
  with Cons.prems have "set ds \<subseteq> dom (map_of h1)"
    using dom_map_of_fst [OF keys] by simp
  from Cons.IH [OF this] obtain h' where
    h': "ofold (\<lambda>d. RemoveUpstreamGroup d uri) ds h1 = Some h'" "ups_cut uri (set ds) h1 h'"
    by blast
  have "ups_cut uri {d} h h1"
    by (simp add: ups_cut_def h1_def heap_simps)
  from ups_cut_trans [OF this h'(2)] have "ups_cut uri (set (d # ds)) h h'" by simp
  with h1 h'(1) show ?case by auto
qed

lemma remove_if_done_gone:
  assumes "map_of (cs_heap c) uri \<noteq> None" "upds (cs_heap c) uri = []"
    "set (down (cs_heap c) uri) \<subseteq> dom (map_of (cs_heap c))" "\<And>k. distinct (up (cs_heap c) k)"
  shows "\<exists>c'. remove_if_done uri c = Some c' \<and> group_gone uri c c' \<and> down (cs_heap c') = down (cs_heap c)"
proof -
  obtain g where g: "map_of (cs_heap c) uri = Some g" using assms(1) by auto
  from unlink_loop [OF assms(3)] obtain h' where
    h': "ofold (\<lambda>d. RemoveUpstreamGroup d uri) (rug_DownstreamGroups g) (cs_heap c) = Some h'"
    and cut: "ups_cut uri (set (down (cs_heap c) uri)) (cs_heap c) h'"
    unfolding views_Some(1) [OF g] by blast
  have "Done g" using assms(2) by (simp add: Done_def views_Some [OF g])
  then have "remove_if_done uri c = Some (delete_key uri (with_heap h' c))"
    by (simp add: remove_if_done_def g h')
  moreover have "group_gone uri c (delete_key uri (with_heap h' c))"
    using cut assms(2,4) by (auto simp: group_gone_def ups_cut_def fun_eq_iff)
  moreover have "down h' = down (cs_heap c)" using cut by (simp add: ups_cut_def)
  ultimately show ?thesis by simp
qed


section \<open>The unblocking loop\<close>

text \<open>
  However the shifting array makes the loop skip or revisit elements, some of the downstream
  groups are unlinked in both directions and the others not at all.
\<close>

definition partly_unlinked :: "FormaeURI \<Rightarrow> group_heap \<Rightarrow> group_heap \<Rightarrow> bool" where
  "partly_unlinked uri h h' \<longleftrightarrow> map fst h' = map fst h \<and> uris_ok h' = uris_ok h \<and> upds h' = upds h \<and>
     (\<forall>k. k \<noteq> uri \<longrightarrow> down h' k = down h k) \<and> set (down h' uri) \<subseteq> set (down h uri) \<and>
     length (down h' uri) \<le> length (down h uri) \<and>
     (\<forall>k. distinct (up h' k) \<and> set (up h' k) \<subseteq> set (up h k) \<and>
        set (up h k) - {uri} \<subseteq> set (up h' k) \<and>
        (k \<notin> set (down h uri) \<longrightarrow> up h' k = up h k) \<and>
        (k \<in> set (down h uri) - set (down h' uri) \<longrightarrow> uri \<notin> set (up h' k)))"

lemma partly_unlinked_refl: "(\<And>k. distinct (up h k)) \<Longrightarrow> partly_unlinked uri h h"
  by (simp add: partly_unlinked_def)

lemma partly_unlinked_dom:
  assumes "partly_unlinked uri h h'" "map_of h k \<noteq> None"
  obtains g where "map_of h' k = Some g"
  using assms map_of_keys_cong [of h' h k] by (auto simp: partly_unlinked_def)

lemma partly_unlinked_UnlinkWith:
  assumes "partly_unlinked uri h h'" "d \<in> set (down h uri)" "map_of h d \<noteq> None"
  shows "\<exists>h''. UnlinkWith d uri h' = Some h'' \<and> partly_unlinked uri h h''"
proof -
  obtain gd where gd: "map_of h' d = Some gd"
    using partly_unlinked_dom [OF assms(1,3)] by blast
  obtain gu where gu: "map_of h' uri = Some gu"
    using partly_unlinked_dom [OF assms(1), of uri] views_dom(1) [OF assms(2)] by auto
  define h1 where "h1 = heap_upd d (\<lambda>g. g\<lparr>rug_UpstreamGroups :=
     remove_first (\<lambda>p. p = uri) (rug_UpstreamGroups g)\<rparr>) h'"
  define h2 where "h2 = heap_upd uri (\<lambda>g. g\<lparr>rug_DownstreamGroups :=
     remove_first (\<lambda>p. p = d) (rug_DownstreamGroups g)\<rparr>) h1"
  have "UnlinkWith d uri h' = Some h2"
    by (simp add: UnlinkWith_def RemoveUpstreamGroup_def gd gu h1_def h2_def)
  moreover have "map fst h2 = map fst h'" "uris_ok h2 = uris_ok h'" "upds h2 = upds h'"
    by (simp_all add: h1_def h2_def heap_simps)
  moreover have down: "down h2 k = (if k = uri then remove1 d (down h' k) else down h' k)" for k
    by (simp add: h1_def h2_def heap_simps)
  moreover have up: "up h2 k = (if k = d then remove1 uri (up h' k) else up h' k)" for k
    by (simp add: h1_def h2_def heap_simps)
  moreover have "set (down h2 uri) \<subseteq> set (down h uri)" "length (down h2 uri) \<le> length (down h uri)"
    using assms(1) set_remove1_subset [of d "down h' uri"] down [of uri]
    by (auto simp: partly_unlinked_def length_remove1)
  moreover have "distinct (up h2 k) \<and> set (up h2 k) \<subseteq> set (up h k) \<and>
      set (up h k) - {uri} \<subseteq> set (up h2 k) \<and> (k \<notin> set (down h uri) \<longrightarrow> up h2 k = up h k) \<and>
      (k \<in> set (down h uri) - set (down h2 uri) \<longrightarrow> uri \<notin> set (up h2 k))" for k
  proof -
    have k: "distinct (up h' k)" "set (up h' k) \<subseteq> set (up h k)" "set (up h k) - {uri} \<subseteq> set (up h' k)"
      "k \<notin> set (down h uri) \<longrightarrow> up h' k = up h k"
      "k \<in> set (down h uri) - set (down h' uri) \<longrightarrow> uri \<notin> set (up h' k)"
      using assms(1) by (simp_all add: partly_unlinked_def)
    show ?thesis
    proof (cases "k = d")
      case True
      then show ?thesis using k assms(2) up [of k] by auto
    next
      case False
      then have "k \<in> set (down h2 uri) \<longleftrightarrow> k \<in> set (down h' uri)" using down [of uri] by simp
      then show ?thesis using k False up [of k] by simp
    qed
  qed
  ultimately show ?thesis
    using assms(1) unfolding partly_unlinked_def by simp
qed

lemma partly_unlinked_unblock_one:
  assumes "partly_unlinked uri h h'" "d \<in> set (down h uri)" "map_of h d \<noteq> None"
  shows "\<exists>h''. unblock_one update uri d h' = Some h'' \<and> partly_unlinked uri h h''"
proof -
  obtain g where g: "map_of h' d = Some g"
    using partly_unlinked_dom [OF assms(1,3)] by blast
  show ?thesis
    unfolding unblock_one_def g option.case
    by (rule ofold_invariant [where P = "partly_unlinked uri h"])
      (use assms(1) partly_unlinked_UnlinkWith [OF _ assms(2,3)] in auto)
qed

lemma unblock_downstream_ok:
  assumes "\<And>k. distinct (up h k)" "map_of h uri \<noteq> None" "set (down h uri) \<subseteq> dom (map_of h)"
  shows "\<exists>h'. unblock_downstream update uri h = Some h' \<and> partly_unlinked uri h h'"
proof -
  obtain g where g: "map_of h uri = Some g" using assms(2) by auto
  let ?n = "length (down h uri)"
  let ?P = "\<lambda>(arr, h'). length arr = ?n \<and> set arr \<subseteq> set (down h uri) \<and> partly_unlinked uri h h'"
  have "\<exists>s. ofold (unblock_step update uri) [0..<?n] (down h uri, h) = Some s \<and> ?P s"
  proof (rule ofold_invariant)
    fix i s
    assume "i \<in> set [0..<?n]" "?P s"
    then obtain arr h' where s: "s = (arr, h')" and i: "i < length arr"
      and P: "length arr = ?n" "set arr \<subseteq> set (down h uri)" "partly_unlinked uri h h'"
      by (cases s) auto
    have d: "arr ! i \<in> set (down h uri)" using i P(2) by auto
    with assms(3) have "map_of h (arr ! i) \<noteq> None" by auto
    from partly_unlinked_unblock_one [OF P(3) d this] obtain h'' where
      h'': "unblock_one update uri (arr ! i) h' = Some h''" "partly_unlinked uri h h''" by blast
    obtain g'' where g'': "map_of h'' uri = Some g''"
      using partly_unlinked_dom [OF h''(2) assms(2)] by blast
    let ?arr = "down h'' uri @ drop (length (down h'' uri)) arr"
    have "unblock_step update uri i s = Some (?arr, h'')"
      by (simp add: unblock_step_def s h''(1) g'' views_Some(1) [OF g''])
    moreover have "length (down h'' uri) \<le> ?n" "set (down h'' uri) \<subseteq> set (down h uri)"
      using h''(2) by (simp_all add: partly_unlinked_def)
    moreover from this have "length ?arr = ?n" "set ?arr \<subseteq> set (down h uri)"
      using P(1,2) set_drop_subset [of "length (down h'' uri)" arr] by auto
    ultimately show "\<exists>t. unblock_step update uri i s = Some t \<and> ?P t" using h''(2) by simp
  qed (use assms(1) partly_unlinked_refl in auto)
  then show ?thesis
    by (auto simp: unblock_downstream_def g views_Some(1) [OF g])
qed


section \<open>The success path\<close>

lemma upds_pop:
  assumes "one_update (op_URI update) (upds h k) \<or> upds h k = []" "clean_ksuid update"
  shows "upds (heap_upd k (Pop update) h) k = []"
proof (cases "map_of h k")
  case None
  then show ?thesis by (simp add: upds_def heap_simps)
next
  case (Some g)
  from assms show ?thesis
  proof (elim disjE)
    assume "one_update (op_URI update) (upds h k)" "clean_ksuid update"
    then obtain ru where "rug_Updates g = [ru]" "op_URI ru = op_URI update" "clean_ksuid ru"
      by (auto simp: one_update_def views_Some [OF Some])
    moreover from this assms(2) have "ru_URI ru = ru_URI update \<and> ru_Operation ru = ru_Operation update"
      by (simp add: op_URI_inject)
    ultimately show ?thesis by (simp add: upds_def heap_simps Some Pop_def)
  qed (simp add: upds_def heap_simps Some Pop_def)
qed

lemma wf_except_links:
  assumes "wf_except X c"
  shows "distinct (up (cs_heap c) k)" "set (down (cs_heap c) k) \<subseteq> dom (map_of (cs_heap c))"
  using assms by (simp_all add: wf_except_def live_links_ok_def)

lemma wf_except_upds:
  "wf_except X c \<Longrightarrow> one_update k (upds (cs_heap c) k) \<or> upds (cs_heap c) k = []"
  by (cases "k \<in> set (cs_keys c)") (auto simp: wf_except_def nodes_ok_def)

lemma wf_except_dom: "wf_except X c \<Longrightarrow> k \<in> set (cs_keys c) \<Longrightarrow> map_of (cs_heap c) k \<noteq> None"
  by (auto simp: wf_except_def nodes_ok_def)

lemma group_gone_after_unlink:
  assumes "partly_unlinked uri h1 h" "group_gone uri (with_heap h c) c'"
    and "map fst h1 = map fst (cs_heap c)" "uris_ok h1 = uris_ok (cs_heap c)"
    "up h1 = up (cs_heap c)" "down h1 = down (cs_heap c)" "upds h1 = (upds (cs_heap c))(uri := [])"
  shows "group_gone uri c c'"
proof -
  have up: "set (up h k) \<subseteq> set (up (cs_heap c) k)" "set (up (cs_heap c) k) - {uri} \<subseteq> set (up h k)"
    "k \<notin> set (down (cs_heap c) uri) \<Longrightarrow> up h k = up (cs_heap c) k"
    "k \<in> set (down (cs_heap c) uri) - set (down h uri) \<Longrightarrow> uri \<notin> set (up h k)"
    "distinct (up h k)" "set (down h uri) \<subseteq> set (down (cs_heap c) uri)" for k
    using assms(1) unfolding partly_unlinked_def assms(5,6) by simp_all
  have up': "set (up (cs_heap c') k) = set (up h k) - (if k \<in> set (down h uri) then {uri} else {})"
    "distinct (up (cs_heap c') k)" for k
    using assms(2) up(5) by (simp_all add: group_gone_def)
  have "set (up (cs_heap c') k) = set (up (cs_heap c) k) -
      (if k \<in> set (down (cs_heap c) uri) then {uri} else {})" for k
    using up(1-5) [of k] up(6) up' [of k] by auto
  then show ?thesis
    using assms(1,2,3,4,6,7) up'(2) by (auto simp: group_gone_def partly_unlinked_def)
qed

lemma UpdatePipeline_success_gone:
  assumes wf: "wf_except X c" and "op_URI update \<in> set (cs_keys c)" "clean_ksuid update"
    and "ru_State update = ResourceUpdateStateSuccess"
  shows "\<exists>c'. UpdatePipeline update c = Some (c', Inr []) \<and> group_gone (op_URI update) c c'"
proof -
  let ?uri = "op_URI update"
  define h1 where "h1 = heap_upd ?uri (Pop update) (cs_heap c)"
  have frame: "map fst h1 = map fst (cs_heap c)" "uris_ok h1 = uris_ok (cs_heap c)"
    "up h1 = up (cs_heap c)" "down h1 = down (cs_heap c)"
    by (simp_all add: h1_def heap_simps)
  have "upds h1 ?uri = []"
    unfolding h1_def using wf_except_upds [OF wf] assms(3) by (intro upds_pop)
  then have upds1: "upds h1 = (upds (cs_heap c))(?uri := [])"
    by (auto simp: h1_def heap_simps fun_eq_iff)
  have dom1: "dom (map_of h1) = dom (map_of (cs_heap c))" by (rule dom_map_of_fst [OF frame(1)])
  have ok1: "distinct (up h1 k)" "map_of h1 ?uri \<noteq> None" "set (down h1 k) \<subseteq> dom (map_of h1)" for k
    using wf_except_links [OF wf] wf_except_dom [OF wf assms(2)] dom1 frame by (auto simp: dom_def)
  obtain h where h: "(if is_create_update_op update then unblock_downstream update ?uri h1 else Some h1) = Some h"
    and un: "partly_unlinked ?uri h1 h"
    using unblock_downstream_ok [OF ok1, of update] partly_unlinked_refl [OF ok1(1), of ?uri]
    by (cases "is_create_update_op update") auto
  have dom: "dom (map_of h) = dom (map_of h1)"
    using un by (intro dom_map_of_fst) (simp add: partly_unlinked_def)
  have "\<exists>c'. remove_if_done ?uri (with_heap h c) = Some c' \<and> group_gone ?uri (with_heap h c) c' \<and>
      down (cs_heap c') = down (cs_heap (with_heap h c))"
  proof (rule remove_if_done_gone)
    show "map_of (cs_heap (with_heap h c)) ?uri \<noteq> None" using ok1(2) dom by (auto simp: dom_def)
    show "upds (cs_heap (with_heap h c)) ?uri = []" using un upds1 by (simp add: partly_unlinked_def)
    show "set (down (cs_heap (with_heap h c)) ?uri) \<subseteq> dom (map_of (cs_heap (with_heap h c)))"
      using un ok1(3) [of ?uri] unfolding with_heap_simps dom by (auto simp: partly_unlinked_def)
    show "distinct (up (cs_heap (with_heap h c)) k)" for k using un by (simp add: partly_unlinked_def)
  qed
  then obtain c' where c': "remove_if_done ?uri (with_heap h c) = Some c'" "group_gone ?uri (with_heap h c) c'"
    by blast
  moreover have "group_gone ?uri c c'"
    by (rule group_gone_after_unlink [OF un c'(2) frame upds1])
  moreover have "UpdatePipeline update c = Option.bind
      (if is_create_update_op update then unblock_downstream update ?uri h1 else Some h1)
      (\<lambda>h. map_option (\<lambda>c. (c, Inr [])) (remove_if_done ?uri (with_heap h c)))"
    using assms(2,4)
    by (simp add: UpdatePipeline_def Let_def h1_def [symmetric] split del: if_split cong: if_cong)
  ultimately show ?thesis unfolding h by simp
qed


section \<open>The cascade\<close>

text \<open>
  A group is waiting when its one update has not started. The cascade marks waiting groups; the
  heaps before and after agree up to the states of the marked groups.
\<close>

definition waiting :: "group_heap \<Rightarrow> FormaeURI \<Rightarrow> bool" where
  "waiting h k \<longleftrightarrow> (\<exists>ru. upds h k = [ru] \<and> ru_State ru = ResourceUpdateStateNotStarted)"

definition fail_update :: "ResourceUpdate \<Rightarrow> ResourceUpdate" where
  "fail_update ru = ru\<lparr>ru_State := ResourceUpdateStateFailed\<rparr>"

definition marked :: "FormaeURI set \<Rightarrow> group_heap \<Rightarrow> group_heap \<Rightarrow> bool" where
  "marked S h h' \<longleftrightarrow> map fst h' = map fst h \<and> uris_ok h' = uris_ok h \<and> up h' = up h \<and> down h' = down h \<and>
     upds h' = (\<lambda>k. if k \<in> S then map fail_update (upds h k) else upds h k)"

definition cascade_shape :: "FormaeURI list \<Rightarrow> group_heap \<Rightarrow> bool" where
  "cascade_shape keys h \<longleftrightarrow>
     (\<forall>k. upds h k = [] \<or> (\<exists>ru. upds h k = [ru] \<and> op_URI ru = k \<and> k \<in> set keys)) \<and>
     (\<forall>k. set (down h k) \<subseteq> dom (map_of h)) \<and> set keys \<subseteq> dom (map_of h)"

lemma cascade_shapeD:
  assumes "cascade_shape keys h" "upds h k = [ru]"
  shows "op_URI ru = k" "k \<in> set keys"
proof -
  have "upds h k = [] \<or> (\<exists>ru. upds h k = [ru] \<and> op_URI ru = k \<and> k \<in> set keys)"
    using assms(1) unfolding cascade_shape_def by blast
  then show "op_URI ru = k" "k \<in> set keys" using assms(2) by simp_all
qed

text \<open>The part of the graph the cascade follows.\<close>

definition waiting_edges :: "group_heap \<Rightarrow> (FormaeURI \<times> FormaeURI) set" where
  "waiting_edges h = {(u, d) \<in> edges h. waiting h d}"

lemma fail_update_simps [simp]:
  "ru_State (fail_update ru) = ResourceUpdateStateFailed" "ru_URI (fail_update ru) = ru_URI ru"
  "ru_Operation (fail_update ru) = ru_Operation ru" "fail_update (fail_update ru) = fail_update ru"
  "clean_ksuid (fail_update ru) = clean_ksuid ru"
  by (simp_all add: fail_update_def ru_URI_def clean_ksuid_def)

lemma marked_empty: "marked {} h h"
  by (simp add: marked_def)

lemma marked_trans: "marked S h h1 \<Longrightarrow> marked T h1 h2 \<Longrightarrow> marked (S \<union> T) h h2"
  by (auto simp: marked_def fun_eq_iff)

lemma waiting_marked: "marked S h h' \<Longrightarrow> waiting h' k \<longleftrightarrow> waiting h k \<and> k \<notin> S"
  by (auto simp: marked_def waiting_def)

lemma waiting_edges_marked: "marked S h h' \<Longrightarrow> waiting_edges h' \<subseteq> waiting_edges h"
  by (auto simp: waiting_edges_def waiting_marked edges_def marked_def)

lemma cascade_shape_marked:
  assumes "marked S h h'" "cascade_shape keys h"
  shows "cascade_shape keys h'"
proof -
  have "dom (map_of h') = dom (map_of h)"
    using assms(1) by (intro dom_map_of_fst) (simp add: marked_def)
  moreover have "upds h' k = [] \<or> (\<exists>ru. upds h' k = [ru] \<and> op_URI ru = k \<and> k \<in> set keys)" for k
  proof -
    from assms(2) consider "upds h k = []" | ru where "upds h k = [ru]" "op_URI ru = k" "k \<in> set keys"
      unfolding cascade_shape_def by blast
    then show ?thesis using assms(1) by cases (simp_all add: marked_def)
  qed
  moreover have "down h' = down h" using assms(1) by (simp add: marked_def)
  ultimately show ?thesis using assms(2) unfolding cascade_shape_def by simp
qed

lemma marked_single:
  assumes "upds h d = [ru]"
  shows "marked {d} h (heap_upd d (\<lambda>g. g\<lparr>rug_Updates := (rug_Updates g)[0 := fail_update ru]\<rparr>) h)"
  using assms unfolding marked_def
  by (auto simp: heap_simps up_def down_def upds_def fun_eq_iff split: option.splits)

lemma waiting_subset_dom: "{k. waiting h k} \<subseteq> dom (map_of h)"
  by (auto simp: waiting_def upds_def split: option.splits)

lemma finite_waiting: "finite {k. waiting h k}"
  by (rule finite_subset [OF waiting_subset_dom]) (rule finite_dom_map_of)

text \<open>What a (sub)cascade over the pending pointers \<open>ds\<close> achieves.\<close>

definition cascaded ::
  "group_heap \<Rightarrow> FormaeURI list \<Rightarrow> FormaeURI list \<Rightarrow> group_heap \<Rightarrow> bool" where
  "cascaded h ds ks h' \<longleftrightarrow> marked (set ks) h h' \<and> distinct ks \<and>
     (\<forall>k \<in> set ks. waiting h k \<and> (\<exists>d \<in> set ds. waiting h d \<and> (d, k) \<in> (waiting_edges h)\<^sup>*)) \<and>
     (\<forall>d \<in> set ds. waiting h d \<longrightarrow> d \<in> set ks) \<and>
     (\<forall>y \<in> set ks. \<forall>d \<in> set (down h y). waiting h d \<longrightarrow> d \<in> set ks)"

definition failed_of :: "group_heap \<Rightarrow> FormaeURI \<Rightarrow> ResourceUpdate" where
  "failed_of h k = fail_update (hd (upds h k))"

lemma cascaded_skip:
  assumes "\<not> waiting h d" "cascaded h ds ks h'"
  shows "cascaded h (d # ds) ks h'"
proof -
  have "x \<in> set ks" if "x \<in> set (d # ds)" "waiting h x" for x
  proof -
    have "x \<in> set ds" using that assms(1) by auto
    then show ?thesis using assms(2) that(2) unfolding cascaded_def by blast
  qed
  moreover have "\<exists>x \<in> set (d # ds). waiting h x \<and> (x, k) \<in> (waiting_edges h)\<^sup>*" if "k \<in> set ks" for k
    using assms(2) that unfolding cascaded_def by (meson list.set_intros(2))
  ultimately show ?thesis using assms(2) unfolding cascaded_def by blast
qed

lemma cascaded_Cons:
  assumes d: "waiting h d" and m: "marked {d} h h1"
    and c1: "cascaded h1 (down h1 d) ks1 h2" and c2: "cascaded h2 ds ks2 h3"
  shows "cascaded h (d # ds) (d # ks1 @ ks2) h3"
    and "map (failed_of h) (d # ks1 @ ks2) = failed_of h d # map (failed_of h1) ks1 @ map (failed_of h2) ks2"
proof -
  have m1: "marked (set ks1) h1 h2" and m2: "marked (set ks2) h2 h3"
    using c1 c2 by (simp_all add: cascaded_def)
  have m12: "marked (insert d (set ks1)) h h2" using marked_trans [OF m m1] by simp
  have w1: "waiting h1 k \<longleftrightarrow> waiting h k \<and> k \<noteq> d" and
    w2: "waiting h2 k \<longleftrightarrow> waiting h k \<and> k \<noteq> d \<and> k \<notin> set ks1" for k
    using waiting_marked [OF m] waiting_marked [OF m12] by auto
  have down: "down h1 = down h" "down h2 = down h" using m m12 by (simp_all add: marked_def)
  have sub: "(waiting_edges h1)\<^sup>* \<subseteq> (waiting_edges h)\<^sup>*" "(waiting_edges h2)\<^sup>* \<subseteq> (waiting_edges h)\<^sup>*"
    using waiting_edges_marked [OF m] waiting_edges_marked [OF m12] by (simp_all add: rtrancl_mono)
  have k1: "waiting h1 k \<and> (\<exists>x \<in> set (down h d). waiting h1 x \<and> (x, k) \<in> (waiting_edges h1)\<^sup>*)" if "k \<in> set ks1" for k
    using c1 that unfolding cascaded_def down by blast
  have k2: "waiting h2 k \<and> (\<exists>x \<in> set ds. waiting h2 x \<and> (x, k) \<in> (waiting_edges h2)\<^sup>*)" if "k \<in> set ks2" for k
    using c2 that unfolding cascaded_def by blast
  have "marked (set (d # ks1 @ ks2)) h h3" using marked_trans [OF m12 m2] by simp
  moreover have "distinct (d # ks1 @ ks2)"
  proof -
    have "distinct ks1" "distinct ks2" using c1 c2 by (simp_all add: cascaded_def)
    moreover have "d \<notin> set ks1" using k1 [of d] w1 by blast
    moreover have "d \<notin> set ks2" "set ks1 \<inter> set ks2 = {}" using k2 w2 by blast+
    ultimately show ?thesis by simp
  qed
  moreover have "waiting h k \<and> (\<exists>x \<in> set (d # ds). waiting h x \<and> (x, k) \<in> (waiting_edges h)\<^sup>*)"
    if "k \<in> set (d # ks1 @ ks2)" for k
  proof -
    have "(d, k) \<in> (waiting_edges h)\<^sup>*" if k: "k \<in> set ks1"
    proof -
      obtain x where x: "x \<in> set (down h d)" "waiting h1 x" "(x, k) \<in> (waiting_edges h1)\<^sup>*"
        using k1 [OF k] by blast
      then have "(d, x) \<in> waiting_edges h" by (simp add: waiting_edges_def edges_def w1)
      with x(3) sub(1) show ?thesis by (meson converse_rtrancl_into_rtrancl subsetD)
    qed
    moreover have "\<exists>x \<in> set ds. waiting h x \<and> (x, k) \<in> (waiting_edges h)\<^sup>*" if "k \<in> set ks2"
      using k2 [OF that] w2 sub(2) by blast
    ultimately show ?thesis using that d k1 [of k] k2 [of k] w1 w2 by (simp; blast)
  qed
  moreover have "x \<in> set (d # ks1 @ ks2)" if "x \<in> set (d # ds)" "waiting h x" for x
  proof -
    have "waiting h2 x \<Longrightarrow> x \<in> set ds \<Longrightarrow> x \<in> set ks2" using c2 unfolding cascaded_def by blast
    with that w2 show ?thesis by auto
  qed
  moreover have "x \<in> set (d # ks1 @ ks2)"
    if "y \<in> set (d # ks1 @ ks2)" "x \<in> set (down h y)" "waiting h x" for x y
  proof -
    have "y = d \<Longrightarrow> waiting h1 x \<Longrightarrow> x \<in> set ks1" "y \<in> set ks1 \<Longrightarrow> waiting h1 x \<Longrightarrow> x \<in> set ks1"
      using c1 that(2) unfolding cascaded_def down by blast+
    moreover have "y \<in> set ks2 \<Longrightarrow> waiting h2 x \<Longrightarrow> x \<in> set ks2"
      using c2 that(2) unfolding cascaded_def down by blast
    ultimately show ?thesis using that w1 [of x] w2 [of x] by auto
  qed
  ultimately show "cascaded h (d # ds) (d # ks1 @ ks2) h3" unfolding cascaded_def by blast
  have "failed_of h1 k = failed_of h k" if "k \<in> set ks1" for k
    using m k1 [OF that] w1 by (simp add: failed_of_def marked_def)
  moreover have "failed_of h2 k = failed_of h k" if "k \<in> set ks2" for k
    using m12 k2 [OF that] w2 by (simp add: failed_of_def marked_def)
  ultimately show "map (failed_of h) (d # ks1 @ ks2) =
      failed_of h d # map (failed_of h1) ks1 @ map (failed_of h2) ks2" by simp
qed


text \<open>The loop over the downstream groups, given that the recursion with less fuel works.\<close>

definition cascade_visit ::
  "nat \<Rightarrow> FormaeURI list \<Rightarrow> FormaeURI \<Rightarrow> fail_state \<Rightarrow> fail_state option" where
  "cascade_visit n keys d = (\<lambda>(h, failedUpdates, visited).
     case map_of h d of
       None \<Rightarrow> None
     | Some g \<Rightarrow>
         ofold (\<lambda>i (h, failedUpdates, visited).
             let downstreamUpdate = upds h d ! i;
                 failed = downstreamUpdate\<lparr>ru_State := ResourceUpdateStateFailed\<rparr>
             in if ru_State downstreamUpdate = ResourceUpdateStateNotStarted
                then recursivelyFailDependencies n keys failed
                  (heap_upd d (\<lambda>g. g\<lparr>rug_Updates := (rug_Updates g)[i := failed]\<rparr>) h,
                   failedUpdates @ [failed], visited)
                else Some (h, failedUpdates, visited))
           [0..<length (rug_Updates g)] (h, failedUpdates, visited))"

lemma recursivelyFailDependencies_Suc:
  "recursivelyFailDependencies (Suc n) keys failedUpdate (h, fs, vis) =
     (let uri = op_URI failedUpdate
      in if uri \<in> set vis then Some (h, fs, vis)
         else if uri \<notin> set keys then Some (h, fs, uri # vis)
         else case map_of h uri of
                None \<Rightarrow> None
              | Some upstream \<Rightarrow>
                  ofold (cascade_visit n keys) (rug_DownstreamGroups upstream) (h, fs, uri # vis))"
  unfolding cascade_visit_def [abs_def] by (rule recursivelyFailDependencies.simps(2))

text \<open>The specification of one recursive call, at fuel \<open>n\<close>.\<close>

definition cascade_spec :: "nat \<Rightarrow> FormaeURI list \<Rightarrow> bool" where
  "cascade_spec n keys \<longleftrightarrow> (\<forall>fu h fs vis. cascade_shape keys h \<and> op_URI fu \<in> set keys \<and>
     op_URI fu \<notin> set vis \<and> \<not> waiting h (op_URI fu) \<and> (\<forall>v \<in> set vis. \<not> waiting h v) \<and>
     card {k. waiting h k} < n \<longrightarrow>
     (\<exists>ks h' vis'. recursivelyFailDependencies n keys fu (h, fs, vis) =
          Some (h', fs @ map (failed_of h) ks, vis') \<and>
        cascaded h (down h (op_URI fu)) ks h' \<and>
        set vis' = insert (op_URI fu) (set vis) \<union> set ks))"

lemma cascade_visit_skip:
  assumes "cascade_shape keys h" "map_of h d \<noteq> None" "\<not> waiting h d"
  shows "cascade_visit n keys d (h, fs, vis) = Some (h, fs, vis)"
proof -
  obtain g where g: "map_of h d = Some g" using assms(2) by auto
  from assms(1) consider "upds h d = []" | ru where "upds h d = [ru]"
    unfolding cascade_shape_def by blast
  then show ?thesis
    using g assms(3) by cases (auto simp: cascade_visit_def waiting_def views_Some)
qed

lemma cascade_visit_waiting:
  assumes "cascade_shape keys h" "upds h d = [ru]" "ru_State ru = ResourceUpdateStateNotStarted"
  shows "cascade_visit n keys d (h, fs, vis) = recursivelyFailDependencies n keys (fail_update ru)
    (heap_upd d (\<lambda>g. g\<lparr>rug_Updates := (rug_Updates g)[0 := fail_update ru]\<rparr>) h,
     fs @ [fail_update ru], vis)"
proof -
  obtain g where g: "map_of h d = Some g" using views_dom(3) [of ru h d] assms(2) by auto
  then show ?thesis
    using assms(2,3) by (simp add: cascade_visit_def views_Some fail_update_def Let_def)
qed


lemma cascade_loop:
  assumes "cascade_spec n keys" "cascade_shape keys h" "set ds \<subseteq> dom (map_of h)"
    "\<forall>v \<in> set vis. \<not> waiting h v" "card {k. waiting h k} \<le> n"
  shows "\<exists>ks h' vis'. ofold (cascade_visit n keys) ds (h, fs, vis) =
      Some (h', fs @ map (failed_of h) ks, vis') \<and>
    cascaded h ds ks h' \<and> set vis' = set vis \<union> set ks"
  using assms(2-5)
proof (induction ds arbitrary: h fs vis)
  case Nil
  then show ?case
    by (intro exI [of _ "[]"] exI [of _ h] exI [of _ vis]) (simp add: cascaded_def marked_empty)
next
  case (Cons d ds)
  then have dom: "map_of h d \<noteq> None" by auto
  show ?case
  proof (cases "waiting h d")
    case False
    with cascade_visit_skip [OF Cons.prems(1) dom] Cons.IH [OF Cons.prems(1) _ Cons.prems(3,4)] Cons.prems(2)
      cascaded_skip
    show ?thesis by fastforce
  next
    case True
    then obtain ru where ru: "upds h d = [ru]" "ru_State ru = ResourceUpdateStateNotStarted"
      by (auto simp: waiting_def)
    define h1 where "h1 = heap_upd d (\<lambda>g. g\<lparr>rug_Updates := (rug_Updates g)[0 := fail_update ru]\<rparr>) h"
    have m: "marked {d} h h1" unfolding h1_def by (rule marked_single [OF ru(1)])
    have w1: "waiting h1 k \<longleftrightarrow> waiting h k \<and> k \<noteq> d" for k using waiting_marked [OF m] by auto
    have opd: "op_URI (fail_update ru) = d" "d \<in> set keys"
      using cascade_shapeD [OF Cons.prems(1) ru(1)] by simp_all
    have "{k. waiting h1 k} = {k. waiting h k} - {d}" using w1 by auto
    then have card1: "card {k. waiting h1 k} < card {k. waiting h k}"
      using card_Diff1_less [OF finite_waiting [of h], of d] True by simp
    have new: "d \<notin> set vis" using Cons.prems(3) True by blast
    have shape1: "cascade_shape keys h1" by (rule cascade_shape_marked [OF m Cons.prems(1)])
    obtain ks1 h2 vis2 where
      r: "recursivelyFailDependencies n keys (fail_update ru) (h1, fs @ [fail_update ru], vis) =
        Some (h2, (fs @ [fail_update ru]) @ map (failed_of h1) ks1, vis2)"
      and c1: "cascaded h1 (down h1 d) ks1 h2" and vis2: "set vis2 = insert d (set vis) \<union> set ks1"
      using assms(1) [unfolded cascade_spec_def, rule_format, of h1 "fail_update ru" vis "fs @ [fail_update ru]"]
        shape1 opd new w1 Cons.prems(3,4) card1 by auto
    have m12: "marked (insert d (set ks1)) h h2"
      using marked_trans [OF m, of "set ks1" h2] c1 by (simp add: cascaded_def)
    have w2: "waiting h2 k \<longleftrightarrow> waiting h k \<and> k \<noteq> d \<and> k \<notin> set ks1" for k
      using waiting_marked [OF m12] by auto
    have dom2: "set ds \<subseteq> dom (map_of h2)"
      using Cons.prems(2) m12 dom_map_of_fst [of h2 h] by (simp add: marked_def)
    have "card {k. waiting h2 k} \<le> card {k. waiting h k}"
      using w2 by (intro card_mono finite_waiting) auto
    with Cons.prems(4) have card2: "card {k. waiting h2 k} \<le> n" by simp
    have vis2': "\<forall>v \<in> set vis2. \<not> waiting h2 v" using vis2 w2 Cons.prems(3) by auto
    obtain ks2 h3 vis3 where
      l: "ofold (cascade_visit n keys) ds (h2, (fs @ [fail_update ru]) @ map (failed_of h1) ks1, vis2) =
        Some (h3, ((fs @ [fail_update ru]) @ map (failed_of h1) ks1) @ map (failed_of h2) ks2, vis3)"
      and c2: "cascaded h2 ds ks2 h3" and vis3: "set vis3 = set vis2 \<union> set ks2"
      using Cons.IH [OF cascade_shape_marked [OF m12 Cons.prems(1)] dom2 vis2' card2] by blast
    have "failed_of h d = fail_update ru" by (simp add: failed_of_def ru(1))
    with cascaded_Cons [OF True m c1 c2] r l vis2 vis3 cascade_visit_waiting [OF Cons.prems(1) ru]
    show ?thesis
      by (rule_tac exI [of _ "d # ks1 @ ks2"], rule_tac exI [of _ h3], rule_tac exI [of _ vis3])
        (simp add: h1_def [symmetric] Un_ac)
  qed
qed

lemma cascade_correct: "cascade_spec n keys"
proof (induction n)
  case 0
  then show ?case by (simp add: cascade_spec_def)
next
  case (Suc n)
  show ?case
    unfolding cascade_spec_def
  proof (intro allI impI, elim conjE)
    fix fu h fs vis
    assume a: "cascade_shape keys h" "op_URI fu \<in> set keys" "op_URI fu \<notin> set vis"
      "\<not> waiting h (op_URI fu)" "\<forall>v \<in> set vis. \<not> waiting h v" "card {k. waiting h k} < Suc n"
    then obtain g where g: "map_of h (op_URI fu) = Some g" by (auto simp: cascade_shape_def)
    have "set (down h (op_URI fu)) \<subseteq> dom (map_of h)" using a(1) by (simp add: cascade_shape_def)
    from cascade_loop [OF Suc a(1) this, of "op_URI fu # vis" fs] a g
    show "\<exists>ks h' vis'. recursivelyFailDependencies (Suc n) keys fu (h, fs, vis) =
          Some (h', fs @ map (failed_of h) ks, vis') \<and>
        cascaded h (down h (op_URI fu)) ks h' \<and> set vis' = insert (op_URI fu) (set vis) \<union> set ks"
      unfolding recursivelyFailDependencies_Suc Let_def views_Some(1) [OF g] by simp
  qed
qed


section \<open>The failure path\<close>

text \<open>The groups in \<open>S\<close> are gone; the other live groups keep their updates and links.\<close>

definition gone :: "FormaeURI set \<Rightarrow> Changeset \<Rightarrow> Changeset \<Rightarrow> bool" where
  "gone S c c' \<longleftrightarrow> cs_CommandID c' = cs_CommandID c \<and> cs_trackedUpdates c' = cs_trackedUpdates c \<and>
     map fst (cs_heap c') = map fst (cs_heap c) \<and> set (cs_keys c') = set (cs_keys c) - S \<and>
     (\<forall>k \<in> set (cs_keys c'). upds (cs_heap c') k = upds (cs_heap c) k) \<and>
     live_edges c' = {(u, d) \<in> live_edges c. u \<notin> S \<and> d \<notin> S}"

lemma gone_trans: "gone S c c1 \<Longrightarrow> gone T c1 c2 \<Longrightarrow> gone (S \<union> T) c c2"
  unfolding gone_def by auto

lemma gone_dead:
  assumes "k \<notin> set (cs_keys c)"
  shows "gone {k} c c"
  using assms by (auto simp: gone_def live_edges_def)

lemma group_gone_gone: "group_gone uri c c' \<Longrightarrow> gone {uri} c c'"
  by (auto simp: gone_def live_edges_group_gone) (auto simp: group_gone_def)

lemma pop_remove_gone:
  assumes wf: "wf_except X c" and "op_URI fu \<in> set (cs_keys c)" "clean_ksuid fu"
  shows "\<exists>c'. remove_if_done (op_URI fu) (with_heap (heap_upd (op_URI fu) (Pop fu) (cs_heap c)) c) = Some c' \<and>
    group_gone (op_URI fu) c c'"
proof -
  let ?uri = "op_URI fu"
  define h1 where "h1 = heap_upd ?uri (Pop fu) (cs_heap c)"
  have frame: "map fst h1 = map fst (cs_heap c)" "uris_ok h1 = uris_ok (cs_heap c)"
    "up h1 = up (cs_heap c)" "down h1 = down (cs_heap c)"
    by (simp_all add: h1_def heap_simps)
  have upds1: "upds h1 ?uri = []"
    unfolding h1_def using wf_except_upds [OF wf] assms(3) by (intro upds_pop)
  then have upds1': "upds h1 = (upds (cs_heap c))(?uri := [])"
    by (auto simp: h1_def heap_simps fun_eq_iff)
  have dom1: "dom (map_of h1) = dom (map_of (cs_heap c))" by (rule dom_map_of_fst [OF frame(1)])
  have "\<exists>c'. remove_if_done ?uri (with_heap h1 c) = Some c' \<and> group_gone ?uri (with_heap h1 c) c' \<and>
      down (cs_heap c') = down (cs_heap (with_heap h1 c))"
    by (rule remove_if_done_gone)
      (use wf_except_links [OF wf] wf_except_dom [OF wf assms(2)] dom1 frame upds1 in \<open>auto simp: dom_def\<close>)
  then obtain c' where c': "remove_if_done ?uri (with_heap h1 c) = Some c'" "group_gone ?uri (with_heap h1 c) c'"
    by blast
  have "partly_unlinked ?uri h1 h1"
    by (rule partly_unlinked_refl) (simp add: frame wf_except_links [OF wf])
  from group_gone_after_unlink [OF this c'(2) frame upds1'] c'(1) show ?thesis
    by (auto simp: h1_def)
qed

lemma wf_except_dead: "wf_except X c \<Longrightarrow> k \<notin> set (cs_keys c) \<Longrightarrow> wf_except (X - {k}) c"
  unfolding wf_except_def nodes_ok_def by auto

lemma pop_failed_ok:
  assumes "wf_except X c" "clean_ksuid fu"
  shows "\<exists>c'. pop_failed fu c = Some c' \<and> wf_except (X - {op_URI fu}) c' \<and> gone {op_URI fu} c c'"
proof (cases "op_URI fu \<in> set (cs_keys c)")
  case True
  then show ?thesis
    using pop_remove_gone [OF assms(1) True assms(2)] wf_except_group_gone [OF assms(1)] group_gone_gone
    by (fastforce simp: pop_failed_def Let_def)
next
  case False
  then show ?thesis
    using wf_except_dead [OF assms(1) False] gone_dead by (auto simp: pop_failed_def Let_def)
qed

lemma pop_failed_loop:
  assumes "wf_except X c" "\<forall>f \<in> set fs. clean_ksuid f"
  shows "\<exists>c'. ofold pop_failed fs c = Some c' \<and> wf_except (X - op_URI ` set fs) c' \<and>
    gone (op_URI ` set fs) c c'"
  using assms
proof (induction fs arbitrary: X c)
  case Nil
  then show ?case by (auto simp: gone_def live_edges_def)
next
  case (Cons f fs)
  from pop_failed_ok [OF Cons.prems(1), of f] Cons.prems(2) obtain c1 where
    c1: "pop_failed f c = Some c1" "wf_except (X - {op_URI f}) c1" "gone {op_URI f} c c1" by auto
  from Cons.IH [OF c1(2)] Cons.prems(2) obtain c2 where
    c2: "ofold pop_failed fs c1 = Some c2" "wf_except (X - {op_URI f} - op_URI ` set fs) c2"
    "gone (op_URI ` set fs) c1 c2" by auto
  moreover have "X - {op_URI f} - op_URI ` set fs = X - op_URI ` set (f # fs)" by auto
  ultimately show ?case
    using c1(1) gone_trans [OF c1(3) c2(3)] by auto
qed

text \<open>Everything that waits, directly or not, for a group.\<close>

definition dependents :: "Changeset \<Rightarrow> FormaeURI \<Rightarrow> FormaeURI set" where
  "dependents c uri = {k. (uri, k) \<in> (live_edges c)\<^sup>+}"

lemma live_edge_waiting:
  assumes "wf_except {uri} c" "(u, d) \<in> live_edges c" "d \<noteq> uri"
  shows "waiting (cs_heap c) d"
proof -
  have d: "d \<in> set (cs_keys c)" and "u \<in> set (up (cs_heap c) d)"
    using assms(1,2) by (auto simp: live_edges_def wf_except_def live_links_ok_def)
  moreover obtain g ru where "map_of (cs_heap c) d = Some g" "rug_Updates g = [ru]"
    "state_ok (cs_trackedUpdates c) (rug_UpstreamGroups g) ru"
    by (rule wf_except_live [OF assms(1) d]) (use assms(3) in auto)
  ultimately show ?thesis by (auto simp: waiting_def state_ok_def views_Some)
qed


lemma dependents_live: "dependents c uri \<subseteq> set (cs_keys c)"
  by (auto simp: dependents_def live_edges_def dest: tranclD2)

lemma wf_except_pop:
  assumes "wf_except {op_URI update} c" "clean_ksuid update"
  defines "c1 \<equiv> with_heap (heap_upd (op_URI update) (Pop update) (cs_heap c)) c"
  shows "wf_except {op_URI update} c1" "live_edges c1 = live_edges c" "upds (cs_heap c1) (op_URI update) = []"
    "\<And>k. k \<noteq> op_URI update \<Longrightarrow> upds (cs_heap c1) k = upds (cs_heap c) k"
proof -
  let ?uri = "op_URI update"
  have frame: "map fst (cs_heap c1) = map fst (cs_heap c)" "uris_ok (cs_heap c1) = uris_ok (cs_heap c)"
    "up (cs_heap c1) = up (cs_heap c)" "down (cs_heap c1) = down (cs_heap c)" "cs_keys c1 = cs_keys c"
    "cs_trackedUpdates c1 = cs_trackedUpdates c"
    by (simp_all add: c1_def heap_simps)
  show u: "upds (cs_heap c1) ?uri = []"
    using wf_except_upds [OF assms(1)] assms(2) upds_pop by (simp add: c1_def)
  show u': "upds (cs_heap c1) k = upds (cs_heap c) k" if "k \<noteq> ?uri" for k
    using that by (simp add: c1_def heap_simps)
  show e: "live_edges c1 = live_edges c" by (simp add: live_edges_def frame)
  have dom: "dom (map_of (cs_heap c1)) = dom (map_of (cs_heap c))" by (rule dom_map_of_fst [OF frame(1)])
  have "upds (cs_heap c1) k = (if k = ?uri then [] else upds (cs_heap c) k)" for k
    using u u' by simp
  then show "wf_except {?uri} c1"
    using assms(1) unfolding wf_except_def nodes_ok_def live_links_ok_def frame dom e by auto
qed

lemma wf_except_marked:
  assumes "wf_except X c" "marked S (cs_heap c) h"
  shows "wf_except (X \<union> S) (with_heap h c)" "live_edges (with_heap h c) = live_edges c"
proof -
  have frame: "map fst h = map fst (cs_heap c)" "uris_ok h = uris_ok (cs_heap c)"
    "up h = up (cs_heap c)" "down h = down (cs_heap c)"
    "\<And>k. upds h k = (if k \<in> S then map fail_update (upds (cs_heap c) k) else upds (cs_heap c) k)"
    using assms(2) by (simp_all add: marked_def)
  have dom: "dom (map_of h) = dom (map_of (cs_heap c))" by (rule dom_map_of_fst [OF frame(1)])
  show e: "live_edges (with_heap h c) = live_edges c" by (simp add: live_edges_def frame)
  have one: "one_update k us \<Longrightarrow> one_update k (map fail_update us)" for k us
    by (auto simp: one_update_def)
  show "wf_except (X \<union> S) (with_heap h c)"
    using assms(1) unfolding wf_except_def nodes_ok_def live_links_ok_def e with_heap_simps frame dom
    by (auto intro: one)
qed

lemma cascaded_dependents:
  assumes wf: "wf_except {uri} c" and u: "upds (cs_heap c) uri = []" "uri \<in> set (cs_keys c)"
    and cas: "cascaded (cs_heap c) (down (cs_heap c) uri) ks h"
  shows "set ks = dependents c uri"
proof
  have live: "k \<in> set (cs_keys c)" if "waiting (cs_heap c) k" for k
    using that wf by (auto simp: waiting_def wf_except_def nodes_ok_def)
  have sub: "(d, k) \<in> (live_edges c)\<^sup>*" if "(d, k) \<in> (waiting_edges (cs_heap c))\<^sup>*" "d \<in> set (cs_keys c)" for d k
    using that
  proof (induction rule: converse_rtrancl_induct)
    case (step y z)
    then have "z \<in> set (cs_keys c)" using live by (simp add: waiting_edges_def)
    moreover from this step have "(y, z) \<in> live_edges c"
      by (simp add: waiting_edges_def edges_def live_edges_def)
    ultimately show ?case using step.IH by auto
  qed simp
  show "set ks \<subseteq> dependents c uri"
  proof
    fix k assume "k \<in> set ks"
    then obtain d where d: "d \<in> set (down (cs_heap c) uri)" "waiting (cs_heap c) d"
      "(d, k) \<in> (waiting_edges (cs_heap c))\<^sup>*"
      using cas unfolding cascaded_def by blast
    then have "(uri, d) \<in> live_edges c" using live u(2) by (simp add: live_edges_def)
    moreover have "(d, k) \<in> (live_edges c)\<^sup>*" using sub d(3) live [OF d(2)] by blast
    ultimately show "k \<in> dependents c uri" by (auto simp: dependents_def)
  qed
  have acyc: "(uri, uri) \<notin> (live_edges c)\<^sup>+" using wf by (simp add: wf_except_def acyclic_def)
  show "dependents c uri \<subseteq> set ks"
  proof
    fix k assume "k \<in> dependents c uri"
    then have "(uri, k) \<in> (live_edges c)\<^sup>+" by (simp add: dependents_def)
    then show "k \<in> set ks"
    proof (induction rule: trancl_induct)
      case (base y)
      then have "y \<noteq> uri" using acyc by auto
      with live_edge_waiting [OF wf base] base cas show ?case
        unfolding cascaded_def live_edges_def by blast
    next
      case (step y z)
      then have "z \<noteq> uri" using acyc by (meson trancl_into_trancl)
      with live_edge_waiting [OF wf step(2)] step cas show ?case
        unfolding cascaded_def live_edges_def by blast
    qed
  qed
qed


lemma cascade_shape_wf: "wf_except X c \<Longrightarrow> cascade_shape (cs_keys c) (cs_heap c)"
  unfolding cascade_shape_def
proof (intro conjI allI)
  fix k
  assume wf: "wf_except X c"
  then show "upds (cs_heap c) k = [] \<or>
      (\<exists>ru. upds (cs_heap c) k = [ru] \<and> op_URI ru = k \<and> k \<in> set (cs_keys c))"
    by (cases "k \<in> set (cs_keys c)") (auto simp: wf_except_def nodes_ok_def one_update_def)
qed (auto simp: wf_except_def nodes_ok_def live_links_ok_def)

text \<open>The fuel is enough: the cascade visits each group of the heap at most once.\<close>

lemma fail_dependencies:
  assumes wf: "wf_except {op_URI update} c" and "op_URI update \<in> set (cs_keys c)"
    "upds (cs_heap c) (op_URI update) = []"
  shows "\<exists>ks h. failResourceUpdate c update =
      Some (with_heap h c, map (failed_of (cs_heap c)) ks @ [update]) \<and>
    marked (set ks) (cs_heap c) h \<and> distinct ks \<and> set ks = dependents c (op_URI update) \<and>
    (\<forall>k \<in> set ks. waiting (cs_heap c) k)"
proof -
  let ?uri = "op_URI update" and ?n = "Suc (length (cs_heap c))"
  have "card {k. waiting (cs_heap c) k} \<le> card (dom (map_of (cs_heap c)))"
    by (rule card_mono [OF finite_dom_map_of waiting_subset_dom])
  also have "\<dots> \<le> length (cs_heap c)"
    by (metis card_length dom_map_of_conv_image_fst length_map list.set_map)
  finally have "card {k. waiting (cs_heap c) k} < ?n" by simp
  moreover have "\<not> waiting (cs_heap c) ?uri" using assms(3) by (simp add: waiting_def)
  ultimately obtain ks h vis where
    r: "recursivelyFailDependencies ?n (cs_keys c) update (cs_heap c, [], []) =
      Some (h, [] @ map (failed_of (cs_heap c)) ks, vis)"
    and cas: "cascaded (cs_heap c) (down (cs_heap c) ?uri) ks h"
    using cascade_correct [of ?n "cs_keys c", unfolded cascade_spec_def, rule_format,
        of "cs_heap c" update "[]" "[]"] cascade_shape_wf [OF wf] assms(2) by auto
  have "set ks = dependents c ?uri" by (rule cascaded_dependents [OF wf assms(3,2) cas])
  moreover have "failResourceUpdate c update = Some (with_heap h c, map (failed_of (cs_heap c)) ks @ [update])"
    unfolding failResourceUpdate_def r by simp
  ultimately show ?thesis using cas unfolding cascaded_def by blast
qed

lemma UpdatePipeline_failure:
  assumes wf: "wf_except {op_URI update} c" and live: "op_URI update \<in> set (cs_keys c)"
    and clean: "clean_ksuid update"
    and "ru_State update = ResourceUpdateStateFailed \<or> ru_State update = ResourceUpdateStateRejected"
  shows "\<exists>c' ks. UpdatePipeline update c = Some (c', Inr (map (failed_of (cs_heap c)) ks @ [update])) \<and>
    wf_except {} c' \<and> gone (insert (op_URI update) (dependents c (op_URI update))) c c' \<and>
    distinct ks \<and> set ks = dependents c (op_URI update) \<and> (\<forall>k \<in> set ks. waiting (cs_heap c) k)"
proof -
  let ?uri = "op_URI update"
  define c1 where "c1 = with_heap (heap_upd ?uri (Pop update) (cs_heap c)) c"
  note pop = wf_except_pop [OF wf clean, folded c1_def]
  have k1: "cs_keys c1 = cs_keys c" "cs_trackedUpdates c1 = cs_trackedUpdates c" "cs_CommandID c1 = cs_CommandID c"
    by (simp_all add: c1_def)
  have dep: "dependents c1 ?uri = dependents c ?uri" by (simp add: dependents_def pop(2))
  obtain ks h where f: "failResourceUpdate c1 update = Some (with_heap h c1, map (failed_of (cs_heap c1)) ks @ [update])"
    and m: "marked (set ks) (cs_heap c1) h" and ks: "distinct ks" "set ks = dependents c ?uri"
    "\<forall>k \<in> set ks. waiting (cs_heap c1) k"
    using fail_dependencies [OF pop(1) _ pop(3)] live unfolding k1 dep by blast
  have nu: "?uri \<notin> set ks" using ks(3) pop(3) by (auto simp: waiting_def)
  have w: "waiting (cs_heap c) k" if "k \<in> set ks" for k
  proof -
    have "k \<noteq> ?uri" using that nu by blast
    then show ?thesis using ks(3) that pop(4) [of k] unfolding waiting_def by metis
  qed
  have fo: "map (failed_of (cs_heap c1)) ks = map (failed_of (cs_heap c)) ks"
    unfolding failed_of_def using pop(4) nu by (intro map_cong refl) metis
  let ?fs = "map (failed_of (cs_heap c)) ks @ [update]"
  have one: "op_URI (failed_of (cs_heap c) k) = k \<and> clean_ksuid (failed_of (cs_heap c) k)" if "k \<in> set ks" for k
    using w [OF that] wf_except_upds [OF wf, of k] by (auto simp: waiting_def one_update_def failed_of_def)
  have uris: "op_URI ` set ?fs = insert ?uri (set ks)" using one by force
  have cl: "\<forall>f \<in> set ?fs. clean_ksuid f" using one clean by auto
  have wf2: "wf_except (insert ?uri (set ks)) (with_heap h c1)"
    using wf_except_marked(1) [OF pop(1) m] by simp
  obtain c3 where c3: "ofold pop_failed ?fs (with_heap h c1) = Some c3" "wf_except {} c3"
    "gone (insert ?uri (set ks)) (with_heap h c1) c3"
    using pop_failed_loop [OF wf2 cl] unfolding uris by auto
  have gone3: "gone (insert ?uri (set ks)) c c3"
    using c3(3) pop(4) m wf_except_marked(2) [OF pop(1) m] pop(2) k1
    unfolding gone_def marked_def by (auto simp: c1_def heap_simps)
  then have dead: "?uri \<notin> set (cs_keys c3)" by (simp add: gone_def)
  have ex4: "map_of (cs_heap c3) ?uri \<noteq> None"
    using wf_except_dom [OF wf live] map_of_keys_cong [of "cs_heap c3" "cs_heap c"] gone3
    by (auto simp: gone_def)
  have "upds (cs_heap c3) ?uri = []"
    using c3(2) dead by (simp add: wf_except_def nodes_ok_def)
  from remove_if_done_gone [OF ex4 this wf_except_links(2,1) [OF c3(2)]] obtain c4 where
    c4: "remove_if_done ?uri c3 = Some c4" "group_gone ?uri c3 c4" by blast
  have "wf_except {} c4" using wf_except_group_gone [OF c3(2) c4(2)] by simp
  moreover have "gone (insert ?uri (set ks)) c c4"
    using gone_trans [OF gone3 group_gone_gone [OF c4(2)]] by (simp add: insert_absorb)
  moreover have "UpdatePipeline update c = Some (c4, Inr ?fs)"
  proof -
    have "UpdatePipeline update c = Option.bind (failResourceUpdate c1 update) (\<lambda>(c2, fs).
        Option.bind (ofold pop_failed fs c2) (\<lambda>c3.
        map_option (\<lambda>c4. (c4, Inr fs)) (remove_if_done ?uri c3)))"
      using live assms(4) by (elim disjE) (simp_all add: UpdatePipeline_def Let_def c1_def)
    then show ?thesis by (simp only: f fo bind.bind_lunit prod.case c3(1) c4(1) option.map)
  qed
  ultimately show ?thesis
    unfolding ks(2) [symmetric] using ks(1) w by (intro exI [of _ c4] exI [of _ ks] conjI ballI) simp_all
qed

end
