(* ===== verification/Changeset_Execution.thy ===== *)
theory Changeset_Execution
  imports Changeset
begin

text \<open>
  What executing a changeset guarantees: a fresh changeset satisfies the invariant, handing out
  updates and finishing them keep it, the updates handed out are exactly the ready ones up to the
  maxN, a changeset that is not complete always has something running or ready, and every
  execution ends. The contract of a scheduler of dependent work is the locale \<open>scheduler\<close>;
  the changeset is an instance of it.
\<close>

section \<open>A fresh changeset\<close>

lemma upds_create_groups_key:
  assumes "k \<in> fst ` set (create_groups ops)"
  obtains op where "op \<in> set ops" "op_URI op = k" "upds (create_groups ops) k = [op]"
proof -
  have "k \<in> op_URI ` set ops" using assms set_keys_create_groups by (metis list.set_map)
  then have "find (\<lambda>op. op_URI op = k) (rev ops) \<noteq> None" by (auto simp: find_rev_None)
  then obtain op where op: "find (\<lambda>op. op_URI op = k) (rev ops) = Some op" by auto
  moreover have "upds (create_groups ops) k = [op]"
    using op by (simp add: upds_def map_of_create_groups new_group_def)
  ultimately show ?thesis using that find_rev_SomeD [OF op] by blast
qed

lemma upds_outside: "k \<notin> fst ` set h \<Longrightarrow> upds h k = []"
  by (simp add: upds_def map_of_eq_None_iff [THEN iffD2])

definition fresh_updates :: "ResourceUpdate list \<Rightarrow> bool" where
  "fresh_updates us \<longleftrightarrow>
     list_all (\<lambda>u. ru_State u = ResourceUpdateStateNotStarted \<and> clean_ksuid u) us"

lemma fresh_updates_all_ops:
  assumes "fresh_updates us" "op \<in> set (all_ops us)"
  shows "ru_State op = ResourceUpdateStateNotStarted \<and> clean_ksuid op"
  using assms by (auto simp: fresh_updates_def list_all_iff all_ops_def clean_ksuid_def split: if_splits)

lemma wf_built:
  assumes "built ops E h" "acyclic E"
    and "\<And>op. op \<in> set ops \<Longrightarrow> ru_State op = ResourceUpdateStateNotStarted \<and> clean_ksuid op"
  shows "wf_except {} \<lparr>cs_CommandID = cid,
    cs_Pipeline = \<lparr>pl_keys = map fst (create_groups ops), pl_heap = h\<rparr>, cs_trackedUpdates = []\<rparr>"
proof -
  let ?g = "create_groups ops"
  have b: "links_ok h" "map fst h = map fst ?g" "upds h = upds ?g" "uris_ok h" "edges h = E"
    using assms(1) uris_ok_create_groups by (auto simp: built_def same_nodes_def)
  have dom: "dom (map_of h) = fst ` set ?g"
    by (metis b(2) dom_map_of_conv_image_fst list.set_map)
  have upd: "\<exists>op. op \<in> set ops \<and> op_URI op = k \<and> upds ?g k = [op]" if "k \<in> fst ` set ?g" for k
    using upds_create_groups_key [OF that] by metis
  have "nodes_ok {} (map fst ?g) h"
    unfolding nodes_ok_def dom b(3) one_update_def
    using b(4) distinct_create_groups upds_outside upd assms(3) by fastforce
  moreover have in_dom: "d \<in> fst ` set ?g" "u \<in> fst ` set ?g" if "d \<in> set (down h u)" for u d
  proof -
    have "u \<in> set (up h d)" using b(1) that by (simp add: links_ok_def)
    from views_dom(2) [OF this] views_dom(1) [OF that] show "d \<in> fst ` set ?g" "u \<in> fst ` set ?g"
      unfolding dom [symmetric] by auto
  qed
  then have "live_links_ok (map fst ?g) h"
    unfolding live_links_ok_def dom using b(1) by (auto simp: links_ok_def)
  moreover have "acyclic {(u, d). u \<in> set (map fst ?g) \<and> d \<in> set (map fst ?g) \<and> d \<in> set (down h u)}"
    using assms(2) b(5) by (auto simp: edges_def intro: acyclic_subset)
  moreover have "\<forall>k \<in> set (map fst ?g). \<forall>ru \<in> set (upds h k). state_ok [] (up h k) ru"
    unfolding b(3) state_ok_def using upd assms(3) by fastforce
  ultimately show ?thesis
    unfolding wf_except_def live_edges_def by simp
qed

lemma NewChangeset_wf:
  assumes "range_orders ord" "fresh_updates us"
    "NewChangesetFromResourceUpdates ord us cid = Some (Inr c)"
  shows "wf_changeset c \<and> cs_CommandID c = cid \<and> set (cs_keys c) = op_URI ` set (all_ops us) \<and>
    live_edges c = dependency_edges (all_ops us)"
  using assms(1)
proof (cases rule: pipeline_Init_cases [of ord us])
  case cyclic
  then show ?thesis using assms(3) by (simp add: NewChangesetFromResourceUpdates_def)
next
  case (ok h)
  let ?g = "create_groups (all_ops us)"
  have c: "c = \<lparr>cs_CommandID = cid, cs_Pipeline = \<lparr>pl_keys = map fst ?g, pl_heap = h\<rparr>, cs_trackedUpdates = []\<rparr>"
    using assms(3) ok by (simp add: NewChangesetFromResourceUpdates_def)
  have wf: "wf_except {} c"
    unfolding c using wf_built [OF ok(3,1)] fresh_updates_all_ops [OF assms(2)] by blast
  have e: "edges h = dependency_edges (all_ops us)" and keys: "map fst ?g = map fst h" and l: "links_ok h"
    using ok(3) by (simp_all add: built_def same_nodes_def)
  have "u \<in> set (map fst h) \<and> d \<in> set (map fst h)" if "d \<in> set (down h u)" for u d
    using that views_dom(1) [OF that] l views_dom(2) [of u h d]
    by (auto simp: links_ok_def dest: map_of_eq_Some_in_keys)
  then have "live_edges c = edges h"
    unfolding live_edges_def c edges_def ResourceUpdatePipeline.select_convs Changeset.select_convs keys
    by blast
  with e have "live_edges c = dependency_edges (all_ops us)" by simp
  with wf set_keys_create_groups [of "all_ops us"] show ?thesis
    by (simp add: wf_changeset_def c)
qed


section \<open>Handing out updates\<close>

text \<open>A group is ready in a namespace when its update may start there.\<close>

definition ready :: "Changeset \<Rightarrow> string \<Rightarrow> FormaeURI \<Rightarrow> bool" where
  "ready c ns k \<longleftrightarrow> up (cs_heap c) k = [] \<and>
     (case upds (cs_heap c) k of
        [ru] \<Rightarrow> ru_State ru = ResourceUpdateStateNotStarted \<and> Namespace (ru_Resource ru) = ns
      | _ \<Rightarrow> False)"

definition start_update :: "ResourceUpdate \<Rightarrow> ResourceUpdate" where
  "start_update ru = ru\<lparr>ru_State := ResourceUpdateStateInProgress\<rparr>"

definition started_of :: "group_heap \<Rightarrow> FormaeURI \<Rightarrow> ResourceUpdate" where
  "started_of h k = start_update (hd (upds h k))"

text \<open>The groups \<open>S\<close> have started; nothing else has changed.\<close>

definition started :: "FormaeURI set \<Rightarrow> Changeset \<Rightarrow> Changeset \<Rightarrow> bool" where
  "started S c c' \<longleftrightarrow> cs_CommandID c' = cs_CommandID c \<and> cs_keys c' = cs_keys c \<and>
     map fst (cs_heap c') = map fst (cs_heap c) \<and> uris_ok (cs_heap c') = uris_ok (cs_heap c) \<and>
     up (cs_heap c') = up (cs_heap c) \<and> down (cs_heap c') = down (cs_heap c) \<and>
     upds (cs_heap c') = (\<lambda>k. if k \<in> S then map start_update (upds (cs_heap c) k) else upds (cs_heap c) k) \<and>
     set (cs_trackedUpdates c') = set (cs_trackedUpdates c) \<union>
       getResourceUpdateIdentifier ` (\<Union>k \<in> S. set (upds (cs_heap c) k))"

lemma start_update_simps [simp]:
  "ru_State (start_update ru) = ResourceUpdateStateInProgress" "ru_URI (start_update ru) = ru_URI ru"
  "ru_Operation (start_update ru) = ru_Operation ru" "clean_ksuid (start_update ru) = clean_ksuid ru"
  "ru_Resource (start_update ru) = ru_Resource ru"
  "getResourceUpdateIdentifier (start_update ru) = getResourceUpdateIdentifier ru"
  by (simp_all add: start_update_def ru_URI_def clean_ksuid_def getResourceUpdateIdentifier_def)

lemma started_empty: "started {} c c"
  by (simp add: started_def)

lemma start_update_idem [simp]: "start_update (start_update ru) = start_update ru"
  by (simp add: start_update_def)

lemma started_trans:
  assumes "started S c c1" "started T c1 c2"
  shows "started (S \<union> T) c c2"
proof -
  have u1: "upds (cs_heap c1) = (\<lambda>k. if k \<in> S then map start_update (upds (cs_heap c) k) else upds (cs_heap c) k)"
    using assms(1) by (simp add: started_def)
  have "getResourceUpdateIdentifier ` set (upds (cs_heap c1) k) = getResourceUpdateIdentifier ` set (upds (cs_heap c) k)" for k
    by (simp add: u1 image_image)
  then have "set (cs_trackedUpdates c2) = set (cs_trackedUpdates c) \<union>
      getResourceUpdateIdentifier ` (\<Union>k \<in> S \<union> T. set (upds (cs_heap c) k))"
    using assms unfolding started_def by (simp add: image_UN image_Un Un_ac)
  moreover have "upds (cs_heap c2) =
      (\<lambda>k. if k \<in> S \<union> T then map start_update (upds (cs_heap c) k) else upds (cs_heap c) k)"
    using assms(2) by (simp add: started_def u1 fun_eq_iff)
  ultimately show ?thesis using assms unfolding started_def by simp
qed

lemma readyE:
  assumes "ready c ns k"
  obtains ru g where "map_of (cs_heap c) k = Some g" "rug_Updates g = [ru]" "upds (cs_heap c) k = [ru]"
    "rug_UpstreamGroups g = []" "ru_State ru = ResourceUpdateStateNotStarted" "Namespace (ru_Resource ru) = ns"
proof -
  obtain ru where ru: "upds (cs_heap c) k = [ru]" "ru_State ru = ResourceUpdateStateNotStarted"
    "Namespace (ru_Resource ru) = ns" "up (cs_heap c) k = []"
    using assms by (auto simp: ready_def split: list.splits)
  moreover obtain g where "map_of (cs_heap c) k = Some g"
    using views_dom(3) [of ru "cs_heap c" k] ru(1) by auto
  ultimately show ?thesis using that by (simp add: views_Some)
qed

lemma ready_live: "wf_except {} c \<Longrightarrow> ready c ns k \<Longrightarrow> k \<in> set (cs_keys c)"
  by (rule ccontr) (simp add: ready_def wf_except_def nodes_ok_def)

lemma wf_started:
  assumes wf: "wf_except {} c" and r: "ready c ns k" and s: "started {k} c c'"
  shows "wf_except {} c'"
proof -
  obtain ru where ru: "upds (cs_heap c) k = [ru]" "up (cs_heap c) k = []"
    using r by (auto simp: ready_def split: list.splits)
  have k: "k \<in> set (cs_keys c)" by (rule ready_live [OF wf r])
  have frame: "cs_keys c' = cs_keys c" "map fst (cs_heap c') = map fst (cs_heap c)"
    "uris_ok (cs_heap c') = uris_ok (cs_heap c)" "up (cs_heap c') = up (cs_heap c)"
    "down (cs_heap c') = down (cs_heap c)"
    "\<And>x. upds (cs_heap c') x = (if x = k then [start_update ru] else upds (cs_heap c) x)"
    "set (cs_trackedUpdates c') = insert (getResourceUpdateIdentifier ru) (set (cs_trackedUpdates c))"
    using s ru(1) by (auto simp: started_def)
  have dom: "dom (map_of (cs_heap c')) = dom (map_of (cs_heap c))" by (rule dom_map_of_fst [OF frame(2)])
  have edge: "live_edges c' = live_edges c" by (simp add: live_edges_def frame)
  have one: "one_update k [ru]" using wf k ru(1) by (auto simp: wf_except_def nodes_ok_def)
  have "state_ok (cs_trackedUpdates c') (up (cs_heap c') x) u"
    if x: "x \<in> set (cs_keys c')" "u \<in> set (upds (cs_heap c') x)" for x u
  proof (cases "x = k")
    case True
    then show ?thesis using x ru(2) frame by (simp add: state_ok_def)
  next
    case False
    then have u: "u \<in> set (upds (cs_heap c) x)" "x \<in> set (cs_keys c)" using x frame by simp_all
    then have "op_URI u = x" using wf by (auto simp: wf_except_def nodes_ok_def one_update_def)
    then have "getResourceUpdateIdentifier u \<noteq> getResourceUpdateIdentifier ru"
      using one False getResourceUpdateIdentifier_inject [of u ru] by (auto simp: one_update_def)
    moreover have "state_ok (cs_trackedUpdates c) (up (cs_heap c) x) u"
      using wf u by (simp add: wf_except_def)
    ultimately show ?thesis by (simp add: state_ok_def frame)
  qed
  moreover have "nodes_ok {} (cs_keys c') (cs_heap c')"
    using wf one k unfolding wf_except_def nodes_ok_def frame dom by (auto simp: one_update_def)
  moreover have "live_links_ok (cs_keys c') (cs_heap c')"
    using wf unfolding wf_except_def live_links_ok_def frame dom by simp
  ultimately show ?thesis using wf unfolding wf_except_def edge by simp
qed


lemma NextUpdate_single:
  assumes "rug_Updates g = [ru]"
  shows "NextUpdate g = (if ru_State ru = ResourceUpdateStateNotStarted
    then Some (0, ru, getResourceUpdateIdentifier ru) else None)"
  using assms by (simp add: NextUpdate_def)

lemma exec_step_skip:
  assumes wf: "wf_except {} c" and k: "k \<in> set (cs_keys c)" and n: "\<not> (ready c ns k \<and> cnt < maxN)"
  shows "exec_step ns maxN k (ex, cnt, cs_trackedUpdates c, cs_heap c) =
    Some (ex, cnt, cs_trackedUpdates c, cs_heap c)"
proof -
  obtain g ru where g: "map_of (cs_heap c) k = Some g" "rug_Updates g = [ru]"
    by (rule wf_except_live [OF wf k]) auto
  then show ?thesis
    using n by (auto simp: exec_step_def HasRunningUpdate_def NextUpdate_single ready_def views_Some)
qed

definition put_heap :: "group_heap \<Rightarrow> string list \<Rightarrow> Changeset \<Rightarrow> Changeset" where
  "put_heap h tracked c = (with_heap h c)\<lparr>cs_trackedUpdates := tracked\<rparr>"

lemma put_heap_simps [simp]:
  "cs_keys (put_heap h t c) = cs_keys c" "cs_heap (put_heap h t c) = h"
  "cs_trackedUpdates (put_heap h t c) = t" "cs_CommandID (put_heap h t c) = cs_CommandID c"
  "put_heap h' t' (put_heap h t c) = put_heap h' t' c"
  "put_heap (cs_heap c) (cs_trackedUpdates c) c = c"
  by (simp_all add: put_heap_def with_heap_def)

lemma exec_step_start:
  assumes wf: "wf_except {} c" and r: "ready c ns k" and t: "cnt < maxN"
  obtains h tr where "exec_step ns maxN k (ex, cnt, cs_trackedUpdates c, cs_heap c) =
      Some (ex @ [started_of (cs_heap c) k], cnt + 1, tr, h)" "started {k} c (put_heap h tr c)"
proof -
  obtain g ru where g: "map_of (cs_heap c) k = Some g" "rug_Updates g = [ru]" "upds (cs_heap c) k = [ru]"
    "rug_UpstreamGroups g = []" "ru_State ru = ResourceUpdateStateNotStarted" "Namespace (ru_Resource ru) = ns"
    using readyE [OF r] by metis
  have "state_ok (cs_trackedUpdates c) (up (cs_heap c) k) ru"
    using wf ready_live [OF wf r] g(3) by (simp add: wf_except_def)
  then have new: "getResourceUpdateIdentifier ru \<notin> set (cs_trackedUpdates c)"
    using g(5) by (simp add: state_ok_def)
  define h where "h = heap_upd k (\<lambda>g. g\<lparr>rug_Updates := (rug_Updates g)[0 := start_update ru]\<rparr>) (cs_heap c)"
  let ?tr = "getResourceUpdateIdentifier ru # cs_trackedUpdates c"
  have "upds h = (\<lambda>x. if x \<in> {k} then map start_update (upds (cs_heap c) x) else upds (cs_heap c) x)"
    using g(1,2) by (auto simp: h_def upds_def heap_simps fun_eq_iff)
  moreover have "up h = up (cs_heap c)" "down h = down (cs_heap c)"
    by (auto simp: h_def up_def down_def heap_simps fun_eq_iff split: option.splits)
  ultimately have "started {k} c (put_heap h ?tr c)"
    unfolding started_def using g(3) by (simp add: h_def heap_simps)
  moreover have "exec_step ns maxN k (ex, cnt, cs_trackedUpdates c, cs_heap c) =
      Some (ex @ [started_of (cs_heap c) k], cnt + 1, ?tr, h)"
    using g t new
    by (simp add: exec_step_def HasRunningUpdate_def NextUpdate_single Done_def Let_def h_def
        started_of_def start_update_def)
  ultimately show ?thesis using that by blast
qed

lemma ready_started:
  assumes "started {k} c c'" "x \<noteq> k"
  shows "ready c' ns x = ready c ns x" "started_of (cs_heap c') x = started_of (cs_heap c) x"
  using assms by (simp_all add: started_def ready_def started_of_def)

text \<open>The loop starts the ready groups in the order visited, up to the limit.\<close>

lemma exec_loop:
  fixes maxN cnt :: int and ns :: string and c :: Changeset and ks :: "FormaeURI list"
  assumes "wf_except {} c" "distinct ks" "set ks \<subseteq> set (cs_keys c)"
  defines "sel \<equiv> take (nat (maxN - cnt)) (filter (ready c ns) ks)"
  shows "\<exists>h tr. ofold (exec_step ns maxN) ks (ex, cnt, cs_trackedUpdates c, cs_heap c) =
      Some (ex @ map (started_of (cs_heap c)) sel, cnt + int (length sel), tr, h) \<and>
    started (set sel) c (put_heap h tr c) \<and> wf_except {} (put_heap h tr c)"
  using assms(1-3) unfolding sel_def
proof (induction ks arbitrary: c ex cnt)
  case Nil
  then show ?case
    by (intro exI [of _ "cs_heap c"] exI [of _ "cs_trackedUpdates c"]) (simp add: started_empty)
next
  case (Cons k ks)
  show ?case
  proof (cases "ready c ns k \<and> cnt < maxN")
    case False
    from exec_step_skip [OF Cons.prems(1) _ this] Cons.prems(3)
    have "exec_step ns maxN k (ex, cnt, cs_trackedUpdates c, cs_heap c) =
      Some (ex, cnt, cs_trackedUpdates c, cs_heap c)" by simp
    moreover have "take (nat (maxN - cnt)) (filter (ready c ns) (k # ks)) =
        take (nat (maxN - cnt)) (filter (ready c ns) ks)"
      using False by auto
    ultimately show ?thesis
      using Cons.IH [OF Cons.prems(1), of ex cnt] Cons.prems(2,3) by simp
  next
    case True
    then obtain h1 tr1 where
      c1: "exec_step ns maxN k (ex, cnt, cs_trackedUpdates c, cs_heap c) =
        Some (ex @ [started_of (cs_heap c) k], cnt + 1, tr1, h1)"
      and s: "started {k} c (put_heap h1 tr1 c)"
      using exec_step_start [OF Cons.prems(1)] by metis
    let ?c1 = "put_heap h1 tr1 c"
    have wf1: "wf_except {} ?c1" using wf_started [OF Cons.prems(1) _ s] True by blast
    let ?sel = "take (nat (maxN - (cnt + 1))) (filter (ready ?c1 ns) ks)"
    have kn: "x \<noteq> k" if "x \<in> set ks" for x using that Cons.prems(2) by auto
    have f: "filter (ready ?c1 ns) ks = filter (ready c ns) ks"
      using ready_started(1) [OF s kn] by (intro filter_cong) simp_all
    have sel: "take (nat (maxN - cnt)) (filter (ready c ns) (k # ks)) = k # ?sel"
    proof -
      have "nat (maxN - cnt) = Suc (nat (maxN - (cnt + 1)))" using True by arith
      then show ?thesis using True f by simp
    qed
    have m: "map (started_of h1) ?sel = map (started_of (cs_heap c)) ?sel"
      using ready_started(2) [OF s kn] by (intro map_cong) (auto dest: in_set_takeD)
    obtain h2 tr2 where c2: "ofold (exec_step ns maxN) ks
        (ex @ [started_of (cs_heap c) k], cnt + 1, tr1, h1) =
        Some ((ex @ [started_of (cs_heap c) k]) @ map (started_of (cs_heap c)) ?sel,
          (cnt + 1) + int (length ?sel), tr2, h2)"
      and s2: "started (set ?sel) ?c1 (put_heap h2 tr2 c)" "wf_except {} (put_heap h2 tr2 c)"
      using Cons.IH [OF wf1, of "ex @ [started_of (cs_heap c) k]" "cnt + 1"] Cons.prems(2,3) m
      by auto
    have "started (set (k # ?sel)) c (put_heap h2 tr2 c)" using started_trans [OF s s2(1)] by simp
    then show ?thesis
      using c1 c2 s2(2) unfolding sel by (intro exI [of _ h2] exI [of _ tr2]) simp
  qed
qed


lemma range_ordersD:
  assumes "range_orders ord"
  shows "mset (ord s ks) = mset ks" "set (ord s ks) = set ks" "distinct (ord s ks) = distinct ks"
  using assms range_orderD [of "ord s"] by (simp_all add: range_orders_def)

lemma GetExecutableUpdates_wf:
  fixes maxN :: int and ns :: string and c :: Changeset
  assumes ord: "range_orders ord" and wf: "wf_except {} c"
  defines "sel \<equiv> take (nat maxN) (filter (ready c ns) (ord SiteExecutable (cs_keys c)))"
  shows "\<exists>c'. GetExecutableUpdates ord ns maxN c = Some (sort_key ru_URI (map (started_of (cs_heap c)) sel), c') \<and>
    started (set sel) c c' \<and> wf_except {} c'"
proof -
  have keys: "distinct (ord SiteExecutable (cs_keys c))" "set (ord SiteExecutable (cs_keys c)) = set (cs_keys c)"
    using wf by (simp_all add: range_ordersD [OF ord] wf_except_def nodes_ok_def)
  then obtain h tr where "ofold (exec_step ns maxN) (ord SiteExecutable (cs_keys c))
      ([], 0, cs_trackedUpdates c, cs_heap c) =
      Some ([] @ map (started_of (cs_heap c)) sel, 0 + int (length sel), tr, h)"
    and s: "started (set sel) c (put_heap h tr c)" "wf_except {} (put_heap h tr c)"
    using exec_loop [OF wf keys(1), where ex = "[]" and ns = ns and maxN = maxN and cnt = 0] by (auto simp: sel_def)
  then have "GetExecutableUpdates ord ns maxN c =
      Some (sort_key ru_URI (map (started_of (cs_heap c)) sel), put_heap h tr c)"
    by (simp add: GetExecutableUpdates_def put_heap_def)
  with s show ?thesis by blast
qed

section \<open>Counting what is available\<close>

definition ready_count :: "Changeset \<Rightarrow> FormaeURI list \<Rightarrow> string \<Rightarrow> int" where
  "ready_count c ks ns = int (length (filter (ready c ns) ks))"

lemma avail_step_wf:
  assumes wf: "wf_except {} c" and k: "k \<in> set (cs_keys c)"
  shows "\<exists>m'. avail_step (cs_trackedUpdates c) (cs_heap c) k m = Some m' \<and>
    (\<forall>ns. map_of m' ns = (if ready c ns k then Some (case map_of m ns of None \<Rightarrow> 1 | Some n \<Rightarrow> n + 1)
       else map_of m ns)) \<and> (distinct (map fst m) \<longrightarrow> distinct (map fst m'))"
proof -
  obtain g ru where g: "map_of (cs_heap c) k = Some g" "rug_Updates g = [ru]"
    "state_ok (cs_trackedUpdates c) (rug_UpstreamGroups g) ru"
    by (rule wf_except_live [OF wf k]) auto
  have r: "ready c ns k \<longleftrightarrow> rug_UpstreamGroups g = [] \<and> ru_State ru = ResourceUpdateStateNotStarted \<and>
      Namespace (ru_Resource ru) = ns" for ns
    using g by (simp add: ready_def views_Some)
  show ?thesis
    unfolding r using g
    by (auto simp: avail_step_def HasRunningUpdate_def NextUpdate_single Done_def Let_def state_ok_def
        update_conv' distinct_update split: option.splits)
qed

lemma avail_loop:
  assumes wf: "wf_except {} c" and "set ks \<subseteq> set (cs_keys c)" "distinct (map fst m)"
  shows "\<exists>m'. ofold (avail_step (cs_trackedUpdates c) (cs_heap c)) ks m = Some m' \<and>
    (\<forall>ns. map_of m' ns = (if ready_count c ks ns = 0 then map_of m ns
       else Some ((case map_of m ns of None \<Rightarrow> 0 | Some n \<Rightarrow> n) + ready_count c ks ns))) \<and>
    distinct (map fst m')"
  using assms(2,3)
proof (induction ks arbitrary: m)
  case Nil
  then show ?case by (simp add: ready_count_def)
next
  case (Cons k ks)
  then have "k \<in> set (cs_keys c)" by simp
  from avail_step_wf [OF wf this, of m] Cons.prems(2) obtain m1 where
    m1: "avail_step (cs_trackedUpdates c) (cs_heap c) k m = Some m1"
    "\<And>ns. map_of m1 ns = (if ready c ns k then Some (case map_of m ns of None \<Rightarrow> 1 | Some n \<Rightarrow> n + 1)
       else map_of m ns)" "distinct (map fst m1)" by blast
  from Cons.IH [OF _ m1(3)] Cons.prems(1) obtain m2 where
    m2: "ofold (avail_step (cs_trackedUpdates c) (cs_heap c)) ks m1 = Some m2"
    "\<And>ns. map_of m2 ns = (if ready_count c ks ns = 0 then map_of m1 ns
       else Some ((case map_of m1 ns of None \<Rightarrow> 0 | Some n \<Rightarrow> n) + ready_count c ks ns))"
    "distinct (map fst m2)" by auto
  have "map_of m2 ns = (if ready_count c (k # ks) ns = 0 then map_of m ns
       else Some ((case map_of m ns of None \<Rightarrow> 0 | Some n \<Rightarrow> n) + ready_count c (k # ks) ns))" for ns
    using m2(2) [of ns] m1(2) [of ns] by (auto simp: ready_count_def split: option.splits)
  with m1(1) m2(1,3) show ?case by auto
qed

lemma ready_count_perm: "mset ks = mset ks' \<Longrightarrow> ready_count c ks ns = ready_count c ks' ns"
  unfolding ready_count_def by (metis mset_filter size_mset)

lemma AvailableExecutableUpdates_wf:
  assumes "range_orders ord" "wf_except {} c"
  shows "\<exists>m. AvailableExecutableUpdates ord c = Some m \<and> distinct (map fst m) \<and>
    (\<forall>ns. map_of m ns = (if ready_count c (cs_keys c) ns = 0 then None
       else Some (ready_count c (cs_keys c) ns)))"
proof -
  let ?ks = "ord SiteAvailable (cs_keys c)"
  have ks: "set ?ks = set (cs_keys c)" "mset ?ks = mset (cs_keys c)"
    by (simp_all add: range_ordersD [OF assms(1)])
  from avail_loop [OF assms(2), of ?ks "[]"] ks(1) obtain m where
    m: "ofold (avail_step (cs_trackedUpdates c) (cs_heap c)) ?ks [] = Some m" "distinct (map fst m)"
    "\<And>ns. map_of m ns = (if ready_count c ?ks ns = 0 then None else Some (0 + ready_count c ?ks ns))"
    by auto
  then show ?thesis
    by (simp add: AvailableExecutableUpdates_def ready_count_perm [OF ks(2), of c])
qed


section \<open>No deadlock, completion, termination\<close>

definition running :: "Changeset \<Rightarrow> FormaeURI \<Rightarrow> bool" where
  "running c k \<longleftrightarrow> list_ex (\<lambda>u. ru_State u = ResourceUpdateStateInProgress) (upds (cs_heap c) k)"

lemma wf_has_source:
  assumes "wf_except {} c" "cs_keys c \<noteq> []"
  obtains k where "k \<in> set (cs_keys c)" "up (cs_heap c) k = []"
proof -
  have fin: "finite (live_edges c)"
    by (rule finite_subset [of _ "set (cs_keys c) \<times> set (cs_keys c)"]) (auto simp: live_edges_def)
  have "acyclic (live_edges c)" using assms(1) by (simp add: wf_except_def)
  then have "wf (live_edges c)" by (rule finite_acyclic_wf [OF fin])
  moreover obtain k0 where "k0 \<in> set (cs_keys c)" using assms(2) by (cases "cs_keys c") auto
  ultimately obtain k where k: "k \<in> set (cs_keys c)" and min: "\<And>u. (u, k) \<in> live_edges c \<Longrightarrow> u \<notin> set (cs_keys c)"
    by (rule wfE_min) blast
  have "u \<notin> set (up (cs_heap c) k)" for u
  proof
    assume u: "u \<in> set (up (cs_heap c) k)"
    then have "u \<in> set (cs_keys c)" using assms(1) k by (auto simp: wf_except_def live_links_ok_def)
    moreover from this u k assms(1) have "(u, k) \<in> live_edges c"
      by (simp add: live_edges_def wf_except_def live_links_ok_def)
    ultimately show False using min by blast
  qed
  then have "up (cs_heap c) k = []" by (cases "up (cs_heap c) k") auto
  with k that show ?thesis by blast
qed

lemma wf_running_or_ready:
  assumes "wf_except {} c" "k \<in> set (cs_keys c)" "up (cs_heap c) k = []"
  shows "running c k \<or> (\<exists>ns. ready c ns k)"
proof -
  obtain g ru where g: "map_of (cs_heap c) k = Some g" "rug_Updates g = [ru]"
    "state_ok (cs_trackedUpdates c) (rug_UpstreamGroups g) ru"
    by (rule wf_except_live [OF assms(1,2)]) auto
  then show ?thesis using assms(3) by (auto simp: running_def ready_def state_ok_def views_Some)
qed

lemma IsComplete_wf:
  assumes "wf_except {} c"
  shows "IsComplete c \<longleftrightarrow> cs_keys c = []"
proof (cases "cs_keys c")
  case (Cons k ks)
  then have "k \<in> set (cs_keys c)" by simp
  then obtain g ru where "map_of (cs_heap c) k = Some g" "rug_Updates g = [ru]"
    "state_ok (cs_trackedUpdates c) (rug_UpstreamGroups g) ru"
    by (rule wf_except_live [OF assms]) auto
  then show ?thesis using Cons by (auto simp: IsComplete_def state_ok_def views_Some)
qed (simp add: IsComplete_def)


section \<open>Finishing an update\<close>

text \<open>\<^verbatim>\<open>finishedUpdate.State = state\<close> through the pointer to the update of a group.\<close>

definition set_state :: "FormaeURI \<Rightarrow> ResourceUpdateState \<Rightarrow> Changeset \<Rightarrow> Changeset" where
  "set_state k st c = with_heap (heap_upd k (\<lambda>g. g\<lparr>rug_Updates :=
     (rug_Updates g)[0 := (rug_Updates g ! 0)\<lparr>ru_State := st\<rparr>]\<rparr>) (cs_heap c)) c"

definition final_update_state :: "ResourceUpdateState \<Rightarrow> bool" where
  "final_update_state st \<longleftrightarrow> st = ResourceUpdateStateSuccess \<or> st = ResourceUpdateStateFailed \<or>
     st = ResourceUpdateStateRejected"

lemma set_state_wf:
  assumes wf: "wf_except {} c" and u: "upds (cs_heap c) k = [ru]"
  shows "wf_except {k} (set_state k st c)" "live_edges (set_state k st c) = live_edges c"
    "upds (cs_heap (set_state k st c)) = (upds (cs_heap c))(k := [ru\<lparr>ru_State := st\<rparr>])"
    "cs_keys (set_state k st c) = cs_keys c" "cs_trackedUpdates (set_state k st c) = cs_trackedUpdates c"
    "cs_CommandID (set_state k st c) = cs_CommandID c"
    "map fst (cs_heap (set_state k st c)) = map fst (cs_heap c)"
proof -
  let ?c = "set_state k st c"
  show frame1: "cs_keys ?c = cs_keys c" "cs_trackedUpdates ?c = cs_trackedUpdates c"
    "cs_CommandID ?c = cs_CommandID c" "map fst (cs_heap ?c) = map fst (cs_heap c)"
    by (simp_all add: set_state_def heap_simps)
  have frame2: "uris_ok (cs_heap ?c) = uris_ok (cs_heap c)" "up (cs_heap ?c) = up (cs_heap c)"
    "down (cs_heap ?c) = down (cs_heap c)"
    by (auto simp: set_state_def heap_simps up_def down_def fun_eq_iff split: option.splits)
  show up: "upds (cs_heap ?c) = (upds (cs_heap c))(k := [ru\<lparr>ru_State := st\<rparr>])"
    using u by (auto simp: set_state_def heap_simps upds_def fun_eq_iff split: option.splits)
  show e: "live_edges ?c = live_edges c" by (simp add: live_edges_def frame1 frame2)
  have dom: "dom (map_of (cs_heap ?c)) = dom (map_of (cs_heap c))" by (rule dom_map_of_fst [OF frame1(4)])
  have k: "k \<in> set (cs_keys c)" using wf u by (cases "k \<in> set (cs_keys c)") (auto simp: wf_except_def nodes_ok_def)
  have "one_update k [ru]" using wf k u by (auto simp: wf_except_def nodes_ok_def)
  then have "one_update k [ru\<lparr>ru_State := st\<rparr>]" by (simp add: one_update_def ru_URI_def clean_ksuid_def)
  then show "wf_except {k} ?c"
    using wf k unfolding wf_except_def nodes_ok_def live_links_ok_def e frame1 frame2 up dom by auto
qed

lemma finish_wf:
  assumes wf: "wf_except {} c" and u: "upds (cs_heap c) k = [ru]" and fin: "final_update_state st"
  defines "S \<equiv> (if st = ResourceUpdateStateSuccess then {k} else insert k (dependents c k))"
  shows "\<exists>c' fs. UpdatePipeline (ru\<lparr>ru_State := st\<rparr>) (set_state k st c) = Some (c', Inr fs) \<and>
    wf_except {} c' \<and> gone S c c' \<and>
    (if st = ResourceUpdateStateSuccess then fs = []
     else op_URI ` set fs = S \<and> distinct (map op_URI fs) \<and>
       (\<forall>f \<in> set fs. ru_State f = ResourceUpdateStateFailed \<or> ru_State f = ResourceUpdateStateRejected))"
proof -
  let ?c = "set_state k st c" and ?u = "ru\<lparr>ru_State := st\<rparr>"
  note ss = set_state_wf [OF wf u, of st]
  have live: "k \<in> set (cs_keys c)"
    using wf u by (cases "k \<in> set (cs_keys c)") (auto simp: wf_except_def nodes_ok_def)
  have one: "op_URI ?u = k" "clean_ksuid ?u"
    using wf live u by (auto simp: wf_except_def nodes_ok_def one_update_def ru_URI_def clean_ksuid_def)
  have dep: "dependents ?c k = dependents c k" by (simp add: dependents_def ss(2))
  have gone_c: "gone T c c'" if "gone T ?c c'" "k \<in> T" for T c'
    using that unfolding gone_def ss(2-7) by auto
  show ?thesis
  proof (cases "st = ResourceUpdateStateSuccess")
    case True
    obtain c' where c': "UpdatePipeline ?u ?c = Some (c', Inr [])" "group_gone k ?c c'"
      using UpdatePipeline_success_gone [OF ss(1), of ?u] one live ss(4) True by auto
    have "wf_except {} c'" using wf_except_group_gone [OF ss(1) c'(2)] by simp
    then show ?thesis
      using c'(1) gone_c [OF group_gone_gone [OF c'(2)]] True by (simp add: S_def)
  next
    case False
    then obtain c' ks where
      r: "UpdatePipeline ?u ?c = Some (c', Inr (map (failed_of (cs_heap ?c)) ks @ [?u]))"
      and g: "wf_except {} c'" "gone (insert k (dependents c k)) ?c c'" and ks: "distinct ks"
      "set ks = dependents c k" "\<forall>x \<in> set ks. waiting (cs_heap ?c) x"
      using UpdatePipeline_failure [of ?u ?c] ss(1,4) live one dep fin by (auto simp: final_update_state_def)
    have op: "op_URI (failed_of (cs_heap ?c) x) = x \<and> ru_State (failed_of (cs_heap ?c) x) = ResourceUpdateStateFailed"
      if "x \<in> set ks" for x
      using ks(3) that wf_except_upds [OF ss(1), of x]
      by (auto simp: waiting_def one_update_def failed_of_def)
    then have m: "map op_URI (map (failed_of (cs_heap ?c)) ks) = ks" by (simp add: map_idI)
    have "k \<notin> dependents c k" using wf by (simp add: dependents_def wf_except_def acyclic_def)
    then have "distinct (map op_URI (map (failed_of (cs_heap ?c)) ks @ [?u]))"
      using ks(1,2) one(1) m by simp
    moreover have "op_URI ` set (map (failed_of (cs_heap ?c)) ks @ [?u]) = insert k (set ks)"
    proof -
      have "op_URI ` set (map (failed_of (cs_heap ?c)) ks) = set ks" using m by (metis set_map)
      then show ?thesis using one(1) by (simp add: insert_commute)
    qed
    moreover have "ru_State f = ResourceUpdateStateFailed \<or> ru_State f = ResourceUpdateStateRejected"
      if "f \<in> set (map (failed_of (cs_heap ?c)) ks @ [?u])" for f
      using that op fin False by (auto simp: final_update_state_def)
    ultimately show ?thesis
      using r g(1) gone_c [OF g(2)] False ks(2) unfolding S_def
      by (intro exI [of _ c'] exI [of _ "map (failed_of (cs_heap ?c)) ks @ [?u]"]) simp
  qed
qed


section \<open>Executions\<close>

text \<open>
  The events of an execution: updates of a namespace are handed out, and a running update
  finishes. Every map iteration may use its own order.
\<close>

datatype cs_event =
    HandOut string int "ResourceUpdate list"
  | Finish FormaeURI ResourceUpdateState "ResourceUpdate list"

inductive cs_step :: "Changeset \<Rightarrow> cs_event \<Rightarrow> Changeset \<Rightarrow> bool" where
  hand_out: "range_orders ord \<Longrightarrow> GetExecutableUpdates ord ns n c = Some (us, c') \<Longrightarrow>
     cs_step c (HandOut ns n us) c'"
| finish: "upds (cs_heap c) k = [ru] \<Longrightarrow> ru_State ru = ResourceUpdateStateInProgress \<Longrightarrow>
     final_update_state st \<Longrightarrow>
     UpdatePipeline (ru\<lparr>ru_State := st\<rparr>) (set_state k st c) = Some (c', Inr fs) \<Longrightarrow>
     cs_step c (Finish k st fs) c'"

inductive_cases cs_step_HandOutE: "cs_step c (HandOut ns n us) c'"
inductive_cases cs_step_FinishE: "cs_step c (Finish k st fs) c'"

definition cs_start :: "Changeset \<Rightarrow> bool" where
  "cs_start c \<longleftrightarrow> (\<exists>ord us cid. range_orders ord \<and> fresh_updates us \<and>
     NewChangesetFromResourceUpdates ord us cid = Some (Inr c))"

fun is_finish :: "cs_event \<Rightarrow> bool" where
  "is_finish (Finish _ _ _) = True"
| "is_finish (HandOut _ _ _) = False"

definition cs_work :: "Changeset \<Rightarrow> nat" where
  "cs_work c = length (cs_keys c) + length (filter (waiting (cs_heap c)) (cs_keys c))"

text \<open>What one step does.\<close>

lemma hand_out_facts:
  assumes "wf_changeset c" "cs_step c (HandOut ns n us) c'"
  obtains sel where "distinct sel" "\<forall>k \<in> set sel. k \<in> set (cs_keys c) \<and> ready c ns k" "int (length sel) \<le> max 0 n"
    "mset us = mset (map (started_of (cs_heap c)) sel)" "started (set sel) c c'" "wf_changeset c'"
proof -
  from assms(2) obtain ord where ord: "range_orders ord" "GetExecutableUpdates ord ns n c = Some (us, c')"
    by (rule cs_step_HandOutE)
  let ?f = "filter (ready c ns) (ord SiteExecutable (cs_keys c))"
  let ?sel = "take (nat n) ?f"
  have wf: "wf_except {} c" using assms(1) by (simp add: wf_changeset_def)
  from GetExecutableUpdates_wf [OF ord(1) wf, of ns n] ord(2)
  have us: "us = sort_key ru_URI (map (started_of (cs_heap c)) ?sel)" and st: "started (set ?sel) c c'"
    and wf': "wf_changeset c'"
    by (auto simp: wf_changeset_def)
  have d: "distinct ?sel"
    using wf range_ordersD(3) [OF ord(1)] by (simp add: wf_except_def nodes_ok_def)
  have r: "\<forall>k \<in> set ?sel. k \<in> set (cs_keys c) \<and> ready c ns k"
    by (auto dest!: in_set_takeD simp: range_ordersD [OF ord(1)])
  have "length ?sel \<le> nat n" by simp
  then have l: "int (length ?sel) \<le> max 0 n" by linarith
  show ?thesis by (rule that [OF d r l _ st wf']) (simp add: us)
qed

lemma finish_facts:
  assumes "wf_changeset c" "cs_step c (Finish k st fs) c'"
  shows "wf_changeset c'" "k \<in> set (cs_keys c)"
    "gone (if st = ResourceUpdateStateSuccess then {k} else insert k (dependents c k)) c c'"
proof -
  from assms(2) obtain ru where ru: "upds (cs_heap c) k = [ru]" "final_update_state st"
    "UpdatePipeline (ru\<lparr>ru_State := st\<rparr>) (set_state k st c) = Some (c', Inr fs)"
    by (rule cs_step_FinishE)
  have wf: "wf_except {} c" using assms(1) by (simp add: wf_changeset_def)
  from finish_wf [OF wf ru(1,2)] ru(3) show "wf_changeset c'"
    "gone (if st = ResourceUpdateStateSuccess then {k} else insert k (dependents c k)) c c'"
    by (auto simp: wf_changeset_def)
  show "k \<in> set (cs_keys c)"
    using wf ru(1) by (cases "k \<in> set (cs_keys c)") (auto simp: wf_except_def nodes_ok_def)
qed

lemma wf_changeset_distinct: "wf_changeset c \<Longrightarrow> distinct (cs_keys c)"
  by (simp add: wf_changeset_def wf_except_def nodes_ok_def)

lemma gone_keys_length:
  assumes "gone S c c'" "distinct (cs_keys c)" "distinct (cs_keys c')" "k \<in> S" "k \<in> set (cs_keys c)"
  shows "length (cs_keys c') < length (cs_keys c)"
proof -
  have "set (cs_keys c') \<subset> set (cs_keys c)" using assms by (auto simp: gone_def)
  then have "card (set (cs_keys c')) < card (set (cs_keys c))" by (rule psubset_card_mono [OF finite_set])
  then show ?thesis using assms(2,3) by (simp add: distinct_card)
qed

lemma cs_step_wf:
  assumes "wf_changeset c" "cs_step c e c'"
  shows "wf_changeset c'"
  using assms by (cases e) (auto intro: finish_facts(1) elim: hand_out_facts)

lemma cs_step_pending:
  assumes "wf_changeset c" "cs_step c e c'"
  shows "length (cs_keys c') + (if is_finish e then 1 else 0) \<le> length (cs_keys c)"
proof (cases e)
  case (HandOut ns n us)
  from hand_out_facts [OF assms(1) assms(2) [unfolded HandOut]] have "cs_keys c' = cs_keys c"
    by (auto simp: started_def)
  then show ?thesis by (simp add: HandOut)
next
  case (Finish k st fs)
  note f = finish_facts [OF assms(1) assms(2) [unfolded Finish]]
  have "length (cs_keys c') < length (cs_keys c)"
    by (rule gone_keys_length [OF f(3) wf_changeset_distinct [OF assms(1)] wf_changeset_distinct [OF f(1)] _ f(2)]) simp
  then show ?thesis by (simp add: Finish)
qed


lemma started_waiting:
  assumes "started S c c'"
  shows "waiting (cs_heap c') k \<longleftrightarrow> waiting (cs_heap c) k \<and> k \<notin> S"
  using assms by (auto simp: started_def waiting_def)

lemma ready_waiting: "ready c ns k \<Longrightarrow> waiting (cs_heap c) k"
  by (auto simp: ready_def waiting_def split: list.splits)

lemma gone_waiting:
  "gone S c c' \<Longrightarrow> k \<in> set (cs_keys c') \<Longrightarrow> waiting (cs_heap c') k \<longleftrightarrow> waiting (cs_heap c) k"
  by (simp add: gone_def waiting_def)

lemma waiting_count: "length (filter P ks) = card {k \<in> set ks. P k}" if "distinct ks"
  using that distinct_card [of "filter P ks"] by simp

lemma cs_progress:
  assumes wf: "wf_changeset c" and "0 < cs_work c"
  shows "\<exists>e c'. cs_step c e c' \<and> cs_work c' < cs_work c"
proof -
  have wf': "wf_except {} c" using wf by (simp add: wf_changeset_def)
  have d: "distinct (cs_keys c)" by (rule wf_changeset_distinct [OF wf])
  have "cs_keys c \<noteq> []" using assms(2) by (auto simp: cs_work_def)
  then obtain k where k: "k \<in> set (cs_keys c)" "up (cs_heap c) k = []"
    using wf_has_source [OF wf'] by blast
  from wf_running_or_ready [OF wf' this] show ?thesis
  proof
    assume "running c k"
    moreover obtain ru where ru: "upds (cs_heap c) k = [ru]"
      using wf' k(1) by (auto simp: wf_except_def nodes_ok_def one_update_def)
    ultimately have ip: "ru_State ru = ResourceUpdateStateInProgress" by (simp add: running_def)
    have fin: "final_update_state ResourceUpdateStateSuccess" by (simp add: final_update_state_def)
    from finish_wf [OF wf' ru fin] obtain c' where
      c': "UpdatePipeline (ru\<lparr>ru_State := ResourceUpdateStateSuccess\<rparr>) (set_state k ResourceUpdateStateSuccess c) = Some (c', Inr [])"
      "wf_except {} c'" "gone {k} c c'" by auto
    have step: "cs_step c (Finish k ResourceUpdateStateSuccess []) c'"
      by (rule cs_step.finish [OF ru ip fin c'(1)])
    have d': "distinct (cs_keys c')" using c'(2) by (simp add: wf_except_def nodes_ok_def)
    have "length (cs_keys c') < length (cs_keys c)"
      by (rule gone_keys_length [OF c'(3) d d' _ k(1)]) simp
    moreover have "{x \<in> set (cs_keys c'). waiting (cs_heap c') x} \<subseteq> {x \<in> set (cs_keys c). waiting (cs_heap c) x}"
      using gone_waiting [OF c'(3)] c'(3) by (auto simp: gone_def)
    then have "length (filter (waiting (cs_heap c')) (cs_keys c')) \<le> length (filter (waiting (cs_heap c)) (cs_keys c))"
      unfolding waiting_count [OF d] waiting_count [OF d'] by (intro card_mono) auto
    ultimately show ?thesis using step unfolding cs_work_def by (meson add_less_le_mono)
  next
    assume "\<exists>ns. ready c ns k"
    then obtain ns where r: "ready c ns k" ..
    have ord: "range_orders (\<lambda>_. id)" by (simp add: range_orders_def range_order_id)
    let ?n = "int (length (cs_keys c))"
    have all: "take (nat ?n) (filter (ready c ns) (cs_keys c)) = filter (ready c ns) (cs_keys c)" by simp
    from GetExecutableUpdates_wf [OF ord wf', of ns ?n] obtain us c' where
      c': "GetExecutableUpdates (\<lambda>_. id) ns ?n c = Some (us, c')"
      "started (set (filter (ready c ns) (cs_keys c))) c c'" unfolding id_apply all by blast
    have step: "cs_step c (HandOut ns ?n us) c'" by (rule cs_step.hand_out [OF ord c'(1)])
    have keys: "cs_keys c' = cs_keys c" using c'(2) by (simp add: started_def)
    have "{x \<in> set (cs_keys c). waiting (cs_heap c') x} \<subset> {x \<in> set (cs_keys c). waiting (cs_heap c) x}"
      using started_waiting [OF c'(2)] k(1) r ready_waiting [OF r] by auto
    then have "length (filter (waiting (cs_heap c')) (cs_keys c')) < length (filter (waiting (cs_heap c)) (cs_keys c))"
      unfolding keys waiting_count [OF d] by (intro psubset_card_mono) auto
    with step keys show ?thesis unfolding cs_work_def by (metis add_less_cancel_left)
  qed
qed

lemma cs_start_wf: "cs_start c \<Longrightarrow> wf_changeset c"
  using NewChangeset_wf by (auto simp: cs_start_def)

interpretation cs: work_machine cs_start cs_step wf_changeset "\<lambda>c. length (cs_keys c)" cs_work is_finish
  using cs_start_wf cs_step_wf cs_step_pending cs_progress by unfold_locales

section \<open>Order and uniqueness along an execution\<close>

lemma run_dependencies:
  assumes "cs.run c es c'" "wf_changeset c"
  shows "set (cs_keys c') \<subseteq> set (cs_keys c) \<and>
    (\<forall>u d. (u, d) \<in> live_edges c \<longrightarrow> d \<in> set (cs_keys c') \<longrightarrow>
      (u, d) \<in> live_edges c' \<or> (\<exists>fs. Finish u ResourceUpdateStateSuccess fs \<in> set es))"
  using assms
proof (induction rule: cs.run.induct)
  case (run_nil s)
  then show ?case by simp
next
  case (run_cons s e t es u)
  note IH = run_cons.IH [OF cs_step_wf [OF run_cons.prems run_cons.hyps(1)]]
  show ?case
  proof (cases e)
    case (HandOut ns n us)
    obtain sel where "started (set sel) s t"
      using hand_out_facts [OF run_cons.prems run_cons.hyps(1) [unfolded HandOut]] by blast
    then have eqs: "cs_keys t = cs_keys s" "live_edges t = live_edges s"
      by (simp_all add: started_def live_edges_def)
    show ?thesis using IH unfolding eqs by (meson list.set_intros(2))
  next
    case (Finish k st fs)
    let ?S = "if st = ResourceUpdateStateSuccess then {k} else insert k (dependents s k)"
    have g: "gone ?S s t" using finish_facts [OF run_cons.prems run_cons.hyps(1) [unfolded Finish]] by blast
    have keys: "set (cs_keys t) = set (cs_keys s) - ?S"
      and edges: "live_edges t = {(u, d) \<in> live_edges s. u \<notin> ?S \<and> d \<notin> ?S}"
      using g unfolding gone_def by blast+
    have main: "(a, d) \<in> live_edges u \<or> (\<exists>fs. Finish a ResourceUpdateStateSuccess fs \<in> set (e # es))"
      if a: "(a, d) \<in> live_edges s" "d \<in> set (cs_keys u)" for a d
    proof (cases "a \<in> ?S")
      case False
      moreover have "d \<notin> ?S" using a(2) IH keys by auto
      ultimately have "(a, d) \<in> live_edges t" using a(1) edges by blast
      with IH a(2) show ?thesis by auto
    next
      case True
      have "st = ResourceUpdateStateSuccess"
      proof (rule ccontr)
        assume "st \<noteq> ResourceUpdateStateSuccess"
        with True a(1) have "d \<in> ?S" by (auto simp: dependents_def intro: trancl_into_trancl)
        with a(2) IH keys show False by auto
      qed
      with True Finish show ?thesis by auto
    qed
    have "set (cs_keys u) \<subseteq> set (cs_keys s)" using IH keys by blast
    with main show ?thesis by blast
  qed
qed


text \<open>The operations handed out by an execution, in order.\<close>

fun handed_out :: "cs_event list \<Rightarrow> FormaeURI list" where
  "handed_out [] = []"
| "handed_out (HandOut _ _ us # es) = map op_URI us @ handed_out es"
| "handed_out (Finish _ _ _ # es) = handed_out es"

lemma op_URI_started_of:
  assumes "wf_changeset c" "k \<in> set (cs_keys c)"
  shows "op_URI (started_of (cs_heap c) k) = k"
  using assms by (auto simp: wf_changeset_def wf_except_def nodes_ok_def one_update_def started_of_def)

lemma hand_out_uris:
  assumes "wf_changeset c" "\<forall>k \<in> set sel. k \<in> set (cs_keys c)" "mset us = mset (map (started_of (cs_heap c)) sel)"
  shows "mset (map op_URI us) = mset sel"
proof -
  have "mset (map op_URI us) = mset (map op_URI (map (started_of (cs_heap c)) sel))"
    by (metis assms(3) mset_map)
  also have "map op_URI (map (started_of (cs_heap c)) sel) = sel"
    using op_URI_started_of [OF assms(1)] assms(2) by (simp add: map_idI)
  finally show ?thesis .
qed

lemma run_handed_out:
  assumes "cs.run c es c'" "wf_changeset c"
  shows "distinct (handed_out es) \<and> set (handed_out es) \<subseteq> {k \<in> set (cs_keys c). waiting (cs_heap c) k} \<and>
    {k \<in> set (cs_keys c'). waiting (cs_heap c') k} \<subseteq> {k \<in> set (cs_keys c). waiting (cs_heap c) k}"
  using assms
proof (induction rule: cs.run.induct)
  case (run_nil s)
  then show ?case by simp
next
  case (run_cons s e t es u)
  note IH = run_cons.IH [OF cs_step_wf [OF run_cons.prems run_cons.hyps(1)]]
  show ?case
  proof (cases e)
    case (HandOut ns n us)
    obtain sel where sel: "distinct sel" "\<forall>k \<in> set sel. k \<in> set (cs_keys s) \<and> ready s ns k"
      "mset us = mset (map (started_of (cs_heap s)) sel)" and st: "started (set sel) s t"
      using hand_out_facts [OF run_cons.prems run_cons.hyps(1) [unfolded HandOut]] by blast
    have m: "mset (map op_URI us) = mset sel"
      using hand_out_uris [OF run_cons.prems _ sel(3)] sel(2) by blast
    have us: "set (map op_URI us) = set sel" "distinct (map op_URI us)"
      using mset_eq_setD [OF m] mset_eq_imp_distinct_iff [OF m] sel(1) by simp_all
    have keys: "cs_keys t = cs_keys s" using st by (simp add: started_def)
    have w: "{k \<in> set (cs_keys t). waiting (cs_heap t) k} = {k \<in> set (cs_keys s). waiting (cs_heap s) k} - set sel"
      using started_waiting [OF st] unfolding keys by blast
    have r: "set sel \<subseteq> {k \<in> set (cs_keys s). waiting (cs_heap s) k}"
      using sel(2) ready_waiting by blast
    have ho: "handed_out (e # es) = map op_URI us @ handed_out es" by (simp add: HandOut)
    have d: "distinct (map op_URI us @ handed_out es)"
      unfolding distinct_append using us IH unfolding w by blast
    show ?thesis
      unfolding ho set_append us(1) using d IH r unfolding w by blast
  next
    case (Finish k st fs)
    have g: "gone (if st = ResourceUpdateStateSuccess then {k} else insert k (dependents s k)) s t"
      using finish_facts [OF run_cons.prems run_cons.hyps(1) [unfolded Finish]] by blast
    have "set (cs_keys t) \<subseteq> set (cs_keys s)" using g unfolding gone_def by blast
    then have "{k \<in> set (cs_keys t). waiting (cs_heap t) k} \<subseteq> {k \<in> set (cs_keys s). waiting (cs_heap s) k}"
      using gone_waiting [OF g] by blast
    with IH show ?thesis unfolding Finish handed_out.simps by blast
  qed
qed


section \<open>A sample execution\<close>

definition sample_pair :: "ResourceUpdate list" where
  "sample_pair = [sample_update ''sub'' OperationCreate [''formae://vpc#/Id''],
     sample_update ''vpc'' OperationCreate []]"

definition sample_c0 :: Changeset where
  "sample_c0 = (case NewChangesetFromResourceUpdates (\<lambda>_. id) sample_pair ''cmd'' of
     Some (Inr c) \<Rightarrow> c
   | _ \<Rightarrow> \<lparr>cs_CommandID = [], cs_Pipeline = \<lparr>pl_keys = [], pl_heap = []\<rparr>, cs_trackedUpdates = []\<rparr>)"

definition sample_hand_out :: "Changeset \<Rightarrow> ResourceUpdate list \<times> Changeset" where
  "sample_hand_out c = (case GetExecutableUpdates (\<lambda>_. id) ''AWS'' 5 c of None \<Rightarrow> ([], c) | Some r \<Rightarrow> r)"

definition sample_c1 :: Changeset where "sample_c1 = snd (sample_hand_out sample_c0)"

definition sample_finish :: "ResourceUpdateState \<Rightarrow> Changeset \<times> ResourceUpdate list" where
  "sample_finish st =
     (case UpdatePipeline ((hd (upds (cs_heap sample_c1) ''vpc//create''))\<lparr>ru_State := st\<rparr>)
        (set_state ''vpc//create'' st sample_c1) of
      Some (c, Inr fs) \<Rightarrow> (c, fs) | _ \<Rightarrow> (sample_c1, []))"

definition sample_c2 :: Changeset where "sample_c2 = fst (sample_finish ResourceUpdateStateSuccess)"

lemma sample_orders: "range_orders (\<lambda>_. id)"
  by (simp add: range_orders_def range_order_id)

lemma sample_fresh: "fresh_updates sample_pair"
  by code_simp

lemma sample_new: "NewChangesetFromResourceUpdates (\<lambda>_. id) sample_pair ''cmd'' = Some (Inr sample_c0)"
proof -
  have "case NewChangesetFromResourceUpdates (\<lambda>_. id) sample_pair ''cmd'' of Some (Inr c) \<Rightarrow> True | _ \<Rightarrow> False"
    by code_simp
  then show ?thesis by (auto simp: sample_c0_def split: option.splits sum.splits)
qed

lemma sample_wf0: "wf_changeset sample_c0" and sample_start: "cs_start sample_c0"
  using NewChangeset_wf [OF sample_orders sample_fresh sample_new] sample_orders sample_fresh sample_new
  by (auto simp: cs_start_def)

lemma sample_hand_out_step:
  assumes "wf_changeset c"
  shows "cs_step c (HandOut ''AWS'' 5 (fst (sample_hand_out c))) (snd (sample_hand_out c))"
proof -
  obtain us c' where "GetExecutableUpdates (\<lambda>_. id) ''AWS'' 5 c = Some (us, c')"
    using GetExecutableUpdates_wf [OF sample_orders] assms by (metis wf_changeset_def)
  then show ?thesis using cs_step.hand_out [OF sample_orders] by (simp add: sample_hand_out_def)
qed

lemma sample_wf1: "wf_changeset sample_c1"
  using cs_step_wf [OF sample_wf0 sample_hand_out_step [OF sample_wf0]] by (simp add: sample_c1_def)

lemma sample_running:
  "upds (cs_heap sample_c1) ''vpc//create'' = [hd (upds (cs_heap sample_c1) ''vpc//create'')]"
  "ru_State (hd (upds (cs_heap sample_c1) ''vpc//create'')) = ResourceUpdateStateInProgress"
proof -
  have "length (upds (cs_heap sample_c1) ''vpc//create'') = 1" by code_simp
  then show "upds (cs_heap sample_c1) ''vpc//create'' = [hd (upds (cs_heap sample_c1) ''vpc//create'')]"
    by (cases "upds (cs_heap sample_c1) ''vpc//create''") auto
  show "ru_State (hd (upds (cs_heap sample_c1) ''vpc//create'')) = ResourceUpdateStateInProgress" by code_simp
qed

lemma sample_finish_step:
  assumes "final_update_state st"
  shows "cs_step sample_c1 (Finish ''vpc//create'' st (snd (sample_finish st))) (fst (sample_finish st))"
proof -
  let ?ru = "hd (upds (cs_heap sample_c1) ''vpc//create'')"
  obtain c' fs where "UpdatePipeline (?ru\<lparr>ru_State := st\<rparr>) (set_state ''vpc//create'' st sample_c1) = Some (c', Inr fs)"
    using finish_wf [OF _ sample_running(1) assms] sample_wf1 by (auto simp: wf_changeset_def)
  then show ?thesis
    using cs_step.finish [OF sample_running assms] by (simp add: sample_finish_def)
qed

definition sample_prefix :: "cs_event list" where
  "sample_prefix = [HandOut ''AWS'' 5 (fst (sample_hand_out sample_c0)),
     Finish ''vpc//create'' ResourceUpdateStateSuccess (snd (sample_finish ResourceUpdateStateSuccess))]"

definition sample_run :: "cs_event list" where
  "sample_run = sample_prefix @ [HandOut ''AWS'' 5 (fst (sample_hand_out sample_c2))]"

lemma sample_run_ok: "cs.run sample_c0 sample_run (snd (sample_hand_out sample_c2))"
proof -
  have f: "final_update_state ResourceUpdateStateSuccess" by (simp add: final_update_state_def)
  note s0 = sample_hand_out_step [OF sample_wf0, folded sample_c1_def]
  note s1 = sample_finish_step [OF f, folded sample_c2_def]
  have "wf_changeset sample_c2" by (rule cs_step_wf [OF sample_wf1 s1])
  note s2 = sample_hand_out_step [OF this]
  show ?thesis
    unfolding sample_run_def sample_prefix_def append.simps 
    by (rule cs.run_cons [OF s0], rule cs.run_cons [OF s1], rule cs.run_cons [OF s2], rule cs.run_nil)
qed


section \<open>Properties\<close>

lemma handed_out_after:
  assumes "range_orders ord" "fresh_updates ups" "distinct_resources (all_ops ups)"
    "NewChangesetFromResourceUpdates ord ups cid = Some (Inr c)"
    and "cs.run c (es @ HandOut ns n us # es') c'" "w \<in> set us" "(u, op_URI w) \<in> must_precede (all_ops ups)"
  shows "\<exists>fs. Finish u ResourceUpdateStateSuccess fs \<in> set es"
proof -
  have wf: "wf_changeset c" and edge: "(u, op_URI w) \<in> live_edges c"
    using NewChangeset_wf [OF assms(1,2,4)] assms(7) dependency_edges_spec [OF assms(3)] by auto
  obtain c1 c2 where run: "cs.run c es c1" and step: "cs_step c1 (HandOut ns n us) c2"
    using assms(5) unfolding cs.run_append by (auto elim: cs.run_consE)
  have wf1: "wf_changeset c1" by (rule cs.run_inv [OF run wf])
  obtain sel where sel: "\<forall>k \<in> set sel. k \<in> set (cs_keys c1) \<and> ready c1 ns k"
    "mset us = mset (map (started_of (cs_heap c1)) sel)"
    using hand_out_facts [OF wf1 step] by blast
  have "set (map op_URI us) = set sel"
    using mset_eq_setD [OF hand_out_uris [OF wf1 _ sel(2)]] sel(1) by blast
  with assms(6) have k: "op_URI w \<in> set (cs_keys c1)" "ready c1 ns (op_URI w)" using sel(1) by auto
  have "(u, op_URI w) \<notin> live_edges c1"
  proof
    assume "(u, op_URI w) \<in> live_edges c1"
    then have "u \<in> set (up (cs_heap c1) (op_URI w))"
      using wf1 by (auto simp: live_edges_def wf_changeset_def wf_except_def live_links_ok_def)
    with k(2) show False by (simp add: ready_def)
  qed
  then show ?thesis using run_dependencies [OF run wf] edge k(1) by blast
qed

text \<open>C3: dependencies are respected. In every execution of a changeset built from fresh updates, an
  operation is handed out only after every operation that the dependency specification puts before it has
  finished successfully, whatever the token limits, the iteration orders and the
  outcomes of the other operations are.\<close>

theorem dependencies_respected:
  assumes "range_orders ord" "fresh_updates ups" "distinct_resources (all_ops ups)"
    "NewChangesetFromResourceUpdates ord ups cid = Some (Inr c)"
    and "cs.run c (es @ HandOut ns n us # es') c'" "w \<in> set us" "(u, op_URI w) \<in> must_precede (all_ops ups)"
  shows "\<exists>fs. Finish u ResourceUpdateStateSuccess fs \<in> set es"
  by (rule handed_out_after [OF assms])

theorem dependencies_respected_witness:
  "\<exists>fs. Finish ''vpc//create'' ResourceUpdateStateSuccess fs \<in> set sample_prefix"
proof (rule dependencies_respected [OF sample_orders sample_fresh _ sample_new])
  show "distinct_resources (all_ops sample_pair)" by code_simp
  show "cs.run sample_c0 (sample_prefix @ HandOut ''AWS'' 5 (fst (sample_hand_out sample_c2)) # [])
      (snd (sample_hand_out sample_c2))"
    using sample_run_ok by (simp add: sample_run_def)
  have len: "length (fst (sample_hand_out sample_c2)) = 1" by code_simp
  then show "hd (fst (sample_hand_out sample_c2)) \<in> set (fst (sample_hand_out sample_c2))"
    by (cases "fst (sample_hand_out sample_c2)") auto
  have "op_URI (hd (fst (sample_hand_out sample_c2))) = ''sub//create''" by code_simp
  moreover have "(''vpc//create'', ''sub//create'') = (op_URI (sample_pair ! 1), op_URI (sample_pair ! 0))"
    by code_simp
  moreover have "precedes (sample_pair ! 1) (sample_pair ! 0)" by code_simp
  moreover have "all_ops sample_pair = sample_pair"
    by (simp add: all_ops_def sample_pair_def sample_update_def)
  ultimately show "(''vpc//create'', op_URI (hd (fst (sample_hand_out sample_c2)))) \<in> must_precede (all_ops sample_pair)"
    unfolding must_precede_def by (auto simp: sample_pair_def)
qed

text \<open>nothing is started twice. In every execution that begins with a fresh changeset, each
  operation is handed out at most once, and only operations of the changeset are.\<close>

theorem handed_out_once:
  assumes "cs_start c" "cs.run c es c'"
  shows "distinct (handed_out es) \<and> set (handed_out es) \<subseteq> set (cs_keys c)"
  using run_handed_out [OF assms(2) cs_start_wf [OF assms(1)]] by blast

theorem handed_out_once_witness:
  "distinct (handed_out sample_run) \<and> set (handed_out sample_run) \<subseteq> set (cs_keys sample_c0)"
  by (rule handed_out_once [OF sample_start sample_run_ok])

text \<open>C28: a changeset ends. However updates are handed out and finish, an execution contains at most
  as many finished updates as the changeset has operations, and from every reachable state the
  execution can be continued until the changeset is complete.\<close>

theorem execution_terminates:
  assumes "cs_start c" "cs.run c es c'"
  shows "length (filter is_finish es) \<le> length (cs_keys c) \<and>
    (\<exists>es' c''. cs.run c' es' c'' \<and> IsComplete c'')"
proof -
  have wf: "wf_changeset c" by (rule cs_start_wf [OF assms(1)])
  have wf': "wf_changeset c'" by (rule cs.run_inv [OF assms(2) wf])
  obtain es' c'' where "cs.run c' es' c''" "cs_work c'' = 0" using cs.can_complete [OF wf'] by blast
  moreover from this have "IsComplete c''"
    by (simp add: cs_work_def IsComplete_def)
  ultimately show ?thesis using cs.finishes_bounded [OF assms(2) wf] by blast
qed

theorem execution_terminates_witness:
  "length (filter is_finish sample_run) \<le> length (cs_keys sample_c0)"
  using execution_terminates [OF sample_start sample_run_ok] by blast


text \<open>no deadlock. A reachable changeset is complete exactly when no group is left; and as long
  as it is not complete, an update is running or \<^verbatim>\<open>AvailableExecutableUpdates\<close> offers
  one.\<close>

theorem no_deadlock:
  assumes "cs.reach c" "range_orders ord"
  shows "(IsComplete c \<longleftrightarrow> cs_keys c = []) \<and>
    (\<not> IsComplete c \<longrightarrow> (\<exists>k. running c k) \<or>
      (\<exists>m ns n. AvailableExecutableUpdates ord c = Some m \<and> map_of m ns = Some n \<and> 0 < n))"
proof -
  have wf: "wf_except {} c" using cs.reach_inv [OF assms(1)] by (simp add: wf_changeset_def)
  have ic: "IsComplete c \<longleftrightarrow> cs_keys c = []" by (rule IsComplete_wf [OF wf])
  have "(\<exists>k. running c k) \<or>
      (\<exists>m ns n. AvailableExecutableUpdates ord c = Some m \<and> map_of m ns = Some n \<and> 0 < n)"
    if "cs_keys c \<noteq> []"
  proof -
    obtain k where k: "k \<in> set (cs_keys c)" "up (cs_heap c) k = []"
      using wf_has_source [OF wf \<open>cs_keys c \<noteq> []\<close>] by blast
    from wf_running_or_ready [OF wf k] show ?thesis
    proof
      assume "\<exists>ns. ready c ns k"
      then obtain ns where "ready c ns k" ..
      then have "k \<in> set (filter (ready c ns) (cs_keys c))" using k(1) by simp
      then have "0 < ready_count c (cs_keys c) ns"
        unfolding ready_count_def by (cases "filter (ready c ns) (cs_keys c)") auto
      then show ?thesis
        using AvailableExecutableUpdates_wf [OF assms(2) wf] by (metis less_irrefl)
    qed blast
  qed
  with ic show ?thesis by blast
qed

theorem no_deadlock_witness:
  "\<not> IsComplete sample_c0 \<and> ((\<exists>k. running sample_c0 k) \<or>
    (\<exists>m ns n. AvailableExecutableUpdates (\<lambda>_. id) sample_c0 = Some m \<and> map_of m ns = Some n \<and> 0 < n))"
proof -
  have "cs.reach sample_c0" by (rule cs.reach_start [OF sample_start])
  moreover have "\<not> IsComplete sample_c0" by code_simp
  ultimately show ?thesis using no_deadlock [OF _ sample_orders] by blast
qed

text \<open>what is handed out. \<^verbatim>\<open>GetExecutableUpdates\<close> never panics; it returns, sorted by
  URI, the updates of the first \<open>max\<close> groups in iteration order that are ready in the
  namespace (waiting, with no upstream left), each marked as in progress; these become running and tracked, all
  other groups and all links stay as they were, and the invariant is kept.\<close>

theorem GetExecutableUpdates_functional:
  assumes "range_orders ord" "wf_changeset c"
  shows "\<exists>sel us c'. GetExecutableUpdates ord ns maxN c = Some (us, c') \<and>
    sel = take (nat maxN) (filter (ready c ns) (ord SiteExecutable (cs_keys c))) \<and>
    us = sort_key ru_URI (map (started_of (cs_heap c)) sel) \<and> sorted (map ru_URI us) \<and>
    started (set sel) c c' \<and> wf_changeset c'"
  using GetExecutableUpdates_wf [OF assms(1), of c ns maxN] assms(2)
  by (auto simp: wf_changeset_def)

theorem GetExecutableUpdates_functional_witness:
  "\<exists>us c'. GetExecutableUpdates (\<lambda>_. id) ''AWS'' 5 sample_c0 = Some (us, c') \<and> wf_changeset c' \<and>
     map op_URI us = [''vpc//create'']"
proof -
  obtain us c' where r: "GetExecutableUpdates (\<lambda>_. id) ''AWS'' 5 sample_c0 = Some (us, c')" "wf_changeset c'"
    using GetExecutableUpdates_functional [OF sample_orders sample_wf0] by blast
  have "map op_URI (fst (sample_hand_out sample_c0)) = [''vpc//create'']" by code_simp
  with r show ?thesis by (simp add: sample_hand_out_def)
qed

text \<open>the counts are right. \<^verbatim>\<open>AvailableExecutableUpdates\<close> maps each namespace to the
  number of ready groups in it, leaves out namespaces that have none, and asking for that many
  updates hands out every ready group of the namespace.\<close>

theorem AvailableExecutableUpdates_functional:
  assumes "range_orders ord" "wf_changeset c"
  shows "\<exists>m. AvailableExecutableUpdates ord c = Some m \<and> distinct (map fst m) \<and>
    (\<forall>ns. map_of m ns = (let n = length (filter (ready c ns) (cs_keys c))
       in if n = 0 then None else Some (int n))) \<and>
    (\<forall>ns n. map_of m ns = Some n \<longrightarrow>
       set (take (nat n) (filter (ready c ns) (ord SiteExecutable (cs_keys c)))) =
       {k \<in> set (cs_keys c). ready c ns k})"
proof -
  have wf: "wf_except {} c" using assms(2) by (simp add: wf_changeset_def)
  obtain m where m: "AvailableExecutableUpdates ord c = Some m" "distinct (map fst m)"
    "\<And>ns. map_of m ns = (if ready_count c (cs_keys c) ns = 0 then None else Some (ready_count c (cs_keys c) ns))"
    using AvailableExecutableUpdates_wf [OF assms(1) wf] by blast
  have "set (take (nat n) (filter (ready c ns) (ord SiteExecutable (cs_keys c)))) = {k \<in> set (cs_keys c). ready c ns k}"
    if "map_of m ns = Some n" for ns n
  proof -
    have "n = ready_count c (ord SiteExecutable (cs_keys c)) ns"
      using that m(3) [of ns] ready_count_perm [OF range_ordersD(1) [OF assms(1)]] by (simp split: if_splits)
    then have "nat n = length (filter (ready c ns) (ord SiteExecutable (cs_keys c)))"
      by (simp add: ready_count_def)
    then show ?thesis by (simp add: range_ordersD [OF assms(1)])
  qed
  then show ?thesis using m by (auto simp: ready_count_def Let_def)
qed

theorem AvailableExecutableUpdates_functional_witness:
  "\<exists>m. AvailableExecutableUpdates (\<lambda>_. id) sample_c0 = Some m \<and> map_of m ''AWS'' = Some 1"
proof -
  obtain m where m: "AvailableExecutableUpdates (\<lambda>_. id) sample_c0 = Some m"
    "map_of m ''AWS'' = (let n = length (filter (ready sample_c0 ''AWS'') (cs_keys sample_c0))
       in if n = 0 then None else Some (int n))"
    using AvailableExecutableUpdates_functional [OF sample_orders sample_wf0] by blast
  moreover have "length (filter (ready sample_c0 ''AWS'') (cs_keys sample_c0)) = 1" by code_simp
  ultimately show ?thesis by simp
qed


text \<open>success releases the dependents. When the update of a live group finishes successfully,
  \<^verbatim>\<open>UpdatePipeline\<close> returns no failures, removes exactly that group, removes exactly its links
  (although the loop over its downstream groups edits the slice it ranges over), leaves every
  other live update untouched, and keeps the invariant.\<close>

theorem UpdatePipeline_success_correct:
  assumes "wf_changeset c" "upds (cs_heap c) k = [ru]"
  defines "st \<equiv> ResourceUpdateStateSuccess"
  shows "\<exists>c'. UpdatePipeline (ru\<lparr>ru_State := st\<rparr>) (set_state k st c) = Some (c', Inr []) \<and>
    wf_changeset c' \<and> set (cs_keys c') = set (cs_keys c) - {k} \<and>
    (\<forall>x \<in> set (cs_keys c'). upds (cs_heap c') x = upds (cs_heap c) x \<and>
       set (up (cs_heap c') x) = set (up (cs_heap c) x) - {k})"
proof -
  have wf: "wf_except {} c" using assms(1) by (simp add: wf_changeset_def)
  obtain c' where c': "UpdatePipeline (ru\<lparr>ru_State := st\<rparr>) (set_state k st c) = Some (c', Inr [])"
    "wf_except {} c'" "gone {k} c c'"
    using finish_wf [OF wf assms(2), of st] by (auto simp: st_def final_update_state_def)
  have ups: "set (up (cs_heap d) x) = {u. (u, x) \<in> live_edges d}"
    if "wf_except {} d" "x \<in> set (cs_keys d)" for d x
    using that unfolding live_edges_def wf_except_def live_links_ok_def by blast
  have "set (up (cs_heap c') x) = set (up (cs_heap c) x) - {k}" if "x \<in> set (cs_keys c')" for x
    using that ups [OF wf, of x] ups [OF c'(2) that] c'(3) by (auto simp: gone_def)
  then show ?thesis using c' by (simp add: wf_changeset_def gone_def)
qed

theorem UpdatePipeline_success_correct_witness:
  "\<exists>c'. UpdatePipeline ((hd (upds (cs_heap sample_c1) ''vpc//create''))\<lparr>ru_State := ResourceUpdateStateSuccess\<rparr>)
      (set_state ''vpc//create'' ResourceUpdateStateSuccess sample_c1) = Some (c', Inr []) \<and>
    wf_changeset c' \<and> set (cs_keys c') = {''sub//create''}"
proof -
  have "set (cs_keys sample_c1) = {''sub//create'', ''vpc//create''}" by code_simp
  then have "set (cs_keys sample_c1) - {''vpc//create''} = {''sub//create''}" by auto
  with UpdatePipeline_success_correct [OF sample_wf1 sample_running(1)] show ?thesis by auto
qed

text \<open>C6: failure cascades to exactly the transitive dependents. When the update of a live group fails or is
  rejected, \<^verbatim>\<open>UpdatePipeline\<close> terminates and returns the failed update and one update, marked as
  failed, for every group that waits for it directly or indirectly, each once; exactly these groups
  are removed, every other live group keeps its update and its links, and the invariant is kept.\<close>

theorem UpdatePipeline_failure_correct:
  assumes "wf_changeset c" "upds (cs_heap c) k = [ru]"
    "st = ResourceUpdateStateFailed \<or> st = ResourceUpdateStateRejected"
  shows "\<exists>c' fs. UpdatePipeline (ru\<lparr>ru_State := st\<rparr>) (set_state k st c) = Some (c', Inr fs) \<and>
    wf_changeset c' \<and> op_URI ` set fs = insert k (dependents c k) \<and> distinct (map op_URI fs) \<and>
    (\<forall>f \<in> set fs. ru_State f = ResourceUpdateStateFailed \<or> ru_State f = ResourceUpdateStateRejected) \<and>
    set (cs_keys c') = set (cs_keys c) - insert k (dependents c k) \<and>
    (\<forall>x \<in> set (cs_keys c'). upds (cs_heap c') x = upds (cs_heap c) x) \<and>
    live_edges c' = {(u, d) \<in> live_edges c. u \<in> set (cs_keys c') \<and> d \<in> set (cs_keys c')}"
proof -
  have wf: "wf_except {} c" using assms(1) by (simp add: wf_changeset_def)
  have st: "final_update_state st" "st \<noteq> ResourceUpdateStateSuccess"
    using assms(3) by (auto simp: final_update_state_def)
  obtain c' fs where c': "UpdatePipeline (ru\<lparr>ru_State := st\<rparr>) (set_state k st c) = Some (c', Inr fs)"
    "wf_except {} c'" "gone (insert k (dependents c k)) c c'" "op_URI ` set fs = insert k (dependents c k)"
    "distinct (map op_URI fs)"
    "\<forall>f \<in> set fs. ru_State f = ResourceUpdateStateFailed \<or> ru_State f = ResourceUpdateStateRejected"
    using finish_wf [OF wf assms(2) st(1)] unfolding if_not_P [OF st(2)] by blast
  have "live_edges c' = {(u, d) \<in> live_edges c. u \<in> set (cs_keys c') \<and> d \<in> set (cs_keys c')}"
    using c'(3) by (auto simp: gone_def live_edges_def)
  moreover have "set (cs_keys c') = set (cs_keys c) - insert k (dependents c k)"
    "\<forall>x \<in> set (cs_keys c'). upds (cs_heap c') x = upds (cs_heap c) x"
    using c'(3) unfolding gone_def by blast+
  ultimately show ?thesis using c'(1,2,4,5,6) unfolding wf_changeset_def by blast
qed

theorem UpdatePipeline_failure_correct_witness:
  "\<exists>c' fs. UpdatePipeline ((hd (upds (cs_heap sample_c1) ''vpc//create''))\<lparr>ru_State := ResourceUpdateStateFailed\<rparr>)
      (set_state ''vpc//create'' ResourceUpdateStateFailed sample_c1) = Some (c', Inr fs) \<and>
    wf_changeset c' \<and> map op_URI fs = [''sub//create'', ''vpc//create''] \<and> cs_keys c' = []"
proof -
  obtain c' fs where r: "UpdatePipeline ((hd (upds (cs_heap sample_c1) ''vpc//create''))\<lparr>ru_State := ResourceUpdateStateFailed\<rparr>)
      (set_state ''vpc//create'' ResourceUpdateStateFailed sample_c1) = Some (c', Inr fs)" "wf_changeset c'"
    using UpdatePipeline_failure_correct [OF sample_wf1 sample_running(1) disjI1 [OF refl]]
    by (elim exE conjE) (rule that)
  then have "sample_finish ResourceUpdateStateFailed = (c', fs)" by (simp add: sample_finish_def)
  moreover have "map op_URI (snd (sample_finish ResourceUpdateStateFailed)) = [''sub//create'', ''vpc//create'']"
    "cs_keys (fst (sample_finish ResourceUpdateStateFailed)) = []" by code_simp+
  ultimately show ?thesis using r by simp
qed

end
