(* ===== verification/Rate_Limiter.thy ===== *)
theory Rate_Limiter
  imports Prelude
begin

text \<open>
  \<^verbatim>\<open>internal/metastructure/changeset/rate_limiter.go\<close>: one token bucket per plugin
  namespace. A clock is not modelled: each call carries the two readings the source takes, the
  one \<^verbatim>\<open>time.Since\<close> subtracts from and the one stored as the last refill. A request
  for a namespace without a bucket dereferences a nil pointer, which is the result \<open>None\<close>.
\<close>

section \<open>Definitions\<close>

record TokenBucket =
  tb_Tokens :: int
  tb_Capacity :: int
  tb_LastRefill :: go_time

type_synonym RateLimiter = "(string \<times> TokenBucket) list"

definition time_Second :: go_time where
  "time_Second = 1000000000"

definition util_Min :: "int \<Rightarrow> int \<Rightarrow> int" where
  "util_Min x y = (if x < y then x else y)"

definition consume :: "int \<Rightarrow> TokenBucket \<Rightarrow> TokenBucket" where
  "consume n b = b\<lparr>tb_Tokens := tb_Tokens b - n\<rparr>"

definition replenish :: "go_time \<Rightarrow> go_time \<Rightarrow> TokenBucket \<Rightarrow> TokenBucket" where
  "replenish now now' b =
     (if now - tb_LastRefill b > time_Second
      then b\<lparr>tb_Tokens := tb_Capacity b, tb_LastRefill := now'\<rparr> else b)"

text \<open>\<^verbatim>\<open>Init\<close>: a full bucket per resource plugin, given as (namespace, rate).\<close>

definition rl_Init :: "go_time \<Rightarrow> (string \<times> int) list \<Rightarrow> RateLimiter" where
  "rl_Init now plugins =
     fold (\<lambda>(ns, rateLimit) buckets. AList.update ns
       \<lparr>tb_Tokens = rateLimit, tb_Capacity = rateLimit, tb_LastRefill = now\<rparr> buckets) plugins []"

text \<open>\<^verbatim>\<open>HandleCall\<close> on a \<^verbatim>\<open>RequestTokens\<close> message.\<close>

definition RequestTokens ::
  "go_time \<times> go_time \<Rightarrow> RateLimiter \<Rightarrow> string \<Rightarrow> int \<Rightarrow> (int \<times> RateLimiter) option" where
  "RequestTokens clock buckets namespace N =
     (case map_of buckets namespace of
        None \<Rightarrow> None
      | Some b \<Rightarrow>
          let b1 = replenish (fst clock) (snd clock) b;
              n = util_Min N (tb_Tokens b1)
          in Some (n, AList.update namespace (consume n b1) buckets))"

section \<open>The bucket invariant\<close>

definition bucket_inv :: "TokenBucket \<Rightarrow> bool" where
  "bucket_inv b \<longleftrightarrow> 0 \<le> tb_Tokens b \<and> tb_Tokens b \<le> tb_Capacity b"

definition rl_inv :: "RateLimiter \<Rightarrow> bool" where
  "rl_inv l \<longleftrightarrow> (\<forall>ns b. map_of l ns = Some b \<longrightarrow> bucket_inv b)"

lemma bucket_inv_replenish: "bucket_inv b \<Longrightarrow> bucket_inv (replenish now now' b)"
  by (simp add: bucket_inv_def replenish_def)

lemma bucket_inv_consume:
  "bucket_inv b \<Longrightarrow> 0 \<le> N \<Longrightarrow> bucket_inv (consume (util_Min N (tb_Tokens b)) b)"
  by (auto simp: bucket_inv_def consume_def util_Min_def)

lemma RequestTokens_SomeE:
  assumes "RequestTokens c l ns N = Some (n, l')"
  obtains b where "map_of l ns = Some b"
    "n = util_Min N (tb_Tokens (replenish (fst c) (snd c) b))"
    "map_of l' = (map_of l)(ns \<mapsto> consume n (replenish (fst c) (snd c) b))"
  using assms
  by (auto simp: RequestTokens_def Let_def update_conv' split: option.splits)

lemma rl_inv_RequestTokens:
  assumes "rl_inv l" "0 \<le> N" "RequestTokens c l ns N = Some (n, l')"
  shows "rl_inv l'"
proof -
  from assms(3) obtain b where b: "map_of l ns = Some b"
    "n = util_Min N (tb_Tokens (replenish (fst c) (snd c) b))"
    "map_of l' = (map_of l)(ns \<mapsto> consume n (replenish (fst c) (snd c) b))"
    by (rule RequestTokens_SomeE)
  then have "bucket_inv (consume n (replenish (fst c) (snd c) b))"
    using assms(1,2) by (auto simp: rl_inv_def intro: bucket_inv_consume bucket_inv_replenish)
  then show ?thesis using assms(1) b(3) by (simp add: rl_inv_def)
qed

lemma RequestTokens_bounds:
  assumes "rl_inv l" "0 \<le> N" "RequestTokens c l ns N = Some (n, l')"
  shows "0 \<le> n \<and> n \<le> N"
proof -
  from assms(3) obtain b where "map_of l ns = Some b"
    "n = util_Min N (tb_Tokens (replenish (fst c) (snd c) b))"
    by (rule RequestTokens_SomeE)
  moreover from this(1) have "bucket_inv (replenish (fst c) (snd c) b)"
    using assms(1) by (simp add: rl_inv_def bucket_inv_replenish)
  ultimately show ?thesis using assms(2) by (auto simp: bucket_inv_def util_Min_def)
qed

lemma rl_inv_update: "rl_inv l \<Longrightarrow> bucket_inv b \<Longrightarrow> rl_inv (AList.update ns b l)"
  by (simp add: rl_inv_def update_conv')

lemma rl_inv_Init:
  assumes "\<forall>(ns, r) \<in> set plugins. 0 \<le> r"
  shows "rl_inv (rl_Init now plugins)"
proof -
  have step: "rl_inv (fold (\<lambda>(ns, r) bs. AList.update ns
      \<lparr>tb_Tokens = r, tb_Capacity = r, tb_LastRefill = now\<rparr> bs) ps bs)"
    if "rl_inv bs" "\<forall>(ns, r) \<in> set ps. 0 \<le> r" for ps bs
    using that
    by (induction ps arbitrary: bs) (simp_all add: rl_inv_update bucket_inv_def split_beta)
  show ?thesis unfolding rl_Init_def by (rule step) (use assms in \<open>simp_all add: rl_inv_def\<close>)
qed

section \<open>The contract of a token source\<close>

text \<open>
  What the changeset executor and discovery rely on when they ask for tokens: a grant never
  exceeds the request, and granting keeps the source's invariant.
\<close>

locale token_source =
  fixes request :: "'c \<Rightarrow> 'l \<Rightarrow> string \<Rightarrow> int \<Rightarrow> (int \<times> 'l) option"
    and src_inv :: "'l \<Rightarrow> bool"
  assumes request_bounds:
      "src_inv l \<Longrightarrow> 0 \<le> n \<Longrightarrow> request c l ns n = Some (g, l') \<Longrightarrow> 0 \<le> g \<and> g \<le> n"
    and request_inv: "src_inv l \<Longrightarrow> 0 \<le> n \<Longrightarrow> request c l ns n = Some (g, l') \<Longrightarrow> src_inv l'"
begin

text \<open>A sequence of requests on one namespace, with the grants it collects.\<close>

fun request_seq :: "string \<Rightarrow> ('c \<times> int) list \<Rightarrow> 'l \<Rightarrow> (int list \<times> 'l) option" where
  "request_seq ns [] l = Some ([], l)"
| "request_seq ns ((c, n) # rs) l =
     (case request c l ns n of
        None \<Rightarrow> None
      | Some (g, l') \<Rightarrow> map_option (\<lambda>(gs, l''). (g # gs, l'')) (request_seq ns rs l'))"

lemma request_seq_bounds:
  assumes "src_inv l" "\<forall>(c, n) \<in> set rs. 0 \<le> n" "request_seq ns rs l = Some (gs, l')"
  shows "src_inv l' \<and> list_all2 (\<lambda>g (c, n). 0 \<le> g \<and> g \<le> n) gs rs"
  using assms
proof (induction rs arbitrary: l gs)
  case Nil
  then show ?case by simp
next
  case (Cons r rs)
  obtain c n where r: "r = (c, n)" by (cases r)
  from Cons.prems(3) obtain g l1 gs' where g: "request c l ns n = Some (g, l1)"
    and rest: "request_seq ns rs l1 = Some (gs', l')" and gs: "gs = g # gs'"
    by (auto simp: r split: option.splits)
  have n: "0 \<le> n" using Cons.prems(2) r by simp
  have "src_inv l' \<and> list_all2 (\<lambda>g (c, n). 0 \<le> g \<and> g \<le> n) gs' rs"
    using Cons.IH [OF request_inv [OF Cons.prems(1) n g] _ rest] Cons.prems(2) by simp
  moreover have "0 \<le> g \<and> g \<le> n" by (rule request_bounds [OF Cons.prems(1) n g])
  ultimately show ?case by (simp add: gs r)
qed

end

interpretation rl: token_source RequestTokens rl_inv
  by unfold_locales (use RequestTokens_bounds rl_inv_RequestTokens in blast)+

section \<open>How much a bucket grants in one second\<close>

text \<open>The tokens a bucket can still grant while its clock readings stay in a window that ends at
  \<open>tb\<close>: a refill is possible only as long as the last one is more than a second before.\<close>

definition budget :: "go_time \<Rightarrow> TokenBucket \<Rightarrow> int" where
  "budget tb b = tb_Tokens b + (if tb - tb_LastRefill b > time_Second then tb_Capacity b else 0)"

lemma budget_step:
  assumes "bucket_inv b" "ta \<le> now'" "now \<le> tb" "tb \<le> ta + time_Second"
  shows "n + budget tb (consume n (replenish now now' b)) \<le> budget tb b"
  using assms by (auto simp: budget_def consume_def replenish_def bucket_inv_def)

lemma request_seq_budget:
  assumes "rl_inv l" "rl.request_seq ns rs l = Some (gs, l')" "map_of l ns = Some b"
    and "\<forall>((now, now'), n) \<in> set rs. 0 \<le> n \<and> ta \<le> now' \<and> now \<le> tb" "tb \<le> ta + time_Second"
  shows "sum_list gs \<le> budget tb b"
  using assms(1-4)
proof (induction rs arbitrary: l gs b)
  case Nil
  then have "bucket_inv b" by (simp add: rl_inv_def)
  then show ?case using Nil by (auto simp: budget_def bucket_inv_def)
next
  case (Cons r rs)
  obtain c n where r: "r = (c, n)" by (cases r)
  from Cons.prems(2) obtain g l1 gs' where g: "RequestTokens c l ns n = Some (g, l1)"
    and rest: "rl.request_seq ns rs l1 = Some (gs', l')" and gs: "gs = g # gs'"
    by (auto simp: r split: option.splits)
  have n: "0 \<le> n" and win: "ta \<le> snd c" "fst c \<le> tb"
    using Cons.prems(4) r by (auto split: prod.splits)
  let ?b1 = "consume g (replenish (fst c) (snd c) b)"
  from g have l1: "map_of l1 ns = Some ?b1"
    by (rule RequestTokens_SomeE) (simp add: Cons.prems(3))
  have "sum_list gs' \<le> budget tb ?b1"
    using Cons.IH [OF rl_inv_RequestTokens [OF Cons.prems(1) n g] rest l1] Cons.prems(4) by simp
  moreover have "g + budget tb ?b1 \<le> budget tb b"
    using Cons.prems(1,3) win assms(5) by (intro budget_step) (auto simp: rl_inv_def)
  ultimately show ?case by (simp add: gs)
qed

section \<open>Properties\<close>

text \<open>C30: the rate limit holds. In any sequence of token requests for one namespace whose clock
  readings lie within one second, the limiter grants at most twice the namespace's capacity in
  total (a full bucket plus one refill), whatever amounts are requested.\<close>

theorem rate_limit_window:
  assumes "rl_inv l" "rl.request_seq ns rs l = Some (gs, l')" "map_of l ns = Some b"
    and "\<forall>((now, now'), n) \<in> set rs. 0 \<le> n \<and> ta \<le> now' \<and> now \<le> ta + time_Second"
  shows "sum_list gs \<le> 2 * tb_Capacity b"
proof -
  have "bucket_inv b" using assms(1,3) by (simp add: rl_inv_def)
  moreover have "sum_list gs \<le> budget (ta + time_Second) b"
    by (rule request_seq_budget [OF assms(1,2,3,4)]) simp
  ultimately show ?thesis by (auto simp: budget_def bucket_inv_def split: if_splits)
qed

theorem rate_limit_window_witness:
  "\<exists>gs l'. rl.request_seq ''AWS''
       [((2000000001, 2000000002), 3), ((2000000003, 2000000003), 5)]
       (rl_Init 0 [(''AWS'', 4)]) = Some (gs, l') \<and> sum_list gs \<le> 2 * 4 \<and> gs = [3, 1]"
proof -
  let ?l = "rl_Init 0 [(''AWS'', 4)]"
  let ?b = "\<lparr>tb_Tokens = 4, tb_Capacity = 4, tb_LastRefill = 0\<rparr>"
  let ?rs = "[((2000000001, 2000000002), 3), ((2000000003, 2000000003), 5)]"
  obtain gs l' where run: "rl.request_seq ''AWS'' ?rs ?l = Some (gs, l')" and gs: "gs = [3, 1]"
    by (simp add: rl_Init_def RequestTokens_def Let_def replenish_def consume_def util_Min_def
        time_Second_def)
  have "sum_list gs \<le> 2 * tb_Capacity ?b"
    by (rule rate_limit_window [OF _ run, where ta = 2000000000])
      (rule rl_inv_Init, simp, simp add: rl_Init_def, simp add: time_Second_def)
  then show ?thesis using run gs by auto
qed

text \<open>a token request is served exactly. The grant is the minimum of the request and the
  tokens left after a possible refill, never negative and never more than requested, the granted
  tokens leave the bucket, and every other bucket is untouched.\<close>

theorem RequestTokens_functional:
  assumes "rl_inv l" "0 \<le> N" "map_of l ns = Some b"
  shows "\<exists>n l'. RequestTokens (now, now') l ns N = Some (n, l') \<and>
    n = min N (tb_Tokens (replenish now now' b)) \<and> 0 \<le> n \<and> rl_inv l' \<and>
    map_of l' = (map_of l)(ns \<mapsto> (replenish now now' b)
      \<lparr>tb_Tokens := tb_Tokens (replenish now now' b) - n\<rparr>)"
proof -
  let ?b1 = "replenish now now' b"
  let ?n = "util_Min N (tb_Tokens ?b1)"
  let ?l' = "AList.update ns (consume ?n ?b1) l"
  have run: "RequestTokens (now, now') l ns N = Some (?n, ?l')"
    using assms(3) by (simp add: RequestTokens_def Let_def)
  moreover have "?n = min N (tb_Tokens ?b1)" by (simp add: util_Min_def min_def)
  moreover have "0 \<le> ?n" using RequestTokens_bounds [OF assms(1,2) run] by simp
  moreover have "rl_inv ?l'" by (rule rl_inv_RequestTokens [OF assms(1,2) run])
  ultimately show ?thesis by (auto simp: update_conv' consume_def)
qed

theorem RequestTokens_functional_witness:
  "\<exists>n l'. RequestTokens (5, 5) (rl_Init 0 [(''AWS'', 4)]) ''AWS'' 9 = Some (n, l') \<and> n = 4"
proof -
  let ?b = "\<lparr>tb_Tokens = 4, tb_Capacity = 4, tb_LastRefill = 0\<rparr>"
  have "rl_inv (rl_Init 0 [(''AWS'', 4)])" by (rule rl_inv_Init) simp
  moreover have "map_of (rl_Init 0 [(''AWS'', 4)]) ''AWS'' = Some ?b" by (simp add: rl_Init_def)
  ultimately obtain n l' where "RequestTokens (5, 5) (rl_Init 0 [(''AWS'', 4)]) ''AWS'' 9 = Some (n, l')"
    and "n = min 9 (tb_Tokens (replenish 5 5 ?b))"
    using RequestTokens_functional [of _ 9 "''AWS''" ?b 5 5] by fastforce
  then show ?thesis by (simp add: replenish_def time_Second_def)
qed

end
