(* ===== verification/Changeset_Executor.thy ===== *)
theory Changeset_Executor
  imports Changeset_Execution Rate_Limiter
begin

text \<open>
  \<^verbatim>\<open>internal/metastructure/changeset/changeset_executor.go\<close>: the actor that drives a
  changeset. Its handlers are functions of the state, the message and the answers of the actors it
  calls (\<open>exec_env\<close>); what they send is a list of outputs. \<open>None\<close> is a panic.
\<close>

section \<open>Definitions\<close>

datatype exec_state_name =
    StateNotStarted | StateProcessing | StateFinishedSuccessfully | StateFinishedWithError

datatype ChangesetState = ChangeSetStateFinishedSuccessfully | ChangeSetStateFinishedWithErrors

record ChangesetData =
  cd_changeset :: Changeset
  cd_requestedBy :: nat

text \<open>
  The answers of the environment: whether the resolve cache could be started, the tokens the rate
  limiter grants (\<open>None\<close> for a failed call), whether a resource updater could be spawned and
  sent its start message, the clock, and the PID of the node.
\<close>

record exec_env =
  env_EnsureResolveCache :: bool
  env_RequestTokens :: "string \<Rightarrow> int \<Rightarrow> int option"
  env_EnsureResourceUpdater :: "ResourceUpdate \<Rightarrow> bool"
  env_SendStart :: "ResourceUpdate \<Rightarrow> bool"
  env_TimeNow :: go_time
  env_NodePID :: nat

datatype exec_out =
    OutEnsureResolveCache string
  | OutRequestTokens string int
  | OutEnsureResourceUpdater FormaeURI OperationType string
  | OutStartResourceUpdate ResourceUpdate string
  | OutMarkResourcesAsFailed string "FormaeURI list" go_time
  | OutMarkFormaCommandAsComplete string
  | OutShutdownResolveCache string
  | OutShutdownSelf
  | OutChangesetCompleted nat string ChangesetState
  | OutResumeTimeout string

fun startResourceUpdates ::
  "exec_env \<Rightarrow> ResourceUpdate list \<Rightarrow> string \<Rightarrow> bool \<times> exec_out list" where
  "startResourceUpdates env [] commandID = (True, [])"
| "startResourceUpdates env (update # updates) commandID =
     (let ensure = OutEnsureResourceUpdater (ru_URI update) (ru_Operation update) commandID;
          send = OutStartResourceUpdate update commandID
      in if \<not> env_EnsureResourceUpdater env update then (False, [ensure])
         else if \<not> env_SendStart env update then (False, [ensure])
         else let (ok, outs) = startResourceUpdates env updates commandID
              in (ok, ensure # send # outs))"

text \<open>
  The loop of \<^verbatim>\<open>resume\<close> over the available updates: the first component of the result
  is false when it returned early with an error, the third is the flag \<^verbatim>\<open>finished\<close>.
\<close>

fun resume_loop ::
  "range_orders \<Rightarrow> exec_env \<Rightarrow> (string \<times> int) list \<Rightarrow> Changeset \<Rightarrow> bool \<Rightarrow>
    (bool \<times> Changeset \<times> bool \<times> exec_out list) option" where
  "resume_loop ord env [] c finished = Some (True, c, finished, [])"
| "resume_loop ord env ((namespace, updates) # rest) c finished =
     (let req = OutRequestTokens namespace updates
      in case env_RequestTokens env namespace updates of
           None \<Rightarrow> Some (False, c, finished, [req])
         | Some n \<Rightarrow>
             (let finished' = (if n < updates then False else finished)
              in case GetExecutableUpdates ord namespace n c of
                   None \<Rightarrow> None
                 | Some (us, c1) \<Rightarrow>
                     (let (ok, outs) = startResourceUpdates env us (cs_CommandID c1)
                      in if \<not> ok then Some (False, c1, finished', req # outs)
                         else map_option (\<lambda>(ok, c2, fin, outs2). (ok, c2, fin, req # outs @ outs2))
                                (resume_loop ord env rest c1 finished'))))"

type_synonym handler_result = "(exec_state_name \<times> ChangesetData \<times> exec_out list) option"

definition resume :: "range_orders \<Rightarrow> exec_env \<Rightarrow> ChangesetData \<Rightarrow> handler_result" where
  "resume ord env data =
     Option.bind (AvailableExecutableUpdates ord (cd_changeset data)) (\<lambda>available.
       map_option (\<lambda>(ok, c, finished, outs).
           if \<not> ok then (StateFinishedWithError, data\<lparr>cd_changeset := c\<rparr>, outs)
           else (StateProcessing, data\<lparr>cd_changeset := c\<rparr>,
             outs @ (if finished then [] else [OutResumeTimeout (cs_CommandID c)])))
         (resume_loop ord env (range_map (ord SiteResume) available) (cd_changeset data) True))"

definition start :: "range_orders \<Rightarrow> exec_env \<Rightarrow> ChangesetData \<Rightarrow> Changeset \<Rightarrow> handler_result" where
  "start ord env data message =
     (let data' = data\<lparr>cd_changeset := message\<rparr>;
          out = OutEnsureResolveCache (cs_CommandID message)
      in if \<not> env_EnsureResolveCache env then Some (StateFinishedWithError, data', [out])
         else if IsComplete (cd_changeset data') then Some (StateFinishedWithError, data', [out])
         else map_option (\<lambda>(s, d, outs). (s, d, out # outs)) (resume ord env data'))"

text \<open>The first update with the finished URI that is in progress, as a group and an index.\<close>

definition find_finished :: "range_orders \<Rightarrow> Changeset \<Rightarrow> FormaeURI \<Rightarrow> (FormaeURI \<times> nat) option" where
  "find_finished ord c uri =
     (let hit = (\<lambda>u. ru_URI u = uri \<and> ru_State u = ResourceUpdateStateInProgress)
      in case find (\<lambda>k. list_ex hit (upds (cs_heap c) k)) (ord SiteFinished (cs_keys c)) of
           None \<Rightarrow> None
         | Some k \<Rightarrow> Some (k, length (takeWhile (\<lambda>u. \<not> hit u) (upds (cs_heap c) k))))"

definition set_state_at :: "FormaeURI \<Rightarrow> nat \<Rightarrow> ResourceUpdateState \<Rightarrow> Changeset \<Rightarrow> Changeset" where
  "set_state_at k i st c = with_heap (heap_upd k (\<lambda>g. g\<lparr>rug_Updates :=
     (rug_Updates g)[i := (rug_Updates g ! i)\<lparr>ru_State := st\<rparr>]\<rparr>) (cs_heap c)) c"

definition resourceUpdateFinished ::
  "range_orders \<Rightarrow> exec_env \<Rightarrow> exec_state_name \<Rightarrow> ChangesetData \<Rightarrow> FormaeURI \<Rightarrow> ResourceUpdateState \<Rightarrow>
    handler_result" where
  "resourceUpdateFinished ord env state data uri st =
     (case find_finished ord (cd_changeset data) uri of
        None \<Rightarrow> Some (state, data, [])
      | Some (k, i) \<Rightarrow>
          (let c1 = set_state_at k i st (cd_changeset data);
               finishedUpdate = upds (cs_heap c1) k ! i
           in case UpdatePipeline finishedUpdate c1 of
                None \<Rightarrow> None
              | Some (c2, Inl _) \<Rightarrow> Some (StateFinishedWithError, data\<lparr>cd_changeset := c2\<rparr>, [])
              | Some (c2, Inr cascadingFailures) \<Rightarrow>
                  (let outs = (if length cascadingFailures > 0
                         then [OutMarkResourcesAsFailed (cs_CommandID c2)
                                 (map ru_URI cascadingFailures) (env_TimeNow env)] else []);
                       data' = data\<lparr>cd_changeset := c2\<rparr>
                   in if IsComplete c2 then Some (StateFinishedSuccessfully, data', outs)
                      else map_option (\<lambda>(s, d, outs'). (s, d, outs @ outs'))
                             (resume ord env data'))))"

definition onStateChange :: "exec_env \<Rightarrow> exec_state_name \<Rightarrow> ChangesetData \<Rightarrow> exec_out list" where
  "onStateChange env newState data =
     (let cid = cs_CommandID (cd_changeset data)
      in if newState = StateFinishedSuccessfully \<or> newState = StateFinishedWithError
         then [OutMarkFormaCommandAsComplete cid, OutShutdownResolveCache cid, OutShutdownSelf] @
              (if cd_requestedBy data \<noteq> env_NodePID env
               then [OutChangesetCompleted (cd_requestedBy data) cid
                       (if newState = StateFinishedWithError then ChangeSetStateFinishedWithErrors
                        else ChangeSetStateFinishedSuccessfully)]
               else [])
         else [])"

section \<open>The executor as a state machine\<close>

text \<open>
  The state of the actor: its state name and data, whether a resume timer is pending, and all it
  has sent. A message runs the handler registered for the current state; entering a new state runs
  \<^verbatim>\<open>onStateChange\<close>. Other messages are not handled.
\<close>

record executor =
  x_state :: exec_state_name
  x_data :: ChangesetData
  x_timer :: bool
  x_sent :: "exec_out list"

datatype exec_msg = MsgStart Changeset | MsgResume | MsgResourceUpdateFinished FormaeURI ResourceUpdateState

fun handle :: "range_orders \<Rightarrow> exec_env \<Rightarrow> executor \<Rightarrow> exec_msg \<Rightarrow> handler_result option" where
  "handle ord env x (MsgStart c) =
     (if x_state x = StateNotStarted then Some (start ord env (x_data x) c) else None)"
| "handle ord env x MsgResume =
     (if x_state x = StateProcessing then Some (resume ord env (x_data x)) else None)"
| "handle ord env x (MsgResourceUpdateFinished uri st) =
     (if x_state x = StateProcessing
      then Some (resourceUpdateFinished ord env (x_state x) (x_data x) uri st) else None)"

definition is_timeout :: "exec_out \<Rightarrow> bool" where
  "is_timeout out \<longleftrightarrow> (case out of OutResumeTimeout _ \<Rightarrow> True | _ \<Rightarrow> False)"

fun is_resume :: "exec_msg \<Rightarrow> bool" where
  "is_resume MsgResume = True"
| "is_resume _ = False"

definition enter ::
  "exec_env \<Rightarrow> executor \<Rightarrow> exec_msg \<Rightarrow> exec_state_name \<times> ChangesetData \<times> exec_out list \<Rightarrow> executor" where
  "enter env x msg = (\<lambda>(s, d, outs).
     \<lparr>x_state = s, x_data = d,
      x_timer = (list_ex is_timeout outs \<or> (x_timer x \<and> \<not> is_resume msg)),
      x_sent = x_sent x @ outs @ (if s \<noteq> x_state x then onStateChange env s d else [])\<rparr>)"


section \<open>Starting a batch\<close>

text \<open>The operations whose updaters were sent a start message.\<close>

fun started_ops :: "exec_out list \<Rightarrow> FormaeURI list" where
  "started_ops [] = []"
| "started_ops (OutStartResourceUpdate u _ # outs) = op_URI u # started_ops outs"
| "started_ops (_ # outs) = started_ops outs"

lemma started_ops_append: "started_ops (xs @ ys) = started_ops xs @ started_ops ys"
  by (induction xs rule: started_ops.induct) simp_all

definition is_complete_msg :: "exec_out \<Rightarrow> bool" where
  "is_complete_msg out \<longleftrightarrow> (case out of OutMarkFormaCommandAsComplete _ \<Rightarrow> True | _ \<Rightarrow> False)"

lemma startResourceUpdates_facts:
  assumes "startResourceUpdates env us cid = (ok, outs)"
  shows "prefix (started_ops outs) (map op_URI us)" "ok \<Longrightarrow> started_ops outs = map op_URI us"
    "filter is_complete_msg outs = []" "\<not> list_ex is_timeout outs"
proof -
  have "prefix (started_ops outs) (map op_URI us) \<and> (ok \<longrightarrow> started_ops outs = map op_URI us) \<and>
      filter is_complete_msg outs = [] \<and> \<not> list_ex is_timeout outs"
    using assms
    by (induction us arbitrary: outs)
      (auto simp: Let_def is_complete_msg_def is_timeout_def split: if_splits prod.splits)
  then show "prefix (started_ops outs) (map op_URI us)" "ok \<Longrightarrow> started_ops outs = map op_URI us"
    "filter is_complete_msg outs = []" "\<not> list_ex is_timeout outs" by blast+
qed

lemma hand_out_ready:
  assumes ord: "range_orders ord" and wf: "wf_changeset c"
  obtains us c1 where "GetExecutableUpdates ord ns n c = Some (us, c1)" "cs_step c (HandOut ns n us) c1"
    "wf_changeset c1" "cs_keys c1 = cs_keys c" "\<forall>ns' k. ready c1 ns' k \<longrightarrow> ready c ns' k"
    "\<forall>ns' k. ns' \<noteq> ns \<longrightarrow> ready c1 ns' k = ready c ns' k" "\<forall>k. running c k \<longrightarrow> running c1 k"
    "\<forall>k. ready c ns k \<and> ready_count c (cs_keys c) ns \<le> n \<longrightarrow> running c1 k"
    "cs_CommandID c1 = cs_CommandID c"
proof -
  let ?f = "filter (ready c ns) (ord SiteExecutable (cs_keys c))"
  let ?sel = "take (nat n) ?f"
  have wf': "wf_except {} c" using wf by (simp add: wf_changeset_def)
  obtain c1 where c1: "GetExecutableUpdates ord ns n c = Some (sort_key ru_URI (map (started_of (cs_heap c)) ?sel), c1)"
    "started (set ?sel) c c1" "wf_except {} c1"
    using GetExecutableUpdates_wf [OF ord wf', of ns n] by blast
  have u: "upds (cs_heap c1) = (\<lambda>k. if k \<in> set ?sel then map start_update (upds (cs_heap c) k) else upds (cs_heap c) k)"
    and up: "up (cs_heap c1) = up (cs_heap c)" and keys: "cs_keys c1 = cs_keys c"
    using c1(2) by (simp_all add: started_def)
  have rsel: "ready c ns k" if "k \<in> set ?sel" for k using in_set_takeD [OF that] by simp
  have nsel: "\<not> ready c1 ns' k" if "k \<in> set ?sel" for k ns'
    using that rsel [OF that] by (auto simp: ready_def u split: list.splits)
  have same: "ready c1 ns' k = ready c ns' k" if "k \<notin> set ?sel" for k ns'
    using that by (simp add: ready_def u up)
  have all: "set ?sel = {k. ready c ns k}" if "ready_count c (cs_keys c) ns \<le> n"
  proof -
    have "ready_count c (ord SiteExecutable (cs_keys c)) ns \<le> n"
      using that ready_count_perm [OF range_ordersD(1) [OF ord]] by simp
    then have "?sel = ?f" unfolding ready_count_def by simp
    then show ?thesis using ready_live [OF wf'] by (auto simp: range_ordersD [OF ord])
  qed
  have selr: "running c1 k" if "k \<in> set ?sel" for k
    using that rsel [OF that] by (auto simp: running_def ready_def u split: list.splits)
  show ?thesis
  proof (rule that)
    show "GetExecutableUpdates ord ns n c = Some (sort_key ru_URI (map (started_of (cs_heap c)) ?sel), c1)" by (fact c1(1))
    show "cs_step c (HandOut ns n (sort_key ru_URI (map (started_of (cs_heap c)) ?sel))) c1"
      by (rule cs_step.hand_out [OF ord c1(1)])
    show "wf_changeset c1" using c1(3) by (simp add: wf_changeset_def)
    show "cs_keys c1 = cs_keys c" by (fact keys)
    show "\<forall>ns' k. ready c1 ns' k \<longrightarrow> ready c ns' k" using nsel same by blast
    have "ready c1 ns' k = ready c ns' k" if "ns' \<noteq> ns" for ns' k
    proof (cases "k \<in> set ?sel")
      case True
      then have "\<not> ready c ns' k" using rsel [OF True] that by (auto simp: ready_def split: list.splits)
      then show ?thesis using nsel [OF True] by simp
    qed (rule same)
    then show "\<forall>ns' k. ns' \<noteq> ns \<longrightarrow> ready c1 ns' k = ready c ns' k" by blast
    show "\<forall>k. running c k \<longrightarrow> running c1 k"
      by (auto simp: running_def u list_ex_iff)
    show "\<forall>k. ready c ns k \<and> ready_count c (cs_keys c) ns \<le> n \<longrightarrow> running c1 k"
      using all selr by blast
    show "cs_CommandID c1 = cs_CommandID c" using c1(2) by (simp add: started_def)
  qed
qed


text \<open>
  A batch: the executor hands out updates along the run \<open>hs\<close> of the changeset and sends start
  messages for some of them, in that order.
\<close>

definition batch :: "Changeset \<Rightarrow> cs_event list \<Rightarrow> exec_out list \<Rightarrow> Changeset \<Rightarrow> bool" where
  "batch c hs outs c' \<longleftrightarrow> cs.run c hs c' \<and> wf_changeset c' \<and> cs_keys c' = cs_keys c \<and>
     cs_CommandID c' = cs_CommandID c \<and> subseq (started_ops outs) (handed_out hs) \<and>
     filter is_complete_msg outs = [] \<and>
     (\<forall>ns k. ready c' ns k \<longrightarrow> ready c ns k) \<and> (\<forall>k. running c k \<longrightarrow> running c' k)"

lemma handed_out_append: "handed_out (xs @ ys) = handed_out xs @ handed_out ys"
  by (induction xs rule: handed_out.induct) simp_all

lemma batch_empty: "wf_changeset c \<Longrightarrow> started_ops outs = [] \<Longrightarrow> filter is_complete_msg outs = [] \<Longrightarrow>
    batch c [] outs c"
  by (simp add: batch_def cs.run_nil)

lemma batch_trans:
  assumes "batch c hs outs c1" "batch c1 hs' outs' c2"
  shows "batch c (hs @ hs') (outs @ outs') c2"
proof -
  have "cs.run c (hs @ hs') c2" using assms unfolding batch_def cs.run_append by blast
  moreover have "subseq (started_ops (outs @ outs')) (handed_out (hs @ hs'))"
    using assms unfolding batch_def started_ops_append handed_out_append by (blast intro: list_emb_append_mono)
  ultimately show ?thesis using assms by (simp add: batch_def)
qed

lemma batch_single:
  assumes "cs_step c (HandOut ns n us) c1" "wf_changeset c1" "cs_keys c1 = cs_keys c"
    "cs_CommandID c1 = cs_CommandID c" "\<forall>ns k. ready c1 ns k \<longrightarrow> ready c ns k"
    "\<forall>k. running c k \<longrightarrow> running c1 k" "startResourceUpdates env us cid = (ok, outs)"
  shows "batch c [HandOut ns n us] (OutRequestTokens ns m # outs) c1"
proof -
  have "subseq (started_ops outs) (map op_URI us)"
    using startResourceUpdates_facts(1) [OF assms(7)] by (rule prefix_imp_subseq)
  moreover have "cs.run c [HandOut ns n us] c1" by (rule cs.run_cons [OF assms(1) cs.run_nil])
  ultimately show ?thesis
    using assms(2-6) startResourceUpdates_facts(3) [OF assms(7)] by (simp add: batch_def is_complete_msg_def)
qed

lemma resume_loop_fin:
  "resume_loop ord env avail c f = Some (ok, c', fin, outs) \<Longrightarrow> fin \<longrightarrow> f"
proof (induction avail arbitrary: c f outs)
  case (Cons a avail)
  then show ?case
    by (cases a) (fastforce simp: Let_def split: option.splits prod.splits if_splits)
qed simp

lemma resume_loop_ok:
  assumes ord: "range_orders ord" and "wf_changeset c" "distinct (map fst avail)"
    "\<forall>(ns, n) \<in> set avail. ready_count c (cs_keys c) ns \<le> n"
  shows "\<exists>ok c' fin outs hs. resume_loop ord env avail c f = Some (ok, c', fin, outs) \<and>
    batch c hs outs c' \<and> \<not> list_ex is_timeout outs \<and>
    (ok \<and> fin \<longrightarrow> (\<forall>ns \<in> fst ` set avail. \<forall>k. ready c ns k \<longrightarrow> running c' k))"
  using assms(2-4)
proof (induction avail arbitrary: c f)
  case Nil
  then show ?case using batch_empty [of c "[]"] by auto
next
  case (Cons a avail)
  obtain ns m where a: "a = (ns, m)" by (cases a)
  show ?case
  proof (cases "env_RequestTokens env ns m")
    case None
    then have "resume_loop ord env (a # avail) c f = Some (False, c, f, [OutRequestTokens ns m])"
      by (simp add: a)
    then show ?thesis
      using batch_empty [OF Cons.prems(1), of "[OutRequestTokens ns m]"]
      by (auto simp: is_complete_msg_def is_timeout_def)
  next
    case (Some n)
    obtain us c1 where ho: "GetExecutableUpdates ord ns n c = Some (us, c1)" "cs_step c (HandOut ns n us) c1"
      "wf_changeset c1" "cs_keys c1 = cs_keys c" "\<forall>ns' k. ready c1 ns' k \<longrightarrow> ready c ns' k"
      "\<forall>ns' k. ns' \<noteq> ns \<longrightarrow> ready c1 ns' k = ready c ns' k" "\<forall>k. running c k \<longrightarrow> running c1 k"
      "\<forall>k. ready c ns k \<and> ready_count c (cs_keys c) ns \<le> n \<longrightarrow> running c1 k"
      "cs_CommandID c1 = cs_CommandID c"
      by (rule hand_out_ready [OF ord Cons.prems(1), of ns n])
    obtain ok outs where st: "startResourceUpdates env us (cs_CommandID c1) = (ok, outs)" by fastforce
    have b: "batch c [HandOut ns n us] (OutRequestTokens ns m # outs) c1"
      by (rule batch_single [OF ho(2,3,4,9) ho(5) ho(7) st])
    have nt: "\<not> list_ex is_timeout (OutRequestTokens ns m # outs)"
      using startResourceUpdates_facts(4) [OF st] by (simp add: is_timeout_def)
    let ?f = "if n < m then False else f"
    show ?thesis
    proof (cases ok)
      case False
      then have "resume_loop ord env (a # avail) c f = Some (False, c1, ?f, OutRequestTokens ns m # outs)"
        using Some ho(1) st by (simp add: a)
      then show ?thesis using b nt by blast
    next
      case True
      have cnt: "\<forall>(ns', n) \<in> set avail. ready_count c1 (cs_keys c1) ns' \<le> n"
      proof (clarify)
        fix ns' n' assume e: "(ns', n') \<in> set avail"
        then have "ns' \<noteq> ns" using Cons.prems(2) a by force
        then have "ready c1 ns' = ready c ns'" using ho(6) by blast
        then have "ready_count c1 (cs_keys c1) ns' = ready_count c (cs_keys c) ns'"
          using ho(4) by (simp add: ready_count_def)
        then show "ready_count c1 (cs_keys c1) ns' \<le> n'" using Cons.prems(3) e by auto
      qed
      obtain ok2 c2 fin2 outs2 hs2 where r: "resume_loop ord env avail c1 ?f = Some (ok2, c2, fin2, outs2)"
        and b2: "batch c1 hs2 outs2 c2" and nt2: "\<not> list_ex is_timeout outs2"
        and d: "ok2 \<and> fin2 \<longrightarrow> (\<forall>ns \<in> fst ` set avail. \<forall>k. ready c1 ns k \<longrightarrow> running c2 k)"
        using Cons.IH [OF ho(3) _ cnt, of ?f] Cons.prems(2) by fastforce
      have res: "resume_loop ord env (a # avail) c f =
          Some (ok2, c2, fin2, (OutRequestTokens ns m # outs) @ outs2)"
        using Some ho(1) st True r by (simp add: a)
      have fin: "fin2 \<longrightarrow> ?f" using resume_loop_fin [OF r] by blast
      have "running c2 k" if ok: "ok2 \<and> fin2" and k: "x \<in> fst ` set (a # avail)" "ready c x k" for x k
      proof (cases "x = ns")
        case True
        have "ready_count c (cs_keys c) ns \<le> m" using Cons.prems(3) a by simp
        with fin ok have "ready_count c (cs_keys c) ns \<le> n" by (simp split: if_splits)
        then have "running c1 k" using ho(8) k(2) True by blast
        then show ?thesis using b2 by (simp add: batch_def)
      next
        case False
        then have "x \<in> fst ` set avail" "ready c1 x k" using k ho(6) a by auto
        then show ?thesis using d ok by blast
      qed
      then show ?thesis using res batch_trans [OF b b2] nt nt2 by (auto simp: res)
    qed
  qed
qed


section \<open>The handlers\<close>

lemma wf_source_running_or_ready:
  assumes "wf_changeset c" "cs_keys c \<noteq> []"
  shows "(\<exists>k. running c k) \<or> (\<exists>ns k. ready c ns k)"
proof -
  have wf: "wf_except {} c" using assms(1) by (simp add: wf_changeset_def)
  obtain k where "k \<in> set (cs_keys c)" "up (cs_heap c) k = []" using wf_has_source [OF wf assms(2)] by blast
  from wf_running_or_ready [OF wf this] show ?thesis by blast
qed

text \<open>
  What a call of \<^verbatim>\<open>resume\<close> guarantees: a batch, and when the executor goes on processing, an
  update is running or the resume timer is set.
\<close>

definition resumed :: "ChangesetData \<Rightarrow> cs_event list \<Rightarrow> exec_state_name \<times> ChangesetData \<times> exec_out list \<Rightarrow> bool" where
  "resumed data hs = (\<lambda>(s, d, outs). batch (cd_changeset data) hs outs (cd_changeset d) \<and>
     cd_requestedBy d = cd_requestedBy data \<and> (s = StateProcessing \<or> s = StateFinishedWithError) \<and>
     (s = StateProcessing \<longrightarrow> (\<exists>k. running (cd_changeset d) k) \<or> list_ex is_timeout outs))"

lemma fst_range_map: "map fst (range_map ord m) = filter (\<lambda>k. map_of m k \<noteq> None) (ord (map fst m))"
proof -
  have "map fst (concat (map (\<lambda>k. case f k of None \<Rightarrow> [] | Some v \<Rightarrow> [(k, v)]) ks)) = filter (\<lambda>k. f k \<noteq> None) ks"
    for f :: "string \<Rightarrow> 'a option" and ks
    by (induction ks) (auto split: option.splits)
  then show ?thesis unfolding range_map_def by simp
qed

lemma resume_ok:
  assumes ord: "range_orders ord" and wf: "wf_changeset (cd_changeset data)" and ne: "cs_keys (cd_changeset data) \<noteq> []"
  shows "\<exists>r hs. resume ord env data = Some r \<and> resumed data hs r"
proof -
  let ?c = "cd_changeset data"
  have wf': "wf_except {} ?c" using wf by (simp add: wf_changeset_def)
  obtain m where m: "AvailableExecutableUpdates ord ?c = Some m" "distinct (map fst m)"
    "\<And>ns. map_of m ns = (if ready_count ?c (cs_keys ?c) ns = 0 then None else Some (ready_count ?c (cs_keys ?c) ns))"
    using AvailableExecutableUpdates_wf [OF ord wf'] by blast
  let ?av = "range_map (ord SiteResume) m"
  have set_av: "set ?av = {(k, v). map_of m k = Some v}"
    by (rule set_range_map) (use ord in \<open>simp add: range_orders_def\<close>)
  have dist: "distinct (map fst ?av)"
    unfolding fst_range_map using range_ordersD(3) [OF ord] m(2) by simp
  have cnt: "\<forall>(ns, n) \<in> set ?av. ready_count ?c (cs_keys ?c) ns \<le> n"
    unfolding set_av using m(3) by (auto split: if_splits)
  obtain ok c' fin outs hs where r: "resume_loop ord env ?av ?c True = Some (ok, c', fin, outs)"
    and b: "batch ?c hs outs c'" and nt: "\<not> list_ex is_timeout outs"
    and d: "ok \<and> fin \<longrightarrow> (\<forall>ns \<in> fst ` set ?av. \<forall>k. ready ?c ns k \<longrightarrow> running c' k)"
    using resume_loop_ok [OF ord wf dist cnt] by blast
  have ns: "ns \<in> fst ` set ?av" if "ready ?c ns k" for ns k
  proof -
    have "k \<in> set (filter (ready ?c ns) (cs_keys ?c))" using that ready_live [OF wf' that] by simp
    then have "ready_count ?c (cs_keys ?c) ns \<noteq> 0"
      unfolding ready_count_def by (cases "filter (ready ?c ns) (cs_keys ?c)") auto
    then show ?thesis unfolding set_av using m(3) [of ns] by (auto intro!: image_eqI [where x = "(ns, _)"])
  qed
  have run: "\<exists>k. running c' k" if "ok \<and> fin"
  proof -
    have keep: "\<And>k. running ?c k \<Longrightarrow> running c' k" using b by (simp add: batch_def)
    have new: "\<And>ns k. ready ?c ns k \<Longrightarrow> running c' k" using d that ns by blast
    show ?thesis using wf_source_running_or_ready [OF wf ne] keep new by blast
  qed
  let ?outs = "if \<not> ok then outs else outs @ (if fin then [] else [OutResumeTimeout (cs_CommandID c')])"
  have "started_ops [OutResumeTimeout cid] = []" "filter is_complete_msg [OutResumeTimeout cid] = []" for cid
    by (simp_all add: is_complete_msg_def)
  then have b': "batch ?c hs ?outs c'"
    using b by (simp add: batch_def started_ops_append)
  have "resume ord env data = Some (if \<not> ok then StateFinishedWithError else StateProcessing,
      data\<lparr>cd_changeset := c'\<rparr>, ?outs)"
    by (simp add: resume_def m(1) r)
  moreover have "list_ex is_timeout ?outs" if "ok" "\<not> fin" using that by (simp add: is_timeout_def)
  ultimately show ?thesis
    using b' run unfolding resumed_def by (intro exI conjI) (assumption, auto)
qed


lemma set_state_at_0: "set_state_at k 0 st c = set_state k st c"
  by (simp add: set_state_at_def set_state_def)

lemma find_finished_Some:
  assumes wf: "wf_changeset c" and "range_orders ord" "find_finished ord c uri = Some (k, i)"
  obtains ru where "upds (cs_heap c) k = [ru]" "i = 0" "ru_URI ru = uri"
    "ru_State ru = ResourceUpdateStateInProgress" "k \<in> set (cs_keys c)"
proof -
  let ?hit = "\<lambda>u. ru_URI u = uri \<and> ru_State u = ResourceUpdateStateInProgress"
  from assms(3) have f: "find (\<lambda>k. list_ex ?hit (upds (cs_heap c) k)) (ord SiteFinished (cs_keys c)) = Some k"
    and i: "i = length (takeWhile (\<lambda>u. \<not> ?hit u) (upds (cs_heap c) k))"
    by (auto simp: find_finished_def Let_def split: option.splits)
  from f have k: "k \<in> set (cs_keys c)" "list_ex ?hit (upds (cs_heap c) k)"
    using range_ordersD(2) [OF assms(2)] by (auto simp: find_Some_iff) (metis nth_mem)
  then obtain ru where "upds (cs_heap c) k = [ru]"
    using wf by (auto simp: wf_changeset_def wf_except_def nodes_ok_def one_update_def)
  then show ?thesis using that k i by simp
qed

lemma set_state_same:
  assumes "upds (cs_heap c) k = [ru]" "ru_State ru = st"
  shows "set_state k st c = c"
proof -
  have "heap_upd k (\<lambda>g. g\<lparr>rug_Updates := (rug_Updates g)[0 := (rug_Updates g ! 0)\<lparr>ru_State := st\<rparr>]\<rparr>) (cs_heap c) = cs_heap c"
    using assms by (intro heap_upd_id) (auto simp: views_Some)
  then show ?thesis by (simp add: set_state_def with_heap_def)
qed

text \<open>
  The outcome of a finished message: nothing (the update is not running here), a completed
  changeset, or a finished update followed by a batch. An update reported as still in progress only
  triggers a batch.
\<close>

definition finished_effect ::
  "ChangesetData \<Rightarrow> cs_event list \<Rightarrow> exec_state_name \<times> ChangesetData \<times> exec_out list \<Rightarrow> bool" where
  "finished_effect data es = (\<lambda>(s, d, outs).
     cs.run (cd_changeset data) es (cd_changeset d) \<and> cd_requestedBy d = cd_requestedBy data \<and>
     subseq (started_ops outs) (handed_out es) \<and> filter is_complete_msg outs = [] \<and>
     (case s of
        StateNotStarted \<Rightarrow> False
      | StateProcessing \<Rightarrow> cs_keys (cd_changeset d) \<noteq> [] \<and>
          ((\<exists>k. running (cd_changeset d) k) \<or> list_ex is_timeout outs \<or> d = data)
      | StateFinishedSuccessfully \<Rightarrow> cs_keys (cd_changeset d) = []
      | StateFinishedWithError \<Rightarrow> True))"


lemma resumed_finished_effect:
  assumes run: "cs.run (cd_changeset data) es c" and ne: "cs_keys c \<noteq> []"
    and res: "resumed (data\<lparr>cd_changeset := c\<rparr>) hs (s, d, outs)"
    and outs0: "started_ops outs0 = []" "filter is_complete_msg outs0 = []"
  shows "finished_effect data (es @ hs) (s, d, outs0 @ outs)"
proof -
  have b: "batch c hs outs (cd_changeset d)" using res by (simp add: resumed_def)
  have "cs.run (cd_changeset data) (es @ hs) (cd_changeset d)"
    using run b unfolding cs.run_append batch_def by blast
  moreover have "subseq (started_ops (outs0 @ outs)) (handed_out (es @ hs))"
    using b outs0(1) unfolding batch_def started_ops_append handed_out_append
    by (simp add: list_emb_append2)
  moreover have "cs_keys (cd_changeset d) \<noteq> []" using b ne by (simp add: batch_def)
  ultimately show ?thesis
    using res b outs0(2) by (auto simp: finished_effect_def resumed_def batch_def)
qed

lemma resourceUpdateFinished_ok:
  assumes ord: "range_orders ord" and wf: "wf_changeset (cd_changeset data)" and ne: "cs_keys (cd_changeset data) \<noteq> []"
    and st: "final_update_state st \<or> st = ResourceUpdateStateInProgress"
  shows "\<exists>r es. resourceUpdateFinished ord env StateProcessing data uri st = Some r \<and> finished_effect data es r"
proof (cases "find_finished ord (cd_changeset data) uri")
  case None
  then have "resourceUpdateFinished ord env StateProcessing data uri st = Some (StateProcessing, data, [])"
    by (simp add: resourceUpdateFinished_def)
  moreover have "finished_effect data [] (StateProcessing, data, [])"
    using ne by (simp add: finished_effect_def cs.run_nil)
  ultimately show ?thesis by blast
next
  case (Some ki)
  obtain k i where ki: "ki = (k, i)" by (cases ki)
  let ?c = "cd_changeset data"
  obtain ru where ru: "upds (cs_heap ?c) k = [ru]" "i = 0" "ru_State ru = ResourceUpdateStateInProgress" "k \<in> set (cs_keys ?c)"
    using find_finished_Some [OF wf ord] Some ki by metis
  have wf': "wf_except {} ?c" using wf by (simp add: wf_changeset_def)
  note ss = set_state_wf [OF wf' ru(1), of st]
  have fu: "upds (cs_heap (set_state k st ?c)) k ! 0 = ru\<lparr>ru_State := st\<rparr>" by (simp add: ss(3))
  obtain c' fs es where up: "UpdatePipeline (ru\<lparr>ru_State := st\<rparr>) (set_state k st ?c) = Some (c', Inr fs)"
    and wf2: "wf_changeset c'" and run: "cs.run ?c es c'"
  proof (cases "final_update_state st")
    case True
    from finish_wf [OF wf' ru(1) True] obtain c' fs where
      c': "UpdatePipeline (ru\<lparr>ru_State := st\<rparr>) (set_state k st ?c) = Some (c', Inr fs)" "wf_except {} c'" by blast
    have "cs.run ?c [Finish k st fs] c'"
      by (rule cs.run_cons [OF cs_step.finish [OF ru(1,3) True c'(1)] cs.run_nil])
    then show ?thesis using that c' by (simp add: wf_changeset_def)
  next
    case False
    then have ip: "st = ResourceUpdateStateInProgress" using st by blast
    have same: "set_state k st ?c = ?c" using set_state_same [OF ru(1)] ru(3) ip by simp
    have "ru\<lparr>ru_State := st\<rparr> = ru" using ru(3) ip by simp
    moreover have "UpdatePipeline ru ?c = Some (?c, Inr [])"
    proof -
      have "op_URI ru = k" using wf' ru by (auto simp: wf_except_def nodes_ok_def one_update_def)
      then show ?thesis using ru by (simp add: UpdatePipeline_def Let_def)
    qed
    ultimately show ?thesis using that [of ?c "[]" "[]"] wf same cs.run_nil by simp
  qed
  let ?outs = "if length fs > 0 then [OutMarkResourcesAsFailed (cs_CommandID c') (map ru_URI fs) (env_TimeNow env)] else []"
  have o: "started_ops ?outs = []" "filter is_complete_msg ?outs = []" by (simp_all add: is_complete_msg_def)
  let ?d = "data\<lparr>cd_changeset := c'\<rparr>"
  have res: "resourceUpdateFinished ord env StateProcessing data uri st =
      (if IsComplete c' then Some (StateFinishedSuccessfully, ?d, ?outs)
       else map_option (\<lambda>(s, d, outs'). (s, d, ?outs @ outs')) (resume ord env ?d))"
    using Some ki ru(2) by (simp add: resourceUpdateFinished_def Let_def set_state_at_0 fu up)
  have ic: "IsComplete c' \<longleftrightarrow> cs_keys c' = []"
    using IsComplete_wf wf2 by (simp add: wf_changeset_def)
  show ?thesis
  proof (cases "IsComplete c'")
    case True
    then have "finished_effect data es (StateFinishedSuccessfully, ?d, ?outs)"
      using run o ic by (simp add: finished_effect_def)
    with True res show ?thesis by auto
  next
    case False
    then obtain s d outs hs where r: "resume ord env ?d = Some (s, d, outs)" "resumed ?d hs (s, d, outs)"
      using resume_ok [OF ord, of ?d env] wf2 ic by auto
    have "finished_effect data (es @ hs) (s, d, ?outs @ outs)"
      by (rule resumed_finished_effect [OF run _ r(2) o]) (use False ic in simp)
    with False res r(1) show ?thesis by auto
  qed
qed

section \<open>The machine and its invariant\<close>

definition msg_ok :: "exec_msg \<Rightarrow> bool" where
  "msg_ok msg \<longleftrightarrow> (case msg of MsgStart c \<Rightarrow> cs_start c
     | MsgResourceUpdateFinished _ st \<Rightarrow> final_update_state st \<or> st = ResourceUpdateStateInProgress
     | MsgResume \<Rightarrow> True)"

inductive ex_step :: "executor \<Rightarrow> exec_msg \<Rightarrow> executor \<Rightarrow> bool" where
  ex_step: "range_orders ord \<Longrightarrow> msg_ok msg \<Longrightarrow> handle ord env x msg = Some (Some r) \<Longrightarrow>
     ex_step x msg (enter env x msg r)"

definition ex_start :: "executor \<Rightarrow> bool" where
  "ex_start x \<longleftrightarrow> x_state x = StateNotStarted \<and> \<not> x_timer x \<and> x_sent x = []"

definition ex_finished :: "exec_state_name \<Rightarrow> bool" where
  "ex_finished s \<longleftrightarrow> s = StateFinishedSuccessfully \<or> s = StateFinishedWithError"

definition ex_inv :: "executor \<Rightarrow> bool" where
  "ex_inv x \<longleftrightarrow> (if x_state x = StateNotStarted then x_sent x = [] \<and> \<not> x_timer x else
     (\<exists>c0 es. cs_start c0 \<and> cs.run c0 es (cd_changeset (x_data x)) \<and> subseq (started_ops (x_sent x)) (handed_out es)) \<and>
     length (filter is_complete_msg (x_sent x)) = (if ex_finished (x_state x) then 1 else 0) \<and>
     (x_state x = StateProcessing \<longrightarrow> cs_keys (cd_changeset (x_data x)) \<noteq> [] \<and>
        ((\<exists>k. running (cd_changeset (x_data x)) k) \<or> x_timer x)) \<and>
     (x_state x = StateFinishedSuccessfully \<longrightarrow> cs_keys (cd_changeset (x_data x)) = []))"


lemma onStateChange_facts:
  "started_ops (onStateChange env s d) = []"
  "length (filter is_complete_msg (onStateChange env s d)) = (if ex_finished s then 1 else 0)"
  by (auto simp: onStateChange_def Let_def ex_finished_def is_complete_msg_def)

lemma ex_inv_enter:
  assumes "cs_start c0" "cs.run c0 es (cd_changeset d)"
    "subseq (started_ops (x_sent x @ outs)) (handed_out es)" "filter is_complete_msg (x_sent x @ outs) = []"
    "\<not> ex_finished (x_state x)" "s \<noteq> StateNotStarted"
    "s = StateProcessing \<Longrightarrow> cs_keys (cd_changeset d) \<noteq> [] \<and>
       ((\<exists>k. running (cd_changeset d) k) \<or> list_ex is_timeout outs \<or> (x_timer x \<and> \<not> is_resume msg))"
    "s = StateFinishedSuccessfully \<Longrightarrow> cs_keys (cd_changeset d) = []"
  shows "ex_inv (enter env x msg (s, d, outs))"
proof -
  let ?x = "enter env x msg (s, d, outs)"
  have x: "x_state ?x = s" "x_data ?x = d"
    "x_sent ?x = (x_sent x @ outs) @ (if s \<noteq> x_state x then onStateChange env s d else [])"
    "x_timer ?x = (list_ex is_timeout outs \<or> (x_timer x \<and> \<not> is_resume msg))"
    by (simp_all add: enter_def)
  have "started_ops (x_sent ?x) = started_ops (x_sent x @ outs)"
    unfolding x(3) started_ops_append by (simp add: onStateChange_facts(1))
  moreover have "length (filter is_complete_msg (x_sent ?x)) = (if ex_finished s then 1 else 0)"
    unfolding x(3) filter_append [of _ "x_sent x @ outs"] assms(4) using assms(5)
    by (cases "s = x_state x") (simp_all add: onStateChange_facts(2))
  ultimately show ?thesis
    using assms unfolding ex_inv_def x by auto
qed

lemma ex_inv_processing:
  assumes "ex_inv x" "x_state x = StateProcessing"
  obtains c0 es where "cs_start c0" "cs.run c0 es (cd_changeset (x_data x))"
    "subseq (started_ops (x_sent x)) (handed_out es)" "filter is_complete_msg (x_sent x) = []"
    "cs_keys (cd_changeset (x_data x)) \<noteq> []" "wf_changeset (cd_changeset (x_data x))"
    "(\<exists>k. running (cd_changeset (x_data x)) k) \<or> x_timer x"
proof -
  from assms obtain c0 es where h: "cs_start c0" "cs.run c0 es (cd_changeset (x_data x))"
    "subseq (started_ops (x_sent x)) (handed_out es)" and r: "cs_keys (cd_changeset (x_data x)) \<noteq> []"
    "(\<exists>k. running (cd_changeset (x_data x)) k) \<or> x_timer x" and f: "filter is_complete_msg (x_sent x) = []"
    by (auto simp: ex_inv_def ex_finished_def)
  show ?thesis
    by (rule that [OF h f r(1) cs.run_inv [OF h(2) cs_start_wf [OF h(1)]] r(2)])
qed

lemma start_ok:
  assumes ord: "range_orders ord" and c: "cs_start c" and x: "ex_inv x" "x_state x = StateNotStarted"
  shows "\<exists>r. start ord env (x_data x) c = Some r \<and> ex_inv (enter env x (MsgStart c) r)"
proof -
  have x0: "x_sent x = []" "\<not> x_timer x" "\<not> ex_finished (x_state x)"
    using x by (simp_all add: ex_inv_def ex_finished_def)
  have wf: "wf_changeset c" by (rule cs_start_wf [OF c])
  let ?d = "(x_data x)\<lparr>cd_changeset := c\<rparr>" and ?out = "OutEnsureResolveCache (cs_CommandID c)"
  show ?thesis
  proof (cases "env_EnsureResolveCache env \<and> \<not> IsComplete c")
    case False
    then have "start ord env (x_data x) c = Some (StateFinishedWithError, ?d, [?out])"
      by (auto simp: start_def Let_def)
    moreover have "ex_inv (enter env x (MsgStart c) (StateFinishedWithError, ?d, [?out]))"
      by (rule ex_inv_enter [OF c]) (use x0 cs.run_nil in \<open>simp_all add: is_complete_msg_def\<close>)
    ultimately show ?thesis by blast
  next
    case True
    then have ne: "cs_keys c \<noteq> []" using IsComplete_wf wf by (simp add: wf_changeset_def)
    obtain s d outs hs where r: "resume ord env ?d = Some (s, d, outs)" "resumed ?d hs (s, d, outs)"
      using resume_ok [OF ord, of ?d env] wf ne by auto
    have b: "batch c hs outs (cd_changeset d)" and s: "s = StateProcessing \<or> s = StateFinishedWithError"
      using r(2) by (simp_all add: resumed_def)
    have "start ord env (x_data x) c = Some (s, d, ?out # outs)"
      using True r(1) by (simp add: start_def Let_def)
    moreover have "ex_inv (enter env x (MsgStart c) (s, d, ?out # outs))"
      by (rule ex_inv_enter [OF c, of hs])
        (use x0 b s r(2) ne in \<open>auto simp: batch_def resumed_def is_complete_msg_def\<close>)
    ultimately show ?thesis by blast
  qed
qed

lemma resume_msg_ok:
  assumes ord: "range_orders ord" and x: "ex_inv x" "x_state x = StateProcessing"
  shows "\<exists>r. resume ord env (x_data x) = Some r \<and> ex_inv (enter env x MsgResume r)"
proof -
  obtain c0 es where h: "cs_start c0" "cs.run c0 es (cd_changeset (x_data x))"
    "subseq (started_ops (x_sent x)) (handed_out es)" "filter is_complete_msg (x_sent x) = []"
    "cs_keys (cd_changeset (x_data x)) \<noteq> []" "wf_changeset (cd_changeset (x_data x))"
    by (rule ex_inv_processing [OF x])
  obtain s d outs hs where r: "resume ord env (x_data x) = Some (s, d, outs)" "resumed (x_data x) hs (s, d, outs)"
    using resume_ok [OF ord h(6,5)] by (metis prod_cases3)
  have b: "batch (cd_changeset (x_data x)) hs outs (cd_changeset d)" using r(2) by (simp add: resumed_def)
  have run: "cs.run c0 (es @ hs) (cd_changeset d)" using h(2) b unfolding cs.run_append batch_def by blast
  have sub: "subseq (started_ops (x_sent x @ outs)) (handed_out (es @ hs))"
    using h(3) b unfolding started_ops_append handed_out_append batch_def by (blast intro: list_emb_append_mono)
  have "ex_inv (enter env x MsgResume (s, d, outs))"
    by (rule ex_inv_enter [OF h(1) run sub])
      (use h b r(2) x(2) in \<open>auto simp: batch_def resumed_def ex_finished_def\<close>)
  with r(1) show ?thesis by blast
qed

lemma finished_msg_ok:
  assumes ord: "range_orders ord" and x: "ex_inv x" "x_state x = StateProcessing"
    and st: "final_update_state st \<or> st = ResourceUpdateStateInProgress"
  shows "\<exists>r. resourceUpdateFinished ord env (x_state x) (x_data x) uri st = Some r \<and>
    ex_inv (enter env x (MsgResourceUpdateFinished uri st) r)"
proof -
  obtain c0 es where h: "cs_start c0" "cs.run c0 es (cd_changeset (x_data x))"
    "subseq (started_ops (x_sent x)) (handed_out es)" "filter is_complete_msg (x_sent x) = []"
    "cs_keys (cd_changeset (x_data x)) \<noteq> []" "wf_changeset (cd_changeset (x_data x))"
    "(\<exists>k. running (cd_changeset (x_data x)) k) \<or> x_timer x"
    by (rule ex_inv_processing [OF x])
  obtain s d outs fs where r: "resourceUpdateFinished ord env StateProcessing (x_data x) uri st = Some (s, d, outs)"
    and e: "finished_effect (x_data x) fs (s, d, outs)"
    using resourceUpdateFinished_ok [OF ord h(6,5) st] by (metis prod_cases3)
  have run: "cs.run c0 (es @ fs) (cd_changeset d)"
    using h(2) e unfolding cs.run_append finished_effect_def by blast
  have sub: "subseq (started_ops (x_sent x @ outs)) (handed_out (es @ fs))"
    using h(3) e unfolding started_ops_append handed_out_append finished_effect_def
    by (auto intro: list_emb_append_mono)
  have "ex_inv (enter env x (MsgResourceUpdateFinished uri st) (s, d, outs))"
    by (rule ex_inv_enter [OF h(1) run sub])
      (use h e x(2) in \<open>auto simp: finished_effect_def ex_finished_def\<close>)
  with r x(2) show ?thesis by auto
qed


lemma handle_ok:
  assumes "ex_inv x" "range_orders ord" "msg_ok msg" "handle ord env x msg = Some res"
  shows "\<exists>r. res = Some r \<and> ex_inv (enter env x msg r)"
proof (cases msg)
  case (MsgStart c)
  with assms(3,4) have "cs_start c" "x_state x = StateNotStarted" "res = start ord env (x_data x) c"
    by (auto simp: msg_ok_def split: if_splits)
  with start_ok [OF assms(2) _ assms(1)] show ?thesis by (simp add: MsgStart)
next
  case MsgResume
  with assms(4) have "x_state x = StateProcessing" "res = resume ord env (x_data x)"
    by (auto split: if_splits)
  with resume_msg_ok [OF assms(2,1)] show ?thesis by (simp add: MsgResume)
next
  case (MsgResourceUpdateFinished uri st)
  with assms(3,4) have "final_update_state st \<or> st = ResourceUpdateStateInProgress" "x_state x = StateProcessing"
    "res = resourceUpdateFinished ord env (x_state x) (x_data x) uri st"
    by (auto simp: msg_ok_def split: if_splits)
  with finished_msg_ok [OF assms(2,1)] show ?thesis by (simp add: MsgResourceUpdateFinished)
qed

lemma ex_start_inv: "ex_start x \<Longrightarrow> ex_inv x"
  by (simp add: ex_start_def ex_inv_def)

lemma ex_step_inv: "ex_inv x \<Longrightarrow> ex_step x msg y \<Longrightarrow> ex_inv y"
  by (auto elim!: ex_step.cases dest: handle_ok)

interpretation ex: invariant_machine ex_start ex_step ex_inv
  using ex_start_inv ex_step_inv by unfold_locales

section \<open>Properties\<close>

text \<open>the executor never panics. In every reachable state, every message it handles (a start with a
  fresh changeset, a resume, or the end of an update with a final state or still in progress) is processed
  without a nil dereference, whatever the other actors answer.\<close>

theorem executor_no_panic:
  assumes "ex.reach x" "range_orders ord" "msg_ok msg"
  shows "handle ord env x msg \<noteq> Some None"
  using handle_ok [OF ex.reach_inv [OF assms(1)] assms(2,3)] by (metis option.distinct(1))

definition sample_env :: exec_env where
  "sample_env = \<lparr>env_EnsureResolveCache = True, env_RequestTokens = (\<lambda>_ n. Some n),
     env_EnsureResourceUpdater = (\<lambda>_. True), env_SendStart = (\<lambda>_. True), env_TimeNow = 7, env_NodePID = 1\<rparr>"

definition sample_x0 :: executor where
  "sample_x0 = \<lparr>x_state = StateNotStarted, x_data = \<lparr>cd_changeset = sample_c0, cd_requestedBy = 1\<rparr>,
     x_timer = False, x_sent = []\<rparr>"

definition sample_x1 :: executor where
  "sample_x1 = (case handle (\<lambda>_. id) sample_env sample_x0 (MsgStart sample_c0) of
     Some (Some r) \<Rightarrow> enter sample_env sample_x0 (MsgStart sample_c0) r | _ \<Rightarrow> sample_x0)"

lemma sample_x0_reach: "ex.reach sample_x0"
  by (rule ex.reach_start) (simp add: ex_start_def sample_x0_def)

theorem executor_no_panic_witness:
  "handle (\<lambda>_. id) sample_env sample_x0 (MsgStart sample_c0) \<noteq> Some None"
  by (rule executor_no_panic [OF sample_x0_reach sample_orders]) (simp add: msg_ok_def sample_start)

lemma sample_x1_step: "ex_step sample_x0 (MsgStart sample_c0) sample_x1"
proof -
  have ok: "msg_ok (MsgStart sample_c0)" by (simp add: msg_ok_def sample_start)
  have h: "handle (\<lambda>_. id) sample_env sample_x0 (MsgStart sample_c0) =
      Some (start (\<lambda>_. id) sample_env (x_data sample_x0) sample_c0)"
    by (simp add: sample_x0_def)
  obtain r where r: "start (\<lambda>_. id) sample_env (x_data sample_x0) sample_c0 = Some r"
    using handle_ok [OF ex.reach_inv [OF sample_x0_reach] sample_orders ok h] by blast
  have x1: "sample_x1 = enter sample_env sample_x0 (MsgStart sample_c0) r"
    unfolding sample_x1_def h r by simp
  show ?thesis unfolding x1 by (rule ex_step.ex_step [OF sample_orders ok h [unfolded r]])
qed

lemma sample_x1_reach: "ex.reach sample_x1"
  by (rule ex.reach_step [OF sample_x0_reach sample_x1_step])

text \<open>C10: the executor does not stall. In every reachable state in which it is still processing, the changeset has
  work left and either an update is running, whose end will be reported, or a resume timer is
  pending, even when the rate limiter grants fewer tokens than needed.\<close>

theorem executor_no_stall:
  assumes "ex.reach x" "x_state x = StateProcessing"
  shows "\<not> IsComplete (cd_changeset (x_data x)) \<and> ((\<exists>k. running (cd_changeset (x_data x)) k) \<or> x_timer x)"
proof -
  obtain c0 es where "cs_keys (cd_changeset (x_data x)) \<noteq> []" "wf_changeset (cd_changeset (x_data x))"
    "(\<exists>k. running (cd_changeset (x_data x)) k) \<or> x_timer x"
    by (rule ex_inv_processing [OF ex.reach_inv [OF assms(1)] assms(2)])
  then show ?thesis using IsComplete_wf by (simp add: wf_changeset_def)
qed

theorem executor_no_stall_witness:
  "x_state sample_x1 = StateProcessing \<and> \<not> IsComplete (cd_changeset (x_data sample_x1)) \<and>
   ((\<exists>k. running (cd_changeset (x_data sample_x1)) k) \<or> x_timer sample_x1)"
proof -
  have "x_state sample_x1 = StateProcessing" by code_simp
  with executor_no_stall [OF sample_x1_reach] show ?thesis by blast
qed

text \<open>C7: the executor implements the changeset. In every reachable state after the start, the changeset is the
  result of an execution of a fresh changeset, the start messages sent so far are for operations
  handed out by it, each at most once, the command is reported complete exactly once and only in a
  final state, and the state is \<^verbatim>\<open>finished_successfully\<close> only when no operation is
  left.\<close>

theorem executor_refines_changeset:
  assumes "ex.reach x" "x_state x \<noteq> StateNotStarted"
  shows "\<exists>c0 es. cs_start c0 \<and> cs.run c0 es (cd_changeset (x_data x)) \<and>
    subseq (started_ops (x_sent x)) (handed_out es) \<and> distinct (started_ops (x_sent x)) \<and>
    length (filter is_complete_msg (x_sent x)) = (if ex_finished (x_state x) then 1 else 0) \<and>
    (x_state x = StateFinishedSuccessfully \<longrightarrow> IsComplete (cd_changeset (x_data x)))"
proof -
  have inv: "ex_inv x" by (rule ex.reach_inv [OF assms(1)])
  with assms(2) obtain c0 es where h: "cs_start c0" "cs.run c0 es (cd_changeset (x_data x))"
    "subseq (started_ops (x_sent x)) (handed_out es)" by (auto simp: ex_inv_def)
  have "distinct (handed_out es)" using run_handed_out [OF h(2) cs_start_wf [OF h(1)]] by blast
  with h(3) have "distinct (started_ops (x_sent x))" by (metis distinct_nthsI subseq_conv_nths)
  moreover have "length (filter is_complete_msg (x_sent x)) = (if ex_finished (x_state x) then 1 else 0)"
    "x_state x = StateFinishedSuccessfully \<longrightarrow> IsComplete (cd_changeset (x_data x))"
    using inv assms(2) by (auto simp: ex_inv_def IsComplete_def)
  ultimately show ?thesis using h by blast
qed

theorem executor_refines_changeset_witness:
  "started_ops (x_sent sample_x1) = [''vpc//create''] \<and> distinct (started_ops (x_sent sample_x1)) \<and>
   length (filter is_complete_msg (x_sent sample_x1)) = 0"
proof -
  have s: "x_state sample_x1 = StateProcessing" by code_simp
  moreover have "started_ops (x_sent sample_x1) = [''vpc//create'']" by code_simp
  ultimately show ?thesis
    using executor_refines_changeset [OF sample_x1_reach] by (auto simp: ex_finished_def)
qed

end
