(* ===== verification/Resource_Properties.thy ===== *)
theory Resource_Properties
  imports Resource_Update
begin

text \<open>
  \<^verbatim>\<open>pkg/model/resource.go\<close>: the property queries of a resource. The query language is
  the gjson package's: \<^verbatim>\<open>gjson.Get\<close> is the argument \<open>get\<close>, which yields
  \<open>None\<close> for a result that does not exist and the decoded value otherwise. The iteration order
  of the schema's hint map is the argument \<open>ord\<close>.
\<close>

type_synonym gjson_get = "raw \<Rightarrow> string \<Rightarrow> json option"

section \<open>Definitions\<close>

definition getProperty :: "gjson_get \<Rightarrow> Resource \<Rightarrow> string \<Rightarrow> json option" where
  "getProperty get r query =
     (case get (res_Properties r) query of
        Some v \<Rightarrow> Some v
      | None \<Rightarrow> (if res_ReadOnlyProperties r \<noteq> RawNil \<and> res_ReadOnlyProperties r \<noteq> RawEmpty
                 then get (res_ReadOnlyProperties r) query
                 else None))"

text \<open>
  The map of persistent properties has one entry per field that exists; marshalling it writes the
  keys in sorted order and cannot fail on values decoded from JSON text, so the error result of
  \<^verbatim>\<open>GetMetadata\<close> is always nil.
\<close>

definition persist_props ::
  "gjson_get \<Rightarrow> (string list \<Rightarrow> string list) \<Rightarrow> Resource \<Rightarrow> (string \<times> json) list" where
  "persist_props get ord r =
     fold (\<lambda>p acc. case getProperty get r p of None \<Rightarrow> acc | Some v \<Rightarrow> AList.update p v acc)
       (Metadata ord (res_Schema r)) []"

definition GetMetadata ::
  "gjson_get \<Rightarrow> (string list \<Rightarrow> string list) \<Rightarrow> Resource \<Rightarrow> raw option" where
  "GetMetadata get ord r =
     (if length (Metadata ord (res_Schema r)) = 0 then Some (RawJson (JObj []))
      else if length (persist_props get ord r) > 0 then Some (marshal_map (persist_props get ord r))
      else Some (RawJson (JObj [])))"

definition GetMissingRequiredOnCreateFields ::
  "gjson_get \<Rightarrow> (string list \<Rightarrow> string list) \<Rightarrow> Resource \<Rightarrow> string list" where
  "GetMissingRequiredOnCreateFields get ord r =
     filter (\<lambda>field. case getProperty get r field of
          None \<Rightarrow> True
        | Some v \<Rightarrow> v = JNull \<or> v = JStr '''')
       (RequiredOnCreate ord (res_Schema r))"

datatype validation_error = MissingFields string string "string list"

definition ValidateRequiredOnCreateFields ::
  "gjson_get \<Rightarrow> (string list \<Rightarrow> string list) \<Rightarrow> Resource \<Rightarrow> validation_error option" where
  "ValidateRequiredOnCreateFields get ord r =
     (let missingFields = GetMissingRequiredOnCreateFields get ord r
      in if length missingFields > 0
         then Some (MissingFields (res_Label r) (res_Type r) missingFields)
         else None)"

section \<open>Facts\<close>

lemma GetMetadata_total [simp]: "GetMetadata get ord r \<noteq> None"
  by (simp add: GetMetadata_def)

lemma sort_key_fst_inj:
  assumes "distinct (map fst xs)" "mset xs = mset ys"
  shows "sort_key fst xs = sort_key fst ys"
proof -
  have "inj_on fst (set xs)"
    using assms(1) by (simp add: distinct_map)
  then show ?thesis
    by (intro sort_key_inj_key_eq) (simp_all add: assms(2))
qed

lemma alist_update_fresh: "k \<notin> fst ` set al \<Longrightarrow> AList.update k v al = al @ [(k, v)]"
  by (induction al) auto

text \<open>On distinct keys the loop collects one entry per field that exists.\<close>

definition collected :: "('k \<Rightarrow> 'v option) \<Rightarrow> 'k list \<Rightarrow> ('k \<times> 'v) list" where
  "collected f ks = concat (map (\<lambda>k. case f k of None \<Rightarrow> [] | Some v \<Rightarrow> [(k, v)]) ks)"

lemma collected_Nil: "collected f [] = []"
  by (simp add: collected_def)

lemma marshal_map_Nil: "marshal_map [] = RawJson (JObj [])"
  by (simp add: marshal_map_def)

lemma set_collected: "set (collected f ks) = {(k, v). k \<in> set ks \<and> f k = Some v}"
  by (auto simp: collected_def split: option.splits)

lemma distinct_collected: "distinct ks \<Longrightarrow> distinct (map fst (collected f ks))"
proof (induction ks)
  case (Cons k ks)
  have "k \<notin> fst ` set (collected f ks)"
    using Cons.prems by (auto simp: set_collected)
  then show ?case
    using Cons by (auto simp: collected_def split: option.splits)
qed (simp add: collected_def)

lemma mset_collected: "mset ks = mset ks' \<Longrightarrow> mset (collected f ks) = mset (collected f ks')"
proof -
  have "mset (collected f l) =
      sum_mset (image_mset (\<lambda>k. mset (case f k of None \<Rightarrow> [] | Some v \<Rightarrow> [(k, v)])) (mset l))" for l
    by (induction l) (simp_all add: collected_def)
  then show "mset ks = mset ks' \<Longrightarrow> mset (collected f ks) = mset (collected f ks')" by simp
qed

lemma fold_update_collected:
  assumes "distinct ks" "set ks \<inter> fst ` set acc = {}"
  shows "fold (\<lambda>k acc. case f k of None \<Rightarrow> acc | Some v \<Rightarrow> AList.update k v acc) ks acc =
    acc @ collected f ks"
  using assms
proof (induction ks arbitrary: acc)
  case Nil
  then show ?case by (simp add: collected_def)
next
  case (Cons k ks)
  show ?case
  proof (cases "f k")
    case None
    then show ?thesis using Cons.IH [of acc] Cons.prems by (simp add: collected_def)
  next
    case (Some v)
    then have "set ks \<inter> fst ` set (acc @ [(k, v)]) = {}" "k \<notin> fst ` set acc"
      using Cons.prems by auto
    then show ?thesis
      using Cons.IH [of "acc @ [(k, v)]"] Cons.prems Some
      by (simp add: alist_update_fresh collected_def)
  qed
qed

lemma distinct_filterFields:
  "range_order ord \<Longrightarrow> distinct (map fst (sch_Hints s)) \<Longrightarrow> distinct (filterFields ord s sel)"
  unfolding filterFields_def by (metis distinct_filter mset_eq_imp_distinct_iff range_orderD(1))

lemma mset_filterFields:
  "range_order ord \<Longrightarrow> range_order ord' \<Longrightarrow>
    mset (filterFields ord s sel) = mset (filterFields ord' s sel)"
  by (simp add: filterFields_def range_orderD(1))

lemma persist_props_collected:
  assumes "range_order ord" "distinct (map fst (sch_Hints (res_Schema r)))"
  shows "persist_props get ord r = collected (getProperty get r) (Metadata ord (res_Schema r))"
  unfolding persist_props_def
  by (subst fold_update_collected) (simp_all add: Metadata_def distinct_filterFields assms)

lemma marshal_map_cong:
  assumes "distinct (map fst xs)" "mset xs = mset ys"
  shows "marshal_map xs = marshal_map ys"
proof -
  let ?g = "\<lambda>(k, v). (k, json_sorted v)"
  have "distinct (map fst (map ?g xs))" "mset (map ?g xs) = mset (map ?g ys)"
    using assms by (simp_all add: comp_def case_prod_unfold)
  then show ?thesis
    unfolding marshal_map_def json_sorted.simps by (simp only: sort_key_fst_inj)
qed

section \<open>Properties\<close>

text \<open>the metadata of a resource is well defined: it never fails and does not depend on the
  order in which Go visits the schema's hint map. It is the JSON object, with sorted keys, of the
  fields marked for persistence that the resource has a value for.\<close>

theorem GetMetadata_deterministic:
  assumes "range_order ord" "range_order ord'" "distinct (map fst (sch_Hints (res_Schema r)))"
  shows "GetMetadata get ord r = GetMetadata get ord' r \<and>
    (\<exists>kvs. GetMetadata get ord r = Some (marshal_map kvs) \<and> distinct (map fst kvs) \<and>
      set kvs = {(k, v). (\<exists>h. (k, h) \<in> set (sch_Hints (res_Schema r)) \<and> fh_Persist h) \<and>
        getProperty get r k = Some v})"
proof -
  let ?p = "\<lambda>ord. collected (getProperty get r) (Metadata ord (res_Schema r))"
  have d: "distinct (map fst (?p ord))"
    using assms by (simp add: distinct_collected Metadata_def distinct_filterFields)
  have eq: "GetMetadata get o' r = Some (marshal_map (?p o'))" if "range_order o'" for o'
    by (auto simp: GetMetadata_def persist_props_collected [OF that assms(3)] collected_Nil
        marshal_map_Nil)
  have "mset (?p ord) = mset (?p ord')"
    by (intro mset_collected) (simp add: Metadata_def mset_filterFields [OF assms(1,2)])
  then have "marshal_map (?p ord) = marshal_map (?p ord')"
    by (rule marshal_map_cong [OF d])
  then have "GetMetadata get ord r = GetMetadata get ord' r"
    by (simp only: eq [OF assms(1)] eq [OF assms(2)])
  moreover have "set (?p ord) = {(k, v). (\<exists>h. (k, h) \<in> set (sch_Hints (res_Schema r)) \<and>
      fh_Persist h) \<and> getProperty get r k = Some v}"
    using assms by (simp add: set_collected Metadata_def set_filterFields)
  ultimately show ?thesis
    using eq [OF assms(1)] d by blast
qed

definition hint :: "bool \<Rightarrow> FieldHint" where
  "hint persist = \<lparr>fh_CreateOnly = False, fh_Persist = persist, fh_WriteOnly = False,
     fh_Required = False, fh_RequiredOnCreate = True\<rparr>"

definition sample_resource :: Resource where
  "sample_resource = zero_Resource\<lparr>
     res_Schema := zero_Schema\<lparr>sch_Hints := [(''b'', hint True), (''a'', hint True), (''c'', hint False)]\<rparr>,
     res_Properties := RawJson (JObj [(''b'', JBool True), (''c'', JStr '''')]),
     res_ReadOnlyProperties := RawJson (JObj [(''a'', JNull)])\<rparr>"

text \<open>A lookup of top-level keys stands in for the query language.\<close>

fun get_key :: gjson_get where
  "get_key (RawJson (JObj kvs)) k = map_of kvs k"
| "get_key _ k = None"

theorem GetMetadata_deterministic_witness:
  "GetMetadata get_key rev sample_resource = GetMetadata get_key id sample_resource \<and>
   GetMetadata get_key rev sample_resource =
     Some (RawJson (JObj [(''a'', JNull), (''b'', JBool True)]))"
proof -
  have "GetMetadata get_key rev sample_resource = GetMetadata get_key id sample_resource"
    using GetMetadata_deterministic [OF range_order_rev range_order_id, of sample_resource get_key]
    by (simp add: sample_resource_def)
  moreover have "GetMetadata get_key rev sample_resource =
      Some (RawJson (JObj [(''a'', JNull), (''b'', JBool True)]))"
    by code_simp
  ultimately show ?thesis by blast
qed

text \<open>validation before a create fails exactly when a field marked as required on create has no
  value, a null or an empty string, and then names exactly these fields.\<close>

theorem ValidateRequiredOnCreateFields_exact:
  assumes "range_order ord" "distinct (map fst (sch_Hints (res_Schema r)))"
  shows "case ValidateRequiredOnCreateFields get ord r of
      None \<Rightarrow> \<forall>k h. (k, h) \<in> set (sch_Hints (res_Schema r)) \<longrightarrow> fh_RequiredOnCreate h \<longrightarrow>
        (\<exists>v. getProperty get r k = Some v \<and> v \<noteq> JNull \<and> v \<noteq> JStr '''')
    | Some (MissingFields label typ fs) \<Rightarrow> label = res_Label r \<and> typ = res_Type r \<and>
        fs \<noteq> [] \<and> distinct fs \<and>
        set fs = {k. (\<exists>h. (k, h) \<in> set (sch_Hints (res_Schema r)) \<and> fh_RequiredOnCreate h) \<and>
          getProperty get r k \<in> {None, Some JNull, Some (JStr '''')}}"
proof -
  let ?m = "GetMissingRequiredOnCreateFields get ord r"
  have m: "set ?m = {k. (\<exists>h. (k, h) \<in> set (sch_Hints (res_Schema r)) \<and> fh_RequiredOnCreate h) \<and>
      getProperty get r k \<in> {None, Some JNull, Some (JStr '''')}}"
    by (auto simp: GetMissingRequiredOnCreateFields_def RequiredOnCreate_def
        set_filterFields [OF assms] split: option.splits)
  have d: "distinct ?m"
    using assms
    by (simp add: GetMissingRequiredOnCreateFields_def RequiredOnCreate_def distinct_filterFields)
  show ?thesis
  proof (cases "?m = []")
    case True
    then have "getProperty get r k \<notin> {None, Some JNull, Some (JStr '''')}"
      if "(k, h) \<in> set (sch_Hints (res_Schema r))" "fh_RequiredOnCreate h" for k h
      using m that by auto
    then show ?thesis
      using True by (fastforce simp: ValidateRequiredOnCreateFields_def)
  next
    case False
    then show ?thesis using m d by (simp add: ValidateRequiredOnCreateFields_def)
  qed
qed

theorem ValidateRequiredOnCreateFields_exact_witness:
  "ValidateRequiredOnCreateFields get_key rev sample_resource =
     Some (MissingFields '''' '''' [''c'', ''a'']) \<and> set [''c'', ''a''] =
     {k. (\<exists>h. (k, h) \<in> set (sch_Hints (res_Schema sample_resource)) \<and> fh_RequiredOnCreate h) \<and>
       getProperty get_key sample_resource k \<in> {None, Some JNull, Some (JStr '''')}}"
proof -
  have "ValidateRequiredOnCreateFields get_key rev sample_resource =
      Some (MissingFields '''' '''' [''c'', ''a''])"
    by code_simp
  then show ?thesis
    using ValidateRequiredOnCreateFields_exact [OF range_order_rev, of sample_resource get_key]
    by (simp add: sample_resource_def)
qed

end
