(* ===== verification/Plugin_Operator.thy ===== *)
theory Plugin_Operator
  imports Resource_Properties
begin

text \<open>
  \<^verbatim>\<open>internal/metastructure/plugin_operation/plugin_operator.go\<close>: the state machine that
  performs one plugin operation on one resource, with status polling and retries. A handler is a
  function of the environment's answers during the call, the data and the message; it returns the
  next state, the data, the progress it replies with, and the messages it sends or schedules.
  \<open>None\<close> is a Go panic (a nil result pointer, a failed type assertion). The plugin behind a
  namespace, \<^verbatim>\<open>resolver.ConvertToPluginFormat\<close>, the clock, and whether a send succeeds
  are fields of the environment, quantified over in every theorem; logging, the Go context and
  the requester's process id carry no information here.
\<close>

section \<open>Requests and results of the plugin interface\<close>

record ReadRequest =
  rdq_NativeID :: string
  rdq_ResourceType :: string
  rdq_Metadata :: raw
  rdq_Target :: Target
  rdq_RedactSensitive :: bool

record ReadResult =
  rds_ResourceType :: string
  rds_Properties :: raw
  rds_ErrorCode :: OperationErrorCode

record CreateRequest =
  crq_Resource :: Resource
  crq_Target :: Target

record UpdateRequest =
  upq_NativeID :: string
  upq_Resource :: Resource
  upq_PatchDocument :: raw
  upq_OldMetadata :: raw
  upq_Metadata :: raw
  upq_Target :: Target

record DeleteRequest =
  deq_NativeID :: string
  deq_ResourceType :: string
  deq_Metadata :: raw
  deq_Target :: Target

record StatusRequest =
  stq_RequestID :: string
  stq_ResourceType :: string
  stq_Metadata :: raw
  stq_Target :: Target

record ListedResource =
  lr_NativeID :: string
  lr_Properties :: raw

record ListRequest =
  liq_ResourceType :: string
  liq_Target :: Target
  liq_PageSize :: int
  liq_PageToken :: "string option"
  liq_AdditionalProperties :: "(string \<times> string) list"

record ListResult =
  lis_ResourceType :: string
  lis_Resources :: "ListedResource list"
  lis_NextPageToken :: "string option"

text \<open>
  A resource plugin at the moment of a call: each method answers an error text or a result. The
  progress pointer of a result may be nil. The listing method is called repeatedly within one
  handler; its first argument counts these calls.
\<close>

record ResourcePlugin =
  rp_Read :: "ReadRequest \<Rightarrow> string + ReadResult"
  rp_Create :: "CreateRequest \<Rightarrow> string + ProgressResult option"
  rp_Update :: "UpdateRequest \<Rightarrow> string + ProgressResult option"
  rp_Delete :: "DeleteRequest \<Rightarrow> string + ProgressResult option"
  rp_Status :: "StatusRequest \<Rightarrow> string + ProgressResult option"
  rp_List :: "nat \<Rightarrow> ListRequest \<Rightarrow> string + ListResult"

record plugin_env =
  env_ResourcePlugin :: "string \<Rightarrow> ResourcePlugin option"
  env_ConvertToPluginFormat :: "raw \<Rightarrow> raw option"
  env_gjson :: gjson_get
  env_ord :: "string list \<Rightarrow> string list"
  env_TimeNow :: go_time
  env_SendAfter_ok :: bool
  env_Send_ok :: bool

section \<open>Messages\<close>

record ReadResource =
  rr_Namespace :: string
  rr_NativeID :: string
  rr_Target :: Target
  rr_Resource :: Resource
  rr_ExistingResource :: Resource
  rr_IsSync :: bool
  rr_IsDelete :: bool
  rr_RedactSensitive :: bool

record CreateResource =
  cr_Namespace :: string
  cr_Resource :: Resource
  cr_Target :: Target

record UpdateResource =
  ur_Namespace :: string
  ur_NativeID :: string
  ur_Resource :: Resource
  ur_ExistingResource :: Resource
  ur_PatchDocument :: raw
  ur_Target :: Target

record DeleteResource =
  dr_Namespace :: string
  dr_NativeID :: string
  dr_Resource :: Resource
  dr_ResourceType :: string
  dr_Metadata :: raw
  dr_Target :: Target

record ListResources =
  ls_Namespace :: string
  ls_ResourceType :: string
  ls_Target :: Target
  ls_ListParameters :: "(string \<times> string) list"

record Listing =
  lst_Namespace :: string
  lst_Resources :: "ListedResource list"
  lst_ResourceType :: string
  lst_ListParameters :: "(string \<times> string) list"
  lst_Target :: Target
  lst_Error :: "string option"

text \<open>
  The dynamic type of the \<^verbatim>\<open>any\<close>-typed request fields: one of the four operation
  messages, or nil.
\<close>

datatype op_request =
    ReqNil
  | ReqRead ReadResource
  | ReqCreate CreateResource
  | ReqUpdate UpdateResource
  | ReqDelete DeleteResource

record CheckStatus =
  ck_Namespace :: string
  ck_RequestID :: string
  ck_ResourceType :: string
  ck_Metadata :: raw
  ck_Target :: Target
  ck_ResourceOperation :: Operation
  ck_Request :: op_request

record ResumeWaitingForResource =
  rw_Namespace :: string
  rw_ResourceOperation :: Operation
  rw_Request :: CheckStatus
  rw_PreviousAttempts :: int

record Retry =
  rt_ResourceOperation :: Operation
  rt_Request :: op_request

definition TreatNotFoundAsSuccess :: "ReadResource \<Rightarrow> bool" where
  "TreatNotFoundAsSuccess r \<longleftrightarrow> rr_IsSync r \<or> rr_IsDelete r"

subsection \<open>Status checks\<close>

text \<open>
  The metadata of a status check: the properties of the resource in plugin format (nil when the
  conversion fails), then its metadata, an empty object when that fails.
\<close>

definition converted :: "plugin_env \<Rightarrow> Resource \<Rightarrow> Resource" where
  "converted env r = r\<lparr>res_Properties :=
     (case env_ConvertToPluginFormat env (res_Properties r) of None \<Rightarrow> RawNil | Some p \<Rightarrow> p)\<rparr>"

definition metadata_or_empty :: "plugin_env \<Rightarrow> Resource \<Rightarrow> raw" where
  "metadata_or_empty env r =
     (case GetMetadata (env_gjson env) (env_ord env) r of
        None \<Rightarrow> RawJson (JObj []) | Some m \<Rightarrow> m)"

definition ReadResource_StatusCheck :: "plugin_env \<Rightarrow> ReadResource \<Rightarrow> ProgressResult \<Rightarrow> CheckStatus" where
  "ReadResource_StatusCheck env r progress =
     (let r' = r\<lparr>rr_ExistingResource := converted env (rr_ExistingResource r)\<rparr>
      in \<lparr>ck_Namespace = Namespace (rr_Resource r'), ck_RequestID = rr_NativeID r',
          ck_ResourceType = res_Type (rr_Resource r'),
          ck_Metadata = metadata_or_empty env (rr_ExistingResource r'),
          ck_Target = rr_Target r', ck_ResourceOperation = PRead, ck_Request = ReqRead r'\<rparr>)"

definition CreateResource_StatusCheck :: "plugin_env \<Rightarrow> CreateResource \<Rightarrow> ProgressResult \<Rightarrow> CheckStatus" where
  "CreateResource_StatusCheck env c progress =
     (let c' = c\<lparr>cr_Resource := converted env (cr_Resource c)\<rparr>
      in \<lparr>ck_Namespace = cr_Namespace c', ck_RequestID = pr_RequestID progress,
          ck_ResourceType = res_Type (cr_Resource c'),
          ck_Metadata = metadata_or_empty env (cr_Resource c'),
          ck_Target = cr_Target c', ck_ResourceOperation = PCreate, ck_Request = ReqCreate c'\<rparr>)"

definition UpdateResource_StatusCheck :: "plugin_env \<Rightarrow> UpdateResource \<Rightarrow> ProgressResult \<Rightarrow> CheckStatus" where
  "UpdateResource_StatusCheck env u progress =
     (let u' = u\<lparr>ur_ExistingResource := converted env (ur_ExistingResource u)\<rparr>
      in \<lparr>ck_Namespace = ur_Namespace u', ck_RequestID = pr_RequestID progress,
          ck_ResourceType = res_Type (ur_Resource u'),
          ck_Metadata = metadata_or_empty env (ur_ExistingResource u'),
          ck_Target = ur_Target u', ck_ResourceOperation = PUpdate, ck_Request = ReqUpdate u'\<rparr>)"

definition DeleteResource_StatusCheck :: "plugin_env \<Rightarrow> DeleteResource \<Rightarrow> ProgressResult \<Rightarrow> CheckStatus" where
  "DeleteResource_StatusCheck env d progress =
     (let d' = d\<lparr>dr_Resource := converted env (dr_Resource d)\<rparr>
      in \<lparr>ck_Namespace = dr_Namespace d', ck_RequestID = pr_RequestID progress,
          ck_ResourceType = dr_ResourceType d',
          ck_Metadata = metadata_or_empty env (dr_Resource d'),
          ck_Target = dr_Target d', ck_ResourceOperation = PDelete, ck_Request = ReqDelete d'\<rparr>)"

text \<open>The values that implement the \<^verbatim>\<open>StatusCheck\<close> interface.\<close>

datatype status_check = OpRead ReadResource | OpCreate CreateResource | OpUpdate UpdateResource
  | OpDelete DeleteResource | OpCheck CheckStatus

fun StatusCheck :: "plugin_env \<Rightarrow> status_check \<Rightarrow> ProgressResult \<Rightarrow> CheckStatus" where
  "StatusCheck env (OpRead r) p = ReadResource_StatusCheck env r p"
| "StatusCheck env (OpCreate c) p = CreateResource_StatusCheck env c p"
| "StatusCheck env (OpUpdate u) p = UpdateResource_StatusCheck env u p"
| "StatusCheck env (OpDelete d) p = DeleteResource_StatusCheck env d p"
| "StatusCheck env (OpCheck c) p = c"

fun check_Operation :: "status_check \<Rightarrow> Operation" where
  "check_Operation (OpRead r) = PRead"
| "check_Operation (OpCreate c) = PCreate"
| "check_Operation (OpUpdate u) = PUpdate"
| "check_Operation (OpDelete d) = PDelete"
| "check_Operation (OpCheck c) = PNoOp"

text \<open>The dynamic value stored in a retry message for an operation.\<close>

fun as_request :: "status_check \<Rightarrow> op_request" where
  "as_request (OpRead r) = ReqRead r"
| "as_request (OpCreate c) = ReqCreate c"
| "as_request (OpUpdate u) = ReqUpdate u"
| "as_request (OpDelete d) = ReqDelete d"
| "as_request (OpCheck c) = ck_Request c"

section \<open>The state machine\<close>

datatype op_state = OpNotStarted | OpWaitingForResource | OpRetrying | OpFinishedSuccessfully
  | OpFinishedWithError | OpNoState

record RetryConfig =
  rc_StatusCheckInterval :: int
  rc_MaxRetries :: int
  rc_RetryDelay :: int

record PluginUpdateData =
  pd_attempts :: int
  pd_LastStatusMessage :: string
  pd_config :: RetryConfig

text \<open>What a handler sends: a delayed retry to itself, a status check under a generic timeout,
  progress or a listing to the requester, a shutdown to itself.\<close>

datatype op_out = SendRetry Retry int | StatusTimeout CheckStatus int | SendProgress ProgressResult
  | SendListing Listing | SendShutdown

type_synonym op_result = "(op_state \<times> PluginUpdateData \<times> ProgressResult \<times> op_out list) option"

definition PluginNotFoundError :: ProgressResult where
  "PluginNotFoundError = zero_ProgressResult\<lparr>pr_OperationStatus := OperationStatusFailure,
     pr_ErrorCode := ErrPluginNotFound, pr_Attempts := 1, pr_MaxAttempts := 1\<rparr>"

definition newUnforeseenError :: "PluginUpdateData \<Rightarrow> ProgressResult" where
  "newUnforeseenError data = zero_ProgressResult\<lparr>pr_OperationStatus := OperationStatusFailure,
     pr_ErrorCode := ErrUnforeseenError, pr_MaxAttempts := rc_MaxRetries (pd_config data) + 1,
     pr_Attempts := pd_attempts data\<rparr>"

definition op_Init :: "RetryConfig \<Rightarrow> PluginUpdateData" where
  "op_Init cfg = \<lparr>pd_attempts = 1, pd_LastStatusMessage = [], pd_config = cfg\<rparr>"

definition op_onStateChange :: "op_state \<Rightarrow> op_out list" where
  "op_onStateChange newState =
     (if newState = OpFinishedSuccessfully \<or> newState = OpFinishedWithError
      then [SendShutdown] else [])"

definition handlePluginResult ::
  "plugin_env \<Rightarrow> PluginUpdateData \<Rightarrow> status_check \<Rightarrow> ProgressResult option \<Rightarrow> op_result" where
  "handlePluginResult env data operation result =
     (case result of
        None \<Rightarrow> None
      | Some r \<Rightarrow>
          let maxAttempts = rc_MaxRetries (pd_config data) + 1;
              progress0 = r\<lparr>pr_Attempts := pd_attempts data, pr_MaxAttempts := maxAttempts,
                 pr_ModifiedTs := env_TimeNow env\<rparr>;
              progress = (if pd_attempts data > 1
                 then progress0\<lparr>pr_StatusMessage := pd_LastStatusMessage data\<rparr> else progress0)
          in if FinishedSuccessfully progress
             then Some (OpFinishedSuccessfully, data, progress, [])
             else if pr_OperationStatus progress = OperationStatusFailure
             then (if IsRecoverable (pr_ErrorCode progress) \<and> pd_attempts data \<le> maxAttempts
                   then let data' = data\<lparr>pd_LastStatusMessage := pr_StatusMessage progress\<rparr>;
                            retryMessage = (case operation of
                               OpCheck val \<Rightarrow> \<lparr>rt_ResourceOperation = ck_ResourceOperation val,
                                               rt_Request = ck_Request val\<rparr>
                             | _ \<Rightarrow> \<lparr>rt_ResourceOperation = check_Operation operation,
                                      rt_Request = as_request operation\<rparr>)
                        in if \<not> env_SendAfter_ok env
                           then Some (OpFinishedWithError, data', newUnforeseenError data', [])
                           else Some (OpRetrying, data', progress,
                             [SendRetry retryMessage (rc_RetryDelay (pd_config data'))])
                   else Some (OpFinishedWithError, data, progress, []))
             else Some (OpWaitingForResource, data, progress,
               [StatusTimeout (StatusCheck env operation progress)
                  (rc_StatusCheckInterval (pd_config data))]))"

definition read :: "plugin_env \<Rightarrow> PluginUpdateData \<Rightarrow> ReadResource \<Rightarrow> op_result" where
  "read env data operation =
     (case env_ResourcePlugin env (Namespace (rr_ExistingResource operation)) of
        None \<Rightarrow> Some (OpFinishedWithError, data, PluginNotFoundError, [])
      | Some plugin \<Rightarrow>
          let existingResource = converted env (rr_ExistingResource operation);
              metadata = metadata_or_empty env existingResource;
              progressResult = zero_ProgressResult\<lparr>pr_Operation := PRead,
                pr_NativeID := rr_NativeID operation,
                pr_ResourceType := res_Type (rr_Resource operation)\<rparr>;
              progressResult' =
                (case rp_Read plugin \<lparr>rdq_NativeID = rr_NativeID operation,
                    rdq_ResourceType = res_Type (rr_Resource operation), rdq_Metadata = metadata,
                    rdq_Target = rr_Target operation,
                    rdq_RedactSensitive = rr_RedactSensitive operation\<rparr> of
                   Inl err \<Rightarrow> progressResult\<lparr>pr_OperationStatus := OperationStatusFailure,
                     pr_ErrorCode := ErrUnforeseenError, pr_StatusMessage := err\<rparr>
                 | Inr result \<Rightarrow>
                     if rds_ErrorCode result \<noteq> ErrNotSet \<and> \<not> TreatNotFoundAsSuccess operation
                     then progressResult\<lparr>pr_OperationStatus := OperationStatusFailure,
                       pr_ErrorCode := rds_ErrorCode result\<rparr>
                     else if rds_ErrorCode result = ErrNotFound \<and> TreatNotFoundAsSuccess operation
                     then progressResult\<lparr>pr_OperationStatus := OperationStatusSuccess,
                       pr_ErrorCode := rds_ErrorCode result\<rparr>
                     else progressResult\<lparr>pr_OperationStatus := OperationStatusSuccess,
                       pr_ResourceProperties := rds_Properties result\<rparr>)
          in handlePluginResult env data (OpRead operation) (Some progressResult'))"

definition create :: "plugin_env \<Rightarrow> PluginUpdateData \<Rightarrow> CreateResource \<Rightarrow> op_result" where
  "create env data operation =
     (case env_ResourcePlugin env (cr_Namespace operation) of
        None \<Rightarrow> Some (OpFinishedWithError, data, PluginNotFoundError, [])
      | Some plugin \<Rightarrow>
          (case env_ConvertToPluginFormat env (res_Properties (cr_Resource operation)) of
             None \<Rightarrow> Some (OpFinishedWithError, data, newUnforeseenError data, [])
           | Some props \<Rightarrow>
               (case rp_Create plugin
                   \<lparr>crq_Resource = (cr_Resource operation)\<lparr>res_Properties := props\<rparr>,
                    crq_Target = cr_Target operation\<rparr> of
                  Inl err \<Rightarrow> Some (OpFinishedWithError, data, newUnforeseenError data, [])
                | Inr result \<Rightarrow> handlePluginResult env data (OpCreate operation) result)))"

definition update :: "plugin_env \<Rightarrow> PluginUpdateData \<Rightarrow> UpdateResource \<Rightarrow> op_result" where
  "update env data operation =
     (let failed = Some (OpFinishedWithError, data, newUnforeseenError data, []);
          meta = GetMetadata (env_gjson env) (env_ord env)
      in case env_ResourcePlugin env (ur_Namespace operation) of
           None \<Rightarrow> Some (OpFinishedWithError, data, PluginNotFoundError, [])
         | Some plugin \<Rightarrow>
             (case env_ConvertToPluginFormat env (res_Properties (ur_ExistingResource operation)) of
                None \<Rightarrow> failed
              | Some resolvedExistingProperties \<Rightarrow>
                  (case meta ((ur_ExistingResource operation)
                       \<lparr>res_Properties := resolvedExistingProperties\<rparr>) of
                     None \<Rightarrow> failed
                   | Some oldMetadata \<Rightarrow>
                       (case env_ConvertToPluginFormat env (res_Properties (ur_Resource operation)) of
                          None \<Rightarrow> failed
                        | Some properties \<Rightarrow>
                            (case meta ((ur_Resource operation)\<lparr>res_Properties := properties\<rparr>) of
                               None \<Rightarrow> failed
                             | Some metadata \<Rightarrow>
                                 (case rp_Update plugin \<lparr>upq_NativeID = ur_NativeID operation,
                                     upq_Resource = ur_Resource operation,
                                     upq_PatchDocument = ur_PatchDocument operation,
                                     upq_OldMetadata = oldMetadata, upq_Metadata = metadata,
                                     upq_Target = ur_Target operation\<rparr> of
                                    Inl err \<Rightarrow> failed
                                  | Inr result \<Rightarrow>
                                      handlePluginResult env data (OpUpdate operation) result))))))"

definition delete :: "plugin_env \<Rightarrow> PluginUpdateData \<Rightarrow> DeleteResource \<Rightarrow> op_result" where
  "delete env data operation =
     (case env_ResourcePlugin env (dr_Namespace operation) of
        None \<Rightarrow> Some (OpFinishedWithError, data, PluginNotFoundError, [])
      | Some plugin \<Rightarrow>
          (case rp_Delete plugin \<lparr>deq_NativeID = dr_NativeID operation,
              deq_ResourceType = dr_ResourceType operation, deq_Metadata = dr_Metadata operation,
              deq_Target = dr_Target operation\<rparr> of
             Inl err \<Rightarrow> Some (OpFinishedWithError, data, newUnforeseenError data, [])
           | Inr result \<Rightarrow> handlePluginResult env data (OpDelete operation) result))"

definition status_request :: "CheckStatus \<Rightarrow> StatusRequest" where
  "status_request c = \<lparr>stq_RequestID = ck_RequestID c, stq_ResourceType = ck_ResourceType c,
     stq_Metadata = ck_Metadata c, stq_Target = ck_Target c\<rparr>"

text \<open>
  \<^verbatim>\<open>status\<close> and \<^verbatim>\<open>retry\<close> answer a message rather than a call: their progress goes
  out as a message. The Boolean of their result is whether the handler returns an error.
\<close>

type_synonym msg_result = "(op_state \<times> PluginUpdateData \<times> op_out list \<times> bool) option"

definition status :: "plugin_env \<Rightarrow> PluginUpdateData \<Rightarrow> CheckStatus \<Rightarrow> msg_result" where
  "status env data operation =
     (case env_ResourcePlugin env (ck_Namespace operation) of
        None \<Rightarrow> Some (OpFinishedWithError, data, [], False)
      | Some plugin \<Rightarrow>
          (case rp_Status plugin (status_request operation) of
             Inl err \<Rightarrow> Some (OpFinishedWithError, data, [], False)
           | Inr result \<Rightarrow>
               (case handlePluginResult env data (OpCheck operation) result of
                  None \<Rightarrow> None
                | Some (nextState, data', progress, acts) \<Rightarrow>
                    if \<not> env_Send_ok env
                    then Some (OpFinishedWithError, data',
                      filter (\<lambda>a. case a of SendRetry _ _ \<Rightarrow> True | _ \<Rightarrow> False) acts, False)
                    else Some (nextState, data', acts @ [SendProgress progress], False))))"

text \<open>The switch of \<^verbatim>\<open>retry\<close>: a failed type assertion panics, an operation that matches
  no case leaves zero values.\<close>

definition zero_data :: PluginUpdateData where
  "zero_data = \<lparr>pd_attempts = 0, pd_LastStatusMessage = [],
     pd_config = \<lparr>rc_StatusCheckInterval = 0, rc_MaxRetries = 0, rc_RetryDelay = 0\<rparr>\<rparr>"

definition retry_operation :: "plugin_env \<Rightarrow> PluginUpdateData \<Rightarrow> Retry \<Rightarrow> op_result" where
  "retry_operation env data operation =
     (case rt_ResourceOperation operation of
        PRead \<Rightarrow> (case rt_Request operation of ReqRead r \<Rightarrow> read env data r | _ \<Rightarrow> None)
      | PCreate \<Rightarrow> (case rt_Request operation of ReqCreate c \<Rightarrow> create env data c | _ \<Rightarrow> None)
      | PUpdate \<Rightarrow> (case rt_Request operation of ReqUpdate u \<Rightarrow> update env data u | _ \<Rightarrow> None)
      | PDelete \<Rightarrow> (case rt_Request operation of ReqDelete d \<Rightarrow> delete env data d | _ \<Rightarrow> None)
      | _ \<Rightarrow> Some (OpNoState, zero_data, zero_ProgressResult, []))"

definition retry :: "plugin_env \<Rightarrow> PluginUpdateData \<Rightarrow> Retry \<Rightarrow> msg_result" where
  "retry env data operation =
     (let data1 = data\<lparr>pd_attempts := pd_attempts data + 1\<rparr>
      in case retry_operation env data1 operation of
           None \<Rightarrow> None
         | Some (nextState, newData, progress, acts) \<Rightarrow>
             let progress' = progress\<lparr>pr_Attempts := pd_attempts data1,
                   pr_MaxAttempts := rc_MaxRetries (pd_config data1) + 1\<rparr>
             in if \<not> env_Send_ok env
                then Some (OpFinishedWithError, data1,
                  filter (\<lambda>a. case a of SendRetry _ _ \<Rightarrow> True | _ \<Rightarrow> False) acts, True)
                else Some (nextState, newData, acts @ [SendProgress progress'], False))"

definition resume :: "plugin_env \<Rightarrow> PluginUpdateData \<Rightarrow> ResumeWaitingForResource \<Rightarrow> op_result" where
  "resume env data operation =
     (let data1 = data\<lparr>pd_attempts := rw_PreviousAttempts operation\<rparr>
      in case env_ResourcePlugin env (rw_Namespace operation) of
           None \<Rightarrow> Some (OpFinishedWithError, data1, zero_ProgressResult, [])
         | Some plugin \<Rightarrow>
             (case rp_Status plugin (status_request (rw_Request operation)) of
                Inl err \<Rightarrow> Some (OpFinishedWithError, data1, newUnforeseenError data1, [])
              | Inr result \<Rightarrow>
                  handlePluginResult env data1 (OpCheck (rw_Request operation)) result))"

subsection \<open>Listing\<close>

text \<open>
  The loop over pages. It runs as long as the plugin hands out page tokens, so it takes fuel;
  \<open>None\<close> is a loop that is still running when the fuel is used up. The left value is the
  plugin's error.
\<close>

fun list_pages :: "ResourcePlugin \<Rightarrow> ListResources \<Rightarrow> nat \<Rightarrow> nat \<Rightarrow> string option \<Rightarrow>
    ListedResource list \<Rightarrow> (string + ListedResource list) option" where
  "list_pages plugin operation 0 i tok resources = None"
| "list_pages plugin operation (Suc fuel) i tok resources =
     (case rp_List plugin i \<lparr>liq_ResourceType = ls_ResourceType operation,
         liq_Target = ls_Target operation, liq_PageSize = 100, liq_PageToken = tok,
         liq_AdditionalProperties = ls_ListParameters operation\<rparr> of
        Inl err \<Rightarrow> Some (Inl err)
      | Inr result \<Rightarrow>
          let resources' = resources @ lis_Resources result;
              nextPageToken = lis_NextPageToken result
          in if nextPageToken = None \<or> nextPageToken = Some '''' then Some (Inr resources')
             else list_pages plugin operation fuel (Suc i) nextPageToken resources')"

definition op_list :: "plugin_env \<Rightarrow> nat \<Rightarrow> PluginUpdateData \<Rightarrow> ListResources \<Rightarrow> msg_result" where
  "op_list env fuel data operation =
     (case env_ResourcePlugin env (ls_Namespace operation) of
        None \<Rightarrow> Some (OpFinishedWithError, data, [], False)
      | Some plugin \<Rightarrow>
          let listing = \<lparr>lst_Namespace = ls_Namespace operation, lst_Resources = [],
                lst_ResourceType = ls_ResourceType operation,
                lst_ListParameters = ls_ListParameters operation,
                lst_Target = ls_Target operation, lst_Error = None\<rparr>
          in (case list_pages plugin operation fuel 0 None [] of
                None \<Rightarrow> None
              | Some (Inl err) \<Rightarrow> Some (OpFinishedWithError, data,
                  (if env_Send_ok env then [SendListing (listing\<lparr>lst_Error := Some err\<rparr>)] else []),
                  False)
              | Some (Inr resources) \<Rightarrow>
                  if \<not> env_Send_ok env then Some (OpFinishedWithError, data, [], True)
                  else Some (OpFinishedSuccessfully, data,
                    [SendListing (listing\<lparr>lst_Resources := resources\<rparr>)], False)))"

section \<open>The life of an operator\<close>

text \<open>
  An operator is called once, in the initial state, and then lives on the messages it has sent to
  itself. The configuration records the messages still on their way to itself and the progress
  the requester has received; an event carries the environment's answers.
\<close>

datatype op_call = CallRead ReadResource | CallCreate CreateResource | CallUpdate UpdateResource
  | CallDelete DeleteResource | CallResume ResumeWaitingForResource

fun call_handler :: "plugin_env \<Rightarrow> PluginUpdateData \<Rightarrow> op_call \<Rightarrow> op_result" where
  "call_handler env data (CallRead r) = read env data r"
| "call_handler env data (CallCreate c) = create env data c"
| "call_handler env data (CallUpdate u) = update env data u"
| "call_handler env data (CallDelete d) = delete env data d"
| "call_handler env data (CallResume w) = resume env data w"

record op_machine =
  om_state :: op_state
  om_data :: PluginUpdateData
  om_pending :: "op_out list"
  om_sent :: "ProgressResult list"
  om_call :: "op_call option"

fun self_message :: "op_out \<Rightarrow> bool" where
  "self_message (SendRetry _ _) = True"
| "self_message (StatusTimeout _ _) = True"
| "self_message SendShutdown = True"
| "self_message _ = False"

fun progress_of :: "op_out \<Rightarrow> ProgressResult list" where
  "progress_of (SendProgress p) = [p]"
| "progress_of _ = []"

definition op_enter :: "op_machine \<Rightarrow> op_state \<Rightarrow> PluginUpdateData \<Rightarrow> op_out list \<Rightarrow> op_machine" where
  "op_enter m st data outs = m\<lparr>om_state := st, om_data := data,
     om_pending := filter self_message outs @ (if st \<noteq> om_state m then op_onStateChange st else []),
     om_sent := om_sent m @ concat (map progress_of outs)\<rparr>"

datatype op_event = EvCall plugin_env op_call | EvStatus plugin_env | EvRetry plugin_env

fun is_retry :: "op_event \<Rightarrow> bool" where
  "is_retry (EvRetry _) = True"
| "is_retry _ = False"

text \<open>The request a call carries, and whether its operation and its dynamic type agree.\<close>

fun request_ok :: "Operation \<Rightarrow> op_request \<Rightarrow> bool" where
  "request_ok PRead (ReqRead _) = True"
| "request_ok PCreate (ReqCreate _) = True"
| "request_ok PUpdate (ReqUpdate _) = True"
| "request_ok PDelete (ReqDelete _) = True"
| "request_ok _ _ = False"

fun call_ok :: "op_call \<Rightarrow> bool" where
  "call_ok (CallResume w) \<longleftrightarrow> rw_PreviousAttempts w \<ge> 1 \<and>
     request_ok (ck_ResourceOperation (rw_Request w)) (ck_Request (rw_Request w))"
| "call_ok _ \<longleftrightarrow> True"

inductive op_step :: "op_machine \<Rightarrow> op_event \<Rightarrow> op_machine \<Rightarrow> bool" where
  op_call: "om_state m = OpNotStarted \<Longrightarrow> call_ok c \<Longrightarrow>
     call_handler env (om_data m) c = Some (st, data, progress, outs) \<Longrightarrow>
     op_step m (EvCall env c)
       ((op_enter m st data (outs @ [SendProgress progress]))\<lparr>om_call := Some c\<rparr>)"
| op_status: "om_state m = OpWaitingForResource \<Longrightarrow> StatusTimeout ck i \<in> set (om_pending m) \<Longrightarrow>
     status env (om_data m) ck = Some (st, data, outs, err) \<Longrightarrow>
     op_step m (EvStatus env) (op_enter m st data outs)"
| op_retry: "om_state m = OpRetrying \<Longrightarrow> SendRetry rt i \<in> set (om_pending m) \<Longrightarrow>
     retry env (om_data m) rt = Some (st, data, outs, err) \<Longrightarrow>
     op_step m (EvRetry env) (op_enter m st data outs)"

text \<open>
  What a status check or a retry must keep of a request: everything but the properties of the
  resource whose plugin format is computed for the check.
\<close>

fun request_core :: "op_request \<Rightarrow> op_request" where
  "request_core (ReqRead r) =
     ReqRead (r\<lparr>rr_ExistingResource := (rr_ExistingResource r)\<lparr>res_Properties := RawNil\<rparr>\<rparr>)"
| "request_core (ReqCreate c) = ReqCreate (c\<lparr>cr_Resource := (cr_Resource c)\<lparr>res_Properties := RawNil\<rparr>\<rparr>)"
| "request_core (ReqUpdate u) =
     ReqUpdate (u\<lparr>ur_ExistingResource := (ur_ExistingResource u)\<lparr>res_Properties := RawNil\<rparr>\<rparr>)"
| "request_core (ReqDelete d) = ReqDelete (d\<lparr>dr_Resource := (dr_Resource d)\<lparr>res_Properties := RawNil\<rparr>\<rparr>)"
| "request_core ReqNil = ReqNil"

fun call_request :: "op_call \<Rightarrow> op_request" where
  "call_request (CallRead r) = ReqRead r"
| "call_request (CallCreate c) = ReqCreate c"
| "call_request (CallUpdate u) = ReqUpdate u"
| "call_request (CallDelete d) = ReqDelete d"
| "call_request (CallResume w) = ck_Request (rw_Request w)"

fun check_operation :: "status_check \<Rightarrow> Operation" where
  "check_operation (OpCheck c) = ck_ResourceOperation c"
| "check_operation op = check_Operation op"

text \<open>Plugins that hand back a progress with every result.\<close>

definition plugins_ok :: "plugin_env \<Rightarrow> bool" where
  "plugins_ok env \<longleftrightarrow> (\<forall>ns pl. env_ResourcePlugin env ns = Some pl \<longrightarrow>
     (\<forall>q. rp_Create pl q \<noteq> Inr None) \<and> (\<forall>q. rp_Update pl q \<noteq> Inr None) \<and>
     (\<forall>q. rp_Delete pl q \<noteq> Inr None) \<and> (\<forall>q. rp_Status pl q \<noteq> Inr None))"

section \<open>What one operation does\<close>

text \<open>
  The outcome of an operation on the request \<open>req\<close>: finished and reported as such, or pending
  with one message on its way that carries the request.
\<close>

inductive outcome ::
  "op_request \<Rightarrow> PluginUpdateData \<Rightarrow> op_state \<Rightarrow> PluginUpdateData \<Rightarrow> ProgressResult \<Rightarrow> op_out list \<Rightarrow> bool"
  for req data where
  success: "FinishedSuccessfully p \<Longrightarrow> outcome req data OpFinishedSuccessfully data p []"
| failure: "Failed p \<Longrightarrow> Failed (p\<lparr>pr_Attempts := pd_attempts data,
      pr_MaxAttempts := rc_MaxRetries (pd_config data) + 1\<rparr>) \<Longrightarrow>
    outcome req data OpFinishedWithError (data\<lparr>pd_LastStatusMessage := msg\<rparr>) p []"
| retrying: "InProgress p \<Longrightarrow> pd_attempts data \<le> rc_MaxRetries (pd_config data) + 1 \<Longrightarrow>
    pr_Attempts p = pd_attempts data \<Longrightarrow> pr_MaxAttempts p = rc_MaxRetries (pd_config data) + 1 \<Longrightarrow>
    request_ok (rt_ResourceOperation rt) (rt_Request rt) \<Longrightarrow>
    request_core (rt_Request rt) = request_core req \<Longrightarrow>
    outcome req data OpRetrying (data\<lparr>pd_LastStatusMessage := msg\<rparr>) p [SendRetry rt i]"
| waiting: "InProgress p \<Longrightarrow> pr_OperationStatus p \<noteq> OperationStatusFailure \<Longrightarrow>
    request_ok (ck_ResourceOperation ck) (ck_Request ck) \<Longrightarrow>
    request_core (ck_Request ck) = request_core req \<Longrightarrow>
    outcome req data OpWaitingForResource data p [StatusTimeout ck i]"

lemma outcome_failure:
  assumes "pr_OperationStatus p = OperationStatusFailure"
    "\<not> IsRecoverable (pr_ErrorCode p) \<or> pr_Attempts p = pd_attempts data \<and>
       pr_MaxAttempts p = rc_MaxRetries (pd_config data) + 1 \<and> pr_Attempts p > pr_MaxAttempts p"
  shows "outcome req data OpFinishedWithError (data\<lparr>pd_LastStatusMessage := msg\<rparr>) p []"
    and "outcome req data OpFinishedWithError data p []"
proof -
  show f: "outcome req data OpFinishedWithError (data\<lparr>pd_LastStatusMessage := msg\<rparr>) p []" for msg
    using assms by (intro outcome.failure) (auto simp: Failed_def)
  show "outcome req data OpFinishedWithError data p []"
    using f [of "pd_LastStatusMessage data"] by simp
qed

lemma outcome_errors:
  "outcome req data OpFinishedWithError data PluginNotFoundError []"
  "outcome req data OpFinishedWithError data (newUnforeseenError data) []"
  "outcome req data OpFinishedWithError (data\<lparr>pd_LastStatusMessage := msg\<rparr>)
     (newUnforeseenError (data\<lparr>pd_LastStatusMessage := msg\<rparr>)) []"
  by (rule outcome_failure; simp add: PluginNotFoundError_def newUnforeseenError_def
      IsRecoverable_def recoverableErrorCodes_def)+

lemma StatusCheck_request:
  assumes "request_ok (check_operation op) (as_request op)"
  shows "request_ok (ck_ResourceOperation (StatusCheck env op p)) (ck_Request (StatusCheck env op p))"
    and "request_core (ck_Request (StatusCheck env op p)) = request_core (as_request op)"
  using assms
  by (cases op; simp add: ReadResource_StatusCheck_def CreateResource_StatusCheck_def
      UpdateResource_StatusCheck_def DeleteResource_StatusCheck_def converted_def Let_def)+

lemma handlePluginResult_outcome:
  assumes "request_ok (check_operation op) (as_request op)"
  shows "\<exists>st d p outs. handlePluginResult env data op (Some r) = Some (st, d, p, outs) \<and>
    outcome (as_request op) data st d p outs"
proof -
  let ?max = "rc_MaxRetries (pd_config data) + 1"
  let ?rt = "case op of OpCheck val \<Rightarrow>
      \<lparr>rt_ResourceOperation = ck_ResourceOperation val, rt_Request = ck_Request val\<rparr>
    | _ \<Rightarrow> \<lparr>rt_ResourceOperation = check_Operation op, rt_Request = as_request op\<rparr>"
  have rt: "request_ok (rt_ResourceOperation ?rt) (rt_Request ?rt)" "rt_Request ?rt = as_request op"
    using assms by (cases op; simp)+
  define p where "p = (let q = r\<lparr>pr_Attempts := pd_attempts data, pr_MaxAttempts := ?max,
      pr_ModifiedTs := env_TimeNow env\<rparr> in if pd_attempts data > 1
      then q\<lparr>pr_StatusMessage := pd_LastStatusMessage data\<rparr> else q)"
  have pa: "pr_Attempts p = pd_attempts data" "pr_MaxAttempts p = ?max"
    by (simp_all add: p_def Let_def)
  note h = handlePluginResult_def [of env data op "Some r", simplified Let_def option.case,
    folded p_def [unfolded Let_def]]
  consider (s) "FinishedSuccessfully p"
    | (r) "\<not> FinishedSuccessfully p" "pr_OperationStatus p = OperationStatusFailure"
        "IsRecoverable (pr_ErrorCode p)" "pd_attempts data \<le> ?max"
    | (f) "\<not> FinishedSuccessfully p" "pr_OperationStatus p = OperationStatusFailure"
        "\<not> (IsRecoverable (pr_ErrorCode p) \<and> pd_attempts data \<le> ?max)"
    | (w) "\<not> FinishedSuccessfully p" "pr_OperationStatus p \<noteq> OperationStatusFailure"
    by blast
  then show ?thesis
  proof cases
    case s
    then show ?thesis using outcome.success by (auto simp: h)
  next
    case r
    then have "InProgress p" by (simp add: InProgress_iff pa)
    note ret = outcome.retrying [OF this r(4) pa rt(1)]
    show ?thesis
      using r ret [of "as_request op"] outcome_errors(3) by (auto simp: h rt(2))
  next
    case f
    then show ?thesis using outcome_failure(2) [OF f(2)] by (auto simp: h pa)
  next
    case w
    then have "InProgress p" by (simp add: InProgress_iff FinishedSuccessfully_def)
    then show ?thesis
      using w outcome.waiting [OF _ w(2) StatusCheck_request [OF assms]] by (auto simp: h)
  qed
qed

text \<open>A handler ends in such an outcome, or a plugin has handed it a nil progress.\<close>

definition returns :: "plugin_env \<Rightarrow> op_request \<Rightarrow> PluginUpdateData \<Rightarrow> op_result \<Rightarrow> bool" where
  "returns env req data res \<longleftrightarrow>
     (case res of None \<Rightarrow> \<not> plugins_ok env | Some (st, d, p, outs) \<Rightarrow> outcome req data st d p outs)"

lemma returns_errors [simp]:
  "returns env req data (Some (OpFinishedWithError, data, PluginNotFoundError, []))"
  "returns env req data (Some (OpFinishedWithError, data, newUnforeseenError data, []))"
  by (simp_all add: returns_def outcome_errors)

lemma handlePluginResult_returns:
  assumes "request_ok (check_operation op) (as_request op)" "r = None \<Longrightarrow> \<not> plugins_ok env"
  shows "returns env (as_request op) data (handlePluginResult env data op r)"
proof (cases r)
  case None
  then show ?thesis using assms(2) by (simp add: returns_def handlePluginResult_def)
next
  case (Some q)
  obtain st d p outs where "handlePluginResult env data op (Some q) = Some (st, d, p, outs)"
    "outcome (as_request op) data st d p outs"
    using handlePluginResult_outcome [OF assms(1)] by blast
  then show ?thesis by (simp add: Some returns_def)
qed

lemma plugins_okD:
  assumes "env_ResourcePlugin env ns = Some pl"
  shows "rp_Create pl cq = Inr None \<Longrightarrow> \<not> plugins_ok env"
    "rp_Update pl uq = Inr None \<Longrightarrow> \<not> plugins_ok env"
    "rp_Delete pl dq = Inr None \<Longrightarrow> \<not> plugins_ok env"
    "rp_Status pl sq = Inr None \<Longrightarrow> \<not> plugins_ok env"
  using assms unfolding plugins_ok_def by blast+

lemmas handle_cases = handlePluginResult_returns [of "OpRead r" for r, simplified]
  handlePluginResult_returns [of "OpCreate c" for c, simplified]
  handlePluginResult_returns [of "OpUpdate u" for u, simplified]
  handlePluginResult_returns [of "OpDelete d" for d, simplified]
  handlePluginResult_returns [of "OpCheck k" for k, simplified]

lemma read_returns: "returns env (ReqRead r) data (read env data r)"
  by (auto simp: read_def Let_def intro!: handle_cases split: option.split)

lemma create_returns: "returns env (ReqCreate c) data (create env data c)"
  by (auto simp: create_def intro!: handle_cases dest: plugins_okD split: option.split sum.split)

lemma update_returns: "returns env (ReqUpdate u) data (update env data u)"
  by (auto simp: update_def Let_def intro!: handle_cases dest: plugins_okD split: option.split sum.split)

lemma delete_returns: "returns env (ReqDelete d) data (delete env data d)"
  by (auto simp: delete_def intro!: handle_cases dest: plugins_okD split: option.split sum.split)

lemma retry_operation_returns:
  assumes "request_ok (rt_ResourceOperation rt) (rt_Request rt)"
  shows "returns env (rt_Request rt) data (retry_operation env data rt)"
  using assms read_returns create_returns update_returns delete_returns
  by (cases "rt_ResourceOperation rt"; cases "rt_Request rt") (simp_all add: retry_operation_def)

section \<open>Invariant of the machine\<close>

text \<open>The message on its way carries the request of the call.\<close>

definition carries :: "op_machine \<Rightarrow> Operation \<Rightarrow> op_request \<Rightarrow> bool" where
  "carries m op req \<longleftrightarrow> request_ok op req \<and>
     (\<exists>c. om_call m = Some c \<and> request_core req = request_core (call_request c))"

fun op_inv_state :: "op_state \<Rightarrow> op_machine \<Rightarrow> bool" where
  "op_inv_state OpNotStarted m \<longleftrightarrow>
     om_pending m = [] \<and> om_sent m = [] \<and> pd_attempts (om_data m) = 1"
| "op_inv_state OpWaitingForResource m \<longleftrightarrow>
     (\<exists>ck i. om_pending m = [StatusTimeout ck i] \<and> carries m (ck_ResourceOperation ck) (ck_Request ck)) \<and>
     om_sent m \<noteq> [] \<and> list_all InProgress (om_sent m)"
| "op_inv_state OpRetrying m \<longleftrightarrow>
     (\<exists>rt i. om_pending m = [SendRetry rt i] \<and> carries m (rt_ResourceOperation rt) (rt_Request rt)) \<and>
     om_sent m \<noteq> [] \<and> list_all InProgress (om_sent m) \<and>
     pd_attempts (om_data m) \<le> rc_MaxRetries (pd_config (om_data m)) + 1"
| "op_inv_state OpFinishedSuccessfully m \<longleftrightarrow>
     om_pending m = [SendShutdown] \<and>
     (\<exists>ps p. om_sent m = ps @ [p] \<and> list_all InProgress ps \<and> FinishedSuccessfully p)"
| "op_inv_state OpFinishedWithError m \<longleftrightarrow>
     SendShutdown \<in> set (om_pending m) \<and>
     (\<exists>ps p. om_sent m = ps @ [p] \<and> list_all InProgress ps \<and> (Failed p \<or> InProgress p))"
| "op_inv_state OpNoState m \<longleftrightarrow> False"

definition op_inv :: "op_machine \<Rightarrow> bool" where
  "op_inv m \<longleftrightarrow> pd_attempts (om_data m) \<ge> 1 \<and> op_inv_state (om_state m) m"

definition op_started :: "op_machine \<Rightarrow> bool" where
  "op_started m \<longleftrightarrow> (\<exists>cfg. m = \<lparr>om_state = OpNotStarted, om_data = op_Init cfg, om_pending = [],
     om_sent = [], om_call = None\<rparr>)"

definition awaiting :: "op_state \<Rightarrow> bool" where
  "awaiting st \<longleftrightarrow> st \<in> {OpNotStarted, OpWaitingForResource, OpRetrying}"

lemma op_inv_in_progress: "op_inv m \<Longrightarrow> awaiting (om_state m) \<Longrightarrow> list_all InProgress (om_sent m)"
  by (cases "om_state m") (auto simp: op_inv_def awaiting_def)

lemma outcome_inv:
  assumes "outcome req data st d p outs" "list_all InProgress (om_sent m)" "pd_attempts data \<ge> 1"
    and "om_call m' = Some c" "request_core req = request_core (call_request c)"
    and "awaiting (om_state m)" "om_state m' = st" "om_data m' = d"
    and "om_sent m' = om_sent m @ [p]" "om_pending m' = om_pending (op_enter m st d outs)"
  shows "op_inv m'"
  using assms
  by (cases rule: outcome.cases)
    (auto simp: op_inv_def carries_def op_enter_def op_onStateChange_def awaiting_def)

lemma outs_reported:
  "outcome req data st d p outs \<Longrightarrow>
    om_sent (op_enter m st d (outs @ [SendProgress q])) = om_sent m @ [q] \<and>
    om_pending (op_enter m st d (outs @ [SendProgress q])) = om_pending (op_enter m st d outs)"
  by (cases rule: outcome.cases) (auto simp: op_enter_def)

lemma outcome_config: "outcome req data st d p outs \<Longrightarrow>
    pd_config d = pd_config data \<and> pd_attempts d = pd_attempts data"
  by (cases rule: outcome.cases) auto

text \<open>The counters that a retry writes into the progress do not change how it is classified.\<close>

lemma outcome_attempts:
  assumes "outcome req data st d p outs"
  shows "outcome req data st d (p\<lparr>pr_Attempts := pd_attempts data,
    pr_MaxAttempts := rc_MaxRetries (pd_config data) + 1\<rparr>) outs"
  using assms
proof (cases rule: outcome.cases)
  case success
  then show ?thesis by (auto simp: progress_defs intro: outcome.success)
next
  case (failure msg)
  then show ?thesis by (auto intro!: outcome.failure)
next
  case (retrying rt msg i)
  then show ?thesis by (auto simp: InProgress_iff intro!: outcome.retrying)
next
  case (waiting ck i)
  then show ?thesis by (auto simp: InProgress_iff intro!: outcome.waiting)
qed

text \<open>A silent end: the operator stops with an error that the requester is not told.\<close>

lemma silent_inv:
  assumes "list_all InProgress (om_sent m)" "om_sent m \<noteq> []" "pd_attempts d \<ge> 1"
    and "awaiting (om_state m)" "\<forall>a \<in> set outs. progress_of a = []"
  shows "op_inv (op_enter m OpFinishedWithError d outs)"
proof -
  have "concat (map progress_of outs) = []" using assms(5) by simp
  moreover obtain ps p where "om_sent m = ps @ [p]" "list_all InProgress ps" "InProgress p"
    using assms(1,2) by (metis append_butlast_last_id list_all_append list.pred_inject(2))
  ultimately show ?thesis
    using assms(3,4) by (auto simp: op_inv_def op_enter_def op_onStateChange_def awaiting_def)
qed

lemma call_returns:
  assumes "call_ok c" "call_handler env data c = Some (st, d, p, outs)"
  obtains (outcome) data' where "outcome (call_request c) data' st d p outs"
      "pd_config data' = pd_config data" "pd_attempts data \<ge> 1 \<longrightarrow> pd_attempts data' \<ge> 1"
      "(\<forall>w. c \<noteq> CallResume w) \<longrightarrow> data' = data"
    | (lost) w where "c = CallResume w" "st = OpFinishedWithError" "p = zero_ProgressResult" "outs = []"
        "pd_attempts d \<ge> 1" "pd_config d = pd_config data"
proof (cases c)
  case (CallRead r)
  then show ?thesis using assms read_returns [of env r data] outcome by (simp add: returns_def)
next
  case (CallCreate r)
  then show ?thesis using assms create_returns [of env r data] outcome by (simp add: returns_def)
next
  case (CallUpdate r)
  then show ?thesis using assms update_returns [of env r data] outcome by (simp add: returns_def)
next
  case (CallDelete r)
  then show ?thesis using assms delete_returns [of env r data] outcome by (simp add: returns_def)
next
  case (CallResume w)
  let ?d = "data\<lparr>pd_attempts := rw_PreviousAttempts w\<rparr>"
  have ok: "request_ok (ck_ResourceOperation (rw_Request w)) (ck_Request (rw_Request w))"
    "rw_PreviousAttempts w \<ge> 1"
    using assms(1) CallResume by simp_all
  show ?thesis
  proof (cases "env_ResourcePlugin env (rw_Namespace w)")
    case None
    then show ?thesis using lost assms(2) CallResume ok(2) by (auto simp: resume_def)
  next
    case (Some pl)
    then have "returns env (ck_Request (rw_Request w)) ?d (resume env data w)"
      using ok(1) by (auto simp: resume_def Let_def intro!: handle_cases dest: plugins_okD
          split: sum.split)
    then show ?thesis
      using outcome [of ?d] assms(2) CallResume ok(2) by (simp add: returns_def)
  qed
qed

lemma call_inv:
  assumes "op_inv m" "om_state m = OpNotStarted" "call_ok c"
    and "call_handler env (om_data m) c = Some (st, d, p, outs)"
  shows "op_inv ((op_enter m st d (outs @ [SendProgress p]))\<lparr>om_call := Some c\<rparr>)"
proof -
  have m: "pd_attempts (om_data m) \<ge> 1" "om_sent m = []" "awaiting (om_state m)"
    using assms(1,2) by (simp_all add: op_inv_def awaiting_def)
  show ?thesis
    using assms(3,4)
  proof (cases rule: call_returns)
    case (outcome data')
    then show ?thesis
      using outcome_inv [OF outcome(1), of m] m outs_reported [OF outcome(1), of m]
      by (simp add: op_enter_def)
  next
    case (lost w)
    have "InProgress zero_ProgressResult" by (simp add: InProgress_iff zero_ProgressResult_def)
    then show ?thesis
      using lost m by (auto simp: op_inv_def op_enter_def op_onStateChange_def awaiting_def)
  qed
qed

lemma is_retry_out_silent:
  "\<forall>a \<in> set (filter (\<lambda>a. case a of SendRetry _ _ \<Rightarrow> True | _ \<Rightarrow> False) acts). progress_of a = []"
  by (auto split: op_out.splits)

lemma status_inv:
  assumes "op_inv m" "om_state m = OpWaitingForResource" "StatusTimeout ck i \<in> set (om_pending m)"
    and st: "status env (om_data m) ck = Some (st, d, outs, err)"
  shows "op_inv (op_enter m st d outs) \<and> pd_config d = pd_config (om_data m) \<and>
    pd_attempts d = pd_attempts (om_data m)"
proof -
  have m: "pd_attempts (om_data m) \<ge> 1" "om_sent m \<noteq> []" "list_all InProgress (om_sent m)"
    "awaiting (om_state m)" and c: "carries m (ck_ResourceOperation ck) (ck_Request ck)"
    using assms(1-3) by (auto simp: op_inv_def awaiting_def)
  have ret: "returns env (ck_Request ck) (om_data m) (handlePluginResult env (om_data m) (OpCheck ck) r)"
    if "r = None \<Longrightarrow> \<not> plugins_ok env" for r
    using c that by (auto simp: carries_def intro!: handle_cases)
  obtain c where c': "om_call m = Some c" "request_core (ck_Request ck) = request_core (call_request c)"
    using c by (auto simp: carries_def)
  consider (silent) "st = OpFinishedWithError" "d = om_data m" "outs = []"
    | (result) st' p acts where "returns env (ck_Request ck) (om_data m) (Some (st', d, p, acts))"
        "(st, outs) = (if env_Send_ok env then (st', acts @ [SendProgress p]) else
          (OpFinishedWithError, filter (\<lambda>a. case a of SendRetry _ _ \<Rightarrow> True | _ \<Rightarrow> False) acts))"
    using st ret plugins_okD(4)
    by (auto simp: status_def split: option.splits sum.splits prod.splits if_splits) metis+
  then show ?thesis
  proof cases
    case silent
    then show ?thesis using silent_inv [OF m(3,2,1,4), of "[]"] by simp
  next
    case (result st' p acts)
    then have oc: "outcome (ck_Request ck) (om_data m) st' d p acts" by (simp add: returns_def)
    note d = outcome_config [OF oc]
    show ?thesis
    proof (cases "env_Send_ok env")
      case True
      then show ?thesis
        using result outcome_inv [OF oc m(3,1) _ c'(2) m(4), of "op_enter m st d outs"] c'(1) d
          outs_reported [OF oc, of m] by (simp add: op_enter_def)
    next
      case False
      then show ?thesis
        using result d m silent_inv [OF m(3,2) _ m(4) is_retry_out_silent] by simp
    qed
  qed
qed

lemma retry_inv:
  assumes "op_inv m" "om_state m = OpRetrying" "SendRetry rt i \<in> set (om_pending m)"
    and st: "retry env (om_data m) rt = Some (st, d, outs, err)"
  shows "op_inv (op_enter m st d outs) \<and> pd_config d = pd_config (om_data m) \<and>
    pd_attempts d = pd_attempts (om_data m) + 1"
proof -
  let ?d = "(om_data m)\<lparr>pd_attempts := pd_attempts (om_data m) + 1\<rparr>"
  have m: "pd_attempts ?d \<ge> 1" "om_sent m \<noteq> []" "list_all InProgress (om_sent m)"
    "awaiting (om_state m)" and c: "carries m (rt_ResourceOperation rt) (rt_Request rt)"
    using assms(1-3) by (auto simp: op_inv_def awaiting_def)
  obtain c where c': "om_call m = Some c" "request_core (rt_Request rt) = request_core (call_request c)"
    using c by (auto simp: carries_def)
  have "returns env (rt_Request rt) ?d (retry_operation env ?d rt)"
    using c by (auto simp: carries_def intro: retry_operation_returns)
  then obtain st' d' p acts where oc: "outcome (rt_Request rt) ?d st' d' p acts"
    and r: "retry_operation env ?d rt = Some (st', d', p, acts)"
    using st by (auto simp: retry_def Let_def returns_def split: option.splits)
  note d = outcome_config [OF oc]
  let ?p = "p\<lparr>pr_Attempts := pd_attempts ?d, pr_MaxAttempts := rc_MaxRetries (pd_config ?d) + 1\<rparr>"
  have oc': "outcome (rt_Request rt) ?d st' d' ?p acts"
    using oc by (rule outcome_attempts)
  show ?thesis
  proof (cases "env_Send_ok env")
    case True
    then have "st = st'" "d = d'" "outs = acts @ [SendProgress ?p]"
      using st r by (auto simp: retry_def Let_def)
    then show ?thesis
      using outcome_inv [OF oc' m(3,1) _ c'(2) m(4), of "op_enter m st d outs"] c'(1) d
        outs_reported [OF oc', of m] by (simp add: op_enter_def)
  next
    case False
    then have "st = OpFinishedWithError" "d = ?d"
      "outs = filter (\<lambda>a. case a of SendRetry _ _ \<Rightarrow> True | _ \<Rightarrow> False) acts"
      using st r by (auto simp: retry_def Let_def)
    then show ?thesis
      using m silent_inv [OF m(3,2) _ m(4) is_retry_out_silent] by simp
  qed
qed

lemma op_started_inv: "op_started m \<Longrightarrow> op_inv m"
  by (auto simp: op_started_def op_inv_def op_Init_def)

lemma op_step_inv: "op_inv m \<Longrightarrow> op_step m e m' \<Longrightarrow> op_inv m'"
  by (erule op_step.cases) (auto dest: call_inv status_inv retry_inv)

interpretation po: invariant_machine op_started op_step op_inv
  using op_started_inv op_step_inv by unfold_locales

text \<open>The retries an operator has left.\<close>

definition retries_left :: "op_machine \<Rightarrow> nat" where
  "retries_left m = nat (rc_MaxRetries (pd_config (om_data m)) + 2 - pd_attempts (om_data m))"

lemma op_enter_data [simp]: "om_data (op_enter m st d outs) = d"
  by (simp add: op_enter_def)

lemma call_retries_left:
  assumes "op_inv m" "om_state m = OpNotStarted" "call_ok c"
    and "call_handler env (om_data m) c = Some (st, d, p, outs)"
  shows "pd_config d = pd_config (om_data m) \<and> pd_attempts d \<ge> 1"
  using assms(3,4)
proof (cases rule: call_returns)
  case (outcome data')
  then show ?thesis
    using outcome_config [OF outcome(1)] assms(1,2) by (simp add: op_inv_def)
next
  case (lost w)
  then show ?thesis by simp
qed

lemma op_step_retries:
  assumes "op_inv m" "op_step m e m'"
  shows "retries_left m' + (if is_retry e then 1 else 0) \<le> retries_left m"
  using assms(2)
proof cases
  case (op_call c env st data progress outs)
  then have "pd_config data = pd_config (om_data m) \<and> pd_attempts data \<ge> 1"
    using call_retries_left [OF assms(1)] by blast
  moreover have "pd_attempts (om_data m) = 1"
    using assms(1) op_call by (simp add: op_inv_def)
  ultimately show ?thesis using op_call by (auto simp: retries_left_def intro!: nat_mono)
next
  case (op_status ck i env st data outs err)
  then show ?thesis
    using status_inv [OF assms(1), of ck i env st data outs err] by (simp add: retries_left_def)
next
  case (op_retry rt i env st data outs err)
  have "pd_attempts (om_data m) \<le> rc_MaxRetries (pd_config (om_data m)) + 1"
    using assms(1) op_retry(3) by (simp add: op_inv_def)
  then show ?thesis
    using retry_inv [OF assms(1), of rt i env st data outs err] op_retry
    by (simp add: retries_left_def)
qed

lemma op_step_call:
  "op_step m (EvCall env c) m' \<Longrightarrow> om_call m' = Some c"
  "op_step m (EvStatus env) m' \<Longrightarrow> om_call m' = om_call m"
  by (auto elim: op_step.cases simp: op_enter_def)

section \<open>Properties\<close>

text \<open>C31: an operator retries its operation at most \<open>MaxRetries + 1\<close> times, however the plugin
  behaves and however often it polls the status in between.\<close>

theorem operator_retries_bounded:
  assumes "op_started m" "po.run m es m'"
  shows "int (length (filter is_retry es)) \<le> max 0 (rc_MaxRetries (pd_config (om_data m)) + 1)"
proof -
  have "length (filter is_retry es) + retries_left m' \<le> retries_left m"
    using po.run_bound [OF assms(2) op_started_inv [OF assms(1)], of retries_left is_retry]
      op_step_retries by blast
  moreover have "pd_attempts (om_data m) = 1"
    using assms(1) by (auto simp: op_started_def op_Init_def)
  ultimately show ?thesis by (simp add: retries_left_def)
qed

text \<open>the requester hears the truth. In every reachable state of an operator all reports but the
  last are in progress; the last one is a success exactly in the state that finished successfully,
  is still in progress while the operator waits or is about to retry, and no operator that ended
  with an error has reported a success.\<close>

theorem operator_reports:
  assumes "po.reach m"
  shows "list_all InProgress (butlast (om_sent m)) \<and>
    (om_state m = OpNotStarted \<longleftrightarrow> om_sent m = []) \<and>
    (om_state m = OpFinishedSuccessfully \<longleftrightarrow> om_sent m \<noteq> [] \<and> FinishedSuccessfully (last (om_sent m))) \<and>
    (om_state m \<in> {OpWaitingForResource, OpRetrying} \<longrightarrow> InProgress (last (om_sent m))) \<and>
    om_state m \<noteq> OpNoState"
proof -
  have no: "InProgress q \<Longrightarrow> \<not> FinishedSuccessfully q" for q
    by (simp add: progress_defs)
  have "list_all InProgress ps \<Longrightarrow> ps \<noteq> [] \<Longrightarrow> InProgress (last ps) \<and> list_all InProgress (butlast ps)" for ps
    by (induction ps) auto
  then show ?thesis
    using po.reach_inv [OF assms]
    by (cases "om_state m") (auto simp: op_inv_def dest: no Failed_not_FinishedSuccessfully)
qed

text \<open>C14: an operator never gets stuck and never loses its request. After the call it has either
  finished, with a shutdown on its way, or exactly one message is on its way that fits its state,
  carries the request of the call (up to the plugin format of the properties) and, delivered to
  plugins that answer with a progress, is handled without a panic.\<close>

theorem operator_never_stuck:
  assumes "po.reach m" "om_state m \<noteq> OpNotStarted" "plugins_ok env"
  shows "om_state m \<in> {OpFinishedSuccessfully, OpFinishedWithError} \<and> SendShutdown \<in> set (om_pending m) \<or>
    (\<exists>c req. om_call m = Some c \<and> request_core req = request_core (call_request c) \<and>
      (om_state m = OpWaitingForResource \<and>
         (\<exists>ck i. om_pending m = [StatusTimeout ck i] \<and> ck_Request ck = req \<and>
           status env (om_data m) ck \<noteq> None) \<or>
       om_state m = OpRetrying \<and>
         (\<exists>rt i. om_pending m = [SendRetry rt i] \<and> rt_Request rt = req \<and>
           retry env (om_data m) rt \<noteq> None)))"
proof -
  have st: "status env d ck \<noteq> None"
    if "request_ok (ck_ResourceOperation ck) (ck_Request ck)" for d ck
  proof -
    have "handlePluginResult env d (OpCheck ck) r \<noteq> None" if "r \<noteq> None" for r
      using that handlePluginResult_outcome [of "OpCheck ck" env d] \<open>request_ok _ _\<close> by fastforce
    then show ?thesis
      using plugins_okD(4) [of env] assms(3)
      by (auto simp: status_def split: option.splits sum.splits) (metis not_None_eq)
  qed
  have rt: "retry env d rt \<noteq> None" if "request_ok (rt_ResourceOperation rt) (rt_Request rt)" for d rt
    using retry_operation_returns [OF that, of env "d\<lparr>pd_attempts := pd_attempts d + 1\<rparr>"] assms(3)
    by (auto simp: retry_def returns_def Let_def split: option.splits)
  show ?thesis
    using po.reach_inv [OF assms(1)] assms(2) st rt
    by (cases "om_state m") (auto simp: op_inv_def carries_def)
qed

definition sample_plugin :: ResourcePlugin where
  "sample_plugin = \<lparr>rp_Read = (\<lambda>_. Inr \<lparr>rds_ResourceType = [], rds_Properties = RawNil, rds_ErrorCode = ErrAccessDenied\<rparr>),
     rp_Create = (\<lambda>_. Inr (Some (zero_ProgressResult\<lparr>pr_Operation := PCreate,
        pr_OperationStatus := OperationStatusInProgress\<rparr>))),
     rp_Update = (\<lambda>_. Inl ''down''), rp_Delete = (\<lambda>_. Inl ''down''),
     rp_Status = (\<lambda>_. Inr (Some (zero_ProgressResult\<lparr>pr_Operation := PCreate,
        pr_OperationStatus := OperationStatusFailure, pr_ErrorCode := ErrThrottling\<rparr>))),
     rp_List = (\<lambda>i _. if i = 0
        then Inr \<lparr>lis_ResourceType = [], lis_Resources = [\<lparr>lr_NativeID = ''a'', lr_Properties = RawNil\<rparr>],
          lis_NextPageToken = Some ''2''\<rparr>
        else Inr \<lparr>lis_ResourceType = [], lis_Resources = [\<lparr>lr_NativeID = ''b'', lr_Properties = RawNil\<rparr>],
          lis_NextPageToken = None\<rparr>)\<rparr>"

definition sample_penv :: plugin_env where
  "sample_penv = \<lparr>env_ResourcePlugin = (\<lambda>_. Some sample_plugin), env_ConvertToPluginFormat = Some,
     env_gjson = get_key, env_ord = id, env_TimeNow = 5, env_SendAfter_ok = True, env_Send_ok = True\<rparr>"

definition sample_create :: CreateResource where
  "sample_create = \<lparr>cr_Namespace = ''AWS'', cr_Resource = sample_resource, cr_Target = zero_Target\<rparr>"

definition sample_m0 :: op_machine where
  "sample_m0 = \<lparr>om_state = OpNotStarted, om_data = op_Init \<lparr>rc_StatusCheckInterval = 5,
     rc_MaxRetries = 2, rc_RetryDelay = 1\<rparr>, om_pending = [], om_sent = [], om_call = None\<rparr>"

text \<open>The successors of the sample machine: called, polled, retried.\<close>

definition sample_m1 :: op_machine where
  "sample_m1 = (case call_handler sample_penv (om_data sample_m0) (CallCreate sample_create) of
     Some (st, d, p, outs) \<Rightarrow> (op_enter sample_m0 st d (outs @ [SendProgress p]))
       \<lparr>om_call := Some (CallCreate sample_create)\<rparr>
   | None \<Rightarrow> sample_m0)"

definition sample_m2 :: op_machine where
  "sample_m2 = (case om_pending sample_m1 of
     [StatusTimeout ck i] \<Rightarrow> (case status sample_penv (om_data sample_m1) ck of
        Some (st, d, outs, e) \<Rightarrow> op_enter sample_m1 st d outs | None \<Rightarrow> sample_m1)
   | _ \<Rightarrow> sample_m1)"

definition sample_m3 :: op_machine where
  "sample_m3 = (case om_pending sample_m2 of
     [SendRetry rt i] \<Rightarrow> (case retry sample_penv (om_data sample_m2) rt of
        Some (st, d, outs, e) \<Rightarrow> op_enter sample_m2 st d outs | None \<Rightarrow> sample_m2)
   | _ \<Rightarrow> sample_m2)"

lemma sample_m0_started: "op_started sample_m0"
  by (auto simp: op_started_def sample_m0_def)

lemma sample_states: "om_state sample_m1 = OpWaitingForResource" "om_state sample_m2 = OpRetrying"
  "om_state sample_m3 = OpWaitingForResource" "map pr_Attempts (om_sent sample_m3) = [1, 1, 2]"
  by code_simp+

lemma sample_step1: "op_step sample_m0 (EvCall sample_penv (CallCreate sample_create)) sample_m1"
proof -
  have "map_option (\<lambda>_. ()) (call_handler sample_penv (om_data sample_m0) (CallCreate sample_create)) = Some ()"
    by code_simp
  then obtain st d p outs where "call_handler sample_penv (om_data sample_m0) (CallCreate sample_create) =
      Some (st, d, p, outs)"
    by auto
  then show ?thesis
    using op_step.op_call [of sample_m0 "CallCreate sample_create" sample_penv st d p outs]
    by (simp add: sample_m1_def) (simp add: sample_m0_def)
qed

lemma sample_step2: "op_step sample_m1 (EvStatus sample_penv) sample_m2"
proof -
  have "(case om_pending sample_m1 of [StatusTimeout ck i] \<Rightarrow>
      status sample_penv (om_data sample_m1) ck \<noteq> None | _ \<Rightarrow> False)"
    by code_simp
  then obtain ck i where "om_pending sample_m1 = [StatusTimeout ck i]"
    "status sample_penv (om_data sample_m1) ck \<noteq> None"
    by (auto split: list.splits op_out.splits)
  then show ?thesis
    using op_step.op_status [OF sample_states(1), of ck i sample_penv] by (auto simp: sample_m2_def)
qed

lemma sample_step3: "op_step sample_m2 (EvRetry sample_penv) sample_m3"
proof -
  have "(case om_pending sample_m2 of [SendRetry rt i] \<Rightarrow>
      retry sample_penv (om_data sample_m2) rt \<noteq> None | _ \<Rightarrow> False)"
    by code_simp
  then obtain rt i where "om_pending sample_m2 = [SendRetry rt i]"
    "retry sample_penv (om_data sample_m2) rt \<noteq> None"
    by (auto split: list.splits op_out.splits)
  then show ?thesis
    using op_step.op_retry [OF sample_states(2), of rt i sample_penv] by (auto simp: sample_m3_def)
qed

lemma sample_run: "po.run sample_m0
    [EvCall sample_penv (CallCreate sample_create), EvStatus sample_penv, EvRetry sample_penv] sample_m3"
  by (rule po.run_cons [OF sample_step1 po.run_cons [OF sample_step2
        po.run_cons [OF sample_step3 po.run_nil]]])

lemma sample_reach: "po.reach sample_m3" "po.reach sample_m2"
  using po.run_reach [OF sample_run] po.reach_start [OF sample_m0_started]
    po.reach_step [OF po.reach_step [OF _ sample_step1] sample_step2] by blast+

theorem operator_retries_bounded_witness:
  "length (filter is_retry [EvCall sample_penv (CallCreate sample_create), EvStatus sample_penv,
     EvRetry sample_penv]) = 1 \<and>
   int (length (filter is_retry [EvCall sample_penv (CallCreate sample_create), EvStatus sample_penv,
     EvRetry sample_penv])) \<le> 3"
  using operator_retries_bounded [OF sample_m0_started sample_run]
  by (simp add: sample_m0_def op_Init_def)

theorem operator_reports_witness:
  "InProgress (last (om_sent sample_m3)) \<and> list_all InProgress (butlast (om_sent sample_m3)) \<and>
   map pr_Attempts (om_sent sample_m3) = [1, 1, 2]"
  using operator_reports [OF sample_reach(1)] sample_states by simp

lemma sample_penv_ok: "plugins_ok sample_penv"
  by (simp add: plugins_ok_def sample_penv_def sample_plugin_def)

theorem operator_never_stuck_witness:
  "\<exists>rt i. om_pending sample_m2 = [SendRetry rt i] \<and>
     request_core (rt_Request rt) = request_core (ReqCreate sample_create) \<and>
     retry sample_penv (om_data sample_m2) rt \<noteq> None"
proof -
  have "om_call sample_m2 = Some (CallCreate sample_create)"
    using op_step_call(1) [OF sample_step1] op_step_call(2) [OF sample_step2] by simp
  then show ?thesis
    using operator_never_stuck [OF sample_reach(2) _ sample_penv_ok] sample_states(2) by auto
qed

text \<open>a read for a synchronization or before a delete reports success whatever error code the
  plugin returns: a missing resource keeps its code, and every other code, such as a denied
  access, is dropped, so that the requester takes the (possibly empty) properties of the failed
  read for the resource's current state.\<close>

theorem read_masks_error_codes:
  assumes "env_ResourcePlugin env (Namespace (rr_ExistingResource op)) = Some plugin"
    and "\<And>q. rp_Read plugin q = Inr result" and "TreatNotFoundAsSuccess op"
  shows "\<exists>p. read env data op = Some (OpFinishedSuccessfully, data, p, []) \<and>
    pr_Operation p = PRead \<and> pr_OperationStatus p = OperationStatusSuccess \<and>
    pr_ErrorCode p = (if rds_ErrorCode result = ErrNotFound then ErrNotFound else ErrNotSet) \<and>
    pr_ResourceProperties p =
      (if rds_ErrorCode result = ErrNotFound then RawNil else rds_Properties result)"
  using assms
  by (simp add: read_def handlePluginResult_def FinishedSuccessfully_def zero_ProgressResult_def Let_def)

definition sample_sync :: ReadResource where
  "sample_sync = \<lparr>rr_Namespace = [], rr_NativeID = ''id'', rr_Target = zero_Target,
     rr_Resource = zero_Resource, rr_ExistingResource = zero_Resource, rr_IsSync = True,
     rr_IsDelete = False, rr_RedactSensitive = False\<rparr>"

theorem read_masks_error_codes_witness:
  "\<exists>p. read sample_penv (om_data sample_m0) sample_sync =
     Some (OpFinishedSuccessfully, om_data sample_m0, p, []) \<and> pr_ErrorCode p = ErrNotSet \<and>
     rds_ErrorCode (projr (rp_Read sample_plugin undefined)) = ErrAccessDenied"
proof -
  have "env_ResourcePlugin sample_penv (Namespace (rr_ExistingResource sample_sync)) = Some sample_plugin"
    "\<And>q. rp_Read sample_plugin q =
      Inr \<lparr>rds_ResourceType = [], rds_Properties = RawNil, rds_ErrorCode = ErrAccessDenied\<rparr>"
    "TreatNotFoundAsSuccess sample_sync"
    by (simp_all add: sample_penv_def sample_plugin_def TreatNotFoundAsSuccess_def sample_sync_def)
  from read_masks_error_codes [OF this, of "om_data sample_m0"] this(2) show ?thesis by auto
qed

subsection \<open>Listing\<close>

text \<open>A complete sequence of pages: every page but the last names the next one.\<close>

fun page_chain :: "ResourcePlugin \<Rightarrow> ListResources \<Rightarrow> nat \<Rightarrow> string option \<Rightarrow> ListResult list \<Rightarrow> bool" where
  "page_chain plugin op i tok [] \<longleftrightarrow> False"
| "page_chain plugin op i tok (r # rs) \<longleftrightarrow>
     rp_List plugin i \<lparr>liq_ResourceType = ls_ResourceType op, liq_Target = ls_Target op,
       liq_PageSize = 100, liq_PageToken = tok, liq_AdditionalProperties = ls_ListParameters op\<rparr> = Inr r \<and>
     (if lis_NextPageToken r \<in> {None, Some ''''} then rs = []
      else page_chain plugin op (Suc i) (lis_NextPageToken r) rs)"

lemma list_pages_chain:
  "page_chain plugin op i tok rs \<Longrightarrow> length rs \<le> fuel \<Longrightarrow>
    list_pages plugin op fuel i tok acc = Some (Inr (acc @ concat (map lis_Resources rs)))"
proof (induction rs arbitrary: i tok fuel acc)
  case Nil
  then show ?case by simp
next
  case (Cons r rs)
  then obtain f where "fuel = Suc f" by (cases fuel) auto
  then show ?case using Cons by (auto simp: Let_def split: if_splits)
qed

text \<open>listing terminates with the pages: when the plugin's answers form a finite sequence of
  pages, the operator finishes successfully and sends exactly one listing, for the type, target
  and parameters asked for, with the resources of all pages in order.\<close>

theorem list_collects_pages:
  assumes "env_ResourcePlugin env (ls_Namespace op) = Some plugin" "env_Send_ok env"
    and "page_chain plugin op 0 None pages" "length pages \<le> fuel"
  shows "op_list env fuel data op = Some (OpFinishedSuccessfully, data, [SendListing
    \<lparr>lst_Namespace = ls_Namespace op, lst_Resources = concat (map lis_Resources pages),
     lst_ResourceType = ls_ResourceType op, lst_ListParameters = ls_ListParameters op,
     lst_Target = ls_Target op, lst_Error = None\<rparr>], False)"
  using assms(1,2) list_pages_chain [OF assms(3,4), of "[]"] by (simp add: op_list_def)

definition sample_listing :: ListResources where
  "sample_listing = \<lparr>ls_Namespace = ''AWS'', ls_ResourceType = ''t'', ls_Target = zero_Target,
     ls_ListParameters = []\<rparr>"

theorem list_collects_pages_witness:
  "map_option (\<lambda>(st, d, outs, e). (st, map (\<lambda>out. case out of SendListing l \<Rightarrow> map lr_NativeID (lst_Resources l)
     | _ \<Rightarrow> []) outs)) (op_list sample_penv 2 (om_data sample_m0) sample_listing) =
   Some (OpFinishedSuccessfully, [[''a'', ''b'']])"
proof -
  let ?p = "\<lambda>i. projr (rp_List sample_plugin i undefined)"
  have 1: "env_ResourcePlugin sample_penv (ls_Namespace sample_listing) = Some sample_plugin"
    "env_Send_ok sample_penv" "page_chain sample_plugin sample_listing 0 None [?p 0, ?p 1]"
    "length [?p 0, ?p 1] \<le> 2"
    by (simp_all add: sample_penv_def sample_plugin_def)
  show ?thesis
    unfolding list_collects_pages [OF 1] by (simp add: sample_plugin_def)
qed

text \<open>a listing that ends always answers its requester, with the type, target and parameters that
  were asked for, also when the plugin fails: the error is then in the listing and the list of
  resources is empty.\<close>

theorem list_always_answers:
  assumes "env_ResourcePlugin env (ls_Namespace op) = Some plugin" "env_Send_ok env"
    and "op_list env fuel data op = Some (st, data', outs, err)"
  shows "\<exists>l. outs = [SendListing l] \<and> lst_Namespace l = ls_Namespace op \<and>
    lst_ResourceType l = ls_ResourceType op \<and> lst_ListParameters l = ls_ListParameters op \<and>
    lst_Target l = ls_Target op \<and> \<not> err \<and> data' = data \<and>
    (st = OpFinishedSuccessfully \<and> lst_Error l = None \<or>
     st = OpFinishedWithError \<and> lst_Error l \<noteq> None \<and> lst_Resources l = [])"
  using assms by (auto simp: op_list_def Let_def split: option.splits sum.splits)

theorem list_always_answers_witness:
  "\<exists>st data' outs err l. op_list sample_penv 2 (om_data sample_m0) sample_listing = Some (st, data', outs, err) \<and>
     outs = [SendListing l] \<and> lst_ResourceType l = ''t''"
proof -
  have "map_option (\<lambda>_. ()) (op_list sample_penv 2 (om_data sample_m0) sample_listing) = Some ()"
    by code_simp
  then obtain st data' outs err
    where 1: "op_list sample_penv 2 (om_data sample_m0) sample_listing = Some (st, data', outs, err)"
    by auto
  have "env_ResourcePlugin sample_penv (ls_Namespace sample_listing) = Some sample_plugin"
    "env_Send_ok sample_penv" "ls_ResourceType sample_listing = ''t''"
    by (simp_all add: sample_penv_def sample_listing_def)
  with list_always_answers [OF this(1,2) 1] 1 show ?thesis by auto
qed

end
