(* ===== verification/Resource_Labeler.thy ===== *)
theory Resource_Labeler
  imports Resource_Update
begin

text \<open>
  \<^verbatim>\<open>pkg/model/tags.go\<close> and
  \<^verbatim>\<open>internal/metastructure/resource_update/resource_labeler.go\<close>: the tags of a discovered
  resource and the label it is given. \<^verbatim>\<open>encoding/json\<close> matches the keys of an object with
  the fields of a struct without regard to case, in the order of the text. The datastore's
  \<^verbatim>\<open>LatestLabelForResource\<close> is the argument \<open>latest\<close>, \<open>None\<close> for an error.
\<close>

section \<open>Numbers as text\<close>

fun nat_string :: "nat \<Rightarrow> string" where
  "nat_string n = (if n < 10 then [char_of (48 + n)]
     else nat_string (n div 10) @ [char_of (48 + n mod 10)])"

declare nat_string.simps [simp del]

definition int_string :: "int \<Rightarrow> string" where
  "int_string i = (if i < 0 then CHR ''-'' # nat_string (nat (- i)) else nat_string (nat i))"

definition is_digit :: "char \<Rightarrow> bool" where
  "is_digit c \<longleftrightarrow> 48 \<le> (of_char c :: nat) \<and> (of_char c :: nat) \<le> 57"

definition digits_value :: "string \<Rightarrow> nat" where
  "digits_value s = foldl (\<lambda>a c. 10 * a + (of_char c - 48)) 0 s"

text \<open>\<^verbatim>\<open>strconv.Atoi\<close> and the wrap-around of Go's 64-bit \<^verbatim>\<open>int\<close>.\<close>

definition Atoi :: "string \<Rightarrow> int option" where
  "Atoi s =
     (let neg = (case s of c # _ \<Rightarrow> c = CHR ''-'' | [] \<Rightarrow> False);
          ds = (case s of c # r \<Rightarrow> if c = CHR ''-'' \<or> c = CHR ''+'' then r else s | [] \<Rightarrow> s)
      in if ds = [] \<or> \<not> list_all is_digit ds then None
         else let v = int (digits_value ds); n = (if neg then - v else v)
              in if - (2 ^ 63) \<le> n \<and> n < 2 ^ 63 then Some n else None)"

definition wrap64 :: "int \<Rightarrow> int" where
  "wrap64 i = (i + 2 ^ 63) mod 2 ^ 64 - 2 ^ 63"

section \<open>Tags\<close>

record Tag =
  tag_Key :: string
  tag_Value :: string

definition equal_fold :: "string \<Rightarrow> string \<Rightarrow> bool" where
  "equal_fold a b \<longleftrightarrow>
     (let lower = (\<lambda>c. if 65 \<le> (of_char c :: nat) \<and> (of_char c :: nat) \<le> 90
        then char_of ((of_char c :: nat) + 32) else c)
      in map lower a = map lower b)"

text \<open>Decoding into a string field: a null leaves the field as it is, any other kind is an error.\<close>

fun decode_string :: "json \<Rightarrow> string \<Rightarrow> string option" where
  "decode_string (JStr s) old = Some s"
| "decode_string JNull old = Some old"
| "decode_string _ old = None"

fun decode_tag :: "json \<Rightarrow> Tag option" where
  "decode_tag (JObj kvs) = ofold (\<lambda>(k, v) t.
       if equal_fold k ''Key'' then map_option (\<lambda>s. t\<lparr>tag_Key := s\<rparr>) (decode_string v (tag_Key t))
       else if equal_fold k ''Value'' then map_option (\<lambda>s. t\<lparr>tag_Value := s\<rparr>) (decode_string v (tag_Value t))
       else Some t) kvs \<lparr>tag_Key = [], tag_Value = []\<rparr>"
| "decode_tag JNull = Some \<lparr>tag_Key = [], tag_Value = []\<rparr>"
| "decode_tag _ = None"

fun decode_tag_slice :: "json \<Rightarrow> Tag list option" where
  "decode_tag_slice (JArr js) = those (map decode_tag js)"
| "decode_tag_slice JNull = Some []"
| "decode_tag_slice _ = None"

fun decode_string_map :: "json \<Rightarrow> (string \<times> string) list option" where
  "decode_string_map (JObj kvs) = ofold (\<lambda>(k, v) m.
       map_option (\<lambda>s. AList.update k s m) (decode_string v '''')) kvs []"
| "decode_string_map JNull = Some []"
| "decode_string_map _ = None"

definition FlexibleTags_UnmarshalJSON ::
  "((string \<times> string) list \<Rightarrow> (string \<times> string) list) \<Rightarrow> json \<Rightarrow> Tag list option" where
  "FlexibleTags_UnmarshalJSON ord data =
     (case decode_tag_slice data of
        Some tagsAsSlice \<Rightarrow> Some tagsAsSlice
      | None \<Rightarrow>
          (case decode_string_map data of
             Some tagsAsMap \<Rightarrow> Some (map (\<lambda>(k, v). \<lparr>tag_Key = k, tag_Value = v\<rparr>) (ord tagsAsMap))
           | None \<Rightarrow> None))"

text \<open>Decoding the one field \<open>name\<close> of a struct with the field's own decoder.\<close>

fun decode_field :: "string \<Rightarrow> (json \<Rightarrow> 'a \<Rightarrow> 'a option) \<Rightarrow> 'a \<Rightarrow> json \<Rightarrow> 'a option" where
  "decode_field name dec zero (JObj kvs) =
     ofold (\<lambda>(k, v) x. if equal_fold k name then dec v x else Some x) kvs zero"
| "decode_field name dec zero JNull = Some zero"
| "decode_field name dec zero _ = None"

definition TopLevelData ::
  "((string \<times> string) list \<Rightarrow> (string \<times> string) list) \<Rightarrow> json \<Rightarrow> Tag list option" where
  "TopLevelData ord = decode_field ''Tags'' (\<lambda>j _. FlexibleTags_UnmarshalJSON ord j) []"

text \<open>The nested decoder fills the properties that are already there, so an earlier value of the
  field is kept when the key is repeated without tags.\<close>

definition nested_Data ::
  "((string \<times> string) list \<Rightarrow> (string \<times> string) list) \<Rightarrow> json \<Rightarrow> Tag list option" where
  "nested_Data ord = decode_field ''Properties''
     (\<lambda>j old. decode_field ''Tags'' (\<lambda>j _. FlexibleTags_UnmarshalJSON ord j) old j) []"

definition GetTagsFromProperties ::
  "((string \<times> string) list \<Rightarrow> (string \<times> string) list) \<Rightarrow> raw \<Rightarrow> Tag list" where
  "GetTagsFromProperties ord payload =
     (case payload of
        RawJson j \<Rightarrow>
          (case TopLevelData ord j of
             Some (t # ts) \<Rightarrow> t # ts
           | _ \<Rightarrow> (case nested_Data ord j of Some (t # ts) \<Rightarrow> t # ts | _ \<Rightarrow> []))
      | _ \<Rightarrow> [])"

section \<open>Labels\<close>

definition labelSeparator :: string where
  "labelSeparator = ''-''"

text \<open>\<^verbatim>\<open>strings.LastIndex(s, "-")\<close>: the text before and after the last hyphen.\<close>

definition last_hyphen :: "string \<Rightarrow> (string \<times> string) option" where
  "last_hyphen s =
     (if CHR ''-'' \<in> set s
      then Some (rev (tl (dropWhile (\<lambda>c. c \<noteq> CHR ''-'') (rev s))),
                 rev (takeWhile (\<lambda>c. c \<noteq> CHR ''-'') (rev s)))
      else None)"

definition incrementVersion :: "string \<Rightarrow> string" where
  "incrementVersion version =
     (let appended = version @ ''-'' @ int_string 1
      in case last_hyphen version of
           None \<Rightarrow> appended
         | Some (baseName, versionStr) \<Rightarrow>
             if versionStr = [] then appended
             else (case Atoi versionStr of
                     Some num \<Rightarrow> baseName @ ''-'' @ int_string (wrap64 (num + 1))
                   | None \<Rightarrow> appended))"

definition base_label :: "string \<Rightarrow> Tag list \<Rightarrow> string list \<Rightarrow> string" where
  "base_label nativeID tags tagLabelKeys =
     (let tagMap = fold (\<lambda>t m. m(tag_Key t \<mapsto> tag_Value t)) tags Map.empty;
          labelParts = concat (map (\<lambda>key. case tagMap key of
             Some value \<Rightarrow> if value \<noteq> '''' then [value] else [] | None \<Rightarrow> []) tagLabelKeys)
      in if length labelParts > 0 then strings_Join labelParts labelSeparator else nativeID)"

definition LabelForUnmanagedResource ::
  "(string \<Rightarrow> string option) \<Rightarrow> string \<Rightarrow> Tag list \<Rightarrow> string list \<Rightarrow> string" where
  "LabelForUnmanagedResource latest nativeID tags tagLabelKeys =
     (let label = base_label nativeID tags tagLabelKeys
      in case latest label of
           None \<Rightarrow> label
         | Some res \<Rightarrow> if res = '''' then label else incrementVersion res)"

section \<open>Facts\<close>

lemma of_char_digit: "n < 10 \<Longrightarrow> of_char (char_of (48 + n) :: char) = 48 + (n :: nat)"
  by (simp add: of_char_mod_256)

lemma digits_value_append: "digits_value (s @ [c]) = 10 * digits_value s + (of_char c - 48)"
  by (simp add: digits_value_def)

lemma digits_value_nat_string: "digits_value (nat_string n) = n"
proof (induction n rule: nat_string.induct)
  case (1 n)
  show ?case
  proof (cases "n < 10")
    case True
    then show ?thesis by (simp add: nat_string.simps [of n] digits_value_def of_char_digit)
  next
    case False
    then show ?thesis
      using 1 by (simp add: nat_string.simps [of n] digits_value_append of_char_digit)
  qed
qed

lemma is_digit_nat_string: "list_all is_digit (nat_string n) \<and> nat_string n \<noteq> []"
proof (induction n rule: nat_string.induct)
  case (1 n)
  have d: "is_digit (char_of (48 + m))" if "m < 10" for m :: nat
    using that by (simp add: is_digit_def of_char_digit)
  show ?case
  proof (cases "n < 10")
    case True
    then show ?thesis by (simp add: nat_string.simps [of n] d)
  next
    case False
    then show ?thesis using 1 by (simp add: nat_string.simps [of n] d)
  qed
qed

lemma is_digit_sign [simp]: "\<not> is_digit CHR ''-''" "\<not> is_digit CHR ''+''"
  by (simp_all add: is_digit_def)

lemma Atoi_nat_string:
  assumes "n < 2 ^ 63"
  shows "Atoi (nat_string n) = Some (int n)"
proof -
  obtain c r where cr: "nat_string n = c # r" "is_digit c"
    using is_digit_nat_string [of n] by (cases "nat_string n") auto
  then have "c \<noteq> CHR ''-''" "c \<noteq> CHR ''+''" by auto
  moreover have "int n < 2 ^ 63" using assms by simp
  ultimately show ?thesis
    using is_digit_nat_string [of n] digits_value_nat_string [of n]
    by (simp add: Atoi_def cr(1) Let_def)
qed

lemma hyphen_nat_string: "CHR ''-'' \<notin> set (nat_string n)"
  using is_digit_nat_string [of n] by (auto simp: list_all_iff)

lemma last_hyphen_append:
  assumes "CHR ''-'' \<notin> set v"
  shows "last_hyphen (b @ ''-'' @ v) = Some (b, v)"
  using assms by (simp add: last_hyphen_def takeWhile_append dropWhile_append)

lemma last_hyphen_None: "CHR ''-'' \<notin> set s \<Longrightarrow> last_hyphen s = None"
  by (simp add: last_hyphen_def)

lemma nat_string_inject [simp]: "nat_string m = nat_string n \<longleftrightarrow> m = n"
  by (metis digits_value_nat_string)

lemma int_string_nonneg: "0 \<le> i \<Longrightarrow> int_string i = nat_string (nat i)"
  by (simp add: int_string_def)

lemma incrementVersion_numbered:
  assumes "n + 1 < 2 ^ 63"
  shows "incrementVersion (b @ ''-'' @ nat_string n) = b @ ''-'' @ nat_string (Suc n)"
proof -
  have "wrap64 (int n + 1) = int n + 1"
    using assms by (simp add: wrap64_def)
  then show ?thesis
    using assms is_digit_nat_string [of n]
    by (simp add: incrementVersion_def last_hyphen_append [OF hyphen_nat_string, simplified]
        Atoi_nat_string int_string_nonneg nat_add_distrib)
qed

text \<open>A label that does not end in a hyphen and a number.\<close>

definition unversioned :: "string \<Rightarrow> bool" where
  "unversioned b \<longleftrightarrow> (case last_hyphen b of None \<Rightarrow> True | Some (_, v) \<Rightarrow> v = [] \<or> Atoi v = None)"

lemma incrementVersion_unversioned: "unversioned b \<Longrightarrow> incrementVersion b = b @ ''-'' @ nat_string 1"
  by (auto simp: unversioned_def incrementVersion_def int_string_def Let_def split: option.splits)

lemma incrementVersion_iterate:
  assumes "unversioned b" "Suc n < 2 ^ 63"
  shows "(incrementVersion ^^ Suc n) b = b @ ''-'' @ nat_string (Suc n)"
  using assms(2)
proof (induction n)
  case 0
  then show ?case by (simp add: incrementVersion_unversioned [OF assms(1)])
next
  case (Suc n)
  then have "(incrementVersion ^^ Suc (Suc n)) b = incrementVersion (b @ ''-'' @ nat_string (Suc n))"
    by simp
  also have "\<dots> = b @ ''-'' @ nat_string (Suc (Suc n))"
    using Suc.prems by (intro incrementVersion_numbered) simp
  finally show ?case .
qed

section \<open>Properties\<close>

text \<open>numbering a label and reading its number back are inverse: incrementing the label that ends
  in the decimal form of \<open>n\<close> gives the same label with the decimal form of \<open>n + 1\<close>, and the
  first label derived from an unversioned one is number 1. Hence the labels of a series of
  discovered resources with the same unversioned base label are pairwise different.\<close>

theorem incrementVersion_series:
  assumes "unversioned b" "i < j" "j < 2 ^ 63"
  shows "(incrementVersion ^^ j) b = b @ ''-'' @ nat_string j \<and>
    Atoi (nat_string j) = Some (int j) \<and>
    (incrementVersion ^^ i) b \<noteq> (incrementVersion ^^ j) b"
proof -
  obtain k where k: "j = Suc k" using assms(2) by (cases j) auto
  have j: "(incrementVersion ^^ j) b = b @ ''-'' @ nat_string j"
    using incrementVersion_iterate [OF assms(1), of k] assms(3) k by simp
  have "(incrementVersion ^^ i) b \<noteq> b @ ''-'' @ nat_string j"
  proof (cases i)
    case 0
    then show ?thesis by (simp add: append_eq_conv_conj)
  next
    case (Suc h)
    then show ?thesis
      using incrementVersion_iterate [OF assms(1), of h] assms by simp
  qed
  then show ?thesis using j Atoi_nat_string assms(3) by simp
qed

theorem incrementVersion_series_witness:
  "(incrementVersion ^^ 10) ''web-server'' = ''web-server-10'' \<and>
   (incrementVersion ^^ 2) ''web-server'' \<noteq> (incrementVersion ^^ 10) ''web-server''"
proof -
  have "unversioned ''web-server''" "nat_string 10 = ''10''"
    by code_simp+
  then show ?thesis
    using incrementVersion_series [of "''web-server''" 2 10] by force
qed

text \<open>
  A base label that itself ends in a number, such as a native identifier, is taken for a numbered
  label: rediscovering \<open>vpc-1\<close> yields the label of the unrelated resource \<open>vpc-2\<close>.
\<close>

theorem label_collision:
  "LabelForUnmanagedResource (\<lambda>l. Some (if l = ''vpc-1'' then l else '''')) ''vpc-1'' [] [] =
   LabelForUnmanagedResource (\<lambda>l. Some (if l = ''vpc-1'' then l else '''')) ''vpc-2'' [] []"
  by code_simp

end
