(* ===== verification/Resolver.thy ===== *)
theory Resolver
  imports Resource_Properties Resource_Labeler
begin

text \<open>
  \<^verbatim>\<open>internal/metastructure/resolver\<close> and \<^verbatim>\<open>pkg/model/value.go\<close>,
  \<^verbatim>\<open>ref.go\<close>: references between resources inside JSON properties, and the values they
  resolve to. The gjson and sjson packages are the fields of a record: path queries, the text of
  a result, parsing of arbitrary text, and replacing the value at a path. Traversal with
  \<^verbatim>\<open>ForEach\<close> and the keys of objects are modelled on the decoded value. An
  \<^verbatim>\<open>any\<close> holding a decoded JSON value is an option: null decodes to nil.
\<close>

section \<open>Values and references\<close>

record Value =
  v_Strategy :: string
  v_Visibility :: string
  v_Value :: "json option"

definition IsOpaque :: "Value \<Rightarrow> bool" where
  "IsOpaque v \<longleftrightarrow> v_Visibility v = ''Opaque''"

definition IsClear :: "Value \<Rightarrow> bool" where
  "IsClear v \<longleftrightarrow> v_Visibility v = ''Clear''"

definition IsSetOnce :: "Value \<Rightarrow> bool" where
  "IsSetOnce v \<longleftrightarrow> v_Strategy v = ''SetOnce''"

definition IsUpdatable :: "Value \<Rightarrow> bool" where
  "IsUpdatable v \<longleftrightarrow> v_Strategy v = ''Update''"

definition HasValue :: "Value \<Rightarrow> bool" where
  "HasValue v \<longleftrightarrow> v_Value v \<noteq> None"

definition CanUpdate :: "Value \<Rightarrow> Value option \<Rightarrow> bool" where
  "CanUpdate v existingValue \<longleftrightarrow>
     (if IsSetOnce v \<and> existingValue \<noteq> None \<and> v_Value (the existingValue) \<noteq> None then False else True)"

definition ToActual :: "Value \<Rightarrow> Value option" where
  "ToActual v = (if v_Value v = None then None
     else Some \<lparr>v_Strategy = [], v_Visibility = [], v_Value = v_Value v\<rparr>)"

record Ref =
  ref_PropertyURI :: string
  ref_ResourceURI :: FormaeURI
  ref_SourcePropertyName :: string
  ref_TargetPath :: string
  ref_ResolvedValue :: Value

section \<open>The JSON packages\<close>

record json_lib =
  gj_Get :: "json \<Rightarrow> string \<Rightarrow> json option"
  gj_String :: "json \<Rightarrow> string"
  gj_Parse :: "string \<Rightarrow> json option"
  sj_Set :: "raw \<Rightarrow> string \<Rightarrow> json \<Rightarrow> raw option"

fun any_of :: "json \<Rightarrow> json option" where
  "any_of JNull = None"
| "any_of j = Some j"

definition parse_raw :: "json_lib \<Rightarrow> raw \<Rightarrow> json option" where
  "parse_raw lib r = (case r of RawJson j \<Rightarrow> Some j | RawInvalid s \<Rightarrow> gj_Parse lib s | _ \<Rightarrow> None)"

text \<open>\<^verbatim>\<open>Result.Get(path).String()\<close>: the empty text when there is no result.\<close>

definition get_text :: "json_lib \<Rightarrow> json \<Rightarrow> string \<Rightarrow> string" where
  "get_text lib j p = (case gj_Get lib j p of None \<Rightarrow> '''' | Some v \<Rightarrow> gj_String lib v)"

text \<open>The pairs \<^verbatim>\<open>ForEach\<close> visits: the entries of an object, the indexed elements of an
  array, a scalar once under the empty key.\<close>

fun for_each :: "json \<Rightarrow> (string \<times> json) list" where
  "for_each (JObj kvs) = kvs"
| "for_each (JArr js) = map (\<lambda>(i, j). (nat_string i, j)) (enumerate 0 js)"
| "for_each j = [('''', j)]"

definition in_order :: "('k list \<Rightarrow> 'k list) \<Rightarrow> ('k \<times> 'v) list \<Rightarrow> 'v list" where
  "in_order ord m = map (\<lambda>k. the (map_of m k)) (ord (map fst m))"

section \<open>Parsing references\<close>

datatype propertyType = typeReference | typeValue | typePlain

record propertyParser =
  pp_HasRef :: bool
  pp_HasValue :: bool
  pp_Reference :: string
  pp_Value :: "json option"

definition Parse :: "json_lib \<Rightarrow> json \<Rightarrow> propertyParser \<times> propertyType" where
  "Parse lib result =
     (let hasRef = gj_Get lib result ''$ref'' \<noteq> None;
          hasValue = gj_Get lib result ''$value'' \<noteq> None;
          val = Option.bind (gj_Get lib result ''$value'') any_of
      in if hasRef
         then (\<lparr>pp_HasRef = hasRef, pp_HasValue = hasValue, pp_Reference = get_text lib result ''$ref'',
                pp_Value = (if hasValue then val else None)\<rparr>, typeReference)
         else if hasValue
         then (\<lparr>pp_HasRef = hasRef, pp_HasValue = hasValue, pp_Reference = [], pp_Value = val\<rparr>, typeValue)
         else (\<lparr>pp_HasRef = hasRef, pp_HasValue = hasValue, pp_Reference = [], pp_Value = None\<rparr>, typePlain))"

definition CreateRef :: "json_lib \<Rightarrow> propertyParser \<Rightarrow> string \<Rightarrow> json \<Rightarrow> Ref" where
  "CreateRef lib pp currentPath result =
     \<lparr>ref_PropertyURI = pp_Reference pp, ref_ResourceURI = Stripped (pp_Reference pp),
      ref_SourcePropertyName = PropertyPath (pp_Reference pp), ref_TargetPath = currentPath,
      ref_ResolvedValue = \<lparr>v_Strategy = get_text lib result ''$strategy'',
        v_Visibility = get_text lib result ''$visibility'',
        v_Value = (if pp_HasValue pp then pp_Value pp else None)\<rparr>\<rparr>"

definition CreateValue :: "json_lib \<Rightarrow> propertyParser \<Rightarrow> json \<Rightarrow> Value" where
  "CreateValue lib pp result =
     \<lparr>v_Strategy = get_text lib result ''$strategy'', v_Visibility = get_text lib result ''$visibility'',
      v_Value = (if pp_HasValue pp then pp_Value pp else None)\<rparr>"

record propertyResolver =
  pv_values :: "(string \<times> Value) list"
  pv_refs :: "(FormaeURI \<times> Ref) list"

definition buildPath :: "string \<Rightarrow> string \<Rightarrow> string" where
  "buildPath currentPath key = (if currentPath = '''' then key else currentPath @ ''.'' @ key)"

function extractFromJson :: "json_lib \<Rightarrow> json \<Rightarrow> string \<Rightarrow> propertyResolver \<Rightarrow> propertyResolver" where
  "extractFromJson lib result currentPath pr =
     (case result of
        JObj kvs \<Rightarrow>
          let (parser, pt) = Parse lib result
          in (case pt of
                typeReference \<Rightarrow>
                  let ref = CreateRef lib parser currentPath result
                  in pr\<lparr>pv_refs := AList.update (ref_PropertyURI ref) ref (pv_refs pr)\<rparr>
              | typeValue \<Rightarrow>
                  pr\<lparr>pv_values := AList.update currentPath (CreateValue lib parser result) (pv_values pr)\<rparr>
              | typePlain \<Rightarrow>
                  fold (\<lambda>kv pr. extractFromJson lib (snd kv) (buildPath currentPath (fst kv)) pr)
                    (for_each result) pr)
      | JArr js \<Rightarrow>
          fold (\<lambda>kv pr. extractFromJson lib (snd kv) (buildPath currentPath (fst kv)) pr)
            (for_each result) pr
      | _ \<Rightarrow> pr)"
  by pat_completeness auto

lemma size_for_each:
  "kv \<in> set (for_each (JObj kvs)) \<Longrightarrow> size (snd kv) < size (JObj kvs)"
  "kv \<in> set (for_each (JArr js)) \<Longrightarrow> size (snd kv) < size (JArr js)"
proof -
  have "size (snd kv) < Suc (size_list (size_prod (\<lambda>_. 0) size) kvs)" if "kv \<in> set kvs"
    using that by (induction kvs) auto
  then show "kv \<in> set (for_each (JObj kvs)) \<Longrightarrow> size (snd kv) < size (JObj kvs)" by simp
  have "size j < Suc (size_list size js)" if "j \<in> set js" for j
    using that by (induction js) auto
  then show "kv \<in> set (for_each (JArr js)) \<Longrightarrow> size (snd kv) < size (JArr js)"
    by (auto simp: enumerate_eq_zip dest: set_zip_rightD)
qed

termination extractFromJson
  by (relation "measure (\<lambda>(lib, j, p, pr). size j)")
    (use size_for_each in \<open>auto simp del: for_each.simps\<close>)

declare extractFromJson.simps [simp del]

definition newPropertyResolver :: "json_lib \<Rightarrow> raw \<Rightarrow> propertyResolver" where
  "newPropertyResolver lib properties =
     (case parse_raw lib properties of
        None \<Rightarrow> \<lparr>pv_values = [], pv_refs = []\<rparr>
      | Some j \<Rightarrow> extractFromJson lib j '''' \<lparr>pv_values = [], pv_refs = []\<rparr>)"

definition newPropertyResolverFromResource :: "json_lib \<Rightarrow> Resource \<Rightarrow> propertyResolver" where
  "newPropertyResolverFromResource lib resource =
     (let extract = (\<lambda>r pr. if r = RawNil then pr
            else (case parse_raw lib r of None \<Rightarrow> pr | Some j \<Rightarrow> extractFromJson lib j '''' pr))
      in extract (res_ReadOnlyProperties resource)
           (extract (res_Properties resource) \<lparr>pv_values = [], pv_refs = []\<rparr>))"

definition getResolvableURIs :: "(FormaeURI list \<Rightarrow> FormaeURI list) \<Rightarrow> propertyResolver \<Rightarrow> FormaeURI list" where
  "getResolvableURIs ord pr = map ref_PropertyURI (in_order ord (pv_refs pr))"

definition ExtractResolvableURIs ::
  "json_lib \<Rightarrow> (FormaeURI list \<Rightarrow> FormaeURI list) \<Rightarrow> Resource \<Rightarrow> FormaeURI list" where
  "ExtractResolvableURIs lib ord resource = getResolvableURIs ord (newPropertyResolverFromResource lib resource)"

section \<open>Resolving\<close>

definition extractResolvedValue :: "json_lib \<Rightarrow> Ref \<Rightarrow> json option" where
  "extractResolvedValue lib ref =
     (case v_Value (ref_ResolvedValue ref) of
        None \<Rightarrow> None
      | Some (JStr resolvedJSON) \<Rightarrow>
          let found = (case gj_Parse lib resolvedJSON of
                None \<Rightarrow> None
              | Some resolvedData \<Rightarrow>
                  (case gj_Get lib resolvedData ''$value'' of
                     Some v \<Rightarrow> Some (any_of v)
                   | None \<Rightarrow> (case gj_Get lib resolvedData (ref_SourcePropertyName ref) of
                        Some v \<Rightarrow> Some (any_of v) | None \<Rightarrow> None)))
          in (case found of Some v \<Rightarrow> v | None \<Rightarrow> Some (JStr resolvedJSON))
      | Some v \<Rightarrow> Some v)"

definition resolveReference :: "json_lib \<Rightarrow> raw \<Rightarrow> Ref \<Rightarrow> raw option" where
  "resolveReference lib properties ref =
     (case Option.bind (parse_raw lib properties) (\<lambda>j. gj_Get lib j (ref_TargetPath ref)) of
        None \<Rightarrow> Some properties
      | Some targetObj \<Rightarrow>
          let o0 = fold (\<lambda>(k, v) m. AList.update k v m) (for_each targetObj) [];
              o1 = (case extractResolvedValue lib ref of
                      None \<Rightarrow> o0 | Some v \<Rightarrow> AList.update ''$value'' v o0);
              o2 = (if v_Strategy (ref_ResolvedValue ref) \<noteq> ''''
                    then AList.update ''$strategy'' (JStr (v_Strategy (ref_ResolvedValue ref))) o1 else o1);
              o3 = (if v_Visibility (ref_ResolvedValue ref) \<noteq> ''''
                    then AList.update ''$visibility'' (JStr (v_Visibility (ref_ResolvedValue ref))) o2 else o2)
          in sj_Set lib properties (ref_TargetPath ref) (json_sorted (JObj o3)))"

definition resolveReferences ::
  "json_lib \<Rightarrow> (FormaeURI list \<Rightarrow> FormaeURI list) \<Rightarrow> propertyResolver \<Rightarrow> raw \<Rightarrow> raw option" where
  "resolveReferences lib ord pr properties =
     ofold (\<lambda>ref result. if v_Value (ref_ResolvedValue ref) = None then Some result
         else resolveReference lib result ref)
       (in_order ord (pv_refs pr)) properties"

text \<open>The value of a resolved reference, from the text that the resolve cache delivers.\<close>

definition setRefValue_new :: "json_lib \<Rightarrow> string \<Rightarrow> Ref \<Rightarrow> Value" where
  "setRefValue_new lib value ref =
     (let (actualValue, inheritedVisibility, inheritedStrategy) =
            (case gj_Parse lib value of
               Some (JObj kvs) \<Rightarrow>
                 ((case gj_Get lib (JObj kvs) ''$value'' of None \<Rightarrow> value | Some v \<Rightarrow> gj_String lib v),
                  get_text lib (JObj kvs) ''$visibility'', get_text lib (JObj kvs) ''$strategy'')
             | _ \<Rightarrow> (value, '''', ''''));
          old = ref_ResolvedValue ref
      in \<lparr>v_Strategy = (if v_Strategy old \<noteq> '''' then v_Strategy old
            else if inheritedStrategy \<noteq> '''' then inheritedStrategy else ''''),
          v_Visibility = (if inheritedVisibility = ''Opaque'' then ''Opaque''
            else if v_Visibility old \<noteq> '''' then v_Visibility old else ''''),
          v_Value = Some (JStr actualValue)\<rparr>)"

definition setRefValue :: "json_lib \<Rightarrow> propertyResolver \<Rightarrow> FormaeURI \<Rightarrow> string \<Rightarrow> propertyResolver option" where
  "setRefValue lib pr uri value =
     (case map_of (pv_refs pr) uri of
        None \<Rightarrow> None
      | Some ref \<Rightarrow>
          if IsSetOnce (ref_ResolvedValue ref) \<and> v_Value (ref_ResolvedValue ref) \<noteq> None then Some pr
          else Some (pr\<lparr>pv_refs := AList.update uri
            (ref\<lparr>ref_ResolvedValue := setRefValue_new lib value ref\<rparr>) (pv_refs pr)\<rparr>))"

definition has :: "propertyResolver \<Rightarrow> FormaeURI \<Rightarrow> bool" where
  "has pr uri \<longleftrightarrow> map_of (pv_refs pr) uri \<noteq> None"

definition isTargetPath :: "propertyResolver \<Rightarrow> string \<Rightarrow> bool" where
  "isTargetPath pr path \<longleftrightarrow> list_ex (\<lambda>(u, ref). ref_TargetPath ref = path) (pv_refs pr)"

definition toPluginFormat :: "json_lib \<Rightarrow> (string list \<Rightarrow> string list) \<Rightarrow> propertyResolver \<Rightarrow> raw \<Rightarrow> raw option" where
  "toPluginFormat lib ord pr originalProperties =
     Option.bind
       (ofold (\<lambda>ref out.
            if v_Value (ref_ResolvedValue ref) = None then Some out
            else (case extractResolvedValue lib ref of
                    None \<Rightarrow> Some out
                  | Some v \<Rightarrow> sj_Set lib out (ref_TargetPath ref) v))
          (in_order ord (pv_refs pr)) originalProperties)
       (ofold (\<lambda>path out.
            if isTargetPath pr path then Some out
            else (case v_Value (the (map_of (pv_values pr) path)) of
                    None \<Rightarrow> Some out
                  | Some v \<Rightarrow> sj_Set lib out path v))
          (ord (map fst (pv_values pr))))"

definition ResolvePropertyReferences ::
  "json_lib \<Rightarrow> (FormaeURI list \<Rightarrow> FormaeURI list) \<Rightarrow> FormaeURI \<Rightarrow> raw \<Rightarrow> string \<Rightarrow> raw option" where
  "ResolvePropertyReferences lib ord ksuidUri properties value =
     (let resolver = newPropertyResolver lib properties
      in if has resolver ksuidUri
         then Option.bind (setRefValue lib resolver ksuidUri value)
                (\<lambda>r. resolveReferences lib ord r properties)
         else None)"

definition ConvertToPluginFormat ::
  "json_lib \<Rightarrow> (FormaeURI list \<Rightarrow> FormaeURI list) \<Rightarrow> raw \<Rightarrow> raw option" where
  "ConvertToPluginFormat lib ord properties =
     (let resolver = newPropertyResolver lib properties
      in Option.bind (resolveReferences lib ord resolver properties) (toPluginFormat lib ord resolver))"

section \<open>Properties loaded from the stacks\<close>

type_synonym ResolvableProperties = "(string \<times> (string \<times> string) list) list"

definition rprops_Add :: "string \<Rightarrow> string \<Rightarrow> string \<Rightarrow> ResolvableProperties \<Rightarrow> ResolvableProperties" where
  "rprops_Add ksuid property value p =
     AList.update ksuid (AList.update property value
       (case map_of p ksuid of None \<Rightarrow> [] | Some m \<Rightarrow> m)) p"

definition rprops_Get :: "ResolvableProperties \<Rightarrow> string \<Rightarrow> string \<Rightarrow> string option" where
  "rprops_Get p ksuid property = Option.bind (map_of p ksuid) (\<lambda>m. map_of m property)"

text \<open>An error is the URI that could not be resolved; the properties collected so far are lost with
  it in every caller.\<close>

definition LoadResolvablePropertiesFromStacks ::
  "json_lib \<Rightarrow> (FormaeURI list \<Rightarrow> FormaeURI list) \<Rightarrow> Resource \<Rightarrow> Forma list \<Rightarrow>
    FormaeURI + ResolvableProperties" where
  "LoadResolvablePropertiesFromStacks lib ord resource everything =
     (let resourcesByKsuid = fold (\<lambda>r m. if res_Ksuid r \<noteq> '''' then m(res_Ksuid r \<mapsto> r) else m)
            (concat (map forma_Resources everything)) Map.empty;
          query = (\<lambda>r path. if r = RawNil then None
            else Option.bind (parse_raw lib r) (\<lambda>j. gj_Get lib j path));
          step = (\<lambda>uri acc. case acc of
             Inl e \<Rightarrow> Inl e
           | Inr res \<Rightarrow>
               (case resourcesByKsuid (KSUID uri) of
                  None \<Rightarrow> Inl uri
                | Some target \<Rightarrow>
                    (case query (res_ReadOnlyProperties target) (PropertyPath uri) of
                       Some v \<Rightarrow> Inr (rprops_Add (KSUID uri) (PropertyPath uri) (gj_String lib v) res)
                     | None \<Rightarrow>
                         (case query (res_Properties target) (PropertyPath uri) of
                            Some v \<Rightarrow> Inr (rprops_Add (KSUID uri) (PropertyPath uri) (gj_String lib v) res)
                          | None \<Rightarrow> Inl uri))))
      in fold step (ExtractResolvableURIs lib ord resource) (Inr []))"

section \<open>Which references a resource has\<close>

text \<open>
  The specification: the text of every \<^verbatim>\<open>$ref\<close> that is reached through objects which
  carry neither a reference nor a value themselves.
\<close>

inductive refers :: "json_lib \<Rightarrow> json \<Rightarrow> FormaeURI \<Rightarrow> bool" for lib where
  here: "gj_Get lib (JObj kvs) ''$ref'' = Some r \<Longrightarrow> refers lib (JObj kvs) (gj_String lib r)"
| obj: "gj_Get lib (JObj kvs) ''$ref'' = None \<Longrightarrow> gj_Get lib (JObj kvs) ''$value'' = None \<Longrightarrow>
    (k, j) \<in> set kvs \<Longrightarrow> refers lib j u \<Longrightarrow> refers lib (JObj kvs) u"
| arr: "j \<in> set js \<Longrightarrow> refers lib j u \<Longrightarrow> refers lib (JArr js) u"

inductive_simps refers_simps: "refers lib JNull u" "refers lib (JBool b) u" "refers lib (JNum n) u"
  "refers lib (JStr t) u" "refers lib (JArr js) u" "refers lib (JObj kvs) u"

definition refs_wf :: "propertyResolver \<Rightarrow> bool" where
  "refs_wf pr \<longleftrightarrow> distinct (map fst (pv_refs pr)) \<and> (\<forall>(u, ref) \<in> set (pv_refs pr). ref_PropertyURI ref = u)"

lemma set_update_subset: "set (AList.update k v al) \<subseteq> insert (k, v) (set al)"
  by (induction al) auto

lemma refs_wf_update:
  "refs_wf pr \<Longrightarrow> ref_PropertyURI ref = u \<Longrightarrow> refs_wf (pr\<lparr>pv_refs := AList.update u ref (pv_refs pr)\<rparr>)"
  using set_update_subset [of u ref "pv_refs pr"]
  by (auto simp: refs_wf_def distinct_update)

lemma keys_update: "fst ` set (AList.update k v al) = insert k (fst ` set al)"
  by (induction al) auto

lemma snd_for_each_arr: "snd ` set (for_each (JArr js)) = set js"
proof -
  have "map snd (for_each (JArr js)) = js"
    by (simp add: comp_def case_prod_unfold enumerate_eq_zip)
  then show ?thesis by (metis set_map)
qed

text \<open>What one traversal adds to the table of references.\<close>

definition adds :: "propertyResolver \<Rightarrow> (FormaeURI \<Rightarrow> bool) \<Rightarrow> propertyResolver \<Rightarrow> bool" where
  "adds pr P pr' \<longleftrightarrow> (refs_wf pr \<longrightarrow> refs_wf pr') \<and>
     fst ` set (pv_refs pr') = fst ` set (pv_refs pr) \<union> Collect P"

lemma adds_fold:
  assumes "\<And>x pr. x \<in> set xs \<Longrightarrow> adds pr (P x) (f x pr)"
  shows "adds pr (\<lambda>u. \<exists>x \<in> set xs. P x u) (fold f xs pr)"
  using assms
proof (induction xs arbitrary: pr)
  case Nil
  then show ?case by (auto simp: adds_def)
next
  case (Cons x xs)
  have "adds pr (P x) (f x pr)" using Cons.prems by simp
  moreover have "adds (f x pr) (\<lambda>u. \<exists>x \<in> set xs. P x u) (fold f xs (f x pr))"
    using Cons by simp
  ultimately show ?case by (auto simp: adds_def)
qed

lemma extractFromJson_adds: "adds pr (refers lib j) (extractFromJson lib j path pr)"
proof (induction lib j path pr rule: extractFromJson.induct)
  case (1 lib j path pr)
  show ?case
  proof (cases j)
    case (JArr js)
    have "adds pr (\<lambda>u. \<exists>x \<in> set (for_each j). refers lib (snd x) u) (extractFromJson lib j path pr)"
      unfolding JArr extractFromJson.simps [of lib "JArr js"] json.case
      by (rule adds_fold) (rule 1(1) [unfolded JArr, OF refl])
    moreover have "(\<exists>x \<in> set (for_each j). refers lib (snd x) u) \<longleftrightarrow> refers lib j u" for u
      unfolding JArr refers_simps snd_for_each_arr [of js, symmetric] by blast
    ultimately show ?thesis by (simp only:)
  next
    case (JObj kvs)
    obtain parser pt where pp: "Parse lib j = (parser, pt)" by fastforce
    show ?thesis
    proof (cases pt)
      case typeReference
      then obtain r where r: "gj_Get lib j ''$ref'' = Some r" "pp_Reference parser = gj_String lib r"
        using pp by (auto simp: Parse_def Let_def get_text_def split: if_splits)
      then have "refers lib j = (\<lambda>u. u = gj_String lib r)"
        by (auto simp: JObj refers_simps)
      moreover have "ref_PropertyURI (CreateRef lib parser path j) = gj_String lib r"
        by (simp add: CreateRef_def r)
      ultimately show ?thesis
        using pp typeReference unfolding JObj extractFromJson.simps [of lib "JObj kvs"]
        by (auto simp: adds_def refs_wf_update keys_update)
    next
      case typeValue
      then have "gj_Get lib j ''$ref'' = None" "gj_Get lib j ''$value'' \<noteq> None"
        using pp by (auto simp: Parse_def Let_def split: if_splits)
      then have "refers lib j = (\<lambda>u. False)"
        by (auto simp: JObj refers_simps)
      then show ?thesis
        using pp typeValue unfolding JObj extractFromJson.simps [of lib "JObj kvs"]
        by (auto simp: adds_def refs_wf_def)
    next
      case typePlain
      then have none: "gj_Get lib j ''$ref'' = None" "gj_Get lib j ''$value'' = None"
        using pp by (auto simp: Parse_def Let_def split: if_splits)
      have "adds pr (\<lambda>u. \<exists>x \<in> set (for_each j). refers lib (snd x) u) (extractFromJson lib j path pr)"
        using pp typePlain unfolding JObj extractFromJson.simps [of lib "JObj kvs"]
        by (auto intro!: adds_fold 1(2) [unfolded JObj, OF refl pp [unfolded JObj, symmetric] refl])
      moreover have "(\<exists>x \<in> set (for_each j). refers lib (snd x) u) \<longleftrightarrow> refers lib j u" for u
        using none by (force simp: JObj refers_simps)
      ultimately show ?thesis by (simp only:)
    qed
  qed (auto simp: extractFromJson.simps adds_def refers_simps)
qed

lemma newPropertyResolver_refs:
  "refs_wf (newPropertyResolver lib r) \<and>
   fst ` set (pv_refs (newPropertyResolver lib r)) = {u. \<exists>j. parse_raw lib r = Some j \<and> refers lib j u}"
  using extractFromJson_adds [of "\<lparr>pv_values = [], pv_refs = []\<rparr>" lib _ "''''"]
  by (auto simp: newPropertyResolver_def adds_def refs_wf_def split: option.splits)

lemma newPropertyResolverFromResource_refs:
  defines "ref_in \<equiv> \<lambda>lib r u. r \<noteq> RawNil \<and> (\<exists>j. parse_raw lib r = Some j \<and> refers lib j u)"
  shows "refs_wf (newPropertyResolverFromResource lib res) \<and>
   fst ` set (pv_refs (newPropertyResolverFromResource lib res)) =
     {u. ref_in lib (res_Properties res) u \<or> ref_in lib (res_ReadOnlyProperties res) u}"
proof -
  let ?ex = "\<lambda>r pr. if r = RawNil then pr
    else (case parse_raw lib r of None \<Rightarrow> pr | Some j \<Rightarrow> extractFromJson lib j '''' pr)"
  have ex: "adds pr (ref_in lib r) (?ex r pr)" for r pr
    using extractFromJson_adds [of pr lib _ "''''"]
    by (auto simp: adds_def ref_in_def split: option.splits)
  have "refs_wf \<lparr>pv_values = [], pv_refs = []\<rparr>" by (simp add: refs_wf_def)
  then show ?thesis
    using ex [of "\<lparr>pv_values = [], pv_refs = []\<rparr>" "res_Properties res"]
      ex [of "?ex (res_Properties res) \<lparr>pv_values = [], pv_refs = []\<rparr>" "res_ReadOnlyProperties res"]
    unfolding newPropertyResolverFromResource_def Let_def adds_def by auto
qed

lemma refs_wf_uris:
  assumes "refs_wf pr" "range_order ord"
  shows "getResolvableURIs ord pr = ord (map fst (pv_refs pr))"
proof -
  have "ref_PropertyURI (the (map_of (pv_refs pr) u)) = u" if "u \<in> set (ord (map fst (pv_refs pr)))" for u
  proof -
    have "u \<in> fst ` set (pv_refs pr)"
      using that range_orderD(2) [OF assms(2)] by simp
    then obtain ref where "(u, ref) \<in> set (pv_refs pr)" by force
    then have "map_of (pv_refs pr) u = Some ref" "ref_PropertyURI ref = u"
      using assms(1) by (auto simp: refs_wf_def)
    then show ?thesis by simp
  qed
  then show ?thesis
    by (simp add: getResolvableURIs_def in_order_def map_idI)
qed

lemma setRefValue_new_facts:
  "v_Strategy (ref_ResolvedValue ref) \<noteq> '''' \<Longrightarrow>
     v_Strategy (setRefValue_new lib value ref) = v_Strategy (ref_ResolvedValue ref)"
  "v_Value (setRefValue_new lib value ref) \<noteq> None"
  "v_Visibility (ref_ResolvedValue ref) = ''Opaque'' \<Longrightarrow>
     v_Visibility (setRefValue_new lib value ref) = ''Opaque''"
  "gj_Parse lib value = Some (JObj kvs) \<Longrightarrow> get_text lib (JObj kvs) ''$visibility'' = ''Opaque'' \<Longrightarrow>
     v_Visibility (setRefValue_new lib value ref) = ''Opaque''"
  by (simp_all add: setRefValue_new_def case_prod_unfold Let_def)

section \<open>Properties\<close>

text \<open>\<open>ExtractResolvableURIs\<close> returns exactly the references of a resource, each once: the
  \<open>$ref\<close> texts found in its properties or its read-only properties below objects that are
  neither references nor values, in whatever order the map is visited.\<close>

theorem ExtractResolvableURIs_exact:
  assumes "range_order ord"
  shows "distinct (ExtractResolvableURIs lib ord res) \<and>
    set (ExtractResolvableURIs lib ord res) =
      {u. \<exists>r \<in> {res_Properties res, res_ReadOnlyProperties res}.
         r \<noteq> RawNil \<and> (\<exists>j. parse_raw lib r = Some j \<and> refers lib j u)}"
proof -
  let ?pr = "newPropertyResolverFromResource lib res"
  have wf: "refs_wf ?pr" using newPropertyResolverFromResource_refs [of lib res] by simp
  have "ExtractResolvableURIs lib ord res = ord (map fst (pv_refs ?pr))"
    unfolding ExtractResolvableURIs_def by (rule refs_wf_uris [OF wf assms])
  moreover have "distinct (ord (map fst (pv_refs ?pr)))"
    using wf range_orderD(1) [OF assms] by (metis mset_eq_imp_distinct_iff refs_wf_def)
  ultimately show ?thesis
    using newPropertyResolverFromResource_refs [of lib res] range_orderD(2) [OF assms]
    by auto
qed

text \<open>A concrete pair of JSON packages for single-key paths.\<close>

fun key_get :: "json \<Rightarrow> string \<Rightarrow> json option" where
  "key_get (JObj kvs) k = map_of kvs k"
| "key_get _ k = None"

fun key_set :: "raw \<Rightarrow> string \<Rightarrow> json \<Rightarrow> raw option" where
  "key_set (RawJson (JObj kvs)) k v = Some (RawJson (JObj (AList.update k v kvs)))"
| "key_set _ k v = None"

fun key_string :: "json \<Rightarrow> string" where
  "key_string (JStr s) = s"
| "key_string _ = ''''"

definition key_lib :: json_lib where
  "key_lib = \<lparr>gj_Get = key_get, gj_String = key_string, gj_Parse = (\<lambda>_. None), sj_Set = key_set\<rparr>"

definition ref_json :: "string \<Rightarrow> json" where
  "ref_json u = JObj [(''$ref'', JStr u)]"

definition sample_refs :: Resource where
  "sample_refs = zero_Resource\<lparr>res_Properties := RawJson (JObj [(''a'', ref_json ''u1''),
     (''l'', JArr [ref_json ''u2'', ref_json ''u1''])])\<rparr>"

theorem ExtractResolvableURIs_exact_witness:
  "ExtractResolvableURIs key_lib rev sample_refs = [''u2'', ''u1''] \<and>
   distinct [''u2'', ''u1''] \<and> set [''u2'', ''u1''] =
     {u. \<exists>r \<in> {res_Properties sample_refs, res_ReadOnlyProperties sample_refs}.
         r \<noteq> RawNil \<and> (\<exists>j. parse_raw key_lib r = Some j \<and> refers key_lib j u)}"
proof -
  have "ExtractResolvableURIs key_lib rev sample_refs = [''u2'', ''u1'']" by code_simp
  then show ?thesis
    using ExtractResolvableURIs_exact [OF range_order_rev, of key_lib sample_refs] by simp
qed

text \<open>resolving a reference respects its strategy and never lowers its visibility: a set-once
  reference that already has a value is left as it is; otherwise the reference takes the new
  value, keeps a strategy of its own, and is opaque whenever it was opaque before or the value it
  resolves to is marked opaque. No other reference changes.\<close>

theorem setRefValue_correct:
  assumes "map_of (pv_refs pr) uri = Some ref"
  shows "\<exists>pr' ref'. setRefValue lib pr uri value = Some pr' \<and>
    map_of (pv_refs pr') = (map_of (pv_refs pr))(uri \<mapsto> ref') \<and> pv_values pr' = pv_values pr \<and>
    ref' = ref\<lparr>ref_ResolvedValue := ref_ResolvedValue ref'\<rparr> \<and>
    (IsSetOnce (ref_ResolvedValue ref) \<and> HasValue (ref_ResolvedValue ref) \<longrightarrow> ref' = ref) \<and>
    (v_Strategy (ref_ResolvedValue ref) \<noteq> '''' \<longrightarrow>
       v_Strategy (ref_ResolvedValue ref') = v_Strategy (ref_ResolvedValue ref)) \<and>
    HasValue (ref_ResolvedValue ref') \<and>
    (IsOpaque (ref_ResolvedValue ref) \<longrightarrow> IsOpaque (ref_ResolvedValue ref')) \<and>
    (\<not> (IsSetOnce (ref_ResolvedValue ref) \<and> HasValue (ref_ResolvedValue ref)) \<longrightarrow>
       (\<forall>kvs. gj_Parse lib value = Some (JObj kvs) \<and> get_text lib (JObj kvs) ''$visibility'' = ''Opaque''
          \<longrightarrow> IsOpaque (ref_ResolvedValue ref')))"
proof (cases "IsSetOnce (ref_ResolvedValue ref) \<and> v_Value (ref_ResolvedValue ref) \<noteq> None")
  case True
  then show ?thesis
    using assms by (intro exI [of _ pr] exI [of _ ref]) (auto simp: setRefValue_def HasValue_def)
next
  case False
  let ?r = "ref\<lparr>ref_ResolvedValue := setRefValue_new lib value ref\<rparr>"
  show ?thesis
    by (intro exI [of _ "pr\<lparr>pv_refs := AList.update uri ?r (pv_refs pr)\<rparr>"] exI [of _ ?r])
      (use False assms setRefValue_new_facts [where ref = ref] in
        \<open>auto simp: setRefValue_def update_conv' HasValue_def IsOpaque_def\<close>)
qed

definition opaque_ref :: Ref where
  "opaque_ref = \<lparr>ref_PropertyURI = ''u1'', ref_ResourceURI = [], ref_SourcePropertyName = [],
     ref_TargetPath = ''a'', ref_ResolvedValue = \<lparr>v_Strategy = ''Update'', v_Visibility = ''Opaque'', v_Value = None\<rparr>\<rparr>"

theorem setRefValue_correct_witness:
  "\<exists>pr' ref'. setRefValue key_lib \<lparr>pv_values = [], pv_refs = [(''u1'', opaque_ref)]\<rparr> ''u1'' ''x'' = Some pr' \<and>
    map_of (pv_refs pr') ''u1'' = Some ref' \<and> IsOpaque (ref_ResolvedValue ref') \<and>
    HasValue (ref_ResolvedValue ref') \<and> v_Strategy (ref_ResolvedValue ref') = ''Update''"
  using setRefValue_correct [of "\<lparr>pv_values = [], pv_refs = [(''u1'', opaque_ref)]\<rparr>" "''u1''" opaque_ref
      key_lib "''x''"]
  by (auto simp: opaque_ref_def IsOpaque_def)

text \<open>
  The table of references has one entry per URI, so of two properties that refer to the same
  value only the last one is resolved; the other keeps its bare reference.
\<close>

theorem shared_reference_resolved_once:
  "ResolvePropertyReferences key_lib id ''u1''
     (RawJson (JObj [(''a'', ref_json ''u1''), (''b'', ref_json ''u1'')])) ''v'' =
   Some (RawJson (JObj [(''a'', ref_json ''u1''),
     (''b'', JObj [(''$ref'', JStr ''u1''), (''$value'', JStr ''v'')])]))"
  by code_simp

lemma rprops_Get_Add:
  "rprops_Get (rprops_Add k p v m) k' p' = (if k' = k \<and> p' = p then Some v else rprops_Get m k' p')"
  by (auto simp: rprops_Get_def rprops_Add_def update_conv' split: option.splits)

text \<open>The value a URI stands for: read-only properties take precedence over properties.\<close>

definition stack_value :: "json_lib \<Rightarrow> (string \<Rightarrow> Resource option) \<Rightarrow> FormaeURI \<Rightarrow> string option" where
  "stack_value lib resources uri =
     (case resources (KSUID uri) of
        None \<Rightarrow> None
      | Some r \<Rightarrow>
          let query = (\<lambda>raw. if raw = RawNil then None
                else Option.bind (parse_raw lib raw) (\<lambda>j. gj_Get lib j (PropertyPath uri)))
          in map_option (gj_String lib)
               (case query (res_ReadOnlyProperties r) of Some v \<Rightarrow> Some v | None \<Rightarrow> query (res_Properties r)))"

definition by_ksuid :: "Forma list \<Rightarrow> string \<Rightarrow> Resource option" where
  "by_ksuid everything = fold (\<lambda>r m. if res_Ksuid r \<noteq> '''' then m(res_Ksuid r \<mapsto> r) else m)
     (concat (map forma_Resources everything)) Map.empty"

definition load_step :: "json_lib \<Rightarrow> (string \<Rightarrow> Resource option) \<Rightarrow> FormaeURI \<Rightarrow>
    FormaeURI + ResolvableProperties \<Rightarrow> FormaeURI + ResolvableProperties" where
  "load_step lib m uri acc = (case acc of Inl e \<Rightarrow> Inl e
     | Inr res \<Rightarrow> (case stack_value lib m uri of
          None \<Rightarrow> Inl uri
        | Some v \<Rightarrow> Inr (rprops_Add (KSUID uri) (PropertyPath uri) v res)))"

lemma LoadResolvableProperties_steps:
  "LoadResolvablePropertiesFromStacks lib ord resource everything =
     fold (load_step lib (by_ksuid everything)) (ExtractResolvableURIs lib ord resource) (Inr [])"
  unfolding LoadResolvablePropertiesFromStacks_def by_ksuid_def [symmetric] Let_def
  by (intro fold_cong refl ext)
    (simp add: load_step_def stack_value_def split: sum.split option.split)

lemma load_step_fold_Inl: "fold (load_step lib m) us (Inl e) = Inl e"
  by (induction us) (simp_all add: load_step_def)

text \<open>The value depends on the KSUID and the property path only.\<close>

lemma stack_value_cong:
  "KSUID u = KSUID w \<Longrightarrow> PropertyPath u = PropertyPath w \<Longrightarrow> stack_value lib m u = stack_value lib m w"
  unfolding stack_value_def by (simp only:)

lemma load_step_fold:
  "case fold (load_step lib m) us (Inr p) of
     Inl e \<Rightarrow> e \<in> set us \<and> stack_value lib m e = None
   | Inr q \<Rightarrow> (\<forall>u \<in> set us. stack_value lib m u \<noteq> None \<and>
         rprops_Get q (KSUID u) (PropertyPath u) = stack_value lib m u) \<and>
       (\<forall>k pp. (\<forall>u \<in> set us. (KSUID u, PropertyPath u) \<noteq> (k, pp)) \<longrightarrow> rprops_Get q k pp = rprops_Get p k pp)"
proof (induction us arbitrary: p)
  case Nil
  then show ?case by simp
next
  case (Cons u us)
  show ?case
  proof (cases "stack_value lib m u")
    case None
    then show ?thesis by (simp add: load_step_def [of lib m u] load_step_fold_Inl)
  next
    case (Some v)
    let ?p = "rprops_Add (KSUID u) (PropertyPath u) v p"
    have f: "load_step lib m u (Inr p) = Inr ?p"
      by (simp add: load_step_def [of lib m u] Some)
    show ?thesis
    proof (cases "fold (load_step lib m) us (Inr ?p)")
      case (Inl e)
      then show ?thesis using Cons.IH [of ?p] by (simp add: f)
    next
      case (Inr q)
      note IH = Cons.IH [of ?p, unfolded Inr sum.case]
      have "rprops_Get q (KSUID u) (PropertyPath u) = Some v"
      proof (cases "\<exists>w \<in> set us. KSUID w = KSUID u \<and> PropertyPath w = PropertyPath u")
        case True
        then obtain w where w: "w \<in> set us" "KSUID w = KSUID u" "PropertyPath w = PropertyPath u" by blast
        then have "rprops_Get q (KSUID w) (PropertyPath w) = stack_value lib m w" using IH by blast
        then show ?thesis using w Some stack_value_cong [of w u] by simp
      next
        case False
        then have "rprops_Get q (KSUID u) (PropertyPath u) = rprops_Get ?p (KSUID u) (PropertyPath u)"
          using IH by blast
        then show ?thesis by (simp add: rprops_Get_Add)
      qed
      then show ?thesis using IH Some by (auto simp: f Inr rprops_Get_Add)
    qed
  qed
qed

text \<open>loading the values a resource refers to from the stacks either yields, for every reference of
  the resource, the text of the referenced property of the resource with that KSUID, where a
  read-only property takes precedence, or names a reference of the resource that has no such
  value.\<close>

theorem LoadResolvableProperties_correct:
  "case LoadResolvablePropertiesFromStacks lib ord resource everything of
     Inl e \<Rightarrow> e \<in> set (ExtractResolvableURIs lib ord resource) \<and>
       stack_value lib (by_ksuid everything) e = None
   | Inr props \<Rightarrow> \<forall>u \<in> set (ExtractResolvableURIs lib ord resource).
       stack_value lib (by_ksuid everything) u \<noteq> None \<and>
       rprops_Get props (KSUID u) (PropertyPath u) = stack_value lib (by_ksuid everything) u"
  using load_step_fold [where lib = lib and m = "by_ksuid everything" and p = "[]"
      and us = "ExtractResolvableURIs lib ord resource"]
  unfolding LoadResolvableProperties_steps by (auto split: sum.splits)

definition sample_target :: Resource where
  "sample_target = zero_Resource\<lparr>res_Ksuid := ''k1'',
     res_Properties := RawJson (JObj [(''Id'', JStr ''old'')]),
     res_ReadOnlyProperties := RawJson (JObj [(''Id'', JStr ''vpc-1'')])\<rparr>"

definition sample_source :: Resource where
  "sample_source = zero_Resource\<lparr>res_Properties :=
     RawJson (JObj [(''VpcId'', ref_json (NewFormaeURI ''k1'' ''Id''))])\<rparr>"

theorem LoadResolvableProperties_correct_witness:
  "\<exists>props. LoadResolvablePropertiesFromStacks key_lib id sample_source
       [zero_Forma\<lparr>forma_Resources := [sample_target]\<rparr>] = Inr props \<and>
     rprops_Get props ''k1'' ''Id'' = Some ''vpc-1''"
proof -
  let ?all = "[zero_Forma\<lparr>forma_Resources := [sample_target]\<rparr>]"
  let ?u = "NewFormaeURI ''k1'' ''Id''"
  have "isl (LoadResolvablePropertiesFromStacks key_lib id sample_source ?all) = False" by code_simp
  then obtain props where p: "LoadResolvablePropertiesFromStacks key_lib id sample_source ?all = Inr props"
    by (metis sum.collapse(2))
  have u: "ExtractResolvableURIs key_lib id sample_source = [?u]" "KSUID ?u = ''k1''"
    "PropertyPath ?u = ''Id''" "stack_value key_lib (by_ksuid ?all) ?u = Some ''vpc-1''"
    by code_simp+
  show ?thesis
    using LoadResolvableProperties_correct [of key_lib id sample_source ?all] p u by simp
qed

end
