(* ===== verification/Messages.thy ===== *)
theory Messages
  imports Resource_Update
begin

text \<open>
  \<^verbatim>\<open>internal/metastructure/messages\<close>: the messages the resource updater, the resolve
  cache and the persisters exchange.
\<close>

record UpdateResourceProgress =
  up_CommandID :: string
  up_ResourceURI :: FormaeURI
  up_ResourceStartTs :: go_time
  up_ResourceModifiedTs :: go_time
  up_ResourceState :: ResourceUpdateState
  up_Progress :: ProgressResult
  up_ResourceProperties :: raw
  up_ResourceReadOnlyProperties :: raw
  up_Version :: string

record MarkResourceUpdateAsComplete =
  mc_CommandID :: string
  mc_ResourceURI :: FormaeURI
  mc_FinalState :: ResourceUpdateState
  mc_ResourceStartTs :: go_time
  mc_ResourceModifiedTs :: go_time
  mc_ResourceProperties :: raw
  mc_ResourceReadOnlyProperties :: raw
  mc_Version :: string

record ResolveValue =
  rv_ResourceURI :: FormaeURI

record ValueResolved =
  vr_ResourceURI :: FormaeURI
  vr_Value :: string

record FailedToResolveValue =
  fr_ResourceURI :: FormaeURI

record LoadResource =
  lo_ResourceURI :: FormaeURI

record LoadResourceResult =
  lo_Resource :: Resource
  lo_Target :: Target

end
