(* ===== verification/Resource_Updater.thy ===== *)
theory Resource_Updater
  imports Plugin_Operator Resolver Messages
begin

text \<open>
  \<^verbatim>\<open>internal/metastructure/resource_update/resource_updater.go\<close>: the state machine that
  carries out one resource update as a sequence of plugin operations. A handler is a function of
  the answers of the other actors, the data and the message; it returns the next state, the data,
  the messages and calls it has made, in order, and whether it returns an error. \<open>None\<close> is a
  panic. The mutual recursion of the handlers follows the states and terminates; there is no fuel.
\<close>

section \<open>Data\<close>

datatype ru_state = StateInitializing | StateSynchronizing | StateResolving | StateDeleting
  | StateCreating | StateUpdating | StateExiting | StateFinishedSuccessfully
  | StateFinishedWithError | StateRejected

record ResourceUpdateData =
  rd_resourceUpdate :: ResourceUpdate
  rd_commandID :: string
  rd_labelTagKeys :: "string list"
  rd_retryConfig :: RetryConfig
  rd_commandSource :: FormaCommandSource
  rd_originalResourceKsuidURI :: FormaeURI

record PersistResourceUpdate =
  ps_CommandID :: string
  ps_ResourceOperation :: OperationType
  ps_PluginOperation :: Operation
  ps_ResourceUpdate :: ResourceUpdate

record ResourceUpdateFinished =
  rf_Uri :: FormaeURI
  rf_State :: ResourceUpdateState

record StartResourceUpdate =
  su_ResourceUpdate :: ResourceUpdate
  su_CommandID :: string
  su_UpdateId :: string

text \<open>What the updater sends, calls and schedules.\<close>

datatype ru_out =
    CallPlugin op_call
  | CallUpdateProgress UpdateResourceProgress
  | CallPersist PersistResourceUpdate
  | CallMarkComplete MarkResourceUpdateAsComplete
  | SendResolveValue ResolveValue
  | SendFinished ResourceUpdateFinished
  | SendUpdaterShutdown
  | PluginOperatorTimeout int
  | ResolveCacheTimeout int

text \<open>The answers of the plugin operator: the supervisor or the call fails, the response has another
  type, or it is a progress.\<close>

datatype plugin_answer = EnsureFailed | CallFailed | OtherResponse | Answer ProgressResult

record ru_env =
  ue_plugin :: "op_call \<Rightarrow> plugin_answer"
  ue_progress_ok :: "UpdateResourceProgress \<Rightarrow> bool"
  ue_persist :: "PersistResourceUpdate \<Rightarrow> string option"
  ue_resolve_send_ok :: bool
  ue_LatestLabel :: "string \<Rightarrow> string option"
  ue_TimeNow :: go_time
  ue_lib :: json_lib
  ue_merge :: "raw \<Rightarrow> raw \<Rightarrow> raw"
  ue_ord :: "string list \<Rightarrow> string list"
  ue_tag_ord :: "(string \<times> string) list \<Rightarrow> (string \<times> string) list"
  ue_plugin_env :: plugin_env

type_synonym ru_result = "(ru_state \<times> ResourceUpdateData \<times> ru_out list \<times> bool) option"

definition emit :: "ru_out list \<Rightarrow> ru_result \<Rightarrow> ru_result" where
  "emit os r = map_option (\<lambda>(st, d, outs, e). (st, d, os @ outs, e)) r"

definition ru_map :: "(ResourceUpdate \<Rightarrow> ResourceUpdate) \<Rightarrow> ResourceUpdateData \<Rightarrow> ResourceUpdateData" where
  "ru_map f d = d\<lparr>rd_resourceUpdate := f (rd_resourceUpdate d)\<rparr>"

text \<open>\<^verbatim>\<open>MarkAsFailed\<close> followed by the transition to the failed state.\<close>

definition fail_update_with :: "ru_env \<Rightarrow> ResourceUpdateData \<Rightarrow> ru_out list \<Rightarrow> ru_result" where
  "fail_update_with env d outs =
     Some (StateFinishedWithError, ru_map (MarkAsFailed (ue_TimeNow env)) d, outs, False)"

definition ResolveValue_ru ::
  "json_lib \<Rightarrow> (string list \<Rightarrow> string list) \<Rightarrow> ResourceUpdate \<Rightarrow> FormaeURI \<Rightarrow> string \<Rightarrow> ResourceUpdate option" where
  "ResolveValue_ru lib ord ru formaeUri value =
     map_option (\<lambda>p. ru\<lparr>ru_Resource := (ru_Resource ru)\<lparr>res_Properties := p\<rparr>\<rparr>)
       (ResolvePropertyReferences lib ord formaeUri (res_Properties (ru_Resource ru)) value)"

definition doPluginOperation :: "ru_env \<Rightarrow> op_call \<Rightarrow> ProgressResult option" where
  "doPluginOperation env operation =
     (case ue_plugin env operation of
        EnsureFailed \<Rightarrow> None
      | CallFailed \<Rightarrow> None
      | OtherResponse \<Rightarrow> None
      | Answer p \<Rightarrow> Some p)"

fun currentOperation :: "ru_state \<Rightarrow> Operation option" where
  "currentOperation StateSynchronizing = Some PRead"
| "currentOperation StateCreating = Some PCreate"
| "currentOperation StateUpdating = Some PUpdate"
| "currentOperation StateDeleting = Some PDelete"
| "currentOperation _ = None"

section \<open>The operations it asks for\<close>

definition read_operation :: "ResourceUpdateData \<Rightarrow> ReadResource" where
  "read_operation d = (let ru = rd_resourceUpdate d in
     \<lparr>rr_Namespace = Namespace (ru_ExistingResource ru), rr_NativeID = res_NativeID (ru_Resource ru),
      rr_Target = ru_ResourceTarget ru, rr_Resource = ru_Resource ru,
      rr_ExistingResource = ru_ExistingResource ru, rr_IsSync = IsSync ru, rr_IsDelete = IsDelete ru,
      rr_RedactSensitive = (rd_commandSource d = FormaCommandSourceDiscovery)\<rparr>)"

definition delete_operation :: "ru_env \<Rightarrow> ResourceUpdateData \<Rightarrow> DeleteResource" where
  "delete_operation env d = (let ru = rd_resourceUpdate d in
     \<lparr>dr_Namespace = Namespace (ru_Resource ru), dr_NativeID = res_NativeID (ru_Resource ru),
      dr_Resource = ru_Resource ru, dr_ResourceType = res_Type (ru_Resource ru),
      dr_Metadata = metadata_or_empty (ue_plugin_env env) (ru_ExistingResource ru),
      dr_Target = ru_ResourceTarget ru\<rparr>)"

definition create_operation :: "ResourceUpdateData \<Rightarrow> CreateResource" where
  "create_operation d = (let ru = rd_resourceUpdate d in
     \<lparr>cr_Namespace = Namespace (ru_Resource ru), cr_Resource = ru_Resource ru,
      cr_Target = ru_ResourceTarget ru\<rparr>)"

definition update_operation :: "ResourceUpdateData \<Rightarrow> UpdateResource" where
  "update_operation d = (let ru = rd_resourceUpdate d in
     \<lparr>ur_Namespace = Namespace (ru_Resource ru), ur_NativeID = res_NativeID (ru_Resource ru),
      ur_Resource = ru_Resource ru, ur_ExistingResource = ru_ExistingResource ru,
      ur_PatchDocument = res_PatchDocument (ru_Resource ru), ur_Target = ru_ResourceTarget ru\<rparr>)"

definition resume_operation ::
  "ru_env \<Rightarrow> Operation \<Rightarrow> ResourceUpdateData \<Rightarrow> ProgressResult \<Rightarrow> status_check \<Rightarrow> op_call" where
  "resume_operation env op d progress operation = CallResume
     \<lparr>rw_Namespace = Namespace (ru_Resource (rd_resourceUpdate d)), rw_ResourceOperation = op,
      rw_Request = StatusCheck (ue_plugin_env env) operation progress,
      rw_PreviousAttempts = pr_Attempts progress\<rparr>"

definition plugin_timeout :: "ResourceUpdateData \<Rightarrow> ru_out" where
  "plugin_timeout d = PluginOperatorTimeout (rc_StatusCheckInterval (rd_retryConfig d) * 2)"

definition progress_message :: "ResourceUpdateData \<Rightarrow> ProgressResult \<Rightarrow> UpdateResourceProgress" where
  "progress_message d message = (let ru = rd_resourceUpdate d in
     \<lparr>up_CommandID = rd_commandID d, up_ResourceURI = ru_URI ru, up_ResourceStartTs = ru_StartTs ru,
      up_ResourceModifiedTs = pr_ModifiedTs message, up_ResourceState = ru_State ru,
      up_Progress = message, up_ResourceProperties = RawNil, up_ResourceReadOnlyProperties = RawNil,
      up_Version = []\<rparr>)"

definition persist_message :: "Operation \<Rightarrow> ResourceUpdateData \<Rightarrow> PersistResourceUpdate" where
  "persist_message op d = \<lparr>ps_CommandID = rd_commandID d,
     ps_ResourceOperation = ru_Operation (rd_resourceUpdate d), ps_PluginOperation = op,
     ps_ResourceUpdate = rd_resourceUpdate d\<rparr>"

text \<open>The label of a discovered resource.\<close>

definition label_discovered :: "ru_env \<Rightarrow> ResourceUpdateData \<Rightarrow> ResourceUpdateData" where
  "label_discovered env d = ru_map (\<lambda>ru. ru\<lparr>ru_Resource := (ru_Resource ru)\<lparr>res_Label :=
     LabelForUnmanagedResource (ue_LatestLabel env) (res_NativeID (ru_Resource ru))
       (GetTagsFromProperties (ue_tag_ord env) (res_Properties (ru_Resource ru)))
       (rd_labelTagKeys d)\<rparr>\<rparr>) d"

text \<open>How far a state is from the end of an update.\<close>

fun distance :: "ru_state \<Rightarrow> nat" where
  "distance StateInitializing = 50"
| "distance StateSynchronizing = 40"
| "distance StateDeleting = 30"
| "distance StateResolving = 20"
| "distance StateCreating = 10"
| "distance StateUpdating = 10"
| "distance _ = 0"

section \<open>The handlers\<close>

function nextState :: "ru_env \<Rightarrow> ru_state \<Rightarrow> ResourceUpdateData \<Rightarrow> ru_result"
  and handleProgressUpdate :: "ru_env \<Rightarrow> ru_state \<Rightarrow> ResourceUpdateData \<Rightarrow> ProgressResult \<Rightarrow> ru_result"
  and synchronize :: "ru_env \<Rightarrow> ru_state \<Rightarrow> ResourceUpdateData \<Rightarrow> ru_result"
  and delete :: "ru_env \<Rightarrow> ru_state \<Rightarrow> ResourceUpdateData \<Rightarrow> ru_result"
  and resolve :: "ru_env \<Rightarrow> ru_state \<Rightarrow> ResourceUpdateData \<Rightarrow> ru_result"
  and create :: "ru_env \<Rightarrow> ru_state \<Rightarrow> ResourceUpdateData \<Rightarrow> ru_result"
  and update :: "ru_env \<Rightarrow> ru_state \<Rightarrow> ResourceUpdateData \<Rightarrow> ru_result"
  and recoverFromPreviousProgress ::
    "ru_env \<Rightarrow> ru_state \<Rightarrow> ResourceUpdateData \<Rightarrow> ProgressResult \<Rightarrow> status_check \<Rightarrow> ru_result"
where
  "nextState env state d =
     (let ru = rd_resourceUpdate d;
          succeeded = Some (StateFinishedSuccessfully, ru_map (MarkAsSuccess (ue_TimeNow env)) d, [], False)
      in case state of
           StateInitializing \<Rightarrow>
             (if ru_Operation ru = OperationCreate then resolve env StateResolving d
              else if ru_Operation ru = OperationUpdate \<and> HasProgress ru then update env StateUpdating d
              else if ru_Operation ru = OperationDelete \<and> HasProgress ru then delete env StateDeleting d
              else synchronize env StateSynchronizing d)
         | StateSynchronizing \<Rightarrow>
             (if IsSync ru then Some (StateFinishedSuccessfully, d, [], False)
              else if RequiresDelete ru then delete env StateDeleting d
              else resolve env StateResolving d)
         | StateDeleting \<Rightarrow>
             (if \<not> IsCreate ru \<and> \<not> IsUpdate ru then succeeded
              else resolve env StateResolving d)
         | StateResolving \<Rightarrow>
             (if IsCreate ru then create env StateCreating d else update env StateUpdating d)
         | StateCreating \<Rightarrow> succeeded
         | StateUpdating \<Rightarrow> succeeded
         | _ \<Rightarrow> Some (StateFinishedWithError, ru_map (MarkAsFailed (ue_TimeNow env)) d, [], True))"
| "handleProgressUpdate env state d message =
     (let (ru1, failed) = RecordProgress (ue_merge env) (rd_resourceUpdate d) message;
          d1 = d\<lparr>rd_resourceUpdate := ru1\<rparr>
      in if failed then fail_update_with env d1 []
         else if \<not> ue_progress_ok env (progress_message d1 message)
         then fail_update_with env d1 [CallUpdateProgress (progress_message d1 message)]
         else emit [CallUpdateProgress (progress_message d1 message)]
           (if FinishedSuccessfully message
            then
              (let persist_and_continue = (\<lambda>d2.
                  case currentOperation state of
                    None \<Rightarrow> None
                  | Some operation \<Rightarrow>
                      emit [CallPersist (persist_message operation d2)]
                        (case ue_persist env (persist_message operation d2) of
                           None \<Rightarrow> fail_update_with env d2 []
                         | Some hash \<Rightarrow>
                             (let d3 = ru_map (\<lambda>ru. ru\<lparr>ru_Version := hash\<rparr>) d2;
                                  ru = rd_resourceUpdate d3
                              in if state = StateSynchronizing \<and> ru_Operation ru \<noteq> OperationRead \<and>
                                    operation = PRead \<and> hash \<noteq> '''' \<and> \<not> IsDelete ru
                                 then Some (StateRejected, ru_map (Reject (ue_TimeNow env)) d3, [], False)
                                 else nextState env state d3)))
               in if rd_commandSource d1 = FormaCommandSourceDiscovery
                  then (case ru_Filter ru1 of
                          None \<Rightarrow> None
                        | Some flt \<Rightarrow>
                            if flt (res_Properties (ru_Resource ru1)) (ru_ResourceTarget ru1)
                            then Some (StateFinishedSuccessfully,
                              ru_map (MarkAsSuccess (ue_TimeNow env)) d1, [], False)
                            else persist_and_continue (label_discovered env d1))
                  else persist_and_continue d1)
            else if Failed message then Some (StateFinishedWithError, d1, [], False)
            else Some (state, d1, [plugin_timeout d1], False)))"
| "synchronize env state d =
     emit [CallPlugin (CallRead (read_operation d))]
       (case doPluginOperation env (CallRead (read_operation d)) of
          None \<Rightarrow> fail_update_with env d []
        | Some progress \<Rightarrow> handleProgressUpdate env state d progress)"
| "delete env state d =
     (case FindProgress (rd_resourceUpdate d) PDelete of
        Some lastKnownProgress \<Rightarrow>
          recoverFromPreviousProgress env StateDeleting d lastKnownProgress (OpDelete (delete_operation env d))
      | None \<Rightarrow>
          emit [CallPlugin (CallDelete (delete_operation env d))]
            (case doPluginOperation env (CallDelete (delete_operation env d)) of
               None \<Rightarrow> Some (StateDeleting, d, [], False)
             | Some result \<Rightarrow> handleProgressUpdate env state d result))"
| "resolve env state d =
     (case ru_RemainingResolvables (rd_resourceUpdate d) of
        [] \<Rightarrow> nextState env state d
      | first # rest \<Rightarrow>
          let d1 = ru_map (\<lambda>ru. ru\<lparr>ru_RemainingResolvables := rest\<rparr>) d
          in if \<not> ue_resolve_send_ok env then Some (StateResolving, d1, [], True)
             else Some (StateResolving, d1, [SendResolveValue \<lparr>rv_ResourceURI = first\<rparr>,
               ResolveCacheTimeout (rc_StatusCheckInterval (rd_retryConfig d) * 2)], False))"
| "create env state d =
     (case FindProgress (rd_resourceUpdate d) PCreate of
        Some lastKnownProgress \<Rightarrow>
          recoverFromPreviousProgress env StateCreating d lastKnownProgress (OpCreate (create_operation d))
      | None \<Rightarrow>
          emit [CallPlugin (CallCreate (create_operation d))]
            (case doPluginOperation env (CallCreate (create_operation d)) of
               None \<Rightarrow> fail_update_with env d []
             | Some result \<Rightarrow> handleProgressUpdate env state d result))"
| "update env state d =
     (case FindProgress (rd_resourceUpdate d) PUpdate of
        Some lastKnownProgress \<Rightarrow>
          recoverFromPreviousProgress env StateUpdating d lastKnownProgress (OpUpdate (update_operation d))
      | None \<Rightarrow>
          emit [CallPlugin (CallUpdate (update_operation d))]
            (case doPluginOperation env (CallUpdate (update_operation d)) of
               None \<Rightarrow> fail_update_with env d []
             | Some result \<Rightarrow> handleProgressUpdate env state d result))"
| "recoverFromPreviousProgress env state d lastKnownProgress operation =
     (if HasFinished lastKnownProgress then handleProgressUpdate env state d lastKnownProgress
      else (case currentOperation state of
              None \<Rightarrow> None
            | Some op \<Rightarrow>
                let call = resume_operation env op d lastKnownProgress operation
                in emit [CallPlugin call]
                     (case doPluginOperation env call of
                        None \<Rightarrow> fail_update_with env d []
                      | Some actualProgress \<Rightarrow>
                          if HasFinished actualProgress
                          then handleProgressUpdate env state d actualProgress
                          else Some (state, d, [plugin_timeout d], False))))"
  by pat_completeness auto

termination
  by (relation "measure (\<lambda>x. case x of
      Inl (Inl (Inl (env, s, d))) \<Rightarrow> distance s
    | Inl (Inl (Inr (env, s, d, p))) \<Rightarrow> distance s + 1
    | Inl (Inr (Inl (env, s, d))) \<Rightarrow> distance s + 2
    | Inl (Inr (Inr (env, s, d))) \<Rightarrow> max (distance s) 30 + 3
    | Inr (Inl (Inl (env, s, d))) \<Rightarrow> distance s + 1
    | Inr (Inl (Inr (env, s, d))) \<Rightarrow> max (distance s) 10 + 3
    | Inr (Inr (Inl (env, s, d))) \<Rightarrow> max (distance s) 10 + 3
    | Inr (Inr (Inr (env, s, d, p, op))) \<Rightarrow> distance s + 2)")
    auto

declare nextState.simps [simp del] handleProgressUpdate.simps [simp del] synchronize.simps [simp del]
  delete.simps [simp del] resolve.simps [simp del] create.simps [simp del] update.simps [simp del]
  recoverFromPreviousProgress.simps [simp del]

definition start :: "ru_env \<Rightarrow> ru_state \<Rightarrow> ResourceUpdateData \<Rightarrow> StartResourceUpdate \<Rightarrow> ru_result" where
  "start env state d message =
     (let ru = (su_ResourceUpdate message)\<lparr>ru_StartTs := ue_TimeNow env, ru_ModifiedTs := ue_TimeNow env\<rparr>
      in nextState env state (d\<lparr>rd_resourceUpdate := ru, rd_commandID := su_CommandID message,
           rd_commandSource := ru_Source (su_ResourceUpdate message),
           rd_originalResourceKsuidURI := ru_URI ru\<rparr>))"

definition resourceResolved :: "ru_env \<Rightarrow> ru_state \<Rightarrow> ResourceUpdateData \<Rightarrow> ValueResolved \<Rightarrow> ru_result" where
  "resourceResolved env state d message =
     (case ResolveValue_ru (ue_lib env) (ue_ord env) (rd_resourceUpdate d) (vr_ResourceURI message)
          (vr_Value message) of
        None \<Rightarrow> fail_update_with env d []
      | Some ru \<Rightarrow> resolve env state (d\<lparr>rd_resourceUpdate := ru\<rparr>))"

definition pluginOperationMissingInAction :: "ru_env \<Rightarrow> ResourceUpdateData \<Rightarrow> ru_result" where
  "pluginOperationMissingInAction env d = fail_update_with env d []"

definition resolveCacheMissingInAction :: "ru_env \<Rightarrow> ResourceUpdateData \<Rightarrow> ru_result" where
  "resolveCacheMissingInAction env d = fail_update_with env d []"

definition resourceFailedToResolve :: "ru_env \<Rightarrow> ResourceUpdateData \<Rightarrow> FailedToResolveValue \<Rightarrow> ru_result" where
  "resourceFailedToResolve env d message = fail_update_with env d []"

definition finished_state :: "ru_state \<Rightarrow> bool" where
  "finished_state st \<longleftrightarrow> st \<in> {StateFinishedSuccessfully, StateFinishedWithError, StateRejected}"

definition complete_message :: "ResourceUpdateData \<Rightarrow> MarkResourceUpdateAsComplete" where
  "complete_message d = (let ru = rd_resourceUpdate d in
     \<lparr>mc_CommandID = rd_commandID d, mc_ResourceURI = ru_URI ru, mc_FinalState = ru_State ru,
      mc_ResourceStartTs = ru_StartTs ru, mc_ResourceModifiedTs = ru_ModifiedTs ru,
      mc_ResourceProperties = res_Properties (ru_Resource ru),
      mc_ResourceReadOnlyProperties = res_ReadOnlyProperties (ru_Resource ru), mc_Version = ru_Version ru\<rparr>)"

definition onStateChange :: "ru_state \<Rightarrow> ResourceUpdateData \<Rightarrow> ru_out list" where
  "onStateChange newState d =
     (if finished_state newState
      then [CallMarkComplete (complete_message d),
            SendFinished \<lparr>rf_Uri = ru_URI (rd_resourceUpdate d), rf_State = ru_State (rd_resourceUpdate d)\<rparr>,
            SendUpdaterShutdown]
      else [])"

subsection \<open>Dispatch\<close>

datatype ru_msg = MsgStart StartResourceUpdate | MsgProgress ProgressResult | MsgPluginMissing
  | MsgValueResolved ValueResolved | MsgFailedToResolve FailedToResolveValue | MsgResolveCacheMissing

text \<open>The handlers registered by \<^verbatim>\<open>Init\<close>; \<open>None\<close> where a state has no handler for a
  message.\<close>

fun handle :: "ru_env \<Rightarrow> ru_state \<Rightarrow> ResourceUpdateData \<Rightarrow> ru_msg \<Rightarrow> ru_result option" where
  "handle env StateInitializing d (MsgStart m) = Some (start env StateInitializing d m)"
| "handle env StateDeleting d (MsgProgress p) = Some (handleProgressUpdate env StateDeleting d p)"
| "handle env StateDeleting d MsgPluginMissing = Some (pluginOperationMissingInAction env d)"
| "handle env StateCreating d (MsgProgress p) = Some (handleProgressUpdate env StateCreating d p)"
| "handle env StateCreating d MsgPluginMissing = Some (pluginOperationMissingInAction env d)"
| "handle env StateUpdating d (MsgProgress p) = Some (handleProgressUpdate env StateUpdating d p)"
| "handle env StateUpdating d MsgPluginMissing = Some (pluginOperationMissingInAction env d)"
| "handle env StateResolving d (MsgValueResolved m) = Some (resourceResolved env StateResolving d m)"
| "handle env StateResolving d MsgResolveCacheMissing = Some (resolveCacheMissingInAction env d)"
| "handle env StateResolving d (MsgFailedToResolve m) = Some (resourceFailedToResolve env d m)"
| "handle env _ d _ = None"

record updater =
  u_state :: ru_state
  u_data :: ResourceUpdateData
  u_sent :: "ru_out list"
  u_origin :: "ResourceUpdate option" \<comment> \<open>the update it was started with\<close>

definition u_enter :: "updater \<Rightarrow> ru_state \<Rightarrow> ResourceUpdateData \<Rightarrow> ru_out list \<Rightarrow> updater" where
  "u_enter u st d outs = u\<lparr>u_state := st, u_data := d,
     u_sent := u_sent u @ outs @ (if st \<noteq> u_state u then onStateChange st d else [])\<rparr>"

section \<open>Invariant\<close>

fun call_kind :: "op_call \<Rightarrow> Operation" where
  "call_kind (CallRead _) = PRead"
| "call_kind (CallCreate _) = PCreate"
| "call_kind (CallUpdate _) = PUpdate"
| "call_kind (CallDelete _) = PDelete"
| "call_kind (CallResume w) = rw_ResourceOperation w"

text \<open>The plugin operations, the resolve requests and the final reports among the messages sent.\<close>

fun issued :: "ru_out list \<Rightarrow> Operation list" where
  "issued [] = []"
| "issued (CallPlugin c # outs) = call_kind c # issued outs"
| "issued (_ # outs) = issued outs"

fun requested :: "ru_out list \<Rightarrow> FormaeURI list" where
  "requested [] = []"
| "requested (SendResolveValue m # outs) = rv_ResourceURI m # requested outs"
| "requested (_ # outs) = requested outs"

fun final_reports :: "ru_out list \<Rightarrow> ResourceUpdateFinished list" where
  "final_reports [] = []"
| "final_reports (SendFinished m # outs) = m # final_reports outs"
| "final_reports (_ # outs) = final_reports outs"

lemma issued_append [simp]: "issued (xs @ ys) = issued xs @ issued ys"
  by (induction xs rule: issued.induct) auto

lemma requested_append [simp]: "requested (xs @ ys) = requested xs @ requested ys"
  by (induction xs rule: requested.induct) auto

lemma final_reports_append [simp]: "final_reports (xs @ ys) = final_reports xs @ final_reports ys"
  by (induction xs rule: final_reports.induct) auto

text \<open>The answers the updater gets report on the operation asked for, or leave the operation open.\<close>

definition answers_ok :: "ru_env \<Rightarrow> bool" where
  "answers_ok env \<longleftrightarrow> (\<forall>c p. ue_plugin env c = Answer p \<longrightarrow> pr_Operation p \<in> {call_kind c, PNotSet})"

definition recorded :: "ResourceUpdate \<Rightarrow> Operation set" where
  "recorded ru = pr_Operation ` set (ru_ProgressResult ru)"

text \<open>What stays of the original update, and the resolvables that are still to be requested.\<close>

definition same_update :: "ResourceUpdate \<Rightarrow> ResourceUpdateData \<Rightarrow> ru_out list \<Rightarrow> bool" where
  "same_update orig d sent \<longleftrightarrow>
     ru_Operation (rd_resourceUpdate d) = ru_Operation orig \<and> ru_URI (rd_resourceUpdate d) = ru_URI orig \<and>
     rd_commandSource d = ru_Source orig \<and>
     requested sent @ ru_RemainingResolvables (rd_resourceUpdate d) = ru_RemainingResolvables orig \<and>
     recorded (rd_resourceUpdate d) \<subseteq> insert PNotSet (set (issued sent)) \<and>
     prefix (issued sent) (requiredOperations (ru_Operation orig)) \<and> final_reports sent = [] \<and>
     (PCreate \<in> set (issued sent) \<or> PUpdate \<in> set (issued sent) \<longrightarrow>
        ru_RemainingResolvables (rd_resourceUpdate d) = [])"

fun phase :: "ru_state \<Rightarrow> ResourceUpdate \<Rightarrow> ResourceUpdateData \<Rightarrow> ru_out list \<Rightarrow> bool" where
  "phase StateInitializing orig d sent \<longleftrightarrow> False"
| "phase StateSynchronizing orig d sent \<longleftrightarrow> issued sent = [PRead] \<and> requested sent = [] \<and>
     ru_Operation orig \<noteq> OperationCreate"
| "phase StateDeleting orig d sent \<longleftrightarrow> issued sent = [PRead, PDelete] \<and> requested sent = [] \<and>
     ru_Operation orig \<in> {OperationDelete, OperationReplace}"
| "phase StateResolving orig d sent \<longleftrightarrow> issued sent = butlast (requiredOperations (ru_Operation orig)) \<and>
     ru_Operation orig \<in> {OperationCreate, OperationUpdate, OperationReplace}"
| "phase StateCreating orig d sent \<longleftrightarrow> issued sent = requiredOperations (ru_Operation orig) \<and>
     ru_Operation orig \<in> {OperationCreate, OperationReplace} \<and>
     ru_RemainingResolvables (rd_resourceUpdate d) = []"
| "phase StateUpdating orig d sent \<longleftrightarrow> issued sent = requiredOperations (ru_Operation orig) \<and>
     ru_Operation orig = OperationUpdate \<and> ru_RemainingResolvables (rd_resourceUpdate d) = []"
| "phase StateFinishedSuccessfully orig d sent \<longleftrightarrow>
     ru_State (rd_resourceUpdate d) = ResourceUpdateStateSuccess \<and>
     (ru_Source orig \<noteq> FormaCommandSourceDiscovery \<longrightarrow>
        issued sent = requiredOperations (ru_Operation orig) \<and>
        (ru_Operation orig \<in> {OperationCreate, OperationUpdate, OperationReplace} \<longrightarrow>
           ru_RemainingResolvables (rd_resourceUpdate d) = []))"
| "phase StateRejected orig d sent \<longleftrightarrow> ru_State (rd_resourceUpdate d) = ResourceUpdateStateRejected \<and>
     issued sent = [PRead] \<and> ru_Operation orig = OperationUpdate"
| "phase StateFinishedWithError orig d sent \<longleftrightarrow> True"
| "phase StateExiting orig d sent \<longleftrightarrow> False"

definition ru_inv :: "ResourceUpdate \<Rightarrow> ru_state \<Rightarrow> ResourceUpdateData \<Rightarrow> ru_out list \<Rightarrow> bool" where
  "ru_inv orig st d sent \<longleftrightarrow> same_update orig d sent \<and> phase st orig d sent"

text \<open>A handler that returns an error ends the actor; otherwise it must lead to a state with the
  invariant.\<close>

definition leads :: "ResourceUpdate \<Rightarrow> ru_out list \<Rightarrow> ru_result \<Rightarrow> bool" where
  "leads orig sent r \<longleftrightarrow> (\<forall>st d outs. r = Some (st, d, outs, False) \<longrightarrow> ru_inv orig st d (sent @ outs))"

lemma leads_emit: "leads orig sent (emit os r) \<longleftrightarrow> leads orig (sent @ os) r"
  by (force simp: leads_def emit_def)

lemma leads_None [simp]: "leads orig sent None"
  by (simp add: leads_def)

lemma leads_Some: "leads orig sent (Some (st, d, outs, e)) \<longleftrightarrow> (\<not> e \<longrightarrow> ru_inv orig st d (sent @ outs))"
  by (simp add: leads_def)

lemma ru_map_sel [simp]:
  "rd_resourceUpdate (ru_map f d) = f (rd_resourceUpdate d)" "rd_commandID (ru_map f d) = rd_commandID d"
  "rd_commandSource (ru_map f d) = rd_commandSource d" "rd_retryConfig (ru_map f d) = rd_retryConfig d"
  by (simp_all add: ru_map_def)

lemma leads_fail: "same_update orig d sent \<Longrightarrow> leads orig sent (fail_update_with env d [])"
  by (simp add: fail_update_with_def leads_Some ru_inv_def same_update_def MarkAsFailed_def
      ru_URI_def recorded_def)

subsection \<open>Recording progress\<close>

lemma store_progress_frame:
  "ru_Operation (store_progress ru p) = ru_Operation ru"
  "ru_RemainingResolvables (store_progress ru p) = ru_RemainingResolvables ru"
  "ru_Resource (store_progress ru p) = ru_Resource ru"
  "recorded (store_progress ru p) = insert (pr_Operation p) (recorded ru)"
  by (auto simp: store_progress_def recorded_def list_ex_iff image_iff)

lemma updateState_frame [simp]:
  "ru_Operation (updateState ru) = ru_Operation ru"
  "ru_RemainingResolvables (updateState ru) = ru_RemainingResolvables ru"
  "ru_Resource (updateState ru) = ru_Resource ru" "ru_StartTs (updateState ru) = ru_StartTs ru"
  "ru_ProgressResult (updateState ru) = ru_ProgressResult ru"
  by (simp_all add: updateState_def)

lemma from_progress_frame:
  assumes "updateResourceUpdateFromProgress merge ru p = (ru', f)"
  shows "ru_Operation ru' = ru_Operation ru \<and> ru_RemainingResolvables ru' = ru_RemainingResolvables ru \<and>
    ru_URI ru' = ru_URI ru \<and> ru_ProgressResult ru' = ru_ProgressResult ru \<and>
    ru_State ru' = ru_State (updateState ru)"
  using assms
  by (auto simp: updateResourceUpdateFromProgress_def updateResourceProperties_def
      updateExistingResourceProperties_def ru_URI_def res_URI_def Let_def
      split: if_splits option.splits prod.splits)

lemma RecordProgress_frame:
  assumes "RecordProgress merge ru p = (ru', f)"
  shows "ru_Operation ru' = ru_Operation ru" "ru_RemainingResolvables ru' = ru_RemainingResolvables ru"
    "ru_URI ru' = ru_URI ru" "recorded ru' = insert (pr_Operation p) (recorded ru)"
    "ru_State ru' = ru_State (updateState (store_progress ru p))"
  using from_progress_frame [OF assms [unfolded RecordProgress_def]] store_progress_frame [of ru p]
  by (simp_all add: ru_URI_def recorded_def)

text \<open>The first progress of a synchronization decides its state.\<close>

lemma RecordProgress_first:
  assumes "RecordProgress merge ru p = (ru', f)" "ru_ProgressResult ru = []" "FinishedSuccessfully p"
    "ru_Operation ru = OperationRead"
  shows "ru_State ru' = ResourceUpdateStateSuccess"
proof -
  have "\<not> Failed p" using assms(3) Failed_not_FinishedSuccessfully by blast
  then show ?thesis
    using RecordProgress_frame(5) [OF assms(1)] assms(2-4)
    by (simp add: store_progress_def updateState_def FinishedSuccessfully_def)
qed

lemma RecordProgress_update:
  assumes "same_update orig d sent" "pr_Operation p \<in> insert PNotSet (set (issued sent))"
    "RecordProgress merge (rd_resourceUpdate d) p = (ru1, failed)"
  shows "same_update orig (d\<lparr>rd_resourceUpdate := ru1\<rparr>) sent"
  using assms(1,2) by (auto simp: same_update_def RecordProgress_frame [OF assms(3)])

text \<open>Messages that are neither plugin operations nor resolve requests nor final reports do not matter
  to the invariant, and neither do changes of label, version and timestamps.\<close>

definition quiet :: "ru_out \<Rightarrow> bool" where
  "quiet out \<longleftrightarrow> issued [out] = [] \<and> requested [out] = [] \<and> final_reports [out] = []"

lemma quiet_append:
  assumes "list_all quiet os"
  shows "issued os = [] \<and> requested os = [] \<and> final_reports os = []"
  using assms
proof (induction os)
  case (Cons x os)
  then show ?case by (cases x) (auto simp: quiet_def)
qed simp

lemma quiet_simps [simp]: "quiet (CallUpdateProgress m)" "quiet (CallPersist q)"
  "quiet (PluginOperatorTimeout i)" "quiet (ResolveCacheTimeout i)"
  by (simp_all add: quiet_def)

lemma phase_cong:
  assumes "phase st orig d sent" "issued sent' = issued sent" "requested sent' = requested sent"
    "ru_RemainingResolvables (rd_resourceUpdate d') = ru_RemainingResolvables (rd_resourceUpdate d)"
    "st \<in> {StateSynchronizing, StateDeleting, StateResolving, StateCreating, StateUpdating}"
  shows "phase st orig d' sent'"
  using assms by auto

lemma same_update_cong:
  assumes "same_update orig d sent" "issued sent' = issued sent" "requested sent' = requested sent"
    "final_reports sent' = final_reports sent" "rd_commandSource d' = rd_commandSource d"
    "ru_Operation (rd_resourceUpdate d') = ru_Operation (rd_resourceUpdate d)"
    "ru_URI (rd_resourceUpdate d') = ru_URI (rd_resourceUpdate d)"
    "ru_RemainingResolvables (rd_resourceUpdate d') = ru_RemainingResolvables (rd_resourceUpdate d)"
    "ru_ProgressResult (rd_resourceUpdate d') = ru_ProgressResult (rd_resourceUpdate d)"
  shows "same_update orig d' sent'"
  using assms by (simp add: same_update_def recorded_def)

lemma same_update_quiet:
  "same_update orig d sent \<Longrightarrow> list_all quiet os \<Longrightarrow> same_update orig d (sent @ os)"
  using quiet_append [of os] by (auto intro: same_update_cong)

lemma label_discovered_frame [simp]:
  "rd_commandSource (label_discovered env d) = rd_commandSource d"
  "ru_Operation (rd_resourceUpdate (label_discovered env d)) = ru_Operation (rd_resourceUpdate d)"
  "ru_URI (rd_resourceUpdate (label_discovered env d)) = ru_URI (rd_resourceUpdate d)"
  "ru_RemainingResolvables (rd_resourceUpdate (label_discovered env d)) = ru_RemainingResolvables (rd_resourceUpdate d)"
  "ru_ProgressResult (rd_resourceUpdate (label_discovered env d)) = ru_ProgressResult (rd_resourceUpdate d)"
  "ru_State (rd_resourceUpdate (label_discovered env d)) = ru_State (rd_resourceUpdate d)"
  by (simp_all add: label_discovered_def ru_URI_def res_URI_def)

subsection \<open>The handlers keep the invariant\<close>

text \<open>Success of a synchronization: its state is already decided when the updater moves on.\<close>

definition synced :: "ru_state \<Rightarrow> ResourceUpdateData \<Rightarrow> bool" where
  "synced s d \<longleftrightarrow> (s = StateSynchronizing \<and> ru_Operation (rd_resourceUpdate d) = OperationRead \<longrightarrow>
     ru_State (rd_resourceUpdate d) = ResourceUpdateStateSuccess)"

definition continues :: "ru_env \<Rightarrow> ResourceUpdate \<Rightarrow> ru_state \<Rightarrow> bool" where
  "continues env orig s \<longleftrightarrow> (\<forall>d sent. ru_inv orig s d sent \<and> synced s d \<longrightarrow> leads orig sent (nextState env s d))"

lemma persist_leads:
  assumes inv: "ru_inv orig s d sent" and s: "currentOperation s = Some op" and sy: "synced s d"
    and next_ok: "continues env orig s"
  shows "leads orig sent (case ue_persist env (persist_message op d) of
      None \<Rightarrow> fail_update_with env d []
    | Some hash \<Rightarrow>
        (let d3 = ru_map (\<lambda>ru. ru\<lparr>ru_Version := hash\<rparr>) d; ru = rd_resourceUpdate d3
         in if s = StateSynchronizing \<and> ru_Operation ru \<noteq> OperationRead \<and> op = PRead \<and> hash \<noteq> '''' \<and> \<not> IsDelete ru
            then Some (StateRejected, ru_map (Reject (ue_TimeNow env)) d3, [], False)
            else nextState env s d3))"
proof (cases "ue_persist env (persist_message op d)")
  case None
  then show ?thesis using inv leads_fail by (simp add: ru_inv_def)
next
  case (Some hash)
  let ?d3 = "ru_map (\<lambda>ru. ru\<lparr>ru_Version := hash\<rparr>) d"
  have states: "s \<in> {StateSynchronizing, StateDeleting, StateResolving, StateCreating, StateUpdating}"
    using s by (cases s) simp_all
  have su: "same_update orig ?d3 sent"
    using inv by (auto simp: ru_inv_def ru_URI_def intro: same_update_cong)
  have inv3: "ru_inv orig s ?d3 sent"
    using su inv phase_cong [OF _ refl refl _ states, of orig d sent ?d3] by (simp add: ru_inv_def)
  have go: "leads orig sent (nextState env s ?d3)"
    using next_ok inv3 sy by (simp add: continues_def synced_def)
  have rej: "ru_inv orig StateRejected (ru_map (Reject (ue_TimeNow env)) ?d3) sent"
    if "s = StateSynchronizing" "ru_Operation (rd_resourceUpdate ?d3) \<noteq> OperationRead"
      "\<not> IsDelete (rd_resourceUpdate ?d3)"
  proof -
    have "ru_Operation orig = ru_Operation (rd_resourceUpdate ?d3)"
      using su by (simp only: same_update_def)
    then have "ru_Operation orig = OperationUpdate" "issued sent = [PRead]"
      using that inv by (cases "ru_Operation orig"; simp add: ru_inv_def IsDelete_def)+
    moreover have "same_update orig (ru_map (Reject (ue_TimeNow env)) ?d3) sent"
      using su by (auto simp: Reject_def ru_URI_def intro: same_update_cong)
    ultimately show ?thesis by (simp add: ru_inv_def Reject_def)
  qed
  show ?thesis
    using go rej by (simp add: Some Let_def leads_Some)
qed

lemma handleProgressUpdate_leads:
  assumes inv: "ru_inv orig s d sent" and s: "currentOperation s = Some op"
    and m: "pr_Operation m \<in> insert PNotSet (set (issued sent))"
    and first: "s = StateSynchronizing \<longrightarrow> ru_ProgressResult (rd_resourceUpdate d) = []"
    and next_ok: "continues env orig s"
  shows "leads orig sent (handleProgressUpdate env s d m)"
proof -
  obtain ru1 failed where rec: "RecordProgress (ue_merge env) (rd_resourceUpdate d) m = (ru1, failed)"
    by fastforce
  let ?d1 = "d\<lparr>rd_resourceUpdate := ru1\<rparr>"
  let ?out = "[CallUpdateProgress (progress_message ?d1 m)]"
  let ?sent = "sent @ ?out"
  have states: "s \<in> {StateSynchronizing, StateDeleting, StateResolving, StateCreating, StateUpdating}"
    using s by (cases s) simp_all
  have su: "same_update orig ?d1 sent"
    using RecordProgress_update [OF _ m rec] inv by (simp add: ru_inv_def)
  then have su': "same_update orig ?d1 ?sent" by (rule same_update_quiet) simp
  have inv1: "ru_inv orig s ?d1 ?sent"
    using su' inv phase_cong [OF _ _ _ _ states, of orig d sent ?sent ?d1] RecordProgress_frame(2) [OF rec]
    by (simp add: ru_inv_def)
  have sy: "synced s ?d1" if "FinishedSuccessfully m"
    using RecordProgress_first [OF rec _ that] RecordProgress_frame(1) [OF rec] first
    by (auto simp: synced_def)
  have persist: "leads orig ?sent (emit [CallPersist (persist_message op d2)]
      (case ue_persist env (persist_message op d2) of
         None \<Rightarrow> fail_update_with env d2 []
       | Some hash \<Rightarrow>
           (let d3 = ru_map (\<lambda>ru. ru\<lparr>ru_Version := hash\<rparr>) d2; ru = rd_resourceUpdate d3
            in if s = StateSynchronizing \<and> ru_Operation ru \<noteq> OperationRead \<and> op = PRead \<and> hash \<noteq> '''' \<and> \<not> IsDelete ru
               then Some (StateRejected, ru_map (Reject (ue_TimeNow env)) d3, [], False)
               else nextState env s d3)))"
    if d2: "d2 = ?d1 \<or> d2 = label_discovered env ?d1" and fs: "FinishedSuccessfully m" for d2
  proof -
    have "same_update orig d2 (?sent @ [CallPersist (persist_message op d2)])"
      using d2 su' by (auto intro: same_update_cong)
    moreover have "phase s orig d2 (?sent @ [CallPersist (persist_message op d2)])"
      using inv1 d2 by (auto simp: ru_inv_def intro!: phase_cong [OF _ _ _ _ states, of orig ?d1 ?sent])
    moreover have "synced s d2" using sy [OF fs] d2 by (auto simp: synced_def)
    ultimately show ?thesis
      unfolding leads_emit by (intro persist_leads [OF _ s _ next_ok]) (simp_all add: ru_inv_def)
  qed
  have flt: "ru_inv orig StateFinishedSuccessfully (ru_map (MarkAsSuccess (ue_TimeNow env)) ?d1) ?sent"
    if "rd_commandSource d = FormaCommandSourceDiscovery"
    using su' that same_update_cong [OF su' refl refl refl, of "ru_map (MarkAsSuccess (ue_TimeNow env)) ?d1"]
    by (simp add: ru_inv_def MarkAsSuccess_def ru_URI_def same_update_def)
  have wait: "ru_inv orig s ?d1 (?sent @ [plugin_timeout ?d1])"
    using inv1 phase_cong [OF _ _ _ _ states, of orig ?d1 ?sent "?sent @ [plugin_timeout ?d1]" ?d1]
      same_update_quiet [OF su', of "[plugin_timeout ?d1]"]
    by (simp add: ru_inv_def plugin_timeout_def)
  have err: "ru_inv orig StateFinishedWithError ?d1 ?sent" using su' by (simp add: ru_inv_def)
  show ?thesis
    unfolding handleProgressUpdate.simps rec
    using leads_fail [OF su] leads_fail [OF su'] persist flt wait err
    by (auto simp: Let_def leads_emit leads_Some fail_update_with_def s split: option.split)
qed

lemma succeed_leads:
  assumes "same_update orig d sent" "issued sent = requiredOperations (ru_Operation orig)"
    "ru_Operation orig \<in> {OperationCreate, OperationUpdate, OperationReplace} \<longrightarrow>
       ru_RemainingResolvables (rd_resourceUpdate d) = []"
  shows "leads orig sent (Some (StateFinishedSuccessfully, ru_map (MarkAsSuccess t) d, [], False))"
proof -
  have "same_update orig (ru_map (MarkAsSuccess t) d) sent"
    using assms(1) by (auto simp: MarkAsSuccess_def ru_URI_def intro: same_update_cong)
  then show ?thesis using assms(2,3) by (simp add: leads_Some ru_inv_def MarkAsSuccess_def)
qed

lemma continues_last: "continues env orig StateCreating" "continues env orig StateUpdating"
  by (auto simp: continues_def nextState.simps ru_inv_def intro!: succeed_leads)

lemma FindProgress_None: "op \<notin> recorded ru \<Longrightarrow> FindProgress ru op = None"
  by (auto simp: FindProgress_def recorded_def find_None_iff)

text \<open>A plugin operation is issued after all operations before it in the required sequence.\<close>

lemma same_update_issue:
  assumes "same_update orig d sent"
    "prefix (issued sent @ [call_kind c]) (requiredOperations (ru_Operation orig))"
    "call_kind c \<in> {PCreate, PUpdate} \<longrightarrow> ru_RemainingResolvables (rd_resourceUpdate d) = []"
  shows "same_update orig d (sent @ [CallPlugin c])"
  using assms by (auto simp: same_update_def)

lemma issue_leads:
  assumes su: "same_update orig d (sent @ [CallPlugin c])" and ph: "phase s orig d (sent @ [CallPlugin c])"
    and s: "currentOperation s = Some (call_kind c)" and env: "answers_ok env"
    and first: "s = StateSynchronizing \<longrightarrow> ru_ProgressResult (rd_resourceUpdate d) = []"
    and next_ok: "continues env orig s"
    and failed: "leads orig (sent @ [CallPlugin c]) r"
  shows "leads orig sent (emit [CallPlugin c] (case doPluginOperation env c of
      None \<Rightarrow> r | Some p \<Rightarrow> handleProgressUpdate env s d p))"
proof (cases "doPluginOperation env c")
  case None
  then show ?thesis using failed by (simp add: leads_emit)
next
  case (Some p)
  then have "pr_Operation p \<in> {call_kind c, PNotSet}"
    using env by (auto simp: answers_ok_def doPluginOperation_def split: plugin_answer.splits)
  then show ?thesis
    using handleProgressUpdate_leads [OF _ s _ first next_ok, of "sent @ [CallPlugin c]" p] su ph
    by (auto simp: leads_emit Some ru_inv_def)
qed

lemma create_leads:
  assumes "same_update orig d sent" "phase StateResolving orig d sent" "answers_ok env"
    "ru_Operation orig \<noteq> OperationUpdate" "ru_RemainingResolvables (rd_resourceUpdate d) = []"
  shows "leads orig sent (create env StateCreating d)"
proof -
  have op: "ru_Operation orig = OperationCreate \<and> issued sent = [] \<or>
      ru_Operation orig = OperationReplace \<and> issued sent = [PRead, PDelete]"
    using assms(2,4) by auto
  then have "FindProgress (rd_resourceUpdate d) PCreate = None"
    using assms(1) by (intro FindProgress_None) (auto simp: same_update_def)
  moreover have su: "same_update orig d (sent @ [CallPlugin (CallCreate (create_operation d))])"
    using op assms(5) by (intro same_update_issue [OF assms(1)]) auto
  ultimately show ?thesis
    unfolding create.simps
    using op assms(5)
    by (auto intro!: issue_leads su assms(3) continues_last leads_fail)
qed

lemma update_leads:
  assumes "same_update orig d sent" "phase StateResolving orig d sent" "answers_ok env"
    "ru_Operation orig = OperationUpdate" "ru_RemainingResolvables (rd_resourceUpdate d) = []"
  shows "leads orig sent (update env StateUpdating d)"
proof -
  have op: "issued sent = [PRead]" using assms(2,4) by auto
  then have "FindProgress (rd_resourceUpdate d) PUpdate = None"
    using assms(1) by (intro FindProgress_None) (auto simp: same_update_def)
  moreover have su: "same_update orig d (sent @ [CallPlugin (CallUpdate (update_operation d))])"
    using op assms(4,5) by (intro same_update_issue [OF assms(1)]) auto
  ultimately show ?thesis
    unfolding update.simps
    using op assms(4,5)
    by (auto intro!: issue_leads su assms(3) continues_last leads_fail)
qed

lemma resolve_leads:
  assumes inv: "ru_inv orig StateResolving d sent" and env: "answers_ok env"
  shows "leads orig sent (resolve env StateResolving d)"
proof (cases "ru_RemainingResolvables (rd_resourceUpdate d)")
  case Nil
  have su: "same_update orig d sent" "phase StateResolving orig d sent"
    using inv by (simp_all add: ru_inv_def)
  have "ru_Operation (rd_resourceUpdate d) = ru_Operation orig" using su(1) by (simp add: same_update_def)
  then have "leads orig sent (nextState env StateResolving d)"
    using su create_leads [OF su env _ Nil] update_leads [OF su env _ Nil]
    by (auto simp: nextState.simps IsCreate_def)
  then show ?thesis by (simp add: resolve.simps Nil)
next
  case (Cons u us)
  let ?d = "ru_map (\<lambda>ru. ru\<lparr>ru_RemainingResolvables := us\<rparr>) d"
  have ph: "phase StateResolving orig ?d sent'" if "issued sent' = issued sent" for sent'
    using inv that by (simp add: ru_inv_def)
  let ?out = "[SendResolveValue \<lparr>rv_ResourceURI = u\<rparr>, ResolveCacheTimeout (rc_StatusCheckInterval (rd_retryConfig d) * 2)]"
  have "same_update orig d sent" using inv by (simp add: ru_inv_def)
  then have "same_update orig ?d (sent @ ?out)"
    using Cons by (simp add: same_update_def ru_URI_def recorded_def)
  then have "ru_inv orig StateResolving ?d (sent @ ?out)"
    unfolding ru_inv_def using ph [of "sent @ ?out"] by simp
  then show ?thesis
    by (simp add: resolve.simps Cons Let_def leads_Some)
qed

lemma continues_Deleting:
  assumes "answers_ok env"
  shows "continues env orig StateDeleting"
proof -
  have "leads orig sent (nextState env StateDeleting d)" if inv: "ru_inv orig StateDeleting d sent" for d sent
  proof (cases "ru_Operation orig")
    case OperationDelete
    have "ru_Operation (rd_resourceUpdate d) = OperationDelete"
      using inv OperationDelete by (simp add: ru_inv_def same_update_def)
    then show ?thesis
      using inv OperationDelete succeed_leads [of orig d sent]
      by (simp add: nextState.simps ru_inv_def IsCreate_def IsUpdate_def)
  next
    case OperationReplace
    have "ru_Operation (rd_resourceUpdate d) = OperationReplace"
      using inv OperationReplace by (simp add: ru_inv_def same_update_def)
    moreover have "ru_inv orig StateResolving d sent"
      using inv OperationReplace by (simp add: ru_inv_def)
    ultimately show ?thesis
      using resolve_leads [OF _ assms] by (simp add: nextState.simps IsCreate_def)
  qed (use inv in \<open>auto simp: ru_inv_def\<close>)
  then show ?thesis by (simp add: continues_def)
qed

lemma delete_leads:
  assumes "same_update orig d sent" "issued sent = [PRead]" "requested sent = []" "answers_ok env"
    "ru_Operation orig \<in> {OperationDelete, OperationReplace}"
  shows "leads orig sent (delete env StateDeleting d)"
proof -
  let ?c = "CallDelete (delete_operation env d)"
  have "FindProgress (rd_resourceUpdate d) PDelete = None"
    using assms(1,2) by (intro FindProgress_None) (auto simp: same_update_def)
  moreover have su: "same_update orig d (sent @ [CallPlugin ?c])"
    using assms(2,5) by (intro same_update_issue [OF assms(1)]) auto
  moreover have ph: "phase StateDeleting orig d (sent @ [CallPlugin ?c])"
    using assms(2,3,5) by simp
  ultimately show ?thesis
    unfolding delete.simps
    using issue_leads [OF su ph _ assms(4) _ continues_Deleting [OF assms(4)]]
    by (simp add: leads_Some ru_inv_def)
qed

lemma continues_Synchronizing:
  assumes "answers_ok env"
  shows "continues env orig StateSynchronizing"
proof -
  have "leads orig sent (nextState env StateSynchronizing d)"
    if inv: "ru_inv orig StateSynchronizing d sent" and sy: "synced StateSynchronizing d" for d sent
  proof -
    have su: "same_update orig d sent" and i: "issued sent = [PRead]" and r: "requested sent = []"
      and op: "ru_Operation (rd_resourceUpdate d) = ru_Operation orig" "ru_Operation orig \<noteq> OperationCreate"
      using inv by (auto simp: ru_inv_def same_update_def)
    show ?thesis
    proof (cases "ru_Operation orig")
      case OperationRead
      then show ?thesis
        using su i sy op by (simp add: nextState.simps IsSync_def leads_Some ru_inv_def synced_def)
    next
      case OperationUpdate
      then have "ru_inv orig StateResolving d sent" using su i by (simp add: ru_inv_def)
      then show ?thesis
        using resolve_leads [OF _ assms] OperationUpdate op
        by (simp add: nextState.simps IsSync_def RequiresDelete_def)
    qed (use delete_leads [OF su i r assms] op in \<open>auto simp: nextState.simps IsSync_def RequiresDelete_def\<close>)
  qed
  then show ?thesis by (simp add: continues_def)
qed

lemma start_leads:
  assumes "answers_ok env" "ru_ProgressResult (su_ResourceUpdate m) = []"
  shows "leads (su_ResourceUpdate m) [] (start env StateInitializing d0 m)"
proof -
  let ?orig = "su_ResourceUpdate m"
  let ?d = "d0\<lparr>rd_resourceUpdate := ?orig\<lparr>ru_StartTs := ue_TimeNow env, ru_ModifiedTs := ue_TimeNow env\<rparr>,
    rd_commandID := su_CommandID m, rd_commandSource := ru_Source ?orig,
    rd_originalResourceKsuidURI := ru_URI (?orig\<lparr>ru_StartTs := ue_TimeNow env, ru_ModifiedTs := ue_TimeNow env\<rparr>)\<rparr>"
  let ?c = "CallRead (read_operation ?d)"
  have su: "same_update ?orig ?d []"
    using assms(2) by (simp add: same_update_def recorded_def ru_URI_def)
  have sync: "leads ?orig [] (synchronize env StateSynchronizing ?d)" if "ru_Operation ?orig \<noteq> OperationCreate"
  proof -
    have "prefix [PRead] (requiredOperations (ru_Operation ?orig))"
      using that by (cases "ru_Operation ?orig") auto
    then have su1: "same_update ?orig ?d ([] @ [CallPlugin ?c])"
      by (intro same_update_issue [OF su]) simp_all
    have ph: "phase StateSynchronizing ?orig ?d ([] @ [CallPlugin ?c])" using that by simp
    show ?thesis
      unfolding synchronize.simps
      by (rule issue_leads [OF su1 ph _ assms(1) _ continues_Synchronizing [OF assms(1)] leads_fail [OF su1]])
        (simp_all add: assms(2))
  qed
  have res: "leads ?orig [] (resolve env StateResolving ?d)" if "ru_Operation ?orig = OperationCreate"
    using resolve_leads [OF _ assms(1), of ?orig ?d "[]"] su that by (simp add: ru_inv_def)
  have "\<not> HasProgress (rd_resourceUpdate ?d)" using assms(2) by (simp add: HasProgress_def)
  then show ?thesis
    unfolding start_def Let_def using sync res
    by (simp add: nextState.simps [of env StateInitializing] Let_def)
qed

lemma resourceResolved_leads:
  assumes "ru_inv orig StateResolving d sent" "answers_ok env"
  shows "leads orig sent (resourceResolved env StateResolving d m)"
proof (cases "ResolveValue_ru (ue_lib env) (ue_ord env) (rd_resourceUpdate d) (vr_ResourceURI m) (vr_Value m)")
  case None
  then show ?thesis using assms(1) leads_fail by (simp add: resourceResolved_def ru_inv_def)
next
  case (Some ru)
  then have "ru_inv orig StateResolving (d\<lparr>rd_resourceUpdate := ru\<rparr>) sent"
    using assms(1) by (auto simp: ru_inv_def ResolveValue_ru_def ru_URI_def res_URI_def
        intro!: same_update_cong [of orig d sent])
  then show ?thesis using resolve_leads [OF _ assms(2)] Some by (simp add: resourceResolved_def)
qed

subsection \<open>Updates with recorded progress\<close>

text \<open>A second invariant holds for every update, also for one that is resumed: an update or a delete with recorded
  progress of more than a read goes straight to that operation. What is issued is then only a part of the
  required sequence.\<close>

definition resumes :: "ResourceUpdate \<Rightarrow> bool" where
  "resumes orig \<longleftrightarrow> HasProgress orig \<and> ru_Operation orig \<in> {OperationUpdate, OperationDelete}"

fun reached_operations :: "ru_state \<Rightarrow> OperationType \<Rightarrow> Operation list" where
  "reached_operations StateSynchronizing op = [PRead]"
| "reached_operations StateDeleting op = [PRead, PDelete]"
| "reached_operations StateResolving op = butlast (requiredOperations op)"
| "reached_operations _ op = requiredOperations op"

definition carried :: "ResourceUpdate \<Rightarrow> ResourceUpdateData \<Rightarrow> ru_out list \<Rightarrow> bool" where
  "carried orig d sent \<longleftrightarrow>
     ru_Operation (rd_resourceUpdate d) = ru_Operation orig \<and> ru_URI (rd_resourceUpdate d) = ru_URI orig \<and>
     requested sent @ ru_RemainingResolvables (rd_resourceUpdate d) = ru_RemainingResolvables orig \<and>
     final_reports sent = [] \<and>
     (PCreate \<in> set (issued sent) \<or> PUpdate \<in> set (issued sent) \<and> \<not> resumes orig \<longrightarrow>
        ru_RemainingResolvables (rd_resourceUpdate d) = []) \<and>
     (resumes orig \<longrightarrow> PRead \<notin> set (issued sent) \<and> requested sent = [])"

fun stage :: "ru_state \<Rightarrow> ResourceUpdate \<Rightarrow> ResourceUpdateData \<Rightarrow> bool" where
  "stage StateSynchronizing orig d \<longleftrightarrow> ru_Operation orig \<noteq> OperationCreate \<and> \<not> resumes orig"
| "stage StateDeleting orig d \<longleftrightarrow> ru_Operation orig \<in> {OperationDelete, OperationReplace}"
| "stage StateResolving orig d \<longleftrightarrow>
     ru_Operation orig \<in> {OperationCreate, OperationUpdate, OperationReplace} \<and> \<not> resumes orig"
| "stage StateCreating orig d \<longleftrightarrow> ru_Operation orig \<in> {OperationCreate, OperationReplace} \<and>
     ru_RemainingResolvables (rd_resourceUpdate d) = []"
| "stage StateUpdating orig d \<longleftrightarrow> ru_Operation orig = OperationUpdate \<and>
     (\<not> resumes orig \<longrightarrow> ru_RemainingResolvables (rd_resourceUpdate d) = [])"
| "stage StateFinishedWithError orig d \<longleftrightarrow>
     ru_State (rd_resourceUpdate d) \<in> {ResourceUpdateStateFailed, ResourceUpdateStateInProgress}"
| "stage StateFinishedSuccessfully orig d \<longleftrightarrow>
     (ru_Operation orig \<noteq> OperationRead \<longrightarrow> ru_State (rd_resourceUpdate d) = ResourceUpdateStateSuccess)"
| "stage StateRejected orig d \<longleftrightarrow>
     ru_State (rd_resourceUpdate d) = ResourceUpdateStateRejected \<and> ru_Operation orig = OperationUpdate"
| "stage _ orig d \<longleftrightarrow> False"

definition loose_inv :: "ResourceUpdate \<Rightarrow> ru_state \<Rightarrow> ResourceUpdateData \<Rightarrow> ru_out list \<Rightarrow> bool" where
  "loose_inv orig st d sent \<longleftrightarrow> carried orig d sent \<and> stage st orig d \<and>
     subseq (issued sent) (reached_operations st (ru_Operation orig))"

definition loosely :: "ResourceUpdate \<Rightarrow> ru_out list \<Rightarrow> ru_result \<Rightarrow> bool" where
  "loosely orig sent r \<longleftrightarrow> (\<forall>st d outs. r = Some (st, d, outs, False) \<longrightarrow> loose_inv orig st d (sent @ outs))"

lemma loosely_emit: "loosely orig sent (emit os r) \<longleftrightarrow> loosely orig (sent @ os) r"
  by (force simp: loosely_def emit_def)

lemma loosely_None [simp]: "loosely orig sent None"
  by (simp add: loosely_def)

lemma loosely_Some: "loosely orig sent (Some (st, d, outs, e)) \<longleftrightarrow> (\<not> e \<longrightarrow> loose_inv orig st d (sent @ outs))"
  by (simp add: loosely_def)

definition same_frame :: "ResourceUpdateData \<Rightarrow> ResourceUpdateData \<Rightarrow> bool" where
  "same_frame d d' \<longleftrightarrow> ru_Operation (rd_resourceUpdate d') = ru_Operation (rd_resourceUpdate d) \<and>
     ru_URI (rd_resourceUpdate d') = ru_URI (rd_resourceUpdate d) \<and>
     ru_RemainingResolvables (rd_resourceUpdate d') = ru_RemainingResolvables (rd_resourceUpdate d)"

lemma loose_cong:
  assumes "loose_inv orig st d sent" "same_frame d d'" "list_all quiet os" "\<not> finished_state st"
  shows "loose_inv orig st d' (sent @ os)"
  using assms(1,2,4) quiet_append [OF assms(3)]
  by (cases st) (auto simp: loose_inv_def carried_def same_frame_def finished_state_def)

text \<open>Whatever has been issued is part of the required sequence.\<close>

lemma required_subseqs:
  "subseq [PRead] (requiredOperations op) \<longleftrightarrow> op \<noteq> OperationCreate"
  "subseq [PRead, PDelete] (requiredOperations op) \<longleftrightarrow> op \<in> {OperationDelete, OperationReplace}"
  "subseq (butlast (requiredOperations op)) (requiredOperations op)"
  by (cases op; simp)+

lemma loose_required:
  assumes "loose_inv orig st d sent"
  shows "subseq (issued sent) (requiredOperations (ru_Operation orig))"
  using assms required_subseqs [of "ru_Operation orig"] subseq_order.trans [of "issued sent"]
  by (cases st) (auto simp: loose_inv_def)

lemma loose_end:
  assumes "loose_inv orig st d sent" "same_frame d d'" "list_all quiet os"
    "finished_state st'" "stage st' orig d'"
  shows "loose_inv orig st' d' (sent @ os)"
  using assms(1,2,4,5) loose_required [OF assms(1)] quiet_append [OF assms(3)]
  by (cases st') (auto simp: loose_inv_def carried_def same_frame_def finished_state_def)

lemma same_frame_simps [simp]:
  "same_frame d d" "same_frame d (ru_map (MarkAsFailed t) d') = same_frame d d'"
  "same_frame d (ru_map (MarkAsSuccess t) d') = same_frame d d'" "same_frame d (ru_map (Reject t) d') = same_frame d d'"
  "same_frame d (ru_map (\<lambda>ru. ru\<lparr>ru_Version := v\<rparr>) d') = same_frame d d'"
  "same_frame d (label_discovered env d') = same_frame d d'"
  by (simp_all add: same_frame_def MarkAsFailed_def MarkAsSuccess_def Reject_def ru_URI_def [of "ru\<lparr>ru_Version := w\<rparr>" for ru w]
      ru_URI_def [of "ru\<lparr>ru_State := s, ru_ModifiedTs := t\<rparr>" for ru s t] ru_URI_def [of ru for ru, symmetric])

lemma loosely_fail:
  assumes "loose_inv orig st d sent" "same_frame d d'"
  shows "loosely orig sent (fail_update_with env d' [])"
  using loose_end [OF assms(1), of "ru_map (MarkAsFailed (ue_TimeNow env)) d'" "[]" StateFinishedWithError] assms(2)
  by (simp add: fail_update_with_def loosely_Some MarkAsFailed_def finished_state_def)

text \<open>A failure that is recorded makes the state failed, or leaves it in progress while operations are missing.\<close>

lemma final_state_Failed: "p \<in> set ps \<Longrightarrow> Failed p \<Longrightarrow> final_state ps st = ResourceUpdateStateFailed"
  by (induction ps arbitrary: st) auto

lemma RecordProgress_Failed:
  assumes "RecordProgress merge ru p = (ru', f)" "Failed p"
  shows "ru_State ru' \<in> {ResourceUpdateStateFailed, ResourceUpdateStateInProgress}"
proof -
  have "p \<in> set (ru_ProgressResult (store_progress ru p))"
    by (force simp: store_progress_def list_ex_iff)
  then show ?thesis
    using RecordProgress_frame(5) [OF assms(1)] final_state_Failed [OF _ assms(2)]
    by (auto simp: updateState_def)
qed

definition goes_on :: "ru_env \<Rightarrow> ResourceUpdate \<Rightarrow> ru_state \<Rightarrow> bool" where
  "goes_on env orig s \<longleftrightarrow> (\<forall>d sent. loose_inv orig s d sent \<longrightarrow> loosely orig sent (nextState env s d))"

lemma progress_loosely:
  assumes inv: "loose_inv orig s d sent" and s: "currentOperation s = Some op" and nxt: "goes_on env orig s"
  shows "loosely orig sent (handleProgressUpdate env s d m)"
proof -
  obtain ru1 failed where rec: "RecordProgress (ue_merge env) (rd_resourceUpdate d) m = (ru1, failed)"
    by fastforce
  let ?d1 = "d\<lparr>rd_resourceUpdate := ru1\<rparr>"
  let ?out = "CallUpdateProgress (progress_message ?d1 m)"
  have f: "same_frame d ?d1" using RecordProgress_frame [OF rec] by (simp add: same_frame_def)
  have ns: "\<not> finished_state s" using s by (auto simp: finished_state_def)
  have inv1: "loose_inv orig s d' (sent @ os)" if "same_frame d d'" "list_all quiet os" for d' os
    using loose_cong [OF inv that ns] .
  note fin = loose_end [OF inv]
  have persist: "loosely orig (sent @ [?out]) (emit [CallPersist (persist_message op d2)]
      (case ue_persist env (persist_message op d2) of
         None \<Rightarrow> fail_update_with env d2 []
       | Some hash \<Rightarrow>
           (let d3 = ru_map (\<lambda>ru. ru\<lparr>ru_Version := hash\<rparr>) d2; ru = rd_resourceUpdate d3
            in if s = StateSynchronizing \<and> ru_Operation ru \<noteq> OperationRead \<and> op = PRead \<and> hash \<noteq> '''' \<and> \<not> IsDelete ru
               then Some (StateRejected, ru_map (Reject (ue_TimeNow env)) d3, [], False)
               else nextState env s d3)))" if d2: "same_frame d d2" for d2
  proof -
    let ?sent = "sent @ [?out, CallPersist (persist_message op d2)]"
    have "loosely orig ?sent (fail_update_with env d2 [])"
      using loosely_fail [OF inv1 [of d "[?out, CallPersist (persist_message op d2)]"] d2] by simp
    moreover have "loosely orig ?sent (nextState env s (ru_map (\<lambda>ru. ru\<lparr>ru_Version := hash\<rparr>) d2))" for hash
      using nxt inv1 d2 by (simp add: goes_on_def)
    moreover have "loose_inv orig StateRejected (ru_map (Reject t) (ru_map (\<lambda>ru. ru\<lparr>ru_Version := hash\<rparr>) d2)) ?sent"
      if "s = StateSynchronizing" "ru_Operation (rd_resourceUpdate d2) \<noteq> OperationRead" "\<not> IsDelete (rd_resourceUpdate d2)"
      for t hash
    proof -
      have "ru_Operation (rd_resourceUpdate d2) = ru_Operation orig" "ru_Operation orig \<noteq> OperationCreate"
        using inv d2 that(1) by (simp_all add: loose_inv_def carried_def same_frame_def)
      then have "ru_Operation orig = OperationUpdate"
        using that by (cases "ru_Operation orig") (auto simp: IsDelete_def)
      then show ?thesis using fin d2 by (simp add: finished_state_def Reject_def)
    qed
    moreover have "IsDelete (rd_resourceUpdate d2\<lparr>ru_Version := v\<rparr>) = IsDelete (rd_resourceUpdate d2)" for v
      by (simp add: IsDelete_def)
    ultimately show ?thesis
      unfolding loosely_emit by (auto simp: Let_def loosely_Some split: option.split)
  qed
  have failed: "loosely orig sent (fail_update_with env ?d1 [])" using loosely_fail [OF inv f] .
  have failed': "loosely orig (sent @ [?out]) (fail_update_with env ?d1 [])"
    using loosely_fail [OF inv1 [of d "[?out]"] f] by simp
  have flt: "loose_inv orig StateFinishedSuccessfully (ru_map (MarkAsSuccess t) ?d1) (sent @ [?out])" for t
    using fin f by (simp add: finished_state_def MarkAsSuccess_def)
  have wait: "loose_inv orig s ?d1 (sent @ [?out, plugin_timeout ?d1])"
    using inv1 [OF f] by (simp add: plugin_timeout_def)
  have err: "loose_inv orig StateFinishedWithError ?d1 (sent @ [?out])" if "Failed m"
    using fin [OF f] RecordProgress_Failed [OF rec that] by (simp add: finished_state_def)
  show ?thesis
    unfolding handleProgressUpdate.simps rec
    using failed failed' persist f flt wait err
    by (auto simp: Let_def loosely_emit loosely_Some fail_update_with_def s split: option.split)
qed

lemma success_loosely:
  assumes "loose_inv orig st d sent"
  shows "loosely orig sent (Some (StateFinishedSuccessfully, ru_map (MarkAsSuccess t) d, [], False))"
  using loose_end [OF assms, of "ru_map (MarkAsSuccess t) d" "[]" StateFinishedSuccessfully]
  by (simp add: loosely_Some finished_state_def MarkAsSuccess_def)

lemma goes_on_last: "goes_on env orig StateCreating" "goes_on env orig StateUpdating"
  by (auto simp: goes_on_def nextState.simps intro: success_loosely)

text \<open>A plugin operation that has just been issued, new or resumed.\<close>

lemma issued_loosely:
  assumes inv: "loose_inv orig s d (sent @ [CallPlugin c])" and s: "currentOperation s = Some op" and nxt: "goes_on env orig s"
    and r: "loosely orig (sent @ [CallPlugin c]) r"
  shows "loosely orig sent (emit [CallPlugin c] (case doPluginOperation env c of
      None \<Rightarrow> r | Some p \<Rightarrow> handleProgressUpdate env s d p))"
  using progress_loosely [OF inv s nxt] r by (simp add: loosely_emit split: option.split)

lemma subseq_snoc: "subseq xs ys \<Longrightarrow> subseq (xs @ [x]) (ys @ [x])"
  by (simp add: list_emb_append_mono)

text \<open>What holds when the operation of a state is about to be issued.\<close>

definition about_to :: "ResourceUpdate \<Rightarrow> ru_state \<Rightarrow> Operation \<Rightarrow> ResourceUpdateData \<Rightarrow> ru_out list \<Rightarrow> bool" where
  "about_to orig s op d sent \<longleftrightarrow> currentOperation s = Some op \<and> loose_inv orig s d sent \<and>
     (\<forall>c. call_kind c = op \<longrightarrow> loose_inv orig s d (sent @ [CallPlugin c]))"

lemma about_toI:
  assumes "carried orig d sent" "stage s orig d" "currentOperation s = Some op"
    "subseq (issued sent @ [op]) (reached_operations s (ru_Operation orig))" "op \<noteq> PRead \<or> \<not> resumes orig"
  shows "about_to orig s op d sent"
proof -
  have "subseq (issued sent) (reached_operations s (ru_Operation orig))"
    using assms(4) by (meson prefixI prefix_imp_subseq subseq_order.trans)
  moreover have "carried orig d (sent @ [CallPlugin c])" if "call_kind c = op" for c
    using assms(1-3,5) that by (cases s) (auto simp: carried_def)
  ultimately show ?thesis using assms by (simp add: about_to_def loose_inv_def)
qed

lemma recover_loosely:
  assumes "about_to orig s op d sent" "goes_on env orig s"
  shows "loosely orig sent (recoverFromPreviousProgress env s d p operation)"
proof -
  let ?c = "resume_operation env op d p operation"
  have s: "currentOperation s = Some op" and inv: "loose_inv orig s d sent" "loose_inv orig s d (sent @ [CallPlugin ?c])"
    using assms(1) by (auto simp: about_to_def resume_operation_def)
  have ns: "\<not> finished_state s" using s by (auto simp: finished_state_def)
  have wait: "loose_inv orig s d (sent @ [CallPlugin ?c, plugin_timeout d])"
    using loose_cong [OF inv(2), of d "[plugin_timeout d]"] ns by (simp add: plugin_timeout_def)
  show ?thesis
    unfolding recoverFromPreviousProgress.simps
    using progress_loosely [OF inv(1) s assms(2)] progress_loosely [OF inv(2) s assms(2)] loosely_fail [OF inv(2), of d] wait
    by (auto simp: s Let_def loosely_emit loosely_Some split: option.split)
qed

lemma begin_loosely:
  assumes about: "about_to orig s (call_kind c) d sent" and nxt: "goes_on env orig s"
    and r: "r = fail_update_with env d [] \<or> r = Some (s, d, [], False)"
  shows "loosely orig sent (case FindProgress ru op of
      Some p \<Rightarrow> recoverFromPreviousProgress env s d p operation
    | None \<Rightarrow> emit [CallPlugin c] (case doPluginOperation env c of None \<Rightarrow> r | Some p \<Rightarrow> handleProgressUpdate env s d p))"
proof -
  have inv: "loose_inv orig s d (sent @ [CallPlugin c])" and s: "currentOperation s = Some (call_kind c)"
    using about by (simp_all add: about_to_def)
  have "loosely orig (sent @ [CallPlugin c]) r"
    using r loosely_fail [OF inv, of d] inv by (auto simp: loosely_Some)
  then show ?thesis
    using recover_loosely [OF about nxt] issued_loosely [OF inv s nxt] by (simp split: option.split)
qed

lemma create_loosely:
  assumes "carried orig d sent" "stage StateCreating orig d" "subseq (issued sent) (butlast (requiredOperations (ru_Operation orig)))"
  shows "loosely orig sent (create env StateCreating d)"
proof -
  have "subseq (issued sent @ [PCreate]) (requiredOperations (ru_Operation orig))"
    using assms(2) subseq_snoc [OF assms(3), of PCreate] by (auto simp del: subseq_append)
  then have about: "about_to orig StateCreating PCreate d sent"
    by (intro about_toI assms) auto
  show ?thesis
    unfolding create.simps by (rule begin_loosely) (use about goes_on_last in simp_all)
qed

lemma update_loosely:
  assumes "carried orig d sent" "stage StateUpdating orig d" "subseq (issued sent) [PRead]"
  shows "loosely orig sent (update env StateUpdating d)"
proof -
  have "subseq (issued sent @ [PUpdate]) (requiredOperations (ru_Operation orig))"
    using assms(2) subseq_snoc [OF assms(3), of PUpdate] by (auto simp del: subseq_append)
  then have about: "about_to orig StateUpdating PUpdate d sent"
    by (intro about_toI assms) auto
  show ?thesis
    unfolding update.simps by (rule begin_loosely) (use about goes_on_last in simp_all)
qed

lemma resolve_loosely:
  assumes inv: "loose_inv orig StateResolving d sent"
  shows "loosely orig sent (resolve env StateResolving d)"
proof (cases "ru_RemainingResolvables (rd_resourceUpdate d)")
  case Nil
  have su: "carried orig d sent" "subseq (issued sent) (butlast (requiredOperations (ru_Operation orig)))"
    "ru_Operation (rd_resourceUpdate d) = ru_Operation orig"
    using inv by (simp_all add: loose_inv_def carried_def)
  consider "IsCreate (rd_resourceUpdate d)" "stage StateCreating orig d"
    | "\<not> IsCreate (rd_resourceUpdate d)" "stage StateUpdating orig d" "subseq (issued sent) [PRead]"
    using inv Nil su by (auto simp: loose_inv_def IsCreate_def)
  then have "loosely orig sent (nextState env StateResolving d)"
    using create_loosely [OF su(1) _ su(2)] update_loosely [OF su(1)] by cases (simp_all add: nextState.simps)
  then show ?thesis by (simp add: resolve.simps Nil)
next
  case (Cons u us)
  then show ?thesis
    using inv by (auto simp: resolve.simps Let_def loosely_Some loose_inv_def carried_def ru_URI_def)
qed

lemma goes_on_Deleting: "goes_on env orig StateDeleting"
proof -
  have "loosely orig sent (nextState env StateDeleting d)" if inv: "loose_inv orig StateDeleting d sent" for d sent
  proof (cases "ru_Operation orig = OperationReplace")
    case True
    then have "loose_inv orig StateResolving d sent" "IsCreate (rd_resourceUpdate d)"
      using inv by (auto simp: loose_inv_def resumes_def carried_def IsCreate_def)
    then show ?thesis using resolve_loosely by (simp add: nextState.simps)
  next
    case False
    then have "\<not> IsCreate (rd_resourceUpdate d)" "\<not> IsUpdate (rd_resourceUpdate d)"
      using inv by (auto simp: loose_inv_def carried_def IsCreate_def IsUpdate_def)
    then show ?thesis
      using success_loosely [OF inv] by (simp add: nextState.simps)
  qed
  then show ?thesis by (simp add: goes_on_def)
qed

lemma delete_loosely:
  assumes "carried orig d sent" "stage StateDeleting orig d" "subseq (issued sent) [PRead]"
  shows "loosely orig sent (delete env StateDeleting d)"
proof -
  have "subseq (issued sent @ [PDelete]) [PRead, PDelete]"
    using subseq_snoc [OF assms(3), of PDelete] by simp
  then have about: "about_to orig StateDeleting PDelete d sent"
    by (intro about_toI assms) auto
  show ?thesis
    unfolding delete.simps by (rule begin_loosely) (use about goes_on_Deleting in simp_all)
qed

lemma goes_on_Synchronizing: "goes_on env orig StateSynchronizing"
proof -
  have "loosely orig sent (nextState env StateSynchronizing d)" if inv: "loose_inv orig StateSynchronizing d sent" for d sent
  proof -
    have su: "carried orig d sent" "subseq (issued sent) [PRead]" "ru_Operation (rd_resourceUpdate d) = ru_Operation orig"
      and st: "ru_Operation orig \<noteq> OperationCreate" "\<not> resumes orig"
      using inv by (auto simp: loose_inv_def carried_def)
    have "loose_inv orig StateFinishedSuccessfully d sent" if "IsSync (rd_resourceUpdate d)"
      using loose_end [OF inv, of d "[]"] that su by (simp add: finished_state_def IsSync_def)
    moreover have "loosely orig sent (delete env StateDeleting d)" if "RequiresDelete (rd_resourceUpdate d)"
      using that su st by (intro delete_loosely) (auto simp: RequiresDelete_def)
    moreover have "loosely orig sent (resolve env StateResolving d)"
      if "\<not> RequiresDelete (rd_resourceUpdate d)" "\<not> IsSync (rd_resourceUpdate d)"
      using that su st
      by (intro resolve_loosely) (cases "ru_Operation orig"; simp add: loose_inv_def RequiresDelete_def IsSync_def)
    ultimately show ?thesis by (auto simp: nextState.simps Let_def loosely_Some)
  qed
  then show ?thesis by (simp add: goes_on_def)
qed

lemma start_loosely: "loosely (su_ResourceUpdate m) [] (start env StateInitializing d0 m)"
proof -
  let ?orig = "su_ResourceUpdate m"
  let ?d = "d0\<lparr>rd_resourceUpdate := ?orig\<lparr>ru_StartTs := ue_TimeNow env, ru_ModifiedTs := ue_TimeNow env\<rparr>,
    rd_commandID := su_CommandID m, rd_commandSource := ru_Source ?orig,
    rd_originalResourceKsuidURI := ru_URI (?orig\<lparr>ru_StartTs := ue_TimeNow env, ru_ModifiedTs := ue_TimeNow env\<rparr>)\<rparr>"
  let ?op = "ru_Operation ?orig"
  have su: "carried ?orig ?d []" by (simp add: carried_def ru_URI_def)
  have hp: "HasProgress (rd_resourceUpdate ?d) = HasProgress ?orig" by (simp add: HasProgress_def)
  have sync: "loosely ?orig [] (synchronize env StateSynchronizing ?d)" if "?op \<noteq> OperationCreate" "\<not> resumes ?orig"
  proof -
    have about: "about_to ?orig StateSynchronizing PRead ?d []"
      using that by (intro about_toI su) auto
    then have inv: "loose_inv ?orig StateSynchronizing ?d ([] @ [CallPlugin (CallRead (read_operation ?d))])"
      by (simp add: about_to_def)
    show ?thesis
      unfolding synchronize.simps
      by (rule issued_loosely [OF inv _ goes_on_Synchronizing loosely_fail [OF inv]]) simp_all
  qed
  have res: "loosely ?orig [] (resolve env StateResolving ?d)" if "?op = OperationCreate"
    using that su by (intro resolve_loosely) (simp add: loose_inv_def resumes_def)
  have upd: "loosely ?orig [] (update env StateUpdating ?d)" if "?op = OperationUpdate" "HasProgress ?orig"
    using that by (intro update_loosely su) (auto simp: resumes_def)
  have del: "loosely ?orig [] (delete env StateDeleting ?d)" if "?op = OperationDelete"
    using that by (intro delete_loosely su) auto
  show ?thesis
    unfolding start_def Let_def nextState.simps [of env StateInitializing]
    using sync res upd del hp by (auto simp: Let_def resumes_def)
qed

lemma handle_loosely:
  assumes inv: "loose_inv orig st d sent" and h: "handle env st d msg = Some r" and st: "st \<noteq> StateInitializing"
  shows "loosely orig sent r"
proof -
  note fails = pluginOperationMissingInAction_def resolveCacheMissingInAction_def resourceFailedToResolve_def
  have prog: "loosely orig sent (handleProgressUpdate env st d p)" if "st \<in> {StateDeleting, StateCreating, StateUpdating}" for p
    using that progress_loosely [OF inv] goes_on_last goes_on_Deleting by auto
  have resolved: "loosely orig sent (resourceResolved env StateResolving d m)" if "st = StateResolving" for m
  proof (cases "ResolveValue_ru (ue_lib env) (ue_ord env) (rd_resourceUpdate d) (vr_ResourceURI m) (vr_Value m)")
    case None
    then show ?thesis using loosely_fail [OF inv] by (simp add: resourceResolved_def)
  next
    case (Some ru)
    then have "same_frame d (d\<lparr>rd_resourceUpdate := ru\<rparr>)"
      by (auto simp: same_frame_def ResolveValue_ru_def ru_URI_def res_URI_def)
    then show ?thesis
      using resolve_loosely loose_cong [OF inv, of _ "[]"] Some that by (simp add: resourceResolved_def finished_state_def)
  qed
  show ?thesis
    using h st prog resolved loosely_fail [OF inv, of d]
    by (cases "(env, st, d, msg)" rule: handle.cases) (auto simp: fails)
qed

section \<open>The machine\<close>

text \<open>A progress message reports on the operation of the state, or leaves its operation open.\<close>

fun msg_ok :: "ru_state \<Rightarrow> ru_msg \<Rightarrow> bool" where
  "msg_ok st (MsgProgress p) \<longleftrightarrow> pr_Operation p = PNotSet \<or> currentOperation st = Some (pr_Operation p)"
| "msg_ok st _ \<longleftrightarrow> True"

inductive ru_step :: "updater \<Rightarrow> ru_env \<times> ru_msg \<Rightarrow> updater \<Rightarrow> bool" where
  ru_step: "answers_ok env \<Longrightarrow> msg_ok (u_state u) msg \<Longrightarrow>
    handle env (u_state u) (u_data u) msg = Some (Some (st, d, outs, False)) \<Longrightarrow>
    ru_step u (env, msg) ((u_enter u st d outs)
      \<lparr>u_origin := (case msg of MsgStart m \<Rightarrow> Some (su_ResourceUpdate m) | _ \<Rightarrow> u_origin u)\<rparr>)"

definition u_started :: "updater \<Rightarrow> bool" where
  "u_started u \<longleftrightarrow> u_state u = StateInitializing \<and> u_sent u = [] \<and> u_origin u = None"

text \<open>An update that starts without recorded progress keeps both invariants.\<close>

definition both_inv :: "ResourceUpdate \<Rightarrow> ru_state \<Rightarrow> ResourceUpdateData \<Rightarrow> ru_out list \<Rightarrow> bool" where
  "both_inv orig st d sent \<longleftrightarrow> loose_inv orig st d sent \<and> (ru_ProgressResult orig = [] \<longrightarrow> ru_inv orig st d sent)"

definition leads_both :: "ResourceUpdate \<Rightarrow> ru_out list \<Rightarrow> ru_result \<Rightarrow> bool" where
  "leads_both orig sent r \<longleftrightarrow> loosely orig sent r \<and> (ru_ProgressResult orig = [] \<longrightarrow> leads orig sent r)"

definition u_inv :: "updater \<Rightarrow> bool" where
  "u_inv u \<longleftrightarrow> u_started u \<or>
     (\<exists>orig sent. u_origin u = Some orig \<and> both_inv orig (u_state u) (u_data u) sent \<and>
        u_sent u = sent @ onStateChange (u_state u) (u_data u))"

lemma handle_leads:
  assumes "ru_inv orig st d sent" "answers_ok env" "msg_ok st msg" "handle env st d msg = Some r"
  shows "leads orig sent r"
proof -
  have su: "same_update orig d sent" using assms(1) by (simp add: ru_inv_def)
  note fails = pluginOperationMissingInAction_def resolveCacheMissingInAction_def resourceFailedToResolve_def
  have prog: "leads orig sent (handleProgressUpdate env s d p)"
    if inv: "ru_inv orig s d sent" and s: "s \<in> {StateDeleting, StateCreating, StateUpdating}"
      and p: "pr_Operation p = PNotSet \<or> currentOperation s = Some (pr_Operation p)" for s p
  proof -
    obtain op where op: "currentOperation s = Some op" "continues env orig s"
      using s continues_last continues_Deleting [OF assms(2)] by auto
    then have "pr_Operation p \<in> insert PNotSet (set (issued sent))"
      using inv s p by (auto simp: ru_inv_def)
    then show ?thesis
      using s by (intro handleProgressUpdate_leads [OF inv op(1) _ _ op(2)]) auto
  qed
  show ?thesis
    using assms(4,3,1) leads_fail [OF su] resourceResolved_leads [OF _ assms(2)] prog
    by (cases "(env, st, d, msg)" rule: handle.cases) (auto simp: fails ru_inv_def)
qed

lemma onStateChange_same: "finished_state st \<Longrightarrow> handle env st d msg = None"
  by (cases st; cases msg) (auto simp: finished_state_def)

lemma u_enter_inv:
  assumes "leads_both orig sent r" "r = Some (st, d, outs, False)" "u_sent u = sent"
    "u_state u = st \<longrightarrow> \<not> finished_state st" "u_origin u' = Some orig"
    "u_state u' = st" "u_data u' = d" "u_sent u' = u_sent (u_enter u st d outs)"
  shows "u_inv u'"
proof -
  have "both_inv orig st d (sent @ outs)"
    using assms(1,2) by (simp add: leads_both_def both_inv_def loosely_def leads_def)
  moreover have "u_sent u' = (sent @ outs) @ onStateChange st d"
    using assms by (auto simp: u_enter_def onStateChange_def)
  ultimately show ?thesis using assms by (auto simp: u_inv_def)
qed

lemma ru_step_inv: "u_inv u \<Longrightarrow> ru_step u e u' \<Longrightarrow> u_inv u'"
proof (erule ru_step.cases)
  fix env u2 msg st d outs
  assume inv: "u_inv u" and [simp]: "u = u2" "e = (env, msg)"
    and u': "u' = (u_enter u2 st d outs)\<lparr>u_origin := (case msg of MsgStart m \<Rightarrow> Some (su_ResourceUpdate m)
      | _ \<Rightarrow> u_origin u2)\<rparr>"
    and ok: "answers_ok env" "msg_ok (u_state u2) msg"
    and h: "handle env (u_state u2) (u_data u2) msg = Some (Some (st, d, outs, False))"
  have nf: "\<not> finished_state (u_state u2)" using h onStateChange_same by fastforce
  show "u_inv u'"
  proof (cases "u_started u2")
    case True
    then obtain m where m: "msg = MsgStart m" "start env StateInitializing (u_data u2) m = Some (st, d, outs, False)"
      using h by (cases msg) (auto simp: u_started_def)
    then show ?thesis
      using start_leads [OF ok(1), of m "u_data u2"] start_loosely [of m env "u_data u2"] True nf
      by (intro u_enter_inv [OF _ m(2), of "su_ResourceUpdate m" "[]" u2])
        (auto simp: u' u_enter_def u_started_def leads_both_def)
  next
    case False
    then obtain orig sent where o: "u_origin u2 = Some orig" "both_inv orig (u_state u2) (u_data u2) sent"
      "u_sent u2 = sent @ onStateChange (u_state u2) (u_data u2)"
      using inv by (auto simp: u_inv_def)
    have s: "u_sent u2 = sent" using o(3) nf by (simp add: onStateChange_def)
    have ni: "u_state u2 \<noteq> StateInitializing" using o(2) by (auto simp: both_inv_def loose_inv_def)
    then have "\<not> (\<exists>m. msg = MsgStart m)" using h by (cases "u_state u2") auto
    then have org: "u_origin u' = Some orig" using o(1) by (auto simp: u' split: ru_msg.splits)
    have "leads_both orig sent (Some (st, d, outs, False))"
      using o(2) handle_leads [OF _ ok h] handle_loosely [OF _ h ni] by (simp add: both_inv_def leads_both_def)
    then show ?thesis
      by (rule u_enter_inv [OF _ refl s _ org]) (use nf in \<open>auto simp: u' u_enter_def\<close>)
  qed
qed

interpretation upd: invariant_machine u_started ru_step u_inv
proof
  show "u_started u \<Longrightarrow> u_inv u" for u by (simp add: u_inv_def)
  show "u_inv u \<Longrightarrow> ru_step u e u' \<Longrightarrow> u_inv u'" for u e u' by (rule ru_step_inv)
qed

lemma u_inv_cases:
  assumes "upd.reach u" "u_origin u = Some orig"
  obtains sent where "loose_inv orig (u_state u) (u_data u) sent"
    "ru_ProgressResult orig = [] \<longrightarrow> ru_inv orig (u_state u) (u_data u) sent"
    "u_sent u = sent @ onStateChange (u_state u) (u_data u)"
  using upd.reach_inv [OF assms(1)] assms(2) by (auto simp: u_inv_def u_started_def both_inv_def)

lemma onStateChange_silent [simp]:
  "issued (onStateChange st d) = []" "requested (onStateChange st d) = []"
  by (simp_all add: onStateChange_def)

section \<open>Properties\<close>

text \<open>C16: The plugin operations of an update are issued in the required order, each at most once, and references
  come first. Whatever is issued is a part, in order, of the sequence that the kind of update requires (read;
  create; read, then update; read, then delete; read, delete and create for a replacement); the references are
  requested in order, each at most once. An update that starts without recorded progress has issued a beginning of
  that sequence at any time. An update or delete that is started again with recorded progress of more than a read
  does not read again and requests no reference. In every other case all references have been requested
  before a create or an update is issued, and before a create always. The plugin operators are supposed to
  report on the operation they were asked for.\<close>

theorem updater_operations_in_order:
  assumes "upd.reach u" "u_origin u = Some orig"
  shows "subseq (issued (u_sent u)) (requiredOperations (ru_Operation orig)) \<and>
    prefix (requested (u_sent u)) (ru_RemainingResolvables orig) \<and>
    (ru_ProgressResult orig = [] \<longrightarrow> prefix (issued (u_sent u)) (requiredOperations (ru_Operation orig))) \<and>
    (PCreate \<in> set (issued (u_sent u)) \<or> PUpdate \<in> set (issued (u_sent u)) \<and> \<not> resumes orig \<longrightarrow>
       requested (u_sent u) = ru_RemainingResolvables orig) \<and>
    (resumes orig \<longrightarrow> PRead \<notin> set (issued (u_sent u)) \<and> requested (u_sent u) = [])"
proof -
  obtain sent where l: "loose_inv orig (u_state u) (u_data u) sent"
    and f: "ru_ProgressResult orig = [] \<longrightarrow> ru_inv orig (u_state u) (u_data u) sent"
    and s: "u_sent u = sent @ onStateChange (u_state u) (u_data u)"
    using u_inv_cases [OF assms] by blast
  have req: "requested sent @ ru_RemainingResolvables (rd_resourceUpdate (u_data u)) = ru_RemainingResolvables orig"
    using l by (simp add: loose_inv_def carried_def)
  have "prefix (requested sent) (ru_RemainingResolvables orig)" using req by (metis prefixI)
  moreover have "prefix (issued sent) (requiredOperations (ru_Operation orig))" if "ru_ProgressResult orig = []"
    using f that by (simp add: ru_inv_def same_update_def)
  ultimately show ?thesis
    using loose_required [OF l] l req by (auto simp: s loose_inv_def carried_def)
qed

text \<open>C32: An updater reports exactly once, when it reaches a final state, and names the resource it was started
  for. Apart from a synchronisation, the successful state is reported as success; a rejection is reported as
  rejected and belongs to an update; the state of an error is reported as failed or, the bug shown below, as
  still in progress, but never as success. When the update started without recorded progress, success is
  reported for a synchronisation too, every required operation has been issued before it unless the update comes
  from discovery, and only the read of a rejected one has been done.\<close>

theorem updater_final_report:
  assumes "upd.reach u" "u_origin u = Some orig"
  shows "if finished_state (u_state u)
    then \<exists>st. final_reports (u_sent u) = [\<lparr>rf_Uri = ru_URI orig, rf_State = st\<rparr>] \<and>
      (u_state u = StateFinishedSuccessfully \<and> ru_Operation orig \<noteq> OperationRead \<longrightarrow> st = ResourceUpdateStateSuccess) \<and>
      (u_state u = StateRejected \<longrightarrow> st = ResourceUpdateStateRejected \<and> ru_Operation orig = OperationUpdate) \<and>
      (u_state u = StateFinishedWithError \<longrightarrow> st \<in> {ResourceUpdateStateFailed, ResourceUpdateStateInProgress}) \<and>
      (ru_ProgressResult orig = [] \<longrightarrow>
        (u_state u = StateFinishedSuccessfully \<longrightarrow> st = ResourceUpdateStateSuccess \<and>
           (ru_Source orig \<noteq> FormaCommandSourceDiscovery \<longrightarrow>
              issued (u_sent u) = requiredOperations (ru_Operation orig))) \<and>
        (u_state u = StateRejected \<longrightarrow> issued (u_sent u) = [PRead]))
    else final_reports (u_sent u) = []"
proof -
  obtain sent where inv: "loose_inv orig (u_state u) (u_data u) sent"
    and f: "ru_ProgressResult orig = [] \<longrightarrow> ru_inv orig (u_state u) (u_data u) sent"
    and s: "u_sent u = sent @ onStateChange (u_state u) (u_data u)"
    using u_inv_cases [OF assms] by blast
  have su: "ru_URI (rd_resourceUpdate (u_data u)) = ru_URI orig" "final_reports sent = []"
    using inv by (simp_all add: loose_inv_def carried_def)
  show ?thesis
  proof (cases "finished_state (u_state u)")
    case True
    have "final_reports (u_sent u) =
        [\<lparr>rf_Uri = ru_URI orig, rf_State = ru_State (rd_resourceUpdate (u_data u))\<rparr>]"
      unfolding s using True su by (simp add: onStateChange_def)
    moreover have "issued (u_sent u) = issued sent" unfolding s by simp
    ultimately show ?thesis
      using True inv f by (auto simp: loose_inv_def ru_inv_def)
  next
    case False
    then show ?thesis unfolding s using su by (simp add: onStateChange_def)
  qed
qed

text \<open>C27: drift is never overwritten. When the read before an update succeeds and persisting it yields a
  new version, the update is rejected with that version, and no further plugin operation is
  issued.\<close>

theorem update_rejected_on_drift:
  assumes "ru_Operation (rd_resourceUpdate d) = OperationUpdate"
    and "rd_commandSource d \<noteq> FormaCommandSourceDiscovery" and "FinishedSuccessfully p"
    and "snd (RecordProgress (ue_merge env) (rd_resourceUpdate d) p) = False"
    and "\<forall>m. ue_progress_ok env m" and "\<forall>m. ue_persist env m = Some hash" and "hash \<noteq> ''''"
  shows "\<exists>d' outs. handleProgressUpdate env StateSynchronizing d p = Some (StateRejected, d', outs, False) \<and>
    ru_State (rd_resourceUpdate d') = ResourceUpdateStateRejected \<and>
    ru_Version (rd_resourceUpdate d') = hash \<and> issued outs = [] \<and>
    final_reports (outs @ onStateChange StateRejected d') =
      [\<lparr>rf_Uri = ru_URI (rd_resourceUpdate d), rf_State = ResourceUpdateStateRejected\<rparr>]"
proof -
  obtain ru1 where r: "RecordProgress (ue_merge env) (rd_resourceUpdate d) p = (ru1, False)"
    using assms(4) by (metis prod.collapse)
  note f = RecordProgress_frame [OF r]
  have "ru_Operation ru1 = OperationUpdate" "ru_URI ru1 = ru_URI (rd_resourceUpdate d)"
    using f assms(1) by simp_all
  then show ?thesis
    using assms(2,3,5-7)
    by (simp add: handleProgressUpdate.simps r Let_def emit_def IsDelete_def Reject_def ru_URI_def
        onStateChange_def finished_state_def)
qed

text \<open>a failed read is reported as in progress. When the read before an update, a delete or a
  replacement fails for good, the updater ends with an error, but the one final report it sends,
  and the completion it persists, carry the state in progress: only one of the two or three
  required operations has been recorded, and the failure does not mark the update as failed.\<close>

theorem failed_read_reported_in_progress:
  assumes "ru_ProgressResult ru = []" and "ru_Operation ru \<in> {OperationUpdate, OperationDelete, OperationReplace}"
    and "\<forall>c. ue_plugin env c = Answer p" and "Failed p" and "pr_ResourceProperties p = RawNil"
    and "\<forall>m. ue_progress_ok env m"
  shows "\<exists>d outs. start env StateInitializing d0 \<lparr>su_ResourceUpdate = ru, su_CommandID = cmd, su_UpdateId = uid\<rparr> =
      Some (StateFinishedWithError, d, outs, False) \<and>
    final_reports (outs @ onStateChange StateFinishedWithError d) =
      [\<lparr>rf_Uri = ru_URI ru, rf_State = ResourceUpdateStateInProgress\<rparr>] \<and>
    mc_FinalState (complete_message d) = ResourceUpdateStateInProgress"
proof -
  let ?ru = "ru\<lparr>ru_StartTs := ue_TimeNow env, ru_ModifiedTs := ue_TimeNow env\<rparr>"
  obtain ru1 failed where r: "RecordProgress (ue_merge env) ?ru p = (ru1, failed)" by fastforce
  have nf: "\<not> failed"
    using r assms(5)
    by (auto simp: RecordProgress_def updateResourceUpdateFromProgress_def updateResourceProperties_def
        updateExistingResourceProperties_def updateProperties_def Let_def split: if_splits)
  have st: "ru_State ru1 = ResourceUpdateStateInProgress"
    using RecordProgress_frame(5) [OF r] assms(1,2)
    by (auto simp: store_progress_def updateState_def)
  have uri: "ru_URI ru1 = ru_URI ru" using RecordProgress_frame(3) [OF r] by (simp add: ru_URI_def)
  have "\<not> FinishedSuccessfully p" using assms(4) Failed_not_FinishedSuccessfully by blast
  moreover have "\<not> HasProgress ?ru" "ru_Operation ?ru = ru_Operation ru"
    using assms(1) by (simp_all add: HasProgress_def)
  ultimately show ?thesis
    using assms(2,3,4,6) st uri nf
    by (auto simp: start_def nextState.simps [of env StateInitializing] synchronize.simps
        handleProgressUpdate.simps r doPluginOperation_def emit_def Let_def onStateChange_def
        finished_state_def complete_message_def)
qed

section \<open>A sample updater\<close>

definition sample_answer :: "op_call \<Rightarrow> plugin_answer" where
  "sample_answer c = Answer (zero_ProgressResult\<lparr>pr_Operation := call_kind c,
     pr_OperationStatus := OperationStatusSuccess, pr_ResourceProperties := RawJson (JObj [])\<rparr>)"

definition sample_uenv :: ru_env where
  "sample_uenv = \<lparr>ue_plugin = sample_answer, ue_progress_ok = (\<lambda>_. True), ue_persist = (\<lambda>_. Some ''''),
     ue_resolve_send_ok = True, ue_LatestLabel = (\<lambda>_. None), ue_TimeNow = 9, ue_lib = key_lib,
     ue_merge = (\<lambda>a b. a), ue_ord = id, ue_tag_ord = id, ue_plugin_env = sample_penv\<rparr>"

definition sample_ru :: ResourceUpdate where
  "sample_ru = zero_ResourceUpdate\<lparr>ru_Operation := OperationUpdate,
     ru_Resource := zero_Resource\<lparr>res_Ksuid := ''k'', res_Properties := RawJson (JObj [(''a'', ref_json ''u1'')])\<rparr>,
     ru_RemainingResolvables := [''u1'']\<rparr>"

definition sample_u0 :: updater where
  "sample_u0 = \<lparr>u_state = StateInitializing, u_data = \<lparr>rd_resourceUpdate = zero_ResourceUpdate, rd_commandID = [],
     rd_labelTagKeys = [], rd_retryConfig = pd_config zero_data, rd_commandSource = FormaCommandSourceUser,
     rd_originalResourceKsuidURI = []\<rparr>, u_sent = [], u_origin = None\<rparr>"

definition sample_start :: StartResourceUpdate where
  "sample_start = \<lparr>su_ResourceUpdate = sample_ru, su_CommandID = ''c'', su_UpdateId = ''i''\<rparr>"

definition u_next :: "ru_env \<Rightarrow> updater \<Rightarrow> ru_msg \<Rightarrow> updater" where
  "u_next env u msg = (case handle env (u_state u) (u_data u) msg of
     Some (Some (st, d, outs, False)) \<Rightarrow> (u_enter u st d outs)
       \<lparr>u_origin := (case msg of MsgStart m \<Rightarrow> Some (su_ResourceUpdate m) | _ \<Rightarrow> u_origin u)\<rparr>
   | _ \<Rightarrow> u)"

lemma u_next_step:
  assumes "answers_ok env" "msg_ok (u_state u) msg"
    "case handle env (u_state u) (u_data u) msg of Some (Some (st, d, outs, e)) \<Rightarrow> \<not> e | _ \<Rightarrow> False"
  shows "ru_step u (env, msg) (u_next env u msg)"
proof -
  obtain st d outs where h: "handle env (u_state u) (u_data u) msg = Some (Some (st, d, outs, False))"
    using assms(3) by (auto split: option.splits)
  show ?thesis unfolding u_next_def h by (simp add: ru_step.ru_step [OF assms(1,2) h])
qed

definition sample_u1 :: updater where
  "sample_u1 = u_next sample_uenv sample_u0 (MsgStart sample_start)"

definition sample_u2 :: updater where
  "sample_u2 = u_next sample_uenv sample_u1 (MsgValueResolved \<lparr>vr_ResourceURI = ''u1'', vr_Value = ''x''\<rparr>)"

lemma sample_uenv_ok: "answers_ok sample_uenv"
  by (simp add: answers_ok_def sample_uenv_def sample_answer_def)

lemma sample_u_reach: "upd.reach sample_u1" "upd.reach sample_u2"
proof -
  have 0: "upd.reach sample_u0"
    by (rule upd.reach_start) (simp add: u_started_def sample_u0_def)
  have 1: "ru_step sample_u0 (sample_uenv, MsgStart sample_start) sample_u1"
    unfolding sample_u1_def
    by (rule u_next_step [OF sample_uenv_ok])
      (simp add: sample_start_def sample_ru_def zero_ResourceUpdate_def, code_simp)
  have 2: "ru_step sample_u1 (sample_uenv, MsgValueResolved \<lparr>vr_ResourceURI = ''u1'', vr_Value = ''x''\<rparr>) sample_u2"
    unfolding sample_u2_def by (rule u_next_step [OF sample_uenv_ok]) (simp, code_simp)
  show 3: "upd.reach sample_u1" by (rule upd.reach_step [OF 0 1])
  show "upd.reach sample_u2" by (rule upd.reach_step [OF 3 2])
qed

lemma sample_u_facts: "issued (u_sent sample_u1) = [PRead]" "requested (u_sent sample_u1) = [''u1'']"
  "issued (u_sent sample_u2) = [PRead, PUpdate]" "u_state sample_u2 = StateFinishedSuccessfully"
  "map_option (\<lambda>_. ()) (u_origin sample_u2) = Some ()" "map_option ru_Operation (u_origin sample_u2) = Some OperationUpdate"
  "map_option ru_RemainingResolvables (u_origin sample_u2) = Some [''u1'']"
  "map_option ru_URI (u_origin sample_u2) = Some ''formae://k#''"
  by code_simp+

theorem updater_operations_in_order_witness:
  "prefix (issued (u_sent sample_u2)) [PRead, PUpdate] \<and> PUpdate \<in> set (issued (u_sent sample_u2)) \<and>
   requested (u_sent sample_u2) = [''u1'']"
proof -
  obtain orig where o: "u_origin sample_u2 = Some orig" "ru_Operation orig = OperationUpdate"
    "ru_RemainingResolvables orig = [''u1'']"
    using sample_u_facts(6,7) by auto
  show ?thesis
    using updater_operations_in_order [OF sample_u_reach(2) o(1)] o sample_u_facts(3) by simp
qed

theorem updater_final_report_witness:
  "final_reports (u_sent sample_u2) =
     [\<lparr>rf_Uri = ''formae://k#'', rf_State = ResourceUpdateStateSuccess\<rparr>]"
proof -
  obtain orig where o: "u_origin sample_u2 = Some orig" "ru_URI orig = ''formae://k#''" "ru_Operation orig = OperationUpdate"
    using sample_u_facts(6,8) by auto
  show ?thesis
    using updater_final_report [OF sample_u_reach(2) o(1)] o(2,3) sample_u_facts(4)
    by (auto simp: finished_state_def)
qed

definition sample_drift :: ru_env where
  "sample_drift = sample_uenv\<lparr>ue_persist := \<lambda>_. Some ''v2''\<rparr>"

definition sample_ok_progress :: ProgressResult where
  "sample_ok_progress = zero_ProgressResult\<lparr>pr_Operation := PRead, pr_OperationStatus := OperationStatusSuccess\<rparr>"

theorem update_rejected_on_drift_witness:
  "\<exists>d' outs. handleProgressUpdate sample_drift StateSynchronizing
       ((u_data sample_u0)\<lparr>rd_resourceUpdate := sample_ru\<rparr>) sample_ok_progress =
     Some (StateRejected, d', outs, False) \<and> ru_Version (rd_resourceUpdate d') = ''v2'' \<and> issued outs = []"
proof -
  let ?d = "(u_data sample_u0)\<lparr>rd_resourceUpdate := sample_ru\<rparr>"
  have 1: "ru_Operation (rd_resourceUpdate ?d) = OperationUpdate"
    "rd_commandSource ?d \<noteq> FormaCommandSourceDiscovery" "FinishedSuccessfully sample_ok_progress"
    "\<forall>m. ue_progress_ok sample_drift m" "\<forall>m. ue_persist sample_drift m = Some ''v2''"
    by (simp_all add: sample_ru_def sample_u0_def FinishedSuccessfully_def sample_ok_progress_def
        sample_drift_def sample_uenv_def)
  have "snd (RecordProgress (ue_merge sample_drift) (rd_resourceUpdate ?d) sample_ok_progress) = False"
    by code_simp
  then show ?thesis
    using update_rejected_on_drift [OF 1(1,2,3) _ 1(4,5)] by auto
qed

definition sample_denied :: ProgressResult where
  "sample_denied = zero_ProgressResult\<lparr>pr_Operation := PRead, pr_OperationStatus := OperationStatusFailure,
     pr_ErrorCode := ErrAccessDenied\<rparr>"

theorem failed_read_reported_in_progress_witness:
  "\<exists>d outs. start (sample_uenv\<lparr>ue_plugin := \<lambda>_. Answer sample_denied\<rparr>) StateInitializing (u_data sample_u0)
       sample_start = Some (StateFinishedWithError, d, outs, False) \<and>
     final_reports (outs @ onStateChange StateFinishedWithError d) =
       [\<lparr>rf_Uri = ru_URI sample_ru, rf_State = ResourceUpdateStateInProgress\<rparr>]"
proof -
  let ?env = "sample_uenv\<lparr>ue_plugin := \<lambda>_. Answer sample_denied\<rparr>"
  have 1: "ru_ProgressResult sample_ru = []"
    "ru_Operation sample_ru \<in> {OperationUpdate, OperationDelete, OperationReplace}"
    "\<forall>c. ue_plugin ?env c = Answer sample_denied" "Failed sample_denied"
    "pr_ResourceProperties sample_denied = RawNil" "\<forall>m. ue_progress_ok ?env m"
    by (simp_all add: sample_ru_def zero_ResourceUpdate_def sample_denied_def Failed_def IsRecoverable_def
        recoverableErrorCodes_def zero_ProgressResult_def sample_uenv_def)
  show ?thesis
    using failed_read_reported_in_progress [OF 1, of "u_data sample_u0" "''c''" "''i''"]
    unfolding sample_start_def by blast
qed

end
