(* ===== verification/Stored_Json.thy ===== *)
theory Stored_Json
  imports Resource_Update
begin

text \<open>
  JSON as it is compared and stored: the comparisons of
  \<^verbatim>\<open>internal/metastructure/util/json.go\<close>, and what \<^verbatim>\<open>encoding/json\<close>
  makes of the structs of \<^verbatim>\<open>pkg/model\<close> that the datastore keeps as text. For
  resources both directions are written out field by field; for the larger structs only their
  composition is, the value that reading the stored text back gives.
\<close>

section \<open>Comparing JSON documents\<close>

text \<open>
  A decoded object is a map; its entries are compared by key. \<open>json_wf\<close> says that no object
  has two entries for a key, which is what decoding produces.
\<close>

fun json_wf :: "json \<Rightarrow> bool" where
  "json_wf (JArr js) = list_all json_wf js"
| "json_wf (JObj kvs) = (distinct (map fst kvs) \<and> list_all (\<lambda>(k, v). json_wf v) kvs)"
| "json_wf j = True"

text \<open>
  \<^verbatim>\<open>reflect.DeepEqual\<close> on decoded values. Both comparisons recurse on the first value
  and return the test for the second.
\<close>

fun json_DeepEqual :: "json \<Rightarrow> json \<Rightarrow> bool" where
  "json_DeepEqual (JArr xs) = (\<lambda>b. case b of
     JArr ys \<Rightarrow> list_all2 (\<lambda>p y. p y) (map json_DeepEqual xs) ys
   | _ \<Rightarrow> False)"
| "json_DeepEqual (JObj kvs) = (\<lambda>b. case b of
     JObj kvs' \<Rightarrow> length kvs = length kvs' \<and>
       list_all (\<lambda>(k, p). case map_of kvs' k of None \<Rightarrow> False | Some w \<Rightarrow> p w)
         (map (\<lambda>(k, v). (k, json_DeepEqual v)) kvs)
   | _ \<Rightarrow> False)"
| "json_DeepEqual a = (\<lambda>b. a = b)"

fun JsonEqual :: "raw \<Rightarrow> raw \<Rightarrow> bool" where
  "JsonEqual (RawJson a) (RawJson b) = json_DeepEqual a b"
| "JsonEqual _ _ = False"

definition raw_len0 :: "raw \<Rightarrow> bool" where
  "raw_len0 r \<longleftrightarrow> r = RawNil \<or> r = RawEmpty"

definition JsonEqualRaw :: "raw \<Rightarrow> raw \<Rightarrow> bool" where
  "JsonEqualRaw a b =
     (if a = RawNil \<and> b = RawNil then True
      else if a = RawNil \<or> b = RawNil then False
      else if raw_len0 a \<and> raw_len0 b then True
      else if raw_len0 a \<or> raw_len0 b then False
      else JsonEqual a b)"

text \<open>
  The matching of arrays in \<^verbatim>\<open>deepEqualIgnoreArrayOrder\<close>: every element takes the
  first element of the other array that equals it and is not taken yet; the marks of
  \<^verbatim>\<open>copyB\<close> are the elements that are no longer in the list.
\<close>

fun match_elems :: "('a \<Rightarrow> bool) list \<Rightarrow> 'a list \<Rightarrow> bool" where
  "match_elems [] ys \<longleftrightarrow> ys = []"
| "match_elems (p # ps) ys \<longleftrightarrow> list_ex p ys \<and> match_elems ps (remove_first p ys)"

fun deepEqualIgnoreArrayOrder :: "json \<Rightarrow> json \<Rightarrow> bool" where
  "deepEqualIgnoreArrayOrder (JObj valA) = (\<lambda>b. case b of
     JObj valB \<Rightarrow> length valA = length valB \<and>
       list_all (\<lambda>(k, p). case map_of valB k of None \<Rightarrow> False | Some vb \<Rightarrow> p vb)
         (map (\<lambda>(k, v). (k, deepEqualIgnoreArrayOrder v)) valA)
   | _ \<Rightarrow> False)"
| "deepEqualIgnoreArrayOrder (JArr valA) = (\<lambda>b. case b of
     JArr valB \<Rightarrow> length valA = length valB \<and>
       match_elems (map deepEqualIgnoreArrayOrder valA) valB
   | _ \<Rightarrow> False)"
| "deepEqualIgnoreArrayOrder a = (\<lambda>b. a = b)"

text \<open>\<open>None\<close> is the error of a document that does not decode.\<close>

definition JsonEqualIgnoreArrayOrder :: "raw \<Rightarrow> raw \<Rightarrow> bool option" where
  "JsonEqualIgnoreArrayOrder a b =
     (if a = RawNil \<and> b = RawNil then Some True
      else if a = RawNil \<or> b = RawNil then Some False
      else if raw_len0 a \<and> raw_len0 b then Some True
      else if raw_len0 a \<or> raw_len0 b then Some False
      else case (a, b) of
             (RawJson objA, RawJson objB) \<Rightarrow> Some (deepEqualIgnoreArrayOrder objA objB)
           | _ \<Rightarrow> None)"

section \<open>The text of a resource\<close>

text \<open>
  A \<^verbatim>\<open>json.RawMessage\<close> field: nil is written as null, the empty message and one that
  is not JSON make \<^verbatim>\<open>json.Marshal\<close> fail. With \<^verbatim>\<open>omitempty\<close> a message
  of length 0 is left out.
\<close>

fun marshal_raw :: "raw \<Rightarrow> json option" where
  "marshal_raw RawNil = Some JNull"
| "marshal_raw RawEmpty = None"
| "marshal_raw (RawInvalid s) = None"
| "marshal_raw (RawJson j) = Some j"

fun raw_entry :: "string \<Rightarrow> raw \<Rightarrow> (string \<times> json) list option" where
  "raw_entry k (RawInvalid s) = None"
| "raw_entry k (RawJson j) = Some [(k, j)]"
| "raw_entry k r = Some []"

definition str_entry :: "string \<Rightarrow> string \<Rightarrow> (string \<times> json) list" where
  "str_entry k s = (if s = [] then [] else [(k, JStr s)])"

definition FieldHint_json :: "FieldHint \<Rightarrow> json" where
  "FieldHint_json h = JObj [(''CreateOnly'', JBool (fh_CreateOnly h)),
     (''Persist'', JBool (fh_Persist h)), (''WriteOnly'', JBool (fh_WriteOnly h)),
     (''Required'', JBool (fh_Required h)), (''RequiredOnCreate'', JBool (fh_RequiredOnCreate h))]"

definition Schema_json :: "Schema \<Rightarrow> json" where
  "Schema_json s = JObj [(''Identifier'', JStr (sch_Identifier s)), (''Tags'', JStr (sch_Tags s)),
     (''Fields'', JArr (map JStr (sch_Fields s))),
     (''Nonprovisionable'', JBool (sch_Nonprovisionable s)),
     (''Hints'', JObj (map (\<lambda>(k, h). (k, FieldHint_json h)) (sort_key fst (sch_Hints s)))),
     (''Discoverable'', JBool (sch_Discoverable s))]"

definition Resource_marshal :: "Resource \<Rightarrow> json option" where
  "Resource_marshal r =
     (case (marshal_raw (res_Properties r), raw_entry ''ReadOnlyProperties'' (res_ReadOnlyProperties r),
            raw_entry ''PatchDocument'' (res_PatchDocument r)) of
        (Some p, Some ro, Some pd) \<Rightarrow> Some (JObj
          ((''Label'', JStr (res_Label r)) # str_entry ''Group'' (res_Group r) @
           [(''Type'', JStr (res_Type r)), (''Stack'', JStr (res_Stack r)),
            (''Target'', JStr (res_Target r)), (''Schema'', Schema_json (res_Schema r)),
            (''Properties'', p)] @ ro @ pd @ str_entry ''NativeID'' (res_NativeID r) @
           (if res_Managed r then [(''Managed'', JBool True)] else []) @
           str_entry ''Ksuid'' (res_Ksuid r)))
      | _ \<Rightarrow> None)"

text \<open>
  \<^verbatim>\<open>json.Unmarshal\<close> of such a text: a missing field keeps the zero value, null leaves
  a field that is not a raw message alone, a value of another kind is an error.
\<close>

definition string_field :: "(string \<times> json) list \<Rightarrow> string \<Rightarrow> string option" where
  "string_field kvs k = (case map_of kvs k of
     None \<Rightarrow> Some [] | Some JNull \<Rightarrow> Some [] | Some (JStr s) \<Rightarrow> Some s | _ \<Rightarrow> None)"

definition bool_field :: "(string \<times> json) list \<Rightarrow> string \<Rightarrow> bool option" where
  "bool_field kvs k = (case map_of kvs k of
     None \<Rightarrow> Some False | Some JNull \<Rightarrow> Some False | Some (JBool b) \<Rightarrow> Some b | _ \<Rightarrow> None)"

definition raw_field :: "(string \<times> json) list \<Rightarrow> string \<Rightarrow> raw" where
  "raw_field kvs k = (case map_of kvs k of None \<Rightarrow> RawNil | Some j \<Rightarrow> RawJson j)"

fun json_string :: "json \<Rightarrow> string option" where
  "json_string (JStr s) = Some s"
| "json_string JNull = Some []"
| "json_string _ = None"

definition strings_field :: "(string \<times> json) list \<Rightarrow> string \<Rightarrow> string list option" where
  "strings_field kvs k = (case map_of kvs k of
     None \<Rightarrow> Some [] | Some JNull \<Rightarrow> Some []
   | Some (JArr js) \<Rightarrow> those (map json_string js) | _ \<Rightarrow> None)"

definition FieldHint_of :: "json \<Rightarrow> FieldHint option" where
  "FieldHint_of j = (case j of
     JObj kvs \<Rightarrow>
       (case (bool_field kvs ''CreateOnly'', bool_field kvs ''Persist'', bool_field kvs ''WriteOnly'',
              bool_field kvs ''Required'', bool_field kvs ''RequiredOnCreate'') of
          (Some c, Some p, Some w, Some r, Some rc) \<Rightarrow> Some \<lparr>fh_CreateOnly = c, fh_Persist = p,
             fh_WriteOnly = w, fh_Required = r, fh_RequiredOnCreate = rc\<rparr>
        | _ \<Rightarrow> None)
   | JNull \<Rightarrow> Some \<lparr>fh_CreateOnly = False, fh_Persist = False, fh_WriteOnly = False,
       fh_Required = False, fh_RequiredOnCreate = False\<rparr>
   | _ \<Rightarrow> None)"

definition hints_field :: "(string \<times> json) list \<Rightarrow> string \<Rightarrow> (string \<times> FieldHint) list option" where
  "hints_field kvs k = (case map_of kvs k of
     None \<Rightarrow> Some [] | Some JNull \<Rightarrow> Some []
   | Some (JObj hs) \<Rightarrow> those (map (\<lambda>(f, j). map_option (Pair f) (FieldHint_of j)) hs)
   | _ \<Rightarrow> None)"

definition Schema_of :: "json \<Rightarrow> Schema option" where
  "Schema_of j = (case j of
     JObj kvs \<Rightarrow>
       (case (string_field kvs ''Identifier'', string_field kvs ''Tags'', strings_field kvs ''Fields'',
              bool_field kvs ''Nonprovisionable'', hints_field kvs ''Hints'',
              bool_field kvs ''Discoverable'') of
          (Some i, Some t, Some f, Some n, Some h, Some d) \<Rightarrow> Some \<lparr>sch_Identifier = i, sch_Tags = t,
             sch_Fields = f, sch_Nonprovisionable = n, sch_Hints = h, sch_Discoverable = d\<rparr>
        | _ \<Rightarrow> None)
   | JNull \<Rightarrow> Some zero_Schema
   | _ \<Rightarrow> None)"

definition schema_field :: "(string \<times> json) list \<Rightarrow> string \<Rightarrow> Schema option" where
  "schema_field kvs k = (case map_of kvs k of None \<Rightarrow> Some zero_Schema | Some j \<Rightarrow> Schema_of j)"

definition Resource_unmarshal :: "json \<Rightarrow> Resource option" where
  "Resource_unmarshal j = (case j of
     JObj kvs \<Rightarrow>
       (case (string_field kvs ''Label'', string_field kvs ''Group'', string_field kvs ''Type'',
              string_field kvs ''Stack'', string_field kvs ''Target'', schema_field kvs ''Schema'',
              string_field kvs ''NativeID'', bool_field kvs ''Managed'', string_field kvs ''Ksuid'') of
          (Some l, Some g, Some t, Some s, Some tg, Some sc, Some n, Some m, Some k) \<Rightarrow>
             Some \<lparr>res_Label = l, res_Group = g, res_Type = t, res_Stack = s, res_Target = tg,
               res_Schema = sc, res_Properties = raw_field kvs ''Properties'',
               res_ReadOnlyProperties = raw_field kvs ''ReadOnlyProperties'',
               res_PatchDocument = raw_field kvs ''PatchDocument'', res_NativeID = n,
               res_Managed = m, res_Ksuid = k\<rparr>
        | _ \<Rightarrow> None)
   | JNull \<Rightarrow> Some zero_Resource
   | _ \<Rightarrow> None)"

section \<open>What reading back a stored struct gives\<close>

fun stored_raw :: "raw \<Rightarrow> raw option" where
  "stored_raw RawNil = Some (RawJson JNull)"
| "stored_raw (RawJson j) = Some (RawJson j)"
| "stored_raw _ = None"

fun stored_raw_omit :: "raw \<Rightarrow> raw option" where
  "stored_raw_omit (RawInvalid s) = None"
| "stored_raw_omit (RawJson j) = Some (RawJson j)"
| "stored_raw_omit _ = Some RawNil"

definition sorted_Schema :: "Schema \<Rightarrow> Schema" where
  "sorted_Schema s = s\<lparr>sch_Hints := sort_key fst (sch_Hints s)\<rparr>"

definition stored_Resource :: "Resource \<Rightarrow> Resource option" where
  "stored_Resource r =
     (case (stored_raw (res_Properties r), stored_raw_omit (res_ReadOnlyProperties r),
            stored_raw_omit (res_PatchDocument r)) of
        (Some p, Some ro, Some pd) \<Rightarrow> Some (r\<lparr>res_Schema := sorted_Schema (res_Schema r),
           res_Properties := p, res_ReadOnlyProperties := ro, res_PatchDocument := pd\<rparr>)
      | _ \<Rightarrow> None)"

definition stored_Target :: "Target \<Rightarrow> Target option" where
  "stored_Target t = map_option (\<lambda>c. t\<lparr>tgt_Config := c\<rparr>) (stored_raw_omit (tgt_Config t))"

definition stored_ProgressResult :: "ProgressResult \<Rightarrow> ProgressResult option" where
  "stored_ProgressResult p =
     (case (stored_raw_omit (pr_Metadata p), stored_raw_omit (pr_ResourceProperties p)) of
        (Some m, Some rp) \<Rightarrow> Some (p\<lparr>pr_Metadata := m, pr_ResourceProperties := rp\<rparr>)
      | _ \<Rightarrow> None)"

text \<open>The filter of an update, a function, is not part of its text.\<close>

definition stored_ResourceUpdate :: "ResourceUpdate \<Rightarrow> ResourceUpdate option" where
  "stored_ResourceUpdate ru =
     (case (stored_Resource (ru_Resource ru), stored_Target (ru_ResourceTarget ru),
            stored_Resource (ru_ExistingResource ru), stored_Target (ru_ExistingTarget ru),
            stored_raw (ru_MetaData ru), stored_ProgressResult (ru_MostRecentProgressResult ru),
            those (map stored_ProgressResult (ru_ProgressResult ru)),
            stored_raw_omit (ru_PreviousProperties ru)) of
        (Some r, Some t, Some er, Some et, Some md, Some mr, Some ps, Some pp) \<Rightarrow>
          Some (ru\<lparr>ru_Resource := r, ru_ResourceTarget := t, ru_ExistingResource := er,
            ru_ExistingTarget := et, ru_MetaData := md, ru_MostRecentProgressResult := mr,
            ru_ProgressResult := ps, ru_ReferenceLabels := sort_key fst (ru_ReferenceLabels ru),
            ru_PreviousProperties := pp, ru_Filter := None\<rparr>)
      | _ \<Rightarrow> None)"

definition stored_Forma :: "Forma \<Rightarrow> Forma option" where
  "stored_Forma f =
     (case (those (map stored_Target (forma_Targets f)), those (map stored_Resource (forma_Resources f))) of
        (Some ts, Some rs) \<Rightarrow> Some (f\<lparr>forma_Properties := sort_key fst (forma_Properties f),
           forma_Targets := ts, forma_Resources := rs\<rparr>)
      | _ \<Rightarrow> None)"

section \<open>Storing and reading back\<close>

lemma map_of_str_entry [simp]:
  "map_of (str_entry k s) k' = (if k = k' \<and> s \<noteq> [] then Some (JStr s) else None)"
  by (simp add: str_entry_def)

lemma those_map_Some [simp]: "those (map (\<lambda>x. Some (f x)) xs) = Some (map f xs)"
  by (induction xs) auto

lemma FieldHint_of_json [simp]: "FieldHint_of (FieldHint_json h) = Some h"
  by (simp add: FieldHint_of_def FieldHint_json_def bool_field_def)

lemma Schema_of_json [simp]: "Schema_of (Schema_json s) = Some (sorted_Schema s)"
  by (simp add: Schema_of_def Schema_json_def string_field_def bool_field_def strings_field_def
      hints_field_def sorted_Schema_def comp_def case_prod_unfold)

fun json_opt :: "raw \<Rightarrow> json option" where
  "json_opt (RawJson j) = Some j"
| "json_opt _ = None"

lemma raw_entry_map_of:
  "raw_entry k r = Some es \<Longrightarrow> map_of es k' = (if k' = k then json_opt r else None)"
  by (cases r) auto

lemma raw_entry_stored:
  "raw_entry k r = Some es \<Longrightarrow>
     stored_raw_omit r = Some (case json_opt r of None \<Rightarrow> RawNil | Some j \<Rightarrow> RawJson j)"
  by (cases r) auto

lemma marshal_raw_Some: "marshal_raw r = Some j \<Longrightarrow> stored_raw r = Some (RawJson j)"
  by (cases r) auto

lemma marshal_raw_None: "marshal_raw r = None \<longleftrightarrow> stored_raw r = None"
  by (cases r) auto

lemma raw_entry_None: "raw_entry k r = None \<longleftrightarrow> stored_raw_omit r = None"
  by (cases r) auto

lemmas field_defs = string_field_def bool_field_def raw_field_def schema_field_def

lemma Resource_unmarshal_marshal:
  assumes "Resource_marshal r = Some j"
  shows "Resource_unmarshal j = stored_Resource r"
proof -
  from assms obtain p ro pd where e: "marshal_raw (res_Properties r) = Some p"
    "raw_entry ''ReadOnlyProperties'' (res_ReadOnlyProperties r) = Some ro"
    "raw_entry ''PatchDocument'' (res_PatchDocument r) = Some pd"
    by (auto simp: Resource_marshal_def split: option.splits)
  note m = raw_entry_map_of [OF e(2)] raw_entry_map_of [OF e(3)]
  define kvs where "kvs = (''Label'', JStr (res_Label r)) # str_entry ''Group'' (res_Group r) @
     [(''Type'', JStr (res_Type r)), (''Stack'', JStr (res_Stack r)),
      (''Target'', JStr (res_Target r)), (''Schema'', Schema_json (res_Schema r)),
      (''Properties'', p)] @ ro @ pd @ str_entry ''NativeID'' (res_NativeID r) @
     (if res_Managed r then [(''Managed'', JBool True)] else []) @
     str_entry ''Ksuid'' (res_Ksuid r)"
  have j: "j = JObj kvs"
    using assms by (simp add: Resource_marshal_def e kvs_def)
  have "string_field kvs ''Label'' = Some (res_Label r)" "string_field kvs ''Group'' = Some (res_Group r)"
    "string_field kvs ''Type'' = Some (res_Type r)" "string_field kvs ''Stack'' = Some (res_Stack r)"
    "string_field kvs ''Target'' = Some (res_Target r)"
    "schema_field kvs ''Schema'' = Some (sorted_Schema (res_Schema r))"
    "string_field kvs ''NativeID'' = Some (res_NativeID r)"
    "bool_field kvs ''Managed'' = Some (res_Managed r)"
    "string_field kvs ''Ksuid'' = Some (res_Ksuid r)"
    by (simp_all add: field_defs kvs_def m map_add_def)
  moreover have "raw_field kvs ''Properties'' = RawJson p"
    "stored_raw_omit (res_ReadOnlyProperties r) = Some (raw_field kvs ''ReadOnlyProperties'')"
    "stored_raw_omit (res_PatchDocument r) = Some (raw_field kvs ''PatchDocument'')"
    by (simp_all add: field_defs kvs_def m map_add_def raw_entry_stored [OF e(2)] raw_entry_stored [OF e(3)]
        split: option.split)
  ultimately show ?thesis
    by (simp add: j Resource_unmarshal_def stored_Resource_def marshal_raw_Some [OF e(1)])
qed

lemma Resource_marshal_None:
  "Resource_marshal r = None \<longleftrightarrow> marshal_raw (res_Properties r) = None \<or>
     raw_entry ''ReadOnlyProperties'' (res_ReadOnlyProperties r) = None \<or>
     raw_entry ''PatchDocument'' (res_PatchDocument r) = None"
  by (simp add: Resource_marshal_def split: option.splits)

lemma stored_Resource_None: "stored_Resource r = None \<longleftrightarrow> Resource_marshal r = None"
proof -
  have "stored_Resource r = None \<longleftrightarrow> stored_raw (res_Properties r) = None \<or>
      stored_raw_omit (res_ReadOnlyProperties r) = None \<or> stored_raw_omit (res_PatchDocument r) = None"
    by (simp add: stored_Resource_def split: option.splits)
  then show ?thesis
    by (simp only: Resource_marshal_None marshal_raw_None raw_entry_None)
qed

text \<open>What has been read back once is stored and read back unchanged.\<close>

lemma sort_key_idem [simp]: "sort_key f (sort_key f xs) = sort_key f xs"
  by (rule sort_key_id_if_sorted) simp

lemma those_idem:
  assumes "\<And>x y. f x = Some y \<Longrightarrow> f y = Some y"
  shows "those (map f xs) = Some ys \<Longrightarrow> those (map f ys) = Some ys"
  by (induction xs arbitrary: ys) (auto split: option.splits simp: assms)

lemma stored_raw_idem: "stored_raw r = Some s \<Longrightarrow> stored_raw s = Some s"
  by (cases r) auto

lemma stored_raw_omit_idem: "stored_raw_omit r = Some s \<Longrightarrow> stored_raw_omit s = Some s"
  by (cases r) auto

lemma stored_Resource_idem:
  assumes "stored_Resource r = Some s" shows "stored_Resource s = Some s"
proof -
  obtain p ro pd where e: "stored_raw (res_Properties r) = Some p"
    "stored_raw_omit (res_ReadOnlyProperties r) = Some ro"
    "stored_raw_omit (res_PatchDocument r) = Some pd"
    using assms by (auto simp: stored_Resource_def split: option.splits)
  with assms have "s = r\<lparr>res_Schema := sorted_Schema (res_Schema r), res_Properties := p,
      res_ReadOnlyProperties := ro, res_PatchDocument := pd\<rparr>"
    by (simp add: stored_Resource_def)
  moreover note stored_raw_idem [OF e(1)] stored_raw_omit_idem [OF e(2)] stored_raw_omit_idem [OF e(3)]
  ultimately show ?thesis
    by (simp add: stored_Resource_def sorted_Schema_def)
qed

lemma stored_Target_idem: "stored_Target t = Some u \<Longrightarrow> stored_Target u = Some u"
  by (auto simp: stored_Target_def dest: stored_raw_omit_idem)

lemma stored_ProgressResult_idem:
  assumes "stored_ProgressResult p = Some q" shows "stored_ProgressResult q = Some q"
proof -
  obtain m rp where e: "stored_raw_omit (pr_Metadata p) = Some m"
    "stored_raw_omit (pr_ResourceProperties p) = Some rp"
    and q: "q = p\<lparr>pr_Metadata := m, pr_ResourceProperties := rp\<rparr>"
    using assms by (auto simp: stored_ProgressResult_def split: option.splits)
  then show ?thesis
    by (simp add: stored_ProgressResult_def stored_raw_omit_idem [OF e(1)] stored_raw_omit_idem [OF e(2)])
qed

lemma stored_those_idem:
  "those (map stored_ProgressResult ps) = Some qs \<Longrightarrow> those (map stored_ProgressResult qs) = Some qs"
  "those (map stored_Target ts) = Some us \<Longrightarrow> those (map stored_Target us) = Some us"
  "those (map stored_Resource rs) = Some ss \<Longrightarrow> those (map stored_Resource ss) = Some ss"
  by (erule those_idem [rotated]; rule stored_ProgressResult_idem stored_Target_idem stored_Resource_idem;
      assumption)+

lemma stored_ResourceUpdate_Some:
  assumes "stored_ResourceUpdate ru = Some rv"
  shows "stored_Resource (ru_Resource ru) = Some (ru_Resource rv)"
    "stored_Target (ru_ResourceTarget ru) = Some (ru_ResourceTarget rv)"
    "stored_Resource (ru_ExistingResource ru) = Some (ru_ExistingResource rv)"
    "stored_Target (ru_ExistingTarget ru) = Some (ru_ExistingTarget rv)"
    "stored_raw (ru_MetaData ru) = Some (ru_MetaData rv)"
    "stored_ProgressResult (ru_MostRecentProgressResult ru) = Some (ru_MostRecentProgressResult rv)"
    "those (map stored_ProgressResult (ru_ProgressResult ru)) = Some (ru_ProgressResult rv)"
    "stored_raw_omit (ru_PreviousProperties ru) = Some (ru_PreviousProperties rv)"
    "rv = ru\<lparr>ru_Resource := ru_Resource rv, ru_ResourceTarget := ru_ResourceTarget rv,
       ru_ExistingResource := ru_ExistingResource rv, ru_ExistingTarget := ru_ExistingTarget rv,
       ru_MetaData := ru_MetaData rv, ru_MostRecentProgressResult := ru_MostRecentProgressResult rv,
       ru_ProgressResult := ru_ProgressResult rv,
       ru_ReferenceLabels := sort_key fst (ru_ReferenceLabels ru),
       ru_PreviousProperties := ru_PreviousProperties rv, ru_Filter := None\<rparr>"
  using assms by (auto simp: stored_ResourceUpdate_def split: option.splits)

lemma stored_ResourceUpdate_idem:
  assumes "stored_ResourceUpdate ru = Some rv" shows "stored_ResourceUpdate rv = Some rv"
proof -
  note e = stored_ResourceUpdate_Some [OF assms]
  note i = stored_Resource_idem [OF e(1)] stored_Target_idem [OF e(2)] stored_Resource_idem [OF e(3)]
    stored_Target_idem [OF e(4)] stored_raw_idem [OF e(5)] stored_ProgressResult_idem [OF e(6)]
    stored_those_idem(1) [OF e(7)] stored_raw_omit_idem [OF e(8)]
  have "ru_ReferenceLabels rv = sort_key fst (ru_ReferenceLabels ru)" "ru_Filter rv = None"
    using arg_cong [OF e(9), of ru_ReferenceLabels] arg_cong [OF e(9), of ru_Filter] by simp_all
  then show ?thesis
    by (simp add: stored_ResourceUpdate_def i)
qed

lemma stored_Forma_idem:
  assumes "stored_Forma f = Some g" shows "stored_Forma g = Some g"
proof -
  obtain ts rs where e: "those (map stored_Target (forma_Targets f)) = Some ts"
    "those (map stored_Resource (forma_Resources f)) = Some rs"
    and g: "g = f\<lparr>forma_Properties := sort_key fst (forma_Properties f), forma_Targets := ts,
      forma_Resources := rs\<rparr>"
    using assms by (auto simp: stored_Forma_def split: option.splits)
  then show ?thesis
    by (simp add: stored_Forma_def stored_those_idem(2) [OF e(1)] stored_those_idem(3) [OF e(2)])
qed

section \<open>Equality up to the order of arrays\<close>

text \<open>
  The reference notion: two documents are equal when they are built the same way from equal
  parts, the entries of an object in any order and the elements of an array in any order.
\<close>

inductive json_sim :: "json \<Rightarrow> json \<Rightarrow> bool" where
  sim_scalar: "\<lbrakk>\<nexists>js. a = JArr js; \<nexists>kvs. a = JObj kvs\<rbrakk> \<Longrightarrow> json_sim a a"
| sim_arr: "\<lbrakk>list_all2 json_sim xs zs; mset zs = mset ys\<rbrakk> \<Longrightarrow> json_sim (JArr xs) (JArr ys)"
| sim_obj: "\<lbrakk>list_all2 (rel_prod (=) json_sim) kvs zs; mset zs = mset kvs'\<rbrakk> \<Longrightarrow> json_sim (JObj kvs) (JObj kvs')"

inductive_simps json_sim_JArr: "json_sim (JArr xs) b"
inductive_simps json_sim_JObj: "json_sim (JObj kvs) b"
inductive_simps json_sim_JArr2: "json_sim a (JArr xs)"
inductive_simps json_sim_JObj2: "json_sim a (JObj kvs)"


lemma list_all2_reorder_right:
  assumes "list_all2 R xs zs" "mset zs = mset ys"
  obtains xs' where "list_all2 R xs' ys" "mset xs' = mset xs"
proof -
  have "list_all2 (\<lambda>a b. R b a) zs xs"
    using assms(1) by (auto simp: list_all2_conv_all_nth)
  from list_all2_reorder_left_invariance [OF this assms(2) [symmetric]]
  obtain xs' where "list_all2 (\<lambda>a b. R b a) ys xs'" "mset xs' = mset xs" by blast
  with that [of xs'] show ?thesis by (auto simp: list_all2_conv_all_nth)
qed

lemma json_sim_sym: "json_sim a b \<Longrightarrow> json_sim b a"
proof (induction rule: json_sim.induct)
  case (sim_scalar a)
  then show ?case by (intro json_sim.sim_scalar)
next
  case (sim_arr xs zs ys)
  obtain xs' where "list_all2 (\<lambda>x y. json_sim x y \<and> json_sim y x) xs' ys" "mset xs' = mset xs"
    by (rule list_all2_reorder_right [OF sim_arr.IH sim_arr.hyps])
  then show ?case
    by (intro json_sim.sim_arr [of ys xs']) (auto simp: list_all2_conv_all_nth)
next
  case (sim_obj kvs zs kvs')
  obtain xs' where xs': "list_all2 (rel_prod (=) (\<lambda>x y. json_sim x y \<and> json_sim y x)) xs' kvs'"
    "mset xs' = mset kvs"
    by (rule list_all2_reorder_right [OF sim_obj.IH sim_obj.hyps])
  then show ?case
    by (intro json_sim.sim_obj [of kvs' xs']) (auto simp: list_all2_conv_all_nth rel_prod_sel)
qed

lemma list_all2_trans_in:
  assumes "list_all2 (\<lambda>x y. R x y \<and> (\<forall>z. R y z \<longrightarrow> R x z)) xs ys" "list_all2 R ys zs"
  shows "list_all2 R xs zs"
  using assms by (auto simp: list_all2_conv_all_nth)

lemma json_sim_trans: "json_sim a b \<Longrightarrow> json_sim b c \<Longrightarrow> json_sim a c"
proof (induction arbitrary: c rule: json_sim.induct)
  case (sim_scalar a)
  then show ?case by simp
next
  case (sim_arr xs zs ys)
  then obtain us ws where c: "c = JArr ws" "list_all2 json_sim ys us" "mset us = mset ws"
    by (auto simp: json_sim_JArr)
  then obtain us' where us': "list_all2 json_sim zs us'" "mset us' = mset us"
    using list_all2_reorder_left_invariance sim_arr.hyps by metis
  have "list_all2 (\<lambda>x y. json_sim x y \<and> (\<forall>z. json_sim y z \<longrightarrow> json_sim x z)) xs zs"
    using sim_arr.IH by (rule list_all2_mono) blast
  then have "list_all2 json_sim xs us'"
    using us'(1) by (rule list_all2_trans_in)
  with us'(2) c show ?case by (auto intro: json_sim.sim_arr)
next
  case (sim_obj kvs zs kvs')
  then obtain us ws where c: "c = JObj ws" "list_all2 (rel_prod (=) json_sim) kvs' us" "mset us = mset ws"
    by (auto simp: json_sim_JObj)
  then obtain us' where us': "list_all2 (rel_prod (=) json_sim) zs us'" "mset us' = mset us"
    using list_all2_reorder_left_invariance sim_obj.hyps by metis
  have "list_all2 (\<lambda>x y. rel_prod (=) json_sim x y \<and>
      (\<forall>z. rel_prod (=) json_sim y z \<longrightarrow> rel_prod (=) json_sim x z)) kvs zs"
    using sim_obj.IH by (rule list_all2_mono) (auto simp: rel_prod_sel)
  then have "list_all2 (rel_prod (=) json_sim) kvs us'"
    using us'(1) by (rule list_all2_trans_in)
  with us'(2) c show ?case by (auto intro: json_sim.sim_obj)
qed

text \<open>Greedy matching decides whether a permutation matches, when equality is an equivalence.\<close>

lemma remove_first_mset:
  assumes "list_ex p ys"
  obtains y where "y \<in> set ys" "p y" "mset ys = add_mset y (mset (remove_first p ys))"
proof -
  have "\<exists>y. y \<in> set ys \<and> p y \<and> mset ys = add_mset y (mset (remove_first p ys))"
    using assms by (induction ys) (auto simp: add_mset_commute)
  with that show ?thesis by blast
qed

lemma match_elems_sound:
  "match_elems (map R xs) ys \<Longrightarrow> \<exists>zs. list_all2 R xs zs \<and> mset zs = mset ys"
proof (induction xs arbitrary: ys)
  case Nil
  then show ?case by simp
next
  case (Cons x xs)
  then obtain y where y: "R x y" "mset ys = add_mset y (mset (remove_first (R x) ys))"
    by (auto elim: remove_first_mset)
  from Cons obtain zs where "list_all2 R xs zs" "mset zs = mset (remove_first (R x) ys)" by auto
  with y show ?case by (intro exI [of _ "y # zs"]) simp
qed

lemma match_elems_complete:
  assumes sym: "\<And>x y. R x y \<Longrightarrow> R y x" and trans: "\<And>x y z. R x y \<Longrightarrow> R y z \<Longrightarrow> R x z"
  shows "list_all2 R xs zs \<Longrightarrow> mset zs = mset ys \<Longrightarrow> match_elems (map R xs) ys"
proof (induction xs arbitrary: ys zs)
  case Nil
  then show ?case by simp
next
  case (Cons x xs)
  then obtain z zs' where zs: "zs = z # zs'" "R x z" "list_all2 R xs zs'"
    by (auto simp: list_all2_Cons1)
  then have ex: "list_ex (R x) ys"
    using Cons.prems(2) by (metis list.set_intros(1) list_ex_iff mset_eq_setD)
  then obtain y where y: "R x y" "mset ys = add_mset y (mset (remove_first (R x) ys))"
    by (auto elim: remove_first_mset)
  have "\<exists>us. list_all2 R xs us \<and> mset us = mset (remove_first (R x) ys)"
  proof (cases "y = z")
    case True
    then show ?thesis using zs y(2) Cons.prems(2) by auto
  next
    case False
    then have "y \<in> set zs'"
      using y(2) Cons.prems(2) zs(1) by (metis in_multiset_in_set insert_iff list.set(2) mset.simps(2) union_single_eq_member)
    then obtain i where i: "i < length zs'" "zs' ! i = y" by (auto simp: in_set_conv_nth)
    then have "R (xs ! i) y" using zs(3) by (auto simp: list_all2_conv_all_nth)
    then have "R (xs ! i) z" using sym [OF y(1)] zs(2) trans by blast
    then have "list_all2 R xs (zs'[i := z])"
      using zs(3) i(1) by (auto simp: list_all2_conv_all_nth nth_list_update)
    moreover have "add_mset y (mset (zs'[i := z])) = add_mset z (mset zs')"
      using i \<open>y \<in> set zs'\<close> by (simp add: mset_update add_mset_commute)
    then have "mset (zs'[i := z]) = mset (remove_first (R x) ys)"
      using y(2) Cons.prems(2) zs(1) by simp
    ultimately show ?thesis by blast
  qed
  with ex Cons.IH show ?case by auto
qed

lemma match_elems_cong:
  assumes "\<And>x y. x \<in> set xs \<Longrightarrow> y \<in> set ys \<Longrightarrow> P x y = Q x y"
  shows "match_elems (map P xs) ys = match_elems (map Q xs) ys"
  using assms
proof (induction xs arbitrary: ys)
  case Nil
  then show ?case by simp
next
  case (Cons x xs)
  have "remove_first (P x) zs = remove_first (Q x) zs" if "set zs \<subseteq> set ys" for zs
    using that Cons.prems by (induction zs) auto
  then have "remove_first (P x) ys = remove_first (Q x) ys" by simp
  moreover have "list_ex (P x) ys = list_ex (Q x) ys"
    using Cons.prems by (auto simp: list_ex_iff)
  moreover have "match_elems (map P xs) (remove_first (Q x) ys) = match_elems (map Q xs) (remove_first (Q x) ys)"
    by (rule Cons.IH) (use Cons.prems set_remove_first_subset in fastforce)
  ultimately show ?case by simp
qed

text \<open>Objects: the entries of a map, looked up one by one.\<close>

lemma lookup_entries:
  assumes "distinct (map fst kvs)" "distinct (map fst kvs')"
  shows "(length kvs = length kvs' \<and>
      list_all (\<lambda>(k, p). case map_of kvs' k of None \<Rightarrow> False | Some w \<Rightarrow> p w) (map (\<lambda>(k, v). (k, R v)) kvs)) \<longleftrightarrow>
    (\<exists>zs. list_all2 (rel_prod (=) R) kvs zs \<and> mset zs = mset kvs')" (is "?l \<longleftrightarrow> ?r")
proof
  assume l: ?l
  let ?zs = "map (\<lambda>(k, v). (k, the (map_of kvs' k))) kvs"
  have e: "\<exists>w. map_of kvs' k = Some w \<and> R v w" if "(k, v) \<in> set kvs" for k v
    using l that by (auto simp: list_all_iff split: option.splits)
  then have l2: "list_all2 (rel_prod (=) R) kvs ?zs"
    unfolding list.rel_map list_all2_same by fastforce
  have sub: "set ?zs \<subseteq> set kvs'"
    using e by (fastforce dest: map_of_SomeD)
  have fst: "map fst ?zs = map fst kvs"
    by (simp add: case_prod_unfold comp_def)
  then have d: "distinct ?zs" using assms(1) by (metis distinct_map)
  have "card (set ?zs) = length kvs" using distinct_card [OF d] by simp
  moreover have "card (set kvs') = length kvs'"
    using assms(2) by (simp add: distinct_card distinct_map)
  ultimately have "set ?zs = set kvs'"
    using sub l by (intro card_subset_eq) simp_all
  then have "mset ?zs = mset kvs'"
    using d assms(2) by (intro set_eq_iff_mset_eq_distinct [THEN iffD1]) (auto simp: distinct_map)
  with l2 show ?r by blast
next
  assume ?r
  then obtain zs where zs: "list_all2 (rel_prod (=) R) kvs zs" "mset zs = mset kvs'" by blast
  have "\<exists>w. map_of kvs' k = Some w \<and> R v w" if "(k, v) \<in> set kvs" for k v
  proof -
    obtain i where "i < length kvs" "kvs ! i = (k, v)" using \<open>(k, v) \<in> set kvs\<close> by (auto simp: in_set_conv_nth)
    then have "fst (zs ! i) = k" "R v (snd (zs ! i))" "zs ! i \<in> set zs"
      using zs(1) by (auto simp: list_all2_conv_all_nth rel_prod_sel)
    then show ?thesis
      using mset_eq_setD [OF zs(2)] assms(2) by (metis map_of_is_SomeI prod.collapse)
  qed
  then show ?l
    using mset_eq_length [OF zs(2)] list_all2_lengthD [OF zs(1)] by (force simp: list_all_iff)
qed

lemma json_match_complete:
  "list_all2 json_sim xs zs \<Longrightarrow> mset zs = mset ys \<Longrightarrow> match_elems (map json_sim xs) ys"
  by (rule match_elems_complete [OF json_sim_sym json_sim_trans])

lemma deepEqual_sim:
  "json_wf a \<Longrightarrow> json_wf b \<Longrightarrow> deepEqualIgnoreArrayOrder a b \<longleftrightarrow> json_sim a b"
proof (induction a arbitrary: b rule: deepEqualIgnoreArrayOrder.induct)
  case (1 valA)
  show ?case
  proof (cases b)
    case (JObj valB)
    let ?R = "\<lambda>v w. deepEqualIgnoreArrayOrder v w"
    have d: "distinct (map fst valA)" "distinct (map fst valB)" using 1 JObj by auto
    have IH: "deepEqualIgnoreArrayOrder v w \<longleftrightarrow> json_sim v w"
      if "(k, v) \<in> set valA" "(k', w) \<in> set valB" for k v k' w
      using that 1 JObj by (fastforce simp: list_all_iff)
    have "deepEqualIgnoreArrayOrder (JObj valA) b \<longleftrightarrow>
        (\<exists>zs. list_all2 (rel_prod (=) ?R) valA zs \<and> mset zs = mset valB)"
      using lookup_entries [OF d, of ?R] by (simp add: JObj)
    moreover have "list_all2 (rel_prod (=) ?R) valA zs \<longleftrightarrow> list_all2 (rel_prod (=) json_sim) valA zs"
      if m: "mset zs = mset valB" for zs
    proof (rule list.rel_cong [OF refl refl])
      fix x z assume "x \<in> set valA" "z \<in> set zs"
      moreover from this have "z \<in> set valB" using mset_eq_setD [OF m] by simp
      ultimately show "rel_prod (=) ?R x z = rel_prod (=) json_sim x z"
        using IH [of "fst x" "snd x" "fst z" "snd z"] by (simp add: rel_prod_sel)
    qed
    ultimately show ?thesis by (auto simp: JObj json_sim_JObj)
  qed (auto simp: json_sim_JObj)
next
  case (2 valA)
  show ?case
  proof (cases b)
    case (JArr valB)
    have IH: "deepEqualIgnoreArrayOrder v w \<longleftrightarrow> json_sim v w" if "v \<in> set valA" "w \<in> set valB" for v w
      using that 2 JArr by (auto simp: list_all_iff)
    have "match_elems (map deepEqualIgnoreArrayOrder valA) valB \<longleftrightarrow> match_elems (map json_sim valA) valB"
      by (rule match_elems_cong) (rule IH)
    also have "\<dots> \<longleftrightarrow> (\<exists>zs. list_all2 json_sim valA zs \<and> mset zs = mset valB)"
      using match_elems_sound json_match_complete by blast
    finally show ?thesis
      by (auto simp: JArr json_sim_JArr) (metis list_all2_lengthD size_mset)+
  qed (auto simp: json_sim_JArr)
qed (auto intro: json_sim.sim_scalar elim: json_sim.cases)


section \<open>Properties\<close>

text \<open>C33: Writing a resource as JSON and reading the text back gives the resource itself up to
  what JSON cannot tell apart: the hints come back in the order of their keys, nil properties come
  back as null, empty read-only properties and patch documents come back as nil. It fails exactly
  when the properties are the empty message or one of the raw messages is not JSON.\<close>

theorem resource_text_roundtrip:
  "Option.bind (Resource_marshal r) Resource_unmarshal = stored_Resource r \<and>
   (Resource_marshal r = None \<longleftrightarrow> res_Properties r = RawEmpty \<or>
      (\<exists>s. RawInvalid s \<in> {res_Properties r, res_ReadOnlyProperties r, res_PatchDocument r}))"
proof
  show "Option.bind (Resource_marshal r) Resource_unmarshal = stored_Resource r"
    using Resource_unmarshal_marshal stored_Resource_None
    by (cases "Resource_marshal r") (simp_all, metis)
  have "marshal_raw p = None \<longleftrightarrow> p = RawEmpty \<or> (\<exists>s. p = RawInvalid s)" for p
    by (cases p) auto
  moreover have "raw_entry k p = None \<longleftrightarrow> (\<exists>s. p = RawInvalid s)" for k p
    by (cases p) auto
  ultimately show "Resource_marshal r = None \<longleftrightarrow> res_Properties r = RawEmpty \<or>
      (\<exists>s. RawInvalid s \<in> {res_Properties r, res_ReadOnlyProperties r, res_PatchDocument r})"
    unfolding Resource_marshal_None by (simp add: eq_commute [of "RawInvalid _"]) blast
qed

text \<open>The order-insensitive comparison of documents, which matches array elements greedily,
  decides the intended notion: it answers true exactly when the documents are equal after
  reordering arrays (and object entries) at every level.\<close>

theorem JsonEqualIgnoreArrayOrder_correct:
  assumes "json_wf a" "json_wf b"
  shows "JsonEqualIgnoreArrayOrder (RawJson a) (RawJson b) = Some (json_sim a b)"
  using deepEqual_sim [OF assms] by (simp add: JsonEqualIgnoreArrayOrder_def raw_len0_def)

theorem JsonEqualIgnoreArrayOrder_correct_witness:
  "json_sim (JArr [JArr [JNum 1, JNum 2], JArr [JNum 3], JArr [JNum 2, JNum 1]])
     (JArr [JArr [JNum 3], JArr [JNum 2, JNum 1], JArr [JNum 2, JNum 1]]) \<and>
   \<not> json_sim (JArr [JNum 1, JNum 1, JNum 2]) (JArr [JNum 1, JNum 2, JNum 2])"
proof -
  have e: "JsonEqualIgnoreArrayOrder
      (RawJson (JArr [JArr [JNum 1, JNum 2], JArr [JNum 3], JArr [JNum 2, JNum 1]]))
      (RawJson (JArr [JArr [JNum 3], JArr [JNum 2, JNum 1], JArr [JNum 2, JNum 1]])) = Some True"
    "JsonEqualIgnoreArrayOrder (RawJson (JArr [JNum 1, JNum 1, JNum 2]))
      (RawJson (JArr [JNum 1, JNum 2, JNum 2])) = Some False"
    by code_simp+
  show ?thesis
    using JsonEqualIgnoreArrayOrder_correct
        [of "JArr [JArr [JNum 1, JNum 2], JArr [JNum 3], JArr [JNum 2, JNum 1]]"
            "JArr [JArr [JNum 3], JArr [JNum 2, JNum 1], JArr [JNum 2, JNum 1]]"]
      JsonEqualIgnoreArrayOrder_correct
        [of "JArr [JNum 1, JNum 1, JNum 2]" "JArr [JNum 1, JNum 2, JNum 2]"]
    unfolding e by simp
qed


end
