(* ===== verification/Forma_Command.thy ===== *)
theory Forma_Command
  imports Stored_Json Messages
begin

text \<open>
  \<^verbatim>\<open>internal/metastructure/forma_command\<close> and \<^verbatim>\<open>internal/metastructure/config\<close>:
  a command a client has submitted, with its resource updates, and what storing and reading it
  back gives.
\<close>

datatype CommandState =
    CommandStateUnknown | CommandStateNotStarted | CommandStatePending | CommandStateInProgress
  | CommandStateFailed | CommandStateSuccess | CommandStateCancelInProgress
  | CommandStateCancelComplete

record FormaCommandConfig =
  cfg_Mode :: FormaApplyMode
  cfg_Force :: bool
  cfg_Simulate :: bool

record FormaCommand =
  fc_ID :: string
  fc_Forma :: Forma
  fc_State :: CommandState
  fc_StartTs :: go_time
  fc_ModifiedTs :: go_time
  fc_ResourceUpdates :: "ResourceUpdate list"
  fc_Config :: FormaCommandConfig
  fc_Command :: Command
  fc_ClientID :: string

text \<open>The fresh identifier and the two readings of the clock are arguments.\<close>

definition NewFormaCommand ::
  "string \<Rightarrow> go_time \<Rightarrow> go_time \<Rightarrow> Forma \<Rightarrow> FormaCommandConfig \<Rightarrow> Command \<Rightarrow> ResourceUpdate list \<Rightarrow>
   string \<Rightarrow> FormaCommand" where
  "NewFormaCommand newID now1 now2 forma formaCommandConfig command resourceUpdates clientID =
     \<lparr>fc_ID = newID, fc_Forma = forma, fc_State = CommandStateNotStarted, fc_StartTs = now1,
      fc_ModifiedTs = now2, fc_ResourceUpdates = resourceUpdates, fc_Config = formaCommandConfig,
      fc_Command = command, fc_ClientID = clientID\<rparr>"

text \<open>The string values of the enumerations, as they stand in the columns of the datastore.\<close>

fun command_state_string :: "CommandState \<Rightarrow> string" where
  "command_state_string CommandStateUnknown = ''Unknown''"
| "command_state_string CommandStateNotStarted = ''NotStarted''"
| "command_state_string CommandStatePending = ''Pending''"
| "command_state_string CommandStateInProgress = ''InProgress''"
| "command_state_string CommandStateFailed = ''Failed''"
| "command_state_string CommandStateSuccess = ''Success''"
| "command_state_string CommandStateCancelInProgress = ''CancelInProgress''"
| "command_state_string CommandStateCancelComplete = ''CancelComplete''"

fun command_string :: "Command \<Rightarrow> string" where
  "command_string CommandApply = ''apply''"
| "command_string CommandEval = ''eval''"
| "command_string CommandDestroy = ''destroy''"
| "command_string CommandSync = ''sync''"

text \<open>The command that reading back the stored text gives; \<open>None\<close> when it cannot be written.\<close>

definition stored_FormaCommand :: "FormaCommand \<Rightarrow> FormaCommand option" where
  "stored_FormaCommand c =
     (case (stored_Forma (fc_Forma c), those (map stored_ResourceUpdate (fc_ResourceUpdates c))) of
        (Some f, Some us) \<Rightarrow> Some (c\<lparr>fc_Forma := f, fc_ResourceUpdates := us\<rparr>)
      | _ \<Rightarrow> None)"

lemma stored_FormaCommand_SomeE:
  assumes "stored_FormaCommand c = Some d"
  obtains f us where "stored_Forma (fc_Forma c) = Some f"
    "those (map stored_ResourceUpdate (fc_ResourceUpdates c)) = Some us"
    "d = c\<lparr>fc_Forma := f, fc_ResourceUpdates := us\<rparr>"
  using assms by (auto simp: stored_FormaCommand_def split: option.splits)

lemma those_ResourceUpdate_idem:
  "those (map stored_ResourceUpdate us) = Some vs \<Longrightarrow> those (map stored_ResourceUpdate vs) = Some vs"
  by (erule those_idem [rotated]) (rule stored_ResourceUpdate_idem)

lemma stored_FormaCommand_idem:
  assumes "stored_FormaCommand c = Some d" shows "stored_FormaCommand d = Some d"
proof -
  obtain f us where "stored_Forma (fc_Forma c) = Some f"
    "those (map stored_ResourceUpdate (fc_ResourceUpdates c)) = Some us"
    "d = c\<lparr>fc_Forma := f, fc_ResourceUpdates := us\<rparr>"
    by (rule stored_FormaCommand_SomeE [OF assms])
  then show ?thesis
    by (simp add: stored_FormaCommand_def stored_Forma_idem [of "fc_Forma c"]
        those_ResourceUpdate_idem [of "fc_ResourceUpdates c"])
qed

lemma stored_FormaCommand_fields:
  assumes "stored_FormaCommand c = Some d"
  shows "fc_ID d = fc_ID c" "fc_State d = fc_State c" "fc_StartTs d = fc_StartTs c"
    "fc_ModifiedTs d = fc_ModifiedTs c" "fc_Config d = fc_Config c" "fc_Command d = fc_Command c"
    "fc_ClientID d = fc_ClientID c" "length (fc_ResourceUpdates d) = length (fc_ResourceUpdates c)"
proof -
  obtain f us where e: "those (map stored_ResourceUpdate (fc_ResourceUpdates c)) = Some us"
    "d = c\<lparr>fc_Forma := f, fc_ResourceUpdates := us\<rparr>"
    by (rule stored_FormaCommand_SomeE [OF assms])
  have "those (map stored_ResourceUpdate xs) = Some ys \<Longrightarrow> length ys = length xs" for xs ys
    by (induction xs arbitrary: ys) (auto split: option.splits)
  with e show "fc_ID d = fc_ID c" "fc_State d = fc_State c" "fc_StartTs d = fc_StartTs c"
    "fc_ModifiedTs d = fc_ModifiedTs c" "fc_Config d = fc_Config c" "fc_Command d = fc_Command c"
    "fc_ClientID d = fc_ClientID c" "length (fc_ResourceUpdates d) = length (fc_ResourceUpdates c)"
    by simp_all
qed

end
