(* ===== verification/Datastore.thy ===== *)
theory Datastore
  imports Forma_Command Resource_Labeler
begin

text \<open>
  \<^verbatim>\<open>internal/metastructure/datastore\<close>: the SQLite datastore. A table is the list of its
  rows, oldest first; a query is a function of the rows, and a statement returns the table it
  leaves. Where a query names no order the rows come in the order of the table, and where its
  \<^verbatim>\<open>ORDER BY\<close> leaves a tie the oldest row comes first. Texts compare bytewise, as
  SQLite's default collation does. The database executes every statement: connection failures
  are not modelled, constraint violations are. Fresh identifiers are arguments.
\<close>

section \<open>Tables\<close>

datatype ds_error =
    ErrMarshal
  | ErrUnmarshal
  | ErrCommandNotFound string
  | ErrNoCommandForClient string
  | ErrNoRows
  | ErrConstraint
  | ErrSyntax

record command_row =
  cr_command_id :: string
  cr_timestamp :: go_time
  cr_command :: string
  cr_state :: string
  cr_client_id :: string
  cr_agent_id :: string
  cr_data :: FormaCommand

record resource_row =
  rr_uri :: FormaeURI
  rr_version :: string
  rr_command_id :: string
  rr_operation :: OperationType
  rr_native_id :: string
  rr_stack :: string
  rr_type :: string
  rr_label :: string
  rr_target :: string
  rr_data :: json
  rr_managed :: int
  rr_ksuid :: string

record target_row =
  tr_label :: string
  tr_version :: int
  tr_namespace :: string
  tr_config :: raw

record datastore =
  ds_commands :: "command_row list"
  ds_resources :: "resource_row list"
  ds_targets :: "target_row list"
  ds_agentID :: string

definition NewDatastoreSQLite :: "string \<Rightarrow> datastore" where
  "NewDatastoreSQLite agentID =
     \<lparr>ds_commands = [], ds_resources = [], ds_targets = [], ds_agentID = agentID\<rparr>"

text \<open>\<^verbatim>\<open>INSERT OR REPLACE\<close>: a row with the same primary key goes, the new row is the
  youngest. A plain \<^verbatim>\<open>INSERT\<close> fails when the key is taken.\<close>

definition replace_into :: "('r \<Rightarrow> 'k) \<Rightarrow> 'r \<Rightarrow> 'r list \<Rightarrow> 'r list" where
  "replace_into key row rows = filter (\<lambda>r. key r \<noteq> key row) rows @ [row]"

definition insert_into :: "('r \<Rightarrow> 'k) \<Rightarrow> 'r \<Rightarrow> 'r list \<Rightarrow> 'r list option" where
  "insert_into key row rows = (if list_ex (\<lambda>r. key r = key row) rows then None else Some (rows @ [row]))"

definition rr_key :: "resource_row \<Rightarrow> FormaeURI \<times> string" where
  "rr_key r = (rr_uri r, rr_version r)"

text \<open>\<^verbatim>\<open>WHERE p ORDER BY version DESC LIMIT 1\<close>.\<close>

definition newer :: "resource_row \<Rightarrow> resource_row \<Rightarrow> resource_row" where
  "newer r best = (if rr_version best < rr_version r then r else best)"

definition latest_where :: "(resource_row \<Rightarrow> bool) \<Rightarrow> resource_row list \<Rightarrow> resource_row option" where
  "latest_where p rows = (case filter p rows of [] \<Rightarrow> None | r # rs \<Rightarrow> Some (fold newer rs r))"

text \<open>\<^verbatim>\<open>NOT EXISTS (SELECT 1 FROM resources r2 WHERE r1.uri = r2.uri AND r2.version > r1.version)\<close>,
  together with \<^verbatim>\<open>operation != 'delete'\<close>.\<close>

definition current_version :: "resource_row list \<Rightarrow> resource_row \<Rightarrow> bool" where
  "current_version rows r1 \<longleftrightarrow>
     \<not> list_ex (\<lambda>r2. rr_uri r1 = rr_uri r2 \<and> rr_version r1 < rr_version r2) rows"

definition live_rows :: "resource_row list \<Rightarrow> resource_row list" where
  "live_rows rows = filter (\<lambda>r. current_version rows r \<and> rr_operation r \<noteq> OperationDelete) rows"

definition load_row :: "resource_row \<Rightarrow> ds_error + Resource" where
  "load_row row = (case Resource_unmarshal (rr_data row) of
     None \<Rightarrow> Inl ErrUnmarshal | Some r \<Rightarrow> Inr (r\<lparr>res_Ksuid := rr_ksuid row\<rparr>))"

fun load_rows :: "resource_row list \<Rightarrow> ds_error + Resource list" where
  "load_rows [] = Inr []"
| "load_rows (row # rows) = (case load_row row of
     Inl e \<Rightarrow> Inl e
   | Inr r \<Rightarrow> (case load_rows rows of Inl e \<Rightarrow> Inl e | Inr rs \<Rightarrow> Inr (r # rs)))"

definition load_first :: "resource_row option \<Rightarrow> ds_error + Resource option" where
  "load_first ro = (case ro of None \<Rightarrow> Inr None
     | Some row \<Rightarrow> (case load_row row of Inl e \<Rightarrow> Inl e | Inr r \<Rightarrow> Inr (Some r)))"

text \<open>\<^verbatim>\<open>LOWER\<close> and the case-insensitive \<^verbatim>\<open>LIKE\<close> of SQLite.\<close>

definition lower_char :: "char \<Rightarrow> char" where
  "lower_char c = (if CHR ''A'' \<le> c \<and> c \<le> CHR ''Z'' then char_of ((of_char c :: nat) + 32) else c)"

definition sql_lower :: "string \<Rightarrow> string" where
  "sql_lower = map lower_char"

fun sql_like :: "string \<Rightarrow> string \<Rightarrow> bool" where
  "sql_like [] s \<longleftrightarrow> s = []"
| "sql_like (p # ps) [] \<longleftrightarrow> p = CHR ''%'' \<and> sql_like ps []"
| "sql_like (p # ps) (c # cs) \<longleftrightarrow>
     (if p = CHR ''%'' then sql_like ps (c # cs) \<or> sql_like (p # ps) cs
      else (p = CHR ''_'' \<or> lower_char p = lower_char c) \<and> sql_like ps cs)"

section \<open>Comparison of resources\<close>

definition resourcesAreEqual :: "Resource \<Rightarrow> Resource \<Rightarrow> bool \<times> bool" where
  "resourcesAreEqual resource1 resource2 =
     (\<not> (res_NativeID resource1 \<noteq> res_NativeID resource2 \<or> res_Stack resource1 \<noteq> res_Stack resource2 \<or>
         res_Type resource1 \<noteq> res_Type resource2 \<or> res_Label resource1 \<noteq> res_Label resource2) \<and>
      JsonEqualRaw (res_Properties resource1) (res_Properties resource2),
      JsonEqualRaw (res_ReadOnlyProperties resource1) (res_ReadOnlyProperties resource2))"

definition boolToInt :: "bool \<Rightarrow> int" where
  "boolToInt b = (if b then 1 else 0)"

definition filterProgressMessage :: "ProgressResult list \<Rightarrow> (ProgressResult \<Rightarrow> bool) \<Rightarrow> string" where
  "filterProgressMessage progressResults flt =
     (case find flt progressResults of None \<Rightarrow> '''' | Some p \<Rightarrow> pr_StatusMessage p)"

definition findFailureMessage :: "ProgressResult list \<Rightarrow> string" where
  "findFailureMessage progressResults =
     (let msg = filterProgressMessage progressResults (\<lambda>p. Failed p \<and> pr_StatusMessage p \<noteq> '''')
      in if msg \<noteq> '''' then msg
         else filterProgressMessage progressResults
           (\<lambda>p. pr_OperationStatus p = OperationStatusFailure \<and> pr_StatusMessage p \<noteq> ''''))"

section \<open>Commands\<close>

definition ClearCommandsTable :: "datastore \<Rightarrow> datastore" where
  "ClearCommandsTable d = d\<lparr>ds_commands := []\<rparr>"

definition StoreFormaCommand :: "datastore \<Rightarrow> FormaCommand \<Rightarrow> string \<Rightarrow> datastore \<times> (ds_error + unit)" where
  "StoreFormaCommand d fa commandID =
     (case stored_FormaCommand fa of
        None \<Rightarrow> (d, Inl ErrMarshal)
      | Some data \<Rightarrow>
          (d\<lparr>ds_commands := replace_into cr_command_id
             \<lparr>cr_command_id = commandID, cr_timestamp = fc_StartTs fa,
              cr_command = command_string (fc_Command fa),
              cr_state = command_state_string (fc_State fa), cr_client_id = fc_ClientID fa,
              cr_agent_id = ds_agentID d, cr_data = data\<rparr> (ds_commands d)\<rparr>, Inr ()))"

definition LoadFormaCommands :: "datastore \<Rightarrow> FormaCommand list" where
  "LoadFormaCommands d = map cr_data (ds_commands d)"

definition LoadIncompleteFormaCommands :: "datastore \<Rightarrow> FormaCommand list" where
  "LoadIncompleteFormaCommands d = map cr_data (filter (\<lambda>r. cr_command r \<noteq> ''sync'' \<and>
     cr_state r = command_state_string CommandStateInProgress) (ds_commands d))"

definition DeleteFormaCommand :: "datastore \<Rightarrow> FormaCommand \<Rightarrow> string \<Rightarrow> datastore" where
  "DeleteFormaCommand d fa commandID =
     d\<lparr>ds_commands := filter (\<lambda>r. cr_command_id r \<noteq> commandID) (ds_commands d)\<rparr>"

definition GetFormaCommandByCommandID :: "datastore \<Rightarrow> string \<Rightarrow> ds_error + FormaCommand" where
  "GetFormaCommandByCommandID d commandID =
     (case find (\<lambda>r. cr_command_id r = commandID) (ds_commands d) of
        None \<Rightarrow> Inl (ErrCommandNotFound commandID)
      | Some r \<Rightarrow> Inr (cr_data r))"

text \<open>\<^verbatim>\<open>ORDER BY timestamp DESC\<close>.\<close>

definition by_timestamp_desc :: "command_row list \<Rightarrow> command_row list" where
  "by_timestamp_desc rows = sort_key (\<lambda>r. - cr_timestamp r) rows"

definition GetMostRecentFormaCommandByClientID :: "datastore \<Rightarrow> string \<Rightarrow> ds_error + FormaCommand" where
  "GetMostRecentFormaCommandByClientID d clientID =
     (case by_timestamp_desc (filter (\<lambda>r. cr_client_id r = clientID) (ds_commands d)) of
        [] \<Rightarrow> Inl (ErrNoCommandForClient clientID)
      | r # _ \<Rightarrow> Inr (cr_data r))"

record ResourceModification =
  rm_Stack :: string
  rm_Type :: string
  rm_Label :: string
  rm_Operation :: OperationType

text \<open>
  The join of commands and resources. The subquery for the last reconcile is null when there is
  none, and then no row compares as younger. The result is collected in a map, whose visiting
  order is \<open>ord\<close>.
\<close>

definition last_reconcile :: "datastore \<Rightarrow> go_time option" where
  "last_reconcile d =
     (case by_timestamp_desc (filter (\<lambda>r. cfg_Mode (fc_Config (cr_data r)) = FormaApplyModeReconcile)
             (ds_commands d)) of
        [] \<Rightarrow> None | r # _ \<Rightarrow> Some (cr_timestamp r))"

definition GetResourceModificationsSinceLastReconcile ::
  "(ResourceModification list \<Rightarrow> ResourceModification list) \<Rightarrow> datastore \<Rightarrow> string \<Rightarrow> ResourceModification list" where
  "GetResourceModificationsSinceLastReconcile ord d stack =
     ord (remdups (concat (map (\<lambda>t1. map
       (\<lambda>t2. \<lparr>rm_Stack = stack, rm_Type = rr_type t2, rm_Label = rr_label t2, rm_Operation = rr_operation t2\<rparr>)
       (filter (\<lambda>t2. cr_command_id t1 = rr_command_id t2 \<and>
          list_ex (\<lambda>r1. rr_stack r1 = stack \<and>
             \<not> list_ex (\<lambda>r2. rr_ksuid r1 = rr_ksuid r2 \<and> rr_version r1 < rr_version r2) (ds_resources d) \<and>
             rr_operation r1 \<noteq> OperationDelete) (ds_resources d) \<and>
          (case last_reconcile d of None \<Rightarrow> False | Some ts \<Rightarrow> ts < cr_timestamp t1) \<and>
          rr_stack t2 = stack) (ds_resources d))) (ds_commands d))))"

section \<open>Queries with constraints\<close>

datatype QueryItemConstraint = ConstraintUnset | Optional | Required | Excluded

record 'a QueryItem =
  qi_Item :: 'a
  qi_Constraint :: QueryItemConstraint

text \<open>
  A condition under construction: \<open>None\<close> when the text is no SQL any more, which is what an item
  whose constraint was never set produces. \<open>sqlPart\<close> is the added condition, a function of the
  operator.
\<close>

definition extendSQLiteQueryString ::
  "('r \<Rightarrow> bool) option \<Rightarrow> 'a QueryItem option \<Rightarrow> (('a \<Rightarrow> 'a \<Rightarrow> bool) \<Rightarrow> 'r \<Rightarrow> 'a \<Rightarrow> bool) \<Rightarrow> ('r \<Rightarrow> bool) option" where
  "extendSQLiteQueryString queryStr queryItem sqlPart =
     (case queryItem of
        None \<Rightarrow> queryStr
      | Some q \<Rightarrow>
          (if qi_Constraint q = Excluded
           then map_option (\<lambda>p r. p r \<and> sqlPart (\<noteq>) r (qi_Item q)) queryStr
           else if qi_Constraint q = Required \<or> qi_Constraint q = Optional
           then map_option (\<lambda>p r. p r \<and> sqlPart (=) r (qi_Item q)) queryStr
           else None))"

record StatusQuery =
  sq_CommandID :: "string QueryItem option"
  sq_ClientID :: "string QueryItem option"
  sq_Command :: "string QueryItem option"
  sq_Status :: "string QueryItem option"
  sq_Stack :: "string QueryItem option"
  sq_Managed :: "bool QueryItem option"
  sq_N :: int

definition DefaultFormaCommandsQueryLimit :: int where
  "DefaultFormaCommandsQueryLimit = 10"

definition QueryFormaCommands :: "datastore \<Rightarrow> StatusQuery \<Rightarrow> ds_error + FormaCommand list" where
  "QueryFormaCommands d query =
     (let q0 = Some (\<lambda>r. True);
          q1 = extendSQLiteQueryString q0 (sq_CommandID query) (\<lambda>op r x. op (cr_command_id r) x);
          q2 = extendSQLiteQueryString q1 (sq_ClientID query) (\<lambda>op r x. op (cr_client_id r) x);
          q3 = extendSQLiteQueryString q2 (sq_Command query)
                 (\<lambda>op r x. op (sql_lower (cr_command r)) (sql_lower x));
          q4 = (if sq_Command query = None
                then map_option (\<lambda>p r. p r \<and> cr_command r \<noteq> command_string CommandSync) q3 else q3);
          q5 = extendSQLiteQueryString q4 (sq_Stack query)
                 (\<lambda>op r x. list_ex (\<lambda>u. op (res_Stack (ru_Resource u)) x) (fc_ResourceUpdates (cr_data r)));
          q6 = extendSQLiteQueryString q5 (sq_Status query)
                 (\<lambda>op r x. op (sql_lower (cr_state r)) (sql_lower x));
          lim = (if sq_N query > 0 then min DefaultFormaCommandsQueryLimit (sq_N query)
                 else DefaultFormaCommandsQueryLimit)
      in case q6 of
           None \<Rightarrow> Inl ErrSyntax
         | Some p \<Rightarrow> Inr (map cr_data (take (nat lim) (by_timestamp_desc (filter p (ds_commands d))))))"

record ResourceQuery =
  rq_Stack :: "string QueryItem option"
  rq_Type :: "string QueryItem option"
  rq_Label :: "string QueryItem option"
  rq_Target :: "string QueryItem option"
  rq_LastChangeStatus :: "string QueryItem option"
  rq_NativeID :: "string QueryItem option"
  rq_Managed :: "bool QueryItem option"
  rq_N :: int

definition QueryResources :: "datastore \<Rightarrow> ResourceQuery \<Rightarrow> ds_error + Resource list" where
  "QueryResources d query =
     (let q1 = extendSQLiteQueryString (Some (\<lambda>r. current_version (ds_resources d) r \<and> rr_operation r \<noteq> OperationDelete))
                 (rq_NativeID query) (\<lambda>op r x. op (rr_native_id r) x);
          q2 = extendSQLiteQueryString q1 (rq_Stack query) (\<lambda>op r x. op (rr_stack r) x);
          q3 = extendSQLiteQueryString q2 (rq_Type query) (\<lambda>op r x. op (sql_lower (rr_type r)) (sql_lower x));
          q4 = extendSQLiteQueryString q3 (rq_Label query) (\<lambda>op r x. op (rr_label r) x);
          q5 = extendSQLiteQueryString q4 (rq_Target query) (\<lambda>op r x. op (rr_target r) x);
          q6 = extendSQLiteQueryString q5 (rq_Managed query) (\<lambda>op r x. op (rr_managed r = 1) x)
      in case q6 of
           None \<Rightarrow> Inl ErrSyntax
         | Some p \<Rightarrow> load_rows (sort_key (\<lambda>r. rr_type r) (sort_key rr_label (filter p (ds_resources d)))))"

section \<open>Resources\<close>

definition LoadResource :: "datastore \<Rightarrow> FormaeURI \<Rightarrow> ds_error + Resource option" where
  "LoadResource d uri =
     load_first (latest_where (\<lambda>r. rr_uri r = uri \<and> rr_operation r \<noteq> OperationDelete) (ds_resources d))"

definition LoadResourceByNativeID :: "datastore \<Rightarrow> string \<Rightarrow> ds_error + Resource option" where
  "LoadResourceByNativeID d nativeID =
     load_first (find (\<lambda>r. rr_native_id r = nativeID \<and> current_version (ds_resources d) r \<and>
       rr_operation r \<noteq> OperationDelete) (ds_resources d))"

definition LoadAllResources :: "datastore \<Rightarrow> ds_error + Resource list" where
  "LoadAllResources d = load_rows (live_rows (ds_resources d))"

definition LoadResourceById :: "datastore \<Rightarrow> string \<Rightarrow> ds_error + Resource option" where
  "LoadResourceById d ksuid =
     load_first (latest_where (\<lambda>r. rr_ksuid r = ksuid \<and> rr_operation r \<noteq> OperationDelete) (ds_resources d))"

text \<open>The row written for a resource, and the version identifier that is returned.\<close>

definition new_row :: "Resource \<Rightarrow> string \<Rightarrow> string \<Rightarrow> OperationType \<Rightarrow> json \<Rightarrow> resource_row" where
  "new_row resource version commandID operation data =
     \<lparr>rr_uri = res_URI resource, rr_version = version, rr_command_id = commandID,
      rr_operation = operation, rr_native_id = res_NativeID resource, rr_stack = res_Stack resource,
      rr_type = res_Type resource, rr_label = res_Label resource, rr_target = res_Target resource,
      rr_data = data, rr_managed = boolToInt (res_Managed resource), rr_ksuid = res_Ksuid resource\<rparr>"

definition version_id :: "string \<Rightarrow> string \<Rightarrow> string" where
  "version_id ksuid version = ksuid @ ''_'' @ version"

text \<open>
  The first lines of \<^verbatim>\<open>storeResource\<close>: a resource without KSUID gets the one stored
  under its URI, or a fresh one.
\<close>

definition ensure_ksuid :: "string \<Rightarrow> datastore \<Rightarrow> Resource \<Rightarrow> ds_error + Resource" where
  "ensure_ksuid newID d resource =
     (if res_Ksuid resource = '''' then
        (case LoadResource d (res_URI resource) of
           Inl e \<Rightarrow> Inl e
         | Inr (Some existing) \<Rightarrow> Inr (resource\<lparr>res_Ksuid := res_Ksuid existing\<rparr>)
         | Inr None \<Rightarrow> Inr (resource\<lparr>res_Ksuid := newID\<rparr>))
      else Inr resource)"

text \<open>
  The rest: no row with this native identifier and type, or a comparison with the youngest such
  row \<open>ex\<close>. The rows of an unmanaged resource are removed before the comparison.
\<close>

definition drop_unmanaged :: "resource_row \<Rightarrow> OperationType \<Rightarrow> datastore \<Rightarrow> datastore" where
  "drop_unmanaged ex operation d =
     (if rr_managed ex = 0 \<and> operation \<noteq> OperationDelete
      then d\<lparr>ds_resources := filter (\<lambda>r. rr_ksuid r \<noteq> rr_ksuid ex) (ds_resources d)\<rparr>
      else d)"

definition write_version ::
  "Resource \<Rightarrow> string \<Rightarrow> string \<Rightarrow> OperationType \<Rightarrow> json \<Rightarrow> datastore \<Rightarrow> datastore" where
  "write_version resource version commandID operation data d = d\<lparr>ds_resources :=
     replace_into rr_key (new_row resource version commandID operation data) (ds_resources d)\<rparr>"

definition store_changed ::
  "string \<Rightarrow> resource_row \<Rightarrow> Resource \<Rightarrow> json \<Rightarrow> string \<Rightarrow> OperationType \<Rightarrow> Resource \<Rightarrow> datastore \<Rightarrow>
   datastore \<times> (ds_error + string)" where
  "store_changed fresh ex resource data commandID operation existingResource d =
     (let readWriteEqual = fst (resourcesAreEqual resource existingResource);
          readOnlyEqual = snd (resourcesAreEqual resource existingResource);
          unchanged = (d, Inr (version_id (res_Ksuid resource) (rr_version ex)));
          newVersion = (if readWriteEqual \<and> \<not> readOnlyEqual then rr_version ex else fresh);
          written = (write_version resource newVersion commandID operation data d,
                     Inr (version_id (rr_ksuid ex) newVersion))
      in if operation = OperationDelete
         then case latest_where (\<lambda>r. rr_uri r = res_URI resource) (ds_resources d) of
                None \<Rightarrow> (d, Inl ErrNoRows)
              | Some l \<Rightarrow> if rr_operation l = OperationDelete then unchanged else written
         else if readWriteEqual \<and> readOnlyEqual then unchanged
         else written)"

definition store_resource ::
  "string \<Rightarrow> datastore \<Rightarrow> Resource \<Rightarrow> json \<Rightarrow> string \<Rightarrow> OperationType \<Rightarrow> datastore \<times> (ds_error + string)" where
  "store_resource fresh d resource data commandID operation =
     (case latest_where (\<lambda>r. rr_native_id r = res_NativeID resource \<and> rr_type r = res_Type resource)
             (ds_resources d) of
        None \<Rightarrow>
          (case insert_into rr_key (new_row resource fresh commandID operation data) (ds_resources d) of
             None \<Rightarrow> (d, Inl ErrConstraint)
           | Some rows \<Rightarrow> (d\<lparr>ds_resources := rows\<rparr>, Inr (version_id (res_Ksuid resource) fresh)))
      | Some ex \<Rightarrow>
          (case Resource_unmarshal (rr_data ex) of
             None \<Rightarrow> (drop_unmanaged ex operation d, Inl ErrUnmarshal)
           | Some existingResource \<Rightarrow>
               store_changed fresh ex resource data commandID operation existingResource
                 (drop_unmanaged ex operation d)))"

definition storeResource ::
  "string \<Rightarrow> string \<Rightarrow> datastore \<Rightarrow> Resource \<Rightarrow> json \<Rightarrow> string \<Rightarrow> OperationType \<Rightarrow> datastore \<times> (ds_error + string)" where
  "storeResource newID fresh d resource data commandID operation =
     (case ensure_ksuid newID d resource of
        Inl e \<Rightarrow> (d, Inl e)
      | Inr resource' \<Rightarrow> store_resource fresh d resource' data commandID operation)"

definition StoreResource ::
  "string \<Rightarrow> string \<Rightarrow> datastore \<Rightarrow> Resource \<Rightarrow> string \<Rightarrow> datastore \<times> (ds_error + string)" where
  "StoreResource newID fresh d resource commandID =
     (case Resource_marshal resource of
        None \<Rightarrow> (d, Inl ErrMarshal)
      | Some jsonData \<Rightarrow> storeResource newID fresh d resource jsonData commandID OperationUpdate)"

definition DeleteResource ::
  "string \<Rightarrow> string \<Rightarrow> datastore \<Rightarrow> Resource \<Rightarrow> string \<Rightarrow> datastore \<times> (ds_error + string)" where
  "DeleteResource newID fresh d resource commandID =
     storeResource newID fresh d resource (JObj []) commandID OperationDelete"

text \<open>Every store of a stack draws its own identifiers, here from a list of pairs.\<close>

fun StoreStack_loop ::
  "(string \<times> string) list \<Rightarrow> datastore \<Rightarrow> Resource list \<Rightarrow> string \<Rightarrow> string \<Rightarrow> datastore \<times> (ds_error + string)" where
  "StoreStack_loop ids d [] commandID ret = (d, Inr ret)"
| "StoreStack_loop ids d (r # rs) commandID ret =
     (case StoreResource (fst (hd ids)) (snd (hd ids)) d r commandID of
        (d', Inl e) \<Rightarrow> (d', Inl e)
      | (d', Inr v) \<Rightarrow> StoreStack_loop (tl ids) d' rs commandID v)"

definition StoreStack ::
  "(string \<times> string) list \<Rightarrow> datastore \<Rightarrow> Forma \<Rightarrow> string \<Rightarrow> datastore \<times> (ds_error + string)" where
  "StoreStack ids d stack commandID = StoreStack_loop ids d (forma_Resources stack) commandID ''''"

definition stack_resources :: "Resource list \<Rightarrow> (string \<times> Resource list) list" where
  "stack_resources rs = fold (\<lambda>r m. if res_Stack r \<noteq> ''''
     then AList.update (res_Stack r) ((case map_of m (res_Stack r) of None \<Rightarrow> [] | Some l \<Rightarrow> l) @ [r]) m
     else m) rs []"

definition LoadAllStacks :: "(string list \<Rightarrow> string list) \<Rightarrow> datastore \<Rightarrow> ds_error + Forma list" where
  "LoadAllStacks ord d = (case load_rows (live_rows (ds_resources d)) of
     Inl e \<Rightarrow> Inl e
   | Inr allResources \<Rightarrow>
       let m = stack_resources allResources
       in Inr (map FormaFromResources (filter (\<lambda>l. length l > 0)
            (map (\<lambda>k. the (map_of m k)) (ord (map fst m))))))"

definition LoadStack :: "datastore \<Rightarrow> string \<Rightarrow> ds_error + Forma option" where
  "LoadStack d stackLabel =
     (case load_rows (filter (\<lambda>r. rr_stack r = stackLabel) (live_rows (ds_resources d))) of
        Inl e \<Rightarrow> Inl e
      | Inr allResources \<Rightarrow>
          let stackResources = filter (\<lambda>r. res_Stack r = stackLabel) allResources
          in if length stackResources = 0 then Inr None
             else Inr (Some (FormaFromResources stackResources)))"

definition LatestLabelForResource :: "datastore \<Rightarrow> string \<Rightarrow> string" where
  "LatestLabelForResource d label =
     (case filter (\<lambda>l. l = label \<or> sql_like (label @ ''-%'') l) (map rr_label (ds_resources d)) of
        [] \<Rightarrow> ''''
      | l # ls \<Rightarrow> fold (\<lambda>x best. if length best < length x \<or> (length best = length x \<and> best < x)
                          then x else best) ls l)"

definition GetKSUIDByTriplet :: "datastore \<Rightarrow> string \<Rightarrow> string \<Rightarrow> string \<Rightarrow> string" where
  "GetKSUIDByTriplet d stack label resourceType =
     (case latest_where (\<lambda>r. rr_stack r = stack \<and> rr_label r = label \<and>
             sql_lower (rr_type r) = sql_lower resourceType \<and> rr_operation r \<noteq> OperationDelete)
             (ds_resources d) of
        None \<Rightarrow> '''' | Some r \<Rightarrow> rr_ksuid r)"

definition rr_triplet :: "resource_row \<Rightarrow> TripletKey" where
  "rr_triplet r = \<lparr>tk_Stack = rr_stack r, tk_Label = rr_label r, tk_Type = rr_type r\<rparr>"

definition BatchGetKSUIDsByTriplets :: "datastore \<Rightarrow> TripletKey list \<Rightarrow> (TripletKey \<times> string) list" where
  "BatchGetKSUIDsByTriplets d triplets =
     (if length triplets = 0 then []
      else fold (\<lambda>r m. AList.update (rr_triplet r) (rr_ksuid r) m)
        (filter (\<lambda>r1. rr_triplet r1 \<in> set triplets \<and>
           \<not> list_ex (\<lambda>r2. rr_triplet r1 = rr_triplet r2 \<and> rr_version r1 < rr_version r2) (ds_resources d))
         (ds_resources d)) [])"

definition BatchGetTripletsByKSUIDs :: "datastore \<Rightarrow> string list \<Rightarrow> (string \<times> TripletKey) list" where
  "BatchGetTripletsByKSUIDs d ksuids =
     (if length ksuids = 0 then []
      else fold (\<lambda>r m. AList.update (rr_ksuid r) (rr_triplet r) m)
        (filter (\<lambda>r1. rr_ksuid r1 \<in> set ksuids \<and>
           \<not> list_ex (\<lambda>r2. rr_ksuid r1 = rr_ksuid r2 \<and> rr_version r1 < rr_version r2) (ds_resources d))
         (ds_resources d)) [])"

section \<open>Targets\<close>

definition row_target :: "target_row \<Rightarrow> Target" where
  "row_target r = \<lparr>tgt_Label = tr_label r, tgt_Namespace = tr_namespace r, tgt_Config = tr_config r\<rparr>"

definition LoadTarget :: "datastore \<Rightarrow> string \<Rightarrow> Target option" where
  "LoadTarget d label = map_option row_target (find (\<lambda>r. tr_label r = label) (ds_targets d))"

definition StoreTarget :: "datastore \<Rightarrow> Target \<Rightarrow> datastore \<times> (ds_error + string)" where
  "StoreTarget d target =
     (if LoadTarget d (tgt_Label target) \<noteq> None then (d, Inr (tgt_Label target @ ''_1''))
      else case marshal_raw (tgt_Config target) of
             None \<Rightarrow> (d, Inl ErrMarshal)
           | Some jsonData \<Rightarrow>
               (d\<lparr>ds_targets := ds_targets d @ [\<lparr>tr_label = tgt_Label target, tr_version = 1,
                    tr_namespace = tgt_Namespace target, tr_config = RawJson jsonData\<rparr>]\<rparr>,
                Inr (tgt_Label target @ ''_1'')))"

definition LoadAllTargets :: "datastore \<Rightarrow> Target list" where
  "LoadAllTargets d = map row_target (ds_targets d)"

definition LoadTargetsByLabels :: "datastore \<Rightarrow> string list \<Rightarrow> Target list" where
  "LoadTargetsByLabels d targetNames =
     (if length targetNames = 0 then []
      else map row_target (filter (\<lambda>r. tr_label r \<in> set targetNames) (ds_targets d)))"

section \<open>Statistics\<close>

record Stats =
  st_Clients :: nat
  st_Commands :: "(string \<times> nat) list"
  st_States :: "(string \<times> nat) list"
  st_Stacks :: nat
  st_ManagedResources :: nat
  st_UnmanagedResources :: nat
  st_Targets :: nat
  st_ResourceTypes :: "(string \<times> nat) list"
  st_ResourceErrors :: "(string \<times> nat) list"

text \<open>\<^verbatim>\<open>SELECT k, COUNT( * ) ... GROUP BY k\<close>.\<close>

definition count_by :: "('r \<Rightarrow> string) \<Rightarrow> 'r list \<Rightarrow> (string \<times> nat) list" where
  "count_by key rows = map (\<lambda>k. (k, length (filter (\<lambda>r. key r = k) rows))) (remdups (map key rows))"

definition UnmanagedStack :: string where
  "UnmanagedStack = ''$unmanaged''"

definition resource_errors :: "FormaCommand list \<Rightarrow> string list" where
  "resource_errors commands = filter (\<lambda>m. m \<noteq> '''')
     (concat (map (\<lambda>c. map (\<lambda>ru. findFailureMessage (ru_ProgressResult ru)) (fc_ResourceUpdates c)) commands))"

definition ds_Stats :: "datastore \<Rightarrow> Stats" where
  "ds_Stats d =
     (let live = live_rows (ds_resources d);
          user = filter (\<lambda>r. cr_command r \<noteq> command_string CommandSync) (ds_commands d);
          managed = filter (\<lambda>r. rr_stack r \<noteq> UnmanagedStack) live
      in \<lparr>st_Clients = length (remdups (map cr_client_id (ds_commands d))),
          st_Commands = count_by cr_command user,
          st_States = count_by cr_state user,
          st_Stacks = length (remdups (map rr_stack managed)),
          st_ManagedResources = length managed,
          st_UnmanagedResources = length (filter (\<lambda>r. rr_stack r = UnmanagedStack) live),
          st_Targets = length (filter (\<lambda>t1. \<not> list_ex (\<lambda>t2. tr_label t1 = tr_label t2 \<and>
             tr_version t1 < tr_version t2) (ds_targets d)) (ds_targets d)),
          st_ResourceTypes = count_by rr_type live,
          st_ResourceErrors = count_by id (resource_errors (map cr_data
             (filter (\<lambda>r. cr_state r = command_state_string CommandStateFailed) (ds_commands d))))\<rparr>)"


end
