(* ===== verification/Datastore_Facts.thy ===== *)
theory Datastore_Facts
  imports Datastore
begin

text \<open>
  The laws of the datastore: its integrity invariant along every sequence of statements, and what
  loading returns after storing and deleting.
\<close>

section \<open>The youngest row\<close>

lemma fold_newer:
  "fold newer rs r \<in> insert r (set rs) \<and> (\<forall>q \<in> insert r (set rs). rr_version q \<le> rr_version (fold newer rs r))"
proof (induction rs arbitrary: r)
  case Nil
  then show ?case by simp
next
  case (Cons x rs)
  from Cons.IH [of "newer x r"] show ?case
    by (auto simp: newer_def split: if_splits)
qed

lemma latest_where_Some:
  assumes "latest_where p rows = Some r"
  shows "r \<in> set rows" "p r" "\<And>q. q \<in> set rows \<Longrightarrow> p q \<Longrightarrow> rr_version q \<le> rr_version r"
proof -
  obtain x xs where f: "filter p rows = x # xs" and r: "r = fold newer xs x"
    using assms by (auto simp: latest_where_def split: list.splits)
  have s: "insert x (set xs) = {q \<in> set rows. p q}"
    using arg_cong [OF f, of set] by simp
  from fold_newer [of xs x] s r show "r \<in> set rows" "p r"
    "\<And>q. q \<in> set rows \<Longrightarrow> p q \<Longrightarrow> rr_version q \<le> rr_version r"
    by blast+
qed

lemma latest_where_None [simp]: "latest_where p rows = None \<longleftrightarrow> (\<forall>r \<in> set rows. \<not> p r)"
proof -
  have "latest_where p rows = None \<longleftrightarrow> filter p rows = []"
    by (simp add: latest_where_def split: list.splits)
  then show ?thesis by (simp add: filter_empty_conv)
qed

text \<open>The youngest row is determined by its version when only one candidate carries it.\<close>

lemma latest_where_eqI:
  assumes "r \<in> set rows" "p r" "\<And>q. q \<in> set rows \<Longrightarrow> p q \<Longrightarrow> q \<noteq> r \<Longrightarrow> rr_version q < rr_version r"
  shows "latest_where p rows = Some r"
proof (cases "latest_where p rows")
  case None
  then show ?thesis using assms(1,2) by auto
next
  case (Some s)
  then show ?thesis
    using latest_where_Some [OF Some] assms by (metis leD)
qed

section \<open>Integrity\<close>

definition row_ok :: "resource_row \<Rightarrow> bool" where
  "row_ok row \<longleftrightarrow> rr_uri row = NewFormaeURI (rr_ksuid row) '''' \<and>
     (if rr_operation row = OperationDelete then rr_data row = JObj []
      else \<exists>r. Resource_unmarshal (rr_data row) = Some r \<and> res_NativeID r = rr_native_id row \<and>
        res_Stack r = rr_stack row \<and> res_Type r = rr_type row \<and> res_Label r = rr_label row \<and>
        res_Target r = rr_target row \<and> boolToInt (res_Managed r) = rr_managed row)"

definition ds_ok :: "datastore \<Rightarrow> bool" where
  "ds_ok d \<longleftrightarrow> distinct (map cr_command_id (ds_commands d)) \<and> distinct (map rr_key (ds_resources d)) \<and>
     distinct (map tr_label (ds_targets d)) \<and> (\<forall>row \<in> set (ds_resources d). row_ok row) \<and>
     (\<forall>row \<in> set (ds_commands d). stored_FormaCommand (cr_data row) = Some (cr_data row) \<and>
        cr_state row = command_state_string (fc_State (cr_data row)))"

lemma ds_okD:
  assumes "ds_ok d"
  shows "distinct (map rr_key (ds_resources d))" "\<And>row. row \<in> set (ds_resources d) \<Longrightarrow> row_ok row"
  using assms by (auto simp: ds_ok_def)

lemma ds_ok_New: "ds_ok (NewDatastoreSQLite agentID)"
  by (simp add: ds_ok_def NewDatastoreSQLite_def)

lemma distinct_replace_into:
  "distinct (map key rows) \<Longrightarrow> distinct (map key (replace_into key row rows))"
  by (auto simp: replace_into_def distinct_map_filter)

lemma set_replace_into:
  "set (replace_into key row rows) = insert row {r \<in> set rows. key r \<noteq> key row}"
  by (auto simp: replace_into_def)

lemma insert_into_Some:
  "insert_into key row rows = Some rows' \<longleftrightarrow> rows' = rows @ [row] \<and> key row \<notin> key ` set rows"
  by (simp add: insert_into_def list_ex_iff) (metis imageE image_eqI)

text \<open>Replacing the resource rows keeps the other tables.\<close>

lemma ds_ok_resources:
  assumes "ds_ok d" "distinct (map rr_key rows)" "\<forall>row \<in> set rows. row_ok row"
  shows "ds_ok (d\<lparr>ds_resources := rows\<rparr>)"
  using assms by (simp add: ds_ok_def)

lemma ds_ok_filter: "ds_ok d \<Longrightarrow> ds_ok (d\<lparr>ds_resources := filter p (ds_resources d)\<rparr>)"
  by (rule ds_ok_resources) (auto simp: ds_ok_def distinct_map_filter)

lemma ds_ok_replace:
  "ds_ok d \<Longrightarrow> row_ok row \<Longrightarrow> ds_ok (d\<lparr>ds_resources := replace_into rr_key row (ds_resources d)\<rparr>)"
  by (rule ds_ok_resources) (auto simp: set_replace_into distinct_replace_into ds_okD)

lemma row_ok_delete: "row_ok (new_row r v c OperationDelete (JObj []))"
  by (simp add: row_ok_def new_row_def res_URI_def)

lemma stored_Resource_fields:
  "stored_Resource r = Some s \<Longrightarrow> res_Label s = res_Label r \<and> res_Type s = res_Type r \<and>
     res_Stack s = res_Stack r \<and> res_Target s = res_Target r \<and> res_NativeID s = res_NativeID r \<and>
     res_Managed s = res_Managed r \<and> res_Ksuid s = res_Ksuid r"
  by (auto simp: stored_Resource_def split: option.splits)

text \<open>What the store may write: the empty object for a delete, the text of the resource otherwise.
  The KSUID may have been filled in after the text was made.\<close>

definition fits :: "Resource \<Rightarrow> json \<Rightarrow> OperationType \<Rightarrow> bool" where
  "fits r data operation \<longleftrightarrow> (if operation = OperationDelete then data = JObj []
     else \<exists>k. Resource_marshal (r\<lparr>res_Ksuid := k\<rparr>) = Some data)"

lemma row_ok_new:
  assumes "fits r data operation"
  shows "row_ok (new_row r v c operation data)"
proof (cases "operation = OperationDelete")
  case True
  then show ?thesis using assms row_ok_delete by (simp add: fits_def)
next
  case False
  then obtain k where m: "Resource_marshal (r\<lparr>res_Ksuid := k\<rparr>) = Some data"
    using assms by (auto simp: fits_def)
  then obtain s where s: "stored_Resource (r\<lparr>res_Ksuid := k\<rparr>) = Some s"
    using stored_Resource_None by fastforce
  with Resource_unmarshal_marshal [OF m] stored_Resource_fields [OF s] False show ?thesis
    by (simp add: row_ok_def new_row_def res_URI_def)
qed

lemma drop_unmanaged_ok: "ds_ok d \<Longrightarrow> ds_ok (drop_unmanaged ex operation d)"
  by (simp add: drop_unmanaged_def ds_ok_filter)

lemma write_version_ok: "ds_ok d \<Longrightarrow> fits r data operation \<Longrightarrow> ds_ok (write_version r v c operation data d)"
  unfolding write_version_def by (rule ds_ok_replace [OF _ row_ok_new])

lemma store_changed_cases:
  "fst (store_changed fresh ex r data c operation existing d) = d \<or>
   (\<exists>v. fst (store_changed fresh ex r data c operation existing d) = write_version r v c operation data d)"
  by (simp add: store_changed_def Let_def split: option.split) blast

lemma store_resource_ok:
  assumes "ds_ok d" "fits r data operation"
  shows "ds_ok (fst (store_resource fresh d r data c operation))"
proof (cases "latest_where (\<lambda>q. rr_native_id q = res_NativeID r \<and> rr_type q = res_Type r) (ds_resources d)")
  case None
  with assms show ?thesis
    by (auto simp: store_resource_def insert_into_Some image_iff intro!: ds_ok_resources row_ok_new
        intro: ds_okD split: option.splits simp del: latest_where_None)
next
  case (Some ex)
  then show ?thesis
    using store_changed_cases drop_unmanaged_ok [OF assms(1)] write_version_ok [OF _ assms(2)]
    by (simp add: store_resource_def split: option.split) metis
qed

lemma ensure_ksuid_Inr: "ensure_ksuid newID d r = Inr r' \<Longrightarrow> r'\<lparr>res_Ksuid := res_Ksuid r\<rparr> = r"
  by (auto simp: ensure_ksuid_def split: if_splits sum.splits option.splits)

lemma storeResource_ok:
  assumes "ds_ok d" "\<And>k. fits (r\<lparr>res_Ksuid := k\<rparr>) data operation"
  shows "ds_ok (fst (storeResource newID fresh d r data c operation))"
proof (cases "ensure_ksuid newID d r")
  case (Inl e)
  then show ?thesis using assms(1) by (simp add: storeResource_def)
next
  case (Inr r')
  then have "r' = r\<lparr>res_Ksuid := res_Ksuid r'\<rparr>"
    using ensure_ksuid_Inr [OF Inr] by (metis Resource.surjective Resource.update_convs(12) )
  then show ?thesis
    using store_resource_ok [OF assms(1) assms(2)] Inr by (metis storeResource_def sum.case(2))
qed

lemma StoreResource_ok:
  assumes "ds_ok d" shows "ds_ok (fst (StoreResource newID fresh d r c))"
proof (cases "Resource_marshal r")
  case None
  then show ?thesis using assms by (simp add: StoreResource_def)
next
  case (Some data)
  then have "fits (r\<lparr>res_Ksuid := k\<rparr>) data OperationUpdate" for k
    by (auto simp: fits_def intro!: exI [of _ "res_Ksuid r"])
  from storeResource_ok [OF assms this] Some show ?thesis
    by (simp add: StoreResource_def)
qed

lemma DeleteResource_ok: "ds_ok d \<Longrightarrow> ds_ok (fst (DeleteResource newID fresh d r c))"
  by (simp add: DeleteResource_def storeResource_ok fits_def)

lemma StoreStack_loop_ok: "ds_ok d \<Longrightarrow> ds_ok (fst (StoreStack_loop ids d rs c ret))"
proof (induction rs arbitrary: ids d ret)
  case Nil
  then show ?case by simp
next
  case (Cons r rs)
  then show ?case
    using StoreResource_ok [OF Cons.prems, of "fst (hd ids)" "snd (hd ids)" r c]
    by (auto split: prod.split sum.split)
qed

lemma StoreFormaCommand_ok: "ds_ok d \<Longrightarrow> ds_ok (fst (StoreFormaCommand d fa c))"
  by (auto simp: StoreFormaCommand_def ds_ok_def set_replace_into distinct_replace_into
      stored_FormaCommand_idem stored_FormaCommand_fields split: option.split)

lemma StoreTarget_ok: "ds_ok d \<Longrightarrow> ds_ok (fst (StoreTarget d t))"
  by (auto simp: StoreTarget_def LoadTarget_def ds_ok_def find_None_iff split: option.split)

section \<open>Sequences of statements\<close>

datatype ds_stmt =
    SStoreFormaCommand FormaCommand string
  | SDeleteFormaCommand FormaCommand string
  | SClearCommands
  | SStoreResource string string Resource string
  | SDeleteResource string string Resource string
  | SStoreStack "(string \<times> string) list" Forma string
  | SStoreTarget Target

fun exec_stmt :: "ds_stmt \<Rightarrow> datastore \<Rightarrow> datastore" where
  "exec_stmt (SStoreFormaCommand fa c) d = fst (StoreFormaCommand d fa c)"
| "exec_stmt (SDeleteFormaCommand fa c) d = DeleteFormaCommand d fa c"
| "exec_stmt SClearCommands d = ClearCommandsTable d"
| "exec_stmt (SStoreResource i v r c) d = fst (StoreResource i v d r c)"
| "exec_stmt (SDeleteResource i v r c) d = fst (DeleteResource i v d r c)"
| "exec_stmt (SStoreStack ids f c) d = fst (StoreStack ids d f c)"
| "exec_stmt (SStoreTarget t) d = fst (StoreTarget d t)"

lemma exec_stmt_ok: "ds_ok d \<Longrightarrow> ds_ok (exec_stmt s d)"
proof (cases s)
  case (SDeleteFormaCommand fa c)
  moreover assume "ds_ok d"
  ultimately show ?thesis by (auto simp: DeleteFormaCommand_def ds_ok_def distinct_map_filter)
next
  case SClearCommands
  moreover assume "ds_ok d"
  ultimately show ?thesis by (simp add: ClearCommandsTable_def ds_ok_def)
qed (simp_all add: StoreFormaCommand_ok StoreResource_ok DeleteResource_ok StoreStack_def
    StoreStack_loop_ok StoreTarget_ok)

interpretation db: invariant_machine "\<lambda>d. \<exists>a. d = NewDatastoreSQLite a" "\<lambda>d s d'. d' = exec_stmt s d" ds_ok
  by unfold_locales (auto simp: ds_ok_New exec_stmt_ok)

section \<open>Live rows\<close>

lemma live_rows_distinct:
  assumes "distinct (map rr_key rows)" shows "distinct (map rr_uri (live_rows rows))"
proof -
  have "inj_on rr_uri (set (live_rows rows))"
  proof (rule inj_onI)
    fix r s assume rs: "r \<in> set (live_rows rows)" "s \<in> set (live_rows rows)" "rr_uri r = rr_uri s"
    then have "\<not> rr_version r < rr_version s" "\<not> rr_version s < rr_version r"
      by (auto simp: live_rows_def current_version_def list_ex_iff)
    then have "rr_key r = rr_key s" using rs(3) by (simp add: rr_key_def)
    then show "r = s"
      using assms rs(1,2) by (auto simp: live_rows_def distinct_map dest: inj_onD)
  qed
  then show ?thesis
    using assms by (auto simp: distinct_map live_rows_def)
qed

lemma row_ok_load: "row_ok row \<Longrightarrow> rr_operation row \<noteq> OperationDelete \<Longrightarrow>
  \<exists>r. load_row row = Inr r \<and> res_Ksuid r = rr_ksuid row \<and> res_Stack r = rr_stack row \<and>
    res_Label r = rr_label row \<and> res_Type r = rr_type row \<and> res_NativeID r = rr_native_id row"
  by (auto simp: row_ok_def load_row_def)

lemma load_rows_ok:
  "\<forall>row \<in> set rows. row_ok row \<and> rr_operation row \<noteq> OperationDelete \<Longrightarrow>
   \<exists>rs. load_rows rows = Inr rs \<and> map res_Ksuid rs = map rr_ksuid rows \<and> list_all2 (\<lambda>row r. load_row row = Inr r) rows rs"
proof (induction rows)
  case Nil
  then show ?case by simp
next
  case (Cons row rows)
  then obtain rs where "load_rows rows = Inr rs" "map res_Ksuid rs = map rr_ksuid rows"
    "list_all2 (\<lambda>row r. load_row row = Inr r) rows rs" by auto
  moreover obtain r where "load_row row = Inr r" "res_Ksuid r = rr_ksuid row"
    using Cons.prems row_ok_load [of row] by auto
  ultimately show ?case by simp
qed

lemma distinct_ksuids:
  assumes "distinct (map rr_uri rows)" "\<forall>row \<in> set rows. row_ok row"
  shows "distinct (map rr_ksuid rows)"
proof -
  have "map rr_uri rows = map (\<lambda>k. NewFormaeURI k '''') (map rr_ksuid rows)"
    using assms(2) by (auto simp: row_ok_def)
  with assms(1) show ?thesis by (metis distinct_map)
qed


section \<open>Storing and loading\<close>

lemma json_DeepEqual_refl: "json_wf j \<Longrightarrow> json_DeepEqual j j"
proof (induction j rule: json_DeepEqual.induct)
  case (1 xs)
  then show ?case by (auto simp: list_all_iff list_all2_conv_all_nth)
next
  case (2 kvs)
  then have "map_of kvs k = Some v \<and> json_DeepEqual v v" if "(k, v) \<in> set kvs" for k v
    using that by (fastforce simp: list_all_iff)
  then show ?case by (fastforce simp: list_all_iff)
qed simp_all

text \<open>Resources whose stored form compares as equal to them: the properties are a JSON document,
  the read-only properties are absent or one, and the patch document can be written.\<close>

definition comparable :: "Resource \<Rightarrow> bool" where
  "comparable r \<longleftrightarrow> (\<exists>p. res_Properties r = RawJson p \<and> json_wf p) \<and>
     (res_ReadOnlyProperties r = RawNil \<or> (\<exists>p. res_ReadOnlyProperties r = RawJson p \<and> json_wf p)) \<and>
     (\<forall>s. res_PatchDocument r \<noteq> RawInvalid s)"

lemma comparable_marshal:
  assumes "comparable r"
  obtains data l where "Resource_marshal r = Some data" "Resource_unmarshal data = Some l"
    "resourcesAreEqual r l = (True, True)"
proof -
  have "stored_raw_omit (res_PatchDocument r) \<noteq> None"
    using assms by (cases "res_PatchDocument r") (auto simp: comparable_def)
  then obtain s where s: "stored_Resource r = Some s" and p: "res_Properties s = res_Properties r"
    "res_ReadOnlyProperties s = res_ReadOnlyProperties r"
    using assms by (auto simp: comparable_def stored_Resource_def)
  from s obtain data where data: "Resource_marshal r = Some data"
    using stored_Resource_None by (metis not_Some_eq)
  moreover have "resourcesAreEqual r s = (True, True)"
    using assms stored_Resource_fields [OF s]
    by (auto simp: resourcesAreEqual_def p comparable_def JsonEqualRaw_def raw_len0_def json_DeepEqual_refl)
  ultimately show ?thesis
    using that Resource_unmarshal_marshal [OF data] s by metis
qed

text \<open>\<open>row\<close> is the youngest row of the resource and carries its content.\<close>

definition stored_as :: "Resource \<Rightarrow> resource_row list \<Rightarrow> resource_row \<Rightarrow> bool" where
  "stored_as r rows row \<longleftrightarrow> row \<in> set rows \<and> rr_uri row = res_URI r \<and>
     rr_native_id row = res_NativeID r \<and> rr_type row = res_Type r \<and> rr_operation row \<noteq> OperationDelete \<and>
     (\<forall>q \<in> set rows. rr_uri q = res_URI r \<longrightarrow> q \<noteq> row \<longrightarrow> rr_version q < rr_version row) \<and>
     (\<exists>l. Resource_unmarshal (rr_data row) = Some l \<and> resourcesAreEqual r l = (True, True))"

text \<open>The rows of a resource are those with its native identifier and type.\<close>

definition identified :: "Resource \<Rightarrow> resource_row list \<Rightarrow> bool" where
  "identified r rows \<longleftrightarrow> (\<forall>row \<in> set rows. rr_uri row = res_URI r \<longleftrightarrow>
     rr_native_id row = res_NativeID r \<and> rr_type row = res_Type r)"

lemma stored_as_LoadResource:
  assumes "stored_as r (ds_resources d) row"
  shows "LoadResource d (res_URI r) = load_first (Some row)"
proof -
  have "latest_where (\<lambda>q. rr_uri q = res_URI r \<and> rr_operation q \<noteq> OperationDelete) (ds_resources d) = Some row"
    using assms by (intro latest_where_eqI) (auto simp: stored_as_def)
  then show ?thesis by (simp add: LoadResource_def)
qed

lemma row_ok_uri: "row_ok row \<Longrightarrow> rr_uri row = res_URI r \<longleftrightarrow> rr_ksuid row = res_Ksuid r"
  by (simp add: row_ok_def res_URI_def)

lemma stored_as_LoadResourceById:
  assumes "stored_as r (ds_resources d) row" "ds_ok d"
  shows "LoadResourceById d (res_Ksuid r) = load_first (Some row)"
proof -
  have "latest_where (\<lambda>q. rr_ksuid q = res_Ksuid r \<and> rr_operation q \<noteq> OperationDelete) (ds_resources d) = Some row"
    using assms row_ok_uri [OF ds_okD(2) [OF assms(2)], of _ r]
    by (intro latest_where_eqI) (auto simp: stored_as_def)
  then show ?thesis by (simp add: LoadResourceById_def)
qed

lemma stored_as_latest:
  assumes "stored_as r rows row" "identified r rows"
  shows "latest_where (\<lambda>q. rr_native_id q = res_NativeID r \<and> rr_type q = res_Type r) rows = Some row"
  using assms by (intro latest_where_eqI) (auto simp: stored_as_def identified_def)

lemma new_row_simps [simp]:
  "rr_uri (new_row r v c op data) = res_URI r" "rr_version (new_row r v c op data) = v"
  "rr_native_id (new_row r v c op data) = res_NativeID r" "rr_type (new_row r v c op data) = res_Type r"
  "rr_operation (new_row r v c op data) = op" "rr_data (new_row r v c op data) = data"
  "rr_ksuid (new_row r v c op data) = res_Ksuid r" "rr_managed (new_row r v c op data) = boolToInt (res_Managed r)"
  "rr_key (new_row r v c op data) = (res_URI r, v)"
  by (simp_all add: new_row_def rr_key_def)

lemma stored_as_write:
  assumes "Resource_unmarshal data = Some l" "resourcesAreEqual r l = (True, True)"
    "\<And>q. q \<in> set rows \<Longrightarrow> rr_uri q = res_URI r \<Longrightarrow> rr_version q \<le> v"
  shows "stored_as r (replace_into rr_key (new_row r v c OperationUpdate data) rows) (new_row r v c OperationUpdate data)"
  using assms unfolding stored_as_def set_replace_into by (force simp: rr_key_def)

lemma Resource_unmarshal_empty [simp]: "Resource_unmarshal (JObj []) = Some zero_Resource"
  by (simp add: Resource_unmarshal_def field_defs zero_Resource_def)


lemma identified_write:
  "identified r rows \<Longrightarrow> identified r (replace_into rr_key (new_row r v c op data) rows)"
  by (auto simp: identified_def set_replace_into)

lemma replace_into_fresh:
  "key row \<notin> key ` set rows \<Longrightarrow> replace_into key row rows = rows @ [row]"
  by (simp add: replace_into_def filter_id_conv) (metis image_eqI)

definition storable :: "datastore \<Rightarrow> Resource \<Rightarrow> string \<Rightarrow> bool" where
  "storable d r fresh \<longleftrightarrow> ds_ok d \<and> res_Ksuid r \<noteq> '''' \<and> res_NativeID r \<noteq> '''' \<and> comparable r \<and>
     identified r (ds_resources d) \<and>
     (\<forall>row \<in> set (ds_resources d). rr_version row < fresh \<and> (rr_uri row = res_URI r \<longrightarrow> rr_managed row \<noteq> 0))"

text \<open>The outcome of a successful store, and the two ways to reach it.\<close>

definition stores :: "datastore \<times> (ds_error + string) \<Rightarrow> Resource \<Rightarrow> bool" where
  "stores res r \<longleftrightarrow> (\<exists>d' row. res = (d', Inr (version_id (res_Ksuid r) (rr_version row))) \<and>
     stored_as r (ds_resources d') row \<and> identified r (ds_resources d') \<and>
     (res_Managed r \<longrightarrow> rr_managed row \<noteq> 0))"

lemma stores_write:
  assumes "identified r (ds_resources d)" "Resource_unmarshal data = Some l" "resourcesAreEqual r l = (True, True)"
    and "\<And>q. q \<in> set (ds_resources d) \<Longrightarrow> rr_uri q = res_URI r \<Longrightarrow> rr_version q \<le> v"
  shows "stores (write_version r v c OperationUpdate data d, Inr (version_id (res_Ksuid r) v)) r"
  unfolding stores_def
  using stored_as_write [OF assms(2-4), of "ds_resources d" c] identified_write [OF assms(1)]
  by (intro exI [of _ "write_version r v c OperationUpdate data d"] exI [of _ "new_row r v c OperationUpdate data"])
     (auto simp: write_version_def boolToInt_def)

lemma stores_unchanged:
  assumes "ds_ok d" "identified r (ds_resources d)" "res_NativeID r \<noteq> ''''"
    and ex: "ex \<in> set (ds_resources d)" "rr_uri ex = res_URI r" "rr_managed ex \<noteq> 0"
    and le: "\<And>q. q \<in> set (ds_resources d) \<Longrightarrow> rr_uri q = res_URI r \<Longrightarrow> rr_version q \<le> rr_version ex"
    and e: "Resource_unmarshal (rr_data ex) = Some e" "resourcesAreEqual r e = (True, True)"
  shows "stores (d, Inr (version_id (res_Ksuid r) (rr_version ex))) r"
proof -
  have "rr_operation ex \<noteq> OperationDelete"
    using ds_okD(2) [OF assms(1) ex(1)] e assms(3)
    by (auto simp: row_ok_def resourcesAreEqual_def zero_Resource_def split: if_splits)
  moreover have "rr_version q < rr_version ex"
    if "q \<in> set (ds_resources d)" "rr_uri q = res_URI r" "q \<noteq> ex" for q
    using le [OF that(1,2)] that ex ds_okD(1) [OF assms(1)]
    by (metis distinct_map inj_onD le_neq_trans rr_key_def)
  ultimately have "stored_as r (ds_resources d) ex"
    using ex assms(2) e by (auto simp: stored_as_def identified_def)
  with assms(2) ex(3) show ?thesis by (auto simp: stores_def)
qed

lemma StoreResource_stores:
  assumes "storable d r fresh"
  shows "stores (StoreResource newID fresh d r c) r"
proof -
  let ?rows = "ds_resources d" and ?p = "\<lambda>q. rr_native_id q = res_NativeID r \<and> rr_type q = res_Type r"
  have ok: "ds_ok d" and idt: "identified r ?rows" and new: "\<And>q. q \<in> set ?rows \<Longrightarrow> rr_version q < fresh"
    using assms by (auto simp: storable_def)
  obtain data l where m: "Resource_marshal r = Some data" "Resource_unmarshal data = Some l"
    "resourcesAreEqual r l = (True, True)"
    using assms comparable_marshal unfolding storable_def by blast
  then have eq: "StoreResource newID fresh d r c = store_resource fresh d r data c OperationUpdate"
    using assms by (simp add: StoreResource_def storeResource_def ensure_ksuid_def storable_def)
  note wr = stores_write [OF idt m(2,3)]
  show ?thesis
  proof (cases "latest_where ?p ?rows")
    case None
    have "(res_URI r, fresh) \<notin> rr_key ` set ?rows"
      using new by (auto simp: rr_key_def)
    then have "store_resource fresh d r data c OperationUpdate =
        (write_version r fresh c OperationUpdate data d, Inr (version_id (res_Ksuid r) fresh))"
      using None replace_into_fresh [of rr_key "new_row r fresh c OperationUpdate data" ?rows]
      by (auto simp: store_resource_def insert_into_def write_version_def list_ex_iff image_iff
          simp del: latest_where_None)
    with wr [of fresh] new show ?thesis by (simp add: eq less_imp_le)
  next
    case (Some ex)
    note ex = latest_where_Some [OF Some]
    have u: "rr_uri ex = res_URI r" using idt ex(1,2) by (simp add: identified_def)
    have k: "rr_ksuid ex = res_Ksuid r" using row_ok_uri ds_okD(2) [OF ok ex(1)] u by blast
    have mgd: "rr_managed ex \<noteq> 0" using assms ex(1) u by (auto simp: storable_def)
    have le: "rr_version q \<le> rr_version ex" if "q \<in> set ?rows" "rr_uri q = res_URI r" for q
      using ex(3) that idt by (simp add: identified_def)
    obtain e where e: "Resource_unmarshal (rr_data ex) = Some e"
      using ds_okD(2) [OF ok ex(1)] by (auto simp: row_ok_def split: if_splits)
    have st: "store_resource fresh d r data c OperationUpdate =
        store_changed fresh ex r data c OperationUpdate e d"
      by (simp add: store_resource_def Some e drop_unmanaged_def mgd)
    show ?thesis
    proof (cases "resourcesAreEqual r e = (True, True)")
      case True
      with stores_unchanged [OF ok idt _ ex(1) u mgd le e] assms show ?thesis
        by (simp add: eq st store_changed_def storable_def)
    next
      case False
      then have "store_changed fresh ex r data c OperationUpdate e d =
          (let v = if fst (resourcesAreEqual r e) \<and> \<not> snd (resourcesAreEqual r e) then rr_version ex else fresh
           in (write_version r v c OperationUpdate data d, Inr (version_id (res_Ksuid r) v)))"
        by (auto simp: store_changed_def k Let_def prod_eq_iff)
      with wr [of "rr_version ex"] wr [of fresh] le new show ?thesis
        by (simp add: eq st Let_def less_imp_le)
    qed
  qed
qed

lemma stores_again:
  assumes "stored_as r (ds_resources d) row" "identified r (ds_resources d)" "rr_managed row \<noteq> 0"
    "res_Ksuid r \<noteq> ''''" "comparable r"
  shows "StoreResource newID fresh d r c = (d, Inr (version_id (res_Ksuid r) (rr_version row)))"
proof -
  obtain data where "Resource_marshal r = Some data"
    using comparable_marshal [OF assms(5)] by blast
  moreover obtain l where "Resource_unmarshal (rr_data row) = Some l" "resourcesAreEqual r l = (True, True)"
    using assms(1) by (auto simp: stored_as_def)
  ultimately show ?thesis
    using stored_as_latest [OF assms(1,2)] assms(3,4)
    by (simp add: StoreResource_def storeResource_def ensure_ksuid_def store_resource_def
        drop_unmanaged_def store_changed_def)
qed

section \<open>Deleting\<close>

lemma DeleteResource_written:
  assumes "stored_as r (ds_resources d) row" "identified r (ds_resources d)" "ds_ok d" "res_Ksuid r \<noteq> ''''"
  shows "DeleteResource newID fresh d r c =
    (write_version r fresh c OperationDelete (JObj []) d, Inr (version_id (res_Ksuid r) fresh))"
proof -
  obtain l where l: "Resource_unmarshal (rr_data row) = Some l" "resourcesAreEqual r l = (True, True)"
    using assms(1) by (auto simp: stored_as_def)
  have row: "row \<in> set (ds_resources d)" "rr_uri row = res_URI r" "rr_operation row \<noteq> OperationDelete"
    using assms(1) by (auto simp: stored_as_def)
  have "latest_where (\<lambda>q. rr_uri q = res_URI r) (ds_resources d) = Some row"
    using assms(1) by (intro latest_where_eqI) (auto simp: stored_as_def)
  moreover have "rr_ksuid row = res_Ksuid r"
    using row_ok_uri ds_okD(2) [OF assms(3) row(1)] row(2) by blast
  ultimately show ?thesis
    using stored_as_latest [OF assms(1,2)] l row(3) assms(4)
    by (simp add: DeleteResource_def storeResource_def ensure_ksuid_def store_resource_def
        drop_unmanaged_def store_changed_def)
qed

lemma deleted_rows:
  assumes "\<forall>q \<in> set (ds_resources d). rr_version q < fresh"
  shows "\<forall>q \<in> set (live_rows (ds_resources (write_version r fresh c OperationDelete data d))). rr_uri q \<noteq> res_URI r"
proof
  let ?new = "new_row r fresh c OperationDelete data" and ?d' = "write_version r fresh c OperationDelete data d"
  fix q assume q: "q \<in> set (live_rows (ds_resources ?d'))"
  have "q \<noteq> ?new" using q by (auto simp: live_rows_def)
  then have "q \<in> set (ds_resources d)"
    using q by (auto simp: live_rows_def write_version_def set_replace_into)
  then have "rr_version q < rr_version ?new" using assms by simp
  moreover have "?new \<in> set (ds_resources ?d')" by (simp add: write_version_def set_replace_into)
  ultimately show "rr_uri q \<noteq> res_URI r"
    using q by (auto simp: live_rows_def current_version_def list_ex_iff)
qed

section \<open>Labels of discovered resources\<close>

text \<open>The order of the label query: longer first, then the greater text. On numbered labels it is
  the order of the numbers.\<close>

definition label_less :: "string \<Rightarrow> string \<Rightarrow> bool" where
  "label_less a b \<longleftrightarrow> length a < length b \<or> (length a = length b \<and> a < b)"

lemma list_less_append [simp]: "p @ a < p @ b \<longleftrightarrow> a < (b :: string)"
  by (induction p) auto

lemma list_less_snoc: "length a = length b \<Longrightarrow> a < b \<Longrightarrow> a @ [x] < b @ [y :: char]"
  by (induction a b rule: list_induct2) auto

lemma label_less_append [simp]: "label_less (p @ a) (p @ b) \<longleftrightarrow> label_less a b"
  by (auto simp: label_less_def)

lemma label_less_Cons [simp]: "label_less (x # a) (x # b) \<longleftrightarrow> label_less a b"
  using label_less_append [of "[x]"] by simp

lemma label_less_trans: "label_less a b \<Longrightarrow> label_less b c \<Longrightarrow> label_less a c"
  by (auto simp: label_less_def)

lemma label_less_total: "label_less a b \<or> a = b \<or> label_less b a"
  by (auto simp: label_less_def)

lemma label_less_irrefl [simp]: "\<not> label_less a a"
  by (simp add: label_less_def)

lemma label_less_snoc:
  "label_less a b \<Longrightarrow> label_less (a @ [x]) (b @ [y])"
  by (auto simp: label_less_def intro: list_less_snoc)

lemma digit_less: "m < n \<Longrightarrow> n < 10 \<Longrightarrow> (char_of (48 + m) :: char) < char_of (48 + (n :: nat))"
  by (simp add: less_char_def of_char_mod_256)

lemma nat_string_less: "m < n \<Longrightarrow> label_less (nat_string m) (nat_string n)"
proof (induction n arbitrary: m rule: nat_string.induct)
  case (1 n)
  show ?case
  proof (cases "n < 10")
    case True
    then show ?thesis
      using 1(2) digit_less [of m n] by (simp add: nat_string.simps [of n] nat_string.simps [of m] label_less_def)
  next
    case False
    show ?thesis
    proof (cases "m < 10")
      case True
      then show ?thesis
        using False is_digit_nat_string [of "n div 10"]
        by (auto simp: nat_string.simps [of n] nat_string.simps [of m] label_less_def)
    next
      case m: False
      consider "m div 10 < n div 10" | "m div 10 = n div 10" "m mod 10 < n mod 10"
        using 1(2) by (metis div_le_mono div_mult_mod_eq le_neq_implies_less less_imp_le_nat nat_add_left_cancel_less)
      then show ?thesis
      proof cases
        case 1
        then show ?thesis
          using "1.IH" [OF \<open>\<not> n < 10\<close>] False m by (simp add: nat_string.simps [of n] nat_string.simps [of m] label_less_snoc)
      next
        case 2
        then show ?thesis
          using False m digit_less [of "m mod 10" "n mod 10"]
          by (simp add: nat_string.simps [of n] nat_string.simps [of m] label_less_def)
      qed
    qed
  qed
qed

definition longer :: "string \<Rightarrow> string \<Rightarrow> string" where
  "longer x best = (if label_less best x then x else best)"

lemma fold_longer:
  "fold longer zs z \<in> insert z (set zs) \<and> (\<forall>q \<in> insert z (set zs). \<not> label_less (fold longer zs z) q)"
proof (induction zs arbitrary: z)
  case Nil
  then show ?case by simp
next
  case (Cons w zs)
  let ?m = "longer w z" and ?f = "fold longer zs (longer w z)"
  have IH: "?f \<in> insert ?m (set zs)" "\<not> label_less ?f ?m" "\<forall>q \<in> set zs. \<not> label_less ?f q"
    using Cons.IH [of ?m] by auto
  have m: "?m = w \<or> ?m = z" "\<not> label_less ?m w" "\<not> label_less ?m z"
    using label_less_trans [of z w z] by (auto simp: longer_def)
  have "\<not> label_less ?f w \<and> \<not> label_less ?f z"
    using m(2,3) IH(2) label_less_trans label_less_total [of ?f ?m] by metis
  with IH m(1) show ?case by auto
qed

lemma LatestLabel_max:
  fixes d label
  defines "cands \<equiv> {l \<in> set (map rr_label (ds_resources d)). l = label \<or> sql_like (label @ ''-%'') l}"
  assumes "x \<in> cands"
  shows "LatestLabelForResource d label \<in> cands" "\<not> label_less (LatestLabelForResource d label) x"
proof -
  let ?f = "filter (\<lambda>l. l = label \<or> sql_like (label @ ''-%'') l) (map rr_label (ds_resources d))"
  have s: "set ?f = cands" by (simp only: cands_def set_filter)
  then obtain y ys where ys: "?f = y # ys"
    using assms(2) by (metis empty_iff list.exhaust list.set(1))
  have "LatestLabelForResource d label = fold longer ys y"
    by (simp add: LatestLabelForResource_def ys longer_def [abs_def] label_less_def)
  then show "LatestLabelForResource d label \<in> cands" "\<not> label_less (LatestLabelForResource d label) x"
    using fold_longer [of ys y] s ys assms(2) by (metis list.set(2))+
qed

lemma sql_like_percent: "sql_like ps s \<Longrightarrow> sql_like (CHR ''%'' # ps) s"
  by (cases s) auto

lemma sql_like_self: "sql_like ps s \<Longrightarrow> sql_like (b @ ps) (b @ s)"
proof (induction b)
  case (Cons c b)
  then show ?case using sql_like_percent by auto
qed simp

lemma sql_like_any: "sql_like ''%'' s"
  by (induction s) auto

section \<open>Samples\<close>

definition sample_r :: Resource where
  "sample_r = zero_Resource\<lparr>res_Label := ''web'', res_Type := ''T'', res_Stack := ''s'', res_NativeID := ''n-1'',
     res_Ksuid := ''k1'', res_Managed := True, res_Properties := RawJson (JObj [(''a'', JNum 1)])\<rparr>"

definition sample_d0 :: datastore where
  "sample_d0 = NewDatastoreSQLite ''agent''"

definition sample_d1 :: datastore where
  "sample_d1 = fst (StoreResource ''id'' ''v1'' sample_d0 sample_r ''c1'')"

lemma sample_d1_reach: "db.reach sample_d1"
  unfolding sample_d1_def sample_d0_def
  by (rule db.reach_step [of "NewDatastoreSQLite ''agent''" _ "SStoreResource ''id'' ''v1'' sample_r ''c1''"])
     (auto intro: db.reach_start)

lemma sample_storable: "storable sample_d0 sample_r ''v1''"
  using ds_ok_New [of "''agent''"]
  by (simp add: storable_def sample_d0_def sample_r_def comparable_def zero_Resource_def
      identified_def) (simp add: NewDatastoreSQLite_def)

lemma sample_stored: "\<exists>row. stored_as sample_r (ds_resources sample_d1) row"
  "identified sample_r (ds_resources sample_d1)"
  using StoreResource_stores [OF sample_storable, of "''id''" "''c1''"]
  unfolding stores_def sample_d1_def by auto

section \<open>Properties\<close>

text \<open>C17: In every database that a sequence of statements can produce from the empty one, the keys of
  the three tables are unique, every row carries the URI of its KSUID, a delete row carries the
  empty object and every other row a text that decodes to a resource agreeing with the columns.
  Hence listing all resources always succeeds and lists no resource twice.\<close>

theorem datastore_integrity:
  assumes "db.reach d"
  shows "ds_ok d \<and> (\<exists>rs. LoadAllResources d = Inr rs \<and> distinct (map res_Ksuid rs) \<and>
    map res_Ksuid rs = map rr_ksuid (live_rows (ds_resources d)))"
proof -
  have ok: "ds_ok d" by (rule db.reach_inv [OF assms])
  have live: "\<forall>row \<in> set (live_rows (ds_resources d)). row_ok row \<and> rr_operation row \<noteq> OperationDelete"
    using ds_okD(2) [OF ok] by (auto simp: live_rows_def)
  then obtain rs where "LoadAllResources d = Inr rs"
    "map res_Ksuid rs = map rr_ksuid (live_rows (ds_resources d))"
    using load_rows_ok unfolding LoadAllResources_def by blast
  moreover have "distinct (map rr_ksuid (live_rows (ds_resources d)))"
    using distinct_ksuids live_rows_distinct ds_okD(1) [OF ok] live by blast
  ultimately show ?thesis using ok by metis
qed

theorem datastore_integrity_witness:
  "ds_ok sample_d1 \<and> (\<exists>rs. LoadAllResources sample_d1 = Inr rs \<and> distinct (map res_Ksuid rs) \<and>
     map res_Ksuid rs = [''k1''])"
proof -
  have "map rr_ksuid (live_rows (ds_resources sample_d1)) = [''k1'']"
    by code_simp
  with datastore_integrity [OF sample_d1_reach] show ?thesis by simp
qed



text \<open>Deleting a stored resource adds a delete version: no listing shows the resource any more.
  Loading it by URI, however, still returns the version from before the deletion, because that
  query leaves the delete versions out before it picks the youngest row.\<close>

theorem delete_hides_from_listings:
  assumes "stored_as r (ds_resources d) row" "identified r (ds_resources d)" "ds_ok d"
    "res_Ksuid r \<noteq> ''''" "\<forall>q \<in> set (ds_resources d). rr_version q < fresh"
  shows "\<exists>d' rs. DeleteResource newID fresh d r c = (d', Inr (version_id (res_Ksuid r) fresh)) \<and>
    LoadAllResources d' = Inr rs \<and> res_Ksuid r \<notin> res_Ksuid ` set rs \<and>
    (\<exists>l. LoadResource d' (res_URI r) = Inr (Some l) \<and> LoadResource d (res_URI r) = Inr (Some l))"
proof -
  let ?d' = "write_version r fresh c OperationDelete (JObj []) d"
  have ok: "ds_ok ?d'"
    by (rule write_version_ok [OF assms(3)]) (simp add: fits_def)
  then have live: "\<forall>q \<in> set (live_rows (ds_resources ?d')). row_ok q \<and> rr_operation q \<noteq> OperationDelete"
    using ds_okD(2) by (auto simp: live_rows_def)
  then obtain rs where rs: "LoadAllResources ?d' = Inr rs"
    "map res_Ksuid rs = map rr_ksuid (live_rows (ds_resources ?d'))"
    using load_rows_ok unfolding LoadAllResources_def by blast
  have "res_Ksuid r \<notin> rr_ksuid ` set (live_rows (ds_resources ?d'))"
    using deleted_rows [OF assms(5), of r c "JObj []"] live row_ok_uri [of _ r] by (metis imageE)
  then have "res_Ksuid r \<notin> res_Ksuid ` set rs"
    using arg_cong [OF rs(2), of set] by simp
  moreover have "latest_where (\<lambda>q. rr_uri q = res_URI r \<and> rr_operation q \<noteq> OperationDelete) (ds_resources ?d') = Some row"
    using assms(1,5)
    by (intro latest_where_eqI) (auto simp: stored_as_def write_version_def set_replace_into rr_key_def)
  then have "LoadResource ?d' (res_URI r) = load_first (Some row)"
    by (simp add: LoadResource_def)
  moreover obtain l where "load_first (Some row) = Inr (Some l)"
    using assms(1) by (auto simp: stored_as_def load_first_def load_row_def)
  ultimately show ?thesis
    using DeleteResource_written [OF assms(1-4)] rs(1) stored_as_LoadResource [OF assms(1)] by auto
qed


theorem delete_hides_from_listings_witness:
  "\<exists>d' rs l. DeleteResource ''id'' ''v2'' sample_d1 sample_r ''c2'' = (d', Inr ''k1_v2'') \<and>
     LoadAllResources d' = Inr rs \<and> ''k1'' \<notin> res_Ksuid ` set rs \<and> LoadResource d' (res_URI sample_r) = Inr (Some l)"
proof -
  obtain row where row: "stored_as sample_r (ds_resources sample_d1) row" using sample_stored(1) ..
  have "\<forall>q \<in> set (ds_resources sample_d1). rr_version q < ''v2''" by code_simp
  with delete_hides_from_listings [OF row sample_stored(2), of "''v2''" "''id''" "''c2''"]
    db.reach_inv [OF sample_d1_reach] show ?thesis
    by (fastforce simp: sample_r_def version_id_def)
qed

text \<open>Storing an unmanaged resource that is already stored with the same content returns its version
  as if nothing had happened, but removes the resource: the rows of an unmanaged resource are
  deleted before the comparison that finds it unchanged.\<close>

theorem unmanaged_store_again_loses:
  assumes "stored_as r (ds_resources d) row" "identified r (ds_resources d)" "ds_ok d" "comparable r"
    "res_Ksuid r \<noteq> ''''" "rr_managed row = 0"
  shows "\<exists>d'. StoreResource newID fresh d r c = (d', Inr (version_id (res_Ksuid r) (rr_version row))) \<and>
    LoadResource d' (res_URI r) = Inr None \<and> \<not> list_ex (\<lambda>q. rr_ksuid q = res_Ksuid r) (ds_resources d')"
proof -
  let ?d' = "drop_unmanaged row OperationUpdate d"
  obtain data where "Resource_marshal r = Some data"
    using comparable_marshal [OF assms(4)] by blast
  moreover obtain l where "Resource_unmarshal (rr_data row) = Some l" "resourcesAreEqual r l = (True, True)"
    using assms(1) by (auto simp: stored_as_def)
  ultimately have "StoreResource newID fresh d r c = (?d', Inr (version_id (res_Ksuid r) (rr_version row)))"
    using stored_as_latest [OF assms(1,2)] assms(5)
    by (simp add: StoreResource_def storeResource_def ensure_ksuid_def store_resource_def store_changed_def)
  moreover have k: "rr_ksuid row = res_Ksuid r"
    using row_ok_uri ds_okD(2) [OF assms(3)] assms(1) by (auto simp: stored_as_def)
  then have "\<not> list_ex (\<lambda>q. rr_ksuid q = res_Ksuid r) (ds_resources ?d')"
    using assms(6) by (simp add: drop_unmanaged_def list_ex_iff)
  moreover have "\<forall>q \<in> set (ds_resources ?d'). rr_uri q \<noteq> res_URI r"
    using k assms(6) row_ok_uri ds_okD(2) [OF assms(3)] by (auto simp: drop_unmanaged_def)
  then have "latest_where (\<lambda>q. rr_uri q = res_URI r \<and> rr_operation q \<noteq> OperationDelete) (ds_resources ?d') = None"
    by simp
  then have "LoadResource ?d' (res_URI r) = Inr None"
    by (simp add: LoadResource_def load_first_def del: latest_where_None)
  ultimately show ?thesis by blast
qed

theorem unmanaged_store_again_loses_witness:
  "\<exists>d'. StoreResource ''id'' ''v2'' (fst (StoreResource ''id'' ''v1'' sample_d0 (sample_r\<lparr>res_Managed := False\<rparr>) ''c1''))
       (sample_r\<lparr>res_Managed := False\<rparr>) ''c2'' = (d', Inr ''k1_v1'') \<and>
     LoadResource d' (res_URI sample_r) = Inr None"
proof -
  let ?r = "sample_r\<lparr>res_Managed := False\<rparr>" and ?d = "fst (StoreResource ''id'' ''v1'' sample_d0 (sample_r\<lparr>res_Managed := False\<rparr>) ''c1'')"
  have st: "storable sample_d0 ?r ''v1''"
    using sample_storable
    by (simp add: storable_def comparable_def identified_def res_URI_def)
  then obtain row where row: "stored_as ?r (ds_resources ?d) row" "identified ?r (ds_resources ?d)"
    using StoreResource_stores [OF st, of "''id''" "''c1''"] unfolding stores_def by auto
  have rows: "list_all (\<lambda>q. rr_managed q = 0 \<and> rr_version q = ''v1'') (ds_resources ?d)" by code_simp
  have "ds_ok ?d" using st StoreResource_ok by (simp add: storable_def)
  then show ?thesis
    using unmanaged_store_again_loses [OF row, of "''id''" "''v2''" "''c2''"] st rows row(1)
    by (auto simp: storable_def stored_as_def list_all_iff version_id_def sample_r_def res_URI_def)
qed


text \<open>The label given to a discovered resource is not in use, provided the base label does not end
  in a number and every stored label that the query takes for a relative of it is the base label
  followed by a number. Without the second condition the query, a \<^verbatim>\<open>LIKE\<close> match
  ordered by length, continues the label of an unrelated resource.\<close>

theorem discovered_label_fresh:
  assumes "base_label nativeID tags keys = b" "b \<noteq> ''''" "unversioned b"
    "\<forall>row \<in> set (ds_resources d). sql_like (b @ ''-%'') (rr_label row) \<longrightarrow>
       (\<exists>n. Suc n < 2 ^ 63 \<and> rr_label row = b @ ''-'' @ nat_string n)"
  shows "LabelForUnmanagedResource (\<lambda>l. Some (LatestLabelForResource d l)) nativeID tags keys
    \<notin> rr_label ` set (ds_resources d)"
proof -
  define cands where "cands = {l \<in> set (map rr_label (ds_resources d)). l = b \<or> sql_like (b @ ''-%'') l}"
  have rel: "b @ ''-'' @ s \<in> cands" if "b @ ''-'' @ s \<in> rr_label ` set (ds_resources d)" for s
    using that sql_like_self [of "''-%''" "''-'' @ s" b] sql_like_any [of s] by (auto simp: cands_def)
  show ?thesis
  proof (cases "cands = {}")
    case True
    then have "filter (\<lambda>l. l = b \<or> sql_like (b @ ''-%'') l) (map rr_label (ds_resources d)) = []"
      unfolding cands_def filter_empty_conv by blast
    then have "LatestLabelForResource d b = ''''"
      by (simp add: LatestLabelForResource_def)
    with True show ?thesis
      by (auto simp: LabelForUnmanagedResource_def assms(1) cands_def)
  next
    case False
    let ?L = "LatestLabelForResource d b"
    have L: "?L \<in> cands" "\<And>x. x \<in> cands \<Longrightarrow> \<not> label_less ?L x"
      using LatestLabel_max [of _ d b] False unfolding cands_def by blast+
    then have cs: "?L = b \<or> (\<exists>n. Suc n < 2 ^ 63 \<and> ?L = b @ ''-'' @ nat_string n)"
      using assms(4) by (auto simp: cands_def)
    then have ne: "?L \<noteq> ''''" using assms(2) by auto
    from cs consider "?L = b" | n where "Suc n < 2 ^ 63" "?L = b @ ''-'' @ nat_string n" by blast
    then obtain m where m: "incrementVersion ?L = b @ ''-'' @ nat_string m" "label_less ?L (b @ ''-'' @ nat_string m)"
    proof cases
      case 1
      with that [of 1] show ?thesis
        by (simp add: incrementVersion_unversioned [OF assms(3)] label_less_def)
    next
      case 2
      with that [of "Suc n"] nat_string_less [of n "Suc n"] show ?thesis
        using incrementVersion_numbered [of n b] by simp
    qed
    from ne have "LabelForUnmanagedResource (\<lambda>l. Some (LatestLabelForResource d l)) nativeID tags keys =
        b @ ''-'' @ nat_string m"
      by (simp add: LabelForUnmanagedResource_def assms(1) m(1))
    then show ?thesis using rel [of "nat_string m"] L(2) m(2) by auto
  qed
qed

theorem discovered_label_fresh_witness:
  "LabelForUnmanagedResource (\<lambda>l. Some (LatestLabelForResource sample_d1 l)) ''web'' [] [] = ''web-1'' \<and>
   ''web-1'' \<notin> rr_label ` set (ds_resources sample_d1)"
proof -
  have e: "LabelForUnmanagedResource (\<lambda>l. Some (LatestLabelForResource sample_d1 l)) ''web'' [] [] = ''web-1''"
    "base_label ''web'' [] [] = ''web''" "unversioned ''web''"
    "\<forall>row \<in> set (ds_resources sample_d1). \<not> sql_like ''web-%'' (rr_label row)"
    by code_simp+
  then show ?thesis
    using discovered_label_fresh [OF e(2) _ e(3), of sample_d1] by simp
qed


end
