(* ===== verification/Persist_Transformer.thy ===== *)
theory Persist_Transformer
  imports Resolver Stored_Json
begin

text \<open>
  \<^verbatim>\<open>internal/metastructure/transformations\<close> and the hashing part of
  \<^verbatim>\<open>pkg/model/value.go\<close>: before a resource is persisted its opaque values are replaced
  by their SHA-256 hash. The hash of a text in hexadecimal and the decimal text of a float64 are
  arguments; the rest of Go's \<^verbatim>\<open>%v\<close> formatting is written out.
\<close>

section \<open>Hashing a value\<close>

record hash_lib =
  hl_Sum256 :: "string \<Rightarrow> string"
  hl_float :: "rat \<Rightarrow> string"

fun fmt_v :: "hash_lib \<Rightarrow> json \<Rightarrow> string" where
  "fmt_v lib JNull = ''<nil>''"
| "fmt_v lib (JBool b) = (if b then ''true'' else ''false'')"
| "fmt_v lib (JNum q) = hl_float lib q"
| "fmt_v lib (JStr s) = s"
| "fmt_v lib (JArr js) = ''['' @ strings_Join (map (fmt_v lib) js) '' '' @ '']''"
| "fmt_v lib (JObj kvs) = ''map['' @
     strings_Join (map (\<lambda>(k, s). k @ '':'' @ s) (sort_key fst (map (\<lambda>(k, v). (k, fmt_v lib v)) kvs))) '' '' @ '']''"

definition GetStringValue :: "hash_lib \<Rightarrow> Value \<Rightarrow> string" where
  "GetStringValue lib v = (case v_Value v of None \<Rightarrow> '''' | Some j \<Rightarrow> fmt_v lib j)"

definition ComputeValueHash :: "hash_lib \<Rightarrow> string \<Rightarrow> string" where
  "ComputeValueHash lib value = hl_Sum256 lib value"

definition computeHash :: "hash_lib \<Rightarrow> Value \<Rightarrow> string" where
  "computeHash lib v =
     (if v_Value v = None then ''''
      else let valueStr = GetStringValue lib v
           in if valueStr = '''' then '''' else ComputeValueHash lib valueStr)"

definition Hash :: "hash_lib \<Rightarrow> Value \<Rightarrow> Value" where
  "Hash lib v = (if v_Value v = None then v
     else \<lparr>v_Strategy = v_Strategy v, v_Visibility = v_Visibility v, v_Value = Some (JStr (computeHash lib v))\<rparr>)"

definition isAlreadyHashed :: "string \<Rightarrow> bool" where
  "isAlreadyHashed value \<longleftrightarrow> length value = 64 \<and>
     list_all (\<lambda>r. (CHR ''0'' \<le> r \<and> r \<le> CHR ''9'') \<or> (CHR ''a'' \<le> r \<and> r \<le> CHR ''f'')) value"

section \<open>Replacing opaque values\<close>

definition opaque_obj :: "(string \<times> json) list \<Rightarrow> bool" where
  "opaque_obj val \<longleftrightarrow> map_of val ''$visibility'' = Some (JStr ''Opaque'')"

definition original_value :: "(string \<times> json) list \<Rightarrow> json option" where
  "original_value val = (case map_of val ''$value'' of None \<Rightarrow> None | Some j \<Rightarrow> any_of j)"

definition already_hashed :: "(string \<times> json) list \<Rightarrow> bool" where
  "already_hashed val \<longleftrightarrow> (case original_value val of Some (JStr s) \<Rightarrow> isAlreadyHashed s | _ \<Rightarrow> False)"

definition hashed_value :: "hash_lib \<Rightarrow> (string \<times> json) list \<Rightarrow> Value" where
  "hashed_value lib val = Hash lib \<lparr>v_Strategy = (case map_of val ''$strategy'' of Some (JStr s) \<Rightarrow> s | _ \<Rightarrow> ''''),
     v_Visibility = ''Opaque'', v_Value = original_value val\<rparr>"

definition any_json :: "json option \<Rightarrow> json" where
  "any_json a = (case a of None \<Rightarrow> JNull | Some j \<Rightarrow> j)"

definition hash_opaque :: "hash_lib \<Rightarrow> (string \<times> json) list \<Rightarrow> (string \<times> json) list" where
  "hash_opaque lib val = (if already_hashed val then val
     else AList.update ''$value'' (any_json (v_Value (hashed_value lib val))) val)"

text \<open>
  \<^verbatim>\<open>processProps\<close> edits the nested maps in place; here it returns the edited document. It
  treats the entries of a map and the elements of an array differently.
\<close>

fun process_val :: "hash_lib \<Rightarrow> json \<Rightarrow> json" and process_elem :: "hash_lib \<Rightarrow> json \<Rightarrow> json" where
  "process_val lib (JObj val) = JObj (if opaque_obj val then hash_opaque lib val
     else map (\<lambda>(k, v). (k, process_val lib v)) val)"
| "process_val lib (JArr val) = JArr (map (process_elem lib) val)"
| "process_val lib v = v"
| "process_elem lib (JObj elemMap) = JObj (map (\<lambda>(k, v). (k, process_val lib v)) elemMap)"
| "process_elem lib v = v"

definition processProps :: "hash_lib \<Rightarrow> (string \<times> json) list \<Rightarrow> (string \<times> json) list" where
  "processProps lib m = map (\<lambda>(k, v). (k, process_val lib v)) m"

text \<open>
  The entries it adds to \<^verbatim>\<open>valueMap\<close>. Each hashed text is a function of the original
  text, so the order in which the maps are visited does not matter, except between an absent value
  and the text \<^verbatim>\<open><nil>\<close>, which share a key; the model keeps the first.
\<close>

definition value_entry :: "hash_lib \<Rightarrow> (string \<times> json) list \<Rightarrow> (string \<times> string) list" where
  "value_entry lib val = (if already_hashed val then []
     else let originalStr = fmt_v lib (any_json (original_value val))
          in if originalStr \<noteq> '''' then [(originalStr, fmt_v lib (any_json (v_Value (hashed_value lib val))))] else [])"

fun entries_val :: "hash_lib \<Rightarrow> json \<Rightarrow> (string \<times> string) list"
  and entries_elem :: "hash_lib \<Rightarrow> json \<Rightarrow> (string \<times> string) list" where
  "entries_val lib (JObj val) = (if opaque_obj val then value_entry lib val
     else concat (map (\<lambda>(k, v). entries_val lib v) val))"
| "entries_val lib (JArr val) = concat (map (entries_elem lib) val)"
| "entries_val lib v = []"
| "entries_elem lib (JObj elemMap) = concat (map (\<lambda>(k, v). entries_val lib v) elemMap)"
| "entries_elem lib v = []"

definition props_entries :: "hash_lib \<Rightarrow> raw \<Rightarrow> (string \<times> string) list" where
  "props_entries lib properties = (case properties of
     RawJson (JObj m) \<Rightarrow> concat (map (\<lambda>(k, v). entries_val lib v) m) | _ \<Rightarrow> [])"

definition transformRawProps :: "hash_lib \<Rightarrow> raw \<Rightarrow> raw option" where
  "transformRawProps lib properties = (case properties of
     RawNil \<Rightarrow> Some (RawJson (JObj []))
   | RawEmpty \<Rightarrow> Some (RawJson (JObj []))
   | RawJson JNull \<Rightarrow> Some (RawJson JNull)
   | RawJson (JObj m) \<Rightarrow> Some (marshal_map (processProps lib m))
   | _ \<Rightarrow> None)"

definition patch_op :: "hash_lib \<Rightarrow> (string \<times> string) list \<Rightarrow> json \<Rightarrow> json option" where
  "patch_op lib valueMap op = (case op of
     JNull \<Rightarrow> Some JNull
   | JObj kvs \<Rightarrow> Some (json_sorted (JObj
       (case map_of kvs ''value'' of
          None \<Rightarrow> kvs
        | Some value \<Rightarrow> (case map_of valueMap (fmt_v lib value) of
            None \<Rightarrow> kvs | Some hashed \<Rightarrow> AList.update ''value'' (JStr hashed) kvs))))
   | _ \<Rightarrow> None)"

definition transformPatchDocument :: "hash_lib \<Rightarrow> raw \<Rightarrow> (string \<times> string) list \<Rightarrow> raw option" where
  "transformPatchDocument lib patchDoc valueMap = (case patchDoc of
     RawNil \<Rightarrow> Some RawNil
   | RawEmpty \<Rightarrow> Some RawEmpty
   | RawJson JNull \<Rightarrow> Some (RawJson JNull)
   | RawJson (JArr ops) \<Rightarrow> map_option (\<lambda>js. RawJson (JArr js)) (those (map (patch_op lib valueMap) ops))
   | _ \<Rightarrow> None)"

text \<open>The group of the resource is not copied; nil parts stay nil.\<close>

definition transform_or_nil :: "hash_lib \<Rightarrow> raw \<Rightarrow> raw option" where
  "transform_or_nil lib r = (if r = RawNil then Some RawNil else transformRawProps lib r)"

definition ApplyToResource :: "hash_lib \<Rightarrow> Resource \<Rightarrow> Resource option" where
  "ApplyToResource lib resource =
     (case transform_or_nil lib (res_Properties resource) of
        None \<Rightarrow> None
      | Some props \<Rightarrow>
          (case transform_or_nil lib (res_ReadOnlyProperties resource) of
             None \<Rightarrow> None
           | Some ro \<Rightarrow>
               let valueMap = (if res_Properties resource = RawNil then [] else props_entries lib (res_Properties resource)) @
                   (if res_ReadOnlyProperties resource = RawNil then [] else props_entries lib (res_ReadOnlyProperties resource))
               in (case (if res_PatchDocument resource = RawNil then Some RawNil
                         else transformPatchDocument lib (res_PatchDocument resource) valueMap) of
                     None \<Rightarrow> None
                   | Some pd \<Rightarrow> Some (zero_Resource\<lparr>res_Label := res_Label resource, res_Type := res_Type resource,
                       res_Stack := res_Stack resource, res_Target := res_Target resource,
                       res_Schema := res_Schema resource, res_NativeID := res_NativeID resource,
                       res_Managed := res_Managed resource, res_Ksuid := res_Ksuid resource,
                       res_Properties := props, res_ReadOnlyProperties := ro, res_PatchDocument := pd\<rparr>))))"

text \<open>A chain of transformers applies them one after the other; the first failure ends it.\<close>

fun Chained_ApplyToResource :: "(Resource \<Rightarrow> Resource option) list \<Rightarrow> Resource \<Rightarrow> Resource option" where
  "Chained_ApplyToResource [] result = Some result"
| "Chained_ApplyToResource (t # ts) result =
     (case t result of None \<Rightarrow> None | Some r \<Rightarrow> Chained_ApplyToResource ts r)"

text \<open>
  \<^verbatim>\<open>hasOpaqueValues\<close> searches the bytes for the two quoted words: a key or a text of the
  document equal to the word.
\<close>

fun json_mentions :: "string \<Rightarrow> json \<Rightarrow> bool" where
  "json_mentions w (JStr s) \<longleftrightarrow> s = w"
| "json_mentions w (JArr js) \<longleftrightarrow> list_ex (json_mentions w) js"
| "json_mentions w (JObj kvs) \<longleftrightarrow> list_ex (\<lambda>(k, v). k = w \<or> json_mentions w v) kvs"
| "json_mentions w _ \<longleftrightarrow> False"

definition raw_mentions :: "string \<Rightarrow> raw \<Rightarrow> bool" where
  "raw_mentions w r = (case r of RawJson j \<Rightarrow> json_mentions w j
     | RawInvalid s \<Rightarrow> sublist (CHR 0x22 # w @ [CHR 0x22]) s | _ \<Rightarrow> False)"

definition hasOpaqueValues :: "raw \<Rightarrow> bool" where
  "hasOpaqueValues props \<longleftrightarrow> raw_mentions ''$visibility'' props \<and> raw_mentions ''Opaque'' props"

section \<open>Sorted documents\<close>

lemma insort_key_map: "insort_key g (f x) (map f xs) = map f (insort_key (\<lambda>x. g (f x)) x xs)"
  by (induction xs) auto

lemma sort_key_map: "sort_key g (map f xs) = map f (sort_key (\<lambda>x. g (f x)) xs)"
  by (induction xs) (auto simp: insort_key_map)

lemma json_sorted_JObj: "json_sorted (JObj kvs) = JObj (map (\<lambda>(k, v). (k, json_sorted v)) (sort_key fst kvs))"
  by (simp add: sort_key_map case_prod_unfold)

lemma json_sorted_idem [simp]: "json_sorted (json_sorted j) = json_sorted j"
proof (induction j rule: json_sorted.induct)
  case (2 kvs)
  then have "map (\<lambda>(k, v). (k, json_sorted v)) (map (\<lambda>(k, v). (k, json_sorted v)) (sort_key fst kvs)) =
      map (\<lambda>(k, v). (k, json_sorted v)) (sort_key fst kvs)"
    by (force simp: case_prod_unfold)
  then show ?case
    by (simp only: json_sorted_JObj sort_key_map) (simp add: case_prod_unfold comp_def)
qed simp_all

lemma map_of_filter_hd: "map_of xs k = (case filter (\<lambda>e. fst e = k) xs of [] \<Rightarrow> None | e # _ \<Rightarrow> Some (snd e))"
  by (induction xs) auto

lemma map_of_sort_key [simp]: "map_of (sort_key fst xs) k = map_of xs k"
  by (simp add: map_of_filter_hd sort_key_stable)

lemma map_of_json_sorted:
  "map_of (map (\<lambda>(k, v). (k, json_sorted v)) (sort_key fst kvs)) k = map_option json_sorted (map_of kvs k)"
  by (simp add: map_of_map)

lemma json_sorted_JStr [simp]: "json_sorted v = JStr s \<longleftrightarrow> v = JStr s" "json_sorted v = JNull \<longleftrightarrow> v = JNull"
  by (cases v; simp)+

section \<open>Documents without plain secrets\<close>

text \<open>The value of an opaque object is harmless when it is absent or empty or a hash.\<close>

definition value_safe :: "(string \<times> json) list \<Rightarrow> bool" where
  "value_safe val \<longleftrightarrow> (case map_of val ''$value'' of
     Some JNull \<Rightarrow> True | Some (JStr s) \<Rightarrow> s = '''' \<or> isAlreadyHashed s | _ \<Rightarrow> False)"

fun secrets_safe :: "json \<Rightarrow> bool" where
  "secrets_safe (JObj kvs) \<longleftrightarrow> (opaque_obj kvs \<longrightarrow> value_safe kvs) \<and> list_all (\<lambda>(k, v). secrets_safe v) kvs"
| "secrets_safe (JArr js) \<longleftrightarrow> list_all secrets_safe js"
| "secrets_safe _ \<longleftrightarrow> True"

fun has_opaque :: "json \<Rightarrow> bool" where
  "has_opaque (JObj kvs) \<longleftrightarrow> opaque_obj kvs \<or> list_ex (\<lambda>(k, v). has_opaque v) kvs"
| "has_opaque (JArr js) \<longleftrightarrow> list_ex has_opaque js"
| "has_opaque _ \<longleftrightarrow> False"

text \<open>
  Opaque objects where the transformation looks for them: as entries of an object, at any depth,
  but neither as elements of an array nor inside another opaque object.
\<close>

fun well_placed :: "json \<Rightarrow> bool" and well_placed_elem :: "json \<Rightarrow> bool" where
  "well_placed (JObj kvs) \<longleftrightarrow> (if opaque_obj kvs then list_all (\<lambda>(k, v). k \<noteq> ''$value'' \<longrightarrow> \<not> has_opaque v) kvs
     else list_all (\<lambda>(k, v). well_placed v) kvs)"
| "well_placed (JArr js) \<longleftrightarrow> list_all well_placed_elem js"
| "well_placed _ \<longleftrightarrow> True"
| "well_placed_elem (JObj kvs) \<longleftrightarrow> \<not> opaque_obj kvs \<and> list_all (\<lambda>(k, v). well_placed v) kvs"
| "well_placed_elem j \<longleftrightarrow> \<not> has_opaque j"

lemma has_opaque_safe: "\<not> has_opaque j \<Longrightarrow> secrets_safe j"
  by (induction j rule: has_opaque.induct) (force simp: list_all_iff list_ex_iff)+

lemma opaque_obj_sorted [simp]:
  "opaque_obj (map (\<lambda>(k, v). (k, json_sorted v)) (sort_key fst kvs)) = opaque_obj kvs"
  by (auto simp: opaque_obj_def map_of_json_sorted)

lemma value_safe_sorted [simp]:
  "value_safe (map (\<lambda>(k, v). (k, json_sorted v)) (sort_key fst kvs)) = value_safe kvs"
  by (auto simp: value_safe_def map_of_json_sorted split: option.splits json.splits)

lemma secrets_safe_sorted [simp]: "secrets_safe (json_sorted j) = secrets_safe j"
proof (induction j rule: json_sorted.induct)
  case (2 kvs)
  then have "list_all (\<lambda>(k, v). secrets_safe v) (map (\<lambda>(k, v). (k, json_sorted v)) (sort_key fst kvs)) =
      list_all (\<lambda>(k, v). secrets_safe v) kvs"
    by (force simp: list_all_iff)
  then show ?case
    unfolding json_sorted_JObj by simp
qed (auto simp: list_all_iff)


section \<open>What the transformation leaves\<close>

text \<open>The only assumption on the hash: it is 64 hexadecimal digits.\<close>

definition hash_ok :: "hash_lib \<Rightarrow> bool" where
  "hash_ok lib \<longleftrightarrow> (\<forall>s. isAlreadyHashed (hl_Sum256 lib s))"

lemma hash_opaque_keeps [simp]: "opaque_obj (hash_opaque lib val) = opaque_obj val"
  by (simp add: opaque_obj_def hash_opaque_def update_conv')

lemma Hash_None: "v_Value v = None \<Longrightarrow> v_Value (Hash lib v) = None"
  by (simp add: Hash_def)

lemma Hash_Some:
  "v_Value v = Some j \<Longrightarrow> hash_ok lib \<Longrightarrow>
     \<exists>s. v_Value (Hash lib v) = Some (JStr s) \<and> (s = '''' \<or> isAlreadyHashed s)"
  by (auto simp: Hash_def computeHash_def hash_ok_def ComputeValueHash_def Let_def)

lemma hash_opaque_safe:
  assumes "hash_ok lib" shows "value_safe (hash_opaque lib val)"
proof (cases "already_hashed val")
  case True
  then obtain s where "original_value val = Some (JStr s)" "isAlreadyHashed s"
    by (auto simp: already_hashed_def split: option.splits json.splits)
  then have "map_of val ''$value'' = Some (JStr s)"
    by (auto simp: original_value_def split: option.splits elim: any_of.elims)
  then show ?thesis using True \<open>isAlreadyHashed s\<close> by (simp add: hash_opaque_def value_safe_def)
next
  case False
  have "map_of (hash_opaque lib val) ''$value'' = Some (any_json (v_Value (hashed_value lib val)))"
    using False by (simp add: hash_opaque_def update_conv')
  moreover have "(\<exists>s. any_json (v_Value (hashed_value lib val)) = JStr s \<and> (s = '''' \<or> isAlreadyHashed s)) \<or>
      any_json (v_Value (hashed_value lib val)) = JNull"
  proof (cases "original_value val")
    case None
    then show ?thesis by (simp add: hashed_value_def Hash_None any_json_def)
  next
    case (Some j)
    then show ?thesis
      using Hash_Some [OF _ assms, of "\<lparr>v_Strategy = (case map_of val ''$strategy'' of Some (JStr s) \<Rightarrow> s | _ \<Rightarrow> ''''),
        v_Visibility = ''Opaque'', v_Value = original_value val\<rparr>" j]
      by (auto simp: hashed_value_def any_json_def)
  qed
  ultimately show ?thesis by (auto simp: value_safe_def)
qed

lemma value_safe_scalar: "value_safe val \<Longrightarrow> map_of val ''$value'' = Some v \<Longrightarrow> secrets_safe v \<and> \<not> has_opaque v"
  by (auto simp: value_safe_def split: json.splits)

lemma hash_opaque_entries:
  assumes "(k, v) \<in> set (hash_opaque lib val)" "k \<noteq> ''$value''"
  shows "(k, v) \<in> set val"
proof -
  have "(k, v) \<in> set (AList.update k' w xs) \<Longrightarrow> k \<noteq> k' \<Longrightarrow> (k, v) \<in> set xs" for k' w xs
    by (induction xs) (auto split: if_splits)
  with assms show ?thesis by (auto simp: hash_opaque_def split: if_splits)
qed

lemma hash_opaque_distinct: "distinct (map fst val) \<Longrightarrow> distinct (map fst (hash_opaque lib val))"
  by (simp add: hash_opaque_def distinct_update)

lemma process_val_JStr [simp]: "process_val lib v = JStr s \<longleftrightarrow> v = JStr s"
  by (cases v) auto

lemma opaque_process [simp]: "opaque_obj (map (\<lambda>(k, v). (k, process_val lib v)) kvs) = opaque_obj kvs"
  by (auto simp: opaque_obj_def map_of_map)

lemma process_secrets:
  assumes "hash_ok lib"
  shows "json_wf j \<Longrightarrow> well_placed j \<Longrightarrow> secrets_safe (process_val lib j)"
    and "json_wf j \<Longrightarrow> well_placed_elem j \<Longrightarrow> secrets_safe (process_elem lib j)"
proof (induction j and j rule: well_placed_well_placed_elem.induct)
  case (1 kvs)
  show ?case
  proof (cases "opaque_obj kvs")
    case True
    let ?h = "hash_opaque lib kvs"
    have safe: "value_safe ?h" by (rule hash_opaque_safe [OF assms])
    have d: "distinct (map fst ?h)" using 1 by (simp add: hash_opaque_distinct)
    have "secrets_safe v" if e: "(k, v) \<in> set ?h" for k v
    proof (cases "k = ''$value''")
      case True
      with e d have "map_of ?h ''$value'' = Some v" by simp
      with safe value_safe_scalar show ?thesis by blast
    next
      case False
      with hash_opaque_entries [OF e] 1 True show ?thesis
        by (auto simp: list_all_iff intro: has_opaque_safe)
    qed
    with True safe show ?thesis by (auto simp: list_all_iff)
  next
    case False
    with 1 show ?thesis by (force simp: list_all_iff)
  qed
next
  case (4 kvs)
  then show ?case by (force simp: list_all_iff)
qed (auto simp: list_all_iff list_ex_iff intro: has_opaque_safe)


text \<open>Documents on which the transformation has nothing left to do.\<close>

fun settled :: "json \<Rightarrow> bool" and settled_elem :: "json \<Rightarrow> bool" where
  "settled (JObj kvs) \<longleftrightarrow> (if opaque_obj kvs then value_safe kvs else list_all (\<lambda>(k, v). settled v) kvs)"
| "settled (JArr js) \<longleftrightarrow> list_all settled_elem js"
| "settled _ \<longleftrightarrow> True"
| "settled_elem (JObj kvs) \<longleftrightarrow> list_all (\<lambda>(k, v). settled v) kvs"
| "settled_elem _ \<longleftrightarrow> True"

lemma process_settled:
  assumes "hash_ok lib"
  shows "settled (process_val lib j)" and "settled_elem (process_elem lib j)"
proof (induction j and j rule: settled_settled_elem.induct)
  case (1 kvs)
  then show ?case
    by (auto simp: list_all_iff hash_opaque_safe [OF assms])
qed (auto simp: list_all_iff)

lemma hash_opaque_id: "value_safe val \<Longrightarrow> hash_opaque lib val = val"
  by (auto simp: value_safe_def hash_opaque_def already_hashed_def original_value_def hashed_value_def
      Hash_def computeHash_def GetStringValue_def any_json_def split: option.splits json.splits
      intro!: update_triv)

lemma settled_id:
  "settled j \<Longrightarrow> process_val lib j = j" "settled_elem j \<Longrightarrow> process_elem lib j = j"
proof (induction j and j rule: settled_settled_elem.induct)
  case (1 kvs)
  then show ?case by (fastforce simp: list_all_iff hash_opaque_id intro!: map_idI)
next
  case (4 kvs)
  then show ?case by (fastforce simp: list_all_iff intro!: map_idI)
qed (auto simp: list_all_iff intro!: map_idI)

lemma settled_sorted: "settled j \<Longrightarrow> settled (json_sorted j)" "settled_elem j \<Longrightarrow> settled_elem (json_sorted j)"
proof (induction j and j rule: settled_settled_elem.induct)
  case (1 kvs)
  then show ?case unfolding json_sorted_JObj by (fastforce simp: list_all_iff)
next
  case (4 kvs)
  then show ?case unfolding json_sorted_JObj by (fastforce simp: list_all_iff)
qed (auto simp: list_all_iff)

lemma transformRawProps_settled:
  assumes "hash_ok lib" "transformRawProps lib (RawJson (JObj m)) = Some q"
  shows "transformRawProps lib q = Some q"
proof -
  let ?m = "map (\<lambda>(k, v). (k, json_sorted v)) (sort_key fst (processProps lib m))"
  have q: "q = RawJson (JObj ?m)"
    using assms(2) by (simp add: transformRawProps_def marshal_map_def json_sorted_JObj del: json_sorted.simps)
  have "\<forall>(k, v) \<in> set ?m. settled v"
    using process_settled(1) [OF assms(1)] by (auto simp: processProps_def intro: settled_sorted)
  then have "processProps lib ?m = ?m"
    using settled_id(1) unfolding processProps_def by (intro map_idI) auto
  moreover have "json_sorted (JObj ?m) = JObj ?m"
    using json_sorted_idem [of "JObj (processProps lib m)"] unfolding json_sorted_JObj [of "processProps lib m"] .
  ultimately show ?thesis
    by (simp add: q transformRawProps_def marshal_map_def del: json_sorted.simps)
qed

definition sample_hash :: hash_lib where
  "sample_hash = \<lparr>hl_Sum256 = (\<lambda>s. replicate 64 CHR ''a''), hl_float = (\<lambda>q. ''1'')\<rparr>"

lemma sample_hash_ok: "hash_ok sample_hash"
  unfolding hash_ok_def sample_hash_def isAlreadyHashed_def by (simp add: list_all_iff)

section \<open>Properties\<close>

text \<open>No secret reaches the datastore in clear when opaque values stand where the transformation
  looks for them: every opaque object of the transformed properties, wherever it is, carries no
  value, the empty text or a 64-digit hash. Transforming the result again changes nothing, so
  persisting a resource twice never hashes a hash.\<close>

theorem ApplyToResource_secrets:
  assumes "hash_ok lib" "res_Properties r = RawJson (JObj m)" "json_wf (JObj m)" "\<not> opaque_obj m"
    "\<forall>(k, v) \<in> set m. well_placed v" "ApplyToResource lib r = Some r'"
  shows "\<exists>m'. res_Properties r' = RawJson (JObj m') \<and> secrets_safe (JObj m') \<and>
    transformRawProps lib (res_Properties r') = Some (res_Properties r')"
proof -
  have t: "transformRawProps lib (RawJson (JObj m)) = Some (res_Properties r')"
    using assms(2,6) by (auto simp: ApplyToResource_def transform_or_nil_def Let_def split: option.splits)
  then have r': "res_Properties r' = RawJson (json_sorted (JObj (processProps lib m)))"
    by (simp add: transformRawProps_def marshal_map_def del: json_sorted.simps)
  have "\<not> opaque_obj (processProps lib m)" using assms(4) by (simp add: processProps_def)
  then have "secrets_safe (JObj (processProps lib m))"
    using assms(3,5) process_secrets(1) [OF assms(1)] by (fastforce simp: processProps_def list_all_iff)
  then have "secrets_safe (json_sorted (JObj (processProps lib m)))" by (simp only: secrets_safe_sorted)
  with r' transformRawProps_settled [OF assms(1) t] show ?thesis
    unfolding json_sorted_JObj by blast
qed

theorem ApplyToResource_secrets_witness:
  "\<exists>m'. res_Properties (the (ApplyToResource sample_hash (zero_Resource\<lparr>res_Properties := RawJson (JObj
       [(''db'', JObj [(''password'', JObj [(''$visibility'', JStr ''Opaque''), (''$value'', JStr ''secret'')])])])\<rparr>))) =
     RawJson (JObj m') \<and> secrets_safe (JObj m')"
proof -
  let ?m = "[(''db'', JObj [(''password'', JObj [(''$visibility'', JStr ''Opaque''), (''$value'', JStr ''secret'')])])]"
  let ?r = "zero_Resource\<lparr>res_Properties := RawJson (JObj ?m)\<rparr>"
  have m: "json_wf (JObj ?m)" "\<not> opaque_obj ?m" "list_all (\<lambda>(k, v). well_placed v) ?m"
    "ApplyToResource sample_hash ?r \<noteq> None"
    by code_simp+
  then obtain r' where "ApplyToResource sample_hash ?r = Some r'" by auto
  with ApplyToResource_secrets [OF sample_hash_ok _ m(1,2) _ this] m(3) show ?thesis
    by (auto simp: list_all_iff)
qed

text \<open>An opaque value that is itself an element of an array is persisted in clear: the
  transformation visits the entries of array elements but never asks whether the element is
  opaque.\<close>

theorem array_secret_persisted_in_clear:
  "transformRawProps lib (RawJson (JObj [(k, JArr [JObj [(''$value'', JStr secret), (''$visibility'', JStr ''Opaque'')]])])) =
     Some (RawJson (JObj [(k, JArr [JObj [(''$value'', JStr secret), (''$visibility'', JStr ''Opaque'')]])]))"
  by (simp add: transformRawProps_def processProps_def marshal_map_def)


end
