(* ===== verification/Forma_Command_Persister.thy ===== *)
theory Forma_Command_Persister
  imports Datastore_Facts Persist_Transformer
begin

text \<open>
  \<^verbatim>\<open>internal/metastructure/forma_persister/forma_command_persister.go\<close>: the actor that
  keeps the stored commands up to date while the updates of their resources make progress. Every
  handler loads the command, changes it and stores it; the contract it relies on is the locale
  \<open>command_store\<close>, which the SQLite datastore meets.
\<close>

section \<open>Messages and errors\<close>

record MarkResources =
  mr_CommandID :: string
  mr_ResourceUris :: "FormaeURI list"
  mr_ResourceModifiedTs :: go_time

record BulkUpdateResourceStateByKsuid =
  bu_CommandID :: string
  bu_ResourceUris :: "FormaeURI list"
  bu_ResourceState :: ResourceUpdateState
  bu_ResourceModifiedTs :: go_time

datatype persister_request =
    StoreNewFormaCommand FormaCommand
  | LoadFormaCommand string
  | UpdateProgress UpdateResourceProgress
  | MarkResourcesAsRejected MarkResources
  | MarkResourcesAsFailed MarkResources
  | MarkAsComplete MarkResourceUpdateAsComplete
  | MarkFormaCommandAsComplete string

datatype persister_error =
    FailedToStore ds_error
  | FailedToLoad ds_error
  | FailedToHash string

datatype persister_answer = Done bool | Loaded FormaCommand

section \<open>The state of a command\<close>

definition overallCommandState :: "FormaCommand \<Rightarrow> CommandState" where
  "overallCommandState command =
     (let states = map ru_State (fc_ResourceUpdates command)
      in if list_ex (\<lambda>s. s \<noteq> ResourceUpdateStateSuccess \<and> s \<noteq> ResourceUpdateStateFailed \<and>
              s \<noteq> ResourceUpdateStateRejected) states then CommandStateInProgress
         else if list_ex (\<lambda>s. s = ResourceUpdateStateFailed \<or> s = ResourceUpdateStateRejected) states
              then CommandStateFailed
         else CommandStateSuccess)"

fun shouldUpdateResourceUpdate :: "ResourceUpdate \<Rightarrow> ProgressResult \<Rightarrow> bool" where
  "shouldUpdateResourceUpdate ru progress =
     (case pr_Operation progress of
        PCreate \<Rightarrow> ru_Operation ru = OperationCreate \<or> ru_Operation ru = OperationReplace
      | PDelete \<Rightarrow> ru_Operation ru = OperationDelete \<or> ru_Operation ru = OperationReplace
      | PUpdate \<Rightarrow> ru_Operation ru = OperationUpdate \<or> ru_Operation ru = OperationReplace
      | PRead \<Rightarrow> ru_Operation ru = OperationDelete \<or> ru_Operation ru = OperationUpdate \<or>
          ru_Operation ru = OperationRead \<or> ru_Operation ru = OperationReplace
      | _ \<Rightarrow> True)"

section \<open>Handlers\<close>

text \<open>A loop that changes the first element that satisfies the test and stops there.\<close>

fun update_first :: "('a \<Rightarrow> bool) \<Rightarrow> ('a \<Rightarrow> 'a) \<Rightarrow> 'a list \<Rightarrow> 'a list" where
  "update_first p f [] = []"
| "update_first p f (x # xs) = (if p x then f x # xs else x # update_first p f xs)"

definition set_properties :: "raw \<Rightarrow> raw \<Rightarrow> string \<Rightarrow> ResourceUpdate \<Rightarrow> ResourceUpdate" where
  "set_properties props ro version res =
     (let res1 = (if props \<noteq> RawNil then res\<lparr>ru_Resource := (ru_Resource res)\<lparr>res_Properties := props\<rparr>\<rparr> else res);
          res2 = (if ro \<noteq> RawNil then res1\<lparr>ru_Resource := (ru_Resource res1)\<lparr>res_ReadOnlyProperties := ro\<rparr>\<rparr> else res1)
      in if version \<noteq> '''' then res2\<lparr>ru_Version := version\<rparr> else res2)"

definition replace_progress :: "ProgressResult \<Rightarrow> ProgressResult list \<Rightarrow> ProgressResult list" where
  "replace_progress progress ps =
     (if list_ex (\<lambda>p. pr_Operation p = pr_Operation progress) ps
      then update_first (\<lambda>p. pr_Operation p = pr_Operation progress) (\<lambda>_. progress) ps
      else ps @ [progress])"

definition apply_progress :: "UpdateResourceProgress \<Rightarrow> ResourceUpdate \<Rightarrow> ResourceUpdate" where
  "apply_progress msg res =
     set_properties (up_ResourceProperties msg) (up_ResourceReadOnlyProperties msg) (up_Version msg)
       (res\<lparr>ru_State := up_ResourceState msg, ru_StartTs := up_ResourceStartTs msg,
          ru_ModifiedTs := up_ResourceModifiedTs msg,
          ru_ProgressResult := replace_progress (up_Progress msg) (ru_ProgressResult res),
          ru_MostRecentProgressResult := up_Progress msg\<rparr>)"

definition apply_completion :: "MarkResourceUpdateAsComplete \<Rightarrow> ResourceUpdate \<Rightarrow> ResourceUpdate" where
  "apply_completion msg res =
     set_properties (mc_ResourceProperties msg) (mc_ResourceReadOnlyProperties msg) (mc_Version msg)
       (res\<lparr>ru_State := mc_FinalState msg, ru_StartTs := mc_ResourceStartTs msg,
          ru_ModifiedTs := mc_ResourceModifiedTs msg\<rparr>)"

text \<open>The changes the handlers make to a loaded command.\<close>

definition progress_command :: "UpdateResourceProgress \<Rightarrow> FormaCommand \<Rightarrow> FormaCommand" where
  "progress_command msg command =
     (let c1 = command\<lparr>fc_ResourceUpdates := update_first
            (\<lambda>res. res_Ksuid (ru_Resource res) = KSUID (up_ResourceURI msg) \<and>
               shouldUpdateResourceUpdate res (up_Progress msg))
            (apply_progress msg) (fc_ResourceUpdates command)\<rparr>;
          c2 = (if fc_StartTs c1 = 0 then c1\<lparr>fc_StartTs := up_ResourceStartTs msg\<rparr> else c1);
          c3 = c2\<lparr>fc_ModifiedTs := up_ResourceModifiedTs msg\<rparr>
      in c3\<lparr>fc_State := overallCommandState c3\<rparr>)"

definition complete_command :: "MarkResourceUpdateAsComplete \<Rightarrow> FormaCommand \<Rightarrow> FormaCommand" where
  "complete_command msg cmd =
     (let c1 = cmd\<lparr>fc_ResourceUpdates := update_first
            (\<lambda>res. res_Ksuid (ru_Resource res) = KSUID (mc_ResourceURI msg))
            (apply_completion msg) (fc_ResourceUpdates cmd), fc_ModifiedTs := mc_ResourceModifiedTs msg\<rparr>
      in c1\<lparr>fc_State := overallCommandState c1\<rparr>)"

definition bulk_command :: "BulkUpdateResourceStateByKsuid \<Rightarrow> FormaCommand \<Rightarrow> FormaCommand" where
  "bulk_command bulkUpdate command =
     (let ksuidSet = set (map KSUID (bu_ResourceUris bulkUpdate));
          c1 = command\<lparr>fc_ResourceUpdates := map (\<lambda>res.
              if res_Ksuid (ru_Resource res) \<in> ksuidSet
              then res\<lparr>ru_State := bu_ResourceState bulkUpdate, ru_ModifiedTs := bu_ResourceModifiedTs bulkUpdate\<rparr>
              else res) (fc_ResourceUpdates command), fc_ModifiedTs := bu_ResourceModifiedTs bulkUpdate\<rparr>
      in c1\<lparr>fc_State := overallCommandState c1\<rparr>)"

definition store_command :: "datastore \<Rightarrow> FormaCommand \<Rightarrow> datastore \<times> (persister_error + persister_answer)" where
  "store_command d command = (case StoreFormaCommand d command (fc_ID command) of
     (d', Inl e) \<Rightarrow> (d', Inl (FailedToStore e)) | (d', Inr _) \<Rightarrow> (d', Inr (Done True)))"

definition load_and_store ::
  "datastore \<Rightarrow> string \<Rightarrow> (FormaCommand \<Rightarrow> FormaCommand) \<Rightarrow> datastore \<times> (persister_error + persister_answer)" where
  "load_and_store d commandID upd = (case GetFormaCommandByCommandID d commandID of
     Inl e \<Rightarrow> (d, Inl (FailedToLoad e)) | Inr command \<Rightarrow> store_command d (upd command))"

definition storeNewFormaCommand :: "datastore \<Rightarrow> FormaCommand \<Rightarrow> datastore \<times> (persister_error + persister_answer)" where
  "storeNewFormaCommand d command = store_command d command"

definition loadFormaCommand :: "datastore \<Rightarrow> string \<Rightarrow> datastore \<times> (persister_error + persister_answer)" where
  "loadFormaCommand d commandID = (case GetFormaCommandByCommandID d commandID of
     Inl e \<Rightarrow> (d, Inl (FailedToLoad e)) | Inr command \<Rightarrow> (d, Inr (Loaded command)))"

definition updateCommandFromProgress ::
  "datastore \<Rightarrow> UpdateResourceProgress \<Rightarrow> datastore \<times> (persister_error + persister_answer)" where
  "updateCommandFromProgress d msg = load_and_store d (up_CommandID msg) (progress_command msg)"

definition bulkUpdateResourceState ::
  "datastore \<Rightarrow> BulkUpdateResourceStateByKsuid \<Rightarrow> datastore \<times> (persister_error + persister_answer)" where
  "bulkUpdateResourceState d bulkUpdate = load_and_store d (bu_CommandID bulkUpdate) (bulk_command bulkUpdate)"

definition bulk_of :: "ResourceUpdateState \<Rightarrow> MarkResources \<Rightarrow> BulkUpdateResourceStateByKsuid" where
  "bulk_of state msg = \<lparr>bu_CommandID = mr_CommandID msg, bu_ResourceUris = mr_ResourceUris msg,
     bu_ResourceState = state, bu_ResourceModifiedTs = mr_ResourceModifiedTs msg\<rparr>"

definition markResourcesAsRejected :: "datastore \<Rightarrow> MarkResources \<Rightarrow> datastore \<times> (persister_error + persister_answer)" where
  "markResourcesAsRejected d msg = bulkUpdateResourceState d (bulk_of ResourceUpdateStateRejected msg)"

definition markResourcesAsFailed :: "datastore \<Rightarrow> MarkResources \<Rightarrow> datastore \<times> (persister_error + persister_answer)" where
  "markResourcesAsFailed d msg = bulkUpdateResourceState d (bulk_of ResourceUpdateStateFailed msg)"

definition markResourceUpdateAsComplete ::
  "datastore \<Rightarrow> MarkResourceUpdateAsComplete \<Rightarrow> datastore \<times> (persister_error + persister_answer)" where
  "markResourceUpdateAsComplete d msg = load_and_store d (mc_CommandID msg) (complete_command msg)"

text \<open>The loops of the final cleanup: the resources after hashing and how many were hashed, or the
  label of the resource that cannot be hashed.\<close>

fun hash_all :: "hash_lib \<Rightarrow> Resource list \<Rightarrow> string + (Resource list \<times> nat)" where
  "hash_all lib [] = Inr ([], 0)"
| "hash_all lib (r # rs) =
     (if hasOpaqueValues (res_Properties r) then
        (case ApplyToResource lib r of
           None \<Rightarrow> Inl (res_Label r)
         | Some t \<Rightarrow> (case hash_all lib rs of Inl e \<Rightarrow> Inl e | Inr (ts, n) \<Rightarrow> Inr (t # ts, Suc n)))
      else (case hash_all lib rs of Inl e \<Rightarrow> Inl e | Inr (ts, n) \<Rightarrow> Inr (r # ts, n)))"

definition markFormaCommandAsComplete ::
  "hash_lib \<Rightarrow> datastore \<Rightarrow> string \<Rightarrow> datastore \<times> (persister_error + persister_answer)" where
  "markFormaCommandAsComplete lib d commandID = (case GetFormaCommandByCommandID d commandID of
     Inl e \<Rightarrow> (d, Inl (FailedToLoad e))
   | Inr command \<Rightarrow>
       (case hash_all lib (forma_Resources (fc_Forma command)) of
          Inl l \<Rightarrow> (d, Inl (FailedToHash l))
        | Inr (rs, n1) \<Rightarrow>
            (case hash_all lib (map ru_Resource (fc_ResourceUpdates command)) of
               Inl l \<Rightarrow> (d, Inl (FailedToHash l))
             | Inr (us, n2) \<Rightarrow>
                 if n1 + n2 > 0 then store_command d
                   (command\<lparr>fc_Forma := (fc_Forma command)\<lparr>forma_Resources := rs\<rparr>,
                      fc_ResourceUpdates := map2 (\<lambda>u r. u\<lparr>ru_Resource := r\<rparr>) (fc_ResourceUpdates command) us\<rparr>)
                 else (d, Inr (Done True)))))"

fun persister_HandleCall :: "hash_lib \<Rightarrow> datastore \<Rightarrow> persister_request \<Rightarrow> datastore \<times> (persister_error + persister_answer)" where
  "persister_HandleCall lib d (StoreNewFormaCommand c) = storeNewFormaCommand d c"
| "persister_HandleCall lib d (LoadFormaCommand i) = loadFormaCommand d i"
| "persister_HandleCall lib d (UpdateProgress msg) = updateCommandFromProgress d msg"
| "persister_HandleCall lib d (MarkResourcesAsRejected msg) = markResourcesAsRejected d msg"
| "persister_HandleCall lib d (MarkResourcesAsFailed msg) = markResourcesAsFailed d msg"
| "persister_HandleCall lib d (MarkAsComplete msg) = markResourceUpdateAsComplete d msg"
| "persister_HandleCall lib d (MarkFormaCommandAsComplete i) = markFormaCommandAsComplete lib d i"

section \<open>The contract with the datastore\<close>

text \<open>
  What the handlers need of a command store: a stored command is read back in its canonical form
  (the form its text decodes to, on which \<open>canon\<close> is the identity), storing under one identifier
  does not touch the others, and a command that cannot be written leaves the store as it was.
\<close>

locale command_store =
  fixes store :: "'db \<Rightarrow> FormaCommand \<Rightarrow> string \<Rightarrow> 'db \<times> (ds_error + unit)"
    and get :: "'db \<Rightarrow> string \<Rightarrow> ds_error + FormaCommand"
    and canon :: "FormaCommand \<Rightarrow> FormaCommand option"
  assumes get_store: "canon c = Some e \<Longrightarrow> \<exists>db'. store db c i = (db', Inr ()) \<and> get db' i = Inr e"
    and get_store_other: "i \<noteq> j \<Longrightarrow> get (fst (store db c i)) j = get db j"
    and store_fails: "canon c = None \<Longrightarrow> store db c i = (db, Inl ErrMarshal)"
    and canon_ID: "canon c = Some e \<Longrightarrow> fc_ID e = fc_ID c"
begin

definition by_id :: "'db \<Rightarrow> bool" where
  "by_id db \<longleftrightarrow> (\<forall>i c. get db i = Inr c \<longrightarrow> fc_ID c = i)"

lemma store_success: "store db c i = (db', Inr u) \<Longrightarrow> \<exists>e. canon c = Some e \<and> get db' i = Inr e"
  using get_store [of c _ db i] store_fails [of c db i] by (cases "canon c") auto

lemma by_id_store: "by_id db \<Longrightarrow> fc_ID c = i \<Longrightarrow> by_id (fst (store db c i))"
  unfolding by_id_def
proof (intro allI impI)
  fix j x
  assume by_id: "\<forall>i c. get db i = Inr c \<longrightarrow> fc_ID c = i" "fc_ID c = i" "get (fst (store db c i)) j = Inr x"
  show "fc_ID x = j"
  proof (cases "j = i")
    case True
    show ?thesis
    proof (cases "canon c")
      case None
      with by_id True store_fails [OF None, of db i] show ?thesis by simp
    next
      case (Some e)
      with by_id True get_store [OF Some, of db i] canon_ID [OF Some] show ?thesis by auto
    qed
  next
    case False
    with by_id get_store_other [of i j db c] show ?thesis by simp
  qed
qed

text \<open>A handler that loads the command \<open>i\<close>, changes it without touching its identifier and stores
  it back: the command is changed as intended, the others are as before.\<close>

lemma load_change_store:
  assumes "get db i = Inr c" "fc_ID (upd c) = i" "store db (upd c) (fc_ID (upd c)) = (db', Inr u)"
  shows "\<exists>e. canon (upd c) = Some e \<and> get db' i = Inr e" "j \<noteq> i \<Longrightarrow> get db' j = get db j"
proof -
  show "\<exists>e. canon (upd c) = Some e \<and> get db' i = Inr e"
    using assms store_success by simp
  show "j \<noteq> i \<Longrightarrow> get db' j = get db j"
    using assms get_store_other [of i j db "upd c"] by simp
qed

end

lemma find_replace_into:
  "find (\<lambda>r. key r = key row) (replace_into key row rows) = Some row"
  "k \<noteq> key row \<Longrightarrow> find (\<lambda>r. key r = k) (replace_into key row rows) = find (\<lambda>r. key r = k) rows"
proof -
  have "find (\<lambda>r. key r = k) (filter (\<lambda>r. key r \<noteq> key row) rows @ [row]) =
      (if k = key row then Some row else find (\<lambda>r. key r = k) rows)" for k
    by (induction rows) auto
  then show "find (\<lambda>r. key r = key row) (replace_into key row rows) = Some row"
    "k \<noteq> key row \<Longrightarrow> find (\<lambda>r. key r = k) (replace_into key row rows) = find (\<lambda>r. key r = k) rows"
    by (simp_all add: replace_into_def)
qed

interpretation cs: command_store StoreFormaCommand GetFormaCommandByCommandID stored_FormaCommand
proof
  fix c e db i
  assume "stored_FormaCommand c = Some e"
  then show "\<exists>db'. StoreFormaCommand db c i = (db', Inr ()) \<and> GetFormaCommandByCommandID db' i = Inr e"
    using find_replace_into(1) [of cr_command_id "\<lparr>cr_command_id = i, cr_timestamp = fc_StartTs c,
        cr_command = command_string (fc_Command c), cr_state = command_state_string (fc_State c),
        cr_client_id = fc_ClientID c, cr_agent_id = ds_agentID db, cr_data = e\<rparr>"]
    by (simp add: StoreFormaCommand_def GetFormaCommandByCommandID_def)
next
  fix i j db c
  assume "i \<noteq> (j :: string)"
  then show "GetFormaCommandByCommandID (fst (StoreFormaCommand db c i)) j = GetFormaCommandByCommandID db j"
    by (auto simp: StoreFormaCommand_def GetFormaCommandByCommandID_def
        find_replace_into(2) split: option.split)
next
  fix c db i
  assume "stored_FormaCommand c = None"
  then show "StoreFormaCommand db c i = (db, Inl ErrMarshal)"
    by (simp add: StoreFormaCommand_def)
next
  fix c e
  assume "stored_FormaCommand c = Some e"
  then show "fc_ID e = fc_ID c" by (rule stored_FormaCommand_fields)
qed

section \<open>States\<close>

lemma overallCommandState_cases:
  "overallCommandState c = CommandStateInProgress \<longleftrightarrow> (\<exists>u \<in> set (fc_ResourceUpdates c).
     ru_State u \<notin> {ResourceUpdateStateSuccess, ResourceUpdateStateFailed, ResourceUpdateStateRejected})"
  "overallCommandState c = CommandStateSuccess \<longleftrightarrow> (\<forall>u \<in> set (fc_ResourceUpdates c).
     ru_State u = ResourceUpdateStateSuccess)"
  "overallCommandState c \<in> {CommandStateInProgress, CommandStateFailed, CommandStateSuccess}"
  by - (fastforce simp: overallCommandState_def list_ex_iff Let_def split: if_splits)+

lemma overallCommandState_map:
  "map ru_State (fc_ResourceUpdates c) = map ru_State (fc_ResourceUpdates e) \<Longrightarrow>
   overallCommandState c = overallCommandState e"
  unfolding overallCommandState_def by metis

lemma stored_ru_State: "stored_ResourceUpdate u = Some v \<Longrightarrow> ru_State v = ru_State u"
  by (auto simp: stored_ResourceUpdate_def split: option.splits)

lemma those_ru_State:
  "those (map stored_ResourceUpdate us) = Some vs \<Longrightarrow> map ru_State vs = map ru_State us"
  by (induction us arbitrary: vs) (auto simp: stored_ru_State split: option.splits)

lemma stored_overall:
  assumes "stored_FormaCommand c = Some e" shows "overallCommandState e = overallCommandState c"
proof -
  obtain f us where "those (map stored_ResourceUpdate (fc_ResourceUpdates c)) = Some us"
    "e = c\<lparr>fc_Forma := f, fc_ResourceUpdates := us\<rparr>"
    by (rule stored_FormaCommand_SomeE [OF assms])
  then show ?thesis by (intro overallCommandState_map) (simp add: those_ru_State)
qed

lemma changed_commands:
  "fc_ID (progress_command msg c) = fc_ID c" "fc_ID (complete_command m c) = fc_ID c"
  "fc_ID (bulk_command b c) = fc_ID c"
  "fc_State (progress_command msg c) = overallCommandState (progress_command msg c)"
  "fc_State (complete_command m c) = overallCommandState (complete_command m c)"
  "fc_State (bulk_command b c) = overallCommandState (bulk_command b c)"
  by (simp_all add: progress_command_def complete_command_def bulk_command_def Let_def
      overallCommandState_def)


lemma load_and_store_True:
  assumes "load_and_store d i upd = (d', Inr a)" "cs.by_id d" "\<And>c. fc_ID (upd c) = fc_ID c"
  shows "\<exists>c e. GetFormaCommandByCommandID d i = Inr c \<and> stored_FormaCommand (upd c) = Some e \<and>
      GetFormaCommandByCommandID d' i = Inr e"
    "j \<noteq> i \<Longrightarrow> GetFormaCommandByCommandID d' j = GetFormaCommandByCommandID d j"
proof -
  obtain c where c: "GetFormaCommandByCommandID d i = Inr c"
    using assms(1) by (auto simp: load_and_store_def split: sum.splits)
  then have i: "fc_ID (upd c) = i"
    using assms(2,3) by (simp add: cs.by_id_def)
  obtain u where s: "StoreFormaCommand d (upd c) (fc_ID (upd c)) = (d', Inr u)"
    using assms(1) c by (auto simp: load_and_store_def store_command_def split: prod.splits sum.splits)
  note r = cs.load_change_store [of d i c upd d' u, OF c i s]
  show "\<exists>c e. GetFormaCommandByCommandID d i = Inr c \<and> stored_FormaCommand (upd c) = Some e \<and>
      GetFormaCommandByCommandID d' i = Inr e"
    using c r(1) by blast
  show "j \<noteq> i \<Longrightarrow> GetFormaCommandByCommandID d' j = GetFormaCommandByCommandID d j"
    using r(2) by simp
qed

text \<open>The requests that report on resource updates, and the command each is about.\<close>

fun report_on :: "persister_request \<Rightarrow> string option" where
  "report_on (UpdateProgress msg) = Some (up_CommandID msg)"
| "report_on (MarkResourcesAsRejected msg) = Some (mr_CommandID msg)"
| "report_on (MarkResourcesAsFailed msg) = Some (mr_CommandID msg)"
| "report_on (MarkAsComplete msg) = Some (mc_CommandID msg)"
| "report_on _ = None"

fun command_change :: "persister_request \<Rightarrow> FormaCommand \<Rightarrow> FormaCommand" where
  "command_change (UpdateProgress msg) = progress_command msg"
| "command_change (MarkResourcesAsRejected msg) = bulk_command (bulk_of ResourceUpdateStateRejected msg)"
| "command_change (MarkResourcesAsFailed msg) = bulk_command (bulk_of ResourceUpdateStateFailed msg)"
| "command_change (MarkAsComplete msg) = complete_command msg"
| "command_change _ = id"

lemma report_load_and_store:
  "report_on m = Some i \<Longrightarrow> persister_HandleCall lib d m = load_and_store d i (command_change m)"
  by (cases m) (auto simp: updateCommandFromProgress_def markResourcesAsRejected_def
      markResourcesAsFailed_def bulkUpdateResourceState_def markResourceUpdateAsComplete_def bulk_of_def)

lemma command_change_State:
  "report_on m = Some i \<Longrightarrow> fc_ID (command_change m c) = fc_ID c \<and>
     fc_State (command_change m c) = overallCommandState (command_change m c)"
  by (cases m) (simp_all add: changed_commands)

section \<open>Rows stay in step with their commands\<close>

definition rows_agree :: "datastore \<Rightarrow> bool" where
  "rows_agree d \<longleftrightarrow> (\<forall>row \<in> set (ds_commands d). fc_ID (cr_data row) = cr_command_id row \<and>
     cr_state row = command_state_string (fc_State (cr_data row)) \<and>
     cr_command row = command_string (fc_Command (cr_data row)))"

lemma find_SomeD: "find p xs = Some x \<Longrightarrow> x \<in> set xs \<and> p x"
  by (induction xs) (auto split: if_splits)

lemma rows_agree_by_id: "rows_agree d \<Longrightarrow> cs.by_id d"
  by (auto simp: cs.by_id_def rows_agree_def GetFormaCommandByCommandID_def dest!: find_SomeD
      split: option.splits)

lemma store_command_agree: "rows_agree d \<Longrightarrow> rows_agree (fst (store_command d c))"
  by (auto simp: store_command_def StoreFormaCommand_def rows_agree_def set_replace_into
      stored_FormaCommand_fields split: option.split)

lemma handler_agree: "rows_agree d \<Longrightarrow> rows_agree (fst (persister_HandleCall lib d m))"
proof (cases "report_on m")
  case (Some i)
  then show "rows_agree d \<Longrightarrow> ?thesis"
    by (auto simp: report_load_and_store load_and_store_def store_command_agree split: sum.split)
next
  case None
  then show "rows_agree d \<Longrightarrow> ?thesis"
    by (cases m) (auto simp: storeNewFormaCommand_def loadFormaCommand_def markFormaCommandAsComplete_def
        store_command_agree split: sum.split prod.split)
qed

lemma rows_agree_New: "rows_agree (NewDatastoreSQLite a)"
  by (simp add: rows_agree_def NewDatastoreSQLite_def)

interpretation fp: invariant_machine "\<lambda>d. \<exists>a. d = NewDatastoreSQLite a"
  "\<lambda>d m d'. d' = fst (persister_HandleCall lib d m)" rows_agree for lib
  by unfold_locales (auto simp: rows_agree_New handler_agree)

lemma command_string_sync [simp]: "command_string c = ''sync'' \<longleftrightarrow> c = CommandSync"
  by (cases c) auto

lemma state_string_InProgress [simp]: "command_state_string s = ''InProgress'' \<longleftrightarrow> s = CommandStateInProgress"
  by (cases s) auto

lemma in_LoadIncomplete:
  assumes "rows_agree d" "GetFormaCommandByCommandID d i = Inr e"
  shows "e \<in> set (LoadIncompleteFormaCommands d) \<longleftrightarrow>
    fc_Command e \<noteq> CommandSync \<and> fc_State e = CommandStateInProgress"
proof -
  obtain row where "row \<in> set (ds_commands d)" "cr_data row = e"
    using assms(2) by (auto simp: GetFormaCommandByCommandID_def dest!: find_SomeD split: option.splits)
  then show ?thesis
    using assms(1) by (force simp: LoadIncompleteFormaCommands_def rows_agree_def)
qed

section \<open>Progress of one update\<close>

lemma update_first_nth:
  assumes "i < length xs" "p (xs ! i)" "\<forall>j < i. \<not> p (xs ! j)"
  shows "update_first p f xs = xs[i := f (xs ! i)]"
  using assms
proof (induction xs arbitrary: i)
  case (Cons x xs)
  then show ?case by (cases i) (auto, force)
qed simp

lemma update_first_none: "\<forall>x \<in> set xs. \<not> p x \<Longrightarrow> update_first p f xs = xs"
  by (induction xs) auto

lemma set_properties_keeps [simp]:
  "ru_State (set_properties a b v u) = ru_State u"
  "ru_ProgressResult (set_properties a b v u) = ru_ProgressResult u"
  "ru_MostRecentProgressResult (set_properties a b v u) = ru_MostRecentProgressResult u"
  "ru_Operation (set_properties a b v u) = ru_Operation u"
  by (simp_all add: set_properties_def Let_def)

lemma update_first_map:
  "(\<And>x. p x \<Longrightarrow> g (f x) = g x) \<Longrightarrow> map g (update_first p f xs) = map g xs"
  by (induction xs) auto

lemma replace_progress_ops:
  "map pr_Operation (replace_progress p ps) =
     (if pr_Operation p \<in> pr_Operation ` set ps then map pr_Operation ps
      else map pr_Operation ps @ [pr_Operation p])"
proof -
  have "map pr_Operation (update_first (\<lambda>q. pr_Operation q = pr_Operation p) (\<lambda>_. p) ps) = map pr_Operation ps"
    by (rule update_first_map) simp
  moreover have "list_ex (\<lambda>q. pr_Operation q = pr_Operation p) ps \<longleftrightarrow> pr_Operation p \<in> pr_Operation ` set ps"
    by (simp add: list_ex_iff image_iff) metis
  ultimately show ?thesis by (simp add: replace_progress_def)
qed

lemma replace_progress_in: "p \<in> set (replace_progress p ps)"
proof -
  have "list_ex q ps \<Longrightarrow> p \<in> set (update_first q (\<lambda>_. p) ps)" for q
    by (induction ps) auto
  then show ?thesis by (auto simp: replace_progress_def)
qed

text \<open>What a stored command keeps of its resource updates: how many there are, in which order, and of each the
  resource and the operation. Only a request that stores a command anew may change them.\<close>

definition update_keys :: "FormaCommand \<Rightarrow> (string \<times> OperationType) list" where
  "update_keys c = map (\<lambda>u. (res_Ksuid (ru_Resource u), ru_Operation u)) (fc_ResourceUpdates c)"

fun stores_anew :: "string \<Rightarrow> persister_request \<Rightarrow> bool" where
  "stores_anew i (StoreNewFormaCommand c) \<longleftrightarrow> fc_ID c = i"
| "stores_anew i _ \<longleftrightarrow> False"

lemma stored_ru_key:
  "stored_ResourceUpdate u = Some v \<Longrightarrow> (res_Ksuid (ru_Resource v), ru_Operation v) = (res_Ksuid (ru_Resource u), ru_Operation u)"
  by (auto simp: stored_ResourceUpdate_def stored_Resource_def split: option.splits)

lemma those_map_key: "(\<And>x y. f x = Some y \<Longrightarrow> g y = g x) \<Longrightarrow> those (map f xs) = Some ys \<Longrightarrow> map g ys = map g xs"
  by (induction xs arbitrary: ys) (auto split: option.splits)

lemma stored_keys:
  assumes "stored_FormaCommand c = Some e" shows "update_keys e = update_keys c"
proof -
  obtain f us where "those (map stored_ResourceUpdate (fc_ResourceUpdates c)) = Some us"
    "e = c\<lparr>fc_Forma := f, fc_ResourceUpdates := us\<rparr>"
    by (rule stored_FormaCommand_SomeE [OF assms])
  then show ?thesis using those_map_key [OF stored_ru_key] by (simp add: update_keys_def)
qed

lemma set_properties_Ksuid [simp]: "res_Ksuid (ru_Resource (set_properties a b v u)) = res_Ksuid (ru_Resource u)"
  by (simp add: set_properties_def Let_def)

lemma command_change_keys: "update_keys (command_change m c) = update_keys c"
  by (cases m) (auto simp: update_keys_def progress_command_def complete_command_def bulk_command_def Let_def
      apply_progress_def apply_completion_def intro!: update_first_map)

lemma ApplyToResource_Ksuid: "ApplyToResource lib r = Some t \<Longrightarrow> res_Ksuid t = res_Ksuid r"
  by (auto simp: ApplyToResource_def Let_def split: option.splits if_splits)

lemma hash_all_Ksuid: "hash_all lib rs = Inr (ts, n) \<Longrightarrow> map res_Ksuid ts = map res_Ksuid rs"
  by (induction rs arbitrary: ts n) (auto simp: ApplyToResource_Ksuid split: if_splits option.splits sum.splits)

lemma hashed_keys:
  assumes "hash_all lib (map ru_Resource us) = Inr (rs, n)"
  shows "map (\<lambda>u. (res_Ksuid (ru_Resource u), ru_Operation u)) (map2 (\<lambda>u r. u\<lparr>ru_Resource := r\<rparr>) us rs) =
    map (\<lambda>u. (res_Ksuid (ru_Resource u), ru_Operation u)) us"
proof -
  have "map res_Ksuid rs = map (res_Ksuid \<circ> ru_Resource) us"
    using hash_all_Ksuid [OF assms] by simp
  then have "list_all2 (\<lambda>u r. res_Ksuid r = res_Ksuid (ru_Resource u)) us rs"
    by (auto simp: list_all2_conv_all_nth list_eq_iff_nth_eq)
  then show ?thesis by (induction rule: list_all2_induct) auto
qed

lemma store_command_keeps:
  assumes "GetFormaCommandByCommandID d i = Inr c" "fc_ID x = i \<Longrightarrow> update_keys x = update_keys c"
  shows "\<exists>e. GetFormaCommandByCommandID (fst (store_command d x)) i = Inr e \<and> update_keys e = update_keys c"
proof -
  have f: "fst (store_command d x) = fst (StoreFormaCommand d x (fc_ID x))"
    by (simp add: store_command_def split: prod.split sum.split)
  show ?thesis
  proof (cases "fc_ID x = i")
    case True
    show ?thesis
    proof (cases "stored_FormaCommand x")
      case None
      then show ?thesis using assms(1) cs.store_fails [of x d "fc_ID x"] by (simp add: f)
    next
      case (Some e)
      then show ?thesis using cs.get_store [OF Some, of d "fc_ID x"] stored_keys [OF Some] assms(2) True by (auto simp: f)
    qed
  next
    case False
    then show ?thesis using assms(1) cs.get_store_other [OF False] by (simp add: f)
  qed
qed

lemma handler_keeps:
  assumes "rows_agree d" "GetFormaCommandByCommandID d i = Inr c" "\<not> stores_anew i m"
  shows "\<exists>e. GetFormaCommandByCommandID (fst (persister_HandleCall lib d m)) i = Inr e \<and> update_keys e = update_keys c"
proof (cases "report_on m")
  case (Some j)
  have ids: "fc_ID x = j" if "GetFormaCommandByCommandID d j = Inr x" for x
    using rows_agree_by_id [OF assms(1)] that by (simp add: cs.by_id_def)
  have "update_keys (command_change m x) = update_keys c"
    if "GetFormaCommandByCommandID d j = Inr x" "fc_ID (command_change m x) = i" for x
    using that ids [OF that(1)] command_change_State [OF Some, of x] assms(2) by (simp add: command_change_keys)
  then show ?thesis
    using assms(2) store_command_keeps [OF assms(2)]
    by (auto simp: report_load_and_store [OF Some] load_and_store_def split: sum.split)
next
  case None
  have "\<exists>e. GetFormaCommandByCommandID (fst (markFormaCommandAsComplete lib d j)) i = Inr e \<and> update_keys e = update_keys c" for j
  proof -
    have "update_keys (x\<lparr>fc_Forma := f, fc_ResourceUpdates := map2 (\<lambda>u r. u\<lparr>ru_Resource := r\<rparr>) (fc_ResourceUpdates x) rs\<rparr>) = update_keys c"
      if "GetFormaCommandByCommandID d j = Inr x" "hash_all lib (map ru_Resource (fc_ResourceUpdates x)) = Inr (rs, n)" "fc_ID x = i"
      for x f rs n
      using hashed_keys [OF that(2)] rows_agree_by_id [OF assms(1)] that assms(2) by (simp add: cs.by_id_def update_keys_def)
    then show ?thesis
      using assms(2)
      by (auto simp: markFormaCommandAsComplete_def split: sum.split prod.split intro!: store_command_keeps [OF assms(2)])
  qed
  then show ?thesis
    using None assms(2,3) store_command_keeps [OF assms(2)]
    by (cases m) (auto simp: storeNewFormaCommand_def loadFormaCommand_def split: sum.split)
qed

lemma run_keeps:
  assumes "fp.run lib d ms d'" "rows_agree d" "GetFormaCommandByCommandID d i = Inr c" "\<forall>m \<in> set ms. \<not> stores_anew i m"
  shows "\<exists>e. GetFormaCommandByCommandID d' i = Inr e \<and> update_keys e = update_keys c"
  using assms
proof (induction arbitrary: c rule: fp.run.induct)
  case (run_cons d m d1 ms d')
  then obtain c1 where "GetFormaCommandByCommandID d1 i = Inr c1" "update_keys c1 = update_keys c"
    using handler_keeps [of d i c m lib] by auto
  then show ?case using run_cons handler_agree [of d lib m] by fastforce
qed simp

section \<open>Properties\<close>

text \<open>C35: A stored command keeps its resource updates, and a report brings its state up to date. Whatever
  requests the persister has handled, and whatever requests follow that do not store a command anew under
  the same identifier, the command still has the same updates in the same order, each of the same resource
  and with the same operation. A report on resource updates that is then acknowledged changes exactly the
  command it is about, and keeps these as well; the state that it stores is the one its updates determine: in
  progress as long as some update is unfinished, success when all have succeeded, failed otherwise. A
  restart picks the command up for recovery exactly when it is unfinished and not a synchronization.\<close>

theorem persister_state_agrees:
  assumes "fp.reach lib d" "GetFormaCommandByCommandID d i = Inr c0"
    "fp.run lib d ms d1" "\<forall>m \<in> set ms. \<not> stores_anew i m"
    "report_on m = Some i" "persister_HandleCall lib d1 m = (d', Inr a)"
  shows "\<exists>c e. GetFormaCommandByCommandID d1 i = Inr c \<and> update_keys c = update_keys c0 \<and>
    stored_FormaCommand (command_change m c) = Some e \<and>
    GetFormaCommandByCommandID d' i = Inr e \<and> update_keys e = update_keys c0 \<and>
    (fc_State e = CommandStateInProgress \<longleftrightarrow> (\<exists>u \<in> set (fc_ResourceUpdates e).
       ru_State u \<notin> {ResourceUpdateStateSuccess, ResourceUpdateStateFailed, ResourceUpdateStateRejected})) \<and>
    (fc_State e = CommandStateSuccess \<longleftrightarrow>
       (\<forall>u \<in> set (fc_ResourceUpdates e). ru_State u = ResourceUpdateStateSuccess)) \<and>
    fc_State e \<in> {CommandStateInProgress, CommandStateFailed, CommandStateSuccess} \<and>
    (e \<in> set (LoadIncompleteFormaCommands d') \<longleftrightarrow>
       fc_Command e \<noteq> CommandSync \<and> fc_State e = CommandStateInProgress) \<and>
    (\<forall>j. j \<noteq> i \<longrightarrow> GetFormaCommandByCommandID d' j = GetFormaCommandByCommandID d1 j)"
proof -
  have agree: "rows_agree d" "rows_agree d1" "rows_agree d'"
    using fp.reach_inv [OF assms(1)] fp.run_inv [OF assms(3)] handler_agree [of d1 lib m] assms(6) by simp_all
  have ls: "load_and_store d1 i (command_change m) = (d', Inr a)"
    using assms(6) report_load_and_store [OF assms(5)] by simp
  note st = command_change_State [OF assms(5)]
  note r = load_and_store_True [OF ls rows_agree_by_id [OF agree(2)], simplified st]
  obtain c e where e: "GetFormaCommandByCommandID d1 i = Inr c" "stored_FormaCommand (command_change m c) = Some e"
    "GetFormaCommandByCommandID d' i = Inr e"
    using r(1) by auto
  have keys: "update_keys c = update_keys c0"
    using run_keeps [OF assms(3) agree(1) assms(2,4)] e(1) by auto
  have "fc_State e = overallCommandState e"
    using stored_overall [OF e(2)] stored_FormaCommand_fields(2) [OF e(2)] st by simp
  with e r(2) overallCommandState_cases [of e] in_LoadIncomplete [OF agree(3) e(3)] keys
    stored_keys [OF e(2)] command_change_keys show ?thesis
    by (intro exI [of _ c] exI [of _ e]) simp
qed

definition sample_command :: FormaCommand where
  "sample_command = NewFormaCommand ''cmd'' 1 1 zero_Forma
     \<lparr>cfg_Mode = FormaApplyModeReconcile, cfg_Force = False, cfg_Simulate = False\<rparr> CommandApply
     [zero_ResourceUpdate\<lparr>ru_Resource := sample_r, ru_Operation := OperationDelete\<rparr>,
      zero_ResourceUpdate\<lparr>ru_Resource := sample_r, ru_Operation := OperationCreate\<rparr>] ''client''"

definition sample_progress :: UpdateResourceProgress where
  "sample_progress = \<lparr>up_CommandID = ''cmd'', up_ResourceURI = res_URI sample_r, up_ResourceStartTs = 2,
     up_ResourceModifiedTs = 3, up_ResourceState = ResourceUpdateStateSuccess,
     up_Progress = zero_ProgressResult\<lparr>pr_Operation := PCreate, pr_OperationStatus := OperationStatusSuccess\<rparr>,
     up_ResourceProperties = RawNil, up_ResourceReadOnlyProperties = RawNil, up_Version = ''''\<rparr>"

definition sample_pd1 :: datastore where
  "sample_pd1 = fst (persister_HandleCall sample_hash sample_d0 (StoreNewFormaCommand sample_command))"

theorem persister_state_agrees_witness:
  "\<exists>e. GetFormaCommandByCommandID (fst (persister_HandleCall sample_hash sample_pd1 (UpdateProgress sample_progress)))
        ''cmd'' = Inr e \<and> fc_State e = CommandStateInProgress \<and>
     e \<in> set (LoadIncompleteFormaCommands (fst (persister_HandleCall sample_hash sample_pd1 (UpdateProgress sample_progress))))"
proof -
  let ?m = "UpdateProgress sample_progress" and ?d' = "fst (persister_HandleCall sample_hash sample_pd1 (UpdateProgress sample_progress))"
  have reach: "fp.reach sample_hash sample_pd1"
    unfolding sample_pd1_def sample_d0_def
    by (rule fp.reach_step [where e = "StoreNewFormaCommand sample_command"]) (auto intro: fp.reach_start)
  have ok: "\<not> isl (snd (persister_HandleCall sample_hash sample_pd1 ?m))" by code_simp
  obtain a where a: "persister_HandleCall sample_hash sample_pd1 ?m = (?d', Inr a)"
    using ok by (cases "persister_HandleCall sample_hash sample_pd1 ?m"; cases "snd (persister_HandleCall sample_hash sample_pd1 ?m)") auto
  have on: "report_on ?m = Some ''cmd''" by code_simp
  have st: "(case GetFormaCommandByCommandID ?d' ''cmd'' of Inr e \<Rightarrow> fc_State e = CommandStateInProgress \<and>
      fc_Command e \<noteq> CommandSync | Inl _ \<Rightarrow> False)"
    by code_simp
  obtain c where c: "GetFormaCommandByCommandID sample_pd1 ''cmd'' = Inr c"
    using a report_load_and_store [OF on] by (auto simp: load_and_store_def split: sum.splits)
  from persister_state_agrees [OF reach c fp.run_nil _ on a] st show ?thesis by auto
qed

text \<open>A progress report is recorded on the right update, the first one of the resource whose kind
  admits the reported plugin operation, and on no other: that update takes over the reported
  state and holds the progress, with at most one entry per plugin operation as before. Without
  such an update no update changes.\<close>

theorem progress_recorded:
  defines "matches msg \<equiv> (\<lambda>u. res_Ksuid (ru_Resource u) = KSUID (up_ResourceURI msg) \<and>
    shouldUpdateResourceUpdate u (up_Progress msg))"
  shows "(\<forall>i < length (fc_ResourceUpdates c). matches msg (fc_ResourceUpdates c ! i) \<longrightarrow>
      (\<forall>j < i. \<not> matches msg (fc_ResourceUpdates c ! j)) \<longrightarrow>
      (\<exists>u. fc_ResourceUpdates (progress_command msg c) = (fc_ResourceUpdates c)[i := u] \<and>
         ru_State u = up_ResourceState msg \<and> ru_MostRecentProgressResult u = up_Progress msg \<and>
         up_Progress msg \<in> set (ru_ProgressResult u) \<and>
         (distinct (map pr_Operation (ru_ProgressResult (fc_ResourceUpdates c ! i))) \<longrightarrow>
            distinct (map pr_Operation (ru_ProgressResult u))))) \<and>
    ((\<forall>u \<in> set (fc_ResourceUpdates c). \<not> matches msg u) \<longrightarrow>
      fc_ResourceUpdates (progress_command msg c) = fc_ResourceUpdates c)"
proof -
  have upd: "fc_ResourceUpdates (progress_command msg c) =
      update_first (matches msg) (apply_progress msg) (fc_ResourceUpdates c)"
    by (simp add: progress_command_def matches_def Let_def)
  have "ru_State (apply_progress msg u) = up_ResourceState msg \<and>
      ru_MostRecentProgressResult (apply_progress msg u) = up_Progress msg \<and>
      up_Progress msg \<in> set (ru_ProgressResult (apply_progress msg u)) \<and>
      (distinct (map pr_Operation (ru_ProgressResult u)) \<longrightarrow>
        distinct (map pr_Operation (ru_ProgressResult (apply_progress msg u))))" for u
    by (simp add: apply_progress_def replace_progress_in replace_progress_ops)
  then show ?thesis
    unfolding upd using update_first_nth update_first_none by (metis (no_types, lifting))
qed


theorem progress_recorded_witness:
  "\<exists>u v. fc_ResourceUpdates (progress_command sample_progress sample_command) = [u, v] \<and>
     u = fc_ResourceUpdates sample_command ! 0 \<and> ru_State v = ResourceUpdateStateSuccess \<and>
     ru_MostRecentProgressResult v = up_Progress sample_progress"
proof -
  have m: "length (fc_ResourceUpdates sample_command) = 2"
    "res_Ksuid (ru_Resource (fc_ResourceUpdates sample_command ! 1)) = KSUID (up_ResourceURI sample_progress)"
    "shouldUpdateResourceUpdate (fc_ResourceUpdates sample_command ! 1) (up_Progress sample_progress)"
    "\<not> shouldUpdateResourceUpdate (fc_ResourceUpdates sample_command ! 0) (up_Progress sample_progress)"
    "up_ResourceState sample_progress = ResourceUpdateStateSuccess"
    by code_simp+
  obtain a b where "fc_ResourceUpdates sample_command = [a, b]"
    using m(1) by (auto simp: length_Suc_conv numeral_2_eq_2)
  moreover obtain v where "fc_ResourceUpdates (progress_command sample_progress sample_command) =
      (fc_ResourceUpdates sample_command)[1 := v]" "ru_State v = up_ResourceState sample_progress"
    "ru_MostRecentProgressResult v = up_Progress sample_progress"
    using conjunct1 [OF progress_recorded [of sample_command sample_progress], rule_format, of 1] m
    by (metis less_one one_less_numeral_iff semiring_norm(76))
  ultimately show ?thesis using m(5) by simp
qed

text \<open>
  A completion report carries no plugin operation, and the first update of the resource takes it:
  when a resource is replaced, the report on its creation is written to the deletion.
\<close>

theorem completion_of_create_hits_delete:
  "map (\<lambda>u. (ru_Operation u, ru_State u)) (fc_ResourceUpdates (complete_command
     \<lparr>mc_CommandID = ''cmd'', mc_ResourceURI = res_URI sample_r, mc_FinalState = ResourceUpdateStateFailed,
      mc_ResourceStartTs = 2, mc_ResourceModifiedTs = 3, mc_ResourceProperties = RawNil,
      mc_ResourceReadOnlyProperties = RawNil, mc_Version = ''''\<rparr> sample_command)) =
   [(OperationDelete, ResourceUpdateStateFailed), (OperationCreate, ResourceUpdateStateNotStarted)]"
  by code_simp


end
