(* ===== verification/Resource_Persister.thy ===== *)
theory Resource_Persister
  imports Resource_Updater Forma_Command_Persister
begin

text \<open>
  \<^verbatim>\<open>internal/metastructure/resource_persister/resource_persister.go\<close>: the actor that
  writes the outcome of plugin operations to the datastore and loads resources for the resolve
  cache. The gjson queries, the hash and the visiting orders of maps are arguments, gathered in a
  record; every store draws a fresh KSUID and a fresh version from a supply.
\<close>

section \<open>Environment and errors\<close>

record persister_env =
  pe_get :: gjson_get
  pe_string :: "json \<Rightarrow> string"
  pe_hash :: hash_lib
  pe_ord :: "string list \<Rightarrow> string list"

datatype rp_error =
    TransformFailed string
  | PersistFailed ds_error
  | LoadFailed ds_error
  | UnknownOperation
  | NoStacks string
  | TargetFailed ds_error
  | ResourceNotFound string
  | TargetNotFound string

type_synonym id_supply = "(string \<times> string) list"

section \<open>Validation and classification\<close>

definition GetProperty :: "persister_env \<Rightarrow> Resource \<Rightarrow> string \<Rightarrow> string option" where
  "GetProperty env r query = (case getProperty (pe_get env) r query of
     None \<Rightarrow> None | Some v \<Rightarrow> if v = JNull then None else Some (pe_string env v))"

definition validateRequiredFields :: "persister_env \<Rightarrow> Resource \<Rightarrow> string list" where
  "validateRequiredFields env resource =
     filter (\<lambda>field. case GetProperty env resource field of None \<Rightarrow> True | Some value \<Rightarrow> value = '''')
       (filter (\<lambda>field. case map_of (sch_Hints (res_Schema resource)) field of
            None \<Rightarrow> False | Some h \<Rightarrow> fh_Required h)
         (pe_ord env (map fst (sch_Hints (res_Schema resource)))))"

definition formaCommandFromOperation :: "Operation \<Rightarrow> Command" where
  "formaCommandFromOperation operation = (case operation of PRead \<Rightarrow> CommandSync | _ \<Rightarrow> CommandApply)"

text \<open>\<open>None\<close> is the panic of an operation that is never persisted.\<close>

fun delegateCommandFromOperation :: "OperationType \<Rightarrow> Operation \<Rightarrow> ProgressResult \<Rightarrow> OperationType option" where
  "delegateCommandFromOperation resourceOperation PCreate progress = Some OperationCreate"
| "delegateCommandFromOperation resourceOperation PUpdate progress = Some OperationUpdate"
| "delegateCommandFromOperation resourceOperation PDelete progress = Some OperationDelete"
| "delegateCommandFromOperation resourceOperation PRead progress =
     Some (if pr_ErrorCode progress = ErrNotFound then OperationDelete else OperationRead)"
| "delegateCommandFromOperation resourceOperation _ progress = None"

definition formaFromResourceUpate :: "ResourceUpdate \<Rightarrow> Forma" where
  "formaFromResourceUpate ru = zero_Forma\<lparr>forma_Stacks := [\<lparr>stk_Label = ru_StackLabel ru, stk_Description = []\<rparr>],
     forma_Resources := [ru_Resource ru], forma_Targets := [ru_ResourceTarget ru]\<rparr>"

section \<open>Targets\<close>

text \<open>The text of a configuration is compared by the document it decodes to; a configuration that
  cannot be written compares as the empty text.\<close>

definition target_changed :: "Target \<Rightarrow> Target \<Rightarrow> bool" where
  "target_changed current target \<longleftrightarrow> tgt_Label current \<noteq> tgt_Label target \<or>
     tgt_Namespace current \<noteq> tgt_Namespace target \<or>
     marshal_raw (tgt_Config current) \<noteq> marshal_raw (tgt_Config target)"

fun store_targets :: "string list \<Rightarrow> Target list \<Rightarrow> datastore \<Rightarrow> datastore \<times> rp_error option" where
  "store_targets used [] d = (d, None)"
| "store_targets used (target # ts) d =
     (if tgt_Label target \<notin> set used then store_targets used ts d
      else case LoadTarget d (tgt_Label target) of
             None \<Rightarrow> (case StoreTarget d target of
                 (d', Inl e) \<Rightarrow> (d', Some (TargetFailed e)) | (d', Inr _) \<Rightarrow> store_targets used ts d')
           | Some current \<Rightarrow>
               if target_changed current target
               then (case StoreTarget d target of
                   (d', Inl e) \<Rightarrow> (d', Some (TargetFailed e)) | (d', Inr _) \<Rightarrow> store_targets used ts d')
               else store_targets used ts d)"

definition rp_storeTarget :: "datastore \<Rightarrow> Target list \<Rightarrow> ResourceUpdate list \<Rightarrow> datastore \<times> rp_error option" where
  "rp_storeTarget d targets updates = store_targets (map (\<lambda>rc. res_Target (ru_Resource rc))
     (filter (\<lambda>rc. ru_State rc = ResourceUpdateStateSuccess \<and> res_Target (ru_Resource rc) \<noteq> '''') updates)) targets d"

section \<open>Resources\<close>

definition persist :: "datastore \<times> (ds_error + string) \<Rightarrow> datastore \<times> (rp_error + string)" where
  "persist res = (case res of (d, Inl e) \<Rightarrow> (d, Inl (PersistFailed e)) | (d, Inr v) \<Rightarrow> (d, Inr v))"

definition processResourceUpdate ::
  "hash_lib \<Rightarrow> string \<times> string \<Rightarrow> datastore \<Rightarrow> string \<Rightarrow> ResourceUpdate \<Rightarrow> datastore \<times> (rp_error + string)" where
  "processResourceUpdate lib ids d commandID rc =
     (case ApplyToResource lib (ru_Resource rc) of
        None \<Rightarrow> (d, Inl (TransformFailed (res_Label (ru_Resource rc))))
      | Some secretSafeResource \<Rightarrow>
          (case ru_Operation rc of
             OperationCreate \<Rightarrow> persist (StoreResource (fst ids) (snd ids) d
                 (secretSafeResource\<lparr>res_PatchDocument := RawNil\<rparr>) commandID)
           | OperationUpdate \<Rightarrow> persist (StoreResource (fst ids) (snd ids) d
                 (secretSafeResource\<lparr>res_PatchDocument := RawNil\<rparr>) commandID)
           | OperationDelete \<Rightarrow>
               (case LoadResource d (res_URI (ru_Resource rc)) of
                  Inr (Some r) \<Rightarrow> persist (DeleteResource (fst ids) (snd ids) d (ru_Resource rc) commandID)
                | _ \<Rightarrow> (d, Inr ''''))
           | OperationRead \<Rightarrow>
               (case LoadResource d (res_URI (ru_Resource rc)) of
                  Inl e \<Rightarrow> (d, Inl (LoadFailed e))
                | Inr None \<Rightarrow> persist (StoreResource (fst ids) (snd ids) d secretSafeResource commandID)
                | Inr (Some currentResource) \<Rightarrow>
                    if \<not> JsonEqualRaw (res_Properties currentResource) (res_Properties (ru_Resource rc)) \<or>
                       \<not> JsonEqualRaw (res_ReadOnlyProperties currentResource) (res_ReadOnlyProperties (ru_Resource rc))
                    then persist (StoreResource (fst ids) (snd ids) d secretSafeResource commandID)
                    else (d, Inr ''''))
           | OperationReplace \<Rightarrow> (d, Inl UnknownOperation)))"

text \<open>The inner loop of \<^verbatim>\<open>storeStacks\<close> over the updates, and the loop over the stacks.\<close>

fun store_updates ::
  "hash_lib \<Rightarrow> id_supply \<Rightarrow> string \<Rightarrow> Forma \<Rightarrow> Forma \<Rightarrow> ResourceUpdate list \<Rightarrow> ResourceUpdate list \<Rightarrow> datastore \<Rightarrow>
   datastore \<times> id_supply \<times> (rp_error + ResourceUpdate list)" where
  "store_updates lib ids commandID forma stack bef [] d = (d, ids, Inr bef)"
| "store_updates lib ids commandID forma stack bef (rc # rest) d =
     (if res_Stack (ru_Resource rc) = SingleStackLabel stack \<and> ru_State rc = ResourceUpdateStateSuccess \<and>
         ru_Version rc = ''''
      then case rp_storeTarget d (forma_Targets forma) (bef @ rc # rest) of
             (d1, Some e) \<Rightarrow> (d1, ids, Inl e)
           | (d1, None) \<Rightarrow>
               if length (forma_Stacks stack) = 0 then (d1, ids, Inl (NoStacks (SingleStackLabel stack)))
               else (case processResourceUpdate lib (hd ids) d1 commandID rc of
                       (d2, Inl e) \<Rightarrow> (d2, tl ids, Inl e)
                     | (d2, Inr hash) \<Rightarrow> store_updates lib (tl ids) commandID forma stack
                         (bef @ [if hash \<noteq> '''' then rc\<lparr>ru_Version := hash\<rparr> else rc]) rest d2)
      else store_updates lib ids commandID forma stack (bef @ [rc]) rest d)"

fun store_stack_list ::
  "hash_lib \<Rightarrow> id_supply \<Rightarrow> string \<Rightarrow> Forma \<Rightarrow> Forma list \<Rightarrow> ResourceUpdate list \<Rightarrow> datastore \<Rightarrow>
   datastore \<times> (rp_error + ResourceUpdate list)" where
  "store_stack_list lib ids commandID forma [] updates d = (d, Inr updates)"
| "store_stack_list lib ids commandID forma (stack # stacks) updates d =
     (case store_updates lib ids commandID forma stack [] updates d of
        (d', ids', Inl e) \<Rightarrow> (d', Inl e)
      | (d', ids', Inr updates') \<Rightarrow> store_stack_list lib ids' commandID forma stacks updates' d')"

definition storeStacks ::
  "persister_env \<Rightarrow> id_supply \<Rightarrow> string \<Rightarrow> Forma \<Rightarrow> ResourceUpdate list \<Rightarrow> datastore \<Rightarrow>
   datastore \<times> (rp_error + ResourceUpdate list)" where
  "storeStacks env ids commandID forma updates d =
     store_stack_list (pe_hash env) ids commandID forma (SplitByStack (pe_ord env) forma) updates d"

text \<open>The update that is stored; the read that precedes an update stores the existing resource.\<close>

definition persisted_update :: "OperationType \<Rightarrow> Operation \<Rightarrow> OperationType \<Rightarrow> ResourceUpdate \<Rightarrow> ProgressResult \<Rightarrow> ResourceUpdate" where
  "persisted_update resourceOperation pluginOperation delegated ru progress =
     zero_ResourceUpdate\<lparr>ru_Resource := (if pluginOperation = PRead \<and> resourceOperation = OperationUpdate
           then ru_ExistingResource ru else ru_Resource ru),
       ru_ResourceTarget := ru_ResourceTarget ru, ru_Operation := delegated,
       ru_State := ResourceUpdateStateSuccess, ru_StartTs := pr_StartTs progress,
       ru_ModifiedTs := pr_ModifiedTs progress, ru_MostRecentProgressResult := progress,
       ru_GroupID := ru_GroupID ru\<rparr>"

text \<open>\<open>None\<close> is a panic: the update has no progress for the operation, or the operation is never
  persisted.\<close>

definition storeResourceUpdate ::
  "persister_env \<Rightarrow> id_supply \<Rightarrow> datastore \<Rightarrow> string \<Rightarrow> OperationType \<Rightarrow> Operation \<Rightarrow> ResourceUpdate \<Rightarrow>
   (datastore \<times> (rp_error + string)) option" where
  "storeResourceUpdate env ids d commandID resourceOperation pluginOperation ru =
     (case FindProgress ru pluginOperation of
        None \<Rightarrow> None
      | Some relevantProgress \<Rightarrow>
          if resourceOperation \<noteq> OperationDelete \<and> length (validateRequiredFields env (ru_Resource ru)) > 0
          then Some (d, Inr '''')
          else (case delegateCommandFromOperation resourceOperation pluginOperation relevantProgress of
                  None \<Rightarrow> None
                | Some delegated \<Rightarrow>
                    (case storeStacks env ids commandID (formaFromResourceUpate ru)
                            [persisted_update resourceOperation pluginOperation delegated ru relevantProgress] d of
                       (d', Inl e) \<Rightarrow> Some (d', Inl e)
                     | (d', Inr updates) \<Rightarrow> Some (d', Inr (ru_Version (updates ! 0))))))"

definition loadResource :: "datastore \<Rightarrow> FormaeURI \<Rightarrow> rp_error + LoadResourceResult" where
  "loadResource d resourceURI =
     (case LoadResourceById d (KSUID resourceURI) of
        Inl e \<Rightarrow> Inl (LoadFailed e)
      | Inr None \<Rightarrow> Inl (ResourceNotFound (KSUID resourceURI))
      | Inr (Some res) \<Rightarrow>
          (case LoadTarget d (res_Target res) of
             None \<Rightarrow> Inl (TargetNotFound (res_Target res))
           | Some currentTarget \<Rightarrow> Inr \<lparr>lo_Resource = res, lo_Target = currentTarget\<rparr>))"

datatype rp_request = PersistRequest PersistResourceUpdate | LoadRequest LoadResource

datatype rp_answer = Persisted string | LoadedResource LoadResourceResult

definition rp_HandleCall ::
  "persister_env \<Rightarrow> id_supply \<Rightarrow> datastore \<Rightarrow> rp_request \<Rightarrow> (datastore \<times> (rp_error + rp_answer)) option" where
  "rp_HandleCall env ids d request = (case request of
     PersistRequest req \<Rightarrow>
       (case storeResourceUpdate env ids d (ps_CommandID req) (ps_ResourceOperation req)
               (ps_PluginOperation req) (ps_ResourceUpdate req) of
          None \<Rightarrow> None
        | Some (d', Inl e) \<Rightarrow> Some (d', Inl e)
        | Some (d', Inr hash) \<Rightarrow> Some (d', Inr (Persisted hash)))
   | LoadRequest req \<Rightarrow>
       (case loadResource d (lo_ResourceURI req) of
          Inl e \<Rightarrow> Some (d, Inl e) | Inr r \<Rightarrow> Some (d, Inr (LoadedResource r))))"

section \<open>Secrets\<close>

definition raw_safe :: "raw \<Rightarrow> bool" where
  "raw_safe r = (case r of RawJson j \<Rightarrow> secrets_safe j | _ \<Rightarrow> True)"

definition res_safe :: "Resource \<Rightarrow> bool" where
  "res_safe r \<longleftrightarrow> raw_safe (res_Properties r) \<and> raw_safe (res_ReadOnlyProperties r)"

text \<open>Properties in which opaque values stand where the transformation looks for them.\<close>

definition placed :: "raw \<Rightarrow> bool" where
  "placed r = (case r of RawJson (JObj m) \<Rightarrow> json_wf (JObj m) \<and> \<not> opaque_obj m \<and> (\<forall>(k, v) \<in> set m. well_placed v)
     | _ \<Rightarrow> True)"

definition res_placed :: "Resource \<Rightarrow> bool" where
  "res_placed r \<longleftrightarrow> placed (res_Properties r) \<and> placed (res_ReadOnlyProperties r)"

definition rows_safe :: "resource_row list \<Rightarrow> bool" where
  "rows_safe rows \<longleftrightarrow> (\<forall>row \<in> set rows. \<forall>r. Resource_unmarshal (rr_data row) = Some r \<longrightarrow> res_safe r)"

lemma transform_safe:
  assumes "hash_ok lib" "placed p" "transform_or_nil lib p = Some q"
  shows "raw_safe q"
proof (cases "\<exists>m. p = RawJson (JObj m)")
  case True
  then obtain m where m: "p = RawJson (JObj m)" by blast
  then have "secrets_safe (JObj (processProps lib m))"
    using assms(2) process_secrets(1) [OF assms(1)] by (fastforce simp: placed_def processProps_def list_all_iff)
  then have "secrets_safe (json_sorted (JObj (processProps lib m)))" by (simp only: secrets_safe_sorted)
  then show ?thesis
    using assms(3) m by (auto simp: transform_or_nil_def transformRawProps_def marshal_map_def raw_safe_def
        simp del: json_sorted.simps)
next
  case False
  with assms(3) show ?thesis
    by (auto simp: transform_or_nil_def transformRawProps_def raw_safe_def opaque_obj_def
        split: raw.splits json.splits if_splits)
qed

lemma ApplyToResource_safe:
  assumes "hash_ok lib" "res_placed r" "ApplyToResource lib r = Some s"
  shows "res_safe s"
proof -
  have "transform_or_nil lib (res_Properties r) = Some (res_Properties s)"
    "transform_or_nil lib (res_ReadOnlyProperties r) = Some (res_ReadOnlyProperties s)"
    using assms(3) by (auto simp: ApplyToResource_def Let_def split: option.splits)
  with assms(1,2) transform_safe show ?thesis by (auto simp: res_safe_def res_placed_def)
qed

lemma stored_safe: "res_safe r \<Longrightarrow> stored_Resource r = Some s \<Longrightarrow> res_safe s"
  by (auto simp: stored_Resource_def res_safe_def raw_safe_def split: option.splits
      elim!: stored_raw.elims stored_raw_omit.elims)

lemma store_resource_rows:
  "set (ds_resources (fst (store_resource fresh d r data c operation))) \<subseteq>
     set (ds_resources d) \<union> {row. rr_data row = data}"
proof (cases "latest_where (\<lambda>q. rr_native_id q = res_NativeID r \<and> rr_type q = res_Type r) (ds_resources d)")
  case None
  then show ?thesis
    by (auto simp: store_resource_def insert_into_Some simp del: latest_where_None split: option.splits)
next
  case (Some ex)
  let ?d1 = "drop_unmanaged ex operation d"
  have d1: "set (ds_resources ?d1) \<subseteq> set (ds_resources d)"
    by (auto simp: drop_unmanaged_def)
  have w: "set (ds_resources (write_version r v c operation data ?d1)) \<subseteq> set (ds_resources ?d1) \<union> {q. rr_data q = data}" for v
    by (auto simp: write_version_def set_replace_into)
  show ?thesis
  proof (cases "Resource_unmarshal (rr_data ex)")
    case None
    with Some d1 show ?thesis by (auto simp: store_resource_def)
  next
    case e: (Some e)
    have "fst (store_changed fresh ex r data c operation e ?d1) = ?d1 \<or>
        (\<exists>v. fst (store_changed fresh ex r data c operation e ?d1) = write_version r v c operation data ?d1)"
      by (rule store_changed_cases)
    then have "set (ds_resources (fst (store_changed fresh ex r data c operation e ?d1))) \<subseteq>
        set (ds_resources d) \<union> {row. rr_data row = data}"
      using d1 w by (elim disjE exE) (simp_all only:, blast+)
    then show ?thesis
      using Some e by (simp add: store_resource_def)
  qed
qed

lemma storeResource_safe:
  assumes "rows_safe (ds_resources d)" "\<And>r. Resource_unmarshal data = Some r \<Longrightarrow> res_safe r"
  shows "rows_safe (ds_resources (fst (storeResource newID fresh d r data c operation)))"
  using assms store_resource_rows unfolding rows_safe_def storeResource_def
  by (fastforce split: sum.splits)

lemma StoreResource_safe:
  assumes "rows_safe (ds_resources d)" "res_safe r"
  shows "rows_safe (ds_resources (fst (StoreResource newID fresh d r c)))"
  using assms storeResource_safe Resource_unmarshal_marshal stored_safe
  by (auto simp: StoreResource_def split: option.split) metis

lemma DeleteResource_safe:
  assumes "rows_safe (ds_resources d)"
  shows "rows_safe (ds_resources (fst (DeleteResource newID fresh d r c)))"
  unfolding DeleteResource_def
  by (rule storeResource_safe [OF assms]) (simp add: zero_Resource_def res_safe_def raw_safe_def)

lemma fst_persist [simp]: "fst (persist res) = fst res"
  by (auto simp: persist_def split: prod.split sum.split)

definition rp_ok :: "datastore \<Rightarrow> bool" where
  "rp_ok d \<longleftrightarrow> ds_ok d \<and> rows_safe (ds_resources d)"

lemma processResourceUpdate_ok:
  assumes "hash_ok lib" "rp_ok d" "res_placed (ru_Resource rc)"
  shows "rp_ok (fst (processResourceUpdate lib ids d commandID rc))"
proof (cases "ApplyToResource lib (ru_Resource rc)")
  case None
  then show ?thesis using assms(2) by (simp add: processResourceUpdate_def)
next
  case (Some s)
  have s: "res_safe s" "res_safe (s\<lparr>res_PatchDocument := RawNil\<rparr>)"
    using ApplyToResource_safe [OF assms(1,3) Some] by (simp_all add: res_safe_def)
  then show ?thesis
    using assms(2) unfolding rp_ok_def
    by (auto simp: processResourceUpdate_def Some StoreResource_ok DeleteResource_ok StoreResource_safe
        DeleteResource_safe split: OperationType.split sum.split option.split)
qed


section \<open>Targets are written once\<close>

definition keeps_targets :: "datastore \<Rightarrow> datastore \<Rightarrow> bool" where
  "keeps_targets d d' \<longleftrightarrow> (\<forall>l t. LoadTarget d l = Some t \<longrightarrow> LoadTarget d' l = Some t)"

lemma keeps_targets_refl: "keeps_targets d d"
  by (simp add: keeps_targets_def)

lemma keeps_targets_trans: "keeps_targets d d' \<Longrightarrow> keeps_targets d' d'' \<Longrightarrow> keeps_targets d d''"
  by (simp add: keeps_targets_def)

lemma same_targets: "ds_targets d' = ds_targets d \<Longrightarrow> keeps_targets d d'"
  by (simp add: keeps_targets_def LoadTarget_def)

lemma find_append: "find p (xs @ ys) = (case find p xs of None \<Rightarrow> find p ys | Some x \<Rightarrow> Some x)"
  by (induction xs) auto

lemma StoreTarget_keeps: "keeps_targets d (fst (StoreTarget d t))"
  by (auto simp: StoreTarget_def keeps_targets_def LoadTarget_def find_append split: option.split)

lemma store_targets_simps [simp]:
  "ds_targets (drop_unmanaged ex operation d) = ds_targets d"
  "ds_targets (write_version r v c operation data d) = ds_targets d"
  by (simp_all add: drop_unmanaged_def write_version_def)

lemma store_changed_targets [simp]:
  "ds_targets (fst (store_changed fresh ex r data c operation e d)) = ds_targets d"
  by (simp add: store_changed_def Let_def split: option.split)

lemma storeResource_targets [simp]: "ds_targets (fst (storeResource i v d r data c operation)) = ds_targets d"
  by (simp add: storeResource_def store_resource_def split: sum.split option.split)

lemma Store_Delete_targets [simp]:
  "ds_targets (fst (StoreResource i v d r c)) = ds_targets d"
  "ds_targets (fst (DeleteResource i v d r c)) = ds_targets d"
  by (simp_all add: StoreResource_def DeleteResource_def split: option.split)

lemma processResourceUpdate_targets: "ds_targets (fst (processResourceUpdate lib ids d c rc)) = ds_targets d"
  by (simp add: processResourceUpdate_def split: option.split OperationType.split sum.split)

section \<open>One request\<close>

text \<open>What every request keeps: the integrity of the datastore, the safety of its rows and the
  targets that are already there.\<close>

definition keeps :: "bool \<Rightarrow> datastore \<Rightarrow> datastore \<Rightarrow> bool" where
  "keeps g d d' \<longleftrightarrow> (g \<longrightarrow> rp_ok d \<longrightarrow> rp_ok d') \<and> keeps_targets d d'"

lemma keeps_refl: "keeps g d d"
  by (simp add: keeps_def keeps_targets_refl)

lemma keeps_trans: "keeps g d d' \<Longrightarrow> keeps g d' d'' \<Longrightarrow> keeps g d d''"
  using keeps_targets_trans by (auto simp: keeps_def)

lemma StoreTarget_keeps_rows: "keeps g d (fst (StoreTarget d t))"
proof -
  have "ds_resources (fst (StoreTarget d t)) = ds_resources d"
    by (simp add: StoreTarget_def split: option.split)
  then show ?thesis
    using StoreTarget_ok [of d t] StoreTarget_keeps [of d t] by (simp add: keeps_def rp_ok_def)
qed

lemma store_targets_keeps: "keeps g d (fst (store_targets used ts d))"
proof (induction ts arbitrary: d)
  case Nil
  then show ?case by (simp add: keeps_refl)
next
  case (Cons t ts)
  obtain d' e where st: "StoreTarget d t = (d', e)" by (cases "StoreTarget d t")
  then have k: "keeps g d d'" using StoreTarget_keeps_rows [of g d t] by simp
  have "keeps g d (fst (store_targets used ts d'))"
    by (rule keeps_trans [OF k Cons.IH])
  with k Cons.IH [of d] show ?case
    by (simp add: st split: option.split sum.split)
qed

lemma rp_storeTarget_keeps: "keeps g d (fst (rp_storeTarget d ts us))"
  by (simp add: rp_storeTarget_def store_targets_keeps)

lemma processResourceUpdate_keeps:
  "g \<longrightarrow> hash_ok lib \<and> res_placed (ru_Resource rc) \<Longrightarrow> keeps g d (fst (processResourceUpdate lib ids d c rc))"
  using processResourceUpdate_ok processResourceUpdate_targets same_targets by (metis keeps_def)

lemma store_updates_keeps:
  assumes "g \<longrightarrow> hash_ok lib" "g \<longrightarrow> (\<forall>u \<in> set (bef @ us). res_placed (ru_Resource u))"
  shows "keeps g d (fst (store_updates lib ids c forma stack bef us d)) \<and>
    (\<forall>us'. snd (snd (store_updates lib ids c forma stack bef us d)) = Inr us' \<longrightarrow>
       (g \<longrightarrow> (\<forall>u \<in> set us'. res_placed (ru_Resource u))))"
  using assms(2)
proof (induction us arbitrary: ids bef d)
  case Nil
  then show ?case by (simp add: keeps_refl)
next
  case (Cons rc us)
  obtain d1 e1 where t: "rp_storeTarget d (forma_Targets forma) (bef @ rc # us) = (d1, e1)"
    by (cases "rp_storeTarget d (forma_Targets forma) (bef @ rc # us)")
  then have d1: "keeps g d d1"
    using rp_storeTarget_keeps [of g d "forma_Targets forma" "bef @ rc # us"] by simp
  obtain d2 e2 where p: "processResourceUpdate lib (hd ids) d1 c rc = (d2, e2)"
    by (cases "processResourceUpdate lib (hd ids) d1 c rc")
  then have d2: "keeps g d d2"
    using processResourceUpdate_keeps [of g lib rc d1 "hd ids" c] assms(1) Cons.prems d1 keeps_trans by auto
  have IH: "keeps g e (fst (store_updates lib ids' c forma stack (bef @ [u]) us e)) \<and>
      (\<forall>us'. snd (snd (store_updates lib ids' c forma stack (bef @ [u]) us e)) = Inr us' \<longrightarrow>
         (g \<longrightarrow> (\<forall>u \<in> set us'. res_placed (ru_Resource u))))"
    if "ru_Resource u = ru_Resource rc" for u e ids'
    using Cons.IH [of "bef @ [u]" e ids'] Cons.prems that by auto
  show ?case
    using IH [of rc] IH [of "rc\<lparr>ru_Version := h\<rparr>" for h] d1 d2 keeps_trans
    by (auto simp: t p split: option.split sum.split)
qed

lemma store_stack_list_keeps:
  assumes "g \<longrightarrow> hash_ok lib"
  shows "g \<longrightarrow> (\<forall>u \<in> set us. res_placed (ru_Resource u)) \<Longrightarrow> keeps g d (fst (store_stack_list lib ids c forma stacks us d))"
proof (induction stacks arbitrary: us d ids)
  case Nil
  then show ?case by (simp add: keeps_refl)
next
  case (Cons s stacks)
  obtain d' ids' r where r: "store_updates lib ids c forma s [] us d = (d', ids', r)"
    by (cases "store_updates lib ids c forma s [] us d") auto
  then have "keeps g d d'" "\<forall>us'. r = Inr us' \<longrightarrow> (g \<longrightarrow> (\<forall>u \<in> set us'. res_placed (ru_Resource u)))"
    using store_updates_keeps [OF assms, of "[]" us d ids c forma s] Cons.prems by auto
  then show ?case
    using Cons.IH keeps_trans by (auto simp: r split: sum.split)
qed

definition request_placed :: "rp_request \<Rightarrow> bool" where
  "request_placed req = (case req of PersistRequest p \<Rightarrow>
     res_placed (ru_Resource (ps_ResourceUpdate p)) \<and> res_placed (ru_ExistingResource (ps_ResourceUpdate p))
     | LoadRequest l \<Rightarrow> True)"

lemma rp_HandleCall_keeps:
  assumes "g \<longrightarrow> hash_ok (pe_hash env)" "g \<longrightarrow> request_placed req" "rp_HandleCall env ids d req = Some (d', ans)"
  shows "keeps g d d'"
proof (cases req)
  case (LoadRequest l)
  with assms(3) show ?thesis by (auto simp: rp_HandleCall_def keeps_refl split: sum.splits)
next
  case (PersistRequest p)
  have "keeps g d (fst (storeStacks env ids c f [persisted_update ro po op (ps_ResourceUpdate p) pr] d))" for c f ro po op pr
    unfolding storeStacks_def
    using assms(2) PersistRequest
    by (intro store_stack_list_keeps [OF assms(1)]) (simp add: request_placed_def persisted_update_def)
  then show ?thesis
    using assms(3) keeps_refl PersistRequest
    by (auto simp: rp_HandleCall_def storeResourceUpdate_def split: option.splits sum.splits prod.splits if_splits)
       (metis fst_conv)+
qed

interpretation rp: invariant_machine "\<lambda>d. \<exists>a. d = NewDatastoreSQLite a"
  "\<lambda>d e d'. request_placed (snd e) \<and> (\<exists>ans. rp_HandleCall env (fst e) d (snd e) = Some (d', ans))"
  "\<lambda>d. hash_ok (pe_hash env) \<longrightarrow> rp_ok d" for env
proof (unfold_locales, goal_cases)
  case (1 d)
  then show ?case by (auto simp: rp_ok_def ds_ok_New rows_safe_def) (simp add: NewDatastoreSQLite_def)
next
  case (2 d e d')
  then show ?case
    using rp_HandleCall_keeps [of "hash_ok (pe_hash env)" env "snd e" "fst e" d d'] by (auto simp: keeps_def)
qed

section \<open>Samples\<close>

definition sample_penv_rp :: persister_env where
  "sample_penv_rp = \<lparr>pe_get = (\<lambda>r q. None), pe_string = (\<lambda>j. ''''), pe_hash = sample_hash, pe_ord = id\<rparr>"

definition secret_r :: Resource where
  "secret_r = sample_r\<lparr>res_Target := ''t'', res_Properties := RawJson (JObj [(''password'',
     JObj [(''$visibility'', JStr ''Opaque''), (''$value'', JStr ''secret'')])])\<rparr>"

definition sample_request :: rp_request where
  "sample_request = PersistRequest \<lparr>ps_CommandID = ''cmd'', ps_ResourceOperation = OperationCreate,
     ps_PluginOperation = PCreate, ps_ResourceUpdate = zero_ResourceUpdate\<lparr>ru_Resource := secret_r,
       ru_ResourceTarget := \<lparr>tgt_Label = ''t'', tgt_Namespace = ''AWS'', tgt_Config = RawJson (JObj [])\<rparr>,
       ru_Operation := OperationCreate, ru_StackLabel := ''s'',
       ru_ProgressResult := [zero_ProgressResult\<lparr>pr_Operation := PCreate,
         pr_OperationStatus := OperationStatusSuccess\<rparr>]\<rparr>\<rparr>"

definition sample_rd1 :: datastore where
  "sample_rd1 = fst (the (rp_HandleCall sample_penv_rp [(''id'', ''v1'')] sample_d0 sample_request))"

section \<open>Properties\<close>

text \<open>Whatever requests the resource persister has handled, no resource it hands out carries a
  secret in clear: every opaque value of its properties and read-only properties is absent, empty
  or a hash, provided the opaque values of the incoming resources stand where the transformation
  looks for them. The datastore it writes keeps its integrity.\<close>

theorem persisted_without_secrets:
  assumes "hash_ok (pe_hash env)" "rp.reach env d" "loadResource d uri = Inr res"
  shows "res_safe (lo_Resource res) \<and> ds_ok d"
proof -
  have ok: "rp_ok d" using rp.reach_inv [OF assms(2)] assms(1) by blast
  obtain r where r: "LoadResourceById d (KSUID uri) = Inr (Some r)" "lo_Resource res = r"
    using assms(3) by (auto simp: loadResource_def split: sum.splits option.splits)
  then obtain row where lw: "latest_where (\<lambda>q. rr_ksuid q = KSUID uri \<and> rr_operation q \<noteq> OperationDelete)
      (ds_resources d) = Some row" and "load_row row = Inr r"
    by (auto simp: LoadResourceById_def load_first_def simp del: latest_where_None split: option.splits sum.splits)
  then obtain r0 where "Resource_unmarshal (rr_data row) = Some r0" "r = r0\<lparr>res_Ksuid := rr_ksuid row\<rparr>"
    by (auto simp: load_row_def split: option.splits)
  with latest_where_Some(1) [OF lw] ok r(2) show ?thesis
    by (auto simp: rp_ok_def rows_safe_def res_safe_def)
qed

theorem persisted_without_secrets_witness:
  "\<exists>res. loadResource sample_rd1 (res_URI secret_r) = Inr res \<and> res_safe (lo_Resource res)"
proof -
  have h: "rp_HandleCall sample_penv_rp [(''id'', ''v1'')] sample_d0 sample_request \<noteq> None"
    "request_placed sample_request" and l: "\<not> isl (loadResource sample_rd1 (res_URI secret_r))"
    by code_simp+
  obtain res where res: "loadResource sample_rd1 (res_URI secret_r) = Inr res"
    using l by (metis isl_def sum.exhaust)
  obtain ans where "rp_HandleCall sample_penv_rp [(''id'', ''v1'')] sample_d0 sample_request = Some (sample_rd1, ans)"
    using h(1) unfolding sample_rd1_def by force
  then have "rp.reach sample_penv_rp sample_rd1"
    using h(2) rp.reach_step [where e = "([(''id'', ''v1'')], sample_request)" and s = sample_d0] rp.reach_start
    unfolding sample_d0_def by fastforce
  moreover have "hash_ok (pe_hash sample_penv_rp)" by (simp add: sample_penv_rp_def sample_hash_ok)
  ultimately show ?thesis using persisted_without_secrets res by blast
qed

text \<open>A target is written once. No request changes or removes a target that is stored, even when the
  persister finds that the target of an update differs and reports that it has persisted the
  change.\<close>

theorem targets_written_once:
  assumes "rp_HandleCall env ids d req = Some (d', ans)" "LoadTarget d l = Some t"
  shows "LoadTarget d' l = Some t"
  using rp_HandleCall_keeps [of False env req ids d d' ans] assms by (simp add: keeps_def keeps_targets_def)

theorem targets_written_once_witness:
  "\<exists>t. LoadTarget sample_rd1 ''t'' = Some t \<and> tgt_Namespace t = ''AWS'' \<and>
    LoadTarget (fst (the (rp_HandleCall sample_penv_rp [(''id'', ''v2'')] sample_rd1
      (case sample_request of PersistRequest p \<Rightarrow> PersistRequest (p\<lparr>ps_ResourceUpdate :=
        (ps_ResourceUpdate p)\<lparr>ru_ResourceTarget := \<lparr>tgt_Label = ''t'', tgt_Namespace = ''OCI'', tgt_Config = RawNil\<rparr>\<rparr>\<rparr>)
        | r \<Rightarrow> r)))) ''t'' = Some t"
proof -
  let ?req = "case sample_request of PersistRequest p \<Rightarrow> PersistRequest (p\<lparr>ps_ResourceUpdate :=
        (ps_ResourceUpdate p)\<lparr>ru_ResourceTarget := \<lparr>tgt_Label = ''t'', tgt_Namespace = ''OCI'', tgt_Config = RawNil\<rparr>\<rparr>\<rparr>)
        | r \<Rightarrow> r"
  have "rp_HandleCall sample_penv_rp [(''id'', ''v2'')] sample_rd1 ?req \<noteq> None"
    "map_option tgt_Namespace (LoadTarget sample_rd1 ''t'') = Some ''AWS''"
    by code_simp+
  then show ?thesis
    using targets_written_once [of sample_penv_rp "[(''id'', ''v2'')]" sample_rd1 ?req] by force
qed


end
