(* ===== verification/Resolve_Cache.thy ===== *)
theory Resolve_Cache
  imports Resource_Persister
begin

text \<open>
  \<^verbatim>\<open>internal/metastructure/changeset/resolve_cache.go\<close>: the actor that answers the
  references of a changeset with live property values, reading each resource once. The cache maps
  a resource to the parsed document of its read; the answers of the resource persister and of the
  plugin operator are functions of what they are asked.
\<close>

section \<open>Definitions\<close>

datatype load_answer = LoadError | LoadOther | LoadOk LoadResourceResult

record cache_env =
  ce_lib :: json_lib
  ce_load :: "LoadResource \<Rightarrow> load_answer"
  ce_ensure :: "FormaeURI \<Rightarrow> bool"
  ce_read :: "FormaeURI \<Rightarrow> ReadResource \<Rightarrow> plugin_answer"

text \<open>A gjson result that does not exist is \<open>None\<close>.\<close>

type_synonym resolve_cache = "(FormaeURI \<times> json option) list"

definition result_Get :: "json_lib \<Rightarrow> json option \<Rightarrow> string \<Rightarrow> json option" where
  "result_Get lib res path = (case res of None \<Rightarrow> None | Some j \<Rightarrow> gj_Get lib j path)"

definition opaque_prop :: "json_lib \<Rightarrow> json option \<Rightarrow> string \<Rightarrow> json \<Rightarrow> json option" where
  "opaque_prop lib originalProps propName propValue =
     (case result_Get lib originalProps propName of
        None \<Rightarrow> None
      | Some originalProp \<Rightarrow>
          if get_text lib originalProp ''$visibility'' = ''Opaque''
          then Some (JObj ([(''$value'', propValue), (''$visibility'', JStr ''Opaque'')] @
            (let strategy = get_text lib originalProp ''$strategy''
             in if strategy \<noteq> '''' then [(''$strategy'', JStr strategy)] else [])))
          else None)"

text \<open>
  Every property is treated on its own, so the visiting order of the map does not matter. Documents
  that are not objects cannot be decoded into the map and are returned as they are; null decodes
  to a map without entries.
\<close>

definition preserveRefMetadata :: "json_lib \<Rightarrow> Resource \<Rightarrow> json option \<Rightarrow> json option" where
  "preserveRefMetadata lib originalResource pluginResult =
     (if \<not> hasOpaqueValues (res_Properties originalResource) then pluginResult
      else let originalProps = parse_raw lib (res_Properties originalResource)
           in case pluginResult of
                Some (JObj pluginProps) \<Rightarrow>
                  if list_ex (\<lambda>(k, v). opaque_prop lib originalProps k v \<noteq> None) pluginProps
                  then Some (json_sorted (JObj (map (\<lambda>(k, v).
                    (k, case opaque_prop lib originalProps k v of None \<Rightarrow> v | Some w \<Rightarrow> w)) pluginProps)))
                  else pluginResult
              | _ \<Rightarrow> pluginResult)"

definition read_request :: "LoadResourceResult \<Rightarrow> ReadResource" where
  "read_request l = \<lparr>rr_Namespace = Namespace (lo_Resource l), rr_NativeID = res_NativeID (lo_Resource l),
     rr_Target = lo_Target l, rr_Resource = lo_Resource l, rr_ExistingResource = lo_Resource l,
     rr_IsSync = False, rr_IsDelete = False, rr_RedactSensitive = False\<rparr>"

definition cached_value :: "json_lib \<Rightarrow> json option \<Rightarrow> FormaeURI \<Rightarrow> string option" where
  "cached_value lib res uri = map_option (gj_String lib) (result_Get lib res (PropertyPath uri))"

text \<open>\<open>None\<close> is an error; every error is answered in the same way.\<close>

definition resolveValue :: "cache_env \<Rightarrow> resolve_cache \<Rightarrow> FormaeURI \<Rightarrow> resolve_cache \<times> string option" where
  "resolveValue env cache resourceURI =
     (case map_of cache (Stripped resourceURI) of
        Some res \<Rightarrow> (cache, cached_value (ce_lib env) res resourceURI)
      | None \<Rightarrow>
          (case ce_load env \<lparr>lo_ResourceURI = Stripped resourceURI\<rparr> of
             LoadOk loadResourceResult \<Rightarrow>
               if \<not> ce_ensure env (Stripped resourceURI) then (cache, None)
               else (case ce_read env (Stripped resourceURI) (read_request loadResourceResult) of
                  Answer progress \<Rightarrow>
                    let parsed = parse_raw (ce_lib env) (pr_ResourceProperties progress);
                        enhancedParsed = preserveRefMetadata (ce_lib env) (lo_Resource loadResourceResult) parsed
                    in (AList.update (Stripped resourceURI) enhancedParsed cache,
                        cached_value (ce_lib env) enhancedParsed resourceURI)
                | _ \<Rightarrow> (cache, None))
           | _ \<Rightarrow> (cache, None)))"

datatype cache_message = Resolve ResolveValue | CacheShutdown

datatype cache_response = Resolved ValueResolved | FailedToResolve FailedToResolveValue | CacheStopped

definition cache_HandleMessage :: "cache_env \<Rightarrow> resolve_cache \<Rightarrow> cache_message \<Rightarrow> resolve_cache \<times> cache_response" where
  "cache_HandleMessage env cache message = (case message of
     Resolve msg \<Rightarrow> (case resolveValue env cache (rv_ResourceURI msg) of
         (cache', None) \<Rightarrow> (cache', FailedToResolve \<lparr>fr_ResourceURI = rv_ResourceURI msg\<rparr>)
       | (cache', Some value) \<Rightarrow> (cache', Resolved \<lparr>vr_ResourceURI = rv_ResourceURI msg, vr_Value = value\<rparr>))
   | CacheShutdown \<Rightarrow> (cache, CacheStopped))"

section \<open>Facts\<close>

text \<open>A resource is cached exactly when its read has been answered, and a cached document is final.\<close>

lemma resolveValue_keeps:
  "map_of cache u = Some res \<Longrightarrow> map_of (fst (resolveValue env cache w)) u = Some res"
  by (auto simp: resolveValue_def update_conv' Let_def split: option.split load_answer.split plugin_answer.split)

lemma resolveValue_cached:
  "map_of cache (Stripped w) = Some res \<Longrightarrow> resolveValue env cache w = (cache, cached_value (ce_lib env) res w)"
  by (simp add: resolveValue_def)

fun resolve_all :: "cache_env list \<Rightarrow> resolve_cache \<Rightarrow> FormaeURI list \<Rightarrow> resolve_cache" where
  "resolve_all (env # envs) cache (w # ws) = resolve_all envs (fst (resolveValue env cache w)) ws"
| "resolve_all _ cache _ = cache"

lemma resolve_all_keeps:
  "map_of cache u = Some res \<Longrightarrow> map_of (resolve_all envs cache ws) u = Some res"
  by (induction envs cache ws rule: resolve_all.induct) (auto intro: resolveValue_keeps)

definition sample_cenv :: cache_env where
  "sample_cenv = \<lparr>ce_lib = key_lib, ce_load = (\<lambda>l. LoadOk \<lparr>lo_Resource = sample_r, lo_Target = zero_Target\<rparr>),
     ce_ensure = (\<lambda>_. True),
     ce_read = (\<lambda>_ _. Answer (zero_ProgressResult\<lparr>pr_ResourceProperties := RawJson (JObj [(''id'', JStr ''vpc-1'')])\<rparr>))\<rparr>"

section \<open>Properties\<close>

text \<open>A resource is read at most once per changeset. Once a read of it has been answered, every later
  request for one of its properties, whatever was asked in between and whatever the other actors
  would answer now, is answered from the document of that read and leaves the cache as it is.
  The answer of the read is cached without looking at its status: when the read failed, every
  later request for the resource fails too.\<close>

theorem resource_read_once:
  assumes "map_of cache (Stripped u) = None"
    "ce_load env \<lparr>lo_ResourceURI = Stripped u\<rparr> = LoadOk l" "ce_ensure env (Stripped u)"
    "ce_read env (Stripped u) (read_request l) = Answer progress"
    "doc = preserveRefMetadata (ce_lib env) (lo_Resource l) (parse_raw (ce_lib env) (pr_ResourceProperties progress))"
    "cache' = resolve_all envs (fst (resolveValue env cache u)) ws" "Stripped w = Stripped u"
  shows "resolveValue env' cache' w = (cache', cached_value (ce_lib env') doc w) \<and>
    (pr_ResourceProperties progress = RawNil \<longrightarrow> snd (resolveValue env' cache' w) = None)"
proof -
  have "map_of (fst (resolveValue env cache u)) (Stripped u) = Some doc"
    using assms(1-5) by (simp add: resolveValue_def update_conv' Let_def)
  then have c: "map_of cache' (Stripped w) = Some doc"
    using resolve_all_keeps assms(6,7) by simp
  moreover have "doc = None" if "pr_ResourceProperties progress = RawNil"
    using that assms(5) by (simp add: parse_raw_def preserveRefMetadata_def)
  ultimately show ?thesis
    by (auto simp: resolveValue_cached [OF c] cached_value_def result_Get_def)
qed

theorem resource_read_once_witness:
  "snd (resolveValue (sample_cenv\<lparr>ce_read := (\<lambda>_ _. CallFailed)\<rparr>)
      (resolve_all [sample_cenv] (fst (resolveValue sample_cenv [] (NewFormaeURI ''k1'' ''id'')))
        [NewFormaeURI ''k2'' ''id'']) (NewFormaeURI ''k1'' ''id'')) = Some ''vpc-1''"
proof -
  let ?u = "NewFormaeURI ''k1'' ''id''" and ?l = "\<lparr>lo_Resource = sample_r, lo_Target = zero_Target\<rparr>"
  have "cached_value key_lib (preserveRefMetadata key_lib sample_r
      (parse_raw key_lib (RawJson (JObj [(''id'', JStr ''vpc-1'')])))) ?u = Some ''vpc-1''"
    by code_simp
  then show ?thesis
    using resource_read_once [of "[]" ?u sample_cenv ?l "zero_ProgressResult\<lparr>pr_ResourceProperties :=
        RawJson (JObj [(''id'', JStr ''vpc-1'')])\<rparr>" _ _ "[sample_cenv]" "[NewFormaeURI ''k2'' ''id'']" ?u
        "sample_cenv\<lparr>ce_read := (\<lambda>_ _. CallFailed)\<rparr>"]
    by (simp add: sample_cenv_def)
qed

end
