(* ===== verification/Map_Strings.thy ===== *)
theory Map_Strings
  imports Datastore
begin

text \<open>
  \<^verbatim>\<open>internal/metastructure/util/maps.go\<close>: a map of texts written as one text and read back,
  and the text functions of the standard library that the discovery uses. A map is a list of pairs with
  distinct keys.
\<close>

section \<open>Definitions\<close>

text \<open>\<^verbatim>\<open>strings.Split\<close> at a one-character separator.\<close>

fun strings_Split :: "char \<Rightarrow> string \<Rightarrow> string list" where
  "strings_Split c [] = [[]]"
| "strings_Split c (x # xs) =
     (if x = c then [] # strings_Split c xs
      else (case strings_Split c xs of [] \<Rightarrow> [[x]] | w # ws \<Rightarrow> (x # w) # ws))"

definition pair_string :: "(string \<times> string) list \<Rightarrow> string \<Rightarrow> string" where
  "pair_string m k = k @ '':'' @ (case map_of m k of None \<Rightarrow> '''' | Some v \<Rightarrow> v)"

definition MapToString :: "(string \<times> string) list \<Rightarrow> string" where
  "MapToString m = (if length m = 0 then '''' else strings_Join (map (pair_string m) (sort (map fst m))) '','')"

text \<open>\<open>None\<close> is the panic of an index out of range: a part without a colon.\<close>

definition read_pair :: "string \<Rightarrow> (string \<times> string) list \<Rightarrow> (string \<times> string) list option" where
  "read_pair pair result = (let parts = strings_SplitN2 pair (CHR '':'')
     in if length parts < 2 then None else Some (AList.update (parts ! 0) (parts ! 1) result))"

definition StringToMap :: "string \<Rightarrow> (string \<times> string) list option" where
  "StringToMap s =
     (if length s = 0 then Some []
      else ofold read_pair (strings_Split (CHR '','') s) [])"

text \<open>\<^verbatim>\<open>url.QueryEscape\<close>: letters, digits and four marks stay, a space becomes a plus, every
  other byte a percent sign and two hexadecimal digits.\<close>

definition unreserved :: "char \<Rightarrow> bool" where
  "unreserved c \<longleftrightarrow> list_ex (\<lambda>range. hd range \<le> c \<and> c \<le> last range) [''AZ'', ''az'', ''09''] \<or> c \<in> set ''-_.~''"

definition hex_digit :: "nat \<Rightarrow> char" where
  "hex_digit n = ''0123456789ABCDEF'' ! n"

definition QueryEscape :: "string \<Rightarrow> string" where
  "QueryEscape s = concat (map (\<lambda>c. if unreserved c then [c] else if c = CHR '' '' then ''+''
     else [CHR ''%'', hex_digit (of_char c div 16), hex_digit (of_char c mod 16)]) s)"

section \<open>Round trip\<close>

lemma strings_Split_append:
  "c \<notin> set w \<Longrightarrow> strings_Split c (w @ c # s) = w # strings_Split c s"
  "c \<notin> set w \<Longrightarrow> strings_Split c w = [w]"
  by (induction w) auto

lemma Split_Join:
  "ws \<noteq> [] \<Longrightarrow> \<forall>w \<in> set ws. c \<notin> set w \<Longrightarrow> strings_Split c (strings_Join ws [c]) = ws"
  by (induction ws "[c]" rule: strings_Join.induct) (auto simp: strings_Split_append)

lemma split_at_sep:
  "c \<notin> set k \<Longrightarrow> takeWhile (\<lambda>x. x \<noteq> c) (k @ c # v) = k"
  "c \<notin> set k \<Longrightarrow> dropWhile (\<lambda>x. x \<noteq> c) (k @ c # v) = c # v"
  by (induction k) auto

lemma SplitN2_pair: "c \<notin> set k \<Longrightarrow> strings_SplitN2 (k @ c # v) c = [k, v]"
  by (simp add: strings_SplitN2_def split_at_sep)

lemma read_pairs:
  assumes "\<forall>k \<in> set ks. CHR '':'' \<notin> set k"
  shows "ofold read_pair (map (\<lambda>k. k @ '':'' @ f k) ks) r = Some (fold (\<lambda>k. AList.update k (f k)) ks r)"
  using assms by (induction ks arbitrary: r) (simp_all add: SplitN2_pair Let_def read_pair_def)

lemma fold_update_map:
  "map_of (fold (\<lambda>k. AList.update k (f k)) ks r) k = (if k \<in> set ks then Some (f k) else map_of r k)"
  by (induction ks arbitrary: r) (auto simp: update_conv')

text \<open>The parameters of a list operation survive the text they are kept as. A map whose keys hold neither a colon
  nor a comma and whose values hold no comma is read back as the same map, whatever the order of its
  entries.\<close>

theorem map_string_roundtrip:
  assumes "\<forall>(k, v) \<in> set m. CHR '':'' \<notin> set k \<and> CHR '','' \<notin> set k \<and> CHR '','' \<notin> set v"
  shows "\<exists>m'. StringToMap (MapToString m) = Some m' \<and> map_of m' = map_of m"
proof (cases "m = []")
  case False
  let ?ks = "sort (map fst m)" and ?f = "\<lambda>k. case map_of m k of None \<Rightarrow> '''' | Some v \<Rightarrow> v"
  have val: "CHR '','' \<notin> set (?f k)" for k
  proof (cases "map_of m k")
    case (Some v)
    from map_of_SomeD [OF this] assms show ?thesis using Some by force
  qed simp
  have keys: "CHR '':'' \<notin> set k \<and> CHR '','' \<notin> set k" if "k \<in> set ?ks" for k
    using that assms by auto
  have words: "map (pair_string m) ?ks = map (\<lambda>k. k @ '':'' @ ?f k) ?ks"
    by (simp add: pair_string_def)
  have ne: "?ks \<noteq> []" using False by (metis length_0_conv length_map length_sort)
  have split: "strings_Split (CHR '','') (strings_Join (map (pair_string m) ?ks) '','') = map (pair_string m) ?ks"
    by (rule Split_Join) (use ne keys val in \<open>auto simp: pair_string_def\<close>)
  have "strings_Join (map (pair_string m) ?ks) '','' \<noteq> ''''"
    using split ne by (cases ?ks) (auto simp: pair_string_def)
  then have "StringToMap (MapToString m) = Some (fold (\<lambda>k. AList.update k (?f k)) ?ks [])"
    using False split read_pairs [of ?ks ?f "[]"] keys unfolding StringToMap_def MapToString_def words by simp
  moreover have "map_of (fold (\<lambda>k. AList.update k (?f k)) ?ks []) = map_of m"
  proof (rule ext)
    fix k
    show "map_of (fold (\<lambda>k. AList.update k (?f k)) ?ks []) k = map_of m k"
      using map_of_eq_None_iff [of m k] by (cases "map_of m k") (simp_all add: fold_update_map)
  qed
  ultimately show ?thesis by blast
qed (simp add: StringToMap_def MapToString_def)

theorem map_string_roundtrip_witness:
  "\<exists>m'. StringToMap (MapToString [(''vpc'', ''id:1''), (''a'', '''')]) = Some m' \<and>
    map_of m' ''vpc'' = Some ''id:1'' \<and> MapToString [(''vpc'', ''id:1''), (''a'', '''')] = ''a:,vpc:id:1''"
proof -
  have "MapToString [(''vpc'', ''id:1''), (''a'', '''')] = ''a:,vpc:id:1''" by code_simp
  with map_string_roundtrip [of "[(''vpc'', ''id:1''), (''a'', '''')]"] show ?thesis by force
qed

text \<open>A value with a comma is read back as something else or ends the actor.\<close>

lemma comma_panics: "StringToMap (MapToString [(''arn'', ''a,b'')]) = None"
  by code_simp

end
