(* ===== verification/Patch_Document.thy ===== *)
theory Patch_Document
  imports Persist_Transformer
begin

text \<open>
  \<^verbatim>\<open>internal/metastructure/patch/patch_document.go\<close>: the patch document that takes an
  existing resource to the properties a forma asks for. References are resolved and flattened
  before the documents are compared. The comparison itself is \<^verbatim>\<open>jsonpatch.CreatePatch\<close> of a
  third-party package, the argument \<open>create_patch\<close>. A Go map is its list of entries, visited in
  the order of the list; the argument \<^verbatim>\<open>current\<close> of \<^verbatim>\<open>resolveRefs\<close> accompanies
  the recursion and is never read.
\<close>

section \<open>Definitions\<close>

datatype PatchStrategy = PatchStrategyExactMatch | PatchStrategyEnsureExists

record Collections =
  col_EntitySets :: "(string \<times> string) list"
  col_Arrays :: "string list"
  col_IgnoredFields :: "string list"

text \<open>An operation of a patch: its path and the JSON it marshals to.\<close>

record JsonPatchOperation =
  jp_Path :: string
  jp_json :: json

type_synonym create_patch =
  "raw \<Rightarrow> raw \<Rightarrow> Collections \<Rightarrow> PatchStrategy \<Rightarrow> JsonPatchOperation list option"

text \<open>The errors; a reference that is no text is a failed type assertion, a panic, which ends the request like an
  error: no caller looks at which of them it is.\<close>

datatype patch_error =
    NotAnObject
  | ReferenceAssertionPanic
  | ReferenceNotFound FormaeURI
  | UnsupportedMode FormaApplyMode
  | CreatePatchFailed

definition defaultCollections :: Collections where
  "defaultCollections = \<lparr>col_EntitySets = [(''$.Tags'', ''Key'')], col_Arrays = [],
     col_IgnoredFields = [''$.SecurityGroupIngress[*].SourceSecurityGroupOwnerId'',
       ''$.BucketEncryption.ServerSideEncryptionConfiguration'', ''$.SecurityGroupIngress'',
       ''$.SecurityGroupEgress'']\<rparr>"

text \<open>Mapping a fallible function over a list, stopping at the first error.\<close>

fun traverse :: "('a \<Rightarrow> 'e + 'b) \<Rightarrow> 'a list \<Rightarrow> 'e + 'b list" where
  "traverse f [] = Inr []"
| "traverse f (x # xs) = (case f x of Inl e \<Rightarrow> Inl e
     | Inr y \<Rightarrow> (case traverse f xs of Inl e \<Rightarrow> Inl e | Inr ys \<Rightarrow> Inr (y # ys)))"

lemma traverse_cong [fundef_cong]:
  "xs = ys \<Longrightarrow> (\<And>x. x \<in> set ys \<Longrightarrow> f x = g x) \<Longrightarrow> traverse f xs = traverse g ys"
  by (induction xs arbitrary: ys) (auto split: sum.splits)

subsection \<open>References\<close>

text \<open>The treatment of one value of the map: an object with \<^verbatim>\<open>$ref\<close> gets the resolved
  \<^verbatim>\<open>$value\<close>, all its other entries are visited as well. An element of an array is visited
  when it is an object.\<close>

function resolve_val :: "ResolvableProperties \<Rightarrow> json \<Rightarrow> patch_error + json" where
  "resolve_val props v = (case v of
     JObj kvs \<Rightarrow>
       (case map_of kvs ''$ref'' of
          None \<Rightarrow> map_sum id JObj
            (traverse (\<lambda>kv. map_sum id (Pair (fst kv)) (resolve_val props (snd kv))) kvs)
        | Some (JStr ref) \<Rightarrow>
            (case rprops_Get props (KSUID ref) (PropertyPath ref) of
               None \<Rightarrow> Inl (ReferenceNotFound ref)
             | Some val \<Rightarrow> map_sum id (\<lambda>entries. JObj (entries @ [(''$value'', JStr val)]))
                 (traverse (\<lambda>kv. map_sum id (Pair (fst kv)) (resolve_val props (snd kv)))
                   (AList.delete ''$value'' kvs)))
        | Some _ \<Rightarrow> Inl ReferenceAssertionPanic)
   | JArr js \<Rightarrow> map_sum id JArr
       (traverse (\<lambda>elem. case elem of JObj kvs \<Rightarrow> resolve_val props elem | _ \<Rightarrow> Inr elem) js)
   | _ \<Rightarrow> Inr v)"
  by pat_completeness auto

lemma size_entry: "kv \<in> set kvs \<Longrightarrow> size (snd kv) < size (JObj kvs)"
  by (induction kvs) auto

lemma size_elem: "j \<in> set js \<Longrightarrow> size j < size (JArr js)"
  by (induction js) auto

lemma set_delete_subset: "set (AList.delete k al) \<subseteq> set al"
  by (induction al) auto

termination resolve_val
  by (relation "measure (\<lambda>(props, v). size v)")
    (use size_entry size_elem set_delete_subset in \<open>fastforce+\<close>)

declare resolve_val.simps [simp del]

definition resolveRefs :: "ResolvableProperties \<Rightarrow> (string \<times> json) list \<Rightarrow> patch_error + (string \<times> json) list" where
  "resolveRefs props modified =
     traverse (\<lambda>kv. map_sum id (Pair (fst kv)) (resolve_val props (snd kv))) modified"

fun flatten_val :: "json \<Rightarrow> json" and flatten_elem :: "json \<Rightarrow> json" where
  "flatten_val (JObj kvs) =
     (if map_of kvs ''$ref'' \<noteq> None
      then (case map_of kvs ''$value'' of Some val \<Rightarrow> val | None \<Rightarrow> JStr '''')
      else JObj (map (\<lambda>kv. (fst kv, flatten_val (snd kv))) kvs))"
| "flatten_val (JArr js) = JArr (map flatten_elem js)"
| "flatten_val j = j"
| "flatten_elem (JObj kvs) =
     (if map_of kvs ''$ref'' \<noteq> None
      then (case map_of kvs ''$value'' of Some val \<Rightarrow> val | None \<Rightarrow> JObj kvs)
      else JObj (map (\<lambda>kv. (fst kv, flatten_val (snd kv))) kvs))"
| "flatten_elem j = j"

definition flattenRefs :: "(string \<times> json) list \<Rightarrow> (string \<times> json) list" where
  "flattenRefs m = map (\<lambda>kv. (fst kv, flatten_val (snd kv))) m"

subsection \<open>Mixed nested and dotted keys\<close>

fun is_map :: "json \<Rightarrow> bool" where
  "is_map (JObj kvs) = True"
| "is_map _ = False"

definition hasMixedStructure :: "(string \<times> json) list \<Rightarrow> bool" where
  "hasMixedStructure m \<longleftrightarrow>
     list_ex (\<lambda>kv. CHR ''.'' \<notin> set (fst kv) \<and> is_map (snd kv)) m \<and>
     list_ex (\<lambda>kv. CHR ''.'' \<in> set (fst kv)) m"

definition normalizeToFlattenedKeys :: "(string \<times> json) list \<Rightarrow> (string \<times> json) list" where
  "normalizeToFlattenedKeys m = filter (\<lambda>kv. \<not> (CHR ''.'' \<notin> set (fst kv) \<and> is_map (snd kv))) m"

function mixed_val :: "json \<Rightarrow> json" and mixed_map :: "(string \<times> json) list \<Rightarrow> (string \<times> json) list" where
  "mixed_val v = (case v of
     JObj kvs \<Rightarrow> JObj (mixed_map (if hasMixedStructure kvs then normalizeToFlattenedKeys kvs else kvs))
   | JArr js \<Rightarrow> JArr (map (\<lambda>elem. case elem of JObj kvs \<Rightarrow> JObj (mixed_map kvs) | _ \<Rightarrow> elem) js)
   | _ \<Rightarrow> v)"
| "mixed_map m = map (\<lambda>kv. (fst kv, mixed_val (snd kv))) m"
  by pat_completeness auto

lemma size_normalized: "size (JObj (normalizeToFlattenedKeys kvs)) \<le> size (JObj kvs)"
  unfolding normalizeToFlattenedKeys_def by (induction kvs) auto

termination mixed_val
proof (relation "measure (\<lambda>x. case x of Inl v \<Rightarrow> 2 * size v | Inr m \<Rightarrow> 2 * size (JObj m) - 1)",
    goal_cases)
  case 1
  then show ?case by simp
next
  case (2 v js x kvs)
  then show ?case using size_elem [of x js] by auto
next
  case (3 v kvs)
  have "0 < size (JObj m)" for m by simp
  then show ?case using 3 size_normalized [of kvs] by (auto simp: normalizeToFlattenedKeys_def)
next
  case (4 m kv)
  then show ?case using size_entry [of kv m] by auto
qed

declare mixed_val.simps [simp del] mixed_map.simps [simp del]

definition normalizeMixedStructures :: "(string \<times> json) list \<Rightarrow> (string \<times> json) list" where
  "normalizeMixedStructures m = mixed_map m"

subsection \<open>Documents\<close>

text \<open>\<^verbatim>\<open>json.Unmarshal\<close> into a map: a null document gives the nil map, which marshals to
  null again.\<close>

fun unmarshal_map :: "raw \<Rightarrow> (string \<times> json) list option option" where
  "unmarshal_map (RawJson (JObj kvs)) = Some (Some kvs)"
| "unmarshal_map (RawJson JNull) = Some None"
| "unmarshal_map _ = None"

definition marshal_nilable :: "(string \<times> json) list option \<Rightarrow> raw" where
  "marshal_nilable m = (case m of None \<Rightarrow> RawJson JNull | Some kvs \<Rightarrow> RawJson (json_sorted (JObj kvs)))"

definition flattenAndResolveRefs ::
  "raw \<Rightarrow> raw \<Rightarrow> ResolvableProperties \<Rightarrow> patch_error + raw \<times> raw" where
  "flattenAndResolveRefs document patch resolvableProperties =
     (case (unmarshal_map document, unmarshal_map patch) of
        (Some current, Some modified) \<Rightarrow>
          (case (case modified of None \<Rightarrow> Inr None
                 | Some m \<Rightarrow> map_sum id Some (resolveRefs resolvableProperties m)) of
             Inl e \<Rightarrow> Inl e
           | Inr modified' \<Rightarrow>
               let finish = map_option (normalizeMixedStructures \<circ> flattenRefs)
               in Inr (marshal_nilable (finish current), marshal_nilable (finish modified')))
      | _ \<Rightarrow> Inl NotAnObject)"

fun hasValue :: "json \<Rightarrow> bool" where
  "hasValue JNull = False"
| "hasValue (JStr v) = (v \<noteq> '''')"
| "hasValue (JArr v) = (v \<noteq> [])"
| "hasValue (JObj v) = (v \<noteq> [])"
| "hasValue _ = True"

definition removeNonSchemaFields :: "raw \<Rightarrow> string list \<Rightarrow> patch_error + raw" where
  "removeNonSchemaFields patch schemaFields =
     (case unmarshal_map patch of
        None \<Rightarrow> Inl NotAnObject
      | Some deserialized \<Rightarrow>
          Inr (RawJson (json_sorted (JObj (fold (\<lambda>field modified.
             case Option.bind deserialized (\<lambda>m. map_of m field) of
               Some val \<Rightarrow> if hasValue val then AList.update field val modified else modified
             | None \<Rightarrow> modified) schemaFields [])))))"

definition cleanPath :: "string \<Rightarrow> string" where
  "cleanPath path = (if length path > 0 \<and> path ! 0 = CHR ''/'' then drop 1 path else path)"

definition containsCreateOnlyFields :: "JsonPatchOperation list \<Rightarrow> string list \<Rightarrow> bool" where
  "containsCreateOnlyFields patchOps createOnlyFields =
     list_ex (\<lambda>patch. cleanPath (jp_Path patch) \<in> set createOnlyFields) patchOps"

definition createPatchDocument ::
  "create_patch \<Rightarrow> raw \<Rightarrow> raw \<Rightarrow> string list \<Rightarrow> Collections \<Rightarrow> PatchStrategy \<Rightarrow>
    patch_error + JsonPatchOperation list" where
  "createPatchDocument create_patch document patch schemaFields collections strategy =
     (case removeNonSchemaFields patch schemaFields of
        Inl e \<Rightarrow> Inl e
      | Inr patchWithSchemaFieldsOnly \<Rightarrow>
          (case create_patch document patchWithSchemaFieldsOnly collections strategy of
             None \<Rightarrow> Inl CreatePatchFailed | Some patchDoc \<Rightarrow> Inr patchDoc))"

fun patch_strategy :: "FormaApplyMode \<Rightarrow> PatchStrategy option" where
  "patch_strategy FormaApplyModeReconcile = Some PatchStrategyExactMatch"
| "patch_strategy FormaApplyModePatch = Some PatchStrategyEnsureExists"
| "patch_strategy _ = None"

definition GeneratePatch ::
  "create_patch \<Rightarrow> raw \<Rightarrow> raw \<Rightarrow> ResolvableProperties \<Rightarrow> string list \<Rightarrow> string list \<Rightarrow> FormaApplyMode \<Rightarrow>
    patch_error + raw \<times> bool" where
  "GeneratePatch create_patch document patch properties schemaFields createOnlyFields mode =
     (case flattenAndResolveRefs document patch properties of
        Inl e \<Rightarrow> Inl e
      | Inr (flattenedDocument, flattenedPatch) \<Rightarrow>
          (case patch_strategy mode of
             None \<Rightarrow> Inl (UnsupportedMode mode)
           | Some strategy \<Rightarrow>
               (case createPatchDocument create_patch flattenedDocument flattenedPatch schemaFields
                       defaultCollections strategy of
                  Inl e \<Rightarrow> Inl e
                | Inr patchOps \<Rightarrow>
                    if length patchOps = 0 then Inr (RawNil, False)
                    else Inr (RawJson (JArr (map jp_json patchOps)),
                              containsCreateOnlyFields patchOps createOnlyFields))))"

section \<open>The two passes as one substitution\<close>

text \<open>
  The reference definition: every reference that is reached through objects and arrays of objects
  is replaced by its value. It exists when each of them can be resolved; the other entries of a
  reference are visited as well, apart from the value that is about to be overwritten.
\<close>

fun subst_refs :: "ResolvableProperties \<Rightarrow> json \<Rightarrow> json" where
  "subst_refs props (JObj kvs) = (case map_of kvs ''$ref'' of
     Some (JStr ref) \<Rightarrow> JStr (the (rprops_Get props (KSUID ref) (PropertyPath ref)))
   | _ \<Rightarrow> JObj (map (\<lambda>kv. (fst kv, subst_refs props (snd kv))) kvs))"
| "subst_refs props (JArr js) = JArr (map (\<lambda>j. if is_map j then subst_refs props j else j) js)"
| "subst_refs props j = j"

fun resolvable :: "ResolvableProperties \<Rightarrow> json \<Rightarrow> bool" where
  "resolvable props (JObj kvs) = (case map_of kvs ''$ref'' of
     None \<Rightarrow> (\<forall>kv \<in> set kvs. resolvable props (snd kv))
   | Some (JStr ref) \<Rightarrow> rprops_Get props (KSUID ref) (PropertyPath ref) \<noteq> None \<and>
       (\<forall>kv \<in> set kvs. fst kv \<noteq> ''$value'' \<longrightarrow> resolvable props (snd kv))
   | _ \<Rightarrow> False)"
| "resolvable props (JArr js) = (\<forall>j \<in> set js. is_map j \<longrightarrow> resolvable props j)"
| "resolvable props j = True"

text \<open>No reference is left that can be reached in the same way. An array that is an element of an array is not
  entered, here and in the code.\<close>

fun ref_free :: "json \<Rightarrow> bool" where
  "ref_free (JObj kvs) \<longleftrightarrow> map_of kvs ''$ref'' = None \<and> (\<forall>kv \<in> set kvs. ref_free (snd kv))"
| "ref_free (JArr js) \<longleftrightarrow> (\<forall>j \<in> set js. is_map j \<longrightarrow> ref_free j)"
| "ref_free j = True"

lemma traverse_Inr:
  "traverse f xs = Inr ys \<longleftrightarrow> list_all2 (\<lambda>x y. f x = Inr y) xs ys"
  by (induction xs arbitrary: ys)
    (auto split: sum.splits simp: list_all2_Cons1 dest: sym, (metis sum.inject(2) sum.distinct(1))+)

lemma traverse_isl: "isl (traverse f xs) \<longleftrightarrow> (\<exists>x \<in> set xs. isl (f x))"
  by (induction xs) (auto split: sum.splits)

lemma map_sum_isl [simp]: "isl (map_sum f g x) = isl x"
  by (cases x) auto

lemma map_sum_Inr: "map_sum id g x = Inr y \<longleftrightarrow> (\<exists>z. x = Inr z \<and> y = g z)"
  by (cases x) auto

lemma set_delete: "set (AList.delete k al) = {kv \<in> set al. fst kv \<noteq> k}"
  by (auto simp: AList.delete_eq)

lemma resolve_val_isl: "isl (resolve_val props v) \<longleftrightarrow> \<not> resolvable props v"
proof (induction props v rule: resolve_val.induct)
  case (1 props v)
  show ?case
  proof (cases v)
    case (JObj kvs)
    show ?thesis
    proof (cases "map_of kvs ''$ref''")
      case None
      then show ?thesis
        using 1(2) [OF JObj None] by (auto simp: JObj resolve_val.simps [of props "JObj kvs"] traverse_isl)
    next
      case (Some r)
      show ?thesis
      proof (cases r)
        case (JStr ref)
        show ?thesis
        proof (cases "rprops_Get props (KSUID ref) (PropertyPath ref)")
          case (Some val)
          then show ?thesis
            using 1(3) [OF JObj \<open>map_of kvs ''$ref'' = Some r\<close> JStr Some] \<open>map_of kvs ''$ref'' = Some r\<close>
            by (fastforce simp: JObj JStr resolve_val.simps [of props "JObj kvs"] traverse_isl set_delete)
        qed (use Some JStr in \<open>simp add: JObj resolve_val.simps [of props "JObj kvs"]\<close>)
      qed (use Some in \<open>simp_all add: JObj resolve_val.simps [of props "JObj kvs"]\<close>)
    qed
  next
    case (JArr js)
    show ?thesis
    proof -
      have "isl (case j of JObj kvs \<Rightarrow> resolve_val props j | _ \<Rightarrow> Inr j) \<longleftrightarrow> is_map j \<and> \<not> resolvable props j"
        if "j \<in> set js" for j
        by (cases j) (use that 1(1) [OF JArr, of j] in auto)
      then show ?thesis by (auto simp: JArr resolve_val.simps [of props "JArr js"] traverse_isl)
    qed
  qed (simp_all add: resolve_val.simps)
qed


lemma map_of_delete_other: "k \<noteq> k' \<Longrightarrow> map_of (AList.delete k' al) k = map_of al k"
  by (simp add: delete_conv')

lemma traverse_entries:
  assumes "traverse (\<lambda>kv. map_sum id (Pair (fst kv)) (resolve_val props (snd kv))) kvs = Inr kvs'"
    "\<And>kv v'. kv \<in> set kvs \<Longrightarrow> resolve_val props (snd kv) = Inr v' \<Longrightarrow> P (snd kv) v'"
  shows "list_all2 (\<lambda>kv kv'. fst kv' = fst kv \<and> resolve_val props (snd kv) = Inr (snd kv') \<and> P (snd kv) (snd kv')) kvs kvs'"
  using assms(1) unfolding traverse_Inr
  by (rule list.rel_mono_strong) (use assms(2) in \<open>auto simp: map_sum_Inr\<close>)

lemma resolve_val_string: "resolve_val props (JStr s) = Inr (JStr s)"
  by (simp add: resolve_val.simps)

lemma map_of_ref_preserved:
  assumes "list_all2 (\<lambda>kv kv'. fst kv' = fst kv \<and> Q kv kv') kvs kvs'"
  shows "map_of kvs' k = None \<longleftrightarrow> map_of kvs k = None"
  using assms by (induction rule: list_all2_induct) auto

lemma flatten_resolved:
  "resolve_val props v = Inr v' \<Longrightarrow>
    flatten_val v' = subst_refs props v \<and> (is_map v \<longrightarrow> is_map v' \<and> flatten_elem v' = subst_refs props v)"
proof (induction props v arbitrary: v' rule: resolve_val.induct)
  case (1 props v)
  let ?P = "\<lambda>v v'. flatten_val v' = subst_refs props v"
  show ?case
  proof (cases v)
    case (JObj kvs)
    show ?thesis
    proof (cases "map_of kvs ''$ref''")
      case None
      from 1(4) obtain kvs' where tr: "v' = JObj kvs'"
        "traverse (\<lambda>kv. map_sum id (Pair (fst kv)) (resolve_val props (snd kv))) kvs = Inr kvs'"
        by (auto simp: JObj None resolve_val.simps [of props "JObj kvs"] map_sum_Inr)
      have all: "list_all2 (\<lambda>kv kv'. fst kv' = fst kv \<and> resolve_val props (snd kv) = Inr (snd kv') \<and> ?P (snd kv) (snd kv')) kvs kvs'"
        by (rule traverse_entries [OF tr(2)]) (use 1(2) [OF JObj None] in simp)
      have "map (\<lambda>kv. (fst kv, flatten_val (snd kv))) kvs' = map (\<lambda>kv. (fst kv, subst_refs props (snd kv))) kvs"
        using all by (induction rule: list_all2_induct) auto
      then show ?thesis
        using map_of_ref_preserved [OF all, of "''$ref''"] None by (simp add: JObj tr(1))
    next
      case (Some r)
      from 1(4) obtain ref val kvs' where r: "r = JStr ref"
        "rprops_Get props (KSUID ref) (PropertyPath ref) = Some val" "v' = JObj (kvs' @ [(''$value'', JStr val)])"
        "traverse (\<lambda>kv. map_sum id (Pair (fst kv)) (resolve_val props (snd kv))) (AList.delete ''$value'' kvs) = Inr kvs'"
        by (auto simp: JObj Some resolve_val.simps [of props "JObj kvs"] map_sum_Inr
            split: json.splits option.splits)
      have all: "list_all2 (\<lambda>kv kv'. fst kv' = fst kv \<and> resolve_val props (snd kv) = Inr (snd kv') \<and> True)
          (AList.delete ''$value'' kvs) kvs'"
        by (rule traverse_entries [OF r(4)]) simp
      have "map_of kvs' ''$value'' = None" "map_of kvs' ''$ref'' \<noteq> None"
        using map_of_ref_preserved [OF all] Some
        by (auto simp: map_of_delete_other delete_conv' simp del: not_None_eq)
      then have "map_of (kvs' @ [(''$value'', JStr val)]) ''$ref'' \<noteq> None"
        "map_of (kvs' @ [(''$value'', JStr val)]) ''$value'' = Some (JStr val)"
        by (auto simp: map_of_append map_add_def split: option.splits)
      then show ?thesis by (simp add: JObj Some r)
    qed
  next
    case (JArr js)
    from 1(4) obtain js' where tr: "v' = JArr js'"
      "traverse (\<lambda>elem. case elem of JObj kvs \<Rightarrow> resolve_val props elem | _ \<Rightarrow> Inr elem) js = Inr js'"
      by (auto simp: JArr resolve_val.simps [of props "JArr js"] map_sum_Inr)
    have "flatten_elem j' = (if is_map j then subst_refs props j else j)"
      if "j \<in> set js" "(case j of JObj kvs \<Rightarrow> resolve_val props j | _ \<Rightarrow> Inr j) = Inr j'" for j j'
      by (cases j) (use that 1(1) [OF JArr, of j] in auto)
    then have "map flatten_elem js' = map (\<lambda>j. if is_map j then subst_refs props j else j) js"
      using tr(2) unfolding traverse_Inr by (auto simp: list_all2_conv_all_nth intro!: nth_equalityI)
    then show ?thesis by (simp add: JArr tr(1))
  qed (use 1(4) in \<open>auto simp: resolve_val.simps\<close>)
qed

lemma ref_free_subst: "resolvable props v \<Longrightarrow> ref_free (subst_refs props v)"
proof (induction props v rule: subst_refs.induct)
  case (1 props kvs)
  have "map_of (map (\<lambda>kv. (fst kv, subst_refs props (snd kv))) kvs) ''$ref'' = None \<longleftrightarrow> map_of kvs ''$ref'' = None"
    by (simp add: map_of_eq_None_iff image_image)
  then show ?case using 1 by (auto split: option.splits json.splits)
next
  case (2 props js)
  then show ?case by auto
qed simp_all

lemma mixed_ref_free:
  "(ref_free v \<longrightarrow> ref_free (mixed_val v)) \<and> is_map (mixed_val v) = is_map v"
  "\<forall>kv \<in> set m. ref_free (snd kv) \<Longrightarrow> (\<forall>kv \<in> set (mixed_map m). ref_free (snd kv))"
proof (induction v and m rule: mixed_val_mixed_map.induct)
  case (1 v)
  have keys: "fst ` set (mixed_map m) = fst ` set m" for m by (simp add: mixed_map.simps image_image)
  show ?case
  proof (cases v)
    case (JObj kvs)
    let ?m = "if hasMixedStructure kvs then normalizeToFlattenedKeys kvs else kvs"
    have sub: "set ?m \<subseteq> set kvs" by (auto simp: normalizeToFlattenedKeys_def)
    have "map_of (mixed_map ?m) ''$ref'' = None" if "map_of kvs ''$ref'' = None"
      using that image_mono [OF sub, of fst] unfolding map_of_eq_None_iff keys by blast
    moreover have "\<forall>kv \<in> set (mixed_map ?m). ref_free (snd kv)" if "\<forall>kv \<in> set kvs. ref_free (snd kv)"
      using 1(2) [OF JObj] sub that by blast
    ultimately show ?thesis
      unfolding JObj mixed_val.simps [of "JObj kvs"] json.case ref_free.simps is_map.simps by blast
  next
    case (JArr js)
    have "ref_free (case j of JObj kvs \<Rightarrow> JObj (mixed_map kvs) | _ \<Rightarrow> j)"
      if "j \<in> set js" "is_map j \<longrightarrow> ref_free j" "is_map (case j of JObj kvs \<Rightarrow> JObj (mixed_map kvs) | _ \<Rightarrow> j)" for j
    proof (cases j)
      case j: (JObj kvs)
      have "map_of (mixed_map kvs) ''$ref'' = None"
        using that(2) unfolding map_of_eq_None_iff keys by (simp add: j map_of_eq_None_iff)
      then show ?thesis using 1(1) [OF JArr that(1) j] that(2) j by auto
    qed (use that in auto)
    then show ?thesis by (auto simp: JArr mixed_val.simps [of "JArr js"])
  qed (simp_all add: mixed_val.simps)
next
  case (2 m)
  then show ?case by (auto simp: mixed_map.simps [of m])
qed

lemma sort_key_Nil_iff [simp]: "sort_key f xs = [] \<longleftrightarrow> xs = []"
  by (metis length_0_conv length_sort)

lemma hasValue_sorted [simp]: "hasValue (json_sorted v) = hasValue v"
  by (cases v) auto

lemma removeNonSchemaFields_sorted:
  "\<exists>p. removeNonSchemaFields (RawJson (json_sorted (JObj m))) flds = Inr (RawJson (JObj p)) \<and>
     (\<forall>f. map_of p f = (if f \<in> set flds
        then Option.bind (map_of m f) (\<lambda>v. if hasValue v then Some (json_sorted v) else None) else None))"
proof -
  let ?look = "\<lambda>f. map_of (map (\<lambda>(k, v). (k, json_sorted v)) (sort_key fst m)) f"
  let ?step = "\<lambda>field modified. case ?look field of
      Some val \<Rightarrow> if hasValue val then AList.update field val modified else modified | None \<Rightarrow> modified"
  have "map_of (fold ?step flds acc) f =
      (if f \<in> set flds then (case ?look f of Some v \<Rightarrow> if hasValue v then Some v else map_of acc f | None \<Rightarrow> map_of acc f)
       else map_of acc f)" for f acc
    by (induction flds arbitrary: acc) (auto simp: update_conv' split: option.splits)
  note look = this [of "[]"]
  let ?p = "map (\<lambda>(k, v). (k, json_sorted v)) (sort_key fst (fold ?step flds []))"
  have "removeNonSchemaFields (RawJson (json_sorted (JObj m))) flds = Inr (RawJson (JObj ?p))"
    unfolding removeNonSchemaFields_def json_sorted_JObj unmarshal_map.simps by simp
  moreover have "map_of ?p f = (if f \<in> set flds
      then Option.bind (map_of m f) (\<lambda>v. if hasValue v then Some (json_sorted v) else None) else None)" for f
  proof -
    have "map_of ?p f = map_option json_sorted (map_of (fold ?step flds []) f)"
      by (rule map_of_json_sorted)
    also have "map_of (fold ?step flds []) f = (if f \<in> set flds
        then Option.bind (map_of m f) (\<lambda>v. if hasValue v then Some (json_sorted v) else None) else None)"
      by (rule trans [OF look]) (auto simp: map_of_json_sorted split: option.splits)
    finally show ?thesis by (auto split: option.splits bind_splits)
  qed
  ultimately show ?thesis by blast
qed

lemma resolveRefs_subst:
  "(\<exists>m'. resolveRefs props m = Inr m') \<longleftrightarrow> (\<forall>kv \<in> set m. resolvable props (snd kv))"
  "resolveRefs props m = Inr m' \<Longrightarrow> flattenRefs m' = map (\<lambda>kv. (fst kv, subst_refs props (snd kv))) m"
proof -
  have "isl (resolveRefs props m) \<longleftrightarrow> (\<exists>kv \<in> set m. \<not> resolvable props (snd kv))"
    unfolding resolveRefs_def traverse_isl map_sum_isl resolve_val_isl ..
  then show "(\<exists>m'. resolveRefs props m = Inr m') \<longleftrightarrow> (\<forall>kv \<in> set m. resolvable props (snd kv))"
    by (cases "resolveRefs props m") auto
  assume "resolveRefs props m = Inr m'"
  then show "flattenRefs m' = map (\<lambda>kv. (fst kv, subst_refs props (snd kv))) m"
    unfolding resolveRefs_def flattenRefs_def traverse_Inr
    by (auto simp: list_all2_conv_all_nth map_sum_Inr flatten_resolved intro!: nth_equalityI)
qed

section \<open>Properties\<close>


text \<open>A comparison that sets every field of the new document.\<close>

fun set_all :: create_patch where
  "set_all document (RawJson (JObj kvs)) collections strategy =
     Some (map (\<lambda>kv. \<lparr>jp_Path = CHR ''/'' # fst kv, jp_json = snd kv\<rparr>) kvs)"
| "set_all document _ collections strategy = None"

definition sample_new :: "(string \<times> json) list" where
  "sample_new = [(''VpcId'', JObj [(''$ref'', JStr (NewFormaeURI ''k1'' ''Id''))])]"


text \<open>A reference in an array within an array is neither resolved nor refused: it goes into the patch as it is.\<close>

lemma nested_reference_left:
  "GeneratePatch set_all (RawJson (JObj [])) (RawJson (JObj [(''Rules'', JArr [JArr [JObj [(''$ref'', JStr ''u'')]]])]))
     [] [''Rules''] [] FormaApplyModeReconcile =
   Inr (RawJson (JArr [JArr [JArr [JObj [(''$ref'', JStr ''u'')]]]]), False)"
  by code_simp

end
