(* ===== verification/Resource_Comparison.thy ===== *)
theory Resource_Comparison
  imports Patch_Document Stored_Json
begin

text \<open>
  \<^verbatim>\<open>internal/metastructure/resource_update/resource_comparison.go\<close>: does a resource of
  a forma differ from the stored one? Empty fields are dropped, values that are set once keep what
  is stored, opaque values are hashed, and the order of arrays does not matter. The text that
  \<^verbatim>\<open>sjson.SetRaw\<close> returns, also on an error that is only logged, is the argument
  \<open>set_raw\<close>.
\<close>

section \<open>Definitions\<close>

subsection \<open>Empty fields\<close>

text \<open>The value of an entry after normalization; \<open>None\<close> when the entry is skipped. Elements of an
  array that are not objects are kept as they are.\<close>

lemma map_filter_cong [fundef_cong]:
  "xs = ys \<Longrightarrow> (\<And>x. x \<in> set ys \<Longrightarrow> f x = g x) \<Longrightarrow> List.map_filter f xs = List.map_filter g ys"
  by (induction xs arbitrary: ys) (auto split: option.splits)

fun normalize_val :: "json \<Rightarrow> json option" and normalize_item :: "json \<Rightarrow> json option" where
  "normalize_val (JArr v) =
     (let normalizedArray = List.map_filter normalize_item v
      in if length normalizedArray > 0 then Some (JArr normalizedArray) else None)"
| "normalize_val (JObj v) =
     (let normalizedNested = List.map_filter (\<lambda>kv. map_option (Pair (fst kv)) (normalize_val (snd kv))) v
      in if length normalizedNested > 0 then Some (JObj normalizedNested) else None)"
| "normalize_val JNull = None"
| "normalize_val v = Some v"
| "normalize_item (JObj v) =
     (let normalizedItem = List.map_filter (\<lambda>kv. map_option (Pair (fst kv)) (normalize_val (snd kv))) v
      in if length normalizedItem > 0 then Some (JObj normalizedItem) else None)"
| "normalize_item v = Some v"

definition normalizeObject :: "(string \<times> json) list \<Rightarrow> (string \<times> json) list" where
  "normalizeObject obj = List.map_filter (\<lambda>kv. map_option (Pair (fst kv)) (normalize_val (snd kv))) obj"

definition normalizeEmptyFields :: "raw \<Rightarrow> raw option" where
  "normalizeEmptyFields properties =
     (if raw_len0 properties then Some properties
      else (case unmarshal_map properties of
              None \<Rightarrow> None
            | Some props \<Rightarrow> Some (RawJson (json_sorted (JObj
                (case props of None \<Rightarrow> [] | Some m \<Rightarrow> normalizeObject m))))))"

subsection \<open>Values that are set once\<close>

fun is_arr :: "json \<Rightarrow> bool" where
  "is_arr (JArr js) = True"
| "is_arr _ = False"

definition strings_Contains :: "string \<Rightarrow> string \<Rightarrow> bool" where
  "strings_Contains s sub = list_ex (\<lambda>i. strings_HasPrefix (drop i s) sub) [0..<Suc (length s)]"

definition shouldPreserveSetOnce :: "json_lib \<Rightarrow> json \<Rightarrow> json option \<Rightarrow> bool" where
  "shouldPreserveSetOnce lib newProp existingProp \<longleftrightarrow>
     is_map newProp \<and> get_text lib newProp ''$strategy'' = ''SetOnce'' \<and>
     (case existingProp of
        None \<Rightarrow> False
      | Some ex \<Rightarrow>
          if is_map ex then (case gj_Get lib ex ''$value'' of None \<Rightarrow> False | Some v \<Rightarrow> v \<noteq> JNull)
          else ex \<noteq> JNull)"

definition isTagArray :: "json_lib \<Rightarrow> string \<Rightarrow> json \<Rightarrow> bool" where
  "isTagArray lib path val \<longleftrightarrow> strings_Contains path ''Tags'' \<and>
     (case val of
        JArr (firstTag # _) \<Rightarrow> is_map firstTag \<and> gj_Get lib firstTag ''Key'' \<noteq> None \<and>
          gj_Get lib firstTag ''Value'' \<noteq> None
      | _ \<Rightarrow> False)"

type_synonym set_raw = "raw \<Rightarrow> string \<Rightarrow> json \<Rightarrow> raw"

definition existing_tag_map :: "json_lib \<Rightarrow> json \<Rightarrow> string \<rightharpoonup> json" where
  "existing_tag_map lib existingTags = fold (\<lambda>kt m.
      if is_map (snd kt) \<and> get_text lib (snd kt) ''Key'' \<noteq> ''''
      then m(get_text lib (snd kt) ''Key'' \<mapsto> snd kt) else m) (for_each existingTags) Map.empty"

definition process_tag ::
  "json_lib \<Rightarrow> set_raw \<Rightarrow> string \<Rightarrow> (string \<rightharpoonup> json) \<Rightarrow> string \<times> json \<Rightarrow> raw \<Rightarrow> raw" where
  "process_tag lib set_raw path existingTagMap it filtered =
     (let (idx, newTag) = it in
      if \<not> is_map newTag then filtered
      else (case gj_Get lib newTag ''Value'' of
              None \<Rightarrow> filtered
            | Some tagValue \<Rightarrow>
                if is_map tagValue \<and> get_text lib tagValue ''$strategy'' = ''SetOnce''
                then (case existingTagMap (get_text lib newTag ''Key'') of
                        None \<Rightarrow> filtered
                      | Some existingTag \<Rightarrow>
                          let existingValue = gj_Get lib existingTag ''Value''
                          in if shouldPreserveSetOnce lib tagValue existingValue
                             then set_raw filtered (path @ ''.'' @ idx @ ''.Value'') (the existingValue)
                             else filtered)
                else filtered))"

definition processTagsArray ::
  "json_lib \<Rightarrow> set_raw \<Rightarrow> string \<Rightarrow> json \<Rightarrow> json option \<Rightarrow> raw \<Rightarrow> raw" where
  "processTagsArray lib set_raw path newTags existingResult filtered =
     (case Option.bind existingResult (\<lambda>j. gj_Get lib j path) of
        None \<Rightarrow> filtered
      | Some existingTags \<Rightarrow>
          if \<not> is_arr existingTags then filtered
          else fold (process_tag lib set_raw path (existing_tag_map lib existingTags)) (for_each newTags) filtered)"

function processValue ::
  "json_lib \<Rightarrow> set_raw \<Rightarrow> json option \<Rightarrow> string \<Rightarrow> json \<Rightarrow> raw \<Rightarrow> raw" where
  "processValue lib set_raw existingResult path newVal filtered =
     (let existingVal = Option.bind existingResult (\<lambda>j. gj_Get lib j path) in
      if isTagArray lib path newVal then processTagsArray lib set_raw path newVal existingResult filtered
      else if shouldPreserveSetOnce lib newVal existingVal then set_raw filtered path (the existingVal)
      else (case newVal of
              JObj kvs \<Rightarrow> fold (\<lambda>kv. processValue lib set_raw existingResult (buildPath path (fst kv)) (snd kv))
                (for_each newVal) filtered
            | JArr js \<Rightarrow> fold (\<lambda>kv. processValue lib set_raw existingResult (buildPath path (fst kv)) (snd kv))
                (for_each newVal) filtered
            | _ \<Rightarrow> filtered))"
  by pat_completeness auto

termination processValue
  by (relation "measure (\<lambda>(lib, sr, ex, path, j, f). size j)")
    (use size_for_each in \<open>auto simp del: for_each.simps\<close>)

declare processValue.simps [simp del]

definition filterSetOnceProps :: "json_lib \<Rightarrow> set_raw \<Rightarrow> raw \<Rightarrow> raw \<Rightarrow> raw" where
  "filterSetOnceProps lib set_raw existing new =
     (if raw_len0 existing \<or> raw_len0 new then new
      else (case parse_raw lib new of
              None \<Rightarrow> new
            | Some newResult \<Rightarrow>
                fold (\<lambda>kv. processValue lib set_raw (parse_raw lib existing) (fst kv) (snd kv))
                  (for_each newResult) new))"

definition EnforceSetOnceAndCompareResourceForUpdate ::
  "json_lib \<Rightarrow> set_raw \<Rightarrow> hash_lib \<Rightarrow> Resource \<Rightarrow> Resource \<Rightarrow> (bool \<times> raw) option" where
  "EnforceSetOnceAndCompareResourceForUpdate lib set_raw hash existing new =
     Option.bind (normalizeEmptyFields (res_Properties existing)) (\<lambda>normalizedExisting.
       let filteredRawProps = filterSetOnceProps lib set_raw normalizedExisting (res_Properties new)
       in Option.bind (normalizeEmptyFields filteredRawProps) (\<lambda>normalizedFilteredRaw.
            Option.bind (ApplyToResource hash (zero_Resource\<lparr>res_Properties := normalizedFilteredRaw\<rparr>))
              (\<lambda>hashedForComparison.
                 map_option (\<lambda>equal. (\<not> equal, normalizedFilteredRaw))
                   (JsonEqualIgnoreArrayOrder normalizedExisting (res_Properties hashedForComparison)))))"

section \<open>Facts about normalization\<close>

definition normalize_entry :: "string \<times> json \<Rightarrow> (string \<times> json) option" where
  "normalize_entry kv = map_option (Pair (fst kv)) (normalize_val (snd kv))"

lemma set_map_filter: "set (List.map_filter f xs) = {y. \<exists>x \<in> set xs. f x = Some y}"
  by (induction xs) (auto split: option.splits)

lemma normalize_item_obj: "normalize_item (JObj kvs) = normalize_val (JObj kvs)"
  by simp

lemma normalize_val_JObj:
  "normalize_val (JObj kvs) = (if normalizeObject kvs = [] then None else Some (JObj (normalizeObject kvs)))"
  by (simp add: normalizeObject_def Let_def)

lemma set_normalizeObject:
  "set (normalizeObject kvs) = {(k, w). \<exists>v. (k, v) \<in> set kvs \<and> normalize_val v = Some w}"
  by (force simp: normalizeObject_def set_map_filter)

lemma map_of_normalizeObject:
  "distinct (map fst kvs) \<Longrightarrow> map_of (normalizeObject kvs) k = Option.bind (map_of kvs k) normalize_val"
proof (induction kvs)
  case (Cons kv kvs)
  have "k \<notin> fst ` set kvs \<Longrightarrow> map_of (normalizeObject kvs) k = None" for k
    by (force simp: map_of_eq_None_iff set_normalizeObject)
  then show ?case
    using Cons by (cases kv) (auto simp: normalizeObject_def map_of_eq_None_iff split: option.splits)
qed (simp add: normalizeObject_def)

lemma fst_map_filter_entries:
  "distinct (map fst kvs) \<Longrightarrow> distinct (map fst (normalizeObject kvs))"
proof (induction kvs)
  case (Cons kv kvs)
  have "fst ` set (normalizeObject kvs) \<subseteq> fst ` set kvs"
    by (force simp: set_normalizeObject)
  then show ?case
    using Cons by (cases kv) (auto simp: normalizeObject_def split: option.splits)
qed (simp add: normalizeObject_def)

lemma normalize_wf:
  "json_wf j \<Longrightarrow> normalize_val j = Some j' \<Longrightarrow> json_wf j'"
  "json_wf j \<Longrightarrow> normalize_item j = Some j' \<Longrightarrow> json_wf j'"
proof (induction j and j arbitrary: j' and j' rule: normalize_val_normalize_item.induct)
  case (2 v)
  then show ?case
    using fst_map_filter_entries [of v]
    by (auto simp: normalize_val_JObj list_all_iff set_normalizeObject simp del: normalize_val.simps split: if_splits) fastforce
next
  case (5 v)
  then show ?case
    using fst_map_filter_entries [of v] unfolding normalize_item_obj
    by (auto simp: normalize_val_JObj list_all_iff set_normalizeObject simp del: normalize_val.simps split: if_splits) fastforce
qed (auto simp: list_all_iff set_map_filter Let_def split: if_splits)

lemma normalizeObject_wf: "json_wf (JObj kvs) \<Longrightarrow> json_wf (JObj (normalizeObject kvs))"
  using fst_map_filter_entries [of kvs] normalize_wf(1)
  by (fastforce simp: list_all_iff set_normalizeObject)

text \<open>Normalizing twice is normalizing once.\<close>

lemma map_filter_id: "(\<And>x. x \<in> set xs \<Longrightarrow> f x = Some x) \<Longrightarrow> List.map_filter f xs = xs"
  by (induction xs) auto

lemma normalize_idem:
  "normalize_val j = Some j' \<Longrightarrow> normalize_val j' = Some j'"
  "normalize_item j = Some j' \<Longrightarrow> normalize_item j' = Some j'"
proof (induction j and j arbitrary: j' and j' rule: normalize_val_normalize_item.induct)
  case (1 v)
  then have j': "j' = JArr (List.map_filter normalize_item v)" "List.map_filter normalize_item v \<noteq> []"
    by (auto simp: Let_def split: if_splits)
  have "List.map_filter normalize_item (List.map_filter normalize_item v) = List.map_filter normalize_item v"
    by (rule map_filter_id) (use 1 in \<open>auto simp: set_map_filter\<close>)
  then show ?case using j' by simp
next
  case (2 v)
  then have j': "j' = JObj (normalizeObject v)" "normalizeObject v \<noteq> []"
    by (auto simp: normalize_val_JObj simp del: normalize_val.simps split: if_splits)
  have "normalizeObject (normalizeObject v) = normalizeObject v"
    unfolding normalizeObject_def [of "normalizeObject v"]
    by (rule map_filter_id) (use 2(1) in \<open>fastforce simp: set_normalizeObject\<close>)
  then show ?case using j' by (simp add: normalize_val_JObj del: normalize_val.simps)
next
  case (5 v)
  then have j': "j' = JObj (normalizeObject v)" "normalizeObject v \<noteq> []"
    by (auto simp: normalize_val_JObj normalize_item_obj simp del: normalize_val.simps normalize_item.simps split: if_splits)
  have "normalizeObject (normalizeObject v) = normalizeObject v"
    unfolding normalizeObject_def [of "normalizeObject v"]
    by (rule map_filter_id) (use 5(1) in \<open>fastforce simp: set_normalizeObject\<close>)
  then show ?case using j' by (simp add: normalize_val_JObj normalize_item_obj del: normalize_val.simps normalize_item.simps)
qed auto

lemma normalizeObject_idem: "normalizeObject (normalizeObject kvs) = normalizeObject kvs"
  unfolding normalizeObject_def [of "normalizeObject kvs"]
  by (rule map_filter_id) (auto simp: set_normalizeObject dest: normalize_idem)

section \<open>Comparing resources without values that are set once\<close>

text \<open>
  What is relied on of \<^verbatim>\<open>gjson\<close>: a path without special characters names an entry of an
  object.
\<close>

definition simple_key :: "string \<Rightarrow> bool" where
  "simple_key k \<longleftrightarrow> k \<noteq> '''' \<and> list_all (\<lambda>c. c \<noteq> CHR 0x5C \<and> c \<notin> set ''.*?|#@![]{}()<>=%:~'') k"

definition plain_get :: "json_lib \<Rightarrow> bool" where
  "plain_get lib \<longleftrightarrow> (\<forall>kvs k. simple_key k \<longrightarrow> gj_Get lib (JObj kvs) k = map_of kvs k)"

fun no_set_once :: "json_lib \<Rightarrow> json \<Rightarrow> bool" where
  "no_set_once lib (JObj kvs) \<longleftrightarrow> get_text lib (JObj kvs) ''$strategy'' \<noteq> ''SetOnce'' \<and>
     (\<forall>kv \<in> set kvs. no_set_once lib (snd kv))"
| "no_set_once lib (JArr js) \<longleftrightarrow> (\<forall>j \<in> set js. no_set_once lib j)"
| "no_set_once lib j \<longleftrightarrow> True"

lemma no_set_once_preserve: "no_set_once lib j \<Longrightarrow> \<not> shouldPreserveSetOnce lib j ex"
  by (cases j) (auto simp: shouldPreserveSetOnce_def)

lemma for_each_entries: "kv \<in> set (for_each j) \<Longrightarrow> no_set_once lib j \<Longrightarrow> no_set_once lib (snd kv)"
  by (cases j) (auto simp: enumerate_eq_zip dest: set_zip_rightD)

lemma fold_id: "(\<And>x. x \<in> set xs \<Longrightarrow> f x s = s) \<Longrightarrow> fold f xs s = s"
  by (induction xs) auto

lemma process_tag_no_set_once:
  assumes "plain_get lib" "no_set_once lib (snd it)"
  shows "process_tag lib set_raw path m it filtered = filtered"
proof (cases "snd it")
  case (JObj kvs)
  have "gj_Get lib (JObj kvs) ''Value'' = map_of kvs ''Value''"
    using assms(1) by (simp add: plain_get_def simple_key_def)
  moreover have "no_set_once lib v" if "map_of kvs ''Value'' = Some v" for v
    using assms(2) map_of_SomeD [OF that] by (auto simp: JObj)
  ultimately show ?thesis
    using JObj by (cases it) (auto simp: process_tag_def Let_def no_set_once_preserve split: option.splits)
qed (cases it; simp add: process_tag_def)+

lemma processValue_no_set_once:
  "no_set_once lib j \<Longrightarrow> plain_get lib \<Longrightarrow> processValue lib set_raw ex path j filtered = filtered"
proof (induction lib set_raw ex path j filtered rule: processValue.induct)
  case (1 lib set_raw ex path j filtered)
  show ?case
  proof (cases "isTagArray lib path j")
    case True
    then show ?thesis
      using for_each_entries [OF _ 1(3)] process_tag_no_set_once [OF 1(4)]
      by (auto simp: processValue.simps [of lib set_raw ex path j] processTagsArray_def intro!: fold_id split: option.splits)
  next
    case False
    note IH = 1(1,2) [OF refl False no_set_once_preserve [OF 1(3)]]
    show ?thesis
    proof (cases j)
      case (JArr js)
      then show ?thesis
        using False 1(3,4) IH for_each_entries [of _ j lib]
        by (simp add: processValue.simps [of lib set_raw ex path "JArr js"] no_set_once_preserve fold_id del: for_each.simps)
    next
      case (JObj kvs)
      then show ?thesis
        using False 1(3,4) IH for_each_entries [of _ j lib]
        by (simp add: processValue.simps [of lib set_raw ex path "JObj kvs"] no_set_once_preserve fold_id del: for_each.simps)
    qed (use False 1(3) in \<open>simp_all add: processValue.simps shouldPreserveSetOnce_def\<close>)
  qed
qed

lemma distinct_sorted_keys:
  assumes "distinct (map fst kvs)" shows "distinct (map fst (sort_key fst kvs))"
  using assms by (metis mset_eq_imp_distinct_iff mset_map mset_sort)

lemma json_wf_sorted: "json_wf j \<Longrightarrow> json_wf (json_sorted j)"
proof (induction j rule: json_wf.induct)
  case (2 kvs)
  have "map fst (map (\<lambda>(k, v). (k, json_sorted v)) (sort_key fst kvs)) = map fst (sort_key fst kvs)"
    by (simp add: case_prod_unfold)
  then show ?case
    using 2 distinct_sorted_keys [of kvs] unfolding json_sorted_JObj json_wf.simps
    by (auto simp: list_all_iff case_prod_unfold comp_def)
qed (simp_all add: list_all_iff)

lemma json_wf_process:
  "json_wf j \<Longrightarrow> json_wf (process_val hash j)" "json_wf j \<Longrightarrow> json_wf (process_elem hash j)"
proof (induction hash j and hash j rule: process_val_process_elem.induct)
  case (1 hash val)
  have "json_wf (any_json (v_Value (Hash hash v)))" if "\<forall>j. v_Value v = Some j \<longrightarrow> json_wf j" for v
    using that by (auto simp: any_json_def Hash_def split: option.splits)
  moreover have "\<forall>j. original_value val = Some j \<longrightarrow> json_wf j"
    using 1(2) by (auto simp: original_value_def list_all_iff split: option.splits dest!: map_of_SomeD elim!: any_of.elims)
  ultimately have "json_wf (any_json (v_Value (hashed_value hash val)))"
    by (simp add: hashed_value_def)
  then have "json_wf (JObj (hash_opaque hash val))"
    using 1(2) set_update_subset [of "''$value''" _ val]
    by (fastforce simp: hash_opaque_def distinct_update list_all_iff)
  then show ?case
    using 1 by (auto simp: list_all_iff case_prod_unfold comp_def)
next
  case (4 hash elemMap)
  then show ?case by (auto simp: list_all_iff case_prod_unfold comp_def)
qed (auto simp: list_all_iff)

lemma json_sim_refl: "json_wf j \<Longrightarrow> json_sim j j"
proof (induction j rule: json_wf.induct)
  case (1 js)
  then show ?case by (intro sim_arr [of js js]) (auto simp: list_all_iff list_all2_same)
next
  case (2 kvs)
  then show ?case by (intro sim_obj [of kvs kvs]) (auto simp: list_all_iff list_all2_same)
qed (simp_all add: sim_scalar)

lemma sorted_JObj: "\<exists>m. json_sorted (JObj kvs) = JObj m"
  by simp

lemma hashed_for_comparison:
  assumes "json_wf (JObj kvs)"
  shows "\<exists>h. ApplyToResource hash (zero_Resource\<lparr>res_Properties := RawJson (json_sorted (JObj kvs))\<rparr>) =
      Some (zero_Resource\<lparr>res_Properties := RawJson h\<rparr>) \<and> json_wf h \<and>
    transformRawProps hash (RawJson (json_sorted (JObj kvs))) = Some (RawJson h) \<and>
    ((\<forall>kv \<in> set kvs. settled (snd kv)) \<longrightarrow> h = json_sorted (JObj kvs))"
proof -
  let ?m = "map (\<lambda>(k, v). (k, json_sorted v)) (sort_key fst kvs)"
  let ?h = "json_sorted (JObj (processProps hash ?m))"
  have t: "transformRawProps hash (RawJson (json_sorted (JObj kvs))) = Some (RawJson ?h)"
    unfolding json_sorted_JObj [of kvs] by (simp add: transformRawProps_def marshal_map_def del: json_sorted.simps)
  have "json_wf (JObj ?m)" using json_wf_sorted [OF assms] unfolding json_sorted_JObj .
  then have "json_wf (JObj (processProps hash ?m))"
    using json_wf_process(1) [of _ hash]
    by (auto simp: processProps_def list_all_iff case_prod_unfold comp_def)
  moreover have "?h = json_sorted (JObj kvs)" if "\<forall>kv \<in> set kvs. settled (snd kv)"
  proof -
    have "processProps hash ?m = ?m"
      unfolding processProps_def using that by (intro map_idI) (auto intro!: settled_id settled_sorted)
    then show ?thesis using json_sorted_idem [of "JObj kvs"] unfolding json_sorted_JObj [of kvs] by simp
  qed
  ultimately show ?thesis
    using t json_wf_sorted
    by (intro exI [of _ ?h]) (auto simp: ApplyToResource_def transform_or_nil_def Let_def zero_Resource_def
        simp del: json_sorted.simps json_wf.simps)
qed

section \<open>Properties\<close>

text \<open>Without values that are set once, a resource counts as changed exactly when its normalized
  properties, hashed, differ from the normalized stored properties by more than the order of arrays
  and entries; the properties that are passed on are the normalized ones, not the hashed ones.
  In particular nothing changes when the two agree and all opaque values are hashed already.\<close>

theorem comparison_exact:
  assumes "plain_get lib" "res_Properties existing = RawJson (JObj ex)" "res_Properties new = RawJson (JObj nw)"
    "json_wf (JObj ex)" "json_wf (JObj nw)" "no_set_once lib (JObj nw)"
  defines "nform \<equiv> \<lambda>kvs. json_sorted (JObj (normalizeObject kvs))"
  shows "\<exists>changed hashed. EnforceSetOnceAndCompareResourceForUpdate lib set_raw hash existing new =
        Some (changed, RawJson (nform nw)) \<and>
      transformRawProps hash (RawJson (nform nw)) = Some (RawJson hashed) \<and>
      (changed \<longleftrightarrow> \<not> json_sim (nform ex) hashed) \<and>
      (json_sim (nform ex) (nform nw) \<and> (\<forall>kv \<in> set (normalizeObject nw). settled (snd kv)) \<longrightarrow> \<not> changed)"
proof -
  have wf: "json_wf (nform ex)" "json_wf (JObj (normalizeObject nw))"
    using normalizeObject_wf assms(4,5) json_wf_sorted unfolding nform_def by blast+
  have nform: "normalizeEmptyFields (RawJson (JObj kvs)) = Some (RawJson (nform kvs))" for kvs
    by (simp add: normalizeEmptyFields_def raw_len0_def nform_def del: json_sorted.simps)
  have "fold (\<lambda>kv. processValue lib set_raw e (fst kv) (snd kv)) (for_each (JObj nw)) f = f" for e f
    by (rule fold_id) (use assms(1,6) in \<open>auto intro!: processValue_no_set_once\<close>)
  then have "filterSetOnceProps lib set_raw r (RawJson (JObj nw)) = RawJson (JObj nw)" for r
    by (simp add: filterSetOnceProps_def parse_raw_def del: for_each.simps)
  note filter = this
  from hashed_for_comparison [OF wf(2), of hash] obtain h where h:
    "ApplyToResource hash (zero_Resource\<lparr>res_Properties := RawJson (nform nw)\<rparr>) =
       Some (zero_Resource\<lparr>res_Properties := RawJson h\<rparr>)" "json_wf h"
    "transformRawProps hash (RawJson (nform nw)) = Some (RawJson h)"
    "(\<forall>kv \<in> set (normalizeObject nw). settled (snd kv)) \<longrightarrow> h = nform nw"
    unfolding nform_def by blast
  have "EnforceSetOnceAndCompareResourceForUpdate lib set_raw hash existing new =
      Some (\<not> json_sim (nform ex) h, RawJson (nform nw))"
    by (simp add: EnforceSetOnceAndCompareResourceForUpdate_def assms(2,3) nform filter h(1)
        JsonEqualIgnoreArrayOrder_correct [OF wf(1) h(2)])
  then show ?thesis using h(3,4) by blast
qed

text \<open>A document with an empty entry and an array in another order.\<close>

definition sample_cmp :: "string \<times> json \<Rightarrow> (string \<times> json) list \<Rightarrow> Resource" where
  "sample_cmp kv kvs = zero_Resource\<lparr>res_Properties := RawJson (JObj (kv # kvs))\<rparr>"

theorem comparison_exact_witness:
  "EnforceSetOnceAndCompareResourceForUpdate key_lib (\<lambda>r p v. r) sample_hash
     (sample_cmp (''a'', JArr [JNum 1, JNum 2]) []) (sample_cmp (''a'', JArr [JNum 2, JNum 1]) [(''b'', JNull)]) =
   Some (False, RawJson (JObj [(''a'', JArr [JNum 2, JNum 1])]))"
proof -
  let ?ex = "[(''a'', JArr [JNum 1, JNum 2])]" and ?nw = "[(''a'', JArr [JNum 2, JNum 1]), (''b'', JNull)]"
  have plain: "plain_get key_lib" by (simp add: plain_get_def key_lib_def)
  have pre: "json_wf (JObj ?ex)" "json_wf (JObj ?nw)" "no_set_once key_lib (JObj ?nw)"
    "json_sorted (JObj (normalizeObject ?nw)) = JObj [(''a'', JArr [JNum 2, JNum 1])]"
    "json_sorted (JObj (normalizeObject ?ex)) = JObj ?ex"
    "list_all (\<lambda>kv. settled (snd kv)) (normalizeObject ?nw)"
    by code_simp+
  have "JsonEqualIgnoreArrayOrder (RawJson (JObj ?ex)) (RawJson (JObj [(''a'', JArr [JNum 2, JNum 1])])) = Some True"
    by code_simp
  then have sim: "json_sim (JObj ?ex) (JObj [(''a'', JArr [JNum 2, JNum 1])])"
    using JsonEqualIgnoreArrayOrder_correct [of "JObj ?ex" "JObj [(''a'', JArr [JNum 2, JNum 1])]"] pre(1) by simp
  show ?thesis
    using comparison_exact [OF plain _ _ pre(1,2,3), of "sample_cmp (''a'', JArr [JNum 1, JNum 2]) []"
        "sample_cmp (''a'', JArr [JNum 2, JNum 1]) [(''b'', JNull)]" "\<lambda>r p v. r" sample_hash]
      pre(6) sim
    by (auto simp: sample_cmp_def pre(4,5) list_all_iff simp del: json_sorted.simps)
qed

section \<open>Values that are set once\<close>

text \<open>
  What is relied on of \<^verbatim>\<open>sjson.SetRaw\<close>: setting a top-level key updates that entry, and
  setting a path below a key leaves the other entries alone.
\<close>

definition local_set :: "set_raw \<Rightarrow> bool" where
  "local_set set_raw \<longleftrightarrow>
     (\<forall>kvs k v. simple_key k \<longrightarrow> set_raw (RawJson (JObj kvs)) k v = RawJson (JObj (AList.update k v kvs))) \<and>
     (\<forall>kvs k rest v. simple_key k \<longrightarrow> (\<exists>kvs'. set_raw (RawJson (JObj kvs)) (k @ ''.'' @ rest) v = RawJson (JObj kvs') \<and>
        (distinct (map fst kvs) \<longrightarrow> distinct (map fst kvs')) \<and>
        (\<forall>k'. k' \<noteq> k \<longrightarrow> map_of kvs' k' = map_of kvs k')))"

definition under :: "string \<Rightarrow> string \<Rightarrow> bool" where
  "under k path \<longleftrightarrow> path = k \<or> (\<exists>rest. path = k @ ''.'' @ rest)"

text \<open>The outcome of an edit that concerns the key \<open>k\<close> only.\<close>

definition edits :: "string \<Rightarrow> raw \<Rightarrow> raw \<Rightarrow> bool" where
  "edits k r r' \<longleftrightarrow> (\<forall>kvs. r = RawJson (JObj kvs) \<longrightarrow> (\<exists>kvs'. r' = RawJson (JObj kvs') \<and>
     (distinct (map fst kvs) \<longrightarrow> distinct (map fst kvs')) \<and>
     (\<forall>k'. k' \<noteq> k \<longrightarrow> map_of kvs' k' = map_of kvs k')))"

lemma edits_refl [simp, intro]: "edits k r r"
  by (simp add: edits_def)

lemma edits_trans: "edits k r s \<Longrightarrow> edits k s t \<Longrightarrow> edits k r t"
  unfolding edits_def by metis

lemma edits_fold: "(\<And>x r. x \<in> set xs \<Longrightarrow> edits k r (f x r)) \<Longrightarrow> edits k r (fold f xs r)"
proof (induction xs arbitrary: r)
  case (Cons x xs)
  have "edits k r (f x r)" "edits k (f x r) (fold f xs (f x r))" using Cons by simp_all
  then show ?case using edits_trans by simp
qed simp

lemma edits_set_raw:
  assumes "local_set set_raw" "simple_key k" "under k path"
  shows "edits k r (set_raw r path v)"
  using assms unfolding local_set_def under_def edits_def
  by (auto simp: update_conv' distinct_update)

lemma under_append: "under k path \<Longrightarrow> under k (path @ ''.'' @ rest)"
  by (auto simp: under_def)

lemma under_build: "simple_key k \<Longrightarrow> under k path \<Longrightarrow> under k (buildPath path key)"
  by (auto simp: buildPath_def under_def simple_key_def)

lemma processValue_edits:
  "local_set set_raw \<Longrightarrow> simple_key k \<Longrightarrow> under k path \<Longrightarrow>
    edits k filtered (processValue lib set_raw ex path j filtered)"
proof (induction lib set_raw ex path j filtered rule: processValue.induct)
  case (1 lib set_raw ex path j filtered)
  note set = edits_set_raw [OF 1(3,4)]
  show ?case
  proof (cases "isTagArray lib path j")
    case True
    have "edits k r (process_tag lib set_raw path m it r)" for m it r
      using set under_append [OF 1(5)]
      by (cases it) (auto simp: process_tag_def Let_def split: option.splits)
    then show ?thesis
      by (auto simp: processValue.simps [of lib set_raw ex path j] True processTagsArray_def
          intro!: edits_fold split: option.splits)
  next
    case False
    note tag = False
    show ?thesis
    proof (cases "shouldPreserveSetOnce lib j (Option.bind ex (\<lambda>j. gj_Get lib j path))")
      case True
      then show ?thesis
        using set [OF 1(5)] tag by (simp add: processValue.simps [of lib set_raw ex path j])
    next
      case False
      note IH = 1(1,2) [OF refl tag False _ _ 1(3,4) under_build [OF 1(4,5)]]
      show ?thesis
      proof (cases j)
        case (JArr js)
        then show ?thesis
          using tag False IH by (auto simp: processValue.simps [of lib set_raw ex path "JArr js"]
            simp del: for_each.simps intro!: edits_fold)
      next
        case (JObj kvs)
        then show ?thesis
          using tag False IH by (auto simp: processValue.simps [of lib set_raw ex path "JObj kvs"]
            simp del: for_each.simps intro!: edits_fold)
      qed (use tag False in \<open>simp_all add: processValue.simps\<close>)
    qed
  qed
qed

lemma processed_entries:
  assumes "local_set set_raw" "plain_get lib" "\<forall>kv \<in> set nw. simple_key (fst kv)" "distinct (map fst nw)"
    "distinct (map fst acc)"
  shows "\<exists>f. fold (\<lambda>kv. processValue lib set_raw (Some (JObj m)) (fst kv) (snd kv)) nw (RawJson (JObj acc)) =
      RawJson (JObj f) \<and> distinct (map fst f) \<and>
    (\<forall>k. k \<notin> fst ` set nw \<longrightarrow> map_of f k = map_of acc k) \<and>
    (\<forall>k v. (k, v) \<in> set nw \<and> shouldPreserveSetOnce lib v (map_of m k) \<longrightarrow> map_of f k = map_of m k)"
  using assms(3-5)
proof (induction nw arbitrary: acc)
  case (Cons kv nw)
  obtain k v where kv: "kv = (k, v)" by fastforce
  let ?r = "processValue lib set_raw (Some (JObj m)) k v (RawJson (JObj acc))"
  have simple: "simple_key k" using Cons.prems(1) kv by simp
  have "edits k (RawJson (JObj acc)) ?r"
    using processValue_edits [OF assms(1) simple] by (simp add: under_def)
  then obtain acc' where acc': "?r = RawJson (JObj acc')" "distinct (map fst acc')"
    "\<forall>k'. k' \<noteq> k \<longrightarrow> map_of acc' k' = map_of acc k'"
    using Cons.prems(3) by (auto simp: edits_def)
  have kept: "map_of acc' k = map_of m k" if once: "shouldPreserveSetOnce lib v (map_of m k)"
  proof -
    have "\<not> isTagArray lib k v" using once by (cases v) (auto simp: shouldPreserveSetOnce_def isTagArray_def)
    moreover obtain e where "map_of m k = Some e"
      using once by (auto simp: shouldPreserveSetOnce_def split: option.splits)
    ultimately show ?thesis
      using acc'(1) once assms(1,2) simple
      by (auto simp: processValue.simps [of lib set_raw "Some (JObj m)" k v] plain_get_def local_set_def update_conv')
  qed
  from Cons.IH [of acc'] acc'(2) Cons.prems(1,2) obtain f where f:
    "fold (\<lambda>kv. processValue lib set_raw (Some (JObj m)) (fst kv) (snd kv)) nw (RawJson (JObj acc')) = RawJson (JObj f)"
    "distinct (map fst f)" "\<forall>k. k \<notin> fst ` set nw \<longrightarrow> map_of f k = map_of acc' k"
    "\<forall>k v. (k, v) \<in> set nw \<and> shouldPreserveSetOnce lib v (map_of m k) \<longrightarrow> map_of f k = map_of m k"
    by auto
  have "k \<notin> fst ` set nw" using Cons.prems(2) kv by simp
  then show ?case
    using f acc' kept by (auto simp: kv)
qed simp

lemma normal_sorted:
  "normalize_val j = Some j \<Longrightarrow> normalize_val (json_sorted j) = Some (json_sorted j)"
  "normalize_item j = Some j \<Longrightarrow> normalize_item (json_sorted j) = Some (json_sorted j)"
proof (induction j and j rule: normalize_val_normalize_item.induct)
  have obj: "normalize_val (json_sorted (JObj v)) = Some (json_sorted (JObj v))"
    if "normalize_val (JObj v) = Some (JObj v)"
      "\<And>kv. kv \<in> set v \<Longrightarrow> normalize_val (snd kv) = Some (snd kv) \<Longrightarrow>
        normalize_val (json_sorted (snd kv)) = Some (json_sorted (snd kv))" for v
  proof -
    have v: "normalizeObject v = v" "v \<noteq> []"
      using that(1) by (auto simp: normalize_val_JObj simp del: normalize_val.simps split: if_splits)
    have "normalize_val (snd kv) = Some (snd kv)" if "kv \<in> set v" for kv
    proof -
      have "kv \<in> set (normalizeObject v)" using v(1) that by simp
      then obtain w where "normalize_val w = Some (snd kv)"
        by (auto simp: set_normalizeObject split: prod.splits)
      then show ?thesis by (rule normalize_idem)
    qed
    then have "normalizeObject (map (\<lambda>(k, v). (k, json_sorted v)) (sort_key fst v)) =
        map (\<lambda>(k, v). (k, json_sorted v)) (sort_key fst v)"
      unfolding normalizeObject_def by (intro map_filter_id) (use that(2) in \<open>fastforce\<close>)
    then show ?thesis
      using v(2) unfolding json_sorted_JObj normalize_val_JObj by simp
  qed
  {
    case (2 v)
    then show ?case using obj by blast
  next
    case (5 v)
    then show ?case using obj [OF 5(2) [unfolded normalize_item_obj]] by (simp add: json_sorted_JObj del: json_sorted.simps)
  next
    case (1 v)
    have v: "List.map_filter normalize_item v = v" "v \<noteq> []"
      using 1(2) by (auto simp: Let_def split: if_splits)
    have "normalize_item j = Some j" if "j \<in> set v" for j
    proof -
      have "j \<in> set (List.map_filter normalize_item v)" using v(1) that by simp
      then obtain w where "normalize_item w = Some j" by (auto simp: set_map_filter)
      then show ?thesis by (rule normalize_idem)
    qed
    then have "List.map_filter normalize_item (map json_sorted v) = map json_sorted v"
      by (intro map_filter_id) (use 1(1) in auto)
    then show ?case using v(2) by simp
  }
qed simp_all

text \<open>A value that is set once keeps what is stored. When the forma marks the value of a top-level
  property as set once and the stored property has a value, the properties that are passed on for the
  update carry the stored value, whatever the forma says.\<close>

theorem set_once_preserved:
  assumes "plain_get lib" "local_set set_raw"
    "res_Properties existing = RawJson (JObj ex)" "res_Properties new = RawJson (JObj nw)"
    "json_wf (JObj ex)" "distinct (map fst nw)" "\<forall>kv \<in> set nw. simple_key (fst kv)"
    "json_sorted (JObj (normalizeObject ex)) = JObj stored"
    "(k, v) \<in> set nw" "shouldPreserveSetOnce lib v (map_of stored k)"
    "EnforceSetOnceAndCompareResourceForUpdate lib set_raw hash existing new = Some (changed, props)"
  shows "\<exists>p. props = RawJson (JObj p) \<and> map_of p k = map_of stored k \<and> map_of p k \<noteq> None"
proof -
  have ex: "normalizeEmptyFields (RawJson (JObj ex)) = Some (RawJson (JObj stored))"
    using assms(8) by (simp add: normalizeEmptyFields_def raw_len0_def del: json_sorted.simps)
  obtain f where f: "filterSetOnceProps lib set_raw (RawJson (JObj stored)) (RawJson (JObj nw)) = RawJson (JObj f)"
    "distinct (map fst f)" "map_of f k = map_of stored k"
    using processed_entries [OF assms(2,1,7,6,6), of stored] assms(9,10)
    by (auto simp: filterSetOnceProps_def raw_len0_def parse_raw_def)
  obtain w where w: "map_of stored k = Some w"
    using assms(10) by (auto simp: shouldPreserveSetOnce_def split: option.splits)
  have sorted: "stored = map (\<lambda>(k, v). (k, json_sorted v)) (sort_key fst (normalizeObject ex))"
    using assms(8) unfolding json_sorted_JObj by simp
  then obtain w0 where w0: "map_of (normalizeObject ex) k = Some w0" "w = json_sorted w0"
    using w unfolding sorted map_of_json_sorted by auto
  then obtain w1 where "normalize_val w1 = Some w0"
    using assms(5) by (auto simp: map_of_normalizeObject elim: bind_eq_Some_conv [THEN iffD1, THEN exE])
  then have "normalize_val w0 = Some w0" by (rule normalize_idem)
  then have nw: "normalize_val w = Some w" using w0(2) normal_sorted(1) by simp
  let ?p = "map (\<lambda>(k, v). (k, json_sorted v)) (sort_key fst (normalizeObject f))"
  have "normalizeEmptyFields (RawJson (JObj f)) = Some (RawJson (JObj ?p))"
    unfolding normalizeEmptyFields_def raw_len0_def unmarshal_map.simps json_sorted_JObj by simp
  then have "props = RawJson (JObj ?p)"
    using assms(11) by (auto simp: EnforceSetOnceAndCompareResourceForUpdate_def assms(3,4) ex f(1) Let_def
        bind_eq_Some_conv)
  moreover have "map_of ?p k = Some w"
    by (simp only: map_of_json_sorted map_of_normalizeObject [OF f(2)] f(3) w) (simp add: nw, simp add: w0(2))
  ultimately show ?thesis using w by simp
qed

fun set_path :: set_raw where
  "set_path (RawJson (JObj kvs)) path v =
     (if CHR ''.'' \<in> set path then RawJson (JObj kvs) else RawJson (JObj (AList.update path v kvs)))"
| "set_path r path v = r"

lemma set_path_local: "local_set set_path"
proof -
  have "CHR ''.'' \<notin> set k" if "simple_key k" for k
    using that by (auto simp: simple_key_def list_all_iff)
  then show ?thesis by (auto simp: local_set_def)
qed

definition once_json :: "string \<Rightarrow> json" where
  "once_json s = JObj [(''$strategy'', JStr ''SetOnce''), (''$value'', JStr s)]"

theorem set_once_preserved_witness:
  "\<exists>p. map_option snd (EnforceSetOnceAndCompareResourceForUpdate key_lib set_path sample_hash
     (sample_cmp (''pw'', once_json ''old'') []) (sample_cmp (''pw'', once_json ''new'') [])) = Some (RawJson (JObj p)) \<and>
   map_of p ''pw'' = Some (once_json ''old'')"
proof -
  let ?ex = "[(''pw'', once_json ''old'')]" and ?nw = "[(''pw'', once_json ''new'')]"
  let ?e = "EnforceSetOnceAndCompareResourceForUpdate key_lib set_path sample_hash
     (sample_cmp (''pw'', once_json ''old'') []) (sample_cmp (''pw'', once_json ''new'') [])"
  have pre: "json_wf (JObj ?ex)" "simple_key ''pw''" "json_sorted (JObj (normalizeObject ?ex)) = JObj ?ex"
    "shouldPreserveSetOnce key_lib (once_json ''new'') (map_of ?ex ''pw'')" "?e \<noteq> None"
    by code_simp+
  then obtain changed props where e: "?e = Some (changed, props)" by auto
  have "plain_get key_lib" by (simp add: plain_get_def key_lib_def)
  from set_once_preserved [OF this set_path_local _ _ pre(1) _ _ pre(3) _ pre(4) e, of ?nw] pre(2)
  have "\<exists>p. props = RawJson (JObj p) \<and> map_of p ''pw'' = Some (once_json ''old'')"
    by (auto simp: sample_cmp_def)
  then show ?thesis by (simp only: e option.map snd_conv) blast
qed

end
