(* ===== verification/Update_Factory.thy ===== *)
theory Update_Factory
  imports Resource_Comparison
begin

text \<open>
  \<^verbatim>\<open>internal/metastructure/resource_update/resource_update_factory.go\<close>: the resource
  updates for a resource that is created, changed, replaced, destroyed or read. The functions fail
  with an error and draw fresh ids, so they live in a state monad over the number of ids drawn,
  with errors as a sum. The packages they call are gathered in an environment.
\<close>

section \<open>Environment, errors and the monad\<close>

record gen_env =
  ge_lib :: json_lib
  ge_Bool :: "json \<Rightarrow> bool"
  ge_set_raw :: set_raw
  ge_hash :: hash_lib
  ge_create_patch :: create_patch
  ge_NewID :: "nat \<Rightarrow> string"
  ge_ord :: "string list \<Rightarrow> string list"

datatype gen_error =
    LabelsDontMatch string string
  | CompareFailed
  | ConvertFailed
  | PatchFailed patch_error
  | MetadataFailed
  | RequiredFieldMissingOnCreate "string list" string string string
  | LoadStacksFailed
  | LoadStackFailed string
  | ResolvablesFailed FormaeURI
  | TranslateFailed string
  | TargetReferenceNotFound string
  | StackReferenceNotFound string
  | TargetNamespaceMismatch string string string
  | TargetConfigMismatch string raw raw
  | UnsupportedApplyMode FormaApplyMode
  | UnsupportedCommand Command
  | NilTarget string
  | NilStack string

type_synonym 'a gen = "nat \<Rightarrow> gen_error + 'a \<times> nat"

definition gret :: "'a \<Rightarrow> 'a gen" where
  "gret x = (\<lambda>n. Inr (x, n))"

definition gerr :: "gen_error \<Rightarrow> 'a gen" where
  "gerr e = (\<lambda>n. Inl e)"

definition gbind :: "'a gen \<Rightarrow> ('a \<Rightarrow> 'b gen) \<Rightarrow> 'b gen" where
  "gbind m f = (\<lambda>n. case m n of Inl e \<Rightarrow> Inl e | Inr (x, n') \<Rightarrow> f x n')"

definition NewID :: "gen_env \<Rightarrow> string gen" where
  "NewID env = (\<lambda>n. Inr (ge_NewID env n, Suc n))"

definition gopt :: "gen_error \<Rightarrow> 'a option \<Rightarrow> 'a gen" where
  "gopt e x = (case x of None \<Rightarrow> gerr e | Some y \<Rightarrow> gret y)"

definition gsum :: "('e \<Rightarrow> gen_error) \<Rightarrow> 'e + 'a \<Rightarrow> 'a gen" where
  "gsum f x = (case x of Inl e \<Rightarrow> gerr (f e) | Inr y \<Rightarrow> gret y)"

text \<open>A loop that collects the results of its body.\<close>

fun gmap :: "('a \<Rightarrow> 'b gen) \<Rightarrow> 'a list \<Rightarrow> 'b list gen" where
  "gmap f [] = gret []"
| "gmap f (x # xs) = gbind (f x) (\<lambda>y. gbind (gmap f xs) (\<lambda>ys. gret (y # ys)))"

definition gconcat :: "('a \<Rightarrow> 'b list gen) \<Rightarrow> 'a list \<Rightarrow> 'b list gen" where
  "gconcat f xs = gbind (gmap f xs) (\<lambda>yss. gret (concat yss))"

section \<open>Definitions\<close>

definition env_get :: "gen_env \<Rightarrow> gjson_get" where
  "env_get env r query = Option.bind (parse_raw (ge_lib env) r) (\<lambda>j. gj_Get (ge_lib env) j query)"

definition resolvables :: "gen_env \<Rightarrow> Resource \<Rightarrow> FormaeURI list" where
  "resolvables env resource = ExtractResolvableURIs (ge_lib env) (ge_ord env) resource"

definition metadata :: "gen_env \<Rightarrow> Resource \<Rightarrow> raw gen" where
  "metadata env resource = gopt MetadataFailed (GetMetadata (env_get env) (ge_ord env) resource)"

definition NewResourceUpdateForDestroy ::
  "gen_env \<Rightarrow> Resource \<Rightarrow> Target \<Rightarrow> FormaCommandSource \<Rightarrow> ResourceUpdate gen" where
  "NewResourceUpdateForDestroy env existingResource target source =
     gbind (metadata env existingResource) (\<lambda>existingMetadata.
       gret (zero_ResourceUpdate\<lparr>ru_ExistingResource := existingResource, ru_Resource := existingResource,
         ru_ResourceTarget := target, ru_Operation := OperationDelete, ru_MetaData := existingMetadata,
         ru_State := ResourceUpdateStateNotStarted, ru_Source := source,
         ru_StackLabel := res_Stack existingResource,
         ru_RemainingResolvables := resolvables env existingResource\<rparr>))"

definition NewResourceUpdateForReplace ::
  "gen_env \<Rightarrow> Resource \<Rightarrow> Resource \<Rightarrow> Target \<Rightarrow> Target \<Rightarrow> FormaCommandSource \<Rightarrow> ResourceUpdate list gen" where
  "NewResourceUpdateForReplace env existingResource newResource existingTarget newTarget source =
     gbind (NewID env) (\<lambda>GroupID.
     gbind (NewResourceUpdateForDestroy env existingResource existingTarget source) (\<lambda>deleteUpdate.
     gbind (metadata env newResource) (\<lambda>newMetadata.
       gret [deleteUpdate\<lparr>ru_GroupID := GroupID\<rparr>,
         zero_ResourceUpdate\<lparr>ru_Resource := newResource\<lparr>res_Managed := True\<rparr>, ru_ResourceTarget := newTarget,
           ru_Operation := OperationCreate, ru_MetaData := newMetadata,
           ru_State := ResourceUpdateStateNotStarted, ru_Source := source, ru_GroupID := GroupID,
           ru_StackLabel := res_Stack newResource,
           ru_RemainingResolvables := resolvables env newResource\<rparr>])))"

definition NewResourceUpdateForCreate ::
  "gen_env \<Rightarrow> Resource \<Rightarrow> Target \<Rightarrow> FormaCommandSource \<Rightarrow> ResourceUpdate gen" where
  "NewResourceUpdateForCreate env newResource target source =
     (case ValidateRequiredOnCreateFields (env_get env) (ge_ord env) newResource of
        Some err \<Rightarrow> gerr (RequiredFieldMissingOnCreate
          (GetMissingRequiredOnCreateFields (env_get env) (ge_ord env) newResource)
          (res_Stack newResource) (res_Label newResource) (res_Type newResource))
      | None \<Rightarrow>
          let newResource = newResource\<lparr>res_Managed := True\<rparr>
          in gret (zero_ResourceUpdate\<lparr>ru_Resource := newResource, ru_ResourceTarget := target,
            ru_Operation := OperationCreate, ru_State := ResourceUpdateStateNotStarted, ru_Source := source,
            ru_StackLabel := res_Stack newResource,
            ru_RemainingResolvables := resolvables env newResource\<rparr>))"

definition NewResourceUpdateForSyncWithFilter ::
  "gen_env \<Rightarrow> Resource \<Rightarrow> Target \<Rightarrow> FormaCommandSource \<Rightarrow> (raw \<Rightarrow> Target \<Rightarrow> bool) option \<Rightarrow> ResourceUpdate gen" where
  "NewResourceUpdateForSyncWithFilter env existingResource target source flt =
     gbind (gopt ConvertFailed (ConvertToPluginFormat (ge_lib env) (ge_ord env) (res_Properties existingResource)))
       (\<lambda>resolvedExistingProperties.
         let existingResourceCopy = existingResource;
             existingResource = existingResource\<lparr>res_Properties := resolvedExistingProperties\<rparr>
         in gbind (metadata env existingResource) (\<lambda>existingMetadata.
              gret (zero_ResourceUpdate\<lparr>ru_ExistingResource := existingResource, ru_ExistingTarget := target,
                ru_Resource := existingResourceCopy, ru_ResourceTarget := target,
                ru_Operation := OperationRead, ru_MetaData := existingMetadata,
                ru_State := ResourceUpdateStateNotStarted, ru_Source := source,
                ru_StackLabel := res_Stack existingResource,
                ru_PreviousProperties := res_Properties existingResource,
                ru_Filter := (case flt of None \<Rightarrow> Some (\<lambda>_ _. False) | Some f \<Rightarrow> Some f)\<rparr>)))"

definition NewResourceUpdateForSync ::
  "gen_env \<Rightarrow> Resource \<Rightarrow> Target \<Rightarrow> FormaCommandSource \<Rightarrow> ResourceUpdate gen" where
  "NewResourceUpdateForSync env existingResource target source =
     NewResourceUpdateForSyncWithFilter env existingResource target source None"

text \<open>The update in place, once a patch document exists.\<close>

definition update_in_place ::
  "gen_env \<Rightarrow> Resource \<Rightarrow> Resource \<Rightarrow> Target \<Rightarrow> Target \<Rightarrow> FormaCommandSource \<Rightarrow> raw \<Rightarrow> raw \<Rightarrow> raw \<Rightarrow> ResourceUpdate" where
  "update_in_place env existingResource newResource existingTarget newTarget source filteredProps patchDocument existingMetadata =
     zero_ResourceUpdate\<lparr>ru_ExistingResource := existingResource, ru_ExistingTarget := existingTarget,
       ru_Resource := zero_Resource\<lparr>res_Label := res_Label newResource, res_Type := res_Type newResource,
         res_Stack := res_Stack newResource, res_Schema := res_Schema newResource,
         res_Properties := filteredProps, res_PatchDocument := patchDocument,
         res_Target := res_Target newResource, res_NativeID := res_NativeID existingResource,
         res_Managed := True, res_Ksuid := res_Ksuid newResource\<rparr>,
       ru_ResourceTarget := newTarget, ru_Operation := OperationUpdate, ru_MetaData := existingMetadata,
       ru_State := ResourceUpdateStateNotStarted, ru_Source := source, ru_StackLabel := res_Stack newResource,
       ru_RemainingResolvables := resolvables env newResource,
       ru_PreviousProperties := res_Properties existingResource\<rparr>"

definition NewResourceUpdateForExisting ::
  "gen_env \<Rightarrow> ResolvableProperties \<Rightarrow> Resource \<Rightarrow> Resource \<Rightarrow> Target \<Rightarrow> Target \<Rightarrow> FormaApplyMode \<Rightarrow>
    FormaCommandSource \<Rightarrow> ResourceUpdate list gen" where
  "NewResourceUpdateForExisting env resolvableProperties existingResource newResource existingTarget newTarget mode source =
     (if existingResource = newResource then gret []
      else if res_Label existingResource \<noteq> res_Label newResource
           then gerr (LabelsDontMatch (res_Label existingResource) (res_Label newResource))
      else gbind (gopt CompareFailed (EnforceSetOnceAndCompareResourceForUpdate (ge_lib env) (ge_set_raw env)
                    (ge_hash env) existingResource newResource)) (\<lambda>(hasChanges, filteredProps).
        if \<not> hasChanges then gret []
        else gbind (gopt ConvertFailed (ConvertToPluginFormat (ge_lib env) (ge_ord env) (res_Properties existingResource)))
               (\<lambda>existingPluginProps.
             gbind (gopt ConvertFailed (ConvertToPluginFormat (ge_lib env) (ge_ord env) filteredProps)) (\<lambda>newPluginProps.
             gbind (gsum PatchFailed (GeneratePatch (ge_create_patch env) existingPluginProps newPluginProps
                      resolvableProperties (sch_Fields (res_Schema existingResource))
                      (CreateOnly (ge_ord env) (res_Schema existingResource)) mode)) (\<lambda>(patchDocument, needsReplacement).
               if patchDocument = RawNil then gret []
               else if needsReplacement
                    then NewResourceUpdateForReplace env existingResource newResource existingTarget newTarget source
               else gbind (metadata env existingResource) (\<lambda>existingMetadata.
                      gret [update_in_place env existingResource newResource existingTarget newTarget source
                              filteredProps patchDocument existingMetadata]))))))"

section \<open>Facts\<close>

lemma gret_Inr [simp]: "gret x n = Inr (y, n') \<longleftrightarrow> y = x \<and> n' = n"
  by (auto simp: gret_def)

lemma gerr_Inr [simp]: "gerr e n \<noteq> Inr r" "gerr e n = Inl e' \<longleftrightarrow> e' = e"
  by (auto simp: gerr_def)

lemma gret_Inl [simp]: "gret x n \<noteq> Inl e"
  by (simp add: gret_def)

lemma gbind_Inr: "gbind m f n = Inr r \<longleftrightarrow> (\<exists>x n'. m n = Inr (x, n') \<and> f x n' = Inr r)"
  by (auto simp: gbind_def split: sum.splits)

lemma gbind_Inl: "gbind m f n = Inl e \<longleftrightarrow> m n = Inl e \<or> (\<exists>x n'. m n = Inr (x, n') \<and> f x n' = Inl e)"
  by (auto simp: gbind_def split: sum.splits)

lemma gopt_Inr [simp]: "gopt e x n = Inr (y, n') \<longleftrightarrow> x = Some y \<and> n' = n"
  by (auto simp: gopt_def split: option.splits)

lemma gopt_Inl [simp]: "gopt e x n = Inl e' \<longleftrightarrow> x = None \<and> e' = e"
  by (auto simp: gopt_def split: option.splits)

lemma gsum_Inr [simp]: "gsum f x n = Inr (y, n') \<longleftrightarrow> x = Inr y \<and> n' = n"
  by (auto simp: gsum_def split: sum.splits)

lemma gsum_Inl [simp]: "gsum f x n = Inl e \<longleftrightarrow> (\<exists>d. x = Inl d \<and> e = f d)"
  by (auto simp: gsum_def split: sum.splits)

lemma NewID_Inr [simp]: "NewID env n = Inr (x, n') \<longleftrightarrow> x = ge_NewID env n \<and> n' = Suc n" "NewID env n \<noteq> Inl e"
  by (auto simp: NewID_def)

lemma metadata_Inl [simp]: "metadata env r n \<noteq> Inl e"
  by (simp add: metadata_def)

lemmas gen_simps = gbind_Inr gbind_Inl

lemma gmap_Inr:
  "gmap f xs n = Inr (ys, n') \<Longrightarrow> list_all2 (\<lambda>x y. \<exists>a b. f x a = Inr (y, b)) xs ys"
  by (induction xs arbitrary: n n' ys) (auto simp: gbind_Inr)

lemma gmap_Inl: "gmap f xs n = Inl e \<Longrightarrow> \<exists>x \<in> set xs. \<exists>a. f x a = Inl e"
  by (induction xs arbitrary: n) (auto simp: gbind_Inl gbind_Inr)

lemma gconcat_Inl: "gconcat f xs n = Inl e \<Longrightarrow> \<exists>x \<in> set xs. \<exists>a. f x a = Inl e"
  by (auto simp: gconcat_def gbind_Inl dest: gmap_Inl)

lemma gconcat_in:
  assumes "gconcat f xs n = Inr (zs, n')" "x \<in> set xs"
  shows "\<exists>ys a b. f x a = Inr (ys, b) \<and> set ys \<subseteq> set zs"
proof -
  obtain yss where yss: "gmap f xs n = Inr (yss, n')" "zs = concat yss"
    using assms(1) by (auto simp: gconcat_def gbind_Inr)
  then show ?thesis
    using gmap_Inr [OF yss(1)] assms(2) by (fastforce simp: list_all2_conv_all_nth in_set_conv_nth)
qed

lemma gconcat_from:
  assumes "gconcat f xs n = Inr (zs, n')" "z \<in> set zs"
  shows "\<exists>x \<in> set xs. \<exists>ys a b. f x a = Inr (ys, b) \<and> z \<in> set ys"
proof -
  obtain yss where yss: "gmap f xs n = Inr (yss, n')" "zs = concat yss"
    using assms(1) by (auto simp: gconcat_def gbind_Inr)
  then show ?thesis
    using gmap_Inr [OF yss(1)] assms(2) by (fastforce simp: list_all2_conv_all_nth in_set_conv_nth)
qed

section \<open>Postconditions and errors\<close>

text \<open>
  A small calculus: \<open>gpost m Q\<close> says that every value that \<open>m\<close> returns satisfies \<open>Q\<close>, and
  \<open>gsafe E m\<close> that every error it raises satisfies \<open>E\<close>.
\<close>

definition gpost :: "'a gen \<Rightarrow> ('a \<Rightarrow> bool) \<Rightarrow> bool" where
  "gpost m Q \<longleftrightarrow> (\<forall>n x n'. m n = Inr (x, n') \<longrightarrow> Q x)"

definition gsafe :: "(gen_error \<Rightarrow> bool) \<Rightarrow> 'a gen \<Rightarrow> bool" where
  "gsafe E m \<longleftrightarrow> (\<forall>n e. m n = Inl e \<longrightarrow> E e)"

named_theorems gen_intros \<open>rules of the calculus of postconditions and errors\<close>

lemma gpostD: "gpost m Q \<Longrightarrow> m n = Inr (x, n') \<Longrightarrow> Q x"
  unfolding gpost_def by blast

lemma gsafeD: "gsafe E m \<Longrightarrow> m n = Inl e \<Longrightarrow> E e"
  by (simp add: gsafe_def)

lemma gpost_mono: "gpost m P \<Longrightarrow> (\<And>x. P x \<Longrightarrow> Q x) \<Longrightarrow> gpost m Q"
  by (auto simp: gpost_def)

lemma gpost_conj: "gpost m P \<Longrightarrow> gpost m Q \<Longrightarrow> gpost m (\<lambda>x. P x \<and> Q x)"
  by (auto simp: gpost_def)

lemma gpost_gret [gen_intros]: "Q x \<Longrightarrow> gpost (gret x) Q"
  and gpost_gerr [gen_intros]: "gpost (gerr e) Q"
  by (auto simp: gpost_def)

lemma gpost_gopt [gen_intros]: "(\<And>y. x = Some y \<Longrightarrow> Q y) \<Longrightarrow> gpost (gopt e x) Q"
  by (auto simp: gpost_def)

lemma gpost_gsum [gen_intros]: "(\<And>y. s = Inr y \<Longrightarrow> Q y) \<Longrightarrow> gpost (gsum g s) Q"
  by (auto simp: gpost_def)

lemma gpost_NewID [gen_intros]: "(\<And>k. Q (ge_NewID env k)) \<Longrightarrow> gpost (NewID env) Q"
  by (auto simp: gpost_def)

lemma gpost_gbind [gen_intros]: "gpost m (\<lambda>x. gpost (f x) Q) \<Longrightarrow> gpost (gbind m f) Q"
  unfolding gpost_def gbind_Inr by blast

lemma gpost_metadata [gen_intros]: "(\<And>md. Q md) \<Longrightarrow> gpost (metadata env r) Q"
  by (auto simp: gpost_def)

lemma gpost_gmap [gen_intros]:
  "(\<And>x. x \<in> set xs \<Longrightarrow> gpost (f x) (R x)) \<Longrightarrow> (\<And>ys. list_all2 R xs ys \<Longrightarrow> Q ys) \<Longrightarrow> gpost (gmap f xs) Q"
proof -
  assume f: "\<And>x. x \<in> set xs \<Longrightarrow> gpost (f x) (R x)" and Q: "\<And>ys. list_all2 R xs ys \<Longrightarrow> Q ys"
  have "list_all2 R xs ys" if "gmap f xs n = Inr (ys, n')" for n ys n'
    using gmap_Inr [OF that] by (rule list.rel_mono_strong) (use f in \<open>auto dest: gpostD\<close>)
  then show ?thesis using Q by (simp add: gpost_def)
qed

lemma gsafe_gret [gen_intros]: "gsafe E (gret x)"
  and gsafe_gerr [gen_intros]: "E e \<Longrightarrow> gsafe E (gerr e)"
  by (auto simp: gsafe_def)

lemma gsafe_gopt [gen_intros]: "(a = None \<Longrightarrow> E e) \<Longrightarrow> gsafe E (gopt e a)"
  by (auto simp: gsafe_def)

lemma gsafe_gsum [gen_intros]: "(\<And>d. E (g d)) \<Longrightarrow> gsafe E (gsum g s)"
  by (auto simp: gsafe_def)

lemma gsafe_NewID [gen_intros]: "gsafe E (NewID env)"
  and gsafe_metadata [gen_intros]: "gsafe E (metadata env r)"
  by (auto simp: gsafe_def)

lemma gsafe_gbind [gen_intros]:
  "gsafe E m \<Longrightarrow> gpost m (\<lambda>x. gsafe E (f x)) \<Longrightarrow> gsafe E (gbind m f)"
  unfolding gsafe_def gpost_def gbind_Inl by blast

lemma gsafe_gmap [gen_intros]: "(\<And>x. x \<in> set xs \<Longrightarrow> gsafe E (f x)) \<Longrightarrow> gsafe E (gmap f xs)"
  by (auto simp: gsafe_def dest: gmap_Inl)

lemma gsafe_gconcat [gen_intros]: "(\<And>x. x \<in> set xs \<Longrightarrow> gsafe E (f x)) \<Longrightarrow> gsafe E (gconcat f xs)"
  by (auto simp: gsafe_def dest: gconcat_Inl)

lemma gpost_gconcat [gen_intros]:
  "(\<And>x. x \<in> set xs \<Longrightarrow> gpost (f x) (R x)) \<Longrightarrow>
    (\<And>yss. list_all2 R xs yss \<Longrightarrow> Q (concat yss)) \<Longrightarrow> gpost (gconcat f xs) Q"
  unfolding gconcat_def by (rule gpost_gbind, rule gpost_gmap [where R = R]) (auto intro: gpost_gret)

section \<open>The updates of the factory\<close>

text \<open>What an update looks like when it is handed to the changeset: not started, and its operation
  is one that the pipeline knows how to order.\<close>

definition fresh_update :: "FormaCommandSource \<Rightarrow> ResourceUpdate \<Rightarrow> bool" where
  "fresh_update source u \<longleftrightarrow> ru_State u = ResourceUpdateStateNotStarted \<and> ru_Source u = source \<and>
     ru_ProgressResult u = [] \<and> ru_Operation u \<noteq> OperationReplace \<and> ru_StackLabel u = res_Stack (ru_Resource u)"

definition deletes :: "gen_env \<Rightarrow> FormaCommandSource \<Rightarrow> Resource \<Rightarrow> ResourceUpdate \<Rightarrow> bool" where
  "deletes env source r u \<longleftrightarrow> fresh_update source u \<and> ru_Operation u = OperationDelete \<and> ru_Resource u = r \<and>
     ru_ExistingResource u = r \<and> ru_RemainingResolvables u = resolvables env r"

definition creates :: "gen_env \<Rightarrow> FormaCommandSource \<Rightarrow> Resource \<Rightarrow> ResourceUpdate \<Rightarrow> bool" where
  "creates env source r u \<longleftrightarrow> fresh_update source u \<and> ru_Operation u = OperationCreate \<and>
     ru_Resource u = r\<lparr>res_Managed := True\<rparr> \<and> ru_RemainingResolvables u = resolvables env r"

definition replaces :: "gen_env \<Rightarrow> FormaCommandSource \<Rightarrow> Resource \<Rightarrow> Resource \<Rightarrow> ResourceUpdate list \<Rightarrow> bool" where
  "replaces env source old new us \<longleftrightarrow> (\<exists>d c. us = [d, c] \<and> deletes env source old d \<and> creates env source new c \<and>
     ru_GroupID d = ru_GroupID c)"

definition updates_in_place :: "gen_env \<Rightarrow> FormaCommandSource \<Rightarrow> Resource \<Rightarrow> Resource \<Rightarrow> ResourceUpdate \<Rightarrow> bool" where
  "updates_in_place env source old new u \<longleftrightarrow> fresh_update source u \<and> ru_Operation u = OperationUpdate \<and>
     ru_ExistingResource u = old \<and> res_URI (ru_Resource u) = res_URI new \<and>
     res_NativeID (ru_Resource u) = res_NativeID old \<and> res_Managed (ru_Resource u) \<and>
     res_PatchDocument (ru_Resource u) \<noteq> RawNil \<and>
     res_Label (ru_Resource u) = res_Label new \<and> res_Type (ru_Resource u) = res_Type new \<and>
     res_Stack (ru_Resource u) = res_Stack new \<and> ru_RemainingResolvables u = resolvables env new"

lemma resolvables_managed [simp]: "resolvables env (r\<lparr>res_Managed := b\<rparr>) = resolvables env r"
  by (simp add: resolvables_def ExtractResolvableURIs_def newPropertyResolverFromResource_def)

lemma Destroy_post [gen_intros]:
  "(\<And>u. deletes env source r u \<Longrightarrow> Q u) \<Longrightarrow> gpost (NewResourceUpdateForDestroy env r t source) Q"
  unfolding NewResourceUpdateForDestroy_def
  by (intro gen_intros) (simp add: deletes_def fresh_update_def zero_ResourceUpdate_def)

lemma Create_post [gen_intros]:
  "(\<And>u. creates env source r u \<Longrightarrow> Q u) \<Longrightarrow> gpost (NewResourceUpdateForCreate env r t source) Q"
  unfolding NewResourceUpdateForCreate_def Let_def
  by (auto intro!: gen_intros simp: creates_def fresh_update_def zero_ResourceUpdate_def split: option.split)

lemma Replace_post [gen_intros]:
  "(\<And>us. replaces env source old new us \<Longrightarrow> Q us) \<Longrightarrow> gpost (NewResourceUpdateForReplace env old new t t' source) Q"
  unfolding NewResourceUpdateForReplace_def
  by (intro gen_intros)
    (simp add: replaces_def deletes_def creates_def fresh_update_def zero_ResourceUpdate_def)

lemma Existing_post [gen_intros]:
  "(\<And>us. us = [] \<or> replaces env source old new us \<or> (\<exists>u. us = [u] \<and> updates_in_place env source old new u) \<Longrightarrow> Q us) \<Longrightarrow>
    gpost (NewResourceUpdateForExisting env props old new t t' mode source) Q"
  unfolding NewResourceUpdateForExisting_def
  by (auto intro!: gen_intros split: prod.split
      simp: update_in_place_def updates_in_place_def fresh_update_def zero_ResourceUpdate_def zero_Resource_def res_URI_def)

lemma Sync_post [gen_intros]:
  "(\<And>u. fresh_update source u \<and> ru_Operation u = OperationRead \<Longrightarrow> Q u) \<Longrightarrow>
    gpost (NewResourceUpdateForSyncWithFilter env r t source flt) Q"
  unfolding NewResourceUpdateForSyncWithFilter_def Let_def
  by (intro gen_intros) (simp add: fresh_update_def zero_ResourceUpdate_def)

end
