(* ===== verification/Update_Generator.thy ===== *)
theory Update_Generator
  imports Update_Factory Datastore_Facts
begin

text \<open>
  \<^verbatim>\<open>internal/metastructure/resource_update/resource_update_generator.go\<close>: a forma and a
  command become the resource updates that a changeset executes. The interface
  \<^verbatim>\<open>ResourceDataLookup\<close> (\<^verbatim>\<open>resource_data_lookup.go\<close>) is a record of functions;
  the datastore implements it. Nil pointers that the code would dereference are errors.
\<close>

section \<open>The lookup interface and its implementation\<close>

record ResourceDataLookup =
  rl_LoadStack :: "string \<Rightarrow> ds_error + Forma option"
  rl_LoadAllStacks :: "ds_error + Forma list"
  rl_BatchGetKSUIDsByTriplets :: "TripletKey list \<Rightarrow> ds_error + (TripletKey \<times> string) list"
  rl_GetKSUIDByTriplet :: "string \<Rightarrow> string \<Rightarrow> string \<Rightarrow> ds_error + string"

definition datastore_lookup :: "(string list \<Rightarrow> string list) \<Rightarrow> datastore \<Rightarrow> ResourceDataLookup" where
  "datastore_lookup ord d = \<lparr>rl_LoadStack = LoadStack d, rl_LoadAllStacks = LoadAllStacks ord d,
     rl_BatchGetKSUIDsByTriplets = (\<lambda>ts. Inr (BatchGetKSUIDsByTriplets d ts)),
     rl_GetKSUIDByTriplet = (\<lambda>s l t. Inr (GetKSUIDByTriplet d s l t))\<rparr>"

type_synonym targets = "(string \<times> Target) list"
type_synonym resource_filter = "raw \<Rightarrow> Target \<Rightarrow> bool"

text \<open>\<^verbatim>\<open>*targetMap[label]\<close>\<close>

definition deref_target :: "targets \<Rightarrow> string \<Rightarrow> Target gen" where
  "deref_target targetMap label = gopt (NilTarget label) (map_of targetMap label)"

section \<open>Identifiers\<close>

text \<open>\<^verbatim>\<open>assignKSUIDs\<close>: every resource without an id gets the stored one or a fresh one.
  The second result maps ids to labels.\<close>

definition needs_ksuid :: "Resource \<Rightarrow> bool" where
  "needs_ksuid resource \<longleftrightarrow> res_Ksuid resource = ''''"

definition triplet_of :: "Resource \<Rightarrow> TripletKey" where
  "triplet_of resource = \<lparr>tk_Stack = res_Stack resource, tk_Label = res_Label resource, tk_Type = res_Type resource\<rparr>"

definition labels_of :: "Resource list \<Rightarrow> (string \<times> string) list \<Rightarrow> (string \<times> string) list" where
  "labels_of resources m = fold (\<lambda>r m. if res_Ksuid r \<noteq> '''' then AList.update (res_Ksuid r) (res_Label r) m else m)
     resources m"

definition assignKSUIDs ::
  "gen_env \<Rightarrow> Resource list \<Rightarrow> ResourceDataLookup \<Rightarrow> (Resource list \<times> (string \<times> string) list) gen" where
  "assignKSUIDs env resources ds =
     (let tripletsToLookup = map triplet_of (filter needs_ksuid resources);
          fresh = (\<lambda>r. gbind (NewID env) (\<lambda>ksuid. gret (r\<lparr>res_Ksuid := ksuid\<rparr>)))
      in if length tripletsToLookup = 0 then gret (resources, labels_of resources [])
         else (case rl_BatchGetKSUIDsByTriplets ds tripletsToLookup of
            Inl err \<Rightarrow>
              gbind (gmap (\<lambda>r. if needs_ksuid r then fresh r else gret r) resources)
                (\<lambda>resources. gret (resources, labels_of resources []))
          | Inr ksuidMap \<Rightarrow>
              gbind (gmap (\<lambda>r. if needs_ksuid r
                      then (case map_of ksuidMap (triplet_of r) of
                              Some existingKSUID \<Rightarrow> gret (r\<lparr>res_Ksuid := existingKSUID\<rparr>)
                            | None \<Rightarrow> fresh r)
                      else gret r) resources)
                (\<lambda>resources. gret (resources, labels_of resources
                   (fold (\<lambda>(tripletKey, ksuid) m. AList.update ksuid (tk_Label tripletKey) m) ksuidMap [])))))"

text \<open>\<^verbatim>\<open>FindResolvablesFromProperties\<close> of \<^verbatim>\<open>pkg/model/uri.go\<close>.\<close>

record ResolvableObject =
  ro_Path :: string
  ro_Label :: string
  ro_Type :: string
  ro_Stack :: string
  ro_Property :: string

definition IsResolvableObject :: "gen_env \<Rightarrow> json \<Rightarrow> bool" where
  "IsResolvableObject env value \<longleftrightarrow> is_map value \<and>
     (case gj_Get (ge_lib env) value ''$res'' of None \<Rightarrow> False | Some resField \<Rightarrow> ge_Bool env resField)"

function findResolvablesRecursive :: "gen_env \<Rightarrow> string \<Rightarrow> json \<Rightarrow> ResolvableObject list" where
  "findResolvablesRecursive env basePath value = (case value of
     JObj kvs \<Rightarrow>
       if IsResolvableObject env value
       then [\<lparr>ro_Path = basePath, ro_Label = get_text (ge_lib env) value ''$label'',
              ro_Type = get_text (ge_lib env) value ''$type'', ro_Stack = get_text (ge_lib env) value ''$stack'',
              ro_Property = get_text (ge_lib env) value ''$property''\<rparr>]
       else concat (map (\<lambda>kv. findResolvablesRecursive env (buildPath basePath (fst kv)) (snd kv)) (for_each value))
   | JArr js \<Rightarrow> concat (map (\<lambda>kv. findResolvablesRecursive env (buildPath basePath (fst kv)) (snd kv)) (for_each value))
   | _ \<Rightarrow> [])"
  by pat_completeness auto

termination findResolvablesRecursive
  by (relation "measure (\<lambda>(env, p, j). size j)") (use size_for_each in \<open>auto simp del: for_each.simps\<close>)

declare findResolvablesRecursive.simps [simp del]

definition FindResolvablesFromProperties :: "gen_env \<Rightarrow> raw \<Rightarrow> ResolvableObject list" where
  "FindResolvablesFromProperties env jsonStr =
     (case parse_raw (ge_lib env) jsonStr of None \<Rightarrow> [] | Some j \<Rightarrow> findResolvablesRecursive env '''' j)"

definition ToTripletKey :: "ResolvableObject \<Rightarrow> TripletKey" where
  "ToTripletKey r = \<lparr>tk_Stack = ro_Stack r, tk_Label = ro_Label r, tk_Type = ro_Type r\<rparr>"

definition ToFormaeURI :: "ResolvableObject \<Rightarrow> string \<Rightarrow> FormaeURI" where
  "ToFormaeURI r ksuid = (if ro_Property r = '''' then NewFormaeURI ksuid '''' else NewFormaeURI ksuid (ro_Property r))"

text \<open>The id a resolvable object refers to; \<open>None\<close> when it is skipped with a warning.\<close>

definition resolvable_ksuid ::
  "(TripletKey \<times> string) list \<Rightarrow> ResourceDataLookup \<Rightarrow> ResolvableObject \<Rightarrow> string option" where
  "resolvable_ksuid tripletToKsuid ds robj =
     (case map_of tripletToKsuid (ToTripletKey robj) of
        Some ksuid \<Rightarrow> Some ksuid
      | None \<Rightarrow>
          if ro_Label robj = '''' \<or> ro_Type robj = '''' \<or> ro_Stack robj = '''' then None
          else (case rl_GetKSUIDByTriplet ds (ro_Stack robj) (ro_Label robj) (ro_Type robj) of
                  Inl err \<Rightarrow> None
                | Inr ksuid \<Rightarrow> if ksuid = '''' then None else Some ksuid))"

definition translatePropertiesJSON ::
  "gen_env \<Rightarrow> raw \<Rightarrow> (TripletKey \<times> string) list \<Rightarrow> ResourceDataLookup \<Rightarrow> (raw \<times> (string \<times> string) list) option" where
  "translatePropertiesJSON env properties tripletToKsuid ds =
     ofold (\<lambda>robj (result, externalLabels).
         case resolvable_ksuid tripletToKsuid ds robj of
           None \<Rightarrow> Some (result, externalLabels)
         | Some ksuid \<Rightarrow>
             let formaeURI = ToFormaeURI robj ksuid
             in map_option (\<lambda>result. (result,
                    if ro_Label robj \<noteq> '''' then AList.update (KSUID formaeURI) (ro_Label robj) externalLabels
                    else externalLabels))
                  (sj_Set (ge_lib env) result (ro_Path robj) (JObj [(''$ref'', JStr formaeURI)])))
       (FindResolvablesFromProperties env properties) (properties, [])"

definition copy_labels :: "(string \<times> string) list \<Rightarrow> (string \<times> string) list \<Rightarrow> (string \<times> string) list" where
  "copy_labels dst src = fold (\<lambda>(k, l) m. AList.update k l m) src dst"

definition translate_part ::
  "gen_env \<Rightarrow> (TripletKey \<times> string) list \<Rightarrow> ResourceDataLookup \<Rightarrow> string \<Rightarrow> raw \<Rightarrow> (raw \<times> (string \<times> string) list) gen" where
  "translate_part env tupleToKsuid ds label properties =
     (if properties = RawNil then gret (properties, [])
      else gopt (TranslateFailed label) (translatePropertiesJSON env properties tupleToKsuid ds))"

definition translateFormaeReferencesToKsuid ::
  "gen_env \<Rightarrow> Forma \<Rightarrow> ResourceDataLookup \<Rightarrow> (Forma \<times> (string \<times> string) list) gen" where
  "translateFormaeReferencesToKsuid env forma ds =
     gbind (assignKSUIDs env (forma_Resources forma) ds) (\<lambda>(resources, ksuidToLabel).
       let tupleToKsuid = fold (\<lambda>r m. AList.update (triplet_of r) (res_Ksuid r) m) resources []
       in gbind (gmap (\<lambda>resource.
              gbind (translate_part env tupleToKsuid ds (res_Label resource) (res_Properties resource)) (\<lambda>(props, l1).
              gbind (translate_part env tupleToKsuid ds (res_Label resource) (res_ReadOnlyProperties resource)) (\<lambda>(ro, l2).
                gret (resource\<lparr>res_Properties := props, res_ReadOnlyProperties := ro\<rparr>, copy_labels l1 l2)))) resources)
            (\<lambda>translated. gret (forma\<lparr>forma_Resources := map fst translated\<rparr>,
                 fold (\<lambda>l m. copy_labels m l) (map snd translated) ksuidToLabel)))"

section \<open>Destroy and sync\<close>

definition same_in_stack :: "string \<Rightarrow> Resource \<Rightarrow> Resource \<Rightarrow> bool" where
  "same_in_stack stackLabel formaResource existingResource \<longleftrightarrow> res_Stack formaResource = stackLabel \<and>
     res_Label formaResource = res_Label existingResource \<and> res_Type formaResource = res_Type existingResource"

definition generateResourceUpdatesForDestroy ::
  "gen_env \<Rightarrow> Forma \<Rightarrow> FormaCommandSource \<Rightarrow> targets \<Rightarrow> ResourceDataLookup \<Rightarrow> ResourceUpdate list gen" where
  "generateResourceUpdatesForDestroy env forma source targetMap ds =
     gconcat (\<lambda>stack.
       case rl_LoadStack ds (SingleStackLabel stack) of
         Inl err \<Rightarrow> gret []
       | Inr None \<Rightarrow> gret []
       | Inr (Some existingStack) \<Rightarrow>
           gconcat (\<lambda>existingResource.
             gmap (\<lambda>formaResource.
                 gbind (deref_target targetMap (res_Target existingResource)) (\<lambda>target.
                   NewResourceUpdateForDestroy env existingResource target source))
               (filter (\<lambda>r. same_in_stack (SingleStackLabel stack) r existingResource) (forma_Resources forma)))
           (forma_Resources existingStack))
       (SplitByStack (ge_ord env) forma)"

definition discovery_updates ::
  "gen_env \<Rightarrow> Forma \<Rightarrow> string \<Rightarrow> FormaCommandSource \<Rightarrow> targets \<Rightarrow> (string \<times> resource_filter) list option \<Rightarrow>
    ResourceUpdate list gen" where
  "discovery_updates env forma stackLabel source targetMap resourceFilters =
     gmap (\<lambda>r. gbind (deref_target targetMap (res_Target r)) (\<lambda>target.
         NewResourceUpdateForSyncWithFilter env r target source
           (case resourceFilters of None \<Rightarrow> None | Some fs \<Rightarrow> map_of fs (res_Type r))))
       (filter (\<lambda>r. res_Stack r = stackLabel) (forma_Resources forma))"

definition generateResourceUpdatesForSync ::
  "gen_env \<Rightarrow> Forma \<Rightarrow> FormaCommandSource \<Rightarrow> targets \<Rightarrow> ResourceDataLookup \<Rightarrow>
    (string \<times> resource_filter) list option \<Rightarrow> ResourceUpdate list gen" where
  "generateResourceUpdatesForSync env forma source targetMap ds resourceFilters =
     gconcat (\<lambda>stack.
       case rl_LoadStack ds (SingleStackLabel stack) of
         Inl err \<Rightarrow> gret []
       | Inr existingStack \<Rightarrow>
           if source = FormaCommandSourceDiscovery
           then discovery_updates env forma (SingleStackLabel stack) source targetMap resourceFilters
           else gbind (gopt (NilStack (SingleStackLabel stack)) existingStack) (\<lambda>existingStack.
             gconcat (\<lambda>existingResource.
               gmap (\<lambda>resource.
                   gbind (deref_target targetMap (res_Target existingResource)) (\<lambda>target.
                     NewResourceUpdateForSync env existingResource target source))
                 (filter (\<lambda>r. same_in_stack (SingleStackLabel stack) r existingResource) (forma_Resources forma)))
             (forma_Resources existingStack)))
       (SplitByStack (ge_ord env) forma)"

section \<open>Dependents\<close>

definition same_triplet :: "Resource \<Rightarrow> Resource \<Rightarrow> bool" where
  "same_triplet a b \<longleftrightarrow> res_Label a = res_Label b \<and> res_Stack a = res_Stack b \<and> res_Type a = res_Type b"

definition depends_on :: "gen_env \<Rightarrow> Resource \<Rightarrow> Resource \<Rightarrow> bool" where
  "depends_on env resource targetResource \<longleftrightarrow>
     list_ex (\<lambda>uri. Stripped uri = Stripped (res_URI targetResource)) (resolvables env resource)"

definition findResourcesThatDependOn :: "gen_env \<Rightarrow> Resource \<Rightarrow> Forma list \<Rightarrow> Resource list" where
  "findResourcesThatDependOn env targetResource allStacks =
     concat (map (\<lambda>stack. filter (\<lambda>resource. \<not> same_triplet resource targetResource \<and>
         depends_on env resource targetResource) (forma_Resources stack)) allStacks)"

text \<open>A dependent whose delete cannot be built is skipped with a log entry.\<close>

definition goption :: "'a gen \<Rightarrow> 'a option gen" where
  "goption m = (\<lambda>n. case m n of Inl e \<Rightarrow> Inr (None, n) | Inr (x, n') \<Rightarrow> Inr (Some x, n'))"

definition findDependencyUpdates ::
  "gen_env \<Rightarrow> ResourceUpdate list \<Rightarrow> Forma list \<Rightarrow> targets \<Rightarrow> FormaCommandSource \<Rightarrow> ResourceUpdate list gen" where
  "findDependencyUpdates env allDeleteUpdates allExistingStacks targetMap source =
     gconcat (\<lambda>deleteUpdate.
       gbind (gmap (\<lambda>dependentRes.
           gbind (deref_target targetMap (res_Target dependentRes)) (\<lambda>target.
             goption (NewResourceUpdateForDestroy env dependentRes target source)))
         (filter (\<lambda>dependentRes. \<not> list_ex (\<lambda>existingDelete. same_triplet (ru_Resource existingDelete) dependentRes) allDeleteUpdates)
           (findResourcesThatDependOn env (ru_Resource deleteUpdate) allExistingStacks)))
         (\<lambda>deletes. gret (List.map_filter id deletes)))
       (filter (\<lambda>u. ru_Operation u = OperationDelete) allDeleteUpdates)"

definition same_uri :: "ResourceUpdate \<Rightarrow> ResourceUpdate \<Rightarrow> bool" where
  "same_uri a b \<longleftrightarrow> Stripped (res_URI (ru_Resource a)) = Stripped (res_URI (ru_Resource b))"

text \<open>The loop over the updates; its state is the list of dependency deletes that are left.\<close>

fun convert_loop ::
  "gen_env \<Rightarrow> FormaCommandSource \<Rightarrow> ResourceUpdate list \<Rightarrow> ResourceUpdate list \<Rightarrow>
    (ResourceUpdate list \<times> ResourceUpdate list) gen" where
  "convert_loop env source [] dependencyDeletes = gret ([], dependencyDeletes)"
| "convert_loop env source (update # updates) dependencyDeletes =
     (if ru_Operation update = OperationUpdate \<and> list_ex (\<lambda>depDelete. same_uri update depDelete) dependencyDeletes
      then gbind (goption (NewResourceUpdateForReplace env (ru_ExistingResource update) (ru_Resource update)
                    (ru_ExistingTarget update) (ru_ResourceTarget update) source)) (\<lambda>replaceUpdates.
             case replaceUpdates of
               None \<Rightarrow> convert_loop env source updates dependencyDeletes
             | Some rs \<Rightarrow> gbind (convert_loop env source updates (remove_first (\<lambda>depDelete. same_uri depDelete update) dependencyDeletes))
                   (\<lambda>(final, deps). gret (rs @ final, deps)))
      else gbind (convert_loop env source updates dependencyDeletes) (\<lambda>(final, deps). gret (update # final, deps)))"

definition add_dep_delete :: "ResourceUpdate \<Rightarrow> ResourceUpdate list \<Rightarrow> ResourceUpdate list" where
  "add_dep_delete depDelete final =
     (if list_ex (\<lambda>finalUpdate. same_uri finalUpdate depDelete \<and> ru_Operation finalUpdate = OperationDelete) final
      then final else final @ [depDelete])"

definition convertUpdatesToReplacementsForDependencies ::
  "gen_env \<Rightarrow> ResourceUpdate list \<Rightarrow> ResourceUpdate list \<Rightarrow> FormaCommandSource \<Rightarrow> ResourceUpdate list gen" where
  "convertUpdatesToReplacementsForDependencies env allResourceUpdates dependencyDeletes source =
     gbind (convert_loop env source allResourceUpdates dependencyDeletes)
       (\<lambda>(final, deps). gret (fold add_dep_delete deps final))"

definition triplet_key :: "Resource \<Rightarrow> string" where
  "triplet_key r = res_Stack r @ ''|'' @ res_Label r @ ''|'' @ res_Type r"

fun convert_deps ::
  "gen_env \<Rightarrow> ResourceUpdate list \<Rightarrow> (string \<times> Resource) list \<Rightarrow> targets \<Rightarrow> FormaCommandSource \<Rightarrow>
    ResourceUpdate list \<Rightarrow> (ResourceUpdate list \<times> ResourceUpdate list) gen" where
  "convert_deps env allResourceUpdates formaResourceMap targetMap source [] = gret ([], [])"
| "convert_deps env allResourceUpdates formaResourceMap targetMap source (depDelete # deps) =
     (let keep = gbind (convert_deps env allResourceUpdates formaResourceMap targetMap source deps)
                   (\<lambda>(final, remaining). gret (final, depDelete # remaining))
      in case map_of formaResourceMap (triplet_key (ru_Resource depDelete)) of
           None \<Rightarrow> keep
         | Some formaResource \<Rightarrow>
             if list_ex (\<lambda>update. same_uri update depDelete \<and>
                  (ru_Operation update = OperationUpdate \<or> ru_Operation update = OperationCreate)) allResourceUpdates
             then keep
             else gbind (deref_target targetMap (res_Target formaResource)) (\<lambda>target.
                  gbind (goption (NewResourceUpdateForReplace env (ru_Resource depDelete) formaResource
                           (ru_ResourceTarget depDelete) target source)) (\<lambda>replaceUpdates.
                  case replaceUpdates of
                    None \<Rightarrow> keep
                  | Some rs \<Rightarrow> gbind (convert_deps env allResourceUpdates formaResourceMap targetMap source deps)
                      (\<lambda>(final, remaining). gret (rs @ final, remaining)))))"

definition convertDependencyDeletesToReplacements ::
  "gen_env \<Rightarrow> ResourceUpdate list \<Rightarrow> ResourceUpdate list \<Rightarrow> Forma \<Rightarrow> targets \<Rightarrow> FormaCommandSource \<Rightarrow>
    ResourceUpdate list gen" where
  "convertDependencyDeletesToReplacements env allResourceUpdates dependencyDeletes forma targetMap source =
     (let formaResourceMap = fold (\<lambda>r m. AList.update (triplet_key r) r m) (forma_Resources forma) []
      in gbind (convert_deps env allResourceUpdates formaResourceMap targetMap source dependencyDeletes)
           (\<lambda>(final, remaining). gret (final @ remaining)))"

section \<open>Reconcile\<close>

record plan =
  pl_creates :: "ResourceUpdate list"
  pl_updates :: "ResourceUpdate list"
  pl_replaces :: "ResourceUpdate list"
  pl_deletes :: "ResourceUpdate list"

definition no_plan :: plan where
  "no_plan = \<lparr>pl_creates = [], pl_updates = [], pl_replaces = [], pl_deletes = []\<rparr>"

definition plan_concat :: "plan list \<Rightarrow> plan" where
  "plan_concat ps = \<lparr>pl_creates = concat (map pl_creates ps), pl_updates = concat (map pl_updates ps),
     pl_replaces = concat (map pl_replaces ps), pl_deletes = concat (map pl_deletes ps)\<rparr>"

text \<open>A body of a loop adds to the four lists.\<close>

definition gplan :: "('a \<Rightarrow> plan gen) \<Rightarrow> 'a list \<Rightarrow> plan gen" where
  "gplan f xs = gbind (gmap f xs) (\<lambda>ps. gret (plan_concat ps))"

definition findUnmanagedResource :: "Resource \<Rightarrow> Forma list \<Rightarrow> Resource option" where
  "findUnmanagedResource resource existingStacks =
     (case find (\<lambda>s. SingleStackLabel s = UnmanagedStack) existingStacks of
        None \<Rightarrow> None
      | Some s \<Rightarrow> find (\<lambda>res. res_Type res = res_Type resource \<and> res_Label res = res_Label resource) (forma_Resources s))"

definition create_new ::
  "gen_env \<Rightarrow> FormaCommandSource \<Rightarrow> targets \<Rightarrow> Resource \<Rightarrow> plan gen" where
  "create_new env source targetMap newResource =
     gbind (deref_target targetMap (res_Target newResource)) (\<lambda>target.
     gbind (NewResourceUpdateForCreate env newResource target source) (\<lambda>resourceCreate.
       gret (no_plan\<lparr>pl_creates := [resourceCreate]\<rparr>)))"

definition update_existing ::
  "gen_env \<Rightarrow> FormaApplyMode \<Rightarrow> FormaCommandSource \<Rightarrow> targets \<Rightarrow> Forma list \<Rightarrow> Resource \<Rightarrow> Resource \<Rightarrow>
    ResourceUpdate list gen" where
  "update_existing env mode source targetMap allExistingStacks existingResource newResource =
     gbind (gsum ResolvablesFailed
         (LoadResolvablePropertiesFromStacks (ge_lib env) (ge_ord env) newResource allExistingStacks)) (\<lambda>readOnlyProperties.
     gbind (deref_target targetMap (res_Target existingResource)) (\<lambda>existingTarget.
     gbind (deref_target targetMap (res_Target newResource)) (\<lambda>newTarget.
       NewResourceUpdateForExisting env readOnlyProperties existingResource newResource existingTarget newTarget mode source)))"

definition split_existing :: "ResourceUpdate list \<Rightarrow> plan" where
  "split_existing updates = no_plan\<lparr>pl_updates := filter (\<lambda>u. ru_Operation u = OperationUpdate) updates,
     pl_replaces := filter (\<lambda>u. ru_Operation u \<noteq> OperationUpdate) updates\<rparr>"

definition reconcile_new_stack ::
  "gen_env \<Rightarrow> FormaApplyMode \<Rightarrow> FormaCommandSource \<Rightarrow> targets \<Rightarrow> Forma list \<Rightarrow> Forma \<Rightarrow> plan gen" where
  "reconcile_new_stack env mode source targetMap allExistingStacks stack =
     gplan (\<lambda>newResource.
       case findUnmanagedResource newResource allExistingStacks of
         Some existingUnmanaged \<Rightarrow>
           gbind (update_existing env mode source targetMap allExistingStacks existingUnmanaged newResource)
             (\<lambda>us. gret (no_plan\<lparr>pl_updates := us\<rparr>))
       | None \<Rightarrow> create_new env source targetMap newResource)
     (forma_Resources stack)"

definition matches_existing :: "Resource \<Rightarrow> Resource \<Rightarrow> bool" where
  "matches_existing newResource existingResource \<longleftrightarrow>
     res_Label newResource = res_Label existingResource \<and> res_Type newResource = res_Type existingResource \<and>
     res_Target newResource = res_Target existingResource \<and>
     (res_Stack newResource = res_Stack existingResource \<or> res_Stack existingResource = UnmanagedStack)"

definition is_known :: "Resource \<Rightarrow> Resource \<Rightarrow> bool" where
  "is_known newResource existingResource \<longleftrightarrow>
     res_Label newResource = res_Label existingResource \<and> res_Type newResource = res_Type existingResource \<and>
     res_Target newResource = res_Target existingResource \<and> res_Stack newResource = res_Stack existingResource"

definition reconcile_existing ::
  "gen_env \<Rightarrow> FormaApplyMode \<Rightarrow> FormaCommandSource \<Rightarrow> targets \<Rightarrow> Forma list \<Rightarrow> Forma \<Rightarrow> Resource \<Rightarrow> plan gen" where
  "reconcile_existing env mode source targetMap allExistingStacks stack existingResource =
     (let matching = filter (\<lambda>newResource. matches_existing newResource existingResource) (forma_Resources stack)
      in if matching = []
         then gbind (deref_target targetMap (res_Target existingResource)) (\<lambda>target.
              gbind (NewResourceUpdateForDestroy env existingResource target source) (\<lambda>resourceDelete.
                gret (no_plan\<lparr>pl_deletes := [resourceDelete]\<rparr>)))
         else gplan (\<lambda>newResource.
                gbind (update_existing env mode source targetMap allExistingStacks existingResource newResource)
                  (\<lambda>us. gret (split_existing us))) matching)"

text \<open>\<^verbatim>\<open>reflect.DeepEqual(existingStack, stack)\<close> compares a pointer with a struct and is
  never true, so an existing stack is always processed.\<close>

definition reconcile_stack ::
  "gen_env \<Rightarrow> FormaApplyMode \<Rightarrow> FormaCommandSource \<Rightarrow> targets \<Rightarrow> Forma list \<Rightarrow> Forma \<Rightarrow> Forma \<Rightarrow> plan gen" where
  "reconcile_stack env mode source targetMap allExistingStacks stack existingStack =
     gbind (gplan (reconcile_existing env mode source targetMap allExistingStacks stack) (forma_Resources existingStack))
       (\<lambda>p1. gbind (gplan (create_new env source targetMap)
               (filter (\<lambda>newResource. \<not> list_ex (is_known newResource) (forma_Resources existingStack))
                 (forma_Resources stack)))
          (\<lambda>p2. gret (plan_concat [p1, p2])))"

definition reconcile_plan ::
  "gen_env \<Rightarrow> Forma \<Rightarrow> FormaApplyMode \<Rightarrow> FormaCommandSource \<Rightarrow> targets \<Rightarrow> ResourceDataLookup \<Rightarrow> Forma list \<Rightarrow> plan gen" where
  "reconcile_plan env forma mode source targetMap ds allExistingStacks =
     gplan (\<lambda>stack.
       case rl_LoadStack ds (SingleStackLabel stack) of
         Inl err \<Rightarrow> gret no_plan
       | Inr None \<Rightarrow> reconcile_new_stack env mode source targetMap allExistingStacks stack
       | Inr (Some existingStack) \<Rightarrow> reconcile_stack env mode source targetMap allExistingStacks stack existingStack)
     (SplitByStack (ge_ord env) forma)"

definition generateResourceUpdatesForReconcile ::
  "gen_env \<Rightarrow> Forma \<Rightarrow> FormaApplyMode \<Rightarrow> FormaCommandSource \<Rightarrow> targets \<Rightarrow> ResourceDataLookup \<Rightarrow> ResourceUpdate list gen" where
  "generateResourceUpdatesForReconcile env forma mode source targetMap ds =
     gbind (gsum (\<lambda>_. LoadStacksFailed) (rl_LoadAllStacks ds)) (\<lambda>allExistingStacks.
     gbind (reconcile_plan env forma mode source targetMap ds allExistingStacks) (\<lambda>p.
     gbind (findDependencyUpdates env (pl_replaces p @ pl_deletes p) allExistingStacks targetMap source) (\<lambda>dependencyDeletes.
       let allResourceUpdates = pl_creates p @ pl_replaces p @ pl_updates p @ pl_deletes p
       in gbind (convertDependencyDeletesToReplacements env allResourceUpdates dependencyDeletes forma targetMap source)
            (\<lambda>convertedDependencyDeletes.
              convertUpdatesToReplacementsForDependencies env (allResourceUpdates @ convertedDependencyDeletes)
                dependencyDeletes source))))"

section \<open>Patch\<close>

definition patch_resource ::
  "gen_env \<Rightarrow> FormaApplyMode \<Rightarrow> FormaCommandSource \<Rightarrow> targets \<Rightarrow> Forma list \<Rightarrow> Resource list \<Rightarrow> Resource \<Rightarrow> plan gen" where
  "patch_resource env mode source targetMap allExistingStacks existingResources newResource =
     (case find (\<lambda>existingResource. res_Label existingResource = res_Label newResource \<and>
             res_Type existingResource = res_Type newResource) existingResources of
        Some existingResource \<Rightarrow>
          gbind (update_existing env mode source targetMap allExistingStacks existingResource newResource)
            (\<lambda>us. gret (split_existing us))
      | None \<Rightarrow> create_new env source targetMap newResource)"

definition patch_plan ::
  "gen_env \<Rightarrow> Forma \<Rightarrow> FormaApplyMode \<Rightarrow> FormaCommandSource \<Rightarrow> targets \<Rightarrow> ResourceDataLookup \<Rightarrow> Forma list \<Rightarrow> plan gen" where
  "patch_plan env forma mode source targetMap ds allExistingStacks =
     gplan (\<lambda>stack.
       case rl_LoadStack ds (SingleStackLabel stack) of
         Inl err \<Rightarrow> gret no_plan
       | Inr None \<Rightarrow> gplan (create_new env source targetMap) (forma_Resources stack)
       | Inr (Some existingStack) \<Rightarrow>
           let unmanaged = (case find (\<lambda>s. SingleStackLabel s = UnmanagedStack) allExistingStacks of
                 None \<Rightarrow> [] | Some s \<Rightarrow> forma_Resources s)
           in gplan (patch_resource env mode source targetMap allExistingStacks (forma_Resources existingStack @ unmanaged))
                (forma_Resources stack))
     (SplitByStack (ge_ord env) forma)"

definition generateResourceUpdatesForPatch ::
  "gen_env \<Rightarrow> Forma \<Rightarrow> FormaApplyMode \<Rightarrow> FormaCommandSource \<Rightarrow> targets \<Rightarrow> ResourceDataLookup \<Rightarrow> ResourceUpdate list gen" where
  "generateResourceUpdatesForPatch env forma mode source targetMap ds =
     gbind (gsum (\<lambda>_. LoadStacksFailed) (rl_LoadAllStacks ds)) (\<lambda>allExistingStacks.
     gbind (patch_plan env forma mode source targetMap ds allExistingStacks) (\<lambda>p.
     gbind (findDependencyUpdates env (pl_replaces p) allExistingStacks targetMap source) (\<lambda>dependencyDeletes.
       convertUpdatesToReplacementsForDependencies env (pl_creates p @ pl_updates p @ pl_replaces p)
         dependencyDeletes source)))"

section \<open>Generation\<close>

definition check_targets :: "targets \<Rightarrow> Target list \<Rightarrow> unit gen" where
  "check_targets targetMap ts = gbind (gmap (\<lambda>target.
       case map_of targetMap (tgt_Label target) of
         None \<Rightarrow> gret ()
       | Some existingTarget \<Rightarrow>
           if tgt_Namespace existingTarget \<noteq> tgt_Namespace target
           then gerr (TargetNamespaceMismatch (tgt_Label target) (tgt_Namespace existingTarget) (tgt_Namespace target))
           else if \<not> JsonEqualRaw (tgt_Config existingTarget) (tgt_Config target)
           then gerr (TargetConfigMismatch (tgt_Label target) (tgt_Config existingTarget) (tgt_Config target))
           else gret ()) ts) (\<lambda>_. gret ())"

definition generateResourceUpdatesForApply ::
  "gen_env \<Rightarrow> Forma \<Rightarrow> FormaApplyMode \<Rightarrow> FormaCommandSource \<Rightarrow> targets \<Rightarrow> ResourceDataLookup \<Rightarrow> ResourceUpdate list gen" where
  "generateResourceUpdatesForApply env forma mode source targetMap ds =
     gbind (check_targets targetMap (forma_Targets forma)) (\<lambda>_.
       case mode of
         FormaApplyModeReconcile \<Rightarrow> generateResourceUpdatesForReconcile env forma mode source targetMap ds
       | FormaApplyModePatch \<Rightarrow> generateResourceUpdatesForPatch env forma mode source targetMap ds
       | _ \<Rightarrow> gerr (UnsupportedApplyMode mode))"

definition stackExistsInForma :: "Forma \<Rightarrow> string \<Rightarrow> bool" where
  "stackExistsInForma forma stackLabel = list_ex (\<lambda>stack. stk_Label stack = stackLabel) (forma_Stacks forma)"

definition validateStackReferences :: "gen_env \<Rightarrow> Forma \<Rightarrow> ResourceDataLookup \<Rightarrow> unit gen" where
  "validateStackReferences env forma ds =
     (let stacksToValidate = remdups (map res_Stack
            (filter (\<lambda>r. \<not> stackExistsInForma forma (res_Stack r)) (forma_Resources forma)))
      in gbind (gmap (\<lambda>stackLabel.
             case rl_LoadStack ds stackLabel of
               Inl err \<Rightarrow> gerr (LoadStackFailed stackLabel)
             | Inr None \<Rightarrow> gerr (StackReferenceNotFound stackLabel)
             | Inr (Some s) \<Rightarrow> gret ()) (ge_ord env stacksToValidate)) (\<lambda>_. gret ()))"

definition target_map :: "Target list \<Rightarrow> Target list \<Rightarrow> targets" where
  "target_map existingTargets formaTargets =
     fold (\<lambda>target m. if map_of m (tgt_Label target) = None then AList.update (tgt_Label target) target m else m)
       formaTargets (fold (\<lambda>target m. AList.update (tgt_Label target) target m) existingTargets [])"

definition check_target_references :: "targets \<Rightarrow> Resource list \<Rightarrow> unit gen" where
  "check_target_references targetMap resources =
     (case find (\<lambda>r. map_of targetMap (res_Target r) = None) resources of
        Some r \<Rightarrow> gerr (TargetReferenceNotFound (res_Target r)) | None \<Rightarrow> gret ())"

text \<open>The loop that populates targets assigns to the copy of each update and has no effect.\<close>

definition GenerateResourceUpdates ::
  "gen_env \<Rightarrow> Forma \<Rightarrow> Command \<Rightarrow> FormaApplyMode \<Rightarrow> FormaCommandSource \<Rightarrow> Target list \<Rightarrow> ResourceDataLookup \<Rightarrow>
    (string \<times> resource_filter) list option \<Rightarrow> ResourceUpdate list gen" where
  "GenerateResourceUpdates env forma command mode source existingTargets ds resourceFilters =
     (let doTranslate = (source \<noteq> FormaCommandSourceSynchronize \<and> source \<noteq> FormaCommandSourceDiscovery \<and>
            command \<noteq> CommandDestroy)
      in gbind (if doTranslate then translateFormaeReferencesToKsuid env forma ds else gret (forma, []))
           (\<lambda>(forma, referenceLabels).
             let targetMap = target_map existingTargets (forma_Targets forma)
             in gbind (if command = CommandDestroy \<or> command = CommandApply then validateStackReferences env forma ds else gret ()) (\<lambda>_.
                gbind (check_target_references targetMap (forma_Resources forma)) (\<lambda>_.
                gbind (case command of
                         CommandDestroy \<Rightarrow> generateResourceUpdatesForDestroy env forma source targetMap ds
                       | CommandApply \<Rightarrow> generateResourceUpdatesForApply env forma mode source targetMap ds
                       | CommandSync \<Rightarrow> generateResourceUpdatesForSync env forma source targetMap ds resourceFilters
                       | _ \<Rightarrow> gerr (UnsupportedCommand command)) (\<lambda>resourceUpdates.
                  gret (if doTranslate then map (\<lambda>u. u\<lparr>ru_ReferenceLabels := referenceLabels\<rparr>) resourceUpdates
                        else resourceUpdates))))))"

end
