(* ===== verification/Update_Generator_Facts.thy ===== *)
theory Update_Generator_Facts
  imports Update_Generator
begin

text \<open>
  What the generator of resource updates guarantees: which resources it creates, updates, replaces
  and deletes, that no nil pointer is dereferenced, and that every resource gets an id.
\<close>

section \<open>Stacks of a forma\<close>

lemma split_stacks:
  assumes "range_order ord"
  shows "s \<in> set (SplitByStack ord f) \<Longrightarrow>
      forma_Resources s = filter (\<lambda>r. res_Stack r = SingleStackLabel s) (forma_Resources f)"
    and "q \<in> set (forma_Resources f) \<Longrightarrow> \<exists>s \<in> set (SplitByStack ord f). SingleStackLabel s = res_Stack q"
    and "s \<in> set (SplitByStack ord f) \<Longrightarrow> \<exists>q \<in> set (forma_Resources f). res_Stack q = SingleStackLabel s"
proof -
  let ?g = "\<lambda>s. (SingleStackLabel s, forma_Resources s)"
  have "set_mset (mset (map ?g (SplitByStack ord f))) =
      set_mset (mset (map (\<lambda>l. (l, filter (\<lambda>r. res_Stack r = l) (forma_Resources f)))
        (remdups (map res_Stack (forma_Resources f)))))"
    by (rule arg_cong [OF SplitByStack_partition [OF assms]])
  then have eq: "?g ` set (SplitByStack ord f) =
      (\<lambda>l. (l, filter (\<lambda>r. res_Stack r = l) (forma_Resources f))) ` res_Stack ` set (forma_Resources f)"
    by simp
  show "forma_Resources s = filter (\<lambda>r. res_Stack r = SingleStackLabel s) (forma_Resources f)"
    if "s \<in> set (SplitByStack ord f)"
  proof -
    have "?g s \<in> ?g ` set (SplitByStack ord f)" using that by (rule imageI)
    then show ?thesis unfolding eq by auto
  qed
  show "\<exists>q \<in> set (forma_Resources f). res_Stack q = SingleStackLabel s" if "s \<in> set (SplitByStack ord f)"
  proof -
    have "?g s \<in> ?g ` set (SplitByStack ord f)" using that by (rule imageI)
    then show ?thesis unfolding eq by auto
  qed
  show "\<exists>s \<in> set (SplitByStack ord f). SingleStackLabel s = res_Stack q" if "q \<in> set (forma_Resources f)"
  proof -
    have "(res_Stack q, filter (\<lambda>r. res_Stack r = res_Stack q) (forma_Resources f)) \<in> ?g ` set (SplitByStack ord f)"
      unfolding eq using that by blast
    then show ?thesis by auto
  qed
qed

lemma in_stack:
  assumes "range_order ord" "s \<in> set (SplitByStack ord f)"
  shows "q \<in> set (forma_Resources s) \<longleftrightarrow> q \<in> set (forma_Resources f) \<and> res_Stack q = SingleStackLabel s"
  using split_stacks(1) [OF assms] by simp

section \<open>Rules for the loops\<close>

lemma gpost_gplan [gen_intros]:
  "(\<And>x. x \<in> set xs \<Longrightarrow> gpost (f x) (R x)) \<Longrightarrow>
    (\<And>ps. list_all2 R xs ps \<Longrightarrow> Q (plan_concat ps)) \<Longrightarrow> gpost (gplan f xs) Q"
  unfolding gplan_def by (rule gpost_gbind, rule gpost_gmap [where R = R]) (auto intro: gpost_gret)

lemma gsafe_gplan [gen_intros]: "(\<And>x. x \<in> set xs \<Longrightarrow> gsafe E (f x)) \<Longrightarrow> gsafe E (gplan f xs)"
  unfolding gplan_def by (intro gsafe_gbind gsafe_gmap) (auto simp: gpost_def gsafe_gret)

lemma gpost_deref [gen_intros]: "(\<And>t. Q t) \<Longrightarrow> gpost (deref_target m l) Q"
  unfolding deref_target_def by (intro gen_intros)

lemma gpost_goption:
  assumes "gsafe (\<lambda>_. False) m" "gpost m (\<lambda>x. Q (Some x))"
  shows "gpost (goption m) Q"
  using assms by (auto simp: gpost_def goption_def gsafe_def split: sum.splits prod.splits)

lemma gsafe_goption [gen_intros]: "gsafe E (goption m)"
  by (auto simp: gsafe_def goption_def split: sum.splits prod.splits)

text \<open>Building a delete or a replacement never fails.\<close>

lemma Destroy_safe [gen_intros]: "gsafe E (NewResourceUpdateForDestroy env r t source)"
  unfolding NewResourceUpdateForDestroy_def by (intro gen_intros)

lemma Replace_safe [gen_intros]: "gsafe E (NewResourceUpdateForReplace env old new t t' source)"
  unfolding NewResourceUpdateForReplace_def by (intro gen_intros)

text \<open>A list of results, described by the set of what they are about.\<close>

definition yields :: "('a \<Rightarrow> bool) \<Rightarrow> ('a \<Rightarrow> 'b) \<Rightarrow> 'b set \<Rightarrow> 'a list gen \<Rightarrow> bool" where
  "yields P g S m \<longleftrightarrow> gpost m (\<lambda>ys. (\<forall>y \<in> set ys. P y) \<and> g ` set ys = S)"

lemma yields_Nil: "yields P g {} (gret [])"
  by (simp add: yields_def gpost_gret)

lemma yields_gmap:
  assumes "\<And>x. x \<in> set xs \<Longrightarrow> gpost (f x) (\<lambda>y. P y \<and> g y = h x)"
  shows "yields P g (h ` set xs) (gmap f xs)"
proof -
  have "(\<forall>y \<in> set ys. P y) \<and> g ` set ys = h ` set xs" if "list_all2 (\<lambda>x y. P y \<and> g y = h x) xs ys" for ys
    using that by (induction rule: list_all2_induct) auto
  then show ?thesis
    unfolding yields_def by (intro gpost_gmap [OF assms])
qed

lemma yields_gconcat:
  assumes "\<And>x. x \<in> set xs \<Longrightarrow> yields P g (S x) (f x)"
  shows "yields P g (\<Union>x \<in> set xs. S x) (gconcat f xs)"
proof -
  let ?R = "\<lambda>x ys. (\<forall>y \<in> set ys. P y) \<and> g ` set ys = S x"
  have "(\<forall>y \<in> set (concat yss). P y) \<and> g ` set (concat yss) = (\<Union>x \<in> set xs. S x)" if "list_all2 ?R xs yss" for yss
    using that by (induction rule: list_all2_induct) (auto simp: image_Un)
  then show ?thesis
    unfolding yields_def by (intro gpost_gconcat [where R = ?R, OF assms [unfolded yields_def]])
qed

text \<open>The loops of a destroy and of a sync: something for each pair of a stored and a matching resource.\<close>

lemma yields_matching:
  assumes "\<And>r. gpost (F r) (\<lambda>u. P u \<and> g u = r)"
  shows "yields P g (\<Union>r \<in> set rs. (\<lambda>_. r) ` {q \<in> set qs. same q r})
    (gconcat (\<lambda>r. gmap (\<lambda>q. F r) (filter (\<lambda>q. same q r) qs)) rs)"
proof (rule yields_gconcat)
  fix r
  show "yields P g ((\<lambda>_. r) ` {q \<in> set qs. same q r}) (gmap (\<lambda>q. F r) (filter (\<lambda>q. same q r) qs))"
    using yields_gmap [of "filter (\<lambda>q. same q r) qs" "\<lambda>q. F r" P g "\<lambda>_. r"] assms by simp
qed

section \<open>Destroy\<close>

lemma destroy_yields:
  "yields (\<lambda>u. deletes env source (ru_Resource u) u) ru_Resource
    (\<Union>s \<in> set (SplitByStack (ge_ord env) forma). \<Union>f \<in> {f. rl_LoadStack ds (SingleStackLabel s) = Inr (Some f)}.
      \<Union>r \<in> set (forma_Resources f). (\<lambda>_. r) ` {q \<in> set (forma_Resources forma). same_in_stack (SingleStackLabel s) q r})
    (generateResourceUpdatesForDestroy env forma source targetMap ds)"
  unfolding generateResourceUpdatesForDestroy_def
proof (rule yields_gconcat)
  fix s
  have "yields (\<lambda>u. deletes env source (ru_Resource u) u) ru_Resource
      (\<Union>r \<in> set (forma_Resources f). (\<lambda>_. r) ` {q \<in> set (forma_Resources forma). same_in_stack (SingleStackLabel s) q r})
      (gconcat (\<lambda>r. gmap (\<lambda>q. gbind (deref_target targetMap (res_Target r))
         (\<lambda>target. NewResourceUpdateForDestroy env r target source))
         (filter (\<lambda>q. same_in_stack (SingleStackLabel s) q r) (forma_Resources forma))) (forma_Resources f))" for f
    by (intro yields_matching gen_intros) (simp add: deletes_def)
  then show "yields (\<lambda>u. deletes env source (ru_Resource u) u) ru_Resource
      (\<Union>f \<in> {f. rl_LoadStack ds (SingleStackLabel s) = Inr (Some f)}. \<Union>r \<in> set (forma_Resources f).
        (\<lambda>_. r) ` {q \<in> set (forma_Resources forma). same_in_stack (SingleStackLabel s) q r})
      (case rl_LoadStack ds (SingleStackLabel s) of
         Inl err \<Rightarrow> gret [] | Inr None \<Rightarrow> gret []
       | Inr (Some existingStack) \<Rightarrow> gconcat (\<lambda>r. gmap (\<lambda>q. gbind (deref_target targetMap (res_Target r))
           (\<lambda>target. NewResourceUpdateForDestroy env r target source))
           (filter (\<lambda>q. same_in_stack (SingleStackLabel s) q r) (forma_Resources forma))) (forma_Resources existingStack))"
    by (auto simp: yields_Nil split: sum.split option.split)
qed

text \<open>What both loops visit: each resource of a stored stack whose stack, label and type are those of a
  resource of the forma.\<close>

lemma matching_stored:
  assumes "range_order (ge_ord env)"
  shows "(\<Union>s \<in> set (SplitByStack (ge_ord env) forma).
      \<Union>f \<in> {f. rl_LoadStack ds (SingleStackLabel s) = Inr (Some f)}. \<Union>r \<in> set (forma_Resources f).
      (\<lambda>_. r) ` {q \<in> set (forma_Resources forma). same_in_stack (SingleStackLabel s) q r}) =
    {r. \<exists>q \<in> set (forma_Resources forma). \<exists>f. rl_LoadStack ds (res_Stack q) = Inr (Some f) \<and>
      r \<in> set (forma_Resources f) \<and> res_Label q = res_Label r \<and> res_Type q = res_Type r}" (is "?U = ?S")
proof
  show "?U \<subseteq> ?S" by (auto simp: same_in_stack_def) metis
  show "?S \<subseteq> ?U"
  proof
    fix r assume "r \<in> ?S"
    then obtain q f where q: "q \<in> set (forma_Resources forma)" "rl_LoadStack ds (res_Stack q) = Inr (Some f)"
      "r \<in> set (forma_Resources f)" "res_Label q = res_Label r" "res_Type q = res_Type r"
      by blast
    moreover obtain s where "s \<in> set (SplitByStack (ge_ord env) forma)" "SingleStackLabel s = res_Stack q"
      using split_stacks(2) [OF assms q(1)] by blast
    ultimately show "r \<in> ?U"
      by (intro UN_I [of s] UN_I [of f] UN_I [of r]) (auto simp: same_in_stack_def)
  qed
qed

text \<open>A destroy command deletes exactly the stored resources that the forma names, and nothing else.\<close>

lemma destroy_triplets:
  assumes "range_order (ge_ord env)"
    "generateResourceUpdatesForDestroy env forma source targetMap ds n = Inr (us, n')"
  shows "(\<forall>u \<in> set us. deletes env source (ru_Resource u) u) \<and>
    ru_Resource ` set us = {r. \<exists>q \<in> set (forma_Resources forma). \<exists>f. rl_LoadStack ds (res_Stack q) = Inr (Some f) \<and>
      r \<in> set (forma_Resources f) \<and> res_Label q = res_Label r \<and> res_Type q = res_Type r}"
  using gpostD [OF destroy_yields [unfolded yields_def] assms(2)] unfolding matching_stored [OF assms(1)] .

section \<open>The plan of an apply\<close>

definition in_pair :: "gen_env \<Rightarrow> FormaCommandSource \<Rightarrow> Resource \<Rightarrow> Resource \<Rightarrow> ResourceUpdate list \<Rightarrow> ResourceUpdate \<Rightarrow> bool" where
  "in_pair env source old new us u \<longleftrightarrow> (\<exists>rs. replaces env source old new rs \<and> set rs \<subseteq> set us \<and> u \<in> set rs)"

lemma in_pair_mono: "in_pair env source old new us u \<Longrightarrow> set us \<subseteq> set us' \<Longrightarrow> in_pair env source old new us' u"
  unfolding in_pair_def by blast

lemma replaces_in_pair: "replaces env source old new us \<Longrightarrow> u \<in> set us \<Longrightarrow> in_pair env source old new us u"
  unfolding in_pair_def by blast

text \<open>
  \<open>plan_exact C D M p\<close>: the plan creates exactly the resources \<open>C\<close>, deletes exactly the resources
  \<open>D\<close> and changes only pairs of a stored and a new resource that are in \<open>M\<close>, in place or by a
  replacement that is complete.
\<close>

definition paired :: "gen_env \<Rightarrow> FormaCommandSource \<Rightarrow> (Resource \<times> Resource) set \<Rightarrow> ResourceUpdate list \<Rightarrow> bool" where
  "paired env source M us \<longleftrightarrow> (\<forall>u \<in> set us. \<exists>old new. (old, new) \<in> M \<and>
     (updates_in_place env source old new u \<or> in_pair env source old new us u))"

definition all_created :: "gen_env \<Rightarrow> FormaCommandSource \<Rightarrow> Resource set \<Rightarrow> ResourceUpdate list \<Rightarrow> bool" where
  "all_created env source C us \<longleftrightarrow> (\<forall>u \<in> set us. \<exists>q \<in> C. creates env source q u) \<and> (\<forall>q \<in> C. \<exists>u \<in> set us. creates env source q u)"

definition all_deleted :: "gen_env \<Rightarrow> FormaCommandSource \<Rightarrow> Resource set \<Rightarrow> ResourceUpdate list \<Rightarrow> bool" where
  "all_deleted env source D us \<longleftrightarrow> (\<forall>u \<in> set us. \<exists>r \<in> D. deletes env source r u) \<and> (\<forall>r \<in> D. \<exists>u \<in> set us. deletes env source r u)"

definition plan_exact ::
  "gen_env \<Rightarrow> FormaCommandSource \<Rightarrow> Resource set \<Rightarrow> Resource set \<Rightarrow> (Resource \<times> Resource) set \<Rightarrow> plan \<Rightarrow> bool" where
  "plan_exact env source C D M p \<longleftrightarrow> all_created env source C (pl_creates p) \<and> all_deleted env source D (pl_deletes p) \<and>
     paired env source M (pl_updates p) \<and> paired env source M (pl_replaces p) \<and>
     (\<forall>u \<in> set (pl_replaces p). ru_Operation u \<noteq> OperationUpdate)"

lemma paired_append:
  assumes "paired env source M us" "paired env source M' us'"
  shows "paired env source (M \<union> M') (us @ us')"
proof -
  have l: "set us \<subseteq> set (us @ us')" and r: "set us' \<subseteq> set (us @ us')" by auto
  show ?thesis
    using assms in_pair_mono [OF _ l] in_pair_mono [OF _ r] unfolding paired_def set_append ball_Un
    by (intro conjI ballI) blast+
qed

lemma paired_Nil [simp]: "paired env source M []"
  by (simp add: paired_def)

lemma all_created_append: "all_created env source C us \<Longrightarrow> all_created env source C' us' \<Longrightarrow> all_created env source (C \<union> C') (us @ us')"
  unfolding all_created_def set_append by blast

lemma all_deleted_append: "all_deleted env source C us \<Longrightarrow> all_deleted env source C' us' \<Longrightarrow> all_deleted env source (C \<union> C') (us @ us')"
  unfolding all_deleted_def set_append by blast

lemma plan_exact_no_plan [simp]: "plan_exact env source {} {} M no_plan"
  by (simp add: plan_exact_def no_plan_def all_created_def all_deleted_def)

lemma plan_exact_concat:
  "list_all2 (\<lambda>x. plan_exact env source (C x) (D x) (M x)) xs ps \<Longrightarrow>
    plan_exact env source (\<Union>x \<in> set xs. C x) (\<Union>x \<in> set xs. D x) (\<Union>x \<in> set xs. M x) (plan_concat ps)"
proof (induction rule: list_all2_induct)
  case Nil
  then show ?case by (simp add: plan_exact_def plan_concat_def all_created_def all_deleted_def)
next
  case (Cons x xs p ps)
  then show ?case
    by (auto simp: plan_exact_def plan_concat_def intro: paired_append all_created_append all_deleted_append)
qed

lemma gplan_exact:
  "(\<And>x. x \<in> set xs \<Longrightarrow> gpost (f x) (plan_exact env source (C x) (D x) (M x))) \<Longrightarrow>
    gpost (gplan f xs) (plan_exact env source (\<Union>x \<in> set xs. C x) (\<Union>x \<in> set xs. D x) (\<Union>x \<in> set xs. M x))"
  by (rule gpost_gplan [where R = "\<lambda>x. plan_exact env source (C x) (D x) (M x)"]) (auto intro: plan_exact_concat)

text \<open>The results of comparing a stored resource with its new version.\<close>

definition existing_outcome :: "gen_env \<Rightarrow> FormaCommandSource \<Rightarrow> Resource \<Rightarrow> Resource \<Rightarrow> ResourceUpdate list \<Rightarrow> bool" where
  "existing_outcome env source old new us \<longleftrightarrow>
     us = [] \<or> replaces env source old new us \<or> (\<exists>u. us = [u] \<and> updates_in_place env source old new u)"

lemma update_existing_post:
  "gpost (update_existing env mode source m all old new) (existing_outcome env source old new)"
  unfolding update_existing_def by (intro gen_intros) (simp add: existing_outcome_def)

lemma existing_outcome_paired: "existing_outcome env source old new us \<Longrightarrow> paired env source {(old, new)} us"
  by (auto simp: existing_outcome_def paired_def intro: replaces_in_pair)

lemma replaces_not_update: "replaces env source old new us \<Longrightarrow> filter (\<lambda>u. ru_Operation u = OperationUpdate) us = []"
  "replaces env source old new us \<Longrightarrow> filter (\<lambda>u. ru_Operation u \<noteq> OperationUpdate) us = us"
  by (auto simp: replaces_def deletes_def creates_def)

lemma replaces_op: "replaces env source old new us \<Longrightarrow> u \<in> set us \<Longrightarrow> ru_Operation u \<noteq> OperationUpdate"
  by (auto simp: replaces_def deletes_def creates_def)

lemma split_existing_exact:
  assumes "existing_outcome env source old new us"
  shows "plan_exact env source {} {} {(old, new)} (split_existing us)"
proof -
  consider "us = []" | "replaces env source old new us" | u where "us = [u]" "updates_in_place env source old new u"
    using assms unfolding existing_outcome_def by blast
  then show ?thesis
    using existing_outcome_paired [OF assms]
    by cases (auto simp: split_existing_def replaces_not_update plan_exact_def no_plan_def all_created_def
        all_deleted_def updates_in_place_def dest: replaces_op)
qed

lemma existing_exact:
  "gpost (gbind (update_existing env mode source m all old new) (\<lambda>us. gret (split_existing us)))
    (plan_exact env source {} {} {(old, new)})"
  by (intro gpost_gbind gpost_mono [OF update_existing_post] gpost_gret split_existing_exact)

lemma create_new_exact: "gpost (create_new env source m q) (plan_exact env source {q} {} {})"
  unfolding create_new_def
  by (intro gen_intros) (simp add: plan_exact_def no_plan_def all_created_def all_deleted_def)

lemma gpost_exact_cong:
  "gpost m (plan_exact env source C D M) \<Longrightarrow> C = C' \<Longrightarrow> D = D' \<Longrightarrow> M = M' \<Longrightarrow> gpost m (plan_exact env source C' D' M')"
  by simp

lemma reconcile_existing_exact:
  "gpost (reconcile_existing env mode source m all stack r)
    (plan_exact env source {} (if \<exists>q \<in> set (forma_Resources stack). matches_existing q r then {} else {r})
      {(r, q) |q. q \<in> set (forma_Resources stack) \<and> matches_existing q r})"
proof -
  let ?ms = "filter (\<lambda>q. matches_existing q r) (forma_Resources stack)"
  have delete: "gpost (gbind (deref_target m (res_Target r)) (\<lambda>target.
      gbind (NewResourceUpdateForDestroy env r target source) (\<lambda>d. gret (no_plan\<lparr>pl_deletes := [d]\<rparr>))))
      (plan_exact env source {} {r} {})"
    by (intro gen_intros) (simp add: plan_exact_def no_plan_def all_created_def all_deleted_def)
  have change: "gpost (gplan (\<lambda>q. gbind (update_existing env mode source m all r q) (\<lambda>us. gret (split_existing us))) ?ms)
      (plan_exact env source {} {} {(r, q) |q. q \<in> set (forma_Resources stack) \<and> matches_existing q r})"
    by (rule gpost_exact_cong [OF gplan_exact], rule existing_exact) auto
  show ?thesis
  proof (cases "?ms = []")
    case True
    then show ?thesis
      unfolding reconcile_existing_def Let_def
      by (simp add: filter_empty_conv) (rule gpost_exact_cong [OF delete], auto)
  next
    case False
    then have "\<exists>q \<in> set (forma_Resources stack). matches_existing q r" by (simp add: filter_empty_conv)
    with False change show ?thesis unfolding reconcile_existing_def Let_def by simp
  qed
qed

lemma reconcile_new_stack_exact:
  "gpost (reconcile_new_stack env mode source m all stack)
    (plan_exact env source {q \<in> set (forma_Resources stack). findUnmanagedResource q all = None} {}
      {(r, q). q \<in> set (forma_Resources stack) \<and> findUnmanagedResource q all = Some r})"
proof -
  have existing: "gpost (gbind (update_existing env mode source m all old q) (\<lambda>us. gret (no_plan\<lparr>pl_updates := us\<rparr>)))
      (plan_exact env source {} {} {(old, q)})" for old q
    by (intro gpost_gbind gpost_mono [OF update_existing_post] gpost_gret)
      (simp add: plan_exact_def no_plan_def existing_outcome_paired all_created_def all_deleted_def)
  show ?thesis
    unfolding reconcile_new_stack_def
    by (rule gpost_exact_cong [OF gplan_exact [where C = "\<lambda>q. if findUnmanagedResource q all = None then {q} else {}"
        and D = "\<lambda>q. {}" and M = "\<lambda>q. {(r, q) |r. findUnmanagedResource q all = Some r}"]])
      (auto split: option.split if_splits intro: gpost_exact_cong [OF existing] gpost_exact_cong [OF create_new_exact])
qed

lemma reconcile_stack_exact:
  "gpost (reconcile_stack env mode source m all stack f)
    (plan_exact env source {q \<in> set (forma_Resources stack). \<forall>r \<in> set (forma_Resources f). \<not> is_known q r}
      {r \<in> set (forma_Resources f). \<forall>q \<in> set (forma_Resources stack). \<not> matches_existing q r}
      {(r, q). r \<in> set (forma_Resources f) \<and> q \<in> set (forma_Resources stack) \<and> matches_existing q r})"
  (is "gpost _ (plan_exact _ _ ?C ?D ?M)")
proof -
  have 1: "gpost (gplan (reconcile_existing env mode source m all stack) (forma_Resources f)) (plan_exact env source {} ?D ?M)"
    by (rule gpost_exact_cong [OF gplan_exact], rule reconcile_existing_exact) auto
  have 2: "gpost (gplan (create_new env source m)
      (filter (\<lambda>q. \<not> list_ex (is_known q) (forma_Resources f)) (forma_Resources stack))) (plan_exact env source ?C {} {})"
    by (rule gpost_exact_cong [OF gplan_exact], rule create_new_exact) (auto simp: list_ex_iff)
  have join: "plan_exact env source ?C ?D ?M (plan_concat [p1, p2])"
    if "plan_exact env source {} ?D ?M p1" "plan_exact env source ?C {} {} p2" for p1 p2
    using plan_exact_concat [of env source "\<lambda>b. if b then {} else ?C" "\<lambda>b. if b then ?D else {}"
        "\<lambda>b. if b then ?M else {}" "[True, False]" "[p1, p2]"] that
    by simp
  show ?thesis
    unfolding reconcile_stack_def
    by (intro gpost_gbind gpost_mono [OF 1] gpost_mono [OF 2] gpost_gret join)
qed

text \<open>What reconciling a forma with the stored stacks means.\<close>

definition reconcile_creates :: "Forma \<Rightarrow> ResourceDataLookup \<Rightarrow> Forma list \<Rightarrow> Resource set" where
  "reconcile_creates forma ds all = {q \<in> set (forma_Resources forma). case rl_LoadStack ds (res_Stack q) of
      Inl err \<Rightarrow> False
    | Inr None \<Rightarrow> findUnmanagedResource q all = None
    | Inr (Some f) \<Rightarrow> \<forall>r \<in> set (forma_Resources f). \<not> is_known q r}"

definition reconcile_deletes :: "Forma \<Rightarrow> ResourceDataLookup \<Rightarrow> Resource set" where
  "reconcile_deletes forma ds = {r. \<exists>q \<in> set (forma_Resources forma). \<exists>f. rl_LoadStack ds (res_Stack q) = Inr (Some f) \<and>
     r \<in> set (forma_Resources f) \<and>
     (\<forall>p \<in> set (forma_Resources forma). res_Stack p = res_Stack q \<longrightarrow> \<not> matches_existing p r)}"

definition reconcile_matches :: "Forma \<Rightarrow> ResourceDataLookup \<Rightarrow> Forma list \<Rightarrow> (Resource \<times> Resource) set" where
  "reconcile_matches forma ds all = {(r, q). q \<in> set (forma_Resources forma) \<and> (case rl_LoadStack ds (res_Stack q) of
      Inl err \<Rightarrow> False
    | Inr None \<Rightarrow> findUnmanagedResource q all = Some r
    | Inr (Some f) \<Rightarrow> r \<in> set (forma_Resources f) \<and> matches_existing q r)}"

lemma stack_union:
  assumes "range_order ord" "\<And>s. s \<in> set (SplitByStack ord forma) \<Longrightarrow> A s = {x. \<exists>q \<in> set (forma_Resources s). P (SingleStackLabel s) q x}"
  shows "(\<Union>s \<in> set (SplitByStack ord forma). A s) = {x. \<exists>q \<in> set (forma_Resources forma). P (res_Stack q) q x}"
proof -
  have "(\<exists>s \<in> set (SplitByStack ord forma). \<exists>q \<in> set (forma_Resources s). P (SingleStackLabel s) q x) \<longleftrightarrow>
      (\<exists>q \<in> set (forma_Resources forma). P (res_Stack q) q x)" for x
    using in_stack [OF assms(1)] split_stacks(2) [OF assms(1)] by metis
  moreover have "(\<Union>s \<in> set (SplitByStack ord forma). A s) =
      {x. \<exists>s \<in> set (SplitByStack ord forma). \<exists>q \<in> set (forma_Resources s). P (SingleStackLabel s) q x}"
    using assms(2) by auto
  ultimately show ?thesis by simp
qed

lemma reconcile_plan_exact:
  assumes "range_order (ge_ord env)"
  shows "gpost (reconcile_plan env forma mode source m ds all)
    (plan_exact env source (reconcile_creates forma ds all) (reconcile_deletes forma ds) (reconcile_matches forma ds all))"
proof -
  note in_stack [OF assms, simp]
  let ?C = "\<lambda>l q x. x = q \<and> (case rl_LoadStack ds l of Inl err \<Rightarrow> False
      | Inr None \<Rightarrow> findUnmanagedResource q all = None | Inr (Some f) \<Rightarrow> \<forall>r \<in> set (forma_Resources f). \<not> is_known q r)"
  let ?D = "\<lambda>l q x. \<exists>f. rl_LoadStack ds l = Inr (Some f) \<and> x \<in> set (forma_Resources f) \<and>
      (\<forall>p \<in> set (forma_Resources forma). res_Stack p = l \<longrightarrow> \<not> matches_existing p x)"
  let ?M = "\<lambda>l q x. snd x = q \<and> (case rl_LoadStack ds l of Inl err \<Rightarrow> False
      | Inr None \<Rightarrow> findUnmanagedResource q all = Some (fst x)
      | Inr (Some f) \<Rightarrow> fst x \<in> set (forma_Resources f) \<and> matches_existing q (fst x))"
  let ?S = "\<lambda>P s. {x. \<exists>q \<in> set (forma_Resources s). P (SingleStackLabel s) q x}"
  have step: "gpost (case rl_LoadStack ds (SingleStackLabel s) of
         Inl err \<Rightarrow> gret no_plan
       | Inr None \<Rightarrow> reconcile_new_stack env mode source m all s
       | Inr (Some f) \<Rightarrow> reconcile_stack env mode source m all s f)
      (plan_exact env source (?S ?C s) (?S ?D s) (?S ?M s))" if s: "s \<in> set (SplitByStack (ge_ord env) forma)" for s
  proof -
    obtain q0 where q0: "q0 \<in> set (forma_Resources forma)" "res_Stack q0 = SingleStackLabel s"
      using split_stacks(3) [OF assms s] by blast
    consider err where "rl_LoadStack ds (SingleStackLabel s) = Inl err" | "rl_LoadStack ds (SingleStackLabel s) = Inr None"
      | f where "rl_LoadStack ds (SingleStackLabel s) = Inr (Some f)"
      by (metis option.exhaust sum.exhaust)
    then show ?thesis
    proof cases
      case 1
      then show ?thesis by (simp add: gpost_gret)
    next
      case 2
      then show ?thesis
        by (simp, intro gpost_exact_cong [OF reconcile_new_stack_exact]) auto
    next
      case 3
      then show ?thesis
        using q0 s by (simp, intro gpost_exact_cong [OF reconcile_stack_exact]) auto
    qed
  qed
  show ?thesis
    unfolding reconcile_plan_def
  proof (rule gpost_exact_cong [OF gplan_exact], rule step)
    show "(\<Union>s \<in> set (SplitByStack (ge_ord env) forma). ?S ?C s) = reconcile_creates forma ds all"
      by (subst stack_union [OF assms, of forma _ ?C]) (auto simp: reconcile_creates_def)
    show "(\<Union>s \<in> set (SplitByStack (ge_ord env) forma). ?S ?D s) = reconcile_deletes forma ds"
      by (subst stack_union [OF assms, of forma _ ?D]) (auto simp: reconcile_deletes_def)
    show "(\<Union>s \<in> set (SplitByStack (ge_ord env) forma). ?S ?M s) = reconcile_matches forma ds all"
      by (subst stack_union [OF assms, of forma _ ?M]) (auto simp: reconcile_matches_def split: sum.splits option.splits)
  qed
qed

text \<open>The same for patch mode, where a stored resource is found by label and type.\<close>

definition patch_counterpart :: "Forma list \<Rightarrow> Forma \<Rightarrow> Resource \<Rightarrow> Resource option" where
  "patch_counterpart all f q = find (\<lambda>r. res_Label r = res_Label q \<and> res_Type r = res_Type q)
     (forma_Resources f @ (case find (\<lambda>s. SingleStackLabel s = UnmanagedStack) all of None \<Rightarrow> [] | Some s \<Rightarrow> forma_Resources s))"

definition patch_creates :: "Forma \<Rightarrow> ResourceDataLookup \<Rightarrow> Forma list \<Rightarrow> Resource set" where
  "patch_creates forma ds all = {q \<in> set (forma_Resources forma). case rl_LoadStack ds (res_Stack q) of
      Inl err \<Rightarrow> False | Inr None \<Rightarrow> True | Inr (Some f) \<Rightarrow> patch_counterpart all f q = None}"

definition patch_matches :: "Forma \<Rightarrow> ResourceDataLookup \<Rightarrow> Forma list \<Rightarrow> (Resource \<times> Resource) set" where
  "patch_matches forma ds all = {(r, q). q \<in> set (forma_Resources forma) \<and> (case rl_LoadStack ds (res_Stack q) of
      Inl err \<Rightarrow> False | Inr None \<Rightarrow> False | Inr (Some f) \<Rightarrow> patch_counterpart all f q = Some r)}"

lemma patch_resource_exact:
  assumes "rs = forma_Resources f @ (case find (\<lambda>s. SingleStackLabel s = UnmanagedStack) all of None \<Rightarrow> [] | Some s \<Rightarrow> forma_Resources s)"
  shows "gpost (patch_resource env mode source m all rs q)
    (plan_exact env source (if patch_counterpart all f q = None then {q} else {}) {}
      {(r, q) |r. patch_counterpart all f q = Some r})"
proof (cases "patch_counterpart all f q")
  case None
  then show ?thesis
    unfolding patch_resource_def patch_counterpart_def assms
    by (simp) (rule gpost_exact_cong [OF create_new_exact], auto)
next
  case (Some r)
  then show ?thesis
    unfolding patch_resource_def patch_counterpart_def assms
    by (simp) (rule gpost_exact_cong [OF existing_exact], auto)
qed

lemma patch_plan_exact:
  assumes "range_order (ge_ord env)"
  shows "gpost (patch_plan env forma mode source m ds all)
    (plan_exact env source (patch_creates forma ds all) {} (patch_matches forma ds all))"
proof -
  note in_stack [OF assms, simp]
  let ?C = "\<lambda>l q x. x = q \<and> (case rl_LoadStack ds l of Inl err \<Rightarrow> False
      | Inr None \<Rightarrow> True | Inr (Some f) \<Rightarrow> patch_counterpart all f q = None)"
  let ?M = "\<lambda>l q x. snd x = q \<and> (case rl_LoadStack ds l of Inl err \<Rightarrow> False
      | Inr None \<Rightarrow> False | Inr (Some f) \<Rightarrow> patch_counterpart all f q = Some (fst x))"
  let ?S = "\<lambda>P s. {x. \<exists>q \<in> set (forma_Resources s). P (SingleStackLabel s) q x}"
  have step: "gpost (case rl_LoadStack ds (SingleStackLabel s) of
         Inl err \<Rightarrow> gret no_plan
       | Inr None \<Rightarrow> gplan (create_new env source m) (forma_Resources s)
       | Inr (Some f) \<Rightarrow>
           let unmanaged = (case find (\<lambda>s. SingleStackLabel s = UnmanagedStack) all of
                 None \<Rightarrow> [] | Some s \<Rightarrow> forma_Resources s)
           in gplan (patch_resource env mode source m all (forma_Resources f @ unmanaged)) (forma_Resources s))
      (plan_exact env source (?S ?C s) {} (?S ?M s))" if s: "s \<in> set (SplitByStack (ge_ord env) forma)" for s
  proof -
    consider err where "rl_LoadStack ds (SingleStackLabel s) = Inl err" | "rl_LoadStack ds (SingleStackLabel s) = Inr None"
      | f where "rl_LoadStack ds (SingleStackLabel s) = Inr (Some f)"
      by (metis option.exhaust sum.exhaust)
    then show ?thesis
    proof cases
      case 1
      then show ?thesis by (simp add: gpost_gret)
    next
      case 2
      then show ?thesis
        by simp (rule gpost_exact_cong [OF gplan_exact], rule create_new_exact, use s in auto)
    next
      case 3
      then show ?thesis
        unfolding Let_def
        by simp (rule gpost_exact_cong [OF gplan_exact], rule patch_resource_exact [where f = f],
          use s in \<open>auto split: if_splits\<close>)
    qed
  qed
  show ?thesis
    unfolding patch_plan_def
  proof (rule gpost_exact_cong [OF gplan_exact], rule step)
    show "(\<Union>s \<in> set (SplitByStack (ge_ord env) forma). ?S ?C s) = patch_creates forma ds all"
      by (subst stack_union [OF assms, of forma _ ?C]) (auto simp: patch_creates_def)
    show "(\<Union>s \<in> set (SplitByStack (ge_ord env) forma). ?S ?M s) = patch_matches forma ds all"
      by (subst stack_union [OF assms, of forma _ ?M]) (auto simp: patch_matches_def split: sum.splits option.splits)
  qed simp_all
qed

section \<open>Dependents\<close>

definition is_dependent :: "gen_env \<Rightarrow> Forma list \<Rightarrow> ResourceUpdate list \<Rightarrow> Resource \<Rightarrow> bool" where
  "is_dependent env all us r \<longleftrightarrow> (\<exists>st \<in> set all. r \<in> set (forma_Resources st)) \<and>
     (\<exists>v \<in> set us. ru_Operation v = OperationDelete \<and> depends_on env r (ru_Resource v))"

definition dependents_found ::
  "gen_env \<Rightarrow> FormaCommandSource \<Rightarrow> Forma list \<Rightarrow> ResourceUpdate list \<Rightarrow> ResourceUpdate list \<Rightarrow> bool" where
  "dependents_found env source all dels deps \<longleftrightarrow>
     (\<forall>d \<in> set deps. \<exists>r. deletes env source r d \<and> is_dependent env all dels r) \<and>
     (\<forall>v \<in> set dels. \<forall>st \<in> set all. \<forall>r \<in> set (forma_Resources st).
        ru_Operation v = OperationDelete \<and> \<not> same_triplet r (ru_Resource v) \<and> depends_on env r (ru_Resource v) \<longrightarrow>
        (\<exists>e \<in> set dels. same_triplet (ru_Resource e) r) \<or> (\<exists>d \<in> set deps. deletes env source r d))"

lemma set_somes: "set (List.map_filter id xs) = {x. Some x \<in> set xs}"
  by (force simp: set_map_filter)

lemma list_all2_concat:
  "list_all2 A vs dss \<Longrightarrow> (\<forall>d \<in> set (concat dss). \<exists>v \<in> set vs. \<exists>ds. A v ds \<and> d \<in> set ds) \<and>
     (\<forall>v \<in> set vs. \<exists>ds. A v ds \<and> set ds \<subseteq> set (concat dss))"
proof (induction rule: list_all2_induct)
  case (Cons v vs ds dss)
  show ?case
  proof (intro conjI ballI)
    fix d assume "d \<in> set (concat (ds # dss))"
    then consider "d \<in> set ds" | "d \<in> set (concat dss)" by auto
    then show "\<exists>w \<in> set (v # vs). \<exists>es. A w es \<and> d \<in> set es"
    proof cases
      case 1
      with Cons.hyps(1) show ?thesis by (meson list.set_intros(1))
    next
      case 2
      with Cons.IH show ?thesis by (meson list.set_intros(2))
    qed
  next
    fix w assume "w \<in> set (v # vs)"
    then consider "w = v" | "w \<in> set vs" by auto
    then show "\<exists>es. A w es \<and> set es \<subseteq> set (concat (ds # dss))"
    proof cases
      case 1
      with Cons.hyps(1) show ?thesis by (intro exI [of _ ds]) auto
    next
      case 2
      then obtain es where "A w es" "set es \<subseteq> set (concat dss)" using Cons.IH by blast
      then show ?thesis by (intro exI [of _ es]) auto
    qed
  qed
qed simp

definition deleted_all :: "gen_env \<Rightarrow> FormaCommandSource \<Rightarrow> Resource list \<Rightarrow> ResourceUpdate list \<Rightarrow> bool" where
  "deleted_all env source rs ds \<longleftrightarrow> (\<forall>d \<in> set ds. \<exists>r \<in> set rs. deletes env source r d) \<and>
     (\<forall>r \<in> set rs. \<exists>d \<in> set ds. deletes env source r d)"

definition dependents :: "gen_env \<Rightarrow> ResourceUpdate list \<Rightarrow> Forma list \<Rightarrow> ResourceUpdate \<Rightarrow> Resource list" where
  "dependents env dels all v = filter (\<lambda>r. \<not> list_ex (\<lambda>e. same_triplet (ru_Resource e) r) dels)
      (findResourcesThatDependOn env (ru_Resource v) all)"

lemma in_dependents: "r \<in> set (dependents env dels all v) \<longleftrightarrow>
    (\<forall>e \<in> set dels. \<not> same_triplet (ru_Resource e) r) \<and> (\<exists>st \<in> set all. r \<in> set (forma_Resources st)) \<and>
    \<not> same_triplet r (ru_Resource v) \<and> depends_on env r (ru_Resource v)"
  by (auto simp: dependents_def findResourcesThatDependOn_def list_ex_iff)

lemma dependents_deleted:
  "gpost (gbind (gmap (\<lambda>r. gbind (deref_target m (res_Target r))
        (\<lambda>target. goption (NewResourceUpdateForDestroy env r target source))) rs)
      (\<lambda>deletes. gret (List.map_filter id deletes))) (deleted_all env source rs)"
proof (intro gpost_gbind gpost_gmap [where R = "\<lambda>r x. \<exists>d. x = Some d \<and> deletes env source r d"] gpost_gret)
  show "gpost (deref_target m (res_Target r)) (\<lambda>target. gpost (goption (NewResourceUpdateForDestroy env r target source))
      (\<lambda>x. \<exists>d. x = Some d \<and> deletes env source r d))" for r
    by (intro gpost_deref gpost_goption Destroy_safe Destroy_post) simp
next
  fix ys assume "list_all2 (\<lambda>r x. \<exists>d. x = Some d \<and> deletes env source r d) rs ys"
  then show "deleted_all env source rs (List.map_filter id ys)"
    by (induction rule: list_all2_induct) (auto simp: deleted_all_def)
qed

lemma findDependencyUpdates_post:
  "gpost (findDependencyUpdates env dels all m source) (dependents_found env source all dels)"
proof -
  let ?dels = "filter (\<lambda>u. ru_Operation u = OperationDelete) dels"
  let ?R = "\<lambda>v. deleted_all env source (dependents env dels all v)"
  have "gpost (findDependencyUpdates env dels all m source)
      (\<lambda>deps. \<exists>dss. deps = concat dss \<and> list_all2 ?R ?dels dss)"
    unfolding findDependencyUpdates_def dependents_def [symmetric]
    by (rule gpost_gconcat [where R = ?R], rule dependents_deleted, blast)
  then show ?thesis
  proof (rule gpost_mono, elim exE conjE)
    fix deps dss assume deps: "deps = concat dss" "list_all2 ?R ?dels dss"
    note rel = list_all2_concat [OF deps(2), folded deps(1)]
    have 1: "\<exists>r. deletes env source r d \<and> is_dependent env all dels r" if d: "d \<in> set deps" for d
    proof -
      obtain v ds where v: "v \<in> set ?dels" "?R v ds" "d \<in> set ds" using bspec [OF conjunct1 [OF rel] d] by blast
      then obtain r where r: "r \<in> set (dependents env dels all v)" "deletes env source r d"
        unfolding deleted_all_def by blast
      have "v \<in> set dels" "ru_Operation v = OperationDelete" using v(1) by simp_all
      moreover have "depends_on env r (ru_Resource v)" "\<exists>st \<in> set all. r \<in> set (forma_Resources st)"
        using r(1) by (simp_all add: in_dependents)
      ultimately show ?thesis using r(2) unfolding is_dependent_def by blast
    qed
    have 2: "(\<exists>e \<in> set dels. same_triplet (ru_Resource e) r) \<or> (\<exists>d \<in> set deps. deletes env source r d)"
      if "v \<in> set dels" "st \<in> set all" "r \<in> set (forma_Resources st)" "ru_Operation v = OperationDelete"
        "\<not> same_triplet r (ru_Resource v)" "depends_on env r (ru_Resource v)" for v st r
    proof -
      have "v \<in> set ?dels" using that by simp
      from bspec [OF conjunct2 [OF rel] this] obtain ds where "?R v ds" "set ds \<subseteq> set deps"
        by blast
      moreover have "r \<in> set (dependents env dels all v) \<or> (\<exists>e \<in> set dels. same_triplet (ru_Resource e) r)"
        unfolding in_dependents using that(2,3,5,6) by blast
      ultimately show ?thesis unfolding deleted_all_def by blast
    qed
    show "dependents_found env source all dels deps"
      unfolding dependents_found_def using 1 2 by blast
  qed
qed

definition replaced_in :: "gen_env \<Rightarrow> FormaCommandSource \<Rightarrow> Resource \<Rightarrow> Resource \<Rightarrow> ResourceUpdate list \<Rightarrow> bool" where
  "replaced_in env source old new us \<longleftrightarrow> (\<exists>rs. replaces env source old new rs \<and> set rs \<subseteq> set us)"

lemma replaced_in_mono: "replaced_in env source old new us \<Longrightarrow> set us \<subseteq> set us' \<Longrightarrow> replaced_in env source old new us'"
  unfolding replaced_in_def by blast

lemma goption_Replace_post:
  "(\<And>rs. replaces env source old new rs \<Longrightarrow> Q (Some rs)) \<Longrightarrow>
    gpost (goption (NewResourceUpdateForReplace env old new t t' source)) Q"
  by (intro gpost_goption Replace_safe Replace_post) simp

definition changed_in :: "gen_env \<Rightarrow> FormaCommandSource \<Rightarrow> ResourceUpdate list \<Rightarrow> ResourceUpdate list \<Rightarrow> ResourceUpdate \<Rightarrow> bool" where
  "changed_in env source us final u \<longleftrightarrow> (\<exists>v \<in> set us. ru_Operation v = OperationUpdate \<and>
     in_pair env source (ru_ExistingResource v) (ru_Resource v) final u)"

lemma changed_in_mono:
  "changed_in env source us final u \<Longrightarrow> set us \<subseteq> set us' \<Longrightarrow> set final \<subseteq> set final' \<Longrightarrow> changed_in env source us' final' u"
  unfolding changed_in_def using in_pair_mono by blast

definition convert_ok ::
  "gen_env \<Rightarrow> FormaCommandSource \<Rightarrow> ResourceUpdate list \<Rightarrow> ResourceUpdate list \<Rightarrow> ResourceUpdate list \<times> ResourceUpdate list \<Rightarrow> bool" where
  "convert_ok env source us deps = (\<lambda>(final, deps').
     (\<forall>u \<in> set us. u \<in> set final \<or> ru_Operation u = OperationUpdate \<and>
        replaced_in env source (ru_ExistingResource u) (ru_Resource u) final) \<and>
     (\<forall>u \<in> set final. u \<in> set us \<or> changed_in env source us final u) \<and>
     set deps' \<subseteq> set deps \<and>
     (\<forall>d \<in> set deps. d \<in> set deps' \<or> (\<exists>u \<in> set us. ru_Operation u = OperationUpdate \<and> same_uri d u \<and>
        replaced_in env source (ru_ExistingResource u) (ru_Resource u) final)))"

lemma remove_first_cases: "d \<in> set ds \<Longrightarrow> d \<in> set (remove_first P ds) \<or> P d"
  by (induction ds) auto

lemma convert_ok_replace:
  assumes "replaces env source (ru_ExistingResource u) (ru_Resource u) rs" "ru_Operation u = OperationUpdate"
    "convert_ok env source us (remove_first (\<lambda>d. same_uri d u) deps) (final, deps')"
  shows "convert_ok env source (u # us) deps (rs @ final, deps')"
proof -
  have mono: "set final \<subseteq> set (rs @ final)" by auto
  have new: "replaced_in env source (ru_ExistingResource u) (ru_Resource u) (rs @ final)"
    using assms(1) unfolding replaced_in_def by auto
  have rs: "changed_in env source (u # us) (rs @ final) v" if "v \<in> set rs" for v
    using in_pair_mono [OF replaces_in_pair [OF assms(1) that], of "rs @ final"] assms(2)
    by (auto simp: changed_in_def)
  have us: "set us \<subseteq> set (u # us)" by auto
  note c = assms(3) [unfolded convert_ok_def prod.case]
  show ?thesis unfolding convert_ok_def prod.case
  proof (intro conjI ballI)
    fix v assume "v \<in> set (u # us)"
    then consider "v = u" | "v \<in> set us" by auto
    then show "v \<in> set (rs @ final) \<or> ru_Operation v = OperationUpdate \<and>
        replaced_in env source (ru_ExistingResource v) (ru_Resource v) (rs @ final)"
      using new assms(2) c replaced_in_mono [OF _ mono] by cases auto
  next
    fix v assume "v \<in> set (rs @ final)"
    then consider "v \<in> set rs" | "v \<in> set final" by auto
    then show "v \<in> set (u # us) \<or> changed_in env source (u # us) (rs @ final) v"
      using rs c changed_in_mono [OF _ us mono] by cases (blast, metis list.set_intros(2))
  next
    show "set deps' \<subseteq> set deps"
      using c set_remove_first_subset [of "\<lambda>d. same_uri d u" deps] by blast
  next
    fix d assume "d \<in> set deps"
    then consider "same_uri d u" | "d \<in> set (remove_first (\<lambda>d. same_uri d u) deps)"
      using remove_first_cases [of d deps "\<lambda>d. same_uri d u"] by blast
    then show "d \<in> set deps' \<or> (\<exists>v \<in> set (u # us). ru_Operation v = OperationUpdate \<and> same_uri d v \<and>
        replaced_in env source (ru_ExistingResource v) (ru_Resource v) (rs @ final))"
      using new assms(2) c replaced_in_mono [OF _ mono] by cases (auto, blast)
  qed
qed

lemma convert_ok_keep:
  assumes "convert_ok env source us deps (final, deps')"
  shows "convert_ok env source (u # us) deps (u # final, deps')"
proof -
  have mono: "set final \<subseteq> set (u # final)" and us: "set us \<subseteq> set (u # us)" by auto
  show ?thesis
    using assms changed_in_mono [OF _ us mono] replaced_in_mono [OF _ mono]
    unfolding convert_ok_def prod.case
    by (intro conjI ballI) (simp_all, metis+)
qed

lemma convert_loop_post:
  "gpost (convert_loop env source us deps) (convert_ok env source us deps)"
proof (induction us arbitrary: deps)
  case Nil
  then show ?case by (simp add: gpost_gret convert_ok_def)
next
  case (Cons u us)
  show ?case
    by (auto intro!: gpost_gbind goption_Replace_post gpost_mono [OF Cons.IH] gpost_gret convert_ok_replace convert_ok_keep
        split: prod.split)
qed

text \<open>Deletes of dependents that the forma also names become replacements.\<close>

definition deps_ok ::
  "gen_env \<Rightarrow> FormaCommandSource \<Rightarrow> ResourceUpdate list \<Rightarrow> ResourceUpdate list \<Rightarrow> bool" where
  "deps_ok env source deps extra \<longleftrightarrow> (\<forall>u \<in> set extra. u \<in> set deps \<or>
     (\<exists>d \<in> set deps. \<exists>new. in_pair env source (ru_Resource d) new extra u))"

lemma deps_ok_Nil: "deps_ok env source deps []"
  by (simp add: deps_ok_def)

definition deps_final ::
  "gen_env \<Rightarrow> FormaCommandSource \<Rightarrow> ResourceUpdate list \<Rightarrow> ResourceUpdate list \<times> ResourceUpdate list \<Rightarrow> bool" where
  "deps_final env source deps = (\<lambda>(final, remaining). set remaining \<subseteq> set deps \<and>
     (\<forall>u \<in> set final. \<exists>d \<in> set deps. \<exists>new. in_pair env source (ru_Resource d) new final u))"

lemma deps_final_keep: "deps_final env source deps (final, remaining) \<Longrightarrow> deps_final env source (d # deps) (final, d # remaining)"
  by (auto simp: deps_final_def)

lemma deps_final_replace:
  assumes "replaces env source (ru_Resource d) new rs" "deps_final env source deps (final, remaining)"
  shows "deps_final env source (d # deps) (rs @ final, remaining)"
proof -
  have mono: "set final \<subseteq> set (rs @ final)" and rs: "set rs \<subseteq> set (rs @ final)" by auto
  show ?thesis
    unfolding deps_final_def prod.case
  proof (intro conjI ballI)
    show "set remaining \<subseteq> set (d # deps)" using assms(2) by (auto simp: deps_final_def)
  next
    fix u assume "u \<in> set (rs @ final)"
    then consider "u \<in> set rs" | "u \<in> set final" by auto
    then show "\<exists>d' \<in> set (d # deps). \<exists>new. in_pair env source (ru_Resource d') new (rs @ final) u"
    proof cases
      case 1
      with in_pair_mono [OF replaces_in_pair [OF assms(1)] rs] show ?thesis by auto
    next
      case 2
      with assms(2) obtain d' new' where "d' \<in> set deps" "in_pair env source (ru_Resource d') new' final u"
        unfolding deps_final_def by blast
      with in_pair_mono [OF _ mono] show ?thesis by (meson list.set_intros(2))
    qed
  qed
qed

lemma convert_deps_post:
  "gpost (convert_deps env us fm tm source deps) (deps_final env source deps)"
proof (induction deps)
  case Nil
  then show ?case by (simp add: gpost_gret deps_final_def)
next
  case (Cons d deps)
  have keep: "gpost (gbind (convert_deps env us fm tm source deps)
      (\<lambda>(final, remaining). gret (final, d # remaining))) (deps_final env source (d # deps))"
    by (intro gpost_gbind gpost_mono [OF Cons.IH]) (auto intro: gpost_gret deps_final_keep)
  show ?case
    using keep
    by (auto simp: Let_def intro!: gpost_gbind gpost_deref goption_Replace_post gpost_mono [OF Cons.IH] gpost_gret
        deps_final_replace split: option.split)
qed

lemma convertDependencyDeletes_post:
  "gpost (convertDependencyDeletesToReplacements env us deps forma m source) (deps_ok env source deps)"
proof -
  have "deps_ok env source deps (final @ remaining)" if "deps_final env source deps (final, remaining)" for final remaining
    using that in_pair_mono [of env source _ _ final _ "final @ remaining"]
    unfolding deps_final_def deps_ok_def prod.case set_append by (intro ballI) blast
  then show ?thesis
    unfolding convertDependencyDeletesToReplacements_def Let_def
    by (intro gpost_gbind gpost_mono [OF convert_deps_post]) (auto intro: gpost_gret)
qed

end
