(* ===== verification/Update_Generator_Apply.thy ===== *)
theory Update_Generator_Apply
  imports Update_Generator_Facts
begin

text \<open>
  What applying a forma generates: the updates of reconcile and of patch mode, with the deletes of
  dependents merged into the plan. The theorems say which resources are created, deleted, changed or
  replaced, that every update has a reason and that no dependent of a deleted resource is forgotten.
\<close>

section \<open>Merging the deletes of dependents\<close>

lemma add_dep_delete_set: "set final \<subseteq> set (add_dep_delete d final)" "set (add_dep_delete d final) \<subseteq> insert d (set final)"
  by (auto simp: add_dep_delete_def)

lemma add_dep_delete_in:
  "d \<in> set (add_dep_delete d final) \<or> (\<exists>w \<in> set (add_dep_delete d final). same_uri w d \<and> ru_Operation w = OperationDelete)"
  by (auto simp: add_dep_delete_def list_ex_iff)

lemma fold_dep_delete:
  "set final \<subseteq> set (fold add_dep_delete deps final) \<and> set (fold add_dep_delete deps final) \<subseteq> set deps \<union> set final \<and>
    (\<forall>d \<in> set deps. d \<in> set (fold add_dep_delete deps final) \<or>
      (\<exists>w \<in> set (fold add_dep_delete deps final). same_uri w d \<and> ru_Operation w = OperationDelete))"
proof (induction deps arbitrary: final)
  case (Cons d deps)
  note IH = Cons.IH [of "add_dep_delete d final"]
  show ?case
    using IH add_dep_delete_set(1) [of final d] add_dep_delete_set(2) [of d final] add_dep_delete_in [of d final]
    by (simp add: subset_iff) blast
qed simp

section \<open>What an apply generates\<close>

text \<open>A stored resource is taken care of when an update deletes it or a replacement includes it.\<close>

definition removed :: "gen_env \<Rightarrow> FormaCommandSource \<Rightarrow> ResourceUpdate list \<Rightarrow> Resource \<Rightarrow> bool" where
  "removed env source us r \<longleftrightarrow>
     (\<exists>w \<in> set us. ru_Operation w = OperationDelete \<and>
        (same_triplet (ru_Resource w) r \<or> Stripped (res_URI (ru_Resource w)) = Stripped (res_URI r))) \<or>
     (\<exists>old new. replaced_in env source old new us \<and>
        (same_triplet new r \<or> Stripped (res_URI new) = Stripped (res_URI r)))"

definition justified ::
  "gen_env \<Rightarrow> FormaCommandSource \<Rightarrow> Forma list \<Rightarrow> Resource set \<Rightarrow> Resource set \<Rightarrow> (Resource \<times> Resource) set \<Rightarrow>
    ResourceUpdate list \<Rightarrow> ResourceUpdate \<Rightarrow> bool" where
  "justified env source all C D M us u \<longleftrightarrow>
     (\<exists>q \<in> C. creates env source q u) \<or> (\<exists>r \<in> D. deletes env source r u) \<or>
     (\<exists>old new. (old, new) \<in> M \<and> updates_in_place env source old new u) \<or>
     (\<exists>old new. in_pair env source old new us u \<and> (old \<in> fst ` M \<or> is_dependent env all us old)) \<or>
     (\<exists>r. deletes env source r u \<and> is_dependent env all us r)"

definition implements ::
  "gen_env \<Rightarrow> FormaCommandSource \<Rightarrow> Forma list \<Rightarrow> Resource set \<Rightarrow> Resource set \<Rightarrow> (Resource \<times> Resource) set \<Rightarrow>
    ResourceUpdate list \<Rightarrow> bool" where
  "implements env source all C D M us \<longleftrightarrow>
     (\<forall>q \<in> C. \<exists>u \<in> set us. creates env source q u) \<and>
     (\<forall>r \<in> D. \<exists>u \<in> set us. deletes env source r u) \<and>
     (\<forall>u \<in> set us. fresh_update source u \<and> justified env source all C D M us u) \<and>
     (\<forall>r \<in> D. \<forall>st \<in> set all. \<forall>d \<in> set (forma_Resources st).
        \<not> same_triplet d r \<and> depends_on env d r \<longrightarrow> removed env source us d)"

lemma in_pair_fresh: "in_pair env source old new us u \<Longrightarrow> fresh_update source u"
  by (auto simp: in_pair_def replaces_def deletes_def creates_def)

lemma in_pair_not_update: "in_pair env source old new us u \<Longrightarrow> ru_Operation u \<noteq> OperationUpdate"
  by (auto simp: in_pair_def replaces_def deletes_def creates_def)

lemma justified_fresh: "justified env source all C D M us u \<Longrightarrow> fresh_update source u"
  unfolding justified_def
  by (auto simp: creates_def deletes_def updates_in_place_def dest: in_pair_fresh)

lemma justified_plan:
  "q \<in> C \<Longrightarrow> creates env source q u \<Longrightarrow> justified env source all C D M us u"
  "r \<in> D \<Longrightarrow> deletes env source r u \<Longrightarrow> justified env source all C D M us u"
  "(old, new) \<in> M \<Longrightarrow> updates_in_place env source old new u \<Longrightarrow> justified env source all C D M us u"
  by (auto simp: justified_def)

lemma justified_matched:
  "in_pair env source old new us u \<Longrightarrow> (old, new') \<in> M \<Longrightarrow> justified env source all C D M us u"
  using image_eqI [of old fst "(old, new')" M] by (auto simp: justified_def)

lemma justified_dependent:
  "in_pair env source old new us u \<Longrightarrow> is_dependent env all us old \<Longrightarrow> justified env source all C D M us u"
  "deletes env source r u \<Longrightarrow> is_dependent env all us r \<Longrightarrow> justified env source all C D M us u"
  by (auto simp: justified_def)

lemma is_dependent_mono:
  "is_dependent env all us r \<Longrightarrow> (\<And>v. v \<in> set us \<Longrightarrow> ru_Operation v = OperationDelete \<Longrightarrow> v \<in> set us') \<Longrightarrow>
    is_dependent env all us' r"
  unfolding is_dependent_def by blast

lemma in_pair_survives:
  assumes "in_pair env source old new us u" "\<And>v. v \<in> set us \<Longrightarrow> ru_Operation v \<noteq> OperationUpdate \<Longrightarrow> v \<in> set us'"
  shows "in_pair env source old new us' u"
proof -
  obtain rs where rs: "replaces env source old new rs" "set rs \<subseteq> set us" "u \<in> set rs"
    using assms(1) unfolding in_pair_def by blast
  have "v \<in> set us'" if "v \<in> set rs" for v
    using assms(2) [of v] rs(2) that replaces_op [OF rs(1) that] by blast
  with rs show ?thesis unfolding in_pair_def by blast
qed

lemma in_pair_removed:
  assumes "in_pair env source old new us e" "same_triplet (ru_Resource e) r"
  shows "removed env source us r"
proof -
  obtain d c where p: "replaces env source old new [d, c]" "deletes env source old d" "creates env source new c"
      "d \<in> set us" "c \<in> set us" "e = d \<or> e = c"
    using assms(1) by (auto simp: in_pair_def replaces_def)
  show ?thesis
  proof (cases "e = d")
    case True
    with p assms(2) show ?thesis unfolding removed_def deletes_def by blast
  next
    case False
    with p have "same_triplet new r" using assms(2) by (simp add: creates_def same_triplet_def)
    with p(1,4,5) show ?thesis unfolding removed_def replaced_in_def by fastforce
  qed
qed

lemma paired_in:
  "paired env source M us \<Longrightarrow> u \<in> set us \<Longrightarrow> set us \<subseteq> set us' \<Longrightarrow>
    \<exists>old new. (old, new) \<in> M \<and> (updates_in_place env source old new u \<or> in_pair env source old new us' u)"
  unfolding paired_def using in_pair_mono by blast

text \<open>The conversion keeps the plan, apart from updates that become replacements.\<close>

lemma merge_implements:
  assumes plan: "plan_exact env source C D M p"
    and base: "set base = set (pl_creates p) \<union> set (pl_replaces p) \<union> set (pl_updates p) \<union> set (pl_deletes p)"
    and deps: "dependents_found env source all (pl_replaces p @ pl_deletes p) deps"
    and extra: "deps_ok env source deps extra"
    and conv: "convert_ok env source (base @ extra) deps (final, deps')"
    and us: "us = fold add_dep_delete deps' final"
  shows "implements env source all C D M us"
proof -
  let ?dels = "pl_replaces p @ pl_deletes p"
  note conv' = conv [unfolded convert_ok_def prod.case]
  have final: "set final \<subseteq> set us" and in_us: "set us \<subseteq> set deps' \<union> set final"
    and kept: "\<And>d. d \<in> set deps' \<Longrightarrow> d \<in> set us \<or> (\<exists>w \<in> set us. same_uri w d \<and> ru_Operation w = OperationDelete)"
    using fold_dep_delete [of final deps'] unfolding us by blast+
  have survive: "u \<in> set us" if "u \<in> set (base @ extra)" "ru_Operation u \<noteq> OperationUpdate" for u
    using conv' that final by blast
  have dels: "v \<in> set us" if "v \<in> set ?dels" "ru_Operation v \<noteq> OperationUpdate" for v
    using survive [of v] that base by auto
  have dep: "\<exists>r. deletes env source r d \<and> is_dependent env all us r" if d: "d \<in> set deps" for d
  proof -
    obtain r where "deletes env source r d" "is_dependent env all ?dels r"
      using deps d unfolding dependents_found_def by blast
    moreover have "is_dependent env all us r"
      by (rule is_dependent_mono [OF \<open>is_dependent env all ?dels r\<close>], rule dels) simp_all
    ultimately show ?thesis by blast
  qed
  have dep_pair: "justified env source all C D M us u"
    if d: "d \<in> set deps" "in_pair env source (ru_Resource d) new us u" for d new u
  proof -
    obtain r where "deletes env source r d" "is_dependent env all us r" using dep [OF d(1)] by blast
    moreover from this have "ru_Resource d = r" by (simp add: deletes_def)
    ultimately show ?thesis using justified_dependent(1) d(2) by blast
  qed
  have from_base: "(\<exists>q \<in> C. creates env source q u) \<or> (\<exists>r \<in> D. deletes env source r u) \<or>
      (\<exists>old new. (old, new) \<in> M \<and> (updates_in_place env source old new u \<or> in_pair env source old new base u))"
    if u: "u \<in> set base" for u
  proof -
    have sub: "set (pl_updates p) \<subseteq> set base" "set (pl_replaces p) \<subseteq> set base" using base by auto
    consider "u \<in> set (pl_creates p)" | "u \<in> set (pl_deletes p)" | "u \<in> set (pl_updates p)" | "u \<in> set (pl_replaces p)"
      using u base by auto
    then show ?thesis
    proof cases
      case 1
      with plan show ?thesis unfolding plan_exact_def all_created_def by (intro disjI1) blast
    next
      case 2
      with plan show ?thesis unfolding plan_exact_def all_deleted_def by (intro disjI2 [OF disjI1]) blast
    next
      case 3
      have "paired env source M (pl_updates p)" using plan unfolding plan_exact_def by blast
      from paired_in [OF this 3 sub(1)] show ?thesis by (intro disjI2)
    next
      case 4
      have "paired env source M (pl_replaces p)" using plan unfolding plan_exact_def by blast
      from paired_in [OF this 4 sub(2)] show ?thesis by (intro disjI2)
    qed
  qed
  have from_extra: "(\<exists>r. deletes env source r u \<and> is_dependent env all us r) \<or>
      (\<exists>d \<in> set deps. \<exists>new. in_pair env source (ru_Resource d) new us u)" if u: "u \<in> set extra" for u
  proof -
    consider "u \<in> set deps" | d new where "d \<in> set deps" "in_pair env source (ru_Resource d) new extra u"
      using extra u unfolding deps_ok_def by blast
    then show ?thesis
    proof cases
      case 1
      then show ?thesis using dep by blast
    next
      case 2
      have "in_pair env source (ru_Resource d) new us u"
        by (rule in_pair_survives [OF 2(2)], rule survive) auto
      with 2(1) show ?thesis by blast
    qed
  qed
  have extra_op: "ru_Operation u \<noteq> OperationUpdate" if "u \<in> set extra" for u
    using from_extra [OF that] in_pair_not_update by (auto simp: deletes_def)
  have update: "\<exists>new. (ru_ExistingResource v, new) \<in> M" if "v \<in> set (base @ extra)" "ru_Operation v = OperationUpdate" for v
  proof -
    have "v \<in> set base" using that extra_op by auto
    from from_base [OF this] show ?thesis
      using that(2) in_pair_not_update unfolding creates_def deletes_def updates_in_place_def by auto
  qed
  have reason: "justified env source all C D M us u" if u: "u \<in> set us" for u
  proof -
    consider "u \<in> set deps'" | "u \<in> set base" | "u \<in> set extra" | "changed_in env source (base @ extra) final u"
      using in_us u conv' by auto
    then show ?thesis
    proof cases
      case 1
      then have "u \<in> set deps" using conv' by blast
      from dep [OF this] show ?thesis using justified_dependent(2) by blast
    next
      case 2
      have survives: "in_pair env source old new us u" if "in_pair env source old new base u" for old new
        by (rule in_pair_survives [OF that], rule survive) auto
      from from_base [OF 2] show ?thesis
      proof (elim disjE bexE exE conjE)
        fix old new assume "(old, new) \<in> M" "in_pair env source old new base u"
        then show ?thesis using survives justified_matched by blast
      qed (rule justified_plan, assumption, assumption)+
    next
      case 3
      from from_extra [OF 3] show ?thesis
        by (elim disjE bexE exE conjE) (rule justified_dependent(2) dep_pair, assumption, assumption)+
    next
      case 4
      then obtain v where v: "v \<in> set (base @ extra)" "ru_Operation v = OperationUpdate"
        "in_pair env source (ru_ExistingResource v) (ru_Resource v) us u"
        unfolding changed_in_def using in_pair_mono [OF _ final] by blast
      from update [OF v(1,2)] show ?thesis using justified_matched [OF v(3)] by blast
    qed
  qed
  have dependents: "removed env source us d"
    if r: "r \<in> D" and st: "st \<in> set all" "d \<in> set (forma_Resources st)" and dr: "\<not> same_triplet d r" "depends_on env d r" for r st d
  proof -
    obtain v where v: "v \<in> set (pl_deletes p)" "deletes env source r v"
      using plan r unfolding plan_exact_def all_deleted_def by blast
    then have "v \<in> set ?dels" "ru_Operation v = OperationDelete" "ru_Resource v = r" by (simp_all add: deletes_def)
    then consider e where "e \<in> set ?dels" "same_triplet (ru_Resource e) d" | x where "x \<in> set deps" "deletes env source d x"
      using deps st dr unfolding dependents_found_def by blast
    then show ?thesis
    proof cases
      case 1
      show ?thesis
      proof (cases "e \<in> set (pl_deletes p)")
        case True
        then have "ru_Operation e = OperationDelete"
          using plan unfolding plan_exact_def all_deleted_def deletes_def by blast
        with 1 dels show ?thesis unfolding removed_def by auto
      next
        case False
        with 1(1) have e: "e \<in> set (pl_replaces p)" by auto
        then have "\<exists>old new. in_pair env source old new (pl_replaces p) e"
          using plan unfolding plan_exact_def paired_def updates_in_place_def by blast
        then obtain old new where pair: "in_pair env source old new (pl_replaces p) e" by blast
        have "in_pair env source old new us e"
          by (rule in_pair_survives [OF pair], rule dels) auto
        then show ?thesis using 1(2) by (rule in_pair_removed)
      qed
    next
      case 2
      then have x: "ru_Operation x = OperationDelete" "ru_Resource x = d" by (simp_all add: deletes_def)
      consider "x \<in> set deps'" | v where "v \<in> set (base @ extra)" "same_uri x v"
          "replaced_in env source (ru_ExistingResource v) (ru_Resource v) final"
        using conv' 2(1) by blast
      then show ?thesis
      proof cases
        case 1
        then show ?thesis
          using kept [of x] x unfolding removed_def same_uri_def by (auto simp: same_triplet_def)
      next
        case 2
        then show ?thesis
          using x replaced_in_mono [OF _ final] unfolding removed_def same_uri_def by metis
      qed
    qed
  qed
  show ?thesis
    unfolding implements_def
  proof (intro conjI ballI impI)
    show "\<exists>u \<in> set us. creates env source q u" if q: "q \<in> C" for q
    proof -
      obtain u where "u \<in> set (pl_creates p)" "creates env source q u"
        using plan q unfolding plan_exact_def all_created_def by blast
      then show ?thesis using survive [of u] base unfolding creates_def by auto
    qed
    show "\<exists>u \<in> set us. deletes env source r u" if r: "r \<in> D" for r
    proof -
      obtain u where "u \<in> set (pl_deletes p)" "deletes env source r u"
        using plan r unfolding plan_exact_def all_deleted_def by blast
      then show ?thesis using survive [of u] base unfolding deletes_def by auto
    qed
    show "fresh_update source u" if "u \<in> set us" for u
      using justified_fresh [OF reason [OF that]] .
  qed (use reason dependents in auto)
qed

lemma reconcile_merged:
  assumes "range_order (ge_ord env)" "rl_LoadAllStacks ds = Inr all"
    "generateResourceUpdatesForReconcile env forma mode source targetMap ds n = Inr (us, n')"
  shows "implements env source all (reconcile_creates forma ds all) (reconcile_deletes forma ds)
    (reconcile_matches forma ds all) us"
proof -
  let ?C = "reconcile_creates forma ds all" and ?D = "reconcile_deletes forma ds" and ?M = "reconcile_matches forma ds all"
  obtain p n1 deps n2 extra n3 final deps' where steps:
    "reconcile_plan env forma mode source targetMap ds all n = Inr (p, n1)"
    "findDependencyUpdates env (pl_replaces p @ pl_deletes p) all targetMap source n1 = Inr (deps, n2)"
    "convertDependencyDeletesToReplacements env (pl_creates p @ pl_replaces p @ pl_updates p @ pl_deletes p) deps forma
       targetMap source n2 = Inr (extra, n3)"
    "convert_loop env source ((pl_creates p @ pl_replaces p @ pl_updates p @ pl_deletes p) @ extra) deps n3 = Inr ((final, deps'), n')"
    "us = fold add_dep_delete deps' final"
    using assms(3) by (auto simp: generateResourceUpdatesForReconcile_def convertUpdatesToReplacementsForDependencies_def
        gbind_Inr assms(2) Let_def)
  show ?thesis
    by (rule merge_implements [OF gpostD [OF reconcile_plan_exact [OF assms(1)] steps(1)] _
        gpostD [OF findDependencyUpdates_post steps(2)] gpostD [OF convertDependencyDeletes_post steps(3)]
        gpostD [OF convert_loop_post steps(4)] steps(5)]) auto
qed

lemma patch_merged:
  assumes "range_order (ge_ord env)" "rl_LoadAllStacks ds = Inr all"
    "generateResourceUpdatesForPatch env forma mode source targetMap ds n = Inr (us, n')"
  shows "implements env source all (patch_creates forma ds all) {} (patch_matches forma ds all) us"
proof -
  obtain p n1 deps n2 final deps' where steps:
    "patch_plan env forma mode source targetMap ds all n = Inr (p, n1)"
    "findDependencyUpdates env (pl_replaces p) all targetMap source n1 = Inr (deps, n2)"
    "convert_loop env source ((pl_creates p @ pl_updates p @ pl_replaces p) @ []) deps n2 = Inr ((final, deps'), n')"
    "us = fold add_dep_delete deps' final"
    using assms(3) by (auto simp: generateResourceUpdatesForPatch_def convertUpdatesToReplacementsForDependencies_def
        gbind_Inr assms(2))
  note plan = gpostD [OF patch_plan_exact [OF assms(1)] steps(1)]
  then have none: "pl_deletes p = []" by (auto simp: plan_exact_def all_deleted_def)
  have deps: "dependents_found env source all (pl_replaces p @ pl_deletes p) deps"
    using gpostD [OF findDependencyUpdates_post steps(2)] none by simp
  show ?thesis
    by (rule merge_implements [OF plan _ deps deps_ok_Nil gpostD [OF convert_loop_post steps(3)] steps(4)]) (auto simp: none)
qed

text \<open>C4: Reconciling makes the stored stacks look like the forma. Every resource of the forma without a
  stored counterpart is created, every stored resource of its stacks without a counterpart in the forma
  is deleted, and a stored counterpart is changed in place, replaced by a complete pair of a delete and a
  create, or left alone. Nothing else is touched, except stored resources that depend on a deleted one. Of these,
  each that depends on a resource that the forma no longer names is deleted or replaced; what depends only
  on a resource that is deleted as a dependent itself is not looked for, as \<open>second_level_forgotten\<close> shows.\<close>

theorem reconcile_implements:
  assumes "range_order (ge_ord env)" "rl_LoadAllStacks ds = Inr all"
    "generateResourceUpdatesForReconcile env forma mode source targetMap ds n = Inr (us, n')"
  shows "implements env source all (reconcile_creates forma ds all) (reconcile_deletes forma ds)
    (reconcile_matches forma ds all) us"
  using assms by (rule reconcile_merged)

text \<open>C37: A patch never deletes a resource on its own. It creates the resources of the forma that have no
  stored counterpart, changes or replaces the counterparts, and deletes only dependents of what it replaces.\<close>

theorem patch_implements:
  assumes "range_order (ge_ord env)" "rl_LoadAllStacks ds = Inr all"
    "generateResourceUpdatesForPatch env forma mode source targetMap ds n = Inr (us, n')"
  shows "implements env source all (patch_creates forma ds all) {} (patch_matches forma ds all) us"
  using assms by (rule patch_merged)

text \<open>Concrete packages and stacks: \<open>c\<close> of the stack \<open>z\<close> refers to \<open>a\<close> of the stack \<open>s\<close>.\<close>

definition sample_gen :: gen_env where
  "sample_gen = \<lparr>ge_lib = key_lib, ge_Bool = (\<lambda>j. j = JBool True), ge_set_raw = set_path, ge_hash = sample_hash,
     ge_create_patch = set_all, ge_NewID = (\<lambda>n. replicate (Suc n) (CHR ''i'')), ge_ord = rev\<rparr>"

definition stored :: "string \<Rightarrow> string \<Rightarrow> string \<Rightarrow> json \<Rightarrow> Resource" where
  "stored stack label ksuid props = zero_Resource\<lparr>res_Stack := stack, res_Label := label, res_Type := ''T'',
     res_Target := ''t'', res_Ksuid := ksuid, res_Properties := RawJson props\<rparr>"

definition sample_stacks :: "(string \<times> Forma) list" where
  "sample_stacks =
     [(''s'', zero_Forma\<lparr>forma_Stacks := [\<lparr>stk_Label = ''s'', stk_Description = ''''\<rparr>],
         forma_Resources := [stored ''s'' ''a'' ''k1'' (JObj [])]\<rparr>),
      (''z'', zero_Forma\<lparr>forma_Stacks := [\<lparr>stk_Label = ''z'', stk_Description = ''''\<rparr>],
         forma_Resources := [stored ''z'' ''c'' ''k3'' (JObj [(''p'', ref_json (NewFormaeURI ''k1'' ''Id''))])]\<rparr>)]"

definition sample_lookup :: ResourceDataLookup where
  "sample_lookup = \<lparr>rl_LoadStack = (\<lambda>l. Inr (map_of sample_stacks l)), rl_LoadAllStacks = Inr (map snd sample_stacks),
     rl_BatchGetKSUIDsByTriplets = (\<lambda>ts. Inr []), rl_GetKSUIDByTriplet = (\<lambda>s l t. Inr '''')\<rparr>"

definition sample_forma :: Forma where
  "sample_forma = zero_Forma\<lparr>forma_Resources := [stored ''s'' ''b'' ''k2'' (JObj [])]\<rparr>"

definition sample_targets :: targets where
  "sample_targets = [(''t'', \<lparr>tgt_Label = ''t'', tgt_Namespace = ''NS'', tgt_Config = RawNil\<rparr>)]"

lemma sample_gen_order: "range_order (ge_ord sample_gen)"
  by (simp add: sample_gen_def range_order_rev)

definition outline :: "gen_error + ResourceUpdate list \<times> nat \<Rightarrow> (OperationType \<times> string) list option" where
  "outline r = (case r of Inl e \<Rightarrow> None | Inr (us, n) \<Rightarrow> Some (map (\<lambda>u. (ru_Operation u, res_Label (ru_Resource u))) us))"

lemma outline_Some: "outline r = Some os \<Longrightarrow> \<exists>us n. r = Inr (us, n) \<and> map (\<lambda>u. (ru_Operation u, res_Label (ru_Resource u))) us = os"
  by (auto simp: outline_def split: sum.splits)

theorem reconcile_implements_witness:
  "\<exists>us n. generateResourceUpdatesForReconcile sample_gen sample_forma FormaApplyModeReconcile FormaCommandSourceUser
     sample_targets sample_lookup 0 = Inr (us, n) \<and>
   map (\<lambda>u. (ru_Operation u, res_Label (ru_Resource u))) us =
     [(OperationCreate, ''b''), (OperationDelete, ''a''), (OperationDelete, ''c'')] \<and>
   implements sample_gen FormaCommandSourceUser (map snd sample_stacks)
     (reconcile_creates sample_forma sample_lookup (map snd sample_stacks)) (reconcile_deletes sample_forma sample_lookup)
     (reconcile_matches sample_forma sample_lookup (map snd sample_stacks)) us"
proof -
  have "outline (generateResourceUpdatesForReconcile sample_gen sample_forma FormaApplyModeReconcile FormaCommandSourceUser
     sample_targets sample_lookup 0) = Some [(OperationCreate, ''b''), (OperationDelete, ''a''), (OperationDelete, ''c'')]"
    by code_simp
  from outline_Some [OF this] show ?thesis
    using reconcile_implements [OF sample_gen_order, of sample_lookup "map snd sample_stacks"]
    by (auto simp: sample_lookup_def)
qed

definition create_only_q :: Schema where
  "create_only_q = zero_Schema\<lparr>sch_Fields := [''q''], sch_Hints := [(''q'', \<lparr>fh_CreateOnly = True, fh_Persist = False,
     fh_WriteOnly = False, fh_Required = False, fh_RequiredOnCreate = False\<rparr>)]\<rparr>"

definition patched_lookup :: ResourceDataLookup where
  "patched_lookup = sample_lookup\<lparr>rl_LoadStack := (\<lambda>l. Inr (map_option
     (\<lambda>f. f\<lparr>forma_Resources := map (\<lambda>r. r\<lparr>res_Schema := create_only_q\<rparr>) (forma_Resources f)\<rparr>) (map_of sample_stacks l)))\<rparr>"

definition patched_forma :: Forma where
  "patched_forma = zero_Forma\<lparr>forma_Resources := [stored ''s'' ''b'' ''k2'' (JObj []),
     (stored ''s'' ''a'' ''k1'' (JObj [(''q'', JStr ''x'')]))\<lparr>res_Schema := create_only_q\<rparr>]\<rparr>"

theorem patch_implements_witness:
  "\<exists>us n. generateResourceUpdatesForPatch sample_gen patched_forma FormaApplyModePatch FormaCommandSourceUser
     sample_targets patched_lookup 0 = Inr (us, n) \<and>
   map (\<lambda>u. (ru_Operation u, res_Label (ru_Resource u))) us =
     [(OperationCreate, ''b''), (OperationDelete, ''a''), (OperationCreate, ''a''), (OperationDelete, ''c'')] \<and>
   implements sample_gen FormaCommandSourceUser (map snd sample_stacks)
     (patch_creates patched_forma patched_lookup (map snd sample_stacks)) {}
     (patch_matches patched_forma patched_lookup (map snd sample_stacks)) us"
proof -
  have "outline (generateResourceUpdatesForPatch sample_gen patched_forma FormaApplyModePatch FormaCommandSourceUser
     sample_targets patched_lookup 0) = Some [(OperationCreate, ''b''), (OperationDelete, ''a''), (OperationCreate, ''a''), (OperationDelete, ''c'')]"
    by code_simp
  from outline_Some [OF this] show ?thesis
    using patch_implements [OF sample_gen_order, of patched_lookup "map snd sample_stacks"]
    by (auto simp: patched_lookup_def sample_lookup_def)
qed

text \<open>A third resource, \<open>e\<close> of the stack \<open>y\<close>, refers to \<open>c\<close>. The plan deletes \<open>c\<close> and leaves \<open>e\<close>, which
  then refers to nothing.\<close>

definition second_stacks :: "(string \<times> Forma) list" where
  "second_stacks = sample_stacks @ [(''y'', zero_Forma\<lparr>forma_Stacks := [\<lparr>stk_Label = ''y'', stk_Description = ''''\<rparr>],
     forma_Resources := [stored ''y'' ''e'' ''k5'' (JObj [(''p'', ref_json (NewFormaeURI ''k3'' ''Id''))])]\<rparr>)]"

definition second_lookup :: ResourceDataLookup where
  "second_lookup = \<lparr>rl_LoadStack = (\<lambda>l. Inr (map_of second_stacks l)), rl_LoadAllStacks = Inr (map snd second_stacks),
     rl_BatchGetKSUIDsByTriplets = (\<lambda>ts. Inr []), rl_GetKSUIDByTriplet = (\<lambda>s l t. Inr '''')\<rparr>"

lemma second_level_forgotten:
  "outline (generateResourceUpdatesForReconcile sample_gen sample_forma FormaApplyModeReconcile FormaCommandSourceUser
     sample_targets second_lookup 0) =
     Some [(OperationCreate, ''b''), (OperationDelete, ''a''), (OperationDelete, ''c'')]"
  "map (\<lambda>(l, st). map res_Label (forma_Resources st)) second_stacks = [[''a''], [''c''], [''e'']]"
  "depends_on sample_gen (hd (forma_Resources (snd (second_stacks ! 1)))) (hd (forma_Resources (snd (second_stacks ! 0))))"
  "depends_on sample_gen (hd (forma_Resources (snd (second_stacks ! 2)))) (hd (forma_Resources (snd (second_stacks ! 1))))"
  by code_simp+

end
