(* ===== verification/Update_Generator_Safety.thy ===== *)
theory Update_Generator_Safety
  imports Update_Generator_Apply
begin

text \<open>
  The generator never dereferences a nil pointer when the targets of the stored resources are known,
  and it gives every resource an identifier: its own, the stored one, or a fresh one.
\<close>

section \<open>No nil dereference\<close>

definition not_nil :: "gen_error \<Rightarrow> bool" where
  "not_nil e \<longleftrightarrow> (\<forall>l. e \<noteq> NilTarget l \<and> e \<noteq> NilStack l)"

lemma not_nil_simps [simp]:
  "not_nil (LabelsDontMatch a b)" "not_nil CompareFailed" "not_nil ConvertFailed" "not_nil (PatchFailed p)"
  "not_nil MetadataFailed" "not_nil (RequiredFieldMissingOnCreate fs a b c)" "not_nil LoadStacksFailed"
  "not_nil (LoadStackFailed a)" "not_nil (ResolvablesFailed u)" "not_nil (TranslateFailed a)"
  "not_nil (TargetReferenceNotFound a)" "not_nil (StackReferenceNotFound a)"
  "not_nil (TargetNamespaceMismatch a b c)" "not_nil (TargetConfigMismatch a raw1 raw2)"
  "not_nil (UnsupportedApplyMode m)" "not_nil (UnsupportedCommand cmd)"
  by (simp_all add: not_nil_def)

definition has_target :: "targets \<Rightarrow> Resource \<Rightarrow> bool" where
  "has_target m r \<longleftrightarrow> map_of m (res_Target r) \<noteq> None"

lemma gsafe_gbind_all: "gsafe E m \<Longrightarrow> (\<And>x. gsafe E (f x)) \<Longrightarrow> gsafe E (gbind m f)"
  unfolding gsafe_def gbind_Inl by blast

lemma gbind_gopt_Some [simp]: "gbind (gopt e (Some y)) f = f y"
  by (simp add: gbind_def gopt_def gret_def fun_eq_iff)

lemma deref_safe: "has_target m r \<Longrightarrow> gsafe E (deref_target m (res_Target r))"
  unfolding deref_target_def has_target_def by (intro gsafe_gopt) simp

lemmas safe_intros = gsafe_gbind_all gsafe_gret gsafe_gerr gsafe_gopt gsafe_gsum gsafe_NewID gsafe_metadata
  gsafe_gmap gsafe_gconcat gsafe_gplan gsafe_goption Destroy_safe Replace_safe deref_safe

lemma factory_safe:
  "gsafe not_nil (NewResourceUpdateForCreate env r t source)"
  "gsafe not_nil (NewResourceUpdateForSyncWithFilter env r t source flt)"
  "gsafe not_nil (NewResourceUpdateForExisting env ps r q t t' mode source)"
  unfolding NewResourceUpdateForCreate_def NewResourceUpdateForSyncWithFilter_def NewResourceUpdateForExisting_def Let_def
  by (auto intro!: safe_intros split: option.split)

definition stored_targets :: "ResourceDataLookup \<Rightarrow> targets \<Rightarrow> bool" where
  "stored_targets ds m \<longleftrightarrow>
     (\<forall>l f. rl_LoadStack ds l = Inr (Some f) \<longrightarrow> (\<forall>r \<in> set (forma_Resources f). has_target m r)) \<and>
     (\<forall>all. rl_LoadAllStacks ds = Inr all \<longrightarrow> (\<forall>st \<in> set all. \<forall>r \<in> set (forma_Resources st). has_target m r))"

lemma destroy_safe:
  assumes "stored_targets ds m"
  shows "gsafe not_nil (generateResourceUpdatesForDestroy env forma source m ds)"
  unfolding generateResourceUpdatesForDestroy_def
  by (intro gsafe_gconcat) (use assms in \<open>auto intro!: safe_intros simp: stored_targets_def split: sum.split option.split\<close>)

lemma sync_safe:
  assumes "stored_targets ds m" "range_order (ge_ord env)" "\<forall>q \<in> set (forma_Resources forma). has_target m q"
    "source = FormaCommandSourceDiscovery \<or> (\<forall>q \<in> set (forma_Resources forma). rl_LoadStack ds (res_Stack q) \<noteq> Inr None)"
  shows "gsafe not_nil (generateResourceUpdatesForSync env forma source m ds filters)"
  unfolding generateResourceUpdatesForSync_def
proof (intro gsafe_gconcat)
  fix s assume s: "s \<in> set (SplitByStack (ge_ord env) forma)"
  let ?step = "\<lambda>st. gconcat (\<lambda>r. gmap (\<lambda>q. gbind (deref_target m (res_Target r))
      (\<lambda>target. NewResourceUpdateForSync env r target source))
      (filter (\<lambda>q. same_in_stack (SingleStackLabel s) q r) (forma_Resources forma))) (forma_Resources st)"
  have stack: "source = FormaCommandSourceDiscovery \<or> rl_LoadStack ds (SingleStackLabel s) \<noteq> Inr None"
    using assms(4) split_stacks(3) [OF assms(2) s] by metis
  have "gsafe not_nil (?step st)" if "rl_LoadStack ds (SingleStackLabel s) = Inr (Some st)" for st
    using assms(1) that by (auto intro!: safe_intros factory_safe simp: NewResourceUpdateForSync_def stored_targets_def)
  moreover have "gsafe not_nil (discovery_updates env forma (SingleStackLabel s) source m filters)"
    unfolding discovery_updates_def using assms(3) by (auto intro!: safe_intros factory_safe)
  ultimately show "gsafe not_nil (case rl_LoadStack ds (SingleStackLabel s) of
         Inl err \<Rightarrow> gret []
       | Inr existingStack \<Rightarrow>
           if source = FormaCommandSourceDiscovery
           then discovery_updates env forma (SingleStackLabel s) source m filters
           else gbind (gopt (NilStack (SingleStackLabel s)) existingStack) ?step)"
    using stack by (auto simp: gsafe_gret split: sum.split option.splits)
qed

lemma dependency_safe:
  assumes "\<forall>st \<in> set all. \<forall>r \<in> set (forma_Resources st). has_target m r"
  shows "gsafe not_nil (findDependencyUpdates env dels all m source)"
  unfolding findDependencyUpdates_def
  by (intro safe_intros) (use assms in \<open>auto simp: findResourcesThatDependOn_def\<close>)

lemma convert_loop_safe: "gsafe E (convert_loop env source us deps)"
  by (induction us arbitrary: deps) (auto intro!: safe_intros split: option.split)

lemma convert_deps_safe:
  assumes "\<And>k q. map_of fm k = Some q \<Longrightarrow> has_target m q"
  shows "gsafe E (convert_deps env us fm m source deps)"
  by (induction deps) (auto intro!: safe_intros assms simp: Let_def split: option.split)

lemma map_of_update_all:
  "map_of (fold (\<lambda>r m. AList.update (f r) r m) rs m) k = Some q \<Longrightarrow> q \<in> set rs \<or> map_of m k = Some q"
  by (induction rs arbitrary: m) (fastforce simp: update_conv' split: if_splits)+

lemma conversion_safe:
  assumes "\<forall>q \<in> set (forma_Resources forma). has_target m q"
  shows "gsafe E (convertDependencyDeletesToReplacements env us deps forma m source)"
    "gsafe E (convertUpdatesToReplacementsForDependencies env us deps source)"
  unfolding convertDependencyDeletesToReplacements_def convertUpdatesToReplacementsForDependencies_def Let_def
  using assms by (auto intro!: safe_intros convert_deps_safe convert_loop_safe dest!: map_of_update_all)

lemma update_existing_safe:
  "has_target m r \<Longrightarrow> has_target m q \<Longrightarrow> gsafe not_nil (update_existing env mode source m all r q)"
  unfolding update_existing_def by (intro safe_intros factory_safe) simp

lemma create_new_safe: "has_target m q \<Longrightarrow> gsafe not_nil (create_new env source m q)"
  unfolding create_new_def by (intro safe_intros factory_safe)

lemma found_in: "find P xs = Some x \<Longrightarrow> x \<in> set xs"
  by (auto simp: find_Some_iff)

lemma findUnmanagedResource_in:
  "findUnmanagedResource q all = Some r \<Longrightarrow> \<exists>st \<in> set all. r \<in> set (forma_Resources st)"
  by (auto simp: findUnmanagedResource_def find_Some_iff split: option.splits dest: nth_mem)

lemma reconcile_plan_safe:
  assumes "range_order (ge_ord env)" "stored_targets ds m" "rl_LoadAllStacks ds = Inr all"
    "\<forall>q \<in> set (forma_Resources forma). has_target m q"
  shows "gsafe not_nil (reconcile_plan env forma mode source m ds all)"
  unfolding reconcile_plan_def
proof (rule gsafe_gplan)
  fix s assume s: "s \<in> set (SplitByStack (ge_ord env) forma)"
  have new: "has_target m q" if "q \<in> set (forma_Resources s)" for q
    using assms(4) in_stack [OF assms(1) s] that by blast
  have unmanaged: "has_target m r" if "findUnmanagedResource q all = Some r" for q r
    using findUnmanagedResource_in [OF that] assms(2,3) by (auto simp: stored_targets_def)
  have "gsafe not_nil (reconcile_stack env mode source m all s f)"
    if "\<forall>r \<in> set (forma_Resources f). has_target m r" for f
    unfolding reconcile_stack_def reconcile_existing_def Let_def
    using that new by (auto intro!: safe_intros update_existing_safe create_new_safe)
  moreover have "gsafe not_nil (reconcile_new_stack env mode source m all s)"
    unfolding reconcile_new_stack_def
    using new unmanaged by (auto intro!: safe_intros update_existing_safe create_new_safe split: option.split)
  ultimately show "gsafe not_nil (case rl_LoadStack ds (SingleStackLabel s) of
         Inl err \<Rightarrow> gret no_plan
       | Inr None \<Rightarrow> reconcile_new_stack env mode source m all s
       | Inr (Some existingStack) \<Rightarrow> reconcile_stack env mode source m all s existingStack)"
    using assms(2) by (auto simp: gsafe_gret stored_targets_def split: sum.split option.split)
qed

lemma patch_resource_safe:
  "\<forall>r \<in> set rs. has_target m r \<Longrightarrow> has_target m q \<Longrightarrow> gsafe not_nil (patch_resource env mode source m all rs q)"
  unfolding patch_resource_def
  by (auto intro!: safe_intros update_existing_safe create_new_safe split: option.split dest!: found_in)

lemma loaded_safe:
  assumes "stored_targets ds m" "gsafe E a" "gsafe E b"
    "\<And>f. \<forall>r \<in> set (forma_Resources f). has_target m r \<Longrightarrow> gsafe E (c f)"
  shows "gsafe E (case rl_LoadStack ds l of Inl err \<Rightarrow> a | Inr None \<Rightarrow> b | Inr (Some f) \<Rightarrow> c f)"
  using assms unfolding stored_targets_def by (auto split: sum.split option.split)

lemma patch_plan_safe:
  assumes "range_order (ge_ord env)" "stored_targets ds m" "rl_LoadAllStacks ds = Inr all"
    "\<forall>q \<in> set (forma_Resources forma). has_target m q"
  shows "gsafe not_nil (patch_plan env forma mode source m ds all)"
  unfolding patch_plan_def Let_def
proof (rule gsafe_gplan)
  fix s assume s: "s \<in> set (SplitByStack (ge_ord env) forma)"
  let ?unmanaged = "case find (\<lambda>s. SingleStackLabel s = UnmanagedStack) all of None \<Rightarrow> [] | Some s \<Rightarrow> forma_Resources s"
  have new: "has_target m q" if "q \<in> set (forma_Resources s)" for q
    using assms(4) in_stack [OF assms(1) s] that by blast
  have unmanaged: "\<forall>r \<in> set ?unmanaged. has_target m r"
    using assms(2,3) by (auto simp: stored_targets_def split: option.splits dest!: found_in [OF sym] found_in)
  have "gsafe not_nil (gplan (patch_resource env mode source m all (forma_Resources f @ ?unmanaged)) (forma_Resources s))"
    if "\<forall>r \<in> set (forma_Resources f). has_target m r" for f
    using that unmanaged by (intro gsafe_gplan patch_resource_safe new) auto
  moreover have "gsafe not_nil (gplan (create_new env source m) (forma_Resources s))"
    using new by (auto intro!: safe_intros create_new_safe)
  ultimately show "gsafe not_nil (case rl_LoadStack ds (SingleStackLabel s) of
         Inl err \<Rightarrow> gret no_plan
       | Inr None \<Rightarrow> gplan (create_new env source m) (forma_Resources s)
       | Inr (Some f) \<Rightarrow> gplan (patch_resource env mode source m all (forma_Resources f @ ?unmanaged)) (forma_Resources s))"
    by (intro loaded_safe [OF assms(2)] gsafe_gret)
qed

lemma reconcile_safe:
  assumes "range_order (ge_ord env)" "stored_targets ds m" "\<forall>q \<in> set (forma_Resources forma). has_target m q"
  shows "gsafe not_nil (generateResourceUpdatesForReconcile env forma mode source m ds)"
    "gsafe not_nil (generateResourceUpdatesForPatch env forma mode source m ds)"
proof -
  have stacks: "gsafe not_nil (gbind (gsum (\<lambda>_. LoadStacksFailed) (rl_LoadAllStacks ds)) f)"
    if "\<And>all. rl_LoadAllStacks ds = Inr all \<Longrightarrow> gsafe not_nil (f all)" for f :: "Forma list \<Rightarrow> ResourceUpdate list gen"
    using that by (intro gsafe_gbind gsafe_gsum gpost_gsum) simp
  have dependencies: "gsafe not_nil (findDependencyUpdates env dels all m source)" if "rl_LoadAllStacks ds = Inr all" for dels all
    using that assms(2) by (intro dependency_safe) (auto simp: stored_targets_def)
  note conversion = conversion_safe [OF assms(3)]
  show "gsafe not_nil (generateResourceUpdatesForReconcile env forma mode source m ds)"
    unfolding generateResourceUpdatesForReconcile_def Let_def
    by (intro stacks gsafe_gbind_all reconcile_plan_safe assms dependencies conversion)
  show "gsafe not_nil (generateResourceUpdatesForPatch env forma mode source m ds)"
    unfolding generateResourceUpdatesForPatch_def
    by (intro stacks gsafe_gbind_all patch_plan_safe assms dependencies conversion)
qed

lemma check_targets_safe: "gsafe not_nil (check_targets m ts)"
  unfolding check_targets_def by (auto intro!: safe_intros split: option.split)

lemma apply_safe:
  assumes "range_order (ge_ord env)" "stored_targets ds m" "\<forall>q \<in> set (forma_Resources forma). has_target m q"
  shows "gsafe not_nil (generateResourceUpdatesForApply env forma mode source m ds)"
  unfolding generateResourceUpdatesForApply_def
  by (intro gsafe_gbind_all check_targets_safe) (cases mode; simp add: reconcile_safe [OF assms] gsafe_gerr)

lemma validate_safe: "gsafe not_nil (validateStackReferences env forma ds)"
  unfolding validateStackReferences_def Let_def by (auto intro!: safe_intros split: sum.split option.split)

lemma check_target_references_safe: "gsafe not_nil (check_target_references m rs)"
  unfolding check_target_references_def by (auto intro!: safe_intros split: option.split)

lemma check_target_references_post:
  "gpost (check_target_references m rs) (\<lambda>_. \<forall>r \<in> set rs. has_target m r)"
  by (auto simp: check_target_references_def has_target_def find_None_iff intro!: gen_intros split: option.split)

section \<open>Well-formed updates\<close>

text \<open>The operations that the updates of a command can have.\<close>

definition command_operations :: "Command \<Rightarrow> OperationType set" where
  "command_operations command = (case command of
     CommandApply \<Rightarrow> {OperationCreate, OperationUpdate, OperationDelete}
   | CommandDestroy \<Rightarrow> {OperationDelete}
   | CommandSync \<Rightarrow> {OperationRead}
   | _ \<Rightarrow> {})"

definition well_formed :: "FormaCommandSource \<Rightarrow> Command \<Rightarrow> ResourceUpdate list \<Rightarrow> bool" where
  "well_formed source command us \<longleftrightarrow>
     (\<forall>u \<in> set us. fresh_update source u \<and> ru_Operation u \<in> command_operations command)"

lemma gpost_gbind_all: "(\<And>x. gpost (f x) Q) \<Longrightarrow> gpost (gbind m f) Q"
  unfolding gpost_def gbind_Inr by blast

lemma well_formed_gmap:
  assumes "\<And>x. x \<in> set xs \<Longrightarrow> gpost (f x) (\<lambda>u. fresh_update source u \<and> ru_Operation u \<in> command_operations command)"
  shows "gpost (gmap f xs) (well_formed source command)"
proof (rule gpost_gmap [OF assms])
  fix ys assume "list_all2 (\<lambda>x u. fresh_update source u \<and> ru_Operation u \<in> command_operations command) xs ys"
  then show "well_formed source command ys" by (induction rule: list_all2_induct) (auto simp: well_formed_def)
qed

lemma well_formed_gconcat:
  assumes "\<And>x. x \<in> set xs \<Longrightarrow> gpost (f x) (well_formed source command)"
  shows "gpost (gconcat f xs) (well_formed source command)"
proof (rule gpost_gconcat [OF assms])
  fix yss assume "list_all2 (\<lambda>x. well_formed source command) xs yss"
  then show "well_formed source command (concat yss)"
    by (induction rule: list_all2_induct) (auto simp: well_formed_def)
qed

lemma well_formed_Nil: "gpost (gret []) (well_formed source command)"
  by (simp add: gpost_gret well_formed_def)

lemma implements_well_formed:
  assumes "implements env source all C D M us"
  shows "well_formed source CommandApply us"
proof -
  have "ru_Operation u \<in> command_operations CommandApply" if "justified env source all C D M us u" for u
    using that unfolding justified_def in_pair_def replaces_def
    by (auto simp: creates_def deletes_def updates_in_place_def command_operations_def)
  with assms show ?thesis unfolding implements_def well_formed_def by blast
qed

lemma apply_well_formed:
  assumes "range_order (ge_ord env)"
  shows "gpost (generateResourceUpdatesForApply env forma mode source m ds) (well_formed source CommandApply)"
proof -
  have "well_formed source CommandApply us"
    if g: "generateResourceUpdatesForReconcile env forma mode source m ds n = Inr (us, n')" for us n n'
  proof -
    obtain all where "rl_LoadAllStacks ds = Inr all"
      using g by (auto simp: generateResourceUpdatesForReconcile_def gbind_Inr)
    from implements_well_formed [OF reconcile_merged [OF assms this g]] show ?thesis .
  qed
  moreover have "well_formed source CommandApply us"
    if g: "generateResourceUpdatesForPatch env forma mode source m ds n = Inr (us, n')" for us n n'
  proof -
    obtain all where "rl_LoadAllStacks ds = Inr all"
      using g by (auto simp: generateResourceUpdatesForPatch_def gbind_Inr)
    from implements_well_formed [OF patch_merged [OF assms this g]] show ?thesis .
  qed
  ultimately have "gpost (generateResourceUpdatesForReconcile env forma mode source m ds) (well_formed source CommandApply)"
    "gpost (generateResourceUpdatesForPatch env forma mode source m ds) (well_formed source CommandApply)"
    unfolding gpost_def by blast+
  then show ?thesis
    unfolding generateResourceUpdatesForApply_def
    by (intro gpost_gbind_all) (cases mode; simp add: gpost_gerr)
qed

lemma destroy_well_formed:
  "gpost (generateResourceUpdatesForDestroy env forma source m ds) (well_formed source CommandDestroy)"
  unfolding generateResourceUpdatesForDestroy_def
  by (auto intro!: well_formed_gconcat well_formed_gmap well_formed_Nil gpost_gbind gpost_deref Destroy_post
      simp: deletes_def command_operations_def split: sum.split option.split)

lemma sync_well_formed:
  "gpost (generateResourceUpdatesForSync env forma source m ds filters) (well_formed source CommandSync)"
  unfolding generateResourceUpdatesForSync_def discovery_updates_def NewResourceUpdateForSync_def
  by (auto intro!: well_formed_gconcat well_formed_gmap well_formed_Nil gpost_gbind gpost_deref gpost_gopt Sync_post
      simp: command_operations_def split: sum.split)

section \<open>Identifiers\<close>

definition is_fresh :: "(TripletKey \<times> string) list \<Rightarrow> Resource \<Rightarrow> bool" where
  "is_fresh m q \<longleftrightarrow> needs_ksuid q \<and> map_of m (triplet_of q) = None"

definition gets_id :: "(TripletKey \<times> string) list \<Rightarrow> Resource \<Rightarrow> Resource \<Rightarrow> bool" where
  "gets_id m q q' \<longleftrightarrow> q' = q\<lparr>res_Ksuid := res_Ksuid q'\<rparr> \<and> (\<not> needs_ksuid q \<longrightarrow> res_Ksuid q' = res_Ksuid q) \<and>
     (needs_ksuid q \<longrightarrow> (\<forall>k. map_of m (triplet_of q) = Some k \<longrightarrow> res_Ksuid q' = k))"

definition stored_ids :: "ResourceDataLookup \<Rightarrow> Resource list \<Rightarrow> (TripletKey \<times> string) list" where
  "stored_ids ds rs = (case rl_BatchGetKSUIDsByTriplets ds (map triplet_of (filter needs_ksuid rs)) of
     Inl err \<Rightarrow> [] | Inr m \<Rightarrow> m)"

definition with_id :: "gen_env \<Rightarrow> (TripletKey \<times> string) list \<Rightarrow> Resource \<Rightarrow> Resource gen" where
  "with_id env m r = (if is_fresh m r then gbind (NewID env) (\<lambda>ksuid. gret (r\<lparr>res_Ksuid := ksuid\<rparr>))
     else if needs_ksuid r then gret (r\<lparr>res_Ksuid := the (map_of m (triplet_of r))\<rparr>) else gret r)"

lemma with_id_Inr:
  "with_id env m r n = Inr (r', n') \<longleftrightarrow>
    (if is_fresh m r then r' = r\<lparr>res_Ksuid := ge_NewID env n\<rparr> \<and> n' = Suc n
     else r' = (if needs_ksuid r then r\<lparr>res_Ksuid := the (map_of m (triplet_of r))\<rparr> else r) \<and> n' = n)"
  by (auto simp: with_id_def gbind_Inr)

lemma with_ids:
  "gmap (with_id env m) rs n = Inr (rs', n') \<Longrightarrow> n \<le> n' \<and> list_all2 (gets_id m) rs rs' \<and>
    map (\<lambda>(q, q'). res_Ksuid q') (filter (\<lambda>(q, q'). is_fresh m q) (zip rs rs')) = map (ge_NewID env) [n..<n']"
proof (induction rs arbitrary: n rs')
  case (Cons r rs)
  then obtain r' n1 rs1 where step: "with_id env m r n = Inr (r', n1)" "gmap (with_id env m) rs n1 = Inr (rs1, n')" "rs' = r' # rs1"
    by (auto simp: gbind_Inr)
  note IH = Cons.IH [OF step(2)]
  have "gets_id m r r'"
    using step(1) by (auto simp: with_id_Inr gets_id_def is_fresh_def split: if_splits)
  then show ?case
    using step(1) IH by (auto simp: step(3) with_id_Inr upt_conv_Cons split: if_splits)
qed simp

lemma with_ids_given: "filter needs_ksuid rs = [] \<Longrightarrow> gmap (with_id env m) rs = gret rs"
  by (induction rs) (auto simp: with_id_def is_fresh_def gbind_def gret_def fun_eq_iff split: if_splits)

lemma assignKSUIDs_with_id:
  "\<exists>base. assignKSUIDs env rs ds = gbind (gmap (with_id env (stored_ids ds rs)) rs) (\<lambda>rs'. gret (rs', labels_of rs' base))"
proof (cases "filter needs_ksuid rs = []")
  case True
  have "assignKSUIDs env rs ds = gret (rs, labels_of rs [])"
    using True by (simp add: assignKSUIDs_def)
  then show ?thesis
    using with_ids_given [OF True] by (intro exI [of _ "[]"]) (simp add: gbind_def gret_def)
next
  case False
  then have needs: "length (map triplet_of (filter needs_ksuid rs)) \<noteq> 0" by simp
  show ?thesis
  proof (cases "rl_BatchGetKSUIDsByTriplets ds (map triplet_of (filter needs_ksuid rs))")
    case (Inl err)
    have "(\<lambda>r. if needs_ksuid r then gbind (NewID env) (\<lambda>ksuid. gret (r\<lparr>res_Ksuid := ksuid\<rparr>)) else gret r) = with_id env []"
      by (auto simp: with_id_def is_fresh_def fun_eq_iff)
    then show ?thesis
      using Inl by (intro exI [of _ "[]"]) (simp only: assignKSUIDs_def stored_ids_def Let_def needs if_False sum.case)
  next
    case (Inr m)
    have "(\<lambda>r. if needs_ksuid r then (case map_of m (triplet_of r) of
          Some existingKSUID \<Rightarrow> gret (r\<lparr>res_Ksuid := existingKSUID\<rparr>)
        | None \<Rightarrow> gbind (NewID env) (\<lambda>ksuid. gret (r\<lparr>res_Ksuid := ksuid\<rparr>))) else gret r) = with_id env m"
      by (auto simp: with_id_def is_fresh_def fun_eq_iff split: option.split)
    then show ?thesis
      using Inr by (intro exI [of _ "fold (\<lambda>(tripletKey, ksuid) m. AList.update ksuid (tk_Label tripletKey) m) m []"])
        (simp only: assignKSUIDs_def stored_ids_def Let_def needs if_False sum.case)
  qed
qed

lemma labels_of_id:
  "r \<in> set rs \<Longrightarrow> res_Ksuid r \<noteq> '''' \<Longrightarrow>
    \<exists>p \<in> set rs. res_Ksuid p = res_Ksuid r \<and> map_of (labels_of rs base) (res_Ksuid r) = Some (res_Label p)"
proof (induction rs rule: rev_induct)
  case (snoc p rs)
  show ?case
  proof (cases "res_Ksuid p = res_Ksuid r")
    case True
    then show ?thesis using snoc.prems by (auto simp: labels_of_def update_conv')
  next
    case False
    then have "r \<in> set rs" using snoc.prems by auto
    with snoc.IH snoc.prems(2) False show ?thesis by (auto simp: labels_of_def update_conv')
  qed
qed simp

lemma assignKSUIDs_with_ids:
  assumes "assignKSUIDs env rs ds n = Inr ((rs', labels), n')"
  shows "gmap (with_id env (stored_ids ds rs)) rs n = Inr (rs', n') \<and> (\<exists>base. labels = labels_of rs' base)"
proof -
  obtain base where "assignKSUIDs env rs ds =
      gbind (gmap (with_id env (stored_ids ds rs)) rs) (\<lambda>rs'. gret (rs', labels_of rs' base))"
    using assignKSUIDs_with_id by blast
  then show ?thesis using assms by (auto simp: gbind_Inr)
qed

text \<open>C19: Identifiers are stable. A resource keeps the id it has, a resource without one gets the id stored
  for its stack, label and type, and the resources that are new get the next fresh ids, one each. Every
  id that is handed out can be translated back to a label.\<close>

theorem assignKSUIDs_stable:
  assumes "assignKSUIDs env rs ds n = Inr ((rs', labels), n')"
  shows "list_all2 (gets_id (stored_ids ds rs)) rs rs' \<and>
    map (\<lambda>(q, q'). res_Ksuid q') (filter (\<lambda>(q, q'). is_fresh (stored_ids ds rs) q) (zip rs rs')) = map (ge_NewID env) [n..<n'] \<and>
    (\<forall>q \<in> set rs'. res_Ksuid q \<noteq> '''' \<longrightarrow>
      (\<exists>p \<in> set rs'. res_Ksuid p = res_Ksuid q \<and> map_of labels (res_Ksuid q) = Some (res_Label p)))"
  using assignKSUIDs_with_ids [OF assms] with_ids labels_of_id by blast

theorem assignKSUIDs_stable_witness:
  "\<exists>rs' labels. assignKSUIDs sample_gen [stored ''s'' ''a'' '''' (JObj []), stored ''s'' ''b'' ''k2'' (JObj []), stored ''s'' ''c'' '''' (JObj [])]
     (sample_lookup\<lparr>rl_BatchGetKSUIDsByTriplets := (\<lambda>ts. Inr [(\<lparr>tk_Stack = ''s'', tk_Label = ''a'', tk_Type = ''T''\<rparr>, ''k1'')])\<rparr>) 0 =
       Inr ((rs', labels), 1) \<and> map res_Ksuid rs' = [''k1'', ''k2'', ''i''] \<and>
     list_all (\<lambda>q. \<exists>p \<in> set rs'. res_Ksuid p = res_Ksuid q \<and> map_of labels (res_Ksuid q) = Some (res_Label p)) rs'"
proof -
  let ?rs = "[stored ''s'' ''a'' '''' (JObj []), stored ''s'' ''b'' ''k2'' (JObj []), stored ''s'' ''c'' '''' (JObj [])]"
  let ?ds = "sample_lookup\<lparr>rl_BatchGetKSUIDsByTriplets := (\<lambda>ts. Inr [(\<lparr>tk_Stack = ''s'', tk_Label = ''a'', tk_Type = ''T''\<rparr>, ''k1'')])\<rparr>"
  have "(case assignKSUIDs sample_gen ?rs ?ds 0 of Inl e \<Rightarrow> None | Inr ((rs', labels), n) \<Rightarrow> Some (map res_Ksuid rs', n)) =
      Some ([''k1'', ''k2'', ''i''], 1)"
    by code_simp
  then obtain rs' labels where r: "assignKSUIDs sample_gen ?rs ?ds 0 = Inr ((rs', labels), 1)"
    "map res_Ksuid rs' = [''k1'', ''k2'', ''i'']"
    by (auto split: sum.splits prod.splits)
  have ids: "\<forall>q \<in> set rs'. res_Ksuid q \<noteq> ''''"
  proof
    fix q assume "q \<in> set rs'"
    then have "res_Ksuid q \<in> set (map res_Ksuid rs')" by simp
    then show "res_Ksuid q \<noteq> ''''" unfolding r(2) by auto
  qed
  have "\<forall>q \<in> set rs'. \<exists>p \<in> set rs'. res_Ksuid p = res_Ksuid q \<and> map_of labels (res_Ksuid q) = Some (res_Label p)"
    using assignKSUIDs_stable [OF r(1), THEN conjunct2, THEN conjunct2] ids by metis
  with r show ?thesis unfolding list_all_iff by (intro exI conjI)
qed

section \<open>Translation keeps the resources\<close>

definition same_names :: "Resource list \<Rightarrow> Resource list \<Rightarrow> bool" where
  "same_names = list_all2 (\<lambda>q q'. triplet_of q' = triplet_of q)"

lemma assignKSUIDs_names: "gpost (assignKSUIDs env rs ds) (\<lambda>(rs', labels). same_names rs rs')"
proof -
  have "same_names rs rs'" if "list_all2 (gets_id m) rs rs'" for rs' m
    using that unfolding same_names_def
    by (rule list_all2_mono) (auto simp: gets_id_def triplet_of_def dest: arg_cong [of _ _ res_Stack] arg_cong [of _ _ res_Label] arg_cong [of _ _ res_Type])
  then show ?thesis
    unfolding gpost_def using assignKSUIDs_with_ids with_ids by blast
qed

lemma same_names_trans: "same_names a b \<Longrightarrow> same_names b c \<Longrightarrow> same_names a c"
  unfolding same_names_def by (rule list_all2_trans) auto

lemma translate_names:
  "gpost (translateFormaeReferencesToKsuid env forma ds)
    (\<lambda>(f, l). same_names (forma_Resources forma) (forma_Resources f))"
proof -
  have part: "gpost (gbind (translate_part env m ds (res_Label q) (res_Properties q)) (\<lambda>(props, l1).
      gbind (translate_part env m ds (res_Label q) (res_ReadOnlyProperties q)) (\<lambda>(ro, l2).
        gret (q\<lparr>res_Properties := props, res_ReadOnlyProperties := ro\<rparr>, copy_labels l1 l2))))
      (\<lambda>x. triplet_of (fst x) = triplet_of q)" for m q
    by (auto simp: gpost_def gbind_Inr triplet_of_def split: prod.splits)
  have names: "same_names rs (map fst ys)" if "list_all2 (\<lambda>q x. triplet_of (fst x) = triplet_of q) rs ys" for rs ys
    using that by (simp add: same_names_def list_all2_map2)
  show ?thesis
    unfolding translateFormaeReferencesToKsuid_def Let_def
    by (intro gpost_gbind gpost_mono [OF assignKSUIDs_names], clarify, intro gpost_gbind gpost_gmap [OF part] gpost_gret)
      (auto intro: same_names_trans names)
qed

section \<open>Generation\<close>

lemma target_map_known:
  assumes "t \<in> set existingTargets"
  shows "map_of (target_map existingTargets formaTargets) (tgt_Label t) \<noteq> None"
proof -
  have keep: "map_of m l \<noteq> None \<Longrightarrow> map_of (fold (\<lambda>t m. if map_of m (tgt_Label t) = None
      then AList.update (tgt_Label t) t m else m) ts m) l \<noteq> None" for ts m l
    by (induction ts arbitrary: m) (auto simp: update_conv')
  have "map_of (fold (\<lambda>t m. AList.update (tgt_Label t) t m) ts m) l \<noteq> None"
    if "l \<in> tgt_Label ` set ts \<or> map_of m l \<noteq> None" for ts m l
    using that by (induction ts arbitrary: m) (auto simp: update_conv')
  then show ?thesis
    unfolding target_map_def using assms by (intro keep) blast
qed

definition known_targets :: "ResourceDataLookup \<Rightarrow> Target list \<Rightarrow> bool" where
  "known_targets ds ts \<longleftrightarrow>
     (\<forall>l f. rl_LoadStack ds l = Inr (Some f) \<longrightarrow> res_Target ` set (forma_Resources f) \<subseteq> tgt_Label ` set ts) \<and>
     (\<forall>all. rl_LoadAllStacks ds = Inr all \<longrightarrow> (\<forall>st \<in> set all. res_Target ` set (forma_Resources st) \<subseteq> tgt_Label ` set ts))"

lemma known_stored: "known_targets ds ts \<Longrightarrow> stored_targets ds (target_map ts fts)"
proof -
  assume known: "known_targets ds ts"
  have "has_target (target_map ts fts) r" if r: "res_Target r \<in> tgt_Label ` set ts" for r
  proof -
    obtain t where "t \<in> set ts" "res_Target r = tgt_Label t" using r by blast
    with target_map_known [of t ts fts] show ?thesis by (simp add: has_target_def)
  qed
  with known show ?thesis unfolding known_targets_def stored_targets_def by blast
qed

lemma same_names_stack:
  "same_names rs rs' \<Longrightarrow> q' \<in> set rs' \<Longrightarrow> \<exists>q \<in> set rs. res_Stack q = res_Stack q'"
  unfolding same_names_def triplet_of_def by (induction rule: list_all2_induct) auto

lemma generation_safe:
  assumes "range_order (ge_ord env)" "known_targets ds existingTargets"
    "command = CommandSync \<and> source \<noteq> FormaCommandSourceDiscovery \<Longrightarrow>
      \<forall>q \<in> set (forma_Resources forma). rl_LoadStack ds (res_Stack q) \<noteq> Inr None"
  shows "gsafe not_nil (GenerateResourceUpdates env forma command mode source existingTargets ds filters)"
proof -
  let ?m = "\<lambda>f. target_map existingTargets (forma_Targets f)"
  have translated: "gpost (if b then translateFormaeReferencesToKsuid env forma ds else gret (forma, []))
      (\<lambda>(f, l). same_names (forma_Resources forma) (forma_Resources f))" for b
    using translate_names by (auto simp: gpost_gret same_names_def list_all2_refl)
  have translate: "gsafe not_nil (if b then translateFormaeReferencesToKsuid env forma ds else gret (forma, []))" for b
    by (auto simp: translateFormaeReferencesToKsuid_def translate_part_def assignKSUIDs_def Let_def
        intro!: safe_intros split: sum.split option.split prod.split)
  have body: "gsafe not_nil (case command of
        CommandDestroy \<Rightarrow> generateResourceUpdatesForDestroy env f source (?m f) ds
      | CommandApply \<Rightarrow> generateResourceUpdatesForApply env f mode source (?m f) ds
      | CommandSync \<Rightarrow> generateResourceUpdatesForSync env f source (?m f) ds filters
      | _ \<Rightarrow> gerr (UnsupportedCommand command))"
    if f: "same_names (forma_Resources forma) (forma_Resources f)" "\<forall>q \<in> set (forma_Resources f). has_target (?m f) q" for f
  proof -
    note st = known_stored [OF assms(2)]
    have "source = FormaCommandSourceDiscovery \<or> (\<forall>q \<in> set (forma_Resources f). rl_LoadStack ds (res_Stack q) \<noteq> Inr None)"
      if "command = CommandSync"
      using assms(3) that same_names_stack [OF f(1)] by metis
    then show ?thesis
      using destroy_safe [OF st] apply_safe [OF assms(1) st f(2)] sync_safe [OF st assms(1) f(2)]
      by (cases command) (simp_all add: gsafe_gerr)
  qed
  have rest: "gsafe not_nil (gbind (check_target_references (?m f) (forma_Resources f)) (\<lambda>_.
      gbind (case command of
        CommandDestroy \<Rightarrow> generateResourceUpdatesForDestroy env f source (?m f) ds
      | CommandApply \<Rightarrow> generateResourceUpdatesForApply env f mode source (?m f) ds
      | CommandSync \<Rightarrow> generateResourceUpdatesForSync env f source (?m f) ds filters
      | _ \<Rightarrow> gerr (UnsupportedCommand command)) g))"
    if "same_names (forma_Resources forma) (forma_Resources f)" "\<And>us. gsafe not_nil (g us)"
    for f and g :: "ResourceUpdate list \<Rightarrow> ResourceUpdate list gen"
    by (intro gsafe_gbind [OF check_target_references_safe] gpost_mono [OF check_target_references_post]
        gsafe_gbind_all body that)
  show ?thesis
    unfolding GenerateResourceUpdates_def Let_def
    by (rule gsafe_gbind [OF translate], rule gpost_mono [OF translated])
      (auto intro!: gsafe_gbind_all rest gsafe_gret validate_safe)
qed

text \<open>C38: Generating the updates of a command dereferences no nil pointer. When every stored resource has
  a stored target and a synchronisation names stored stacks only, no target and no stack that the code
  takes from a map or a lookup without looking is missing, so that the generator answers with updates or
  with one of its own errors.\<close>

theorem generation_no_nil:
  assumes "range_order (ge_ord env)" "known_targets ds existingTargets"
    "command = CommandSync \<and> source \<noteq> FormaCommandSourceDiscovery \<Longrightarrow>
      \<forall>q \<in> set (forma_Resources forma). rl_LoadStack ds (res_Stack q) \<noteq> Inr None"
    "GenerateResourceUpdates env forma command mode source existingTargets ds filters n = Inl e"
  shows "e \<noteq> NilTarget l \<and> e \<noteq> NilStack l"
  using gsafeD [OF generation_safe [OF assms(1-3)] assms(4)] by (simp add: not_nil_def)

theorem generation_no_nil_witness:
  "GenerateResourceUpdates sample_gen (sample_forma\<lparr>forma_Resources := [(stored ''s'' ''b'' '''' (JObj []))\<lparr>res_Target := ''x''\<rparr>]\<rparr>)
     CommandSync FormaApplyModeReconcile FormaCommandSourceSynchronize
     (map snd sample_targets) sample_lookup None 0 = Inl (TargetReferenceNotFound ''x'') \<and>
   (\<forall>l. TargetReferenceNotFound ''x'' \<noteq> NilTarget l \<and> TargetReferenceNotFound ''x'' \<noteq> NilStack l)"
proof -
  let ?f = "sample_forma\<lparr>forma_Resources := [(stored ''s'' ''b'' '''' (JObj []))\<lparr>res_Target := ''x''\<rparr>]\<rparr>"
  have e: "GenerateResourceUpdates sample_gen ?f CommandSync FormaApplyModeReconcile FormaCommandSourceSynchronize
     (map snd sample_targets) sample_lookup None 0 = Inl (TargetReferenceNotFound ''x'')"
  proof -
    have "case GenerateResourceUpdates sample_gen ?f CommandSync FormaApplyModeReconcile FormaCommandSourceSynchronize
      (map snd sample_targets) sample_lookup None 0 of Inl e \<Rightarrow> e = TargetReferenceNotFound ''x'' | Inr r \<Rightarrow> False"
      by code_simp
    then show ?thesis by (simp split: sum.splits)
  qed
  have "known_targets sample_lookup (map snd sample_targets)"
    by (auto simp: known_targets_def sample_lookup_def sample_stacks_def sample_targets_def stored_def split: if_splits)
  moreover have "\<forall>q \<in> set (forma_Resources ?f). rl_LoadStack sample_lookup (res_Stack q) \<noteq> Inr None"
    by (simp add: sample_lookup_def sample_stacks_def stored_def)
  ultimately show ?thesis
    using generation_no_nil [OF sample_gen_order _ _ e] e by blast
qed

lemma generation_posts:
  assumes "range_order (ge_ord env)"
  shows "gpost (GenerateResourceUpdates env forma command mode source existingTargets ds filters)
    (\<lambda>us. command \<in> {CommandApply, CommandDestroy, CommandSync} \<and> well_formed source command us)"
proof -
  have labels: "well_formed source command (if b then map (\<lambda>u. u\<lparr>ru_ReferenceLabels := l\<rparr>) us else us)"
    if "well_formed source command us" for b l us
    using that by (auto simp: well_formed_def fresh_update_def)
  have "gpost (case command of
        CommandDestroy \<Rightarrow> generateResourceUpdatesForDestroy env f source m ds
      | CommandApply \<Rightarrow> generateResourceUpdatesForApply env f mode source m ds
      | CommandSync \<Rightarrow> generateResourceUpdatesForSync env f source m ds filters
      | _ \<Rightarrow> gerr (UnsupportedCommand command))
      (\<lambda>us. command \<in> {CommandApply, CommandDestroy, CommandSync} \<and> well_formed source command us)" for f m
    using destroy_well_formed apply_well_formed [OF assms] sync_well_formed
    by (cases command) (auto simp: gpost_gerr)
  note body = this
  have tail: "gpost (gbind g (\<lambda>us. gret (if b then map (\<lambda>u. u\<lparr>ru_ReferenceLabels := l\<rparr>) us else us)))
      (\<lambda>us. command \<in> {CommandApply, CommandDestroy, CommandSync} \<and> well_formed source command us)"
    if "gpost g (\<lambda>us. command \<in> {CommandApply, CommandDestroy, CommandSync} \<and> well_formed source command us)" for g b l
    by (rule gpost_gbind, rule gpost_mono [OF that], rule gpost_gret) (use labels in blast)
  show ?thesis
    unfolding GenerateResourceUpdates_def Let_def split_beta
    by (rule gpost_gbind_all, rule gpost_gbind_all, rule gpost_gbind_all, rule tail, rule body)
qed

text \<open>C39: What the generator returns is well formed: a command that it accepts is an apply, a destroy or a
  synchronisation, and every update has not started, carries the source of the command and the stack of
  its resource, and has an operation that belongs to the command. No update is a replacement: those are
  returned as two updates.\<close>

theorem generation_well_formed:
  assumes "range_order (ge_ord env)"
    "GenerateResourceUpdates env forma command mode source existingTargets ds filters n = Inr (us, n')"
  shows "command \<in> {CommandApply, CommandDestroy, CommandSync} \<and> well_formed source command us"
  using gpostD [OF generation_posts [OF assms(1)] assms(2)] .

theorem generation_well_formed_witness:
  "\<exists>us n. GenerateResourceUpdates sample_gen sample_forma CommandApply FormaApplyModeReconcile FormaCommandSourceUser
     (map snd sample_targets) sample_lookup None 0 = Inr (us, n) \<and>
   map (\<lambda>u. (ru_Operation u, res_Label (ru_Resource u))) us =
     [(OperationCreate, ''b''), (OperationDelete, ''a''), (OperationDelete, ''c'')] \<and>
   well_formed FormaCommandSourceUser CommandApply us"
proof -
  have "outline (GenerateResourceUpdates sample_gen sample_forma CommandApply FormaApplyModeReconcile FormaCommandSourceUser
     (map snd sample_targets) sample_lookup None 0) =
       Some [(OperationCreate, ''b''), (OperationDelete, ''a''), (OperationDelete, ''c'')]"
    by code_simp
  from outline_Some [OF this] obtain us n where g: "GenerateResourceUpdates sample_gen sample_forma CommandApply
      FormaApplyModeReconcile FormaCommandSourceUser (map snd sample_targets) sample_lookup None 0 = Inr (us, n)"
    "map (\<lambda>u. (ru_Operation u, res_Label (ru_Resource u))) us =
      [(OperationCreate, ''b''), (OperationDelete, ''a''), (OperationDelete, ''c'')]"
    by (elim exE conjE)
  with generation_well_formed [OF sample_gen_order g(1)] show ?thesis by (intro exI conjI) simp_all
qed

end
