(* ===== verification/Update_Generator_Datastore.thy ===== *)
theory Update_Generator_Datastore
  imports Update_Generator_Safety
begin

text \<open>
  The generator on the datastore. The interface \<^verbatim>\<open>ResourceDataLookup\<close> is a locale of the
  laws that the generator relies on, and the datastore keeps them. Over stored resources the plans read
  without the lookup functions.
\<close>

section \<open>The laws of the interface\<close>

definition all_stored :: "ResourceDataLookup \<Rightarrow> Resource set" where
  "all_stored ds = {r. \<exists>l f. rl_LoadStack ds l = Inr (Some f) \<and> r \<in> set (forma_Resources f)}"

locale resource_lookup =
  fixes ok :: "ResourceDataLookup \<Rightarrow> bool"
  assumes loads: "ok ds \<Longrightarrow> \<exists>f. rl_LoadStack ds l = Inr f"
    and loads_all: "ok ds \<Longrightarrow> \<exists>all. rl_LoadAllStacks ds = Inr all"
    and stack_label: "ok ds \<Longrightarrow> rl_LoadStack ds l = Inr (Some f) \<Longrightarrow> r \<in> set (forma_Resources f) \<Longrightarrow> res_Stack r = l"
    and stack_listed: "ok ds \<Longrightarrow> rl_LoadAllStacks ds = Inr all \<Longrightarrow> rl_LoadStack ds l = Inr (Some f) \<Longrightarrow> l \<noteq> '''' \<Longrightarrow>
      \<exists>st \<in> set all. forma_Resources st = forma_Resources f"
    and listed_stack: "ok ds \<Longrightarrow> rl_LoadAllStacks ds = Inr all \<Longrightarrow> st \<in> set all \<Longrightarrow>
      \<exists>l f. rl_LoadStack ds l = Inr (Some f) \<and> forma_Resources st = forma_Resources f"
begin

lemma stored_in_stack:
  assumes "ok ds" "r \<in> all_stored ds"
  obtains f where "rl_LoadStack ds (res_Stack r) = Inr (Some f)" "r \<in> set (forma_Resources f)"
  using assms stack_label unfolding all_stored_def by auto

lemma destroy_stored:
  assumes "ok ds" "range_order (ge_ord env)" "generateResourceUpdatesForDestroy env forma source m ds n = Inr (us, n')"
  shows "(\<forall>u \<in> set us. deletes env source (ru_Resource u) u) \<and>
    ru_Resource ` set us = {r \<in> all_stored ds. \<exists>q \<in> set (forma_Resources forma). same_triplet q r}"
proof -
  have "r \<in> {r. \<exists>q \<in> set (forma_Resources forma). \<exists>f. rl_LoadStack ds (res_Stack q) = Inr (Some f) \<and>
      r \<in> set (forma_Resources f) \<and> res_Label q = res_Label r \<and> res_Type q = res_Type r} \<longleftrightarrow>
    r \<in> {r \<in> all_stored ds. \<exists>q \<in> set (forma_Resources forma). same_triplet q r}" for r
    using stack_label [OF assms(1)] unfolding all_stored_def same_triplet_def by fastforce
  then show ?thesis using destroy_triplets [OF assms(2,3)] by blast
qed

lemma stack_errors:
  assumes "ok ds"
  shows "gsafe (\<lambda>e. e \<noteq> LoadStackFailed l) (validateStackReferences env forma ds)"
  unfolding validateStackReferences_def Let_def
  using loads [OF assms] by (auto intro!: safe_intros split: sum.split option.split) (metis sum.distinct(1))+

text \<open>A stored resource is deleted when its stack is named and no resource of the forma stands for it.\<close>

lemma stored_iff: "ok ds \<Longrightarrow> r \<in> all_stored ds \<longleftrightarrow> (\<exists>f. rl_LoadStack ds (res_Stack r) = Inr (Some f) \<and> r \<in> set (forma_Resources f))"
  using stack_label unfolding all_stored_def by auto

lemma deletes_stored:
  assumes "ok ds"
  shows "reconcile_deletes forma ds = {r \<in> all_stored ds. (\<exists>q \<in> set (forma_Resources forma). res_Stack q = res_Stack r) \<and>
    (\<forall>q \<in> set (forma_Resources forma). res_Stack q = res_Stack r \<longrightarrow> \<not> is_known q r)}" (is "?A = ?B")
proof (rule set_eqI)
  fix r
  have same: "matches_existing q r \<longleftrightarrow> is_known q r" if "res_Stack q = res_Stack r" for q
    using that by (simp add: matches_existing_def is_known_def)
  have "r \<in> ?A \<longleftrightarrow> (\<exists>q \<in> set (forma_Resources forma). (\<exists>f. rl_LoadStack ds (res_Stack r) = Inr (Some f) \<and>
      r \<in> set (forma_Resources f)) \<and> res_Stack q = res_Stack r \<and>
      (\<forall>p \<in> set (forma_Resources forma). res_Stack p = res_Stack r \<longrightarrow> \<not> matches_existing p r))"
    unfolding reconcile_deletes_def mem_Collect_eq
  proof (rule bex_cong [OF refl])
    fix q
    show "(\<exists>f. rl_LoadStack ds (res_Stack q) = Inr (Some f) \<and> r \<in> set (forma_Resources f) \<and>
        (\<forall>p \<in> set (forma_Resources forma). res_Stack p = res_Stack q \<longrightarrow> \<not> matches_existing p r)) \<longleftrightarrow>
      (\<exists>f. rl_LoadStack ds (res_Stack r) = Inr (Some f) \<and> r \<in> set (forma_Resources f)) \<and> res_Stack q = res_Stack r \<and>
      (\<forall>p \<in> set (forma_Resources forma). res_Stack p = res_Stack r \<longrightarrow> \<not> matches_existing p r)"
    proof (cases "res_Stack q = res_Stack r")
      case False
      then have "\<not> (rl_LoadStack ds (res_Stack q) = Inr (Some f) \<and> r \<in> set (forma_Resources f))" for f
        using stack_label [OF assms, of "res_Stack q" f r] by auto
      with False show ?thesis by blast
    qed auto
  qed
  also have "\<dots> \<longleftrightarrow> r \<in> ?B"
    unfolding mem_Collect_eq stored_iff [OF assms] using same by blast
  finally show "r \<in> ?A \<longleftrightarrow> r \<in> ?B" .
qed

lemma dependents_listed:
  assumes "ok ds" "rl_LoadAllStacks ds = Inr all" "r \<in> all_stored ds" "res_Stack r \<noteq> ''''"
  shows "\<exists>st \<in> set all. r \<in> set (forma_Resources st)"
  using stored_in_stack [OF assms(1,3)] stack_listed [OF assms(1,2) _ assms(4)] by metis

end

section \<open>The datastore keeps the laws\<close>

lemma FormaFromResources_resources [simp]: "forma_Resources (FormaFromResources rs) = rs"
proof -
  have "forma_Resources (fold (\<lambda>res f. let f' = add_target res (add_stack res f)
      in f'\<lparr>forma_Resources := forma_Resources f' @ [res]\<rparr>) rs f) = forma_Resources f @ rs" for f
    by (induction rs arbitrary: f) (auto simp: Let_def add_target_def add_stack_def)
  then show ?thesis by (simp add: FormaFromResources_def zero_Forma_def)
qed

lemma stack_resources_map:
  "map_of (stack_resources rs) l =
    (if l \<noteq> '''' \<and> (\<exists>r \<in> set rs. res_Stack r = l) then Some (filter (\<lambda>r. res_Stack r = l) rs) else None)"
proof (induction rs rule: rev_induct)
  case (snoc r rs)
  then show ?case by (auto simp: stack_resources_def update_conv')
qed (simp add: stack_resources_def)

lemma load_rows_filter:
  "load_rows rows = Inr rs \<Longrightarrow> \<forall>row \<in> set rows. \<forall>r. load_row row = Inr r \<longrightarrow> res_Stack r = rr_stack row \<Longrightarrow>
    load_rows (filter (\<lambda>row. rr_stack row = l) rows) = Inr (filter (\<lambda>r. res_Stack r = l) rs)"
  by (induction rows arbitrary: rs) (auto split: sum.splits)

definition datastore_ok :: "ResourceDataLookup \<Rightarrow> bool" where
  "datastore_ok ds \<longleftrightarrow> (\<exists>ord d. range_order ord \<and> ds_ok d \<and> ds = datastore_lookup ord d)"

lemma live_loaded:
  assumes "ds_ok d"
  obtains rs where "load_rows (live_rows (ds_resources d)) = Inr rs"
    "list_all2 (\<lambda>row r. load_row row = Inr r) (live_rows (ds_resources d)) rs"
    "\<forall>row \<in> set (live_rows (ds_resources d)). \<forall>r. load_row row = Inr r \<longrightarrow> res_Stack r = rr_stack row \<and>
      res_Label r = rr_label row \<and> res_Type r = rr_type row"
proof -
  have ok: "row_ok row \<and> rr_operation row \<noteq> OperationDelete" if "row \<in> set (live_rows (ds_resources d))" for row
    using that ds_okD(2) [OF assms] by (auto simp: live_rows_def)
  then obtain rs where rs: "load_rows (live_rows (ds_resources d)) = Inr rs"
    "list_all2 (\<lambda>row r. load_row row = Inr r) (live_rows (ds_resources d)) rs"
    using load_rows_ok [of "live_rows (ds_resources d)"] by blast
  have "\<forall>row \<in> set (live_rows (ds_resources d)). \<forall>r. load_row row = Inr r \<longrightarrow> res_Stack r = rr_stack row \<and>
      res_Label r = rr_label row \<and> res_Type r = rr_type row"
    using row_ok_load ok by fastforce
  with rs show thesis by (rule that)
qed

lemma LoadStack_live:
  assumes "ds_ok d" "load_rows (live_rows (ds_resources d)) = Inr rs"
  shows "LoadStack d l = Inr (if filter (\<lambda>r. res_Stack r = l) rs = [] then None
    else Some (FormaFromResources (filter (\<lambda>r. res_Stack r = l) rs)))"
proof -
  have "\<forall>row \<in> set (live_rows (ds_resources d)). \<forall>r. load_row row = Inr r \<longrightarrow> res_Stack r = rr_stack row"
    by (rule live_loaded [OF assms(1)]) blast
  then have "load_rows (filter (\<lambda>row. rr_stack row = l) (live_rows (ds_resources d))) = Inr (filter (\<lambda>r. res_Stack r = l) rs)"
    using load_rows_filter assms(2) by blast
  then show ?thesis by (simp add: LoadStack_def Let_def)
qed

lemma LoadAllStacks_live:
  assumes "range_order ord" "load_rows (live_rows (ds_resources d)) = Inr rs"
  shows "\<exists>all. LoadAllStacks ord d = Inr all \<and> forma_Resources ` set all =
    (\<lambda>l. filter (\<lambda>r. res_Stack r = l) rs) ` {l. l \<noteq> '''' \<and> (\<exists>r \<in> set rs. res_Stack r = l)}"
proof -
  let ?m = "stack_resources rs"
  have keys: "fst ` set ?m = {l. l \<noteq> '''' \<and> (\<exists>r \<in> set rs. res_Stack r = l)}"
    unfolding dom_map_of_conv_image_fst [symmetric] by (auto simp: dom_def stack_resources_map)
  have "(\<lambda>k. the (map_of ?m k)) ` (fst ` set ?m) = (\<lambda>l. filter (\<lambda>r. res_Stack r = l) rs) ` (fst ` set ?m)"
    by (rule image_cong [OF refl]) (simp add: keys stack_resources_map)
  moreover have "filter (\<lambda>r. res_Stack r = l) rs \<noteq> []" if "l \<in> fst ` set ?m" for l
    using that by (auto simp: keys filter_empty_conv)
  ultimately show ?thesis
    using assms by (auto simp: LoadAllStacks_def Let_def range_orderD(2) [OF assms(1)] image_image keys [symmetric]) 
qed

lemma all_stored_datastore:
  assumes "ds_ok d" "load_rows (live_rows (ds_resources d)) = Inr rs"
  shows "all_stored (datastore_lookup ord d) = set rs"
  unfolding all_stored_def datastore_lookup_def
  by (auto simp: LoadStack_live [OF assms] split: if_splits) (metis (mono_tags, lifting) filter_empty_conv)

interpretation dsl: resource_lookup datastore_ok
proof
  fix ds l f r all st
  assume "datastore_ok ds"
  then obtain ord d where ds: "range_order ord" "ds_ok d" "ds = datastore_lookup ord d"
    unfolding datastore_ok_def by blast
  obtain rs where rs: "load_rows (live_rows (ds_resources d)) = Inr rs"
    by (rule live_loaded [OF ds(2)], rule that)
  note load = LoadStack_live [OF ds(2) rs]
  obtain all' where all': "LoadAllStacks ord d = Inr all'" "forma_Resources ` set all' =
      (\<lambda>l. filter (\<lambda>r. res_Stack r = l) rs) ` {l. l \<noteq> '''' \<and> (\<exists>r \<in> set rs. res_Stack r = l)}"
    using LoadAllStacks_live [OF ds(1) rs] by blast
  show "\<exists>f. rl_LoadStack ds l = Inr f" "\<exists>all. rl_LoadAllStacks ds = Inr all"
    using load all'(1) by (simp_all add: ds(3) datastore_lookup_def)
  show "res_Stack r = l" if "rl_LoadStack ds l = Inr (Some f)" "r \<in> set (forma_Resources f)"
    using that by (auto simp: ds(3) datastore_lookup_def load split: if_splits)
  show "\<exists>st \<in> set all. forma_Resources st = forma_Resources f"
    if "rl_LoadAllStacks ds = Inr all" "rl_LoadStack ds l = Inr (Some f)" "l \<noteq> ''''"
  proof -
    have f: "forma_Resources f = filter (\<lambda>r. res_Stack r = l) rs" "filter (\<lambda>r. res_Stack r = l) rs \<noteq> []" "all = all'"
      using that(1,2) all'(1) by (auto simp: ds(3) datastore_lookup_def load split: if_splits)
    then have "forma_Resources f \<in> forma_Resources ` set all'"
      unfolding all'(2) using that(3) by (auto simp: filter_empty_conv)
    then show ?thesis using f(3) by auto
  qed
  show "\<exists>l f. rl_LoadStack ds l = Inr (Some f) \<and> forma_Resources st = forma_Resources f"
    if "rl_LoadAllStacks ds = Inr all" "st \<in> set all"
  proof -
    have "forma_Resources st \<in> forma_Resources ` set all'"
      using that all'(1) by (simp add: ds(3) datastore_lookup_def)
    then obtain l where "forma_Resources st = filter (\<lambda>r. res_Stack r = l) rs" "\<exists>r \<in> set rs. res_Stack r = l"
      unfolding all'(2) by blast
    moreover from this have "rl_LoadStack ds l = Inr (Some (FormaFromResources (filter (\<lambda>r. res_Stack r = l) rs)))"
      by (simp add: ds(3) datastore_lookup_def load filter_empty_conv)
    ultimately show ?thesis by fastforce
  qed
qed

section \<open>Destroying on the datastore\<close>

text \<open>C18: Destroying a forma deletes exactly what is stored under its names: on a datastore that keeps its
  integrity, the updates of a destroy command are deletes of the live resources whose stack, label and
  type are those of a resource of the forma, each with its stored content, and every such resource is
  deleted.\<close>

theorem destroy_exact:
  assumes "ds_ok d" "range_order ord" "range_order (ge_ord env)"
    "generateResourceUpdatesForDestroy env forma source targetMap (datastore_lookup ord d) n = Inr (us, n')"
  shows "(\<forall>u \<in> set us. deletes env source (ru_Resource u) u) \<and>
    ru_Resource ` set us = {r. \<exists>row \<in> set (live_rows (ds_resources d)). load_row row = Inr r \<and>
      (\<exists>q \<in> set (forma_Resources forma). res_Stack q = rr_stack row \<and> res_Label q = rr_label row \<and> res_Type q = rr_type row)}"
proof -
  obtain rs where rs: "load_rows (live_rows (ds_resources d)) = Inr rs"
    "list_all2 (\<lambda>row r. load_row row = Inr r) (live_rows (ds_resources d)) rs"
    "\<forall>row \<in> set (live_rows (ds_resources d)). \<forall>r. load_row row = Inr r \<longrightarrow> res_Stack r = rr_stack row \<and>
      res_Label r = rr_label row \<and> res_Type r = rr_type row"
    by (rule live_loaded [OF assms(1)], rule that)
  have loaded: "r \<in> set rs \<longleftrightarrow> (\<exists>row \<in> set (live_rows (ds_resources d)). load_row row = Inr r)" for r
    using rs(2) by (induction rule: list_all2_induct) auto
  have "datastore_ok (datastore_lookup ord d)"
    using assms(1,2) unfolding datastore_ok_def by blast
  note destroyed = dsl.destroy_stored [OF this assms(3,4)]
  have eq: "{r \<in> set rs. \<exists>q \<in> set (forma_Resources forma). same_triplet q r} =
      {r. \<exists>row \<in> set (live_rows (ds_resources d)). load_row row = Inr r \<and>
      (\<exists>q \<in> set (forma_Resources forma). res_Stack q = rr_stack row \<and> res_Label q = rr_label row \<and> res_Type q = rr_type row)}"
    using rs(3) unfolding loaded same_triplet_def by (intro Collect_cong) metis
  show ?thesis by (rule destroyed [unfolded all_stored_datastore [OF assms(1) rs(1)] eq])
qed

theorem destroy_exact_witness:
  "\<exists>us n. generateResourceUpdatesForDestroy sample_gen (zero_Forma\<lparr>forma_Resources := [sample_r]\<rparr>) FormaCommandSourceUser
     [(res_Target sample_r, \<lparr>tgt_Label = res_Target sample_r, tgt_Namespace = ''NS'', tgt_Config = RawNil\<rparr>)]
     (datastore_lookup id sample_d1) 0 = Inr (us, n) \<and>
   map (\<lambda>u. (ru_Operation u, res_Label (ru_Resource u))) us = [(OperationDelete, res_Label sample_r)] \<and>
   ru_Resource ` set us \<subseteq> {r. \<exists>row \<in> set (live_rows (ds_resources sample_d1)). load_row row = Inr r}"
proof -
  let ?g = "generateResourceUpdatesForDestroy sample_gen (zero_Forma\<lparr>forma_Resources := [sample_r]\<rparr>) FormaCommandSourceUser
     [(res_Target sample_r, \<lparr>tgt_Label = res_Target sample_r, tgt_Namespace = ''NS'', tgt_Config = RawNil\<rparr>)]
     (datastore_lookup id sample_d1) 0"
  have "outline ?g = Some [(OperationDelete, res_Label sample_r)]" by code_simp
  from outline_Some [OF this] obtain us n where
    g: "?g = Inr (us, n)" "map (\<lambda>u. (ru_Operation u, res_Label (ru_Resource u))) us = [(OperationDelete, res_Label sample_r)]"
    by (elim exE conjE)
  have "ds_ok sample_d1" by (rule db.reach_inv [OF sample_d1_reach])
  note exact = conjunct2 [OF destroy_exact [OF this range_order_id sample_gen_order g(1)]]
  have "ru_Resource ` set us \<subseteq> {r. \<exists>row \<in> set (live_rows (ds_resources sample_d1)). load_row row = Inr r}"
    unfolding exact by (rule Collect_mono) auto
  then show ?thesis
    by (intro exI [of _ us] exI [of _ n] conjI g)
qed

end
