(* ===== verification/Metastructure.thy ===== *)
theory Metastructure
  imports Update_Generator_Datastore Changeset_Execution Forma_Command_Persister
begin

text \<open>
  \<^verbatim>\<open>internal/metastructure/metastructure.go\<close>: what the API server calls. A forma is turned
  into a command, checked against what is stored and what is running, stored, and handed to a new
  changeset executor. A submission is a function of the datastore and of the answers of the actors; it
  gives the new datastore, what has been sent, and the response or the error.
\<close>

section \<open>Environment, effects and errors\<close>

text \<open>
  How a call through the bridge actor ends: the request may not reach the actor, the answer may come
  after the thirty seconds the caller waits, or the answer is delivered. The calls of the supervisor, whose own
  errors count as not delivered, and the sends to the executor are functions of the identifier of the command.
\<close>

datatype call_outcome = Undelivered | TimedOut | Answered

record ms_env =
  me_gen :: gen_env
  me_ord :: range_orders
  me_mods :: "ResourceModification list \<Rightarrow> ResourceModification list"
  me_newID :: string
  me_now1 :: go_time
  me_now2 :: go_time
  me_store :: call_outcome
  me_ensure :: "string \<Rightarrow> call_outcome"
  me_start :: "string \<Rightarrow> bool"

text \<open>A started executor gets a changeset, \<open>None\<close> for the zero value, whose pipeline is nil.\<close>

datatype ms_effect = EnsuredExecutor string | StartedExecutor string "Changeset option"

text \<open>The configuration of a submission; the empty mode is \<open>None\<close>.\<close>

record SubmitConfig =
  sc_Mode :: "FormaApplyMode option"
  sc_Force :: bool
  sc_Simulate :: bool

section \<open>Commands for the API\<close>

record api_ResourceUpdate =
  au_ResourceID :: string
  au_ResourceType :: string
  au_ResourceLabel :: string
  au_StackName :: string
  au_OldStackName :: string
  au_Operation :: string
  au_PatchDocument :: raw
  au_State :: string
  au_Duration :: int
  au_CurrentAttempt :: int
  au_MaxAttempts :: int
  au_ErrorMessage :: string
  au_StatusMessage :: string
  au_Properties :: raw
  au_OldProperties :: raw
  au_GroupID :: string
  au_ReferenceLabels :: "(string \<times> string) list"

record api_Command =
  ac_CommandID :: string
  ac_Command :: string
  ac_State :: string
  ac_StartTs :: go_time
  ac_EndTs :: go_time
  ac_ResourceUpdates :: "api_ResourceUpdate list"

definition zero_api_Command :: api_Command where
  "zero_api_Command = \<lparr>ac_CommandID = '''', ac_Command = '''', ac_State = '''', ac_StartTs = 0,
     ac_EndTs = 0, ac_ResourceUpdates = []\<rparr>"

record SubmitCommandResponse =
  sr_CommandID :: string
  sr_Description :: Description
  sr_ChangesRequired :: bool
  sr_Command :: api_Command

fun update_state_string :: "ResourceUpdateState \<Rightarrow> string" where
  "update_state_string ResourceUpdateStateUnknown = ''Unknown''"
| "update_state_string ResourceUpdateStateNotStarted = ''NotStarted''"
| "update_state_string ResourceUpdateStatePending = ''Pending''"
| "update_state_string ResourceUpdateStateInProgress = ''InProgress''"
| "update_state_string ResourceUpdateStateFailed = ''Failed''"
| "update_state_string ResourceUpdateStateSuccess = ''Success''"
| "update_state_string ResourceUpdateStateCancelInProgress = ''CancelInProgress''"
| "update_state_string ResourceUpdateStateCancelComplete = ''CancelComplete''"
| "update_state_string ResourceUpdateStateRejected = ''Rejected''"

text \<open>
  \<^verbatim>\<open>time.Time.Sub\<close> gives a duration, a 64-bit number of nanoseconds, and the closest
  one when the difference is out of range; \<^verbatim>\<open>Milliseconds\<close> divides towards zero.
\<close>

definition time_Sub :: "go_time \<Rightarrow> go_time \<Rightarrow> int" where
  "time_Sub t u = min (2 ^ 63 - 1) (max (- (2 ^ 63)) (t - u))"

definition Milliseconds :: "int \<Rightarrow> int" where
  "Milliseconds d = sgn d * (\<bar>d\<bar> div 1000000)"

definition api_update :: "ResourceUpdate \<Rightarrow> api_ResourceUpdate" where
  "api_update ru = \<lparr>au_ResourceID = res_Ksuid (ru_Resource ru), au_ResourceType = res_Type (ru_Resource ru),
     au_ResourceLabel = res_Label (ru_Resource ru), au_StackName = ru_StackLabel ru,
     au_OldStackName = res_Stack (ru_ExistingResource ru), au_Operation = operation_string (ru_Operation ru),
     au_PatchDocument = res_PatchDocument (ru_Resource ru), au_State = update_state_string (ru_State ru),
     au_Duration = Milliseconds (if ru_StartTs ru = 0 then 0 else time_Sub (ru_ModifiedTs ru) (ru_StartTs ru)),
     au_CurrentAttempt = pr_Attempts (ru_MostRecentProgressResult ru),
     au_MaxAttempts = pr_MaxAttempts (ru_MostRecentProgressResult ru),
     au_ErrorMessage = MostRecentFailureMessage ru, au_StatusMessage = MostRecentStatusMessage ru,
     au_Properties = res_Properties (ru_Resource ru), au_OldProperties = ru_PreviousProperties ru,
     au_GroupID = ru_GroupID ru, au_ReferenceLabels = []\<rparr>"

definition translateToAPICommand :: "FormaCommand \<Rightarrow> api_Command" where
  "translateToAPICommand fa = \<lparr>ac_CommandID = fc_ID fa, ac_Command = command_string (fc_Command fa),
     ac_State = command_state_string (fc_State fa), ac_StartTs = fc_StartTs fa, ac_EndTs = fc_ModifiedTs fa,
     ac_ResourceUpdates = map api_update (fc_ResourceUpdates fa)\<rparr>"

datatype ms_error =
    GenerationFailed gen_error
  | ChangesetFailed init_error
  | ReconcileRejected "(string \<times> ResourceModification list) list"
  | ConflictingCommands "api_Command list"
  | PatchRejected
  | LoadAllStacksError ds_error
  | FailedToStoreCommand
  | FailedToEnsureExecutor
  | FailedToStartExecutor
  | QueryFailed string
  | LoadCommandFailed ds_error
  | GoPanic

section \<open>From a forma to a command\<close>

text \<open>The generator translates the references of the forma in place, and the command keeps that forma.\<close>

definition translated_forma ::
  "gen_env \<Rightarrow> Forma \<Rightarrow> Command \<Rightarrow> FormaCommandSource \<Rightarrow> ResourceDataLookup \<Rightarrow> nat \<Rightarrow> Forma" where
  "translated_forma env forma command source ds n =
     (if source \<noteq> FormaCommandSourceSynchronize \<and> source \<noteq> FormaCommandSourceDiscovery \<and>
         command \<noteq> CommandDestroy
      then (case translateFormaeReferencesToKsuid env forma ds n of Inl e \<Rightarrow> forma | Inr ((f, _), _) \<Rightarrow> f)
      else forma)"

definition default_mode :: "SubmitConfig \<Rightarrow> FormaCommandConfig" where
  "default_mode config = \<lparr>cfg_Mode = (case sc_Mode config of None \<Rightarrow> FormaApplyModePatch | Some m \<Rightarrow> m),
     cfg_Force = sc_Force config, cfg_Simulate = sc_Simulate config\<rparr>"

definition FormaCommandFromForma ::
  "ms_env \<Rightarrow> Forma \<Rightarrow> SubmitConfig \<Rightarrow> Command \<Rightarrow> datastore \<Rightarrow> string \<Rightarrow> FormaCommandSource \<Rightarrow> nat \<Rightarrow>
    ms_error + FormaCommand" where
  "FormaCommandFromForma env forma formaCommandConfig command d clientID source n =
     (let config = default_mode formaCommandConfig;
          ds = datastore_lookup (ge_ord (me_gen env)) d
      in case GenerateResourceUpdates (me_gen env) forma command (cfg_Mode config) source (LoadAllTargets d) ds None n of
           Inl err \<Rightarrow> Inl (GenerationFailed err)
         | Inr (resourceUpdates, _) \<Rightarrow>
             Inr (NewFormaCommand (me_newID env) (me_now1 env) (me_now2 env)
               (translated_forma (me_gen env) forma command source ds n) config command resourceUpdates clientID))"

section \<open>Admission\<close>

definition formaTouchesStacks :: "FormaCommand \<Rightarrow> Stack list \<Rightarrow> bool" where
  "formaTouchesStacks forma stacks =
     list_ex (\<lambda>touched. list_ex (\<lambda>stack. stk_Label touched = stk_Label stack) stacks) (forma_Stacks (fc_Forma forma))"

definition incomplete_update :: "ResourceUpdate \<Rightarrow> bool" where
  "incomplete_update u \<longleftrightarrow> ru_Operation u \<noteq> OperationRead \<and> ru_State u \<noteq> ResourceUpdateStateSuccess \<and>
     ru_State u \<noteq> ResourceUpdateStateFailed \<and> ru_State u \<noteq> ResourceUpdateStateRejected"

text \<open>The map of incomplete updates by command; two commands of one identifier share an entry.\<close>

definition incompleteResourceUpdates :: "FormaCommand list \<Rightarrow> Stack list \<Rightarrow> (string \<times> ResourceUpdate list) list" where
  "incompleteResourceUpdates incomplete stacks = fold (\<lambda>c m.
       fold (\<lambda>u m. AList.update (fc_ID c) ((case map_of m (fc_ID c) of None \<Rightarrow> [] | Some us \<Rightarrow> us) @ [u]) m)
         (filter incomplete_update (fc_ResourceUpdates c)) m)
     (filter (\<lambda>c. formaTouchesStacks c stacks) incomplete) []"

definition checkForConflictingCommands :: "datastore \<Rightarrow> FormaCommand \<Rightarrow> ms_error option" where
  "checkForConflictingCommands d command =
     (let incomplete = LoadIncompleteFormaCommands d;
          m = incompleteResourceUpdates incomplete (forma_Stacks (fc_Forma command))
      in if m = [] then None
         else Some (ConflictingCommands (concat (map (\<lambda>c. case map_of m (fc_ID c) of
              None \<Rightarrow> []
            | Some resources \<Rightarrow> [translateToAPICommand (c\<lparr>fc_ResourceUpdates := resources\<rparr>)]) incomplete))))"

definition checkIfPatchCanBeApplied :: "ms_env \<Rightarrow> datastore \<Rightarrow> FormaCommand \<Rightarrow> ms_error option" where
  "checkIfPatchCanBeApplied env d command =
     (case LoadAllStacks (ge_ord (me_gen env)) d of
        Inl err \<Rightarrow> Some (LoadAllStacksError err)
      | Inr knownStacks \<Rightarrow>
          if list_ex (\<lambda>stack. \<not> list_ex (\<lambda>s. stk_Label stack = SingleStackLabel s) knownStacks)
            (forma_Stacks (fc_Forma command)) then Some PatchRejected else None)"

text \<open>The stacks of the forma that something has changed since they were last reconciled.\<close>

definition modifiedStacks :: "ms_env \<Rightarrow> datastore \<Rightarrow> FormaCommand \<Rightarrow> (string \<times> ResourceModification list) list" where
  "modifiedStacks env d fa = fold (\<lambda>stack m.
       let modifications = GetResourceModificationsSinceLastReconcile (me_mods env) d (stk_Label stack)
       in if length modifications > 0 then AList.update (stk_Label stack) modifications m else m)
     (forma_Stacks (fc_Forma fa)) []"

definition checkReconcile :: "ms_env \<Rightarrow> datastore \<Rightarrow> FormaCommand \<Rightarrow> ms_error option" where
  "checkReconcile env d fa =
     (if cfg_Mode (fc_Config fa) = FormaApplyModeReconcile \<and> \<not> cfg_Force (fc_Config fa) \<and>
         length (modifiedStacks env d fa) > 0
      then Some (ReconcileRejected (modifiedStacks env d fa)) else None)"

text \<open>The checks of \<^verbatim>\<open>ApplyForma\<close>, in their order.\<close>

definition apply_checks :: "ms_env \<Rightarrow> datastore \<Rightarrow> FormaCommand \<Rightarrow> ms_error option" where
  "apply_checks env d fa =
     (case checkReconcile env d fa of Some err \<Rightarrow> Some err | None \<Rightarrow>
      (case (if \<not> cfg_Simulate (fc_Config fa) then checkForConflictingCommands d fa else None) of
         Some err \<Rightarrow> Some err
       | None \<Rightarrow> if cfg_Mode (fc_Config fa) = FormaApplyModePatch then checkIfPatchCanBeApplied env d fa else None))"

section \<open>Submission\<close>

definition store_new :: "ms_env \<Rightarrow> datastore \<Rightarrow> FormaCommand \<Rightarrow> datastore \<times> bool" where
  "store_new env d fa = (case me_store env of
       Undelivered \<Rightarrow> (d, False)
     | TimedOut \<Rightarrow> (fst (storeNewFormaCommand d fa), False)
     | Answered \<Rightarrow> (case storeNewFormaCommand d fa of (d', Inl err) \<Rightarrow> (d', False) | (d', Inr a) \<Rightarrow> (d', True)))"

definition launch :: "ms_env \<Rightarrow> string \<Rightarrow> Changeset option \<Rightarrow> ms_effect list \<times> ms_error option" where
  "launch env commandID cs =
     (case me_ensure env commandID of
        Undelivered \<Rightarrow> ([], Some FailedToEnsureExecutor)
      | TimedOut \<Rightarrow> ([EnsuredExecutor commandID], Some FailedToEnsureExecutor)
      | Answered \<Rightarrow>
          if \<not> me_start env commandID then ([EnsuredExecutor commandID], Some FailedToStartExecutor)
          else ([EnsuredExecutor commandID, StartedExecutor commandID cs], None))"

type_synonym submission = "datastore \<times> ms_effect list \<times> (ms_error + SubmitCommandResponse)"

definition response :: "FormaCommand \<Rightarrow> bool \<Rightarrow> api_Command \<Rightarrow> SubmitCommandResponse" where
  "response fa changes command = \<lparr>sr_CommandID = fc_ID fa, sr_Description = forma_Description (fc_Forma fa),
     sr_ChangesRequired = changes, sr_Command = command\<rparr>"

definition ApplyForma ::
  "ms_env \<Rightarrow> datastore \<Rightarrow> Forma \<Rightarrow> SubmitConfig \<Rightarrow> string \<Rightarrow> nat \<Rightarrow> submission" where
  "ApplyForma env d forma config clientID n =
     (case FormaCommandFromForma env forma config CommandApply d clientID FormaCommandSourceUser n of
        Inl err \<Rightarrow> (d, [], Inl err)
      | Inr fa \<Rightarrow>
          if length (fc_ResourceUpdates fa) = 0 then (d, [], Inr (response fa False zero_api_Command))
          else (case NewChangesetFromResourceUpdates (me_ord env) (fc_ResourceUpdates fa) (fc_ID fa) of
            None \<Rightarrow> (d, [], Inl GoPanic)
          | Some (Inl err) \<Rightarrow> (d, [], Inl (ChangesetFailed err))
          | Some (Inr cs) \<Rightarrow>
              (case apply_checks env d fa of
                 Some err \<Rightarrow> (d, [], Inl err)
               | None \<Rightarrow>
                   if cfg_Simulate (fc_Config fa) then (d, [], Inr (response fa True (translateToAPICommand fa)))
                   else let (d', okay) = store_new env d fa
                        in if \<not> okay then (d', [], Inl FailedToStoreCommand)
                           else (case launch env (fc_ID fa) (Some cs) of
                                   (effects, Some err) \<Rightarrow> (d', effects, Inl err)
                                 | (effects, None) \<Rightarrow> (d', effects, Inr (response fa False zero_api_Command))))))"

definition DestroyForma ::
  "ms_env \<Rightarrow> datastore \<Rightarrow> Forma \<Rightarrow> SubmitConfig \<Rightarrow> string \<Rightarrow> nat \<Rightarrow> submission" where
  "DestroyForma env d forma config clientID n =
     (case FormaCommandFromForma env forma config CommandDestroy d clientID FormaCommandSourceUser n of
        Inl err \<Rightarrow> (d, [], Inl err)
      | Inr fa \<Rightarrow>
          if length (fc_ResourceUpdates fa) = 0 then (d, [], Inr (response fa False zero_api_Command))
          else if cfg_Simulate (fc_Config fa) then
            (d, [], Inr (response fa (length (fc_ResourceUpdates fa) > 0) (translateToAPICommand fa)))
          else (case checkForConflictingCommands d fa of
            Some err \<Rightarrow> (d, [], Inl err)
          | None \<Rightarrow>
              let (d', okay) = store_new env d fa
              in if \<not> okay then (d', [], Inl FailedToStoreCommand)
                 else (case NewChangesetFromResourceUpdates (me_ord env) (fc_ResourceUpdates fa) (fc_ID fa) of
                         None \<Rightarrow> (d', [], Inl GoPanic)
                       | Some (Inl err) \<Rightarrow> (d', [], Inl (ChangesetFailed err))
                       | Some (Inr cs) \<Rightarrow>
                           (case launch env (fc_ID fa) (Some cs) of
                              (effects, Some err) \<Rightarrow> (d', effects, Inl err)
                            | (effects, None) \<Rightarrow> (d', effects, Inr (response fa True (translateToAPICommand fa)))))))"

text \<open>The answer of the querier is an argument.\<close>

definition DestroyByQuery ::
  "ms_env \<Rightarrow> datastore \<Rightarrow> string + Resource list \<Rightarrow> SubmitConfig \<Rightarrow> string \<Rightarrow> nat \<Rightarrow> submission" where
  "DestroyByQuery env d resources config clientID n =
     (case resources of
        Inl err \<Rightarrow> (d, [], Inl (QueryFailed err))
      | Inr rs \<Rightarrow> DestroyForma env d (FormaFromResources (filter res_Managed rs)) config clientID n)"

definition ListFormaCommandStatus ::
  "datastore \<Rightarrow> string \<Rightarrow> string + FormaCommand list \<Rightarrow> string \<Rightarrow> ms_error + api_Command list" where
  "ListFormaCommandStatus d query answer clientID =
     (if query \<noteq> '''' then
        (case answer of Inl err \<Rightarrow> Inl (QueryFailed err) | Inr formaCommands \<Rightarrow> Inr (map translateToAPICommand formaCommands))
      else (case GetMostRecentFormaCommandByClientID d clientID of
              Inl err \<Rightarrow> Inl (LoadCommandFailed err) | Inr fa \<Rightarrow> Inr [translateToAPICommand fa]))"

section \<open>Restart\<close>

definition reset_updates :: "FormaCommand \<Rightarrow> FormaCommand" where
  "reset_updates fa = fa\<lparr>fc_ResourceUpdates :=
     map (\<lambda>u. u\<lparr>ru_State := ResourceUpdateStateNotStarted\<rparr>) (fc_ResourceUpdates fa)\<rparr>"

fun rerun :: "ms_env \<Rightarrow> FormaCommand list \<Rightarrow> ms_effect list \<times> ms_error option" where
  "rerun env [] = ([], None)"
| "rerun env (fa # commands) =
     (case NewChangesetFromResourceUpdates (me_ord env) (fc_ResourceUpdates (reset_updates fa)) (fc_ID fa) of
        None \<Rightarrow> ([], Some GoPanic)
      | Some r \<Rightarrow>
          (case launch env (fc_ID fa) (case r of Inl err \<Rightarrow> None | Inr cs \<Rightarrow> Some cs) of
             (effects, Some err) \<Rightarrow> (effects, Some err)
           | (effects, None) \<Rightarrow> (let (effects', res) = rerun env commands in (effects @ effects', res))))"

definition ReRunIncompleteCommands :: "ms_env \<Rightarrow> datastore \<Rightarrow> ms_effect list \<times> ms_error option" where
  "ReRunIncompleteCommands env d = rerun env (LoadIncompleteFormaCommands d)"


section \<open>Extraction\<close>

text \<open>
  \<^verbatim>\<open>extractKSUIDs\<close> and \<^verbatim>\<open>replaceKSUIDs\<close>. In an array only texts are
  looked at; objects are entered. The packages \<^verbatim>\<open>gjson\<close> and \<^verbatim>\<open>sjson\<close>
  are parameters: \<open>set_raw\<close> and \<open>set_text\<close> are \<^verbatim>\<open>Set\<close> and
  \<^verbatim>\<open>SetRaw\<close> with their error ignored.
\<close>

definition uri_ksuids :: "string \<Rightarrow> string list" where
  "uri_ksuids s = (if KSUID s \<noteq> '''' then [KSUID s] else [])"

definition text_ksuids :: "json \<Rightarrow> string list" where
  "text_ksuids j = (case j of JStr s \<Rightarrow> uri_ksuids s | _ \<Rightarrow> [])"

lemma for_each_smaller: "kv \<in> set (for_each j) \<Longrightarrow> snd kv = JObj kvs \<Longrightarrow> size (JObj kvs) < size j"
  using size_for_each [of kv] by (cases j) (auto simp del: for_each.simps(1,2) json.size)

function extract_json :: "json \<Rightarrow> string list" where
  "extract_json j = concat (map (\<lambda>kv. case snd kv of
       JStr s \<Rightarrow> uri_ksuids s
     | JArr items \<Rightarrow> concat (map text_ksuids items)
     | JObj kvs \<Rightarrow> extract_json (JObj kvs)
     | _ \<Rightarrow> []) (for_each j))"
  by pat_completeness auto

termination extract_json
  by (relation "measure size") (use for_each_smaller in \<open>auto simp del: for_each.simps json.size\<close>)

declare extract_json.simps [simp del]

definition extractKSUIDs :: "json_lib \<Rightarrow> raw \<Rightarrow> string list" where
  "extractKSUIDs lib jsonStr = (case parse_raw lib jsonStr of None \<Rightarrow> [] | Some j \<Rightarrow> extract_json j)"

type_synonym set_text = "raw \<Rightarrow> string \<Rightarrow> raw \<Rightarrow> raw"

text \<open>The object written for a reference found in \<open>value\<close>; \<^verbatim>\<open>sjson\<close> writes a map with
  sorted keys.\<close>

definition resolvable_object :: "TripletKey \<Rightarrow> FormaeURI \<Rightarrow> string \<Rightarrow> json" where
  "resolvable_object triplet formaeUri val = JObj [(''$label'', JStr (tk_Label triplet)),
     (''$property'', JStr (PropertyPath formaeUri)), (''$res'', JBool True), (''$stack'', JStr (tk_Stack triplet)),
     (''$type'', JStr (tk_Type triplet)), (''$value'', JStr val)]"

definition replace_at ::
  "json_lib \<Rightarrow> set_raw \<Rightarrow> (string \<times> TripletKey) list \<Rightarrow> json \<Rightarrow> string \<Rightarrow> string \<Rightarrow> raw \<Rightarrow> raw" where
  "replace_at lib set_raw ksuidToTriplet value path uri modified =
     (if KSUID uri = '''' then modified
      else (case map_of ksuidToTriplet (KSUID uri) of
              None \<Rightarrow> modified
            | Some triplet \<Rightarrow> set_raw modified path (resolvable_object triplet uri (get_text lib value ''$value''))))"

function replace_json ::
  "json_lib \<Rightarrow> set_raw \<Rightarrow> set_text \<Rightarrow> (string \<times> TripletKey) list \<Rightarrow> json \<Rightarrow> raw \<Rightarrow> raw" where
  "replace_json lib set_raw set_text ksuidToTriplet j modified = fold (\<lambda>kv modified.
       case snd kv of
         JStr s \<Rightarrow> replace_at lib set_raw ksuidToTriplet (snd kv) (fst kv) s modified
       | JArr items \<Rightarrow> fold (\<lambda>it modified. case snd it of
             JStr s \<Rightarrow> replace_at lib set_raw ksuidToTriplet (snd kv) (fst kv @ ''.'' @ fst it) s modified
           | _ \<Rightarrow> modified) (for_each (JArr items)) modified
       | JObj kvs \<Rightarrow>
           (case gj_Get lib (snd kv) ''$ref'' of
              Some (JStr s) \<Rightarrow> replace_at lib set_raw ksuidToTriplet (snd kv) (fst kv) s modified
            | _ \<Rightarrow> set_text modified (fst kv)
                (replace_json lib set_raw set_text ksuidToTriplet (JObj kvs) (RawJson (JObj kvs))))
       | _ \<Rightarrow> modified) (for_each j) modified"
  by pat_completeness auto

termination replace_json
  by (relation "measure (\<lambda>(lib, sr, st, m, j, r). size j)")
    (use for_each_smaller in \<open>auto simp del: for_each.simps json.size\<close>)

declare replace_json.simps [simp del]

definition replaceKSUIDs ::
  "json_lib \<Rightarrow> set_raw \<Rightarrow> set_text \<Rightarrow> (string \<times> TripletKey) list \<Rightarrow> raw \<Rightarrow> raw" where
  "replaceKSUIDs lib set_raw set_text ksuidToTriplet jsonStr =
     (case parse_raw lib jsonStr of None \<Rightarrow> jsonStr | Some j \<Rightarrow> replace_json lib set_raw set_text ksuidToTriplet j jsonStr)"

definition reverseTranslateKSUIDsToTriplets ::
  "gen_env \<Rightarrow> set_text \<Rightarrow> datastore \<Rightarrow> Resource list \<Rightarrow> Resource list" where
  "reverseTranslateKSUIDsToTriplets env set_text d resources =
     (let found = (\<lambda>r. if r = RawNil then [] else extractKSUIDs (ge_lib env) r);
          ksuids = ge_ord env (remdups (concat (map (\<lambda>res. found (res_Properties res) @ found (res_ReadOnlyProperties res)) resources)));
          ksuidToTriplet = BatchGetTripletsByKSUIDs d ksuids;
          tr = (\<lambda>r. if r = RawNil then r else replaceKSUIDs (ge_lib env) (ge_set_raw env) set_text ksuidToTriplet r)
      in if ksuids = [] then resources
         else map (\<lambda>res. res\<lparr>res_Properties := tr (res_Properties res),
                res_ReadOnlyProperties := tr (res_ReadOnlyProperties res)\<rparr>) resources)"

definition ExtractResources ::
  "gen_env \<Rightarrow> set_text \<Rightarrow> datastore \<Rightarrow> string + Resource list \<Rightarrow> ms_error + Forma" where
  "ExtractResources env set_text d answer =
     (case answer of
        Inl err \<Rightarrow> Inl (QueryFailed err)
      | Inr resources \<Rightarrow>
          let resources = reverseTranslateKSUIDsToTriplets env set_text d resources;
              targetNames = rev (remdups (rev (filter (\<lambda>t. t \<noteq> '''') (map res_Target resources))));
              forma = FormaFromResources resources
          in Inr (if length targetNames > 0 then forma\<lparr>forma_Targets := LoadTargetsByLabels d targetNames\<rparr> else forma))"

section \<open>Statistics\<close>

record api_Stats =
  as_Version :: string
  as_AgentID :: string
  as_Stats :: Stats

definition ms_Stats :: "string \<Rightarrow> string \<Rightarrow> datastore \<Rightarrow> api_Stats" where
  "ms_Stats version agentID d = \<lparr>as_Version = version, as_AgentID = agentID, as_Stats = ds_Stats d\<rparr>"


end
