(* ===== verification/Metastructure_Facts.thy ===== *)
theory Metastructure_Facts
  imports Metastructure
begin

text \<open>
  What a submission guarantees: which commands are admitted, that a refused one leaves no trace, what
  the check for conflicts reports and what it misses, and what a restart runs again.
\<close>

section \<open>Changesets\<close>

lemma new_changeset_cases:
  assumes "range_orders ord"
  shows "NewChangesetFromResourceUpdates ord us cid = Some (Inl FormaCyclesDetectedError) \<and> \<not> acyclic (dependency_edges (all_ops us)) \<or>
    (\<exists>c. NewChangesetFromResourceUpdates ord us cid = Some (Inr c) \<and> acyclic (dependency_edges (all_ops us)))"
  by (rule pipeline_Init_cases [OF assms, of us]) (auto simp: NewChangesetFromResourceUpdates_def)

lemma launch_cases:
  obtains (failed) e where "launch env i cs = ([], Some e)" | (ensured) e where "launch env i cs = ([EnsuredExecutor i], Some e)"
  | (started) "launch env i cs = ([EnsuredExecutor i, StartedExecutor i cs], None)"
  by (cases "me_ensure env i"; cases "me_start env i") (auto simp: launch_def)

section \<open>Conflicts\<close>

lemma incomplete_inner:
  "map_of (fold (\<lambda>u m. AList.update i ((case map_of m i of None \<Rightarrow> [] | Some us \<Rightarrow> us) @ [u]) m) us m) j =
    (if j = i \<and> us \<noteq> [] then Some ((case map_of m i of None \<Rightarrow> [] | Some xs \<Rightarrow> xs) @ us) else map_of m j)"
  by (induction us arbitrary: m) (auto simp: update_conv')

definition open_updates :: "FormaCommand list \<Rightarrow> Stack list \<Rightarrow> string \<Rightarrow> ResourceUpdate list" where
  "open_updates cs stacks i = concat (map (\<lambda>c. filter incomplete_update (fc_ResourceUpdates c))
     (filter (\<lambda>c. formaTouchesStacks c stacks \<and> fc_ID c = i) cs))"

lemma incomplete_map:
  "map_of (incompleteResourceUpdates cs stacks) i =
    (if open_updates cs stacks i = [] then None else Some (open_updates cs stacks i))"
proof (induction cs rule: rev_induct)
  case (snoc c cs)
  have "incompleteResourceUpdates (cs @ [c]) stacks = (if formaTouchesStacks c stacks
      then fold (\<lambda>u m. AList.update (fc_ID c) ((case map_of m (fc_ID c) of None \<Rightarrow> [] | Some us \<Rightarrow> us) @ [u]) m)
         (filter incomplete_update (fc_ResourceUpdates c)) (incompleteResourceUpdates cs stacks)
      else incompleteResourceUpdates cs stacks)"
    by (simp add: incompleteResourceUpdates_def)
  with snoc show ?case
    by (auto simp: incomplete_inner open_updates_def)
qed (simp add: incompleteResourceUpdates_def open_updates_def)

lemma incomplete_empty:
  "incompleteResourceUpdates cs stacks = [] \<longleftrightarrow>
    (\<forall>c \<in> set cs. formaTouchesStacks c stacks \<longrightarrow> (\<forall>u \<in> set (fc_ResourceUpdates c). \<not> incomplete_update u))"
proof -
  have "incompleteResourceUpdates cs stacks = [] \<longleftrightarrow> (\<forall>i. map_of (incompleteResourceUpdates cs stacks) i = None)"
    by (cases "incompleteResourceUpdates cs stacks") (auto intro!: exI [of _ "fst (hd (incompleteResourceUpdates cs stacks))"])
  also have "\<dots> \<longleftrightarrow> (\<forall>i. open_updates cs stacks i = [])"
    by (simp add: incomplete_map)
  also have "\<dots> \<longleftrightarrow> (\<forall>c \<in> set cs. formaTouchesStacks c stacks \<longrightarrow> (\<forall>u \<in> set (fc_ResourceUpdates c). \<not> incomplete_update u))"
    by (auto simp: open_updates_def filter_empty_conv)
  finally show ?thesis .
qed

definition conflicting :: "datastore \<Rightarrow> Stack list \<Rightarrow> FormaCommand \<Rightarrow> bool" where
  "conflicting d stacks c \<longleftrightarrow> c \<in> set (LoadIncompleteFormaCommands d) \<and>
     (\<exists>s \<in> set stacks. stk_Label s \<in> stk_Label ` set (forma_Stacks (fc_Forma c))) \<and>
     (\<exists>u \<in> set (fc_ResourceUpdates c). incomplete_update u)"

lemma touches_iff:
  "formaTouchesStacks c stacks \<longleftrightarrow> (\<exists>s \<in> set stacks. stk_Label s \<in> stk_Label ` set (forma_Stacks (fc_Forma c)))"
  unfolding formaTouchesStacks_def list_ex_iff image_iff by metis

lemma no_conflict_iff:
  "checkForConflictingCommands d fa = None \<longleftrightarrow> (\<forall>c. \<not> conflicting d (forma_Stacks (fc_Forma fa)) c)"
  by (auto simp: checkForConflictingCommands_def Let_def incomplete_empty conflicting_def touches_iff)

lemma open_updates_distinct:
  assumes "distinct (map fc_ID cs)" "c \<in> set cs"
  shows "open_updates cs stacks (fc_ID c) =
    (if formaTouchesStacks c stacks then filter incomplete_update (fc_ResourceUpdates c) else [])"
proof -
  have "filter (\<lambda>x. formaTouchesStacks x stacks \<and> fc_ID x = fc_ID c) cs = (if formaTouchesStacks c stacks then [c] else [])"
    using assms by (induction cs) (auto simp: filter_empty_conv image_iff dest!: arg_cong [of _ _ fc_ID])
  then show ?thesis by (simp add: open_updates_def)
qed

definition open_part :: "FormaCommand \<Rightarrow> FormaCommand" where
  "open_part c = c\<lparr>fc_ResourceUpdates := filter incomplete_update (fc_ResourceUpdates c)\<rparr>"

lemma concat_map_if: "concat (map (\<lambda>x. if P x then [f x] else []) xs) = map f (filter P xs)"
  by (induction xs) auto

lemma conflicts_listed:
  assumes "distinct (map fc_ID (LoadIncompleteFormaCommands d))"
    "checkForConflictingCommands d fa = Some e"
  shows "e = ConflictingCommands (map (\<lambda>c. translateToAPICommand (open_part c))
    (filter (conflicting d (forma_Stacks (fc_Forma fa))) (LoadIncompleteFormaCommands d)))"
proof -
  let ?cs = "LoadIncompleteFormaCommands d" and ?st = "forma_Stacks (fc_Forma fa)"
  have one: "(case map_of (incompleteResourceUpdates ?cs ?st) (fc_ID c) of None \<Rightarrow> []
      | Some resources \<Rightarrow> [translateToAPICommand (c\<lparr>fc_ResourceUpdates := resources\<rparr>)]) =
      (if conflicting d ?st c then [translateToAPICommand (open_part c)] else [])" if "c \<in> set ?cs" for c
    using that by (auto simp: incomplete_map open_updates_distinct [OF assms(1)] conflicting_def touches_iff
        open_part_def filter_empty_conv)
  have "concat (map (\<lambda>c. case map_of (incompleteResourceUpdates ?cs ?st) (fc_ID c) of None \<Rightarrow> []
      | Some resources \<Rightarrow> [translateToAPICommand (c\<lparr>fc_ResourceUpdates := resources\<rparr>)]) ?cs) =
    concat (map (\<lambda>c. if conflicting d ?st c then [translateToAPICommand (open_part c)] else []) ?cs)"
    using one by (intro arg_cong [of _ _ concat] map_cong refl)
  also have "\<dots> = map (\<lambda>c. translateToAPICommand (open_part c)) (filter (conflicting d ?st) ?cs)"
    by (rule concat_map_if)
  finally show ?thesis
    using assms(2) by (auto simp: checkForConflictingCommands_def Let_def split: if_splits)
qed

section \<open>Modified and unknown stacks\<close>

lemma modifiedStacks_empty:
  "modifiedStacks env d fa = [] \<longleftrightarrow>
    (\<forall>s \<in> set (forma_Stacks (fc_Forma fa)). GetResourceModificationsSinceLastReconcile (me_mods env) d (stk_Label s) = [])"
proof -
  have upd: "AList.update k v m \<noteq> []" for k :: string and v and m :: "(string \<times> ResourceModification list) list"
    by (cases m) (auto split: if_splits)
  have "fold (\<lambda>s m. let ms = g (stk_Label s) in if length ms > 0 then AList.update (stk_Label s) ms m else m) ss m = [] \<longleftrightarrow>
      m = [] \<and> (\<forall>s \<in> set ss. g (stk_Label s) = [])" for g :: "string \<Rightarrow> ResourceModification list" and ss :: "Stack list" and m
    by (induction ss arbitrary: m) (auto simp: Let_def upd)
  then show ?thesis by (simp add: modifiedStacks_def)
qed

lemma one_stack_fold:
  "\<forall>r \<in> set rs. res_Stack r = l \<Longrightarrow> forma_Stacks f = [s] \<Longrightarrow> stk_Label s = l \<Longrightarrow>
    forma_Stacks (fold (\<lambda>res f. let f' = add_target res (add_stack res f)
      in f'\<lparr>forma_Resources := forma_Resources f' @ [res]\<rparr>) rs f) = [s]"
  by (induction rs arbitrary: f) (auto simp: Let_def add_target_def add_stack_def)

lemma FormaFromResources_label:
  assumes "rs \<noteq> []" "\<forall>r \<in> set rs. res_Stack r = l" "l \<noteq> ''''"
  shows "SingleStackLabel (FormaFromResources rs) = l"
proof -
  obtain r rs' where rs: "rs = r # rs'" using assms(1) by (cases rs) auto
  then have "forma_Stacks (FormaFromResources rs) = [\<lparr>stk_Label = l, stk_Description = []\<rparr>]"
    using assms(2,3) unfolding rs FormaFromResources_def fold_simps comp_def
    by (intro one_stack_fold [of _ l]) (auto simp: Let_def add_target_def add_stack_def zero_Forma_def)
  then show ?thesis by (simp add: SingleStackLabel_def)
qed

lemma kept_labels: "(\<And>k. k \<in> K \<Longrightarrow> S (F (g k)) = k \<and> P (g k)) \<Longrightarrow> S ` F ` {x \<in> g ` K. P x} = K"
  by force

lemma known_stacks:
  assumes "ds_ok d" "range_order ord"
  shows "\<exists>all. LoadAllStacks ord d = Inr all \<and>
    SingleStackLabel ` set all = {l. l \<noteq> '''' \<and> (\<exists>row \<in> set (live_rows (ds_resources d)). rr_stack row = l)}"
proof -
  obtain rs where rs: "load_rows (live_rows (ds_resources d)) = Inr rs"
    "list_all2 (\<lambda>row r. load_row row = Inr r) (live_rows (ds_resources d)) rs"
    "\<forall>row \<in> set (live_rows (ds_resources d)). \<forall>r. load_row row = Inr r \<longrightarrow> res_Stack r = rr_stack row \<and>
      res_Label r = rr_label row \<and> res_Type r = rr_type row"
    by (rule live_loaded [OF assms(1)], rule that)
  let ?m = "stack_resources rs" and ?in = "\<lambda>l. filter (\<lambda>r. res_Stack r = l) rs"
  have keys: "fst ` set ?m = {l. l \<noteq> '''' \<and> (\<exists>r \<in> set rs. res_Stack r = l)}"
    unfolding dom_map_of_conv_image_fst [symmetric] by (auto simp: dom_def stack_resources_map)
  have rows: "(\<exists>r \<in> set rs. res_Stack r = l) \<longleftrightarrow> (\<exists>row \<in> set (live_rows (ds_resources d)). rr_stack row = l)" for l
    using rs(2,3) by (induction rule: list_all2_induct) auto
  have load: "LoadAllStacks ord d = Inr (map FormaFromResources (filter (\<lambda>l. length l > 0)
      (map (\<lambda>k. the (map_of ?m k)) (ord (map fst ?m)))))"
    by (simp add: LoadAllStacks_def rs(1) Let_def)
  have group: "the (map_of ?m l) = ?in l" "?in l \<noteq> []" "l \<noteq> ''''" if "l \<in> fst ` set ?m" for l
    using that unfolding keys by (auto simp: stack_resources_map filter_empty_conv)
  have "SingleStackLabel (FormaFromResources (the (map_of ?m l))) = l \<and> the (map_of ?m l) \<noteq> []"
    if "l \<in> fst ` set ?m" for l
    using FormaFromResources_label [OF group(2) [OF that] _ group(3) [OF that]] group(2) [OF that]
    unfolding group(1) [OF that] by simp
  then have "SingleStackLabel ` set (map FormaFromResources (filter (\<lambda>l. length l > 0)
      (map (\<lambda>k. the (map_of ?m k)) (ord (map fst ?m))))) = fst ` set ?m"
    unfolding set_map set_filter range_orderD(2) [OF assms(2)] by (intro kept_labels) simp
  with load show ?thesis by (simp add: keys rows)
qed

lemma patch_check:
  assumes "ds_ok d" "range_order (ge_ord (me_gen env))" "checkIfPatchCanBeApplied env d fa = None"
    "s \<in> set (forma_Stacks (fc_Forma fa))"
  shows "\<exists>row \<in> set (live_rows (ds_resources d)). rr_stack row = stk_Label s"
proof -
  obtain all where all: "LoadAllStacks (ge_ord (me_gen env)) d = Inr all" "SingleStackLabel ` set all =
      {l. l \<noteq> '''' \<and> (\<exists>row \<in> set (live_rows (ds_resources d)). rr_stack row = l)}"
    using known_stacks [OF assms(1,2)] by blast
  with assms(3,4) have "\<exists>st \<in> set all. stk_Label s = SingleStackLabel st"
    by (simp add: checkIfPatchCanBeApplied_def list_ex_iff split: if_splits)
  then have "stk_Label s \<in> SingleStackLabel ` set all" by blast
  with all(2) show ?thesis by blast
qed


section \<open>Admission\<close>

lemma gbindD: "gbind m f n = Inr r \<Longrightarrow> \<exists>x n'. m n = Inr (x, n') \<and> f x n' = Inr r"
  by (auto simp: gbind_def split: sum.splits)

lemma translate_stacks:
  assumes "translateFormaeReferencesToKsuid env forma ds n = Inr ((f, l), n')"
  shows "forma_Stacks f = forma_Stacks forma"
  using assms unfolding translateFormaeReferencesToKsuid_def Let_def
  by (auto dest!: gbindD simp: gret_def)

lemma translated_stacks: "forma_Stacks (translated_forma env forma command source ds n) = forma_Stacks forma"
  by (auto simp: translated_forma_def translate_stacks split: sum.splits)

lemma command_fields:
  assumes "FormaCommandFromForma env forma config command d clientID source n = Inr fa"
  shows "fc_ID fa = me_newID env" "fc_Config fa = default_mode config" "fc_State fa = CommandStateNotStarted"
    "forma_Stacks (fc_Forma fa) = forma_Stacks forma" "fc_Command fa = command"
  using assms by (auto simp: FormaCommandFromForma_def NewFormaCommand_def Let_def translated_stacks split: sum.splits)

lemma store_new_ok:
  assumes "store_new env d fa = (d', True)"
  shows "StoreFormaCommand d fa (fc_ID fa) = (d', Inr ())"
  using assms by (auto simp: store_new_def storeNewFormaCommand_def store_command_def
      split: call_outcome.splits prod.splits sum.splits)

lemma apply_started:
  assumes "ApplyForma env d forma config clientID n = (d', effects, res)" "effects \<noteq> []"
  obtains fa c where
    "FormaCommandFromForma env forma config CommandApply d clientID FormaCommandSourceUser n = Inr fa"
    "fc_ResourceUpdates fa \<noteq> []" "\<not> sc_Simulate config" "apply_checks env d fa = None"
    "NewChangesetFromResourceUpdates (me_ord env) (fc_ResourceUpdates fa) (me_newID env) = Some (Inr c)"
    "StoreFormaCommand d fa (me_newID env) = (d', Inr ())"
    "(effects, res) = (case launch env (me_newID env) (Some c) of (ef, Some err) \<Rightarrow> (ef, Inl err)
       | (ef, None) \<Rightarrow> (ef, Inr (response fa False zero_api_Command)))"
proof -
  obtain fa where fa: "FormaCommandFromForma env forma config CommandApply d clientID FormaCommandSourceUser n = Inr fa"
    using assms by (auto simp: ApplyForma_def split: sum.splits)
  note f = command_fields [OF fa]
  have ne: "fc_ResourceUpdates fa \<noteq> []" using assms by (auto simp: ApplyForma_def fa)
  obtain c where c: "NewChangesetFromResourceUpdates (me_ord env) (fc_ResourceUpdates fa) (me_newID env) = Some (Inr c)"
    using assms ne by (auto simp: ApplyForma_def fa f split: option.splits sum.splits)
  have chk: "apply_checks env d fa = None" and sim: "\<not> sc_Simulate config"
    using assms ne c by (auto simp: ApplyForma_def fa f default_mode_def split: option.splits if_splits)
  obtain b where b: "store_new env d fa = (d', b)"
    using assms ne c chk sim by (cases "store_new env d fa")
      (auto simp: ApplyForma_def fa f default_mode_def split: option.splits if_splits prod.splits)
  with assms ne c chk sim have "b"
    by (auto simp: ApplyForma_def fa f default_mode_def split: if_splits)
  with b have "StoreFormaCommand d fa (me_newID env) = (d', Inr ())" using store_new_ok [of env d fa d'] f by simp
  moreover have "(effects, res) = (case launch env (me_newID env) (Some c) of (ef, Some err) \<Rightarrow> (ef, Inl err)
       | (ef, None) \<Rightarrow> (ef, Inr (response fa False zero_api_Command)))"
    using assms ne c chk sim b \<open>b\<close>
    by (auto simp: ApplyForma_def fa f default_mode_def split: if_splits prod.splits option.splits)
  ultimately show thesis using that [OF fa ne sim chk c] by blast
qed


lemma checks_passed:
  assumes "apply_checks env d fa = None" "\<not> cfg_Simulate (fc_Config fa)"
  shows "checkForConflictingCommands d fa = None"
    "cfg_Mode (fc_Config fa) = FormaApplyModeReconcile \<Longrightarrow> \<not> cfg_Force (fc_Config fa) \<Longrightarrow> modifiedStacks env d fa = []"
    "cfg_Mode (fc_Config fa) = FormaApplyModePatch \<Longrightarrow> checkIfPatchCanBeApplied env d fa = None"
  using assms by (auto simp: apply_checks_def checkReconcile_def split: option.splits if_splits)

lemma store_read_back:
  "StoreFormaCommand d fa i = (d', Inr ()) \<Longrightarrow> \<exists>e. stored_FormaCommand fa = Some e \<and> GetFormaCommandByCommandID d' i = Inr e"
  by (rule cs.store_success)

text \<open>C2: A forma is only executed when it is admitted. When an apply starts an executor, it is no simulation and
  has something to do; the executor gets the changeset of the generated updates; the command can be read
  back from the datastore; no running command has an open write on a stack the forma declares; in reconcile
  mode, unless forced, nothing has changed those stacks since their last reconcile; and in patch mode all of
  them hold resources already.\<close>

theorem apply_admits:
  assumes "range_order (ge_ord (me_gen env))" "ds_ok d"
    "ApplyForma env d forma config clientID n = (d', effects, res)" "StartedExecutor i cs \<in> set effects"
  shows "\<exists>fa c e. FormaCommandFromForma env forma config CommandApply d clientID FormaCommandSourceUser n = Inr fa \<and>
    i = fc_ID fa \<and> \<not> sc_Simulate config \<and> fc_ResourceUpdates fa \<noteq> [] \<and>
    cs = Some c \<and> NewChangesetFromResourceUpdates (me_ord env) (fc_ResourceUpdates fa) i = Some (Inr c) \<and>
    stored_FormaCommand fa = Some e \<and> GetFormaCommandByCommandID d' i = Inr e \<and>
    (\<forall>x. \<not> conflicting d (forma_Stacks forma) x) \<and>
    (sc_Mode config = Some FormaApplyModeReconcile \<and> \<not> sc_Force config \<longrightarrow> (\<forall>s \<in> set (forma_Stacks forma).
       GetResourceModificationsSinceLastReconcile (me_mods env) d (stk_Label s) = [])) \<and>
    (sc_Mode config = None \<or> sc_Mode config = Some FormaApplyModePatch \<longrightarrow> (\<forall>s \<in> set (forma_Stacks forma).
       \<exists>row \<in> set (live_rows (ds_resources d)). rr_stack row = stk_Label s))"
proof -
  have "effects \<noteq> []" using assms(4) by auto
  then obtain fa c where
    fa: "FormaCommandFromForma env forma config CommandApply d clientID FormaCommandSourceUser n = Inr fa"
    and ne: "fc_ResourceUpdates fa \<noteq> []" and sim: "\<not> sc_Simulate config" and chk: "apply_checks env d fa = None"
    and c: "NewChangesetFromResourceUpdates (me_ord env) (fc_ResourceUpdates fa) (me_newID env) = Some (Inr c)"
    and st: "StoreFormaCommand d fa (me_newID env) = (d', Inr ())"
    and ef: "(effects, res) = (case launch env (me_newID env) (Some c) of (ef, Some err) \<Rightarrow> (ef, Inl err)
       | (ef, None) \<Rightarrow> (ef, Inr (response fa False zero_api_Command)))"
    by (rule apply_started [OF assms(3)])
  note f = command_fields [OF fa]
  have i: "i = me_newID env" "cs = Some c"
    using assms(4) ef by (auto simp: launch_def split: if_splits call_outcome.splits)
  obtain e where e: "stored_FormaCommand fa = Some e" "GetFormaCommandByCommandID d' (me_newID env) = Inr e"
    using store_read_back [OF st] by blast
  note passed = checks_passed [OF chk, unfolded f default_mode_def FormaCommandConfig.simps, OF sim]
  have "\<forall>x. \<not> conflicting d (forma_Stacks forma) x"
    using passed(1) unfolding no_conflict_iff f .
  moreover have "\<forall>s \<in> set (forma_Stacks forma). GetResourceModificationsSinceLastReconcile (me_mods env) d (stk_Label s) = []"
    if "sc_Mode config = Some FormaApplyModeReconcile \<and> \<not> sc_Force config"
    using passed(2) that unfolding modifiedStacks_empty f by simp
  moreover have "\<forall>s \<in> set (forma_Stacks forma). \<exists>row \<in> set (live_rows (ds_resources d)). rr_stack row = stk_Label s"
    if "sc_Mode config = None \<or> sc_Mode config = Some FormaApplyModePatch"
    using patch_check [OF assms(2,1) passed(3), unfolded f] that by auto
  ultimately show ?thesis using fa i f(1) sim ne c e
    by (intro exI [of _ fa] exI [of _ c] exI [of _ e]) simp
qed

definition sample_ms :: ms_env where
  "sample_ms = \<lparr>me_gen = sample_gen, me_ord = (\<lambda>_. id), me_mods = id, me_newID = ''cmd'', me_now1 = 1, me_now2 = 1,
     me_store = Answered, me_ensure = (\<lambda>_. Answered), me_start = (\<lambda>_. True)\<rparr>"

definition sample_ds :: datastore where
  "sample_ds = fst (StoreTarget (NewDatastoreSQLite ''agent'') \<lparr>tgt_Label = ''t'', tgt_Namespace = ''NS'', tgt_Config = RawNil\<rparr>)"

definition stack_forma :: Forma where
  "stack_forma = sample_forma\<lparr>forma_Stacks := [\<lparr>stk_Label = ''s'', stk_Description = ''''\<rparr>]\<rparr>"

definition reconcile_config :: SubmitConfig where
  "reconcile_config = \<lparr>sc_Mode = Some FormaApplyModeReconcile, sc_Force = False, sc_Simulate = False\<rparr>"

lemma sample_ds_ok: "ds_ok sample_ds"
  by (simp add: sample_ds_def StoreTarget_def ds_ok_def NewDatastoreSQLite_def LoadTarget_def split: option.split)

fun effect_outline :: "ms_effect \<Rightarrow> string \<times> string list option" where
  "effect_outline (EnsuredExecutor i) = (i, None)"
| "effect_outline (StartedExecutor i cs) = (i, Some (case cs of None \<Rightarrow> [] | Some c \<Rightarrow> cs_keys c))"

lemma sample_apply: "map effect_outline (fst (snd (ApplyForma sample_ms sample_ds stack_forma reconcile_config ''client'' 0))) =
    [(''cmd'', None), (''cmd'', Some [''k2//create''])]"
  by code_simp

theorem apply_admits_witness:
  "\<exists>cs. StartedExecutor ''cmd'' cs \<in> set (fst (snd (ApplyForma sample_ms sample_ds stack_forma reconcile_config ''client'' 0))) \<and>
    (\<exists>e. GetFormaCommandByCommandID (fst (ApplyForma sample_ms sample_ds stack_forma reconcile_config ''client'' 0)) ''cmd'' = Inr e)"
proof -
  obtain d' effects res where r: "ApplyForma sample_ms sample_ds stack_forma reconcile_config ''client'' 0 = (d', effects, res)"
    by (metis surj_pair)
  have "map effect_outline effects = [(''cmd'', None), (''cmd'', Some [''k2//create''])]"
    using sample_apply by (simp add: r)
  then obtain cs where cs: "StartedExecutor ''cmd'' cs \<in> set effects"
    by (auto simp: map_eq_Cons_conv elim!: effect_outline.elims)
  have "range_order (ge_ord (me_gen sample_ms))" by (simp add: sample_ms_def sample_gen_order)
  from apply_admits [OF this sample_ds_ok r cs] have "\<exists>e. GetFormaCommandByCommandID d' ''cmd'' = Inr e" by blast
  with cs show ?thesis by (auto simp: r)
qed


section \<open>Refusals\<close>

lemma destroy_cases:
  assumes "DestroyForma env d forma config clientID n = (d', effects, res)"
  obtains (untouched) "d' = d" "effects = []" "(\<exists>e. res = Inl e) \<or> (\<exists>r. res = Inr r \<and> (sc_Simulate config \<or> \<not> sr_ChangesRequired r))"
  | (stored) fa b where "FormaCommandFromForma env forma config CommandDestroy d clientID FormaCommandSourceUser n = Inr fa"
    "fc_ResourceUpdates fa \<noteq> []" "\<not> sc_Simulate config" "store_new env d fa = (d', b)"
    "(effects, res) = (if \<not> b then ([], Inl FailedToStoreCommand)
       else (case NewChangesetFromResourceUpdates (me_ord env) (fc_ResourceUpdates fa) (fc_ID fa) of
               None \<Rightarrow> ([], Inl GoPanic)
             | Some (Inl err) \<Rightarrow> ([], Inl (ChangesetFailed err))
             | Some (Inr cs) \<Rightarrow> (case launch env (fc_ID fa) (Some cs) of
                 (ef, Some err) \<Rightarrow> (ef, Inl err)
               | (ef, None) \<Rightarrow> (ef, Inr (response fa True (translateToAPICommand fa))))))"
proof (cases "FormaCommandFromForma env forma config CommandDestroy d clientID FormaCommandSourceUser n")
  case (Inl err)
  show thesis by (rule untouched) (use assms Inl in \<open>auto simp: DestroyForma_def\<close>)
next
  case fa: (Inr fa)
  note f = command_fields [OF fa]
  show thesis
  proof (cases "fc_ResourceUpdates fa = [] \<or> sc_Simulate config \<or> checkForConflictingCommands d fa \<noteq> None")
    case True
    have "d' = d \<and> effects = [] \<and> ((\<exists>e. res = Inl e) \<or> (\<exists>r. res = Inr r \<and> (sc_Simulate config \<or> \<not> sr_ChangesRequired r)))"
      using assms True
      by (auto simp: DestroyForma_def fa f default_mode_def response_def split: if_splits option.splits)
    then show thesis by (elim conjE) (rule untouched)
  next
    case False
    then have guards: "fc_ResourceUpdates fa \<noteq> []" "\<not> sc_Simulate config" "checkForConflictingCommands d fa = None"
      by auto
    obtain d1 b where b: "store_new env d fa = (d1, b)" by (cases "store_new env d fa")
    have eq: "(d', effects, res) = (d1, if \<not> b then ([], Inl FailedToStoreCommand)
       else (case NewChangesetFromResourceUpdates (me_ord env) (fc_ResourceUpdates fa) (fc_ID fa) of
               None \<Rightarrow> ([], Inl GoPanic)
             | Some (Inl err) \<Rightarrow> ([], Inl (ChangesetFailed err))
             | Some (Inr cs) \<Rightarrow> (case launch env (fc_ID fa) (Some cs) of
                 (ef, Some err) \<Rightarrow> (ef, Inl err)
               | (ef, None) \<Rightarrow> (ef, Inr (response fa True (translateToAPICommand fa))))))"
      using assms guards b
      by (simp add: DestroyForma_def fa f default_mode_def split: option.splits sum.splits prod.splits if_splits)
    show thesis by (rule stored [OF fa guards(1,2)]) (use eq b in auto)
  qed
qed

lemma apply_cases:
  assumes "ApplyForma env d forma config clientID n = (d', effects, res)"
  obtains (untouched) "d' = d" "effects = []" "(\<exists>e. res = Inl e) \<or> (\<exists>r. res = Inr r \<and> (sc_Simulate config \<or> \<not> sr_ChangesRequired r))"
  | (stored) fa b cs where "FormaCommandFromForma env forma config CommandApply d clientID FormaCommandSourceUser n = Inr fa"
    "fc_ResourceUpdates fa \<noteq> []" "\<not> sc_Simulate config" "store_new env d fa = (d', b)"
    "NewChangesetFromResourceUpdates (me_ord env) (fc_ResourceUpdates fa) (fc_ID fa) = Some (Inr cs)"
    "(effects, res) = (if \<not> b then ([], Inl FailedToStoreCommand)
       else (case launch env (fc_ID fa) (Some cs) of
                 (ef, Some err) \<Rightarrow> (ef, Inl err)
               | (ef, None) \<Rightarrow> (ef, Inr (response fa False zero_api_Command))))"
proof (cases "FormaCommandFromForma env forma config CommandApply d clientID FormaCommandSourceUser n")
  case (Inl err)
  show thesis by (rule untouched) (use assms Inl in \<open>auto simp: ApplyForma_def\<close>)
next
  case fa: (Inr fa)
  note f = command_fields [OF fa]
  consider (empty) "fc_ResourceUpdates fa = []"
    | (bad) "fc_ResourceUpdates fa \<noteq> []" "\<forall>cs. NewChangesetFromResourceUpdates (me_ord env) (fc_ResourceUpdates fa) (fc_ID fa) \<noteq> Some (Inr cs)"
    | (ok) cs where "fc_ResourceUpdates fa \<noteq> []" "NewChangesetFromResourceUpdates (me_ord env) (fc_ResourceUpdates fa) (fc_ID fa) = Some (Inr cs)"
    by blast
  then show thesis
  proof cases
    case empty
    show thesis by (rule untouched) (use assms fa empty in \<open>auto simp: ApplyForma_def response_def\<close>)
  next
    case bad
    show thesis by (rule untouched) (use assms bad in \<open>auto simp: ApplyForma_def fa split: option.splits sum.splits\<close>)
  next
    case ok
    show thesis
    proof (cases "apply_checks env d fa \<noteq> None \<or> sc_Simulate config")
      case True
      then have "d' = d \<and> effects = [] \<and> ((\<exists>e. res = Inl e) \<or> (\<exists>r. res = Inr r \<and> (sc_Simulate config \<or> \<not> sr_ChangesRequired r)))"
        using assms ok
        by (auto simp: ApplyForma_def fa f default_mode_def split: option.splits if_splits)
      then show thesis by (elim conjE) (rule untouched)
    next
      case False
      obtain d1 b where b: "store_new env d fa = (d1, b)" by (cases "store_new env d fa")
      have eq: "(d', effects, res) = (d1, if \<not> b then ([], Inl FailedToStoreCommand)
         else (case launch env (fc_ID fa) (Some cs) of
                 (ef, Some err) \<Rightarrow> (ef, Inl err)
               | (ef, None) \<Rightarrow> (ef, Inr (response fa False zero_api_Command))))"
        using assms False ok b
        by (simp add: ApplyForma_def fa f default_mode_def split: option.splits prod.splits if_splits)
      show thesis by (rule stored [OF fa ok(1) _ _ ok(2)]) (use False eq b in auto)
    qed
  qed
qed

text \<open>Whatever happens, a submission leaves the datastore alone or stores a command that has not started.\<close>

lemma store_new_cases: "store_new env d fa = (d', b) \<Longrightarrow> d' = d \<or> d' = fst (StoreFormaCommand d fa (fc_ID fa))"
  by (auto simp: store_new_def storeNewFormaCommand_def store_command_def
      split: call_outcome.splits prod.splits sum.splits)

lemma submitted_datastore:
  assumes "ApplyForma env d forma config clientID n = (d', effects, res) \<or> DestroyForma env d forma config clientID n = (d', effects, res)"
  shows "d' = d \<or> (\<exists>fa. fc_State fa = CommandStateNotStarted \<and> d' = fst (StoreFormaCommand d fa (me_newID env)))"
  using assms
proof
  assume "ApplyForma env d forma config clientID n = (d', effects, res)"
  then show ?thesis
  proof (cases rule: apply_cases)
    case (stored fa b cs)
    then show ?thesis using store_new_cases [OF stored(4)] command_fields [OF stored(1)] by metis
  qed simp
next
  assume "DestroyForma env d forma config clientID n = (d', effects, res)"
  then show ?thesis
  proof (cases rule: destroy_cases)
    case (stored fa b)
    then show ?thesis using store_new_cases [OF stored(4)] command_fields [OF stored(1)] by metis
  qed simp
qed


text \<open>C15: A submission that is refused leaves no trace. An apply or a destroy that is not accepted or only
  simulated changes nothing in the datastore and sends nothing, and an accepted one ensures and
  starts exactly one executor. The exceptions are failures after the command has been stored, of the
  storing itself, the supervisor or the executor and, for a destroy, a cycle among the deletes, which is only
  looked for then. In these cases no executor has been started.\<close>

theorem submission_all_or_nothing:
  assumes "range_orders (me_ord env)"
    "s = ApplyForma env d forma config clientID n \<and> late = {} \<or>
     s = DestroyForma env d forma config clientID n \<and> late = {ChangesetFailed FormaCyclesDetectedError}"
    "s = (d', effects, res)"
  shows "d' = d \<and> effects = [] \<and> (\<forall>r. res = Inr r \<longrightarrow> sc_Simulate config \<or> \<not> sr_ChangesRequired r) \<or>
    \<not> sc_Simulate config \<and> (\<exists>r cs. res = Inr r \<and> effects = [EnsuredExecutor (me_newID env), StartedExecutor (me_newID env) (Some cs)]) \<or>
    \<not> sc_Simulate config \<and> (\<exists>e \<in> late \<union> {FailedToStoreCommand, FailedToEnsureExecutor, FailedToStartExecutor}.
       res = Inl e \<and> set effects \<subseteq> {EnsuredExecutor (me_newID env)})"
proof (rule disjE [OF assms(2)]; elim conjE)
  assume s: "s = ApplyForma env d forma config clientID n" "late = {}"
  show ?thesis
  proof (rule apply_cases [of env d forma config clientID n d' effects res])
    fix fa b cs
    assume fa: "FormaCommandFromForma env forma config CommandApply d clientID FormaCommandSourceUser n = Inr fa"
      and "\<not> sc_Simulate config"
      and eq: "(effects, res) = (if \<not> b then ([], Inl FailedToStoreCommand)
       else (case launch env (fc_ID fa) (Some cs) of
                 (ef, Some err) \<Rightarrow> (ef, Inl err)
               | (ef, None) \<Rightarrow> (ef, Inr (response fa False zero_api_Command))))"
    then show ?thesis
      using command_fields(1) [OF fa] by (auto simp: launch_def split: if_splits call_outcome.splits)
  qed (use s assms(3) in auto)
next
  assume s: "s = DestroyForma env d forma config clientID n" "late = {ChangesetFailed FormaCyclesDetectedError}"
  show ?thesis
  proof (rule destroy_cases [of env d forma config clientID n d' effects res])
    fix fa b
    assume fa: "FormaCommandFromForma env forma config CommandDestroy d clientID FormaCommandSourceUser n = Inr fa"
      and sim: "\<not> sc_Simulate config"
      and eq: "(effects, res) = (if \<not> b then ([], Inl FailedToStoreCommand)
       else (case NewChangesetFromResourceUpdates (me_ord env) (fc_ResourceUpdates fa) (fc_ID fa) of
               None \<Rightarrow> ([], Inl GoPanic)
             | Some (Inl err) \<Rightarrow> ([], Inl (ChangesetFailed err))
             | Some (Inr cs) \<Rightarrow> (case launch env (fc_ID fa) (Some cs) of
                 (ef, Some err) \<Rightarrow> (ef, Inl err)
               | (ef, None) \<Rightarrow> (ef, Inr (response fa True (translateToAPICommand fa))))))"
    consider "NewChangesetFromResourceUpdates (me_ord env) (fc_ResourceUpdates fa) (fc_ID fa) = Some (Inl FormaCyclesDetectedError)"
      | c where "NewChangesetFromResourceUpdates (me_ord env) (fc_ResourceUpdates fa) (fc_ID fa) = Some (Inr c)"
      using new_changeset_cases [OF assms(1)] by blast
    then show ?thesis
      using eq sim s(2) command_fields(1) [OF fa] by cases (auto simp: launch_def split: if_splits call_outcome.splits)
  qed (use s assms(3) in auto)
qed

theorem submission_all_or_nothing_witness:
  "fst (ApplyForma sample_ms sample_ds stack_forma (reconcile_config\<lparr>sc_Mode := None\<rparr>) ''client'' 0) = sample_ds \<and>
   fst (snd (ApplyForma sample_ms sample_ds stack_forma (reconcile_config\<lparr>sc_Mode := None\<rparr>) ''client'' 0)) = []"
proof -
  let ?s = "ApplyForma sample_ms sample_ds stack_forma (reconcile_config\<lparr>sc_Mode := None\<rparr>) ''client'' 0"
  obtain d' effects res where s: "?s = (d', effects, res)" by (metis surj_pair)
  have "case snd (snd ?s) of Inl e \<Rightarrow> e = PatchRejected | Inr r \<Rightarrow> False" by code_simp
  then have "res = Inl PatchRejected" by (auto simp: s split: sum.splits)
  moreover have "range_orders (me_ord sample_ms)" by (simp add: sample_ms_def sample_orders)
  ultimately have "d' = sample_ds \<and> effects = []"
    using submission_all_or_nothing [of sample_ms ?s sample_ds stack_forma "reconcile_config\<lparr>sc_Mode := None\<rparr>" "''client''" 0 "{}"] s
    by auto
  then show ?thesis by (simp add: s)
qed

section \<open>What the checks miss\<close>

lemma incomplete_after_store:
  assumes "fc_State fa = CommandStateNotStarted" "i \<notin> cr_command_id ` set (ds_commands d)"
  shows "LoadIncompleteFormaCommands (fst (StoreFormaCommand d fa i)) = LoadIncompleteFormaCommands d"
proof -
  have "filter (\<lambda>r. cr_command_id r \<noteq> i) (ds_commands d) = ds_commands d"
    using assms(2) by (auto simp: filter_id_conv)
  then show ?thesis
    by (simp add: StoreFormaCommand_def LoadIncompleteFormaCommands_def replace_into_def assms(1) split: option.split)
qed

text \<open>C23: A command is invisible until its first progress report. It is stored in the state \<open>NotStarted\<close>,
  while the check for conflicting commands and the restart load the commands that are in
  progress: after a submission, of a forma that is applied or destroyed, both find exactly what they
  would have found before it. Two submissions that follow each other closely are both admitted on the same
  stack, and a command that the agent was stopped on before the first report is not run again.\<close>

theorem submission_invisible:
  assumes "ApplyForma env d forma config clientID n = (d', effects, res) \<or>
      DestroyForma env d forma config clientID n = (d', effects, res)"
    "me_newID env \<notin> cr_command_id ` set (ds_commands d)"
  shows "checkForConflictingCommands d' other = checkForConflictingCommands d other \<and>
    ReRunIncompleteCommands env' d' = ReRunIncompleteCommands env' d"
proof -
  have "LoadIncompleteFormaCommands d' = LoadIncompleteFormaCommands d"
    using submitted_datastore [OF assms(1)] incomplete_after_store [OF _ assms(2)] by auto
  then show ?thesis by (simp add: checkForConflictingCommands_def ReRunIncompleteCommands_def)
qed

theorem submission_invisible_witness:
  "map effect_outline (fst (snd (ApplyForma sample_ms sample_ds stack_forma reconcile_config ''client'' 0))) =
     [(''cmd'', None), (''cmd'', Some [''k2//create''])] \<and>
   ReRunIncompleteCommands sample_ms (fst (ApplyForma sample_ms sample_ds stack_forma reconcile_config ''client'' 0)) = ([], None)"
proof -
  let ?s = "ApplyForma sample_ms sample_ds stack_forma reconcile_config ''client'' 0"
  obtain d' effects res where s: "?s = (d', effects, res)" by (metis surj_pair)
  have "me_newID sample_ms \<notin> cr_command_id ` set (ds_commands sample_ds)"
    by (simp add: sample_ds_def StoreTarget_def NewDatastoreSQLite_def LoadTarget_def split: option.split)
  from submission_invisible [OF disjI1 [OF s] this] have
    "ReRunIncompleteCommands sample_ms d' = ReRunIncompleteCommands sample_ms sample_ds" by blast
  moreover have "LoadIncompleteFormaCommands sample_ds = []"
    by (simp add: LoadIncompleteFormaCommands_def sample_ds_def StoreTarget_def NewDatastoreSQLite_def LoadTarget_def split: option.split)
  ultimately show ?thesis using sample_apply by (simp add: s ReRunIncompleteCommands_def)
qed


section \<open>What the checks report\<close>

lemma incomplete_ids:
  assumes "ds_ok d" "rows_agree d" shows "distinct (map fc_ID (LoadIncompleteFormaCommands d))"
proof -
  have "map fc_ID (LoadIncompleteFormaCommands d) = map cr_command_id (filter (\<lambda>r. cr_command r \<noteq> ''sync'' \<and>
     cr_state r = command_state_string CommandStateInProgress) (ds_commands d))"
    using assms(2) by (auto simp: LoadIncompleteFormaCommands_def rows_agree_def)
  then show ?thesis using assms(1) by (simp add: ds_ok_def distinct_map_filter)
qed

text \<open>The check for conflicting commands reports precisely what is in the way. On a datastore whose rows agree with
  their commands, it passes when no running command that shares a declared stack has an open
  write, and otherwise it names those commands, in the order of the datastore, each with its open
  writes alone.\<close>

theorem conflicts_reported:
  assumes "ds_ok d" "rows_agree d"
  shows "checkForConflictingCommands d fa =
    (let cs = filter (conflicting d (forma_Stacks (fc_Forma fa))) (LoadIncompleteFormaCommands d)
     in if cs = [] then None else Some (ConflictingCommands (map (\<lambda>c. translateToAPICommand (open_part c)) cs)))"
proof (cases "checkForConflictingCommands d fa")
  case None
  then show ?thesis by (simp add: no_conflict_iff)
next
  case (Some e)
  have "\<exists>c. conflicting d (forma_Stacks (fc_Forma fa)) c"
    using Some no_conflict_iff [of d fa] by auto
  then have "filter (conflicting d (forma_Stacks (fc_Forma fa))) (LoadIncompleteFormaCommands d) \<noteq> []"
    by (auto simp: filter_empty_conv conflicting_def)
  with conflicts_listed [OF incomplete_ids [OF assms] Some] Some show ?thesis by simp
qed

definition busy_command :: FormaCommand where
  "busy_command = NewFormaCommand ''old'' 1 1 (zero_Forma\<lparr>forma_Stacks := [\<lparr>stk_Label = ''s'', stk_Description = ''''\<rparr>]\<rparr>)
     \<lparr>cfg_Mode = FormaApplyModeReconcile, cfg_Force = False, cfg_Simulate = False\<rparr> CommandApply
     [zero_ResourceUpdate\<lparr>ru_Operation := OperationCreate, ru_State := ResourceUpdateStateSuccess\<rparr>,
      zero_ResourceUpdate\<lparr>ru_Operation := OperationDelete, ru_State := ResourceUpdateStateInProgress\<rparr>] ''client''"

definition busy_ds :: datastore where
  "busy_ds = fst (StoreFormaCommand sample_ds (busy_command\<lparr>fc_State := CommandStateInProgress\<rparr>) ''old'')"

lemma busy_ds_ok: "ds_ok busy_ds" "rows_agree busy_ds"
proof -
  have cmds: "map (\<lambda>r. (cr_command_id r, cr_state r, cr_command r, fc_ID (cr_data r), fc_State (cr_data r), fc_Command (cr_data r))) (ds_commands busy_ds) =
      [(''old'', ''InProgress'', ''apply'', ''old'', CommandStateInProgress, CommandApply)]"
    by code_simp
  have rest: "ds_resources busy_ds = ds_resources sample_ds" "ds_targets busy_ds = ds_targets sample_ds"
    by (simp_all add: busy_ds_def StoreFormaCommand_def split: option.split)
  have "\<forall>row \<in> set (ds_commands busy_ds). stored_FormaCommand (cr_data row) = Some (cr_data row)"
    unfolding busy_ds_def StoreFormaCommand_def
    by (auto simp: replace_into_def sample_ds_def StoreTarget_def NewDatastoreSQLite_def LoadTarget_def
        dest: stored_FormaCommand_idem split: option.splits)
  then show "ds_ok busy_ds" "rows_agree busy_ds"
    using cmds sample_ds_ok by (auto simp: ds_ok_def rows_agree_def rest map_eq_Cons_conv)
qed

theorem conflicts_reported_witness:
  "\<exists>c. checkForConflictingCommands busy_ds busy_command = Some (ConflictingCommands [c]) \<and>
     ac_CommandID c = ''old'' \<and> map au_Operation (ac_ResourceUpdates c) = [''delete'']"
proof -
  let ?cs = "filter (conflicting busy_ds (forma_Stacks (fc_Forma busy_command))) (LoadIncompleteFormaCommands busy_ds)"
  have "(case checkForConflictingCommands busy_ds busy_command of Some (ConflictingCommands [c]) \<Rightarrow>
      ac_CommandID c = ''old'' \<and> map au_Operation (ac_ResourceUpdates c) = [''delete''] | _ \<Rightarrow> False)"
    by code_simp
  with conflicts_reported [OF busy_ds_ok, of busy_command] show ?thesis
    by (auto simp: Let_def split: option.splits ms_error.splits list.splits if_splits)
qed

section \<open>Restart\<close>

definition rerun_changeset :: "ms_env \<Rightarrow> FormaCommand \<Rightarrow> Changeset option" where
  "rerun_changeset env fa = (case NewChangesetFromResourceUpdates (me_ord env) (fc_ResourceUpdates (reset_updates fa)) (fc_ID fa) of
     Some (Inr cs) \<Rightarrow> Some cs | _ \<Rightarrow> None)"

lemma rerun_all:
  assumes "range_orders (me_ord env)" "\<forall>c \<in> set cs. me_ensure env (fc_ID c) = Answered \<and> me_start env (fc_ID c)"
  shows "rerun env cs = (concat (map (\<lambda>c. [EnsuredExecutor (fc_ID c), StartedExecutor (fc_ID c) (rerun_changeset env c)]) cs), None)"
  using assms(2)
proof (induction cs)
  case (Cons c cs)
  consider "NewChangesetFromResourceUpdates (me_ord env) (fc_ResourceUpdates (reset_updates c)) (fc_ID c) = Some (Inl FormaCyclesDetectedError)"
    | k where "NewChangesetFromResourceUpdates (me_ord env) (fc_ResourceUpdates (reset_updates c)) (fc_ID c) = Some (Inr k)"
    using new_changeset_cases [OF assms(1)] by blast
  then show ?case
    using Cons by cases (simp_all add: launch_def rerun_changeset_def)
qed simp

lemma reset_ops:
  "op_URI ` set (all_ops (fc_ResourceUpdates (reset_updates c))) = op_URI ` set (all_ops (fc_ResourceUpdates c))"
proof -
  have "op_URI ` set (split_replace (u\<lparr>ru_State := s\<rparr>)) = op_URI ` set (split_replace u)" for u s
    by (simp add: ru_URI_def)
  then show ?thesis by (simp add: all_ops_def reset_updates_def image_UN del: split_replace.simps)
qed

lemma changeset_keys:
  assumes "range_orders ord" "NewChangesetFromResourceUpdates ord us cid = Some (Inr c)"
  shows "set (cs_keys c) = op_URI ` set (all_ops us)"
proof -
  have "set (map fst (create_groups ops)) = op_URI ` set ops" for ops
    unfolding create_groups_def by (induction ops rule: rev_induct) (auto simp: dom_update)
  then show ?thesis
    using assms(2) by (cases rule: pipeline_Init_cases [OF assms(1), of us])
      (auto simp: NewChangesetFromResourceUpdates_def)
qed

text \<open>After a restart every interrupted command runs again, and all of it. When the supervisors answer, an
  executor is started for each command that is in progress, once and in the order of the datastore,
  with a changeset of all its updates, those that had already succeeded or failed before the stop
  included, all of them as not started.\<close>

theorem restart_runs_everything_again:
  assumes "range_orders (me_ord env)" "\<forall>i. me_ensure env i = Answered \<and> me_start env i"
  shows "ReRunIncompleteCommands env d = (concat (map (\<lambda>c. [EnsuredExecutor (fc_ID c),
      StartedExecutor (fc_ID c) (rerun_changeset env c)]) (LoadIncompleteFormaCommands d)), None) \<and>
    (case rerun_changeset env c of
       None \<Rightarrow> \<not> acyclic (dependency_edges (all_ops (fc_ResourceUpdates (reset_updates c))))
     | Some cs \<Rightarrow> set (cs_keys cs) = op_URI ` set (all_ops (fc_ResourceUpdates c)))"
proof -
  have "case rerun_changeset env c of
       None \<Rightarrow> \<not> acyclic (dependency_edges (all_ops (fc_ResourceUpdates (reset_updates c))))
     | Some cs \<Rightarrow> set (cs_keys cs) = op_URI ` set (all_ops (fc_ResourceUpdates c))"
    using new_changeset_cases [OF assms(1), of "fc_ResourceUpdates (reset_updates c)" "fc_ID c"]
      changeset_keys [OF assms(1)] reset_ops [of c]
    by (auto simp: rerun_changeset_def)
  with rerun_all [OF assms(1), of "LoadIncompleteFormaCommands d"] assms(2) show ?thesis
    by (simp add: ReRunIncompleteCommands_def)
qed

theorem restart_runs_everything_again_witness:
  "\<exists>cs. ReRunIncompleteCommands sample_ms busy_ds = ([EnsuredExecutor ''old'', StartedExecutor ''old'' (Some cs)], None) \<and>
    set (cs_keys cs) = {''//create'', ''//delete''}"
proof -
  have all: "map effect_outline (fst (ReRunIncompleteCommands sample_ms busy_ds)) =
      [(''old'', None), (''old'', Some [''//create'', ''//delete''])]"
    by code_simp
  obtain c where c: "LoadIncompleteFormaCommands busy_ds = [c]" "fc_ID c = ''old''"
  proof -
    have "map fc_ID (LoadIncompleteFormaCommands busy_ds) = [''old'']" by code_simp
    then show thesis using that by (auto simp: map_eq_Cons_conv)
  qed
  have "range_orders (me_ord sample_ms)" "\<forall>i. me_ensure sample_ms i = Answered \<and> me_start sample_ms i"
    by (simp_all add: sample_ms_def sample_orders)
  note runs = restart_runs_everything_again [OF this, of busy_ds c]
  with c have eq: "ReRunIncompleteCommands sample_ms busy_ds =
      ([EnsuredExecutor ''old'', StartedExecutor ''old'' (rerun_changeset sample_ms c)], None)" by simp
  with all have "(case rerun_changeset sample_ms c of None \<Rightarrow> [] | Some k \<Rightarrow> cs_keys k) = [''//create'', ''//delete'']"
    by simp
  then obtain k where "rerun_changeset sample_ms c = Some k" "cs_keys k = [''//create'', ''//delete'']"
    by (cases "rerun_changeset sample_ms c") auto
  with eq show ?thesis by auto
qed


end
