(* ===== verification/Synchronizer.thy ===== *)
theory Synchronizer
  imports Metastructure_Facts
begin

text \<open>
  \<^verbatim>\<open>internal/metastructure/synchronizer.go\<close>: the actor that reads all stored resources
  from the plugins, periodically and on request. A handler is a function of the datastore, of the answers of the
  actors it calls and of its state; \<open>None\<close> for the new state means that it ends the actor.
\<close>

section \<open>Definitions\<close>

datatype sync_state = StateIdle | StateSynchronizing

record SynchronizerData =
  sd_Interval :: int
  sd_isScheduledSync :: bool
  sd_timeStarted :: go_time
  sd_commandID :: string

text \<open>Besides the answers of \<open>ms_env\<close>: the clock, and whether a timer can be set.\<close>

record sync_env =
  se_ms :: ms_env
  se_now :: go_time
  se_SendAfter :: bool

datatype sync_out = SyncSent ms_effect | OutSynchronizeAfter int

type_synonym sync_result = "datastore \<times> sync_out list \<times> (sync_state \<times> SynchronizerData) option"

definition scheduleNextSync :: "sync_env \<Rightarrow> SynchronizerData \<Rightarrow> sync_out list option" where
  "scheduleNextSync env data =
     (if sd_isScheduledSync data
      then (if se_SendAfter env then Some [OutSynchronizeAfter (sd_Interval data)] else None)
      else Some [])"

definition sync_updates :: "ms_env \<Rightarrow> datastore \<Rightarrow> Forma list \<Rightarrow> ResourceUpdate list gen" where
  "sync_updates env d stacks = gconcat (\<lambda>stack. GenerateResourceUpdates (me_gen env) stack CommandSync FormaApplyModePatch
     FormaCommandSourceSynchronize (LoadAllTargets d) (datastore_lookup (ge_ord (me_gen env)) d) None) stacks"

definition sync_command :: "ms_env \<Rightarrow> ResourceUpdate list \<Rightarrow> FormaCommand" where
  "sync_command env updates = NewFormaCommand (me_newID env) (me_now1 env) (me_now2 env)
     (zero_Forma\<lparr>forma_Resources := map ru_Resource updates\<rparr>)
     \<lparr>cfg_Mode = FormaApplyModePatch, cfg_Force = False, cfg_Simulate = False\<rparr> CommandSync updates ''''"

text \<open>The error of \<^verbatim>\<open>NewChangesetFromResourceUpdates\<close> is ignored; then the zero changeset is
  sent.\<close>

definition synchronizeAllResources ::
  "sync_env \<Rightarrow> datastore \<Rightarrow> nat \<Rightarrow> sync_state \<Rightarrow> SynchronizerData \<Rightarrow> sync_result" where
  "synchronizeAllResources env d n state data =
     (case LoadAllStacks (ge_ord (me_gen (se_ms env))) d of
        Inl err \<Rightarrow> (d, [], None)
      | Inr stacks \<Rightarrow>
          (case sync_updates (se_ms env) d stacks n of
             Inl err \<Rightarrow> (d, [], None)
           | Inr (allResourceUpdates, _) \<Rightarrow>
               if length allResourceUpdates = 0 then
                 (d, (case scheduleNextSync env data of None \<Rightarrow> ([], None) | Some outs \<Rightarrow> (outs, Some (StateIdle, data))))
               else let syncCommand = sync_command (se_ms env) allResourceUpdates;
                        data = data\<lparr>sd_commandID := fc_ID syncCommand\<rparr>;
                        (d', okay) = store_new (se_ms env) d syncCommand
                    in if \<not> okay then (d', [], None)
                       else (case NewChangesetFromResourceUpdates (me_ord (se_ms env)) allResourceUpdates (fc_ID syncCommand) of
                               None \<Rightarrow> (d', [], None)
                             | Some r \<Rightarrow>
                                 (case launch (se_ms env) (fc_ID syncCommand) (case r of Inl err \<Rightarrow> None | Inr cs \<Rightarrow> Some cs) of
                                    (effects, Some err) \<Rightarrow> (d', map SyncSent effects, None)
                                  | (effects, None) \<Rightarrow> (d', map SyncSent effects, Some (StateSynchronizing, data))))))"

definition synchronize ::
  "sync_env \<Rightarrow> datastore \<Rightarrow> nat \<Rightarrow> sync_state \<Rightarrow> SynchronizerData \<Rightarrow> bool \<Rightarrow> sync_result" where
  "synchronize env d n state data once =
     (let data = data\<lparr>sd_isScheduledSync := \<not> once, sd_timeStarted := se_now env\<rparr>
      in if state = StateSynchronizing then (d, [], Some (state, data))
         else synchronizeAllResources env d n state data)"

definition changesetCompleted :: "sync_state \<Rightarrow> SynchronizerData \<Rightarrow> string \<Rightarrow> sync_state \<times> SynchronizerData" where
  "changesetCompleted state data commandID =
     (if commandID \<noteq> sd_commandID data then (state, data) else (StateIdle, data))"

definition sync_onStateChange ::
  "sync_env \<Rightarrow> sync_state \<Rightarrow> sync_state \<Rightarrow> SynchronizerData \<Rightarrow> sync_out list \<times> (sync_state \<times> SynchronizerData) option" where
  "sync_onStateChange env oldState newState data =
     (if oldState = StateSynchronizing \<and> newState = StateIdle
      then (case scheduleNextSync env data of None \<Rightarrow> ([], None) | Some outs \<Rightarrow> (outs, Some (newState, data)))
      else ([], Some (newState, data)))"

text \<open>The messages of the actor. The state machine calls the enter callback when the state changes; a
  completion has no handler in the idle state and ends the actor.\<close>

datatype sync_msg = Synchronize bool | MsgChangesetCompleted string

definition sync_enter :: "sync_env \<Rightarrow> sync_state \<Rightarrow> sync_result \<Rightarrow> sync_result" where
  "sync_enter env oldState r = (case r of
       (d, outs, None) \<Rightarrow> (d, outs, None)
     | (d, outs, Some (newState, data)) \<Rightarrow>
         if newState = oldState then r
         else (let (outs', res) = sync_onStateChange env oldState newState data in (d, outs @ outs', res)))"

fun sync_handle ::
  "sync_env \<Rightarrow> datastore \<Rightarrow> nat \<Rightarrow> sync_state \<Rightarrow> SynchronizerData \<Rightarrow> sync_msg \<Rightarrow> sync_result" where
  "sync_handle env d n state data (Synchronize once) = sync_enter env state (synchronize env d n state data once)"
| "sync_handle env d n state data (MsgChangesetCompleted i) =
     (if state = StateSynchronizing then sync_enter env state (d, [], Some (changesetCompleted state data i))
      else (d, [], None))"

text \<open>\<^verbatim>\<open>Init\<close>: the first synchronisation is sent when the configuration enables it.\<close>

definition sync_init :: "bool \<Rightarrow> int \<Rightarrow> SynchronizerData \<times> sync_msg list" where
  "sync_init enabled interval =
     (\<lparr>sd_Interval = interval, sd_isScheduledSync = False, sd_timeStarted = 0, sd_commandID = ''''\<rparr>,
      if enabled then [Synchronize False] else [])"

section \<open>What a synchronisation reads\<close>

definition reads :: "FormaCommandSource \<Rightarrow> ResourceUpdate \<Rightarrow> bool" where
  "reads source u \<longleftrightarrow> fresh_update source u \<and> ru_Operation u = OperationRead"

lemma Filter_reads: "gpost (NewResourceUpdateForSyncWithFilter env r t source flt) (\<lambda>u. reads source u \<and> ru_Resource u = r)"
  unfolding NewResourceUpdateForSyncWithFilter_def Let_def
  by (intro gen_intros) (simp add: reads_def fresh_update_def zero_ResourceUpdate_def)

lemma Sync_reads: "gpost (NewResourceUpdateForSync env r t source) (\<lambda>u. reads source u \<and> ru_Resource u = r)"
  unfolding NewResourceUpdateForSync_def by (rule Filter_reads)

lemma yields_gopt:
  "(\<And>f. yields P g (S f) (F f)) \<Longrightarrow> yields P g (\<Union>f \<in> {f. x = Some f}. S f) (gbind (gopt e x) F)"
  by (cases x) (simp_all add: gopt_def yields_def gbind_def gret_def gerr_def gpost_def)

lemma sync_yields:
  assumes "source \<noteq> FormaCommandSourceDiscovery"
  shows "yields (reads source) ru_Resource
    (\<Union>s \<in> set (SplitByStack (ge_ord env) forma). \<Union>f \<in> {f. rl_LoadStack ds (SingleStackLabel s) = Inr (Some f)}.
      \<Union>r \<in> set (forma_Resources f). (\<lambda>_. r) ` {q \<in> set (forma_Resources forma). same_in_stack (SingleStackLabel s) q r})
    (generateResourceUpdatesForSync env forma source targetMap ds filters)"
  unfolding generateResourceUpdatesForSync_def
proof (rule yields_gconcat)
  fix s
  let ?loop = "\<lambda>f. gconcat (\<lambda>r. gmap (\<lambda>q. gbind (deref_target targetMap (res_Target r))
      (\<lambda>target. NewResourceUpdateForSync env r target source))
    (filter (\<lambda>q. same_in_stack (SingleStackLabel s) q r) (forma_Resources forma))) (forma_Resources f)"
  have "yields (reads source) ru_Resource
      (\<Union>r \<in> set (forma_Resources f). (\<lambda>_. r) ` {q \<in> set (forma_Resources forma). same_in_stack (SingleStackLabel s) q r})
      (?loop f)" for f
    by (intro yields_matching gpost_gbind gpost_deref Sync_reads)
  note loop = yields_gopt [of "reads source" ru_Resource _ ?loop, OF this]
  show "yields (reads source) ru_Resource
      (\<Union>f \<in> {f. rl_LoadStack ds (SingleStackLabel s) = Inr (Some f)}. \<Union>r \<in> set (forma_Resources f).
        (\<lambda>_. r) ` {q \<in> set (forma_Resources forma). same_in_stack (SingleStackLabel s) q r})
      (case rl_LoadStack ds (SingleStackLabel s) of
         Inl err \<Rightarrow> gret []
       | Inr existingStack \<Rightarrow>
           if source = FormaCommandSourceDiscovery
           then discovery_updates env forma (SingleStackLabel s) source targetMap filters
           else gbind (gopt (NilStack (SingleStackLabel s)) existingStack) ?loop)"
  proof (cases "rl_LoadStack ds (SingleStackLabel s)")
    case (Inr existing)
    with assms loop show ?thesis by simp
  qed (simp add: yields_Nil)
qed

lemma gbind_gret: "gbind (gret a) F = F a"
  by (simp add: gbind_def gret_def)

lemma gbind_gret_id: "gbind m gret = m"
  by (rule ext) (auto simp: gbind_def gret_def split: sum.split)

lemma yields_gbind: "(\<And>x. yields P g S (F x)) \<Longrightarrow> yields P g S (gbind m F)"
  unfolding yields_def by (rule gpost_gbind_all)

lemma sync_generate:
  assumes "range_order (ge_ord env)"
  shows "yields (reads FormaCommandSourceSynchronize) ru_Resource
    {r. \<exists>q \<in> set (forma_Resources forma). \<exists>f. rl_LoadStack ds (res_Stack q) = Inr (Some f) \<and>
      r \<in> set (forma_Resources f) \<and> res_Label q = res_Label r \<and> res_Type q = res_Type r}
    (GenerateResourceUpdates env forma CommandSync mode FormaCommandSourceSynchronize ts ds filters)"
  unfolding matching_stored [OF assms, symmetric] GenerateResourceUpdates_def Let_def
  by (simp add: gbind_gret gbind_gret_id yields_gbind sync_yields)

lemma stack_covered:
  assumes "ds_ok d" "range_order ord" "LoadAllStacks ord d = Inr stacks"
  shows "(\<Union>stack \<in> set stacks. {r. \<exists>q \<in> set (forma_Resources stack). \<exists>f. LoadStack d (res_Stack q) = Inr (Some f) \<and>
      r \<in> set (forma_Resources f) \<and> res_Label q = res_Label r \<and> res_Type q = res_Type r}) =
    {r. \<exists>row \<in> set (live_rows (ds_resources d)). rr_stack row \<noteq> '''' \<and> load_row row = Inr r}" (is "?U = ?R")
proof -
  obtain rs where rs: "load_rows (live_rows (ds_resources d)) = Inr rs"
    "list_all2 (\<lambda>row r. load_row row = Inr r) (live_rows (ds_resources d)) rs"
    "\<forall>row \<in> set (live_rows (ds_resources d)). \<forall>r. load_row row = Inr r \<longrightarrow> res_Stack r = rr_stack row \<and>
      res_Label r = rr_label row \<and> res_Type r = rr_type row"
    by (rule live_loaded [OF assms(1)], rule that)
  have stacks: "forma_Resources ` set stacks = (\<lambda>l. filter (\<lambda>r. res_Stack r = l) rs) ` {l. l \<noteq> '''' \<and> (\<exists>r \<in> set rs. res_Stack r = l)}"
    using LoadAllStacks_live [OF assms(2) rs(1)] assms(3) by auto
  have U: "?U = {r \<in> set rs. res_Stack r \<noteq> ''''}"
  proof
    show "?U \<subseteq> {r \<in> set rs. res_Stack r \<noteq> ''''}"
    proof
      fix r assume "r \<in> ?U"
      then obtain stack q f where q: "stack \<in> set stacks" "q \<in> set (forma_Resources stack)"
        "LoadStack d (res_Stack q) = Inr (Some f)" "r \<in> set (forma_Resources f)"
        by blast
      have "forma_Resources stack \<in> (\<lambda>l. filter (\<lambda>r. res_Stack r = l) rs) ` {l. l \<noteq> '''' \<and> (\<exists>r \<in> set rs. res_Stack r = l)}"
        using q(1) stacks by blast
      with q(2) have "res_Stack q \<noteq> ''''" by auto
      with q(3,4) show "r \<in> {r \<in> set rs. res_Stack r \<noteq> ''''}"
        by (auto simp: LoadStack_live [OF assms(1) rs(1)] split: if_splits)
    qed
    show "{r \<in> set rs. res_Stack r \<noteq> ''''} \<subseteq> ?U"
    proof
      fix r assume r: "r \<in> {r \<in> set rs. res_Stack r \<noteq> ''''}"
      then have "filter (\<lambda>x. res_Stack x = res_Stack r) rs \<in> forma_Resources ` set stacks"
        unfolding stacks by auto
      then obtain stack where stack: "stack \<in> set stacks" "filter (\<lambda>x. res_Stack x = res_Stack r) rs = forma_Resources stack"
        by auto
      have inn: "r \<in> set (filter (\<lambda>x. res_Stack x = res_Stack r) rs)" using r by simp
      then have "r \<in> set (forma_Resources stack)" unfolding stack(2) .
      moreover have "LoadStack d (res_Stack r) = Inr (Some (FormaFromResources (filter (\<lambda>x. res_Stack x = res_Stack r) rs)))"
        using inn by (auto simp: LoadStack_live [OF assms(1) rs(1)] filter_empty_conv)
      ultimately show "r \<in> ?U" using stack(1) inn by fastforce
    qed
  qed
  have "r \<in> set rs \<longleftrightarrow> (\<exists>row \<in> set (live_rows (ds_resources d)). load_row row = Inr r)" for r
    using rs(2) by (induction rule: list_all2_induct) auto
  then show ?thesis unfolding U using rs(3) by auto
qed

lemma sync_updates_read:
  assumes "ds_ok d" "range_order (ge_ord (me_gen env))" "LoadAllStacks (ge_ord (me_gen env)) d = Inr stacks"
    "sync_updates env d stacks n = Inr (us, n')"
  shows "(\<forall>u \<in> set us. reads FormaCommandSourceSynchronize u) \<and>
    ru_Resource ` set us = {r. \<exists>row \<in> set (live_rows (ds_resources d)). rr_stack row \<noteq> '''' \<and> load_row row = Inr r}"
proof -
  have load: "rl_LoadStack (datastore_lookup ord d) = LoadStack d" for ord by (simp add: datastore_lookup_def)
  have "yields (reads FormaCommandSourceSynchronize) ru_Resource
      (\<Union>stack \<in> set stacks. {r. \<exists>q \<in> set (forma_Resources stack). \<exists>f. LoadStack d (res_Stack q) = Inr (Some f) \<and>
      r \<in> set (forma_Resources f) \<and> res_Label q = res_Label r \<and> res_Type q = res_Type r}) (sync_updates env d stacks)"
    unfolding sync_updates_def
    by (rule yields_gconcat) (rule sync_generate [OF assms(2), of _ "datastore_lookup (ge_ord (me_gen env)) d", unfolded load])
  from gpostD [OF this [unfolded yields_def stack_covered [OF assms(1-3)]] assms(4)] show ?thesis .
qed

text \<open>Reads never wait for each other.\<close>

lemma reads_acyclic:
  assumes "\<forall>u \<in> set us. ru_Operation u = OperationRead"
  shows "acyclic (dependency_edges (all_ops us))"
proof -
  have ops: "all_ops us = us" using assms by (induction us) (auto simp: all_ops_def)
  have none: "collect_ops p key us = []" if "\<And>u. u \<in> set us \<Longrightarrow> \<not> p u" for p key
    using that unfolding collect_ops_def by (induction us) auto
  have "dependency_edges us = {}"
    using assms by (auto simp: dependency_edges_def delete_edges_def create_edges_def connect_edges_def none)
  then show ?thesis by (simp add: ops acyclic_def)
qed


text \<open>C13: A synchronisation reads everything that is stored. When the idle synchroniser starts one, it has stored
  a sync command and started one executor with a changeset; the comment that reads never contain cycles is
  right. Every update of the command is a read, and the resources read are exactly the live resources of the
  datastore that are in a stack, managed or not, each with its stored content.\<close>

theorem sync_reads_everything:
  assumes "ds_ok d" "range_order (ge_ord (me_gen (se_ms env)))" "range_orders (me_ord (se_ms env))"
    "sync_handle env d n StateIdle data (Synchronize once) = (d', outs, Some (StateSynchronizing, data'))"
  shows "\<exists>us cs e. outs = [SyncSent (EnsuredExecutor (sd_commandID data')), SyncSent (StartedExecutor (sd_commandID data') (Some cs))] \<and>
    NewChangesetFromResourceUpdates (me_ord (se_ms env)) us (sd_commandID data') = Some (Inr cs) \<and>
    stored_FormaCommand (sync_command (se_ms env) us) = Some e \<and> GetFormaCommandByCommandID d' (sd_commandID data') = Inr e \<and>
    (\<forall>u \<in> set us. reads FormaCommandSourceSynchronize u) \<and>
    ru_Resource ` set us = {r. \<exists>row \<in> set (live_rows (ds_resources d)). rr_stack row \<noteq> '''' \<and> load_row row = Inr r}"
proof -
  let ?ms = "se_ms env"
  obtain stacks where stacks: "LoadAllStacks (ge_ord (me_gen ?ms)) d = Inr stacks"
    using known_stacks [OF assms(1,2)] by blast
  obtain us n' where us: "sync_updates ?ms d stacks n = Inr (us, n')"
    using assms(4) by (auto simp: synchronize_def synchronizeAllResources_def sync_enter_def Let_def stacks split: sum.splits)
  have ne: "us \<noteq> []"
    using assms(4) by (auto simp: synchronize_def synchronizeAllResources_def sync_enter_def Let_def stacks us
        scheduleNextSync_def split: if_splits)
  note rd = sync_updates_read [OF assms(1,2) stacks us]
  let ?c = "sync_command ?ms us"
  have i: "fc_ID ?c = me_newID ?ms" by (simp add: sync_command_def NewFormaCommand_def)
  obtain cs where cs: "NewChangesetFromResourceUpdates (me_ord ?ms) us (me_newID ?ms) = Some (Inr cs)"
    using new_changeset_cases [OF assms(3), of us "me_newID ?ms"] reads_acyclic [of us] rd by (auto simp: reads_def)
  obtain d1 b where b: "store_new ?ms d ?c = (d1, b)" by (cases "store_new ?ms d ?c")
  have ok: "b"
    and res: "d' = d1" "sd_commandID data' = me_newID ?ms"
      "outs = [SyncSent (EnsuredExecutor (me_newID ?ms)), SyncSent (StartedExecutor (me_newID ?ms) (Some cs))]"
    using assms(4) ne
    by (auto simp: synchronize_def synchronizeAllResources_def sync_enter_def Let_def stacks us i b cs launch_def
        sync_onStateChange_def split: if_splits call_outcome.splits)
  obtain e where "stored_FormaCommand ?c = Some e" "GetFormaCommandByCommandID d1 (me_newID ?ms) = Inr e"
    using store_read_back [of d ?c "me_newID ?ms" d1] store_new_ok [of ?ms d ?c d1] b ok(1) i by auto
  with rd cs res show ?thesis by (intro exI [of _ us] exI [of _ cs] exI [of _ e]) simp
qed

definition sample_se :: sync_env where
  "sample_se = \<lparr>se_ms = sample_ms, se_now = 5, se_SendAfter = True\<rparr>"

definition sync_ds :: datastore where
  "sync_ds = fst (StoreResource ''id'' ''v1'' sample_ds (sample_r\<lparr>res_Target := ''t''\<rparr>) ''c1'')"

definition sample_sd :: SynchronizerData where
  "sample_sd = fst (sync_init True 60)"

fun sync_outline :: "sync_out \<Rightarrow> (string \<times> string list option) option" where
  "sync_outline (SyncSent e) = Some (effect_outline e)"
| "sync_outline (OutSynchronizeAfter i) = None"

lemma sample_sync:
  "(case sync_handle sample_se sync_ds 0 StateIdle sample_sd (Synchronize False) of (d', outs, res) \<Rightarrow>
     map sync_outline outs = [Some (''cmd'', None), Some (''cmd'', Some [''k1//read''])] \<and>
     (case res of Some (st, data') \<Rightarrow> st = StateSynchronizing \<and> sd_commandID data' = ''cmd'' \<and> sd_isScheduledSync data' | None \<Rightarrow> False))"
  by code_simp

lemma sync_ds_ok: "ds_ok sync_ds"
  unfolding sync_ds_def by (rule StoreResource_ok [OF sample_ds_ok])

theorem sync_reads_everything_witness:
  "\<exists>d' outs st data'. sync_handle sample_se sync_ds 0 StateIdle sample_sd (Synchronize False) = (d', outs, Some (st, data')) \<and>
     map sync_outline outs = [Some (''cmd'', None), Some (''cmd'', Some [''k1//read''])] \<and>
     (\<exists>e. GetFormaCommandByCommandID d' ''cmd'' = Inr e)"
proof -
  obtain d' outs res where r: "sync_handle sample_se sync_ds 0 StateIdle sample_sd (Synchronize False) = (d', outs, res)"
    by (metis surj_pair)
  from sample_sync have f: "map sync_outline outs = [Some (''cmd'', None), Some (''cmd'', Some [''k1//read''])]"
    "case res of Some (st, data') \<Rightarrow> st = StateSynchronizing \<and> sd_commandID data' = ''cmd'' \<and> sd_isScheduledSync data' | None \<Rightarrow> False"
    by (simp_all only: r prod.case)
  then obtain data' where d: "res = Some (StateSynchronizing, data')" "sd_commandID data' = ''cmd''"
    by (auto split: option.splits)
  have "range_order (ge_ord (me_gen (se_ms sample_se)))" "range_orders (me_ord (se_ms sample_se))"
    by (simp_all add: sample_se_def sample_ms_def sample_gen_order sample_orders)
  from sync_reads_everything [OF sync_ds_ok this r [unfolded d(1)]] have "\<exists>e. GetFormaCommandByCommandID d' ''cmd'' = Inr e"
    unfolding d(2) by (elim exE conjE) blast
  with r f(1) d(1) show ?thesis
    by (intro exI [of _ d'] exI [of _ outs] exI [of _ StateSynchronizing] exI [of _ data']) simp
qed

section \<open>The schedule\<close>

text \<open>
  The actor among the messages that concern its schedule: scheduled messages that are under way or waiting
  for their timer, forced ones, and completions. The datastore and the answers of the other actors are
  arbitrary at every step. A handler that ends the actor has no step.
\<close>

record sync_machine =
  sm_state :: sync_state
  sm_data :: SynchronizerData
  sm_timers :: nat

datatype sync_event = SyncTimer | SyncForced | SyncCompleted string

definition scheduled :: "sync_out list \<Rightarrow> nat" where
  "scheduled outs = length (filter (\<lambda>x. case x of OutSynchronizeAfter i \<Rightarrow> True | _ \<Rightarrow> False) outs)"

inductive sync_step :: "sync_machine \<Rightarrow> sync_event \<Rightarrow> sync_machine \<Rightarrow> bool" where
  timer: "0 < sm_timers x \<Longrightarrow> sync_handle env d n (sm_state x) (sm_data x) (Synchronize False) = (d', outs, Some (st, data)) \<Longrightarrow>
    sync_step x SyncTimer \<lparr>sm_state = st, sm_data = data, sm_timers = sm_timers x - 1 + scheduled outs\<rparr>"
| forced: "sync_handle env d n (sm_state x) (sm_data x) (Synchronize True) = (d', outs, Some (st, data)) \<Longrightarrow>
    sync_step x SyncForced \<lparr>sm_state = st, sm_data = data, sm_timers = sm_timers x + scheduled outs\<rparr>"
| completed: "sync_handle env d n (sm_state x) (sm_data x) (MsgChangesetCompleted i) = (d', outs, Some (st, data)) \<Longrightarrow>
    sync_step x (SyncCompleted i) \<lparr>sm_state = st, sm_data = data, sm_timers = sm_timers x + scheduled outs\<rparr>"

inductive_cases sync_stepE: "sync_step x e y"

definition sync_start :: "sync_machine \<Rightarrow> bool" where
  "sync_start x \<longleftrightarrow> (\<exists>enabled interval. x = \<lparr>sm_state = StateIdle, sm_data = fst (sync_init enabled interval),
     sm_timers = length (snd (sync_init enabled interval))\<rparr>)"

definition owed :: "sync_machine \<Rightarrow> nat" where
  "owed x = sm_timers x + (if sm_state x = StateSynchronizing \<and> sd_isScheduledSync (sm_data x) then 1 else 0)"

text \<open>What the handlers do to the schedule.\<close>

lemma synchronize_cases:
  assumes "sync_handle env d n st data (Synchronize once) = (d', outs, Some (st', data'))"
  obtains (running) "st = StateSynchronizing" "st' = StateSynchronizing" "scheduled outs = 0" "sd_isScheduledSync data' = (\<not> once)"
  | (none_found) "st = StateIdle" "st' = StateIdle" "scheduled outs = (if once then 0 else 1)"
  | (started) "st = StateIdle" "st' = StateSynchronizing" "scheduled outs = 0" "sd_isScheduledSync data' = (\<not> once)"
proof (cases st)
  case StateSynchronizing
  show thesis by (rule running) (use assms StateSynchronizing in \<open>auto simp: synchronize_def sync_enter_def scheduled_def Let_def\<close>)
next
  case StateIdle
  let ?data = "data\<lparr>sd_isScheduledSync := \<not> once, sd_timeStarted := se_now env\<rparr>"
  obtain d1 o1 r1 where r: "synchronizeAllResources env d n StateIdle ?data = (d1, o1, r1)" by (metis surj_pair)
  have sent: "filter (\<lambda>x. case x of OutSynchronizeAfter i \<Rightarrow> True | _ \<Rightarrow> False) (map SyncSent es) = []" for es
    by (induction es) auto
  have "(\<exists>s1 x1. r1 = Some (s1, x1) \<and> (s1 = StateIdle \<and> scheduled o1 = (if once then 0 else 1) \<or>
      s1 = StateSynchronizing \<and> scheduled o1 = 0 \<and> sd_isScheduledSync x1 = (\<not> once)))" if "r1 \<noteq> None"
    using r that unfolding synchronizeAllResources_def
    by (auto simp: Let_def scheduleNextSync_def scheduled_def sent split: sum.splits prod.splits option.splits if_splits)
  then have "st' = StateIdle \<and> scheduled outs = (if once then 0 else 1) \<or>
      st' = StateSynchronizing \<and> scheduled outs = 0 \<and> sd_isScheduledSync data' = (\<not> once)"
    using assms r StateIdle by (cases r1) (auto simp: synchronize_def sync_enter_def sync_onStateChange_def Let_def)
  then show thesis by (elim disjE conjE) (rule none_found [OF StateIdle] started [OF StateIdle]; assumption)+
qed

lemma completed_cases:
  assumes "sync_handle env d n st data (MsgChangesetCompleted i) = (d', outs, Some (st', data'))"
  shows "st = StateSynchronizing \<and> data' = data \<and>
    (st' = StateSynchronizing \<and> scheduled outs = 0 \<or>
     st' = StateIdle \<and> scheduled outs = (if sd_isScheduledSync data then 1 else 0))"
  using assms by (auto simp: changesetCompleted_def sync_enter_def sync_onStateChange_def scheduleNextSync_def scheduled_def
      split: if_splits option.splits)

lemma sync_step_owed: "sync_step x e y \<Longrightarrow> owed y \<le> owed x"
proof (induction rule: sync_step.induct)
  case (timer x env d n d' outs st data)
  from timer(2) show ?case by (rule synchronize_cases) (use timer(1) in \<open>auto simp: owed_def\<close>)
next
  case (forced env d n x d' outs st data)
  from forced show ?case by (rule synchronize_cases) (auto simp: owed_def)
next
  case (completed env d n x i d' outs st data)
  from completed_cases [OF this] show ?case by (auto simp: owed_def)
qed

interpretation sy: invariant_machine sync_start sync_step "\<lambda>x. owed x \<le> 1"
  by unfold_locales (auto simp: sync_start_def sync_init_def owed_def dest: sync_step_owed)


text \<open>The synchroniser never schedules twice. In every reachable state at most one scheduled message is
  under way, and none while a scheduled synchronisation runs, so that forced synchronisations do not
  multiply the periodic ones.\<close>

theorem one_schedule:
  assumes "sy.reach x"
  shows "sm_timers x \<le> 1 \<and> (sm_state x = StateSynchronizing \<and> sd_isScheduledSync (sm_data x) \<longrightarrow> sm_timers x = 0)"
  using sy.reach_inv [OF assms] by (auto simp: owed_def split: if_splits)

lemma run_owed: "sy.run x es y \<Longrightarrow> owed y \<le> owed x"
  by (induction rule: sy.run.induct) (auto dest: sync_step_owed)

lemma unscheduled_run:
  assumes "sy.run x es y" "owed x = 0" shows "SyncTimer \<notin> set es \<and> sm_timers y = 0"
  using assms
proof (induction rule: sy.run.induct)
  case (run_nil s)
  then show ?case by (simp add: owed_def)
next
  case (run_cons s e t es u)
  have "e \<noteq> SyncTimer" using run_cons.hyps(1) run_cons.prems by (auto simp: owed_def elim: sync_stepE)
  moreover have "owed t = 0" using sync_step_owed [OF run_cons.hyps(1)] run_cons.prems by simp
  ultimately show ?case using run_cons.IH by simp
qed

lemma forced_owed:
  assumes "sync_step x SyncForced y" "sm_state x = StateSynchronizing" shows "owed y = sm_timers x"
  using assms(1)
proof (cases rule: sync_step.cases)
  case (forced env d n d' outs st data)
  from forced(2) show ?thesis by (rule synchronize_cases) (use assms(2) forced(1) in \<open>auto simp: owed_def\<close>)
qed

text \<open>A forced synchronisation can end the periodic one. When it is requested while a scheduled synchronisation
  runs, the flag of the running one is overwritten: whatever happens afterwards, until the actor is
  restarted, no further scheduled message is ever sent, although nothing has disabled the
  synchronisation.\<close>

theorem forced_sync_ends_schedule:
  assumes "sy.reach x" "sm_state x = StateSynchronizing" "sd_isScheduledSync (sm_data x)" "sync_step x SyncForced y"
    "sy.run y es z"
  shows "SyncTimer \<notin> set es \<and> sm_timers z = 0"
proof -
  have "sm_timers x = 0" using sy.reach_inv [OF assms(1)] assms(2,3) by (simp add: owed_def)
  then have "owed y = 0" using forced_owed [OF assms(4,2)] by simp
  then show ?thesis by (rule unscheduled_run [OF assms(5)])
qed

definition sample_sm0 :: sync_machine where
  "sample_sm0 = \<lparr>sm_state = StateIdle, sm_data = fst (sync_init True 60), sm_timers = length (snd (sync_init True 60))\<rparr>"

lemma sample_synchronizing:
  obtains x where "sync_step sample_sm0 SyncTimer x" "sm_state x = StateSynchronizing" "sd_isScheduledSync (sm_data x)"
    "sm_timers x = 0" "sd_commandID (sm_data x) = ''cmd''"
proof -
  obtain d' outs res where r: "sync_handle sample_se sync_ds 0 StateIdle sample_sd (Synchronize False) = (d', outs, res)"
    by (metis surj_pair)
  from sample_sync have f: "map sync_outline outs = [Some (''cmd'', None), Some (''cmd'', Some [''k1//read''])]"
    "case res of Some (st, data') \<Rightarrow> st = StateSynchronizing \<and> sd_commandID data' = ''cmd'' \<and> sd_isScheduledSync data' | None \<Rightarrow> False"
    by (simp_all only: r prod.case)
  then obtain data where d: "res = Some (StateSynchronizing, data)" "sd_commandID data = ''cmd''" "sd_isScheduledSync data"
    by (auto split: option.splits)
  have "scheduled outs = 0"
    using f(1) by (auto simp: scheduled_def map_eq_Cons_conv elim!: sync_outline.elims)
  then have "sync_step sample_sm0 SyncTimer \<lparr>sm_state = StateSynchronizing, sm_data = data, sm_timers = 0\<rparr>"
    using sync_step.timer [of sample_sm0 sample_se sync_ds 0 d' outs StateSynchronizing data] r d(1)
    by (simp add: sample_sm0_def sample_sd_def sync_init_def)
  then show thesis by (rule that) (use d in simp_all)
qed

theorem one_schedule_witness:
  "\<exists>x. sy.reach x \<and> sm_state x = StateSynchronizing \<and> sm_timers x \<le> 1"
proof -
  obtain x where x: "sync_step sample_sm0 SyncTimer x" "sm_state x = StateSynchronizing" by (rule sample_synchronizing)
  have "sy.reach sample_sm0" by (rule sy.reach_start) (auto simp: sync_start_def sample_sm0_def)
  then have "sy.reach x" using x(1) by (rule sy.reach_step)
  with one_schedule [OF this] x(2) show ?thesis by blast
qed

theorem forced_sync_ends_schedule_witness:
  "\<exists>x y z. sy.reach x \<and> sync_step x SyncForced y \<and> sy.run y [SyncCompleted ''cmd''] z \<and> sm_state z = StateIdle \<and> sm_timers z = 0"
proof -
  obtain x where x: "sync_step sample_sm0 SyncTimer x" "sm_state x = StateSynchronizing" "sd_isScheduledSync (sm_data x)"
    "sm_timers x = 0" "sd_commandID (sm_data x) = ''cmd''" by (rule sample_synchronizing)
  have "sy.reach sample_sm0" by (rule sy.reach_start) (auto simp: sync_start_def sample_sm0_def)
  then have reach: "sy.reach x" using x(1) by (rule sy.reach_step)
  define data where "data = (sm_data x)\<lparr>sd_isScheduledSync := False, sd_timeStarted := 5\<rparr>"
  define y where "y = \<lparr>sm_state = StateSynchronizing, sm_data = data, sm_timers = 0\<rparr>"
  define z where "z = \<lparr>sm_state = StateIdle, sm_data = data, sm_timers = 0\<rparr>"
  have y: "sync_step x SyncForced y"
    using sync_step.forced [of sample_se sync_ds 0 x sync_ds "[]" StateSynchronizing data] x(2,4)
    by (simp add: y_def data_def synchronize_def sync_enter_def sample_se_def scheduled_def)
  have "sync_step y (SyncCompleted ''cmd'') z"
    using sync_step.completed [of sample_se sync_ds 0 y "''cmd''" sync_ds "[]" StateIdle data] x(5)
    by (simp add: y_def z_def data_def changesetCompleted_def sync_enter_def sync_onStateChange_def scheduleNextSync_def scheduled_def)
  then have z: "sy.run y [SyncCompleted ''cmd''] z" by (rule sy.run_cons) (rule sy.run_nil)
  from forced_sync_ends_schedule [OF reach x(2,3) y z] have "sm_timers z = 0" by blast
  with reach y z show ?thesis by (intro exI [of _ x] exI [of _ y] exI [of _ z]) (simp add: z_def)
qed


end
