(* ===== verification/Discovery.thy ===== *)
theory Discovery
  imports Plugin_Operator Changeset_Executor Map_Strings Synchronizer
begin

text \<open>
  \<^verbatim>\<open>internal/metastructure/discovery/discovery.go\<close>: the actor that lists the resources of
  the configured targets and brings the unknown ones into the inventory, unmanaged. Handlers are functions as
  in the synchroniser: \<open>None\<close> for the new state means that the handler ends the actor, or that
  the state has no handler for the message.
\<close>

section \<open>State\<close>

datatype disc_state = DiscoveryIdle | DiscoveryDiscovering

record ListParameter =
  lp_ParentProperty :: string
  lp_ListProperty :: string
  lp_QueryPath :: string

record ResourceDescriptor =
  rd_Type :: string
  rd_Parents :: "(string \<times> ListParameter list) list"
  rd_Discoverable :: bool

text \<open>The tree has two levels: the map of the roots holds nodes without a map of their own.\<close>

record NestedNode =
  nn_ResourceType :: string
  nn_Discoverable :: bool

record ResourceDescriptorTreeNode =
  tn_ResourceType :: string
  tn_Discoverable :: bool
  tn_Nested :: "(NestedNode \<times> ListParameter list) list"

record ListOperation =
  lo_ResourceType :: string
  lo_TargetLabel :: string
  lo_ListParams :: string

record DiscoveryData =
  dd_types :: "string list" \<comment> \<open>\<^verbatim>\<open>ResourceTypesToDiscover\<close>\<close>
  dd_Interval :: int
  dd_isScheduledDiscovery :: bool
  dd_targets :: "(string \<times> Target) list"
  dd_roots :: "(string \<times> ResourceDescriptorTreeNode) list"
  dd_descriptors :: "(string \<times> ResourceDescriptor) list"
  dd_queued :: "(string \<times> ListOperation list) list"
  dd_outstandingLists :: "ListOperation list" \<comment> \<open>a set\<close>
  dd_outstandingSyncs :: "(string \<times> ListOperation) list"
  dd_recent :: "string list" \<comment> \<open>a set\<close>
  dd_timeStarted :: go_time
  dd_summary :: "(string \<times> nat) list"

definition HasOutstandingWork :: "DiscoveryData \<Rightarrow> bool" where
  "HasOutstandingWork d \<longleftrightarrow> length (dd_queued d) > 0 \<or> length (dd_outstandingLists d) > 0 \<or>
     length (dd_outstandingSyncs d) > 0"

text \<open>What the actor uses of a resource plugin.\<close>

record DiscoveryPlugin =
  rp_SupportedResources :: "ResourceDescriptor list"
  rp_SchemaForResourceType :: "string \<Rightarrow> string + Schema"
  rp_ResourceFilters :: "(string \<times> resource_filter) list"

text \<open>
  The environment: the plugins by namespace, the tokens the rate limiter grants (\<open>None\<close> for a failed
  call), whether an operator could be ensured and sent its message, whether the actor could send to itself
  and set a timer, the visiting order of its maps, and a fresh text for each list operation.
\<close>

record disc_env =
  de_ms :: ms_env
  de_plugin :: "string \<Rightarrow> DiscoveryPlugin option"
  de_RequestTokens :: "string \<Rightarrow> nat \<Rightarrow> nat option"
  de_EnsurePluginOperator :: "ListOperation \<Rightarrow> bool"
  de_SendListResources :: "ListOperation \<Rightarrow> bool"
  de_Send :: bool
  de_SendAfter :: bool
  de_now :: go_time
  de_order :: "string list \<Rightarrow> string list"
  de_operatorID :: "ListOperation \<Rightarrow> string"

datatype disc_out =
    OutResumeScanning
  | OutResumeScanningAfter
  | OutListResources FormaeURI ListResources
  | OutSyncSent ms_effect
  | OutDiscoverAfter int

type_synonym disc_result = "datastore \<times> disc_out list \<times> (disc_state \<times> DiscoveryData) option"

section \<open>The tree of resource types\<close>

definition add_root :: "ResourceDescriptor \<Rightarrow> (string \<times> ResourceDescriptorTreeNode) list \<Rightarrow>
    (string \<times> ResourceDescriptorTreeNode) list" where
  "add_root desc m =
     (if rd_Discoverable desc \<and> length (rd_Parents desc) = 0
      then AList.update (rd_Type desc) \<lparr>tn_ResourceType = rd_Type desc, tn_Discoverable = rd_Discoverable desc, tn_Nested = []\<rparr> m
      else m)"

definition add_nested :: "string \<Rightarrow> ResourceDescriptor \<Rightarrow> ListParameter list \<Rightarrow>
    (string \<times> ResourceDescriptorTreeNode) list \<Rightarrow> (string \<times> ResourceDescriptorTreeNode) list" where
  "add_nested parentType desc mappingProperties m =
     (case map_of m parentType of
        None \<Rightarrow> m
      | Some parent \<Rightarrow> AList.update parentType (parent\<lparr>tn_Nested := tn_Nested parent @
          [(\<lparr>nn_ResourceType = rd_Type desc, nn_Discoverable = rd_Discoverable desc\<rparr>, mappingProperties)]\<rparr>) m)"

definition constructParentResourceDescriptors ::
  "(string list \<Rightarrow> string list) \<Rightarrow> ResourceDescriptor list \<Rightarrow> (string \<times> ResourceDescriptorTreeNode) list" where
  "constructParentResourceDescriptors ord descriptors =
     (let parentResources = fold add_root descriptors [];
          nestedDescriptors = fold (\<lambda>desc m. if rd_Discoverable desc \<and> length (rd_Parents desc) > 0
            then AList.update (rd_Type desc) desc m else m) descriptors []
      in fold (\<lambda>(_, desc). fold (\<lambda>(parentType, mappingProperties). add_nested parentType desc mappingProperties)
             (range_map ord (rd_Parents desc)))
           (range_map ord nestedDescriptors) parentResources)"

section \<open>Scanning\<close>

definition queue_up :: "string \<Rightarrow> ListOperation \<Rightarrow> DiscoveryData \<Rightarrow> DiscoveryData" where
  "queue_up namespace op data = data\<lparr>dd_queued := AList.update namespace
     ((case map_of (dd_queued data) namespace of None \<Rightarrow> [] | Some ops \<Rightarrow> ops) @ [op]) (dd_queued data)\<rparr>"

text \<open>\<^verbatim>\<open>discover\<close>: one iteration of the loop over the targets.\<close>

definition discover_target ::
  "disc_env \<Rightarrow> Target \<Rightarrow> DiscoveryData \<times> disc_out list \<Rightarrow> (DiscoveryData \<times> disc_out list) option" where
  "discover_target env target = (\<lambda>(data, outs).
     case de_plugin env (tgt_Namespace target) of
       None \<Rightarrow> Some (data, outs)
     | Some resourcePlugin \<Rightarrow>
         let supported = filter (\<lambda>desc. dd_types data = [] \<or> rd_Type desc \<in> set (dd_types data)) (rp_SupportedResources resourcePlugin);
             roots = constructParentResourceDescriptors (de_order env) supported;
             data = data\<lparr>dd_descriptors := fold (\<lambda>desc. AList.update (rd_Type desc) desc) supported (dd_descriptors data),
               dd_roots := roots\<rparr>;
             data = fold (\<lambda>(_, desc). queue_up (tgt_Namespace target) \<lparr>lo_ResourceType = tn_ResourceType desc,
               lo_TargetLabel = tgt_Label target, lo_ListParams = MapToString []\<rparr>) (range_map (de_order env) roots) data
         in if de_Send env then Some (data, outs @ [OutResumeScanning]) else None)"

definition discover :: "disc_env \<Rightarrow> datastore \<Rightarrow> disc_state \<Rightarrow> DiscoveryData \<Rightarrow> bool \<Rightarrow> disc_result" where
  "discover env d state data once =
     (let data = data\<lparr>dd_isScheduledDiscovery := \<not> once, dd_timeStarted := de_now env\<rparr>
      in if state = DiscoveryDiscovering then (d, [], Some (state, data))
         else (case ofold (\<lambda>(_, target). discover_target env target) (range_map (de_order env) (dd_targets data)) (data, []) of
                 None \<Rightarrow> (d, [], None)
               | Some (data, outs) \<Rightarrow> (d, outs, Some (DiscoveryDiscovering, data))))"

text \<open>\<^verbatim>\<open>discoveryURI\<close>, with the fresh id as an argument.\<close>

definition discoveryURI :: "string \<Rightarrow> string \<Rightarrow> FormaeURI" where
  "discoveryURI newID resourceType =
     NewFormaeURI (''discovery-'' @ strings_Join (map sql_lower (rev (split_colons resourceType))) ''.'' @ ''-'' @ newID) ''''"

definition scanTargetForResourceType ::
  "disc_env \<Rightarrow> Target \<Rightarrow> string \<Rightarrow> (string \<times> string) list \<Rightarrow> DiscoveryData \<times> disc_out list \<Rightarrow>
    (DiscoveryData \<times> disc_out list) option" where
  "scanTargetForResourceType env target resourceType listParameters = (\<lambda>(data, outs).
     if \<not> (case map_of (dd_descriptors data) resourceType of None \<Rightarrow> False | Some desc \<Rightarrow> rd_Discoverable desc)
     then Some (data, outs)
     else let op = \<lparr>lo_ResourceType = resourceType, lo_TargetLabel = tgt_Label target, lo_ListParams = MapToString listParameters\<rparr>;
              data = data\<lparr>dd_outstandingLists := List.insert op (dd_outstandingLists data),
                dd_summary := (if map_of (dd_summary data) resourceType = None
                  then AList.update resourceType 0 (dd_summary data) else dd_summary data)\<rparr>
          in if de_EnsurePluginOperator env op \<and> de_SendListResources env op
             then Some (data, outs @ [OutListResources (discoveryURI (de_operatorID env op) resourceType)
                    \<lparr>ls_Namespace = tgt_Namespace target, ls_ResourceType = resourceType, ls_Target = target,
                      ls_ListParameters = listParameters\<rparr>])
             else None)"

text \<open>The loop \<^verbatim>\<open>for range n\<close> over the head of a queue; an empty queue is an index out of
  range.\<close>

fun scan_loop ::
  "disc_env \<Rightarrow> string \<Rightarrow> nat \<Rightarrow> DiscoveryData \<times> disc_out list \<Rightarrow> (DiscoveryData \<times> disc_out list) option" where
  "scan_loop env namespace 0 s = Some s"
| "scan_loop env namespace (Suc n) (data, outs) =
     (case map_of (dd_queued data) namespace of
        None \<Rightarrow> None
      | Some [] \<Rightarrow> None
      | Some (next # queue) \<Rightarrow>
          Option.bind (StringToMap (lo_ListParams next)) (\<lambda>params.
          Option.bind (scanTargetForResourceType env
              (case map_of (dd_targets data) (lo_TargetLabel next) of None \<Rightarrow> zero_Target | Some t \<Rightarrow> t)
              (lo_ResourceType next) params (data, outs)) (\<lambda>(data, outs).
            scan_loop env namespace n (data\<lparr>dd_queued := AList.update namespace queue (dd_queued data)\<rparr>, outs))))"

definition scan_namespace ::
  "disc_env \<Rightarrow> string \<Rightarrow> DiscoveryData \<times> disc_out list \<times> (string \<times> bool) list \<Rightarrow>
    (DiscoveryData \<times> disc_out list \<times> (string \<times> bool) list) option" where
  "scan_namespace env namespace = (\<lambda>(data, outs, finished).
     let remaining = length (case map_of (dd_queued data) namespace of None \<Rightarrow> [] | Some ops \<Rightarrow> ops)
     in Option.bind (de_RequestTokens env namespace remaining) (\<lambda>n.
          map_option (\<lambda>(data, outs). (data, outs, AList.update namespace (\<not> n < remaining) finished))
            (scan_loop env namespace n (data, outs))))"

text \<open>The second loop: it stops at the first namespace that is not finished.\<close>

fun finish_loop ::
  "disc_env \<Rightarrow> (string \<times> bool) list \<Rightarrow> DiscoveryData \<Rightarrow> (DiscoveryData \<times> disc_out list) option" where
  "finish_loop env [] data = Some (data, [])"
| "finish_loop env ((namespace, is_done) # rest) data =
     (if \<not> is_done then (if de_SendAfter env then Some (data, [OutResumeScanningAfter]) else None)
      else finish_loop env rest (data\<lparr>dd_queued := AList.delete namespace (dd_queued data)\<rparr>))"

definition resumeScanning :: "disc_env \<Rightarrow> datastore \<Rightarrow> disc_state \<Rightarrow> DiscoveryData \<Rightarrow> disc_result" where
  "resumeScanning env d state data =
     (case ofold (scan_namespace env) (de_order env (map fst (dd_queued data))) (data, [], []) of
        None \<Rightarrow> (d, [], None)
      | Some (data, outs, finished) \<Rightarrow>
          (case finish_loop env (range_map (de_order env) finished) data of
             None \<Rightarrow> (d, outs, None)
           | Some (data, outs') \<Rightarrow> (d, outs @ outs', Some (DiscoveryDiscovering, data))))"

section \<open>Listings\<close>

definition resourceExists :: "datastore \<Rightarrow> DiscoveryData \<Rightarrow> string \<Rightarrow> bool" where
  "resourceExists d data nativeID =
     (if nativeID \<in> set (dd_recent data) then True
      else case LoadResourceByNativeID d nativeID of Inl err \<Rightarrow> False | Inr res \<Rightarrow> res \<noteq> None)"

text \<open>The loop that keeps the resources that are not known yet.\<close>

definition new_resources ::
  "datastore \<Rightarrow> string \<Rightarrow> ListedResource list \<Rightarrow> DiscoveryData \<Rightarrow> ListedResource list \<times> DiscoveryData" where
  "new_resources d resourceType resources data = fold (\<lambda>r (newResources, data).
       if \<not> resourceExists d data (lr_NativeID r)
       then (newResources @ [r], data\<lparr>dd_recent := lr_NativeID r # dd_recent data,
              dd_summary := AList.update resourceType
                (Suc (case map_of (dd_summary data) resourceType of None \<Rightarrow> 0 | Some k \<Rightarrow> k)) (dd_summary data)\<rparr>)
       else (newResources, data)) resources ([], data)"

definition discovered_resource :: "ListOperation \<Rightarrow> Target \<Rightarrow> Schema \<Rightarrow> string \<Rightarrow> ListedResource \<Rightarrow> Resource" where
  "discovered_resource op target schema ksuid r = zero_Resource\<lparr>res_Label := QueryEscape (lr_NativeID r),
     res_Type := lo_ResourceType op, res_Stack := UnmanagedStack, res_Target := tgt_Label target,
     res_NativeID := lr_NativeID r, res_Properties := lr_Properties r, res_Schema := schema, res_Managed := False,
     res_Ksuid := ksuid\<rparr>"

definition discovery_forma :: "ms_env \<Rightarrow> nat \<Rightarrow> ListOperation \<Rightarrow> Target \<Rightarrow> Schema \<Rightarrow> ListedResource list \<Rightarrow> Forma" where
  "discovery_forma env n op target schema resources = zero_Forma\<lparr>forma_Targets := [target],
     forma_Resources := map (\<lambda>(i, r). discovered_resource op target schema (ge_NewID (me_gen env) i) r) (enumerate n resources)\<rparr>"

text \<open>\<^verbatim>\<open>synchronizeResources\<close>: the new identifier of the command, or \<open>None\<close> for an
  error. The outer \<open>None\<close> is a panic.\<close>

definition synchronizeResources ::
  "disc_env \<Rightarrow> datastore \<Rightarrow> nat \<Rightarrow> ListOperation \<Rightarrow> string \<Rightarrow> Target \<Rightarrow> ListedResource list \<Rightarrow>
    (datastore \<times> ms_effect list \<times> string option) option" where
  "synchronizeResources env d n op namespace target resources =
     (case de_plugin env namespace of
        None \<Rightarrow> Some (d, [], None)
      | Some plugin \<Rightarrow>
          (case rp_SchemaForResourceType plugin (lo_ResourceType op) of
             Inl err \<Rightarrow> Some (d, [], None)
           | Inr schema \<Rightarrow>
               let ms = de_ms env;
                   forma = discovery_forma ms n op target schema resources
               in (case GenerateResourceUpdates (me_gen ms) forma CommandSync FormaApplyModePatch FormaCommandSourceDiscovery
                      (LoadAllTargets d) (datastore_lookup (ge_ord (me_gen ms)) d) (Some (rp_ResourceFilters plugin))
                      (n + length resources) of
                     Inl err \<Rightarrow> Some (d, [], None)
                   | Inr (resourceUpdates, _) \<Rightarrow>
                       let syncCommand = NewFormaCommand (me_newID ms) (me_now1 ms) (me_now2 ms) forma
                             \<lparr>cfg_Mode = FormaApplyModePatch, cfg_Force = False, cfg_Simulate = False\<rparr> CommandSync
                             resourceUpdates ''formae'';
                           (d', okay) = store_new ms d syncCommand
                       in if \<not> okay then Some (d', [], None)
                          else (case NewChangesetFromResourceUpdates (me_ord ms) resourceUpdates (fc_ID syncCommand) of
                                  None \<Rightarrow> None
                                | Some r \<Rightarrow>
                                    (case launch ms (fc_ID syncCommand) (case r of Inl err \<Rightarrow> None | Inr cs \<Rightarrow> Some cs) of
                                       (effects, Some err) \<Rightarrow> Some (d', effects, None)
                                     | (effects, None) \<Rightarrow> Some (d', effects, Some (fc_ID syncCommand)))))))"

definition idle_if_done :: "disc_state \<Rightarrow> DiscoveryData \<Rightarrow> (disc_state \<times> DiscoveryData) option" where
  "idle_if_done state data = Some (if \<not> HasOutstandingWork data then DiscoveryIdle else state, data)"

definition listing_op :: "Listing \<Rightarrow> ListOperation" where
  "listing_op message = \<lparr>lo_ResourceType = lst_ResourceType message, lo_TargetLabel = tgt_Label (lst_Target message),
     lo_ListParams = MapToString (lst_ListParameters message)\<rparr>"

text \<open>After a failed synchronisation the code goes on with the empty identifier unless nothing is
  outstanding.\<close>

definition processListing :: "disc_env \<Rightarrow> datastore \<Rightarrow> nat \<Rightarrow> disc_state \<Rightarrow> DiscoveryData \<Rightarrow> Listing \<Rightarrow> disc_result" where
  "processListing env d n state data message =
     (let op = listing_op message;
          data = data\<lparr>dd_outstandingLists := removeAll op (dd_outstandingLists data)\<rparr>
      in if lst_Error message \<noteq> None then (d, [], idle_if_done state data)
         else let (newResources, data) = new_resources d (lst_ResourceType message) (lst_Resources message) data
              in if length newResources = 0 then (d, [], idle_if_done state data)
                 else (case synchronizeResources env d n op (tgt_Namespace (lst_Target message)) (lst_Target message) newResources of
                         None \<Rightarrow> (d, [], None)
                       | Some (d', effects, commandID) \<Rightarrow>
                           if commandID = None \<and> \<not> HasOutstandingWork data
                           then (d', map OutSyncSent effects, Some (DiscoveryIdle, data))
                           else (d', map OutSyncSent effects, Some (DiscoveryDiscovering,
                              data\<lparr>dd_outstandingSyncs := AList.update (case commandID of None \<Rightarrow> '''' | Some i \<Rightarrow> i) op
                                (dd_outstandingSyncs data)\<rparr>))))"

section \<open>Nested resources\<close>

definition required :: "string \<Rightarrow> string QueryItem option" where
  "required s = Some \<lparr>qi_Item = s, qi_Constraint = QueryItemConstraint.Required\<rparr>"

definition parent_query :: "ListOperation \<Rightarrow> ResourceQuery" where
  "parent_query op = \<lparr>rq_Stack = None, rq_Type = required (lo_ResourceType op), rq_Label = None,
     rq_Target = required (lo_TargetLabel op), rq_LastChangeStatus = None, rq_NativeID = None, rq_Managed = None, rq_N = 0\<rparr>"

definition list_property :: "gen_env \<Rightarrow> Resource \<Rightarrow> string \<Rightarrow> string option" where
  "list_property env r query = (case getProperty (env_get env) r query of
     None \<Rightarrow> None | Some JNull \<Rightarrow> None | Some v \<Rightarrow> Some (gj_String (ge_lib env) v))"

definition list_parameters :: "gen_env \<Rightarrow> Resource \<Rightarrow> ListParameter list \<Rightarrow> (string \<times> string) list" where
  "list_parameters env parentResource mappingProperties = fold (\<lambda>param m.
       case list_property env parentResource (lp_ParentProperty param) of
         None \<Rightarrow> m | Some value \<Rightarrow> AList.update (lp_ListProperty param) value m) mappingProperties []"

definition nested_op :: "gen_env \<Rightarrow> string \<Rightarrow> Resource \<Rightarrow> NestedNode \<times> ListParameter list \<Rightarrow> ListOperation" where
  "nested_op env targetLabel parentResource = (\<lambda>(nested, params). \<lparr>lo_ResourceType = nn_ResourceType nested,
     lo_TargetLabel = targetLabel, lo_ListParams = MapToString (list_parameters env parentResource params)\<rparr>)"

definition syncCompleted ::
  "disc_env \<Rightarrow> datastore \<Rightarrow> disc_state \<Rightarrow> DiscoveryData \<Rightarrow> string \<Rightarrow> ChangesetState \<Rightarrow> disc_result" where
  "syncCompleted env d state data commandID result =
     (case map_of (dd_outstandingSyncs data) commandID of
        None \<Rightarrow> (d, [], Some (state, data))
      | Some op \<Rightarrow>
          let data = data\<lparr>dd_outstandingSyncs := AList.delete commandID (dd_outstandingSyncs data)\<rparr>;
              nested = (case map_of (dd_roots data) (lo_ResourceType op) of None \<Rightarrow> [] | Some node \<Rightarrow> tn_Nested node);
              namespace = (case map_of (dd_targets data) (lo_TargetLabel op) of None \<Rightarrow> '''' | Some t \<Rightarrow> tgt_Namespace t)
          in if result = ChangeSetStateFinishedWithErrors \<and> \<not> HasOutstandingWork data
             then (d, [], Some (DiscoveryIdle, data))
             else if length nested > 0 then
               (case QueryResources d (parent_query op) of
                  Inl err \<Rightarrow> (d, [], None)
                | Inr parentResources \<Rightarrow>
                    let ops = concat (map (\<lambda>parent. map (nested_op (me_gen (de_ms env)) (lo_TargetLabel op) parent) nested) parentResources);
                        data = fold (queue_up namespace) ops data
                    in if ops \<noteq> [] \<and> \<not> de_Send env then (d, [], None)
                       else (d, map (\<lambda>_. OutResumeScanning) ops, idle_if_done state data))
             else (d, [], idle_if_done state data))"

section \<open>The actor\<close>

definition disc_onStateChange ::
  "disc_env \<Rightarrow> disc_state \<Rightarrow> disc_state \<Rightarrow> DiscoveryData \<Rightarrow> disc_out list \<times> (disc_state \<times> DiscoveryData) option" where
  "disc_onStateChange env oldState newState data =
     (if oldState = DiscoveryDiscovering \<and> newState = DiscoveryIdle \<and> dd_isScheduledDiscovery data
      then (if de_SendAfter env then ([OutDiscoverAfter (dd_Interval data)], Some (newState, data)) else ([], None))
      else ([], Some (newState, data)))"

datatype disc_msg =
    Discover bool
  | ResumeScanning
  | MsgListing Listing
  | MsgSyncCompleted string ChangesetState

definition disc_enter :: "disc_env \<Rightarrow> disc_state \<Rightarrow> disc_result \<Rightarrow> disc_result" where
  "disc_enter env oldState r = (case r of
       (d, outs, None) \<Rightarrow> (d, outs, None)
     | (d, outs, Some (newState, data)) \<Rightarrow>
         if newState = oldState then r
         else (let (outs', res) = disc_onStateChange env oldState newState data in (d, outs @ outs', res)))"

fun disc_handle ::
  "disc_env \<Rightarrow> datastore \<Rightarrow> nat \<Rightarrow> disc_state \<Rightarrow> DiscoveryData \<Rightarrow> disc_msg \<Rightarrow> disc_result" where
  "disc_handle env d n state data (Discover once) = disc_enter env state (discover env d state data once)"
| "disc_handle env d n DiscoveryDiscovering data ResumeScanning =
     disc_enter env DiscoveryDiscovering (resumeScanning env d DiscoveryDiscovering data)"
| "disc_handle env d n DiscoveryDiscovering data (MsgListing l) =
     disc_enter env DiscoveryDiscovering (processListing env d n DiscoveryDiscovering data l)"
| "disc_handle env d n DiscoveryDiscovering data (MsgSyncCompleted i s) =
     disc_enter env DiscoveryDiscovering (syncCompleted env d DiscoveryDiscovering data i s)"
| "disc_handle env d n DiscoveryIdle data _ = (d, [], None)"

definition disc_init :: "string list \<Rightarrow> bool \<Rightarrow> int \<Rightarrow> Target list \<Rightarrow> DiscoveryData \<times> disc_msg list" where
  "disc_init types enabled interval scanTargets =
     (\<lparr>dd_types = types, dd_Interval = interval, dd_isScheduledDiscovery = False,
       dd_targets = fold (\<lambda>target. AList.update (tgt_Label target) target) scanTargets [],
       dd_roots = [], dd_descriptors = [], dd_queued = [], dd_outstandingLists = [], dd_outstandingSyncs = [],
       dd_recent = [], dd_timeStarted = 0, dd_summary = []\<rparr>,
      if enabled then [Discover False] else [])"


end
