(* ===== verification/Discovery_Facts.thy ===== *)
theory Discovery_Facts
  imports Discovery
begin

text \<open>
  What the discovery actor guarantees: the machine of its handlers with arbitrary answers of the other actors
  at every step, its invariant, and what a listing hands over to a synchronisation.
\<close>

section \<open>The machine\<close>

text \<open>An event is a message, the native ids that its listing hands over, and what the handler sends.\<close>

definition handed :: "datastore \<Rightarrow> DiscoveryData \<Rightarrow> disc_msg \<Rightarrow> string list" where
  "handed d data msg = (case msg of
     MsgListing l \<Rightarrow> if lst_Error l \<noteq> None then []
       else map lr_NativeID (fst (new_resources d (lst_ResourceType l) (lst_Resources l) data))
   | _ \<Rightarrow> [])"

type_synonym disc_event = "disc_msg \<times> string list \<times> disc_out list"

inductive disc_step :: "disc_state \<times> DiscoveryData \<Rightarrow> disc_event \<Rightarrow> disc_state \<times> DiscoveryData \<Rightarrow> bool" where
  disc_handled: "disc_handle env d n st data msg = (d', outs, Some (st', data')) \<Longrightarrow>
    disc_step (st, data) (msg, handed d data msg, outs) (st', data')"

inductive_cases disc_stepE: "disc_step x e y"

definition disc_start :: "disc_state \<times> DiscoveryData \<Rightarrow> bool" where
  "disc_start x \<longleftrightarrow> (\<exists>types enabled interval scanTargets.
     x = (DiscoveryIdle, fst (disc_init types enabled interval scanTargets)))"

definition idle_clean :: "disc_state \<times> DiscoveryData \<Rightarrow> bool" where
  "idle_clean x \<longleftrightarrow> (fst x = DiscoveryIdle \<longrightarrow> \<not> HasOutstandingWork (snd x))"

section \<open>What the handlers keep\<close>

lemma enter_cases:
  assumes "disc_enter env st r = (d', outs, Some (st', data'))"
  obtains os where "r = (d', os, Some (st', data'))" "set outs \<subseteq> insert (OutDiscoverAfter (dd_Interval data')) (set os)"
    "st' \<noteq> DiscoveryIdle \<Longrightarrow> outs = os"
proof -
  obtain d1 os r1 where r: "r = (d1, os, r1)" by (metis surj_pair)
  show thesis
    by (rule that [of os]) (use assms r in \<open>auto simp: disc_enter_def disc_onStateChange_def split: option.splits if_splits\<close>)
qed

lemma fold_keeps: "(\<And>x y. g (f x y) = g y) \<Longrightarrow> g (fold f xs y) = g y"
  by (induction xs arbitrary: y) simp_all

lemma ofold_keeps: "(\<And>x y z. f x y = Some z \<Longrightarrow> g z = g y) \<Longrightarrow> ofold f xs y = Some z \<Longrightarrow> g z = g y"
  by (induction xs arbitrary: y) (auto simp: bind_eq_Some_conv)

text \<open>The part of the data that a scan leaves alone.\<close>

definition untouched_part :: "DiscoveryData \<Rightarrow> (string \<times> ListOperation) list \<times> string list" where
  "untouched_part data = (dd_outstandingSyncs data, dd_recent data)"

lemma queue_up_keeps: "untouched_part (queue_up ns op data) = untouched_part data"
  by (simp add: queue_up_def untouched_part_def)

lemma discover_target_keeps:
  assumes "discover_target env t s = Some s'"
  shows "untouched_part (fst s') = untouched_part (fst s)"
proof -
  have folds: "untouched_part (fold (\<lambda>(x :: string, desc :: ResourceDescriptorTreeNode). queue_up ns (f desc)) xs y) = untouched_part y"
    for ns f xs y
    by (rule fold_keeps) (simp add: queue_up_keeps split: prod.split)
  show ?thesis using assms unfolding discover_target_def Let_def
    by (cases s) (auto simp: folds split: option.splits if_splits, simp_all add: untouched_part_def)
qed

lemma discover_keeps:
  assumes "discover env d st data once = (d', outs, Some (st', data'))"
  shows "st' = DiscoveryDiscovering \<and> untouched_part data' = untouched_part data"
proof -
  note keeps = ofold_keeps [of "\<lambda>(l, t). discover_target env t" "untouched_part \<circ> fst"]
  have "untouched_part (fst s') = untouched_part (fst s)"
    if "ofold (\<lambda>(l :: string, t). discover_target env t) ts s = Some s'" for ts s s'
    using keeps [OF _ that] by (auto dest: discover_target_keeps)
  from this [of _ "(data\<lparr>dd_isScheduledDiscovery := \<not> once, dd_timeStarted := de_now env\<rparr>, [])"] show ?thesis
    using assms unfolding discover_def Let_def
    by (cases st) (auto simp: untouched_part_def split: option.splits)
qed

lemma scan_keeps:
  "scanTargetForResourceType env target ty ps s = Some s' \<Longrightarrow> untouched_part (fst s') = untouched_part (fst s)"
  unfolding scanTargetForResourceType_def Let_def
  by (cases s) (auto simp: untouched_part_def split: if_splits option.splits)

lemma scan_loop_keeps:
  "scan_loop env ns k s = Some s' \<Longrightarrow> untouched_part (fst s') = untouched_part (fst s)"
proof (induction k arbitrary: s)
  case (Suc k)
  have upd: "untouched_part (x\<lparr>dd_queued := q\<rparr>) = untouched_part x" for x q by (simp add: untouched_part_def)
  obtain data outs where "s = (data, outs)" by fastforce
  with Suc show ?case
    by (fastforce simp: bind_eq_Some_conv upd split: option.splits list.splits dest!: scan_keeps)
qed simp

lemma finish_keeps:
  "finish_loop env xs data = Some (data', outs') \<Longrightarrow> untouched_part data' = untouched_part data \<and> set outs' \<subseteq> {OutResumeScanningAfter}"
  by (induction env xs data rule: finish_loop.induct) (auto simp: untouched_part_def split: if_splits)

lemma scan_namespace_keeps:
  "scan_namespace env ns s = Some s' \<Longrightarrow> untouched_part (fst s') = untouched_part (fst s)"
  unfolding scan_namespace_def Let_def by (auto simp: bind_eq_Some_conv dest!: scan_loop_keeps split: prod.splits)

lemma resume_keeps:
  assumes "resumeScanning env d st data = (d', outs, Some (st', data'))"
  shows "st' = DiscoveryDiscovering \<and> untouched_part data' = untouched_part data"
proof -
  note keeps = ofold_keeps [of "scan_namespace env" "untouched_part \<circ> fst"]
  have "untouched_part (fst s') = untouched_part (fst s)" if "ofold (scan_namespace env) ns s = Some s'" for ns s s'
    using keeps [OF _ that] by (auto dest: scan_namespace_keeps)
  from this [of _ "(data, [], [])"] show ?thesis using assms unfolding resumeScanning_def
    by (fastforce split: option.splits prod.splits dest!: finish_keeps)
qed

lemma syncCompleted_keeps:
  assumes "syncCompleted env d st data i s = (d', outs, Some (st', data'))"
  shows "dd_recent data' = dd_recent data \<and> (st' = st \<or> st' = DiscoveryIdle \<and> \<not> HasOutstandingWork data') \<and>
    (k \<noteq> i \<longrightarrow> map_of (dd_outstandingSyncs data') k = map_of (dd_outstandingSyncs data) k) \<and> set outs \<subseteq> {OutResumeScanning}"
proof -
  have del: "k \<noteq> i \<Longrightarrow> map_of (AList.delete i m) k = map_of m k" for m :: "(string \<times> ListOperation) list"
    by (simp add: delete_conv')
  have ups: "untouched_part (fold (queue_up ns) ops y) = untouched_part y" for ns ops y
    by (rule fold_keeps) (rule queue_up_keeps)
  have qs: "dd_outstandingSyncs (fold (queue_up ns) ops y) = dd_outstandingSyncs y"
    "dd_recent (fold (queue_up ns) ops y) = dd_recent y" for ns ops y
    using ups [of ns ops y] by (simp_all add: untouched_part_def)
  show ?thesis using assms unfolding syncCompleted_def Let_def
    by (auto simp: idle_if_done_def qs del split: option.splits if_splits sum.splits)
qed

text \<open>A listing: what it hands over is new to the actor and to the datastore.\<close>

lemma new_resources_fold:
  assumes "fold (\<lambda>r (newResources, data).
       if \<not> resourceExists d data (lr_NativeID r)
       then (newResources @ [r], data\<lparr>dd_recent := lr_NativeID r # dd_recent data,
              dd_summary := AList.update ty
                (Suc (case map_of (dd_summary data) ty of None \<Rightarrow> 0 | Some k \<Rightarrow> k)) (dd_summary data)\<rparr>)
       else (newResources, data)) rs (new0, data0) = (new1, data1)"
  shows "\<exists>new. new1 = new0 @ new \<and> distinct (map lr_NativeID new) \<and>
    lr_NativeID ` set new = {i \<in> lr_NativeID ` set rs. \<not> resourceExists d data0 i} \<and> set new \<subseteq> set rs \<and>
    set (dd_recent data1) = set (dd_recent data0) \<union> lr_NativeID ` set new \<and>
    dd_outstandingSyncs data1 = dd_outstandingSyncs data0 \<and> HasOutstandingWork data1 = HasOutstandingWork data0"
  using assms
proof (induction rs arbitrary: new0 data0)
  case (Cons r rs)
  show ?case
  proof (cases "resourceExists d data0 (lr_NativeID r)")
    case True
    with Cons.prems have "fold (\<lambda>r (newResources, data).
       if \<not> resourceExists d data (lr_NativeID r)
       then (newResources @ [r], data\<lparr>dd_recent := lr_NativeID r # dd_recent data,
              dd_summary := AList.update ty
                (Suc (case map_of (dd_summary data) ty of None \<Rightarrow> 0 | Some k \<Rightarrow> k)) (dd_summary data)\<rparr>)
       else (newResources, data)) rs (new0, data0) = (new1, data1)" by simp
    from Cons.IH [OF this] True show ?thesis by (elim exE) (rule exI, auto)
  next
    case False
    let ?data = "data0\<lparr>dd_recent := lr_NativeID r # dd_recent data0, dd_summary := AList.update ty
                (Suc (case map_of (dd_summary data0) ty of None \<Rightarrow> 0 | Some k \<Rightarrow> k)) (dd_summary data0)\<rparr>"
    have ex: "resourceExists d ?data i \<longleftrightarrow> i = lr_NativeID r \<or> resourceExists d data0 i" for i
      by (simp add: resourceExists_def)
    from False Cons.prems Cons.IH [of "new0 @ [r]" ?data] obtain new where
      n: "new1 = (new0 @ [r]) @ new" "distinct (map lr_NativeID new)"
      "lr_NativeID ` set new = {i \<in> lr_NativeID ` set rs. \<not> resourceExists d ?data i}" "set new \<subseteq> set rs"
      "set (dd_recent data1) = set (dd_recent ?data) \<union> lr_NativeID ` set new"
      "dd_outstandingSyncs data1 = dd_outstandingSyncs ?data" "HasOutstandingWork data1 = HasOutstandingWork ?data"
      by auto
    show ?thesis
      by (rule exI [of _ "r # new"]) (use n False ex in \<open>auto simp: HasOutstandingWork_def\<close>)
  qed
qed simp

lemma new_resources_facts:
  obtains new data' where "new_resources d ty rs data = (new, data')" "distinct (map lr_NativeID new)"
    "lr_NativeID ` set new = {i \<in> lr_NativeID ` set rs. \<not> resourceExists d data i}" "set new \<subseteq> set rs"
    "set (dd_recent data') = set (dd_recent data) \<union> lr_NativeID ` set new"
    "dd_outstandingSyncs data' = dd_outstandingSyncs data" "HasOutstandingWork data' = HasOutstandingWork data"
proof -
  obtain new data' where e: "new_resources d ty rs data = (new, data')" by fastforce
  from new_resources_fold [OF e [unfolded new_resources_def]] show thesis
    by (elim exE conjE) (rule that [OF e], simp_all)
qed

lemma processListing_keeps:
  assumes "processListing env d n st data l = (d', outs, Some (st', data'))"
  shows "set (dd_recent data') = set (dd_recent data) \<union> set (handed d data (MsgListing l)) \<and>
    (st' = st \<or> st' = DiscoveryDiscovering \<or> st' = DiscoveryIdle \<and> \<not> HasOutstandingWork data') \<and>
    (map_of (dd_outstandingSyncs data) k \<noteq> None \<longrightarrow> map_of (dd_outstandingSyncs data') k \<noteq> None) \<and>
    (\<forall>x \<in> set outs. \<exists>e. x = OutSyncSent e)"
proof (cases "lst_Error l")
  case (Some e)
  then show ?thesis using assms unfolding processListing_def Let_def
    by (auto simp: idle_if_done_def handed_def)
next
  case None
  let ?op = "listing_op l"
  let ?data = "data\<lparr>dd_outstandingLists := removeAll ?op (dd_outstandingLists data)\<rparr>"
  obtain new data1 where n: "new_resources d (lst_ResourceType l) (lst_Resources l) ?data = (new, data1)"
    "set (dd_recent data1) = set (dd_recent ?data) \<union> lr_NativeID ` set new"
    "dd_outstandingSyncs data1 = dd_outstandingSyncs ?data"
    "lr_NativeID ` set new = {i \<in> lr_NativeID ` set (lst_Resources l). \<not> resourceExists d ?data i}"
    by (rule new_resources_facts)
  obtain new2 data2 where n2: "new_resources d (lst_ResourceType l) (lst_Resources l) data = (new2, data2)"
    "lr_NativeID ` set new2 = {i \<in> lr_NativeID ` set (lst_Resources l). \<not> resourceExists d data i}"
    by (rule new_resources_facts)
  have same: "lr_NativeID ` set new2 = lr_NativeID ` set new" using n(4) n2(2) by (simp add: resourceExists_def)
  show ?thesis using assms n None same n2(1) unfolding processListing_def Let_def
    by (auto simp: idle_if_done_def handed_def update_conv' split: option.splits if_splits prod.splits)
qed

lemma handled_from_discovering:
  assumes "disc_handle env d n DiscoveryDiscovering data msg = (d', outs, Some (st', data'))"
  shows "set (dd_recent data') = set (dd_recent data) \<union> set (handed d data msg) \<and>
    (st' = DiscoveryIdle \<longrightarrow> \<not> HasOutstandingWork data') \<and>
    (map_of (dd_outstandingSyncs data) k \<noteq> None \<and> (\<forall>s. msg \<noteq> MsgSyncCompleted k s) \<longrightarrow> map_of (dd_outstandingSyncs data') k \<noteq> None)"
proof (cases msg)
  case (Discover once)
  with assms obtain os where "discover env d DiscoveryDiscovering data once = (d', os, Some (st', data'))"
    by (auto elim: enter_cases)
  from discover_keeps [OF this] Discover show ?thesis by (auto simp: handed_def untouched_part_def)
next
  case ResumeScanning
  with assms obtain os where "resumeScanning env d DiscoveryDiscovering data = (d', os, Some (st', data'))"
    by (auto elim: enter_cases)
  from resume_keeps [OF this] ResumeScanning show ?thesis by (auto simp: handed_def untouched_part_def)
next
  case (MsgListing l)
  with assms obtain os where "processListing env d n DiscoveryDiscovering data l = (d', os, Some (st', data'))"
    by (auto elim: enter_cases)
  from processListing_keeps [OF this, of k] MsgListing show ?thesis by auto
next
  case (MsgSyncCompleted i s)
  with assms obtain os where "syncCompleted env d DiscoveryDiscovering data i s = (d', os, Some (st', data'))"
    by (auto elim: enter_cases)
  from syncCompleted_keeps [OF this, of k] MsgSyncCompleted show ?thesis by (auto simp: handed_def)
qed

lemma handled_from_idle:
  assumes "disc_handle env d n DiscoveryIdle data msg = (d', outs, Some (st', data'))"
  shows "(\<exists>once. msg = Discover once) \<and> st' = DiscoveryDiscovering \<and> untouched_part data' = untouched_part data"
proof (cases msg)
  case (Discover once)
  with assms obtain os where "discover env d DiscoveryIdle data once = (d', os, Some (st', data'))"
    by (auto elim: enter_cases)
  from discover_keeps [OF this] Discover show ?thesis by auto
qed (use assms in auto)

lemma handed_new: "distinct (handed d data msg) \<and> set (handed d data msg) \<inter> set (dd_recent data) = {}"
proof (cases msg)
  case (MsgListing l)
  obtain new data' where "new_resources d (lst_ResourceType l) (lst_Resources l) data = (new, data')"
    "distinct (map lr_NativeID new)"
    "lr_NativeID ` set new = {i \<in> lr_NativeID ` set (lst_Resources l). \<not> resourceExists d data i}"
    by (rule new_resources_facts)
  with MsgListing show ?thesis by (auto simp: handed_def resourceExists_def)
qed (simp_all add: handed_def)

lemma step_recent:
  assumes "disc_step x e y"
  shows "set (dd_recent (snd y)) = set (dd_recent (snd x)) \<union> set (fst (snd e)) \<and> distinct (fst (snd e)) \<and>
    set (fst (snd e)) \<inter> set (dd_recent (snd x)) = {}"
  using assms
proof (cases rule: disc_step.cases)
  case (disc_handled env d n st data msg d' outs st' data')
  have "set (dd_recent data') = set (dd_recent data) \<union> set (handed d data msg)"
  proof (cases st)
    case DiscoveryIdle
    with handled_from_idle disc_handled(4) show ?thesis by (fastforce simp: untouched_part_def handed_def)
  next
    case DiscoveryDiscovering
    with handled_from_discovering disc_handled(4) show ?thesis by blast
  qed
  with disc_handled handed_new show ?thesis by simp
qed

lemma step_idle_clean: "disc_step x e y \<Longrightarrow> idle_clean y"
  by (cases rule: disc_step.cases, assumption, rename_tac env d n st data msg d' outs st' data', case_tac st)
     (auto simp: idle_clean_def dest: handled_from_idle handled_from_discovering)

interpretation di: invariant_machine disc_start disc_step idle_clean
  by unfold_locales (auto simp: disc_start_def disc_init_def idle_clean_def HasOutstandingWork_def dest: step_idle_clean [unfolded idle_clean_def])

section \<open>Properties\<close>

text \<open>C40: The discovery actor is idle only when it is done. In every reachable state in which it is idle, whatever
  the other actors answered, no list operation is queued, no listing is awaited and no synchronisation it
  started is unfinished.\<close>

theorem idle_means_done:
  assumes "di.reach (DiscoveryIdle, data)"
  shows "dd_queued data = [] \<and> dd_outstandingLists data = [] \<and> dd_outstandingSyncs data = []"
  using di.reach_inv [OF assms] by (simp add: idle_clean_def HasOutstandingWork_def)

lemma run_recent:
  "di.run x es y \<Longrightarrow> distinct (concat (map (fst \<circ> snd) es)) \<and>
    set (concat (map (fst \<circ> snd) es)) \<inter> set (dd_recent (snd x)) = {}"
proof (induction rule: di.run.induct)
  case (run_cons s e t es u)
  from step_recent [OF run_cons.hyps(1)] run_cons.IH show ?case by auto
qed simp

text \<open>C12: No resource is brought in twice. Over any run of the actor, through any number of discoveries and with
  any interleaving of listings and synchronisations, the native ids that listings hand over to a
  synchronisation are pairwise different, also within one listing that names a resource twice. In
  particular a resource whose first synchronisation failed is not tried again until the actor
  restarts.\<close>

theorem discovered_once:
  assumes "disc_start x" "di.run x es y"
  shows "distinct (concat (map (fst \<circ> snd) es))"
  using run_recent [OF assms(2)] by blast

text \<open>The listing is good but its new resources could not be synchronised, while other work is outstanding.\<close>

definition sync_failed :: "disc_env \<Rightarrow> datastore \<Rightarrow> nat \<Rightarrow> DiscoveryData \<Rightarrow> Listing \<Rightarrow> bool" where
  "sync_failed env d n data l =
     (let op = listing_op l;
          (newResources, data') = new_resources d (lst_ResourceType l) (lst_Resources l)
            (data\<lparr>dd_outstandingLists := removeAll op (dd_outstandingLists data)\<rparr>)
      in lst_Error l = None \<and> newResources \<noteq> [] \<and> HasOutstandingWork data' \<and>
         (case synchronizeResources env d n op (tgt_Namespace (lst_Target l)) (lst_Target l) newResources of
            Some (_, _, None) \<Rightarrow> True | _ \<Rightarrow> False))"

definition names_command :: "disc_event \<Rightarrow> bool" where
  "names_command e = (case fst e of MsgSyncCompleted i s \<Rightarrow> i \<noteq> '''' | _ \<Rightarrow> True)"

lemma failed_sync_registers:
  assumes "sync_failed env d n data l" "disc_handle env d n DiscoveryDiscovering data (MsgListing l) = (d', outs, Some (st, data'))"
  shows "st = DiscoveryDiscovering \<and> map_of (dd_outstandingSyncs data') '''' \<noteq> None"
  using assms by (auto simp: sync_failed_def processListing_def disc_enter_def Let_def update_conv' split: prod.splits option.splits)

lemma step_blocked:
  assumes "disc_step x e y" "names_command e" "fst x = DiscoveryDiscovering" "map_of (dd_outstandingSyncs (snd x)) '''' \<noteq> None"
  shows "fst y = DiscoveryDiscovering \<and> map_of (dd_outstandingSyncs (snd y)) '''' \<noteq> None"
  using assms(1)
proof (cases rule: disc_step.cases)
  case (disc_handled env d n st data msg d' outs st' data')
  have "map_of (dd_outstandingSyncs data') '''' \<noteq> None" "st' = DiscoveryIdle \<longrightarrow> \<not> HasOutstandingWork data'"
    using handled_from_discovering [of env d n data msg d' outs st' data' "''''"] assms(2-4) disc_handled
    by (auto simp: names_command_def split: disc_msg.splits)
  with disc_handled(3) show ?thesis by (cases st') (auto simp: HasOutstandingWork_def)
qed

text \<open>C20: One failed synchronisation ends discovery. When the new resources of a listing cannot be synchronised
  (no plugin or schema, a failed command store, no executor) while other work is outstanding, the actor
  records the failed operation under the empty command id. Completions carry the ids of commands, so
  whatever arrives afterwards the actor never returns to idle: no further discovery is scheduled, and every
  request for one is answered as if one were running.\<close>

theorem failed_sync_blocks_idle:
  assumes "sync_failed env d n data l" "disc_handle env d n DiscoveryDiscovering data (MsgListing l) = (d', outs, Some (st, data'))"
    "di.run (st, data') es y" "list_all names_command es"
  shows "fst y = DiscoveryDiscovering"
proof -
  have "fst y = DiscoveryDiscovering \<and> map_of (dd_outstandingSyncs (snd y)) '''' \<noteq> None"
    if "di.run x es y" "list_all names_command es" "fst x = DiscoveryDiscovering" "map_of (dd_outstandingSyncs (snd x)) '''' \<noteq> None" for x
    using that by (induction rule: di.run.induct) (auto dest: step_blocked)
  from this [OF assms(3,4)] failed_sync_registers [OF assms(1,2)] show ?thesis by simp
qed


section \<open>What a discovery brings in\<close>

lemma discovery_generate:
  assumes "range_order (ge_ord env)" "\<And>l. \<exists>f. rl_LoadStack ds l = Inr f"
  shows "yields (reads FormaCommandSourceDiscovery) ru_Resource (set (forma_Resources forma))
    (GenerateResourceUpdates env forma CommandSync mode FormaCommandSourceDiscovery ts ds filters)"
proof -
  let ?S = "\<lambda>s. (\<lambda>r. r) ` set (filter (\<lambda>r. res_Stack r = SingleStackLabel s) (forma_Resources forma))"
  have "yields (reads FormaCommandSourceDiscovery) ru_Resource (\<Union>s \<in> set (SplitByStack (ge_ord env) forma). ?S s)
      (generateResourceUpdatesForSync env forma FormaCommandSourceDiscovery m ds filters)" for m
    unfolding generateResourceUpdatesForSync_def
  proof (rule yields_gconcat)
    fix s
    obtain f where "rl_LoadStack ds (SingleStackLabel s) = Inr f" using assms(2) by blast
    moreover have "yields (reads FormaCommandSourceDiscovery) ru_Resource (?S s)
        (discovery_updates env forma (SingleStackLabel s) FormaCommandSourceDiscovery m filters)"
      unfolding discovery_updates_def by (intro yields_gmap gpost_gbind gpost_deref Filter_reads)
    ultimately show "yields (reads FormaCommandSourceDiscovery) ru_Resource (?S s)
      (case rl_LoadStack ds (SingleStackLabel s) of
         Inl err \<Rightarrow> gret []
       | Inr existingStack \<Rightarrow>
           if FormaCommandSourceDiscovery = FormaCommandSourceDiscovery
           then discovery_updates env forma (SingleStackLabel s) FormaCommandSourceDiscovery m filters
           else gbind (gopt (NilStack (SingleStackLabel s)) existingStack) (\<lambda>existingStack.
             gconcat (\<lambda>existingResource.
               gmap (\<lambda>resource.
                   gbind (deref_target m (res_Target existingResource)) (\<lambda>target.
                     NewResourceUpdateForSync env existingResource target FormaCommandSourceDiscovery))
                 (filter (\<lambda>r. same_in_stack (SingleStackLabel s) r existingResource) (forma_Resources forma)))
             (forma_Resources existingStack)))"
      by simp
  qed
  moreover have "(\<Union>s \<in> set (SplitByStack (ge_ord env) forma). ?S s) = set (forma_Resources forma)"
    using split_stacks(2) [OF assms(1), of _ forma] by fastforce
  ultimately show ?thesis
    unfolding GenerateResourceUpdates_def Let_def by (simp add: gbind_gret gbind_gret_id yields_gbind)
qed

text \<open>What an accepted listing starts.\<close>

definition sync_of_listing :: "disc_env \<Rightarrow> Forma \<Rightarrow> ResourceUpdate list \<Rightarrow> FormaCommand" where
  "sync_of_listing env forma us = NewFormaCommand (me_newID (de_ms env)) (me_now1 (de_ms env)) (me_now2 (de_ms env)) forma
     \<lparr>cfg_Mode = FormaApplyModePatch, cfg_Force = False, cfg_Simulate = False\<rparr> CommandSync us ''formae''"

lemma synchronizeResources_started:
  assumes "ds_ok d" "range_order (ge_ord (me_gen (de_ms env)))" "range_orders (me_ord (de_ms env))"
    "synchronizeResources env d n op ns t new = Some (d', effects, c)" "StartedExecutor i r \<in> set effects"
  shows "\<exists>schema us cs e. c = Some i \<and> effects = [EnsuredExecutor i, StartedExecutor i (Some cs)] \<and>
    NewChangesetFromResourceUpdates (me_ord (de_ms env)) us i = Some (Inr cs) \<and>
    (\<forall>u \<in> set us. reads FormaCommandSourceDiscovery u) \<and>
    ru_Resource ` set us = set (forma_Resources (discovery_forma (de_ms env) n op t schema new)) \<and>
    stored_FormaCommand (sync_of_listing env (discovery_forma (de_ms env) n op t schema new) us) = Some e \<and>
    GetFormaCommandByCommandID d' i = Inr e"
proof -
  let ?ms = "de_ms env"
  obtain rs where rs: "load_rows (live_rows (ds_resources d)) = Inr rs"
    by (rule live_loaded [OF assms(1)], rule that)
  have load: "\<exists>f. rl_LoadStack (datastore_lookup (ge_ord (me_gen ?ms)) d) l = Inr f" for l
    by (simp add: datastore_lookup_def LoadStack_live [OF assms(1) rs])
  obtain plugin schema where p: "de_plugin env ns = Some plugin" "rp_SchemaForResourceType plugin (lo_ResourceType op) = Inr schema"
    using assms(4,5) by (auto simp: synchronizeResources_def split: option.splits sum.splits)
  let ?forma = "discovery_forma ?ms n op t schema new"
  obtain us n' where us: "GenerateResourceUpdates (me_gen ?ms) ?forma CommandSync FormaApplyModePatch FormaCommandSourceDiscovery
      (LoadAllTargets d) (datastore_lookup (ge_ord (me_gen ?ms)) d) (Some (rp_ResourceFilters plugin)) (n + length new) = Inr (us, n')"
    using assms(4,5) p by (auto simp: synchronizeResources_def Let_def split: sum.splits)
  from gpostD [OF discovery_generate [OF assms(2) load, unfolded yields_def] us]
  have rd: "\<forall>u \<in> set us. reads FormaCommandSourceDiscovery u" "ru_Resource ` set us = set (forma_Resources ?forma)" by blast+
  let ?c = "sync_of_listing env ?forma us"
  have j: "fc_ID ?c = me_newID ?ms" by (simp add: sync_of_listing_def NewFormaCommand_def)
  obtain cs where cs: "NewChangesetFromResourceUpdates (me_ord ?ms) us (me_newID ?ms) = Some (Inr cs)"
    using new_changeset_cases [OF assms(3), of us "me_newID ?ms"] reads_acyclic [of us] rd by (auto simp: reads_def)
  obtain d1 b where b: "store_new ?ms d ?c = (d1, b)" by (cases "store_new ?ms d ?c")
  have ok: "b" "d' = d1" "c = Some (me_newID ?ms)" "i = me_newID ?ms"
    "effects = [EnsuredExecutor (me_newID ?ms), StartedExecutor (me_newID ?ms) (Some cs)]"
    using assms(4,5) p us b cs
    by (auto simp: synchronizeResources_def Let_def sync_of_listing_def [symmetric] j launch_def split: if_splits call_outcome.splits)
  obtain e where "stored_FormaCommand ?c = Some e" "GetFormaCommandByCommandID d1 (me_newID ?ms) = Inr e"
    using store_read_back [of d ?c "me_newID ?ms" d1] store_new_ok [of ?ms d ?c d1] b ok(1) j by auto
  with rd cs ok show ?thesis
    by (intro exI [of _ schema] exI [of _ us] exI [of _ cs] exI [of _ e]) simp
qed

text \<open>C24: What a listing finds is brought in completely. When the discovering actor has accepted a listing and
  started an executor for it, it has stored a sync command whose updates are all reads, and the resources
  read are exactly the resources of the listing that neither the actor nor the datastore knew: unmanaged,
  under their listed native ids and properties, with the schema of their plugin. The operation is
  outstanding under the id of the command.\<close>

theorem discovery_brings_in:
  assumes "ds_ok d" "range_order (ge_ord (me_gen (de_ms env)))" "range_orders (me_ord (de_ms env))"
    "disc_handle env d n DiscoveryDiscovering data (MsgListing l) = (d', outs, Some (st, data'))"
    "OutSyncSent (StartedExecutor i r) \<in> set outs"
  shows "\<exists>new schema us cs e. distinct (map lr_NativeID new) \<and> set new \<subseteq> set (lst_Resources l) \<and>
    lr_NativeID ` set new = {i \<in> lr_NativeID ` set (lst_Resources l). \<not> resourceExists d data i} \<and>
    outs = [OutSyncSent (EnsuredExecutor i), OutSyncSent (StartedExecutor i (Some cs))] \<and>
    NewChangesetFromResourceUpdates (me_ord (de_ms env)) us i = Some (Inr cs) \<and>
    (\<forall>u \<in> set us. reads FormaCommandSourceDiscovery u) \<and>
    ru_Resource ` set us = set (forma_Resources (discovery_forma (de_ms env) n (listing_op l) (lst_Target l) schema new)) \<and>
    stored_FormaCommand (sync_of_listing env (discovery_forma (de_ms env) n (listing_op l) (lst_Target l) schema new) us) = Some e \<and>
    GetFormaCommandByCommandID d' i = Inr e \<and> st = DiscoveryDiscovering \<and>
    map_of (dd_outstandingSyncs data') i = Some (listing_op l)"
proof -
  let ?op = "listing_op l" and ?ms = "de_ms env"
  let ?data = "data\<lparr>dd_outstandingLists := removeAll ?op (dd_outstandingLists data)\<rparr>"
  obtain new data1 where n: "new_resources d (lst_ResourceType l) (lst_Resources l) ?data = (new, data1)"
    "distinct (map lr_NativeID new)" "set new \<subseteq> set (lst_Resources l)"
    "lr_NativeID ` set new = {i \<in> lr_NativeID ` set (lst_Resources l). \<not> resourceExists d ?data i}"
    by (rule new_resources_facts)
  have none: "lst_Error l = None" "new \<noteq> []"
    using assms(4,5) n(1) by (auto simp: processListing_def disc_enter_def disc_onStateChange_def idle_if_done_def Let_def split: if_splits)
  obtain d1 effects c where sy: "synchronizeResources env d n ?op (tgt_Namespace (lst_Target l)) (lst_Target l) new = Some (d1, effects, c)"
    using assms(4) n(1) none by (auto simp: processListing_def disc_enter_def Let_def split: option.splits)
  have "StartedExecutor i r \<in> set effects"
    using assms(4,5) n(1) none sy
    by (auto simp: processListing_def disc_enter_def disc_onStateChange_def Let_def split: if_splits)
  from synchronizeResources_started [OF assms(1-3) sy this] obtain schema us cs e where f:
    "c = Some i" "effects = [EnsuredExecutor i, StartedExecutor i (Some cs)]"
    "NewChangesetFromResourceUpdates (me_ord ?ms) us i = Some (Inr cs)" "\<forall>u \<in> set us. reads FormaCommandSourceDiscovery u"
    "ru_Resource ` set us = set (forma_Resources (discovery_forma ?ms n ?op (lst_Target l) schema new))"
    "stored_FormaCommand (sync_of_listing env (discovery_forma ?ms n ?op (lst_Target l) schema new) us) = Some e"
    "GetFormaCommandByCommandID d1 i = Inr e"
    by (elim exE conjE) (rule that; assumption)
  have "d' = d1" "outs = map OutSyncSent effects" "st = DiscoveryDiscovering" "map_of (dd_outstandingSyncs data') i = Some ?op"
    using assms(4) n(1) none sy f(1) by (auto simp: processListing_def disc_enter_def Let_def update_conv')
  with f n(2-4) show ?thesis
    by (intro exI [of _ new] exI [of _ schema] exI [of _ us] exI [of _ cs] exI [of _ e]) (simp add: resourceExists_def)
qed

section \<open>A sample run\<close>

fun disc_play :: "disc_env \<Rightarrow> nat \<Rightarrow> datastore \<Rightarrow> disc_state \<times> DiscoveryData \<Rightarrow> disc_msg list \<Rightarrow>
    (disc_event list \<times> disc_state \<times> DiscoveryData) option" where
  "disc_play env n d s [] = Some ([], s)"
| "disc_play env n d s (m # ms) = (case disc_handle env d n (fst s) (snd s) m of
       (d', outs, None) \<Rightarrow> None
     | (d', outs, Some s') \<Rightarrow>
         map_option (\<lambda>(es, t). ((m, handed d (snd s) m, outs) # es, t)) (disc_play env n d' s' ms))"

lemma play_run: "disc_play env n d s ms = Some (es, t) \<Longrightarrow> di.run s es t"
proof (induction ms arbitrary: d s es)
  case (Cons m ms)
  obtain d' outs r where h: "disc_handle env d n (fst s) (snd s) m = (d', outs, r)" by (metis surj_pair)
  with Cons.prems obtain s' es' where r: "r = Some s'" "disc_play env n d' s' ms = Some (es', t)"
    "es = (m, handed d (snd s) m, outs) # es'"
    by (auto split: option.splits)
  from h r(1) have "disc_step (fst s, snd s) (m, handed d (snd s) m, outs) (fst s', snd s')"
    by (intro disc_handled) simp
  then show ?case using Cons.IH [OF r(2)] r(3) by (auto intro: di.run_cons)
qed (auto intro: di.run_nil)

definition sample_plugin :: DiscoveryPlugin where
  "sample_plugin = \<lparr>rp_SupportedResources = [\<lparr>rd_Type = ''NS::S::T'', rd_Parents = [], rd_Discoverable = True\<rparr>],
     rp_SchemaForResourceType = (\<lambda>_. Inr zero_Schema), rp_ResourceFilters = []\<rparr>"

definition sample_de :: disc_env where
  "sample_de = \<lparr>de_ms = sample_ms, de_plugin = (\<lambda>ns. if ns = ''NS'' then Some sample_plugin else None),
     de_RequestTokens = (\<lambda>_. Some), de_EnsurePluginOperator = (\<lambda>_. True), de_SendListResources = (\<lambda>_. True),
     de_Send = True, de_SendAfter = True, de_now = 5, de_order = id, de_operatorID = (\<lambda>_. ''op'')\<rparr>"

definition sample_disc_target :: Target where
  "sample_disc_target = \<lparr>tgt_Label = ''t'', tgt_Namespace = ''NS'', tgt_Config = RawNil\<rparr>"

definition sample_dd :: DiscoveryData where
  "sample_dd = fst (disc_init [] True 60 [sample_disc_target])"

definition sample_listing :: "string list \<Rightarrow> Listing" where
  "sample_listing ids = \<lparr>lst_Namespace = ''NS'', lst_Resources = map (\<lambda>i. \<lparr>lr_NativeID = i, lr_Properties = RawJson (JObj [])\<rparr>) ids,
     lst_ResourceType = ''NS::S::T'', lst_ListParameters = [], lst_Target = sample_disc_target, lst_Error = None\<rparr>"

lemma sample_discovery:
  "(case disc_play sample_de 0 sample_ds (DiscoveryIdle, sample_dd)
       [Discover False, ResumeScanning, MsgListing (sample_listing [''i-1'', ''i-2'', ''i-1'']),
        MsgSyncCompleted ''cmd'' ChangeSetStateFinishedSuccessfully] of
     None \<Rightarrow> False
   | Some (es, st, data) \<Rightarrow> map (fst \<circ> snd) es = [[], [], [''i-1'', ''i-2''], []] \<and> st = DiscoveryIdle \<and>
       dd_recent data = [''i-2'', ''i-1''])"
  by code_simp


lemma sample_dd_start: "disc_start (DiscoveryIdle, sample_dd)"
  unfolding disc_start_def sample_dd_def by blast

lemma sample_discovery_run:
  obtains es data where "di.run (DiscoveryIdle, sample_dd) es (DiscoveryIdle, data)"
    "map (fst \<circ> snd) es = [[], [], [''i-1'', ''i-2''], []]" "dd_recent data = [''i-2'', ''i-1'']"
proof -
  from sample_discovery obtain es data where
    "disc_play sample_de 0 sample_ds (DiscoveryIdle, sample_dd)
       [Discover False, ResumeScanning, MsgListing (sample_listing [''i-1'', ''i-2'', ''i-1'']),
        MsgSyncCompleted ''cmd'' ChangeSetStateFinishedSuccessfully] = Some (es, DiscoveryIdle, data)"
    "map (fst \<circ> snd) es = [[], [], [''i-1'', ''i-2''], []]" "dd_recent data = [''i-2'', ''i-1'']"
    by (auto split: option.splits)
  then show thesis by (intro that [OF play_run])
qed

theorem idle_means_done_witness:
  "\<exists>data. di.reach (DiscoveryIdle, data) \<and> dd_recent data = [''i-2'', ''i-1''] \<and> dd_outstandingSyncs data = []"
proof -
  obtain es data where r: "di.run (DiscoveryIdle, sample_dd) es (DiscoveryIdle, data)" "dd_recent data = [''i-2'', ''i-1'']"
    by (rule sample_discovery_run)
  have "di.reach (DiscoveryIdle, data)" by (rule di.run_reach [OF r(1) di.reach_start [OF sample_dd_start]])
  with idle_means_done [OF this] r(2) show ?thesis by blast
qed

theorem discovered_once_witness:
  "\<exists>es y. di.run (DiscoveryIdle, sample_dd) es y \<and> concat (map (fst \<circ> snd) es) = [''i-1'', ''i-2''] \<and>
     distinct (concat (map (fst \<circ> snd) es))"
proof -
  obtain es data where r: "di.run (DiscoveryIdle, sample_dd) es (DiscoveryIdle, data)"
    "map (fst \<circ> snd) es = [[], [], [''i-1'', ''i-2''], []]"
    by (rule sample_discovery_run)
  have "concat (map (fst \<circ> snd) es) = [''i-1'', ''i-2'']" unfolding r(2) by simp
  with discovered_once [OF sample_dd_start r(1)] r(1) show ?thesis by blast
qed

text \<open>Two listings are outstanding and the plugin of the first has gone.\<close>

definition sample_busy :: DiscoveryData where
  "sample_busy = sample_dd\<lparr>dd_outstandingLists := [listing_op (sample_listing []),
     (listing_op (sample_listing []))\<lparr>lo_TargetLabel := ''u''\<rparr>]\<rparr>"

definition sample_gone :: disc_env where
  "sample_gone = sample_de\<lparr>de_plugin := (\<lambda>_. None)\<rparr>"

definition sample_last :: Listing where
  "sample_last = (sample_listing [])\<lparr>lst_Target := sample_disc_target\<lparr>tgt_Label := ''u''\<rparr>\<rparr>"

lemma sample_failed: "sync_failed sample_gone sample_ds 0 sample_busy (sample_listing [''i-1''])"
  by code_simp

definition sample_blocked :: DiscoveryData where
  "sample_blocked = sample_busy\<lparr>dd_recent := [''i-1''],
     dd_outstandingLists := [(listing_op (sample_listing []))\<lparr>lo_TargetLabel := ''u''\<rparr>],
     dd_summary := [(''NS::S::T'', 1)], dd_outstandingSyncs := [('''', listing_op (sample_listing []))]\<rparr>"

lemma sample_failed_listing:
  "(case disc_handle sample_gone sample_ds 0 DiscoveryDiscovering sample_busy (MsgListing (sample_listing [''i-1''])) of
     (d', outs, r) \<Rightarrow> length outs = 0 \<and> r = Some (DiscoveryDiscovering, sample_blocked))"
  by code_simp

theorem failed_sync_blocks_idle_witness:
  "\<exists>s es y. disc_step (DiscoveryDiscovering, sample_busy)
       (MsgListing (sample_listing [''i-1'']), [''i-1''], []) s \<and> di.run s es y \<and>
     map fst es = [MsgListing sample_last, Discover True] \<and> fst y = DiscoveryDiscovering \<and>
     dd_queued (snd y) = [] \<and> dd_outstandingLists (snd y) = []"
proof -
  obtain d' where h: "disc_handle sample_gone sample_ds 0 DiscoveryDiscovering sample_busy (MsgListing (sample_listing [''i-1''])) =
      (d', [], Some (DiscoveryDiscovering, sample_blocked))"
    using sample_failed_listing by (auto split: prod.splits)
  have hand: "handed sample_ds sample_busy (MsgListing (sample_listing [''i-1''])) = [''i-1'']" by code_simp
  have step: "disc_step (DiscoveryDiscovering, sample_busy) (MsgListing (sample_listing [''i-1'']), [''i-1''], [])
      (DiscoveryDiscovering, sample_blocked)"
    using disc_handled [OF h] unfolding hand .
  have "case disc_play sample_gone 0 sample_ds (DiscoveryDiscovering, sample_blocked) [MsgListing sample_last, Discover True] of
      None \<Rightarrow> False | Some (es, st, data) \<Rightarrow> map fst es = [MsgListing sample_last, Discover True] \<and>
        dd_queued data = [] \<and> dd_outstandingLists data = []"
    by code_simp
  then obtain es y where p: "disc_play sample_gone 0 sample_ds (DiscoveryDiscovering, sample_blocked)
      [MsgListing sample_last, Discover True] = Some (es, y)"
    "map fst es = [MsgListing sample_last, Discover True]" "dd_queued (snd y) = []" "dd_outstandingLists (snd y) = []"
    by (auto split: option.splits)
  note run = play_run [OF p(1)]
  have "list_all (\<lambda>m. case m of MsgSyncCompleted i s \<Rightarrow> i \<noteq> '''' | _ \<Rightarrow> True) (map fst es)" unfolding p(2) by simp
  then have "list_all names_command es" by (simp add: list_all_iff names_command_def)
  from failed_sync_blocks_idle [OF sample_failed h run this] step run p(2-4) show ?thesis
    by (intro exI [of _ "(DiscoveryDiscovering, sample_blocked)"] exI [of _ es] exI [of _ y] conjI)
qed

definition sample_scanning :: DiscoveryData where
  "sample_scanning = sample_dd\<lparr>dd_outstandingLists := [listing_op (sample_listing [])]\<rparr>"

fun disc_outline :: "disc_out \<Rightarrow> (string \<times> string list option) option" where
  "disc_outline (OutSyncSent e) = Some (effect_outline e)"
| "disc_outline _ = None"

lemma outline_started: "(i, Some ks) = effect_outline e \<Longrightarrow> \<exists>cs. e = StartedExecutor i cs"
  by (cases e) auto

lemma sample_brought_in:
  "(case disc_handle sample_de sample_ds 0 DiscoveryDiscovering sample_scanning (MsgListing (sample_listing [''i-1''])) of
     (d', outs, r) \<Rightarrow> map disc_outline outs = [Some (''cmd'', None), Some (''cmd'', Some [''i//read''])] \<and> r \<noteq> None)"
  by code_simp

theorem discovery_brings_in_witness:
  "\<exists>d' outs st data'. disc_handle sample_de sample_ds 0 DiscoveryDiscovering sample_scanning (MsgListing (sample_listing [''i-1''])) =
       (d', outs, Some (st, data')) \<and>
     map disc_outline outs = [Some (''cmd'', None), Some (''cmd'', Some [''i//read''])] \<and>
     (\<exists>e. GetFormaCommandByCommandID d' ''cmd'' = Inr e) \<and> map_of (dd_outstandingSyncs data') ''cmd'' \<noteq> None"
proof -
  obtain d' outs r where h: "disc_handle sample_de sample_ds 0 DiscoveryDiscovering sample_scanning (MsgListing (sample_listing [''i-1''])) = (d', outs, r)"
    by (metis surj_pair)
  from sample_brought_in [unfolded h prod.case] obtain st data' where
    f: "map disc_outline outs = [Some (''cmd'', None), Some (''cmd'', Some [''i//read''])]" "r = Some (st, data')"
    by auto
  from f(1) obtain cs where sent: "OutSyncSent (StartedExecutor ''cmd'' cs) \<in> set outs"
    by (auto simp: map_eq_Cons_conv elim!: disc_outline.elims) (metis outline_started)
  have ords: "range_order (ge_ord (me_gen (de_ms sample_de)))" "range_orders (me_ord (de_ms sample_de))"
    by (simp_all add: sample_de_def sample_ms_def sample_gen_order sample_orders)
  from discovery_brings_in [OF sample_ds_ok ords h [unfolded f(2)] sent]
  have "(\<exists>e. GetFormaCommandByCommandID d' ''cmd'' = Inr e) \<and> map_of (dd_outstandingSyncs data') ''cmd'' \<noteq> None"
    by (elim exE conjE) simp
  with h f show ?thesis by (intro exI [of _ d'] exI [of _ outs] exI [of _ st] exI [of _ data']) simp
qed

end
