(* ===== verification/Postgres.thy ===== *)
theory Postgres
  imports Datastore
begin

text \<open>
  \<^verbatim>\<open>internal/metastructure/datastore/postgres.go\<close>: the PostgreSQL datastore, over the
  tables of the SQLite one (its \<^verbatim>\<open>managed\<close> column is a boolean, here one or zero). The
  database compares texts by its collation, which the code leaves to the server: it is the argument
  \<open>coll\<close>, a strict order. A \<^verbatim>\<open>TIMESTAMP\<close> holds microseconds, and
  \<^verbatim>\<open>LIKE\<close> distinguishes upper and lower case and knows an escape character. As for
  SQLite, rows come in the order of the table where a query names none, and an updated row counts as the
  youngest. A \<^verbatim>\<open>JSONB\<close> value stands for the document that was written: the order of members,
  which it does not keep, is not modelled, and texts hold no NUL.
\<close>

section \<open>Connection\<close>

record PostgresConfig =
  pc_Host :: string
  pc_Port :: int
  pc_User :: string
  pc_Password :: string
  pc_Database :: string
  pc_Schema :: string
  pc_ConnectionParams :: string

text \<open>The connection string. The port is printed by \<open>itoa\<close>.\<close>

definition pg_connStr :: "(int \<Rightarrow> string) \<Rightarrow> PostgresConfig \<Rightarrow> string" where
  "pg_connStr itoa cfg =
     (let connStr = ''postgres://'' @ pc_User cfg @ '':'' @ pc_Password cfg @ ''@'' @ pc_Host cfg @ '':'' @
            itoa (pc_Port cfg) @ ''/'' @ pc_Database cfg;
          connStr = (if pc_ConnectionParams cfg \<noteq> '''' then connStr @ ''?'' @ pc_ConnectionParams cfg else connStr)
      in if pc_Schema cfg \<noteq> ''''
         then if CHR ''?'' \<in> set connStr then connStr @ ''&search_path='' @ pc_Schema cfg
              else connStr @ ''?search_path='' @ pc_Schema cfg
         else connStr)"

definition NewDatastorePostgres :: "string \<Rightarrow> datastore" where
  "NewDatastorePostgres agentID =
     \<lparr>ds_commands = [], ds_resources = [], ds_targets = [], ds_agentID = agentID\<rparr>"

section \<open>The database\<close>

type_synonym collation = "string \<Rightarrow> string \<Rightarrow> bool"

text \<open>\<^verbatim>\<open>INSERT ... ON CONFLICT DO UPDATE\<close> of all other columns.\<close>

definition pg_upsert :: "('r \<Rightarrow> 'k) \<Rightarrow> 'r \<Rightarrow> 'r list \<Rightarrow> 'r list" where
  "pg_upsert key row rows = (if list_ex (\<lambda>r. key r = key row) rows
     then filter (\<lambda>r. key r \<noteq> key row) rows @ [row] else rows @ [row])"

definition pg_timestamp :: "go_time \<Rightarrow> go_time" where
  "pg_timestamp t = t div 1000 * 1000"

fun pg_insert :: "('r \<Rightarrow> 'r \<Rightarrow> bool) \<Rightarrow> 'r \<Rightarrow> 'r list \<Rightarrow> 'r list" where
  "pg_insert lt x [] = [x]"
| "pg_insert lt x (y # ys) = (if lt y x then y # pg_insert lt x ys else x # y # ys)"

definition pg_order_by :: "collation \<Rightarrow> ('r \<Rightarrow> string) \<Rightarrow> 'r list \<Rightarrow> 'r list" where
  "pg_order_by coll key rows = foldr (pg_insert (\<lambda>a b. coll (key a) (key b))) rows []"

definition pg_latest_where :: "collation \<Rightarrow> (resource_row \<Rightarrow> bool) \<Rightarrow> resource_row list \<Rightarrow> resource_row option" where
  "pg_latest_where coll p rows = (case filter p rows of
       [] \<Rightarrow> None
     | r # rs \<Rightarrow> Some (fold (\<lambda>r best. if coll (rr_version best) (rr_version r) then r else best) rs r))"

definition pg_current_version :: "collation \<Rightarrow> resource_row list \<Rightarrow> resource_row \<Rightarrow> bool" where
  "pg_current_version coll rows r1 \<longleftrightarrow>
     \<not> list_ex (\<lambda>r2. rr_uri r1 = rr_uri r2 \<and> coll (rr_version r1) (rr_version r2)) rows"

definition pg_live_rows :: "collation \<Rightarrow> resource_row list \<Rightarrow> resource_row list" where
  "pg_live_rows coll rows = filter (\<lambda>r. pg_current_version coll rows r \<and> rr_operation r \<noteq> OperationDelete) rows"

fun pg_like :: "string \<Rightarrow> string \<Rightarrow> bool" where
  "pg_like [] s \<longleftrightarrow> s = []"
| "pg_like (p # ps) [] \<longleftrightarrow> p = CHR ''%'' \<and> pg_like ps []"
| "pg_like (p # ps) (c # cs) \<longleftrightarrow>
     (if p = CHR ''%'' then pg_like ps (c # cs) \<or> pg_like (p # ps) cs
      else if p = CHR 0x5C then (case ps of [] \<Rightarrow> False | q # qs \<Rightarrow> q = c \<and> pg_like qs cs)
      else (p = CHR ''_'' \<or> p = c) \<and> pg_like ps cs)"

section \<open>Commands\<close>

definition pg_StoreFormaCommand :: "datastore \<Rightarrow> FormaCommand \<Rightarrow> string \<Rightarrow> datastore \<times> (ds_error + unit)" where
  "pg_StoreFormaCommand d fa commandID =
     (case stored_FormaCommand fa of
        None \<Rightarrow> (d, Inl ErrMarshal)
      | Some jsonData \<Rightarrow>
          (d\<lparr>ds_commands := pg_upsert cr_command_id
             \<lparr>cr_command_id = commandID, cr_timestamp = pg_timestamp (fc_StartTs fa),
              cr_command = command_string (fc_Command fa),
              cr_state = command_state_string (fc_State fa), cr_client_id = fc_ClientID fa,
              cr_agent_id = ds_agentID d, cr_data = jsonData\<rparr> (ds_commands d)\<rparr>, Inr ()))"

definition pg_LoadFormaCommands :: "datastore \<Rightarrow> FormaCommand list" where
  "pg_LoadFormaCommands d = map cr_data (ds_commands d)"

definition pg_DeleteFormaCommand :: "datastore \<Rightarrow> FormaCommand \<Rightarrow> string \<Rightarrow> datastore" where
  "pg_DeleteFormaCommand d fa commandID =
     d\<lparr>ds_commands := filter (\<lambda>r. \<not> cr_command_id r = commandID) (ds_commands d)\<rparr>"

definition pg_GetFormaCommandByCommandID :: "datastore \<Rightarrow> string \<Rightarrow> ds_error + FormaCommand" where
  "pg_GetFormaCommandByCommandID d commandID =
     (case filter (\<lambda>r. cr_command_id r = commandID) (ds_commands d) of
        [] \<Rightarrow> Inl (ErrCommandNotFound commandID)
      | row # _ \<Rightarrow> Inr (cr_data row))"

definition pg_GetMostRecentFormaCommandByClientID :: "datastore \<Rightarrow> string \<Rightarrow> ds_error + FormaCommand" where
  "pg_GetMostRecentFormaCommandByClientID d clientID =
     (case take 1 (by_timestamp_desc (filter (\<lambda>r. cr_client_id r = clientID) (ds_commands d))) of
        [] \<Rightarrow> Inl (ErrNoCommandForClient clientID)
      | row # _ \<Rightarrow> Inr (cr_data row))"

definition pg_LoadIncompleteFormaCommands :: "datastore \<Rightarrow> FormaCommand list" where
  "pg_LoadIncompleteFormaCommands d = map cr_data (filter (\<lambda>r. cr_command r \<noteq> ''sync'' \<and>
     cr_state r = command_state_string CommandStateInProgress) (ds_commands d))"

text \<open>The placeholders are numbered; otherwise the condition grows as for SQLite. An unset constraint
  leaves no operator, so that the text is no SQL.\<close>

definition extendPostgresQueryString ::
  "('r \<Rightarrow> bool) option \<Rightarrow> 'a QueryItem option \<Rightarrow> (('a \<Rightarrow> 'a \<Rightarrow> bool) \<Rightarrow> 'r \<Rightarrow> 'a \<Rightarrow> bool) \<Rightarrow> ('r \<Rightarrow> bool) option" where
  "extendPostgresQueryString queryStr queryItem sqlPart =
     (case queryItem of
        None \<Rightarrow> queryStr
      | Some q \<Rightarrow>
          Option.bind (case qi_Constraint q of Excluded \<Rightarrow> Some (\<noteq>) | Required \<Rightarrow> Some (=) | Optional \<Rightarrow> Some (=)
              | ConstraintUnset \<Rightarrow> None)
            (\<lambda>operator. map_option (\<lambda>p r. p r \<and> sqlPart operator r (qi_Item q)) queryStr))"

definition pg_QueryFormaCommands :: "datastore \<Rightarrow> StatusQuery \<Rightarrow> ds_error + FormaCommand list" where
  "pg_QueryFormaCommands d query =
     (let q0 = Some (\<lambda>r. True);
          q1 = extendPostgresQueryString q0 (sq_CommandID query) (\<lambda>op r x. op (cr_command_id r) x);
          q2 = extendPostgresQueryString q1 (sq_ClientID query) (\<lambda>op r x. op (cr_client_id r) x);
          q3 = extendPostgresQueryString q2 (sq_Command query)
                 (\<lambda>op r x. op (sql_lower (cr_command r)) (sql_lower x));
          q4 = (if sq_Command query = None
                then map_option (\<lambda>p r. p r \<and> cr_command r \<noteq> command_string CommandSync) q3 else q3);
          q5 = extendPostgresQueryString q4 (sq_Stack query)
                 (\<lambda>op r x. list_ex (\<lambda>elem. op (res_Stack (ru_Resource elem)) x) (fc_ResourceUpdates (cr_data r)));
          q6 = extendPostgresQueryString q5 (sq_Status query)
                 (\<lambda>op r x. op (sql_lower (cr_state r)) (sql_lower x))
      in case q6 of
           None \<Rightarrow> Inl ErrSyntax
         | Some p \<Rightarrow>
             let rows = by_timestamp_desc (filter p (ds_commands d))
             in Inr (map cr_data (if sq_N query > 0 then take (nat (sq_N query)) rows else rows)))"

definition pg_last_reconcile :: "datastore \<Rightarrow> go_time option" where
  "pg_last_reconcile d =
     (case by_timestamp_desc (filter (\<lambda>r. cfg_Mode (fc_Config (cr_data r)) = FormaApplyModeReconcile)
             (ds_commands d)) of
        [] \<Rightarrow> None | r # _ \<Rightarrow> Some (cr_timestamp r))"

definition pg_GetResourceModificationsSinceLastReconcile ::
  "collation \<Rightarrow> (ResourceModification list \<Rightarrow> ResourceModification list) \<Rightarrow> datastore \<Rightarrow> string \<Rightarrow>
    ResourceModification list" where
  "pg_GetResourceModificationsSinceLastReconcile coll ord d stack =
     (if list_ex (\<lambda>r1. rr_stack r1 = stack \<and>
          \<not> list_ex (\<lambda>r2. rr_ksuid r1 = rr_ksuid r2 \<and> coll (rr_version r1) (rr_version r2)) (ds_resources d) \<and>
          rr_operation r1 \<noteq> OperationDelete) (ds_resources d)
      then (case pg_last_reconcile d of
              None \<Rightarrow> ord []
            | Some ts \<Rightarrow> ord (remdups (concat (map (\<lambda>t1. map
                (\<lambda>t2. \<lparr>rm_Stack = stack, rm_Type = rr_type t2, rm_Label = rr_label t2, rm_Operation = rr_operation t2\<rparr>)
                (filter (\<lambda>t2. cr_command_id t1 = rr_command_id t2 \<and> rr_stack t2 = stack) (ds_resources d)))
                (filter (\<lambda>t1. ts < cr_timestamp t1) (ds_commands d))))))
      else ord [])"

section \<open>Resources\<close>

definition pg_LoadResource :: "collation \<Rightarrow> datastore \<Rightarrow> FormaeURI \<Rightarrow> ds_error + Resource option" where
  "pg_LoadResource coll d uri =
     load_first (pg_latest_where coll (\<lambda>r. rr_uri r = uri \<and> rr_operation r \<noteq> OperationDelete) (ds_resources d))"

definition pg_LoadResourceById :: "collation \<Rightarrow> datastore \<Rightarrow> string \<Rightarrow> ds_error + Resource option" where
  "pg_LoadResourceById coll d ksuid =
     load_first (pg_latest_where coll (\<lambda>r. rr_ksuid r = ksuid \<and> rr_operation r \<noteq> OperationDelete) (ds_resources d))"

definition pg_LoadResourceByNativeID :: "collation \<Rightarrow> datastore \<Rightarrow> string \<Rightarrow> ds_error + Resource option" where
  "pg_LoadResourceByNativeID coll d nativeID =
     (case filter (\<lambda>r1. rr_native_id r1 = nativeID \<and> pg_current_version coll (ds_resources d) r1 \<and>
             rr_operation r1 \<noteq> OperationDelete) (ds_resources d) of
        [] \<Rightarrow> Inr None
      | row # _ \<Rightarrow> (case load_row row of Inl e \<Rightarrow> Inl e | Inr resource \<Rightarrow> Inr (Some resource)))"

definition pg_LoadAllResources :: "collation \<Rightarrow> datastore \<Rightarrow> ds_error + Resource list" where
  "pg_LoadAllResources coll d = load_rows (pg_live_rows coll (ds_resources d))"

definition pg_LoadAllStacks :: "collation \<Rightarrow> (string list \<Rightarrow> string list) \<Rightarrow> datastore \<Rightarrow> ds_error + Forma list" where
  "pg_LoadAllStacks coll ord d = (case load_rows (pg_live_rows coll (ds_resources d)) of
     Inl e \<Rightarrow> Inl e
   | Inr allResources \<Rightarrow>
       let stackResourcesMap = fold (\<lambda>r m. if res_Stack r \<noteq> ''''
             then AList.update (res_Stack r) ((case map_of m (res_Stack r) of None \<Rightarrow> [] | Some l \<Rightarrow> l) @ [r]) m
             else m) allResources []
       in Inr (concat (map (\<lambda>k. case map_of stackResourcesMap k of
              None \<Rightarrow> [] | Some rs \<Rightarrow> if length rs > 0 then [FormaFromResources rs] else [])
            (ord (map fst stackResourcesMap)))))"

definition pg_LoadStack :: "collation \<Rightarrow> datastore \<Rightarrow> string \<Rightarrow> ds_error + Forma option" where
  "pg_LoadStack coll d stackLabel =
     (case load_rows (filter (\<lambda>r1. rr_stack r1 = stackLabel \<and> pg_current_version coll (ds_resources d) r1 \<and>
             rr_operation r1 \<noteq> OperationDelete) (ds_resources d)) of
        Inl e \<Rightarrow> Inl e
      | Inr allResources \<Rightarrow>
          let stackResources = filter (\<lambda>r. res_Stack r = stackLabel) allResources
          in if length stackResources = 0 then Inr None
             else Inr (Some (FormaFromResources stackResources)))"

definition pg_QueryResources :: "collation \<Rightarrow> datastore \<Rightarrow> ResourceQuery \<Rightarrow> ds_error + Resource list" where
  "pg_QueryResources coll d query =
     (let q1 = extendPostgresQueryString (Some (\<lambda>r. pg_current_version coll (ds_resources d) r \<and> rr_operation r \<noteq> OperationDelete))
                 (rq_NativeID query) (\<lambda>op r x. op (rr_native_id r) x);
          q2 = extendPostgresQueryString q1 (rq_Stack query) (\<lambda>op r x. op (rr_stack r) x);
          q3 = extendPostgresQueryString q2 (rq_Type query) (\<lambda>op r x. op (sql_lower (rr_type r)) (sql_lower x));
          q4 = extendPostgresQueryString q3 (rq_Label query) (\<lambda>op r x. op (rr_label r) x);
          q5 = extendPostgresQueryString q4 (rq_Target query) (\<lambda>op r x. op (rr_target r) x);
          q6 = extendPostgresQueryString q5 (rq_Managed query) (\<lambda>op r x. op (rr_managed r = 1) x)
      in case q6 of
           None \<Rightarrow> Inl ErrSyntax
         | Some p \<Rightarrow> load_rows (pg_order_by coll rr_type (pg_order_by coll rr_label (filter p (ds_resources d)))))"

definition pg_GetKSUIDByTriplet :: "collation \<Rightarrow> datastore \<Rightarrow> string \<Rightarrow> string \<Rightarrow> string \<Rightarrow> string" where
  "pg_GetKSUIDByTriplet coll d stack label resourceType =
     (case pg_latest_where coll (\<lambda>r. rr_stack r = stack \<and> rr_label r = label \<and>
             sql_lower (rr_type r) = sql_lower resourceType \<and> rr_operation r \<noteq> OperationDelete)
             (ds_resources d) of
        None \<Rightarrow> '''' | Some row \<Rightarrow> rr_ksuid row)"

definition pg_BatchGetKSUIDsByTriplets :: "collation \<Rightarrow> datastore \<Rightarrow> TripletKey list \<Rightarrow> (TripletKey \<times> string) list" where
  "pg_BatchGetKSUIDsByTriplets coll d triplets =
     (if length triplets = 0 then []
      else fold (\<lambda>row. AList.update (rr_triplet row) (rr_ksuid row))
        (filter (\<lambda>r1. rr_triplet r1 \<in> set triplets \<and>
           \<not> list_ex (\<lambda>r2. rr_stack r1 = rr_stack r2 \<and> rr_label r1 = rr_label r2 \<and> rr_type r1 = rr_type r2 \<and>
              coll (rr_version r1) (rr_version r2)) (ds_resources d))
         (ds_resources d)) [])"

definition pg_BatchGetTripletsByKSUIDs :: "collation \<Rightarrow> datastore \<Rightarrow> string list \<Rightarrow> (string \<times> TripletKey) list" where
  "pg_BatchGetTripletsByKSUIDs coll d ksuids =
     (if length ksuids = 0 then []
      else fold (\<lambda>row. AList.update (rr_ksuid row) (rr_triplet row))
        (filter (\<lambda>r1. rr_ksuid r1 \<in> set ksuids \<and>
           \<not> list_ex (\<lambda>r2. rr_ksuid r1 = rr_ksuid r2 \<and> coll (rr_version r1) (rr_version r2)) (ds_resources d))
         (ds_resources d)) [])"

definition pg_LatestLabelForResource :: "collation \<Rightarrow> datastore \<Rightarrow> string \<Rightarrow> string" where
  "pg_LatestLabelForResource coll d label =
     (case filter (\<lambda>l. l = label \<or> pg_like (label @ ''-%'') l) (map rr_label (ds_resources d)) of
        [] \<Rightarrow> ''''
      | l # ls \<Rightarrow> fold (\<lambda>x best. if length best < length x \<or> (length best = length x \<and> coll best x)
                          then x else best) ls l)"

section \<open>Storing resources\<close>

text \<open>A resource without KSUID gets a fresh one.\<close>

definition pg_ensure_ksuid :: "string \<Rightarrow> Resource \<Rightarrow> Resource" where
  "pg_ensure_ksuid newID resource = (if res_Ksuid resource = '''' then resource\<lparr>res_Ksuid := newID\<rparr> else resource)"

definition pg_store_existing ::
  "collation \<Rightarrow> string \<Rightarrow> resource_row \<Rightarrow> Resource \<Rightarrow> json \<Rightarrow> string \<Rightarrow> OperationType \<Rightarrow> Resource \<Rightarrow> datastore \<Rightarrow>
   datastore \<times> (ds_error + string)" where
  "pg_store_existing coll fresh ex resource data commandID operation existingResource d =
     (let (readWriteEqual, readOnlyEqual) = resourcesAreEqual resource existingResource;
          existing = (d, Inr (version_id (res_Ksuid resource) (rr_version ex)));
          newVersion = (if readWriteEqual \<and> \<not> readOnlyEqual then rr_version ex else fresh);
          written = (d\<lparr>ds_resources := pg_upsert rr_key (new_row resource newVersion commandID operation data) (ds_resources d)\<rparr>,
                     Inr (version_id (res_Ksuid resource) newVersion))
      in if operation = OperationDelete
         then (case pg_latest_where coll (\<lambda>r. rr_uri r = res_URI resource) (ds_resources d) of
                 None \<Rightarrow> (d, Inr '''')
               | Some latest \<Rightarrow> if rr_operation latest = OperationDelete then existing else written)
         else if readWriteEqual \<and> readOnlyEqual then existing
         else written)"

definition pg_storeResource ::
  "collation \<Rightarrow> string \<Rightarrow> string \<Rightarrow> datastore \<Rightarrow> Resource \<Rightarrow> json \<Rightarrow> string \<Rightarrow> OperationType \<Rightarrow>
    datastore \<times> (ds_error + string)" where
  "pg_storeResource coll newID fresh d resource data commandID operation =
     (let resource = pg_ensure_ksuid newID resource
      in case pg_latest_where coll (\<lambda>r. rr_native_id r = res_NativeID resource \<and> rr_type r = res_Type resource) (ds_resources d) of
           None \<Rightarrow>
             (case insert_into rr_key (new_row resource fresh commandID operation data) (ds_resources d) of
                None \<Rightarrow> (d, Inl ErrConstraint)
              | Some rows \<Rightarrow> (d\<lparr>ds_resources := rows\<rparr>, Inr (version_id (res_Ksuid resource) fresh)))
         | Some ex \<Rightarrow>
             let d = (if rr_managed ex = 0 \<and> operation \<noteq> OperationDelete
                      then d\<lparr>ds_resources := filter (\<lambda>r. \<not> rr_ksuid r = rr_ksuid ex) (ds_resources d)\<rparr> else d)
             in (case Resource_unmarshal (rr_data ex) of
                   None \<Rightarrow> (d, Inl ErrUnmarshal)
                 | Some existingResource \<Rightarrow>
                     pg_store_existing coll fresh ex resource data commandID operation existingResource d))"

definition pg_StoreResource ::
  "collation \<Rightarrow> string \<Rightarrow> string \<Rightarrow> datastore \<Rightarrow> Resource \<Rightarrow> string \<Rightarrow> datastore \<times> (ds_error + string)" where
  "pg_StoreResource coll newID fresh d resource commandID =
     (case Resource_marshal resource of
        None \<Rightarrow> (d, Inl ErrMarshal)
      | Some jsonData \<Rightarrow> pg_storeResource coll newID fresh d resource jsonData commandID OperationUpdate)"

definition pg_DeleteResource ::
  "collation \<Rightarrow> string \<Rightarrow> string \<Rightarrow> datastore \<Rightarrow> Resource \<Rightarrow> string \<Rightarrow> datastore \<times> (ds_error + string)" where
  "pg_DeleteResource coll newID fresh d resource commandID =
     pg_storeResource coll newID fresh d resource (JObj []) commandID OperationDelete"

fun pg_StoreStack_loop ::
  "collation \<Rightarrow> (string \<times> string) list \<Rightarrow> datastore \<Rightarrow> Resource list \<Rightarrow> string \<Rightarrow> string \<Rightarrow> datastore \<times> (ds_error + string)" where
  "pg_StoreStack_loop coll ids d [] commandID lastVersionID = (d, Inr lastVersionID)"
| "pg_StoreStack_loop coll ids d (resource # rest) commandID lastVersionID =
     (case pg_StoreResource coll (fst (hd ids)) (snd (hd ids)) d resource commandID of
        (d', Inl e) \<Rightarrow> (d', Inl e)
      | (d', Inr versionID) \<Rightarrow> pg_StoreStack_loop coll (tl ids) d' rest commandID versionID)"

definition pg_StoreStack ::
  "collation \<Rightarrow> (string \<times> string) list \<Rightarrow> datastore \<Rightarrow> Forma \<Rightarrow> string \<Rightarrow> datastore \<times> (ds_error + string)" where
  "pg_StoreStack coll ids d stack commandID = pg_StoreStack_loop coll ids d (forma_Resources stack) commandID ''''"

section \<open>Targets\<close>

definition pg_LoadTarget :: "datastore \<Rightarrow> string \<Rightarrow> Target option" where
  "pg_LoadTarget d label =
     (case filter (\<lambda>r. tr_label r = label) (ds_targets d) of
        [] \<Rightarrow> None
      | row # _ \<Rightarrow> Some \<lparr>tgt_Label = label, tgt_Namespace = tr_namespace row, tgt_Config = tr_config row\<rparr>)"

definition pg_StoreTarget :: "datastore \<Rightarrow> Target \<Rightarrow> datastore \<times> (ds_error + string)" where
  "pg_StoreTarget d target =
     (case pg_LoadTarget d (tgt_Label target) of
        Some existingTarget \<Rightarrow> (d, Inr (tgt_Label target @ ''_1''))
      | None \<Rightarrow>
          (case marshal_raw (tgt_Config target) of
             None \<Rightarrow> (d, Inl ErrMarshal)
           | Some jsonData \<Rightarrow>
               (case insert_into (\<lambda>r. (tr_label r, tr_version r)) \<lparr>tr_label = tgt_Label target, tr_version = 1,
                       tr_namespace = tgt_Namespace target, tr_config = RawJson jsonData\<rparr> (ds_targets d) of
                  None \<Rightarrow> (d, Inl ErrConstraint)
                | Some rows \<Rightarrow> (d\<lparr>ds_targets := rows\<rparr>, Inr (tgt_Label target @ ''_1'')))))"

definition pg_LoadAllTargets :: "datastore \<Rightarrow> Target list" where
  "pg_LoadAllTargets d = map row_target (ds_targets d)"

definition pg_LoadTargetsByLabels :: "datastore \<Rightarrow> string list \<Rightarrow> Target list" where
  "pg_LoadTargetsByLabels d targetNames =
     (if length targetNames = 0 then []
      else map row_target (filter (\<lambda>r. tr_label r \<in> set targetNames) (ds_targets d)))"

section \<open>Statistics\<close>

definition pg_Stats :: "collation \<Rightarrow> datastore \<Rightarrow> Stats" where
  "pg_Stats coll d =
     (let current = (\<lambda>r1. rr_operation r1 \<noteq> OperationDelete \<and> pg_current_version coll (ds_resources d) r1);
          user = filter (\<lambda>r. cr_command r \<noteq> command_string CommandSync) (ds_commands d);
          managed = filter (\<lambda>r1. rr_stack r1 \<noteq> UnmanagedStack \<and> current r1) (ds_resources d)
      in \<lparr>st_Clients = card (cr_client_id ` set (ds_commands d)),
          st_Commands = count_by cr_command user,
          st_States = count_by cr_state user,
          st_Stacks = card (rr_stack ` set managed),
          st_ManagedResources = length managed,
          st_UnmanagedResources = length (filter (\<lambda>r1. rr_stack r1 = UnmanagedStack \<and> current r1) (ds_resources d)),
          st_Targets = length (filter (\<lambda>t1. \<not> list_ex (\<lambda>t2. tr_label t1 = tr_label t2 \<and>
             tr_version t1 < tr_version t2) (ds_targets d)) (ds_targets d)),
          st_ResourceTypes = count_by rr_type (filter current (ds_resources d)),
          st_ResourceErrors = count_by id (resource_errors (map cr_data
             (filter (\<lambda>r. cr_state r = command_state_string CommandStateFailed) (ds_commands d))))\<rparr>)"


end
