(* ===== verification/Postgres_Facts.thy ===== *)
theory Postgres_Facts
  imports Postgres Update_Generator_Datastore
begin

text \<open>
  The two datastores compared. Under the bytewise collation every function of the PostgreSQL one is a
  function of the SQLite one, up to the differences the theorems name; under other collations the order of
  versions is not the order in which they were drawn.
\<close>

section \<open>The bytewise collation\<close>

named_theorems pg_bytewise

lemma upsert_replace [pg_bytewise]: "pg_upsert key row rows = replace_into key row rows"
  by (auto simp: pg_upsert_def replace_into_def list_ex_iff intro!: filter_True [symmetric])

lemma bytewise_latest [pg_bytewise]: "pg_latest_where (<) = latest_where"
proof -
  have newer: "newer = (\<lambda>r best. if rr_version best < rr_version r then r else best)"
    by (intro ext) (simp add: newer_def)
  show ?thesis by (intro ext) (simp only: pg_latest_where_def latest_where_def newer)
qed

lemma bytewise_current [pg_bytewise]: "pg_current_version (<) = current_version"
  by (intro ext) (simp add: pg_current_version_def current_version_def)

lemma bytewise_live [pg_bytewise]: "pg_live_rows (<) = live_rows"
  by (intro ext) (simp add: pg_live_rows_def live_rows_def bytewise_current)

lemma bytewise_order [pg_bytewise]: "pg_order_by (<) key rows = sort_key key rows"
proof -
  have "pg_insert (\<lambda>a b. key a < key b) = insort_key key"
  proof (intro ext)
    fix x ys show "pg_insert (\<lambda>a b. key a < key b) x ys = insort_key key x ys"
      by (induction ys) (auto simp: not_less)
  qed
  then show ?thesis by (simp add: pg_order_by_def sort_key_def)
qed

lemma extend_same [pg_bytewise]: "extendPostgresQueryString = extendSQLiteQueryString"
  by (intro ext) (auto simp: extendPostgresQueryString_def extendSQLiteQueryString_def split: option.splits QueryItemConstraint.splits)

lemma find_filter: "find p xs = (case filter p xs of [] \<Rightarrow> None | x # _ \<Rightarrow> Some x)"
  by (induction xs) auto

lemma exists_same [pg_bytewise]: "pg_last_reconcile = last_reconcile"
  by (intro ext) (simp add: pg_last_reconcile_def last_reconcile_def)

section \<open>Statements\<close>

lemma store_existing_same:
  "fst (pg_store_existing (<) fresh ex r data c op e d) = fst (store_changed fresh ex r data c op e d)"
  "op \<noteq> OperationDelete \<Longrightarrow> snd (pg_store_existing (<) fresh ex r data c op e d) = Inl err \<longleftrightarrow>
    snd (store_changed fresh ex r data c op e d) = Inl err"
proof -
  let ?l = "latest_where (\<lambda>x. rr_uri x = res_URI r) (ds_resources d)"
  obtain rw ro where eq: "resourcesAreEqual r e = (rw, ro)" by fastforce
  have pg: "pg_store_existing (<) fresh ex r data c op e d = (if op = OperationDelete
      then (case ?l of None \<Rightarrow> (d, Inr '''') | Some l \<Rightarrow> if rr_operation l = OperationDelete
          then (d, Inr (version_id (res_Ksuid r) (rr_version ex)))
          else (write_version r (if rw \<and> \<not> ro then rr_version ex else fresh) c op data d,
                Inr (version_id (res_Ksuid r) (if rw \<and> \<not> ro then rr_version ex else fresh))))
      else if rw \<and> ro then (d, Inr (version_id (res_Ksuid r) (rr_version ex)))
      else (write_version r (if rw \<and> \<not> ro then rr_version ex else fresh) c op data d,
            Inr (version_id (res_Ksuid r) (if rw \<and> \<not> ro then rr_version ex else fresh))))"
    unfolding pg_store_existing_def Let_def eq prod.case bytewise_latest upsert_replace write_version_def ..
  show "fst (pg_store_existing (<) fresh ex r data c op e d) = fst (store_changed fresh ex r data c op e d)"
    unfolding pg store_changed_def Let_def eq fst_conv snd_conv by (cases ?l) (simp_all del: latest_where_None)
  show "op \<noteq> OperationDelete \<Longrightarrow> snd (pg_store_existing (<) fresh ex r data c op e d) = Inl err \<longleftrightarrow>
      snd (store_changed fresh ex r data c op e d) = Inl err"
    unfolding pg store_changed_def Let_def eq fst_conv snd_conv by simp
qed

lemma store_same:
  assumes "res_Ksuid r \<noteq> ''''"
  shows "fst (pg_storeResource (<) newID fresh d r data c op) = fst (storeResource newID fresh d r data c op)"
    and "op \<noteq> OperationDelete \<Longrightarrow> snd (pg_storeResource (<) newID fresh d r data c op) = Inl err \<longleftrightarrow>
      snd (storeResource newID fresh d r data c op) = Inl err"
proof -
  let ?l = "latest_where (\<lambda>x. rr_native_id x = res_NativeID r \<and> rr_type x = res_Type r) (ds_resources d)"
  have pg: "pg_storeResource (<) newID fresh d r data c op = (case ?l of
      None \<Rightarrow> (case insert_into rr_key (new_row r fresh c op data) (ds_resources d) of
          None \<Rightarrow> (d, Inl ErrConstraint)
        | Some rows \<Rightarrow> (d\<lparr>ds_resources := rows\<rparr>, Inr (version_id (res_Ksuid r) fresh)))
    | Some ex \<Rightarrow> (case Resource_unmarshal (rr_data ex) of
          None \<Rightarrow> (drop_unmanaged ex op d, Inl ErrUnmarshal)
        | Some e \<Rightarrow> pg_store_existing (<) fresh ex r data c op e (drop_unmanaged ex op d)))"
    using assms unfolding pg_storeResource_def pg_ensure_ksuid_def Let_def bytewise_latest drop_unmanaged_def by (simp cong: option.case_cong)
  have lite: "storeResource newID fresh d r data c op = store_resource fresh d r data c op"
    using assms by (simp add: storeResource_def ensure_ksuid_def)
  show "fst (pg_storeResource (<) newID fresh d r data c op) = fst (storeResource newID fresh d r data c op)"
    unfolding pg lite store_resource_def by (cases ?l) (simp_all del: latest_where_None add: store_existing_same split: option.split)
  show "op \<noteq> OperationDelete \<Longrightarrow> snd (pg_storeResource (<) newID fresh d r data c op) = Inl err \<longleftrightarrow>
      snd (storeResource newID fresh d r data c op) = Inl err"
    unfolding pg lite store_resource_def by (cases ?l) (simp_all del: latest_where_None add: store_existing_same split: option.split)
qed

lemma StoreResource_same:
  assumes "res_Ksuid r \<noteq> ''''"
  shows "fst (pg_StoreResource (<) newID fresh d r c) = fst (StoreResource newID fresh d r c)"
    and "snd (pg_StoreResource (<) newID fresh d r c) = Inl err \<longleftrightarrow> snd (StoreResource newID fresh d r c) = Inl err"
  using store_same [OF assms] by (simp_all add: pg_StoreResource_def StoreResource_def split: option.split)

lemma StoreStack_same:
  assumes "list_all (\<lambda>r. res_Ksuid r \<noteq> '''') rs"
  shows "fst (pg_StoreStack_loop (<) ids d rs c v) = fst (StoreStack_loop ids d rs c w)"
  using assms
proof (induction rs arbitrary: ids d v w)
  case (Cons r rs)
  let ?p = "pg_StoreResource (<) (fst (hd ids)) (snd (hd ids)) d r c" and ?s = "StoreResource (fst (hd ids)) (snd (hd ids)) d r c"
  from Cons.prems have same: "fst ?p = fst ?s" "snd ?p = Inl err \<longleftrightarrow> snd ?s = Inl err" for err
    using StoreResource_same by auto
  obtain d' pr sr where "?p = (d', pr)" "?s = (d', sr)" using same(1) by (metis prod.collapse)
  with same(2) Cons show ?case by (cases pr; cases sr) auto
qed simp

lemma StoreTarget_same: "pg_StoreTarget d t = StoreTarget d t"
proof -
  have load: "pg_LoadTarget d l = LoadTarget d l" for l
    by (auto simp: pg_LoadTarget_def LoadTarget_def find_filter row_target_def split: list.split dest!: filter_eq_ConsD)
  have "insert_into (\<lambda>r. (tr_label r, tr_version r)) row (ds_targets d) = Some (ds_targets d @ [row])"
    if "LoadTarget d (tgt_Label t) = None" "tr_label row = tgt_Label t" for row
    using that by (auto simp: insert_into_def LoadTarget_def list_ex_iff find_None_iff)
  then show ?thesis
    by (simp add: pg_StoreTarget_def StoreTarget_def load split: option.split)
qed

lemma StoreFormaCommand_same: "fc_StartTs fa mod 1000 = 0 \<Longrightarrow> pg_StoreFormaCommand d fa c = StoreFormaCommand d fa c"
proof -
  assume "fc_StartTs fa mod 1000 = 0"
  then have "pg_timestamp (fc_StartTs fa) = fc_StartTs fa"
    unfolding pg_timestamp_def by (rule dvd_div_mult_self [OF mod_0_imp_dvd])
  then show ?thesis by (simp add: pg_StoreFormaCommand_def StoreFormaCommand_def pg_bytewise split: option.split)
qed

text \<open>The statements both have; the commands table is only cleared by the other one.\<close>

fun pg_exec :: "collation \<Rightarrow> ds_stmt \<Rightarrow> datastore \<Rightarrow> datastore" where
  "pg_exec coll (SStoreFormaCommand fa c) d = fst (pg_StoreFormaCommand d fa c)"
| "pg_exec coll (SDeleteFormaCommand fa c) d = pg_DeleteFormaCommand d fa c"
| "pg_exec coll SClearCommands d = d"
| "pg_exec coll (SStoreResource i v r c) d = fst (pg_StoreResource coll i v d r c)"
| "pg_exec coll (SDeleteResource i v r c) d = fst (pg_DeleteResource coll i v d r c)"
| "pg_exec coll (SStoreStack ids f c) d = fst (pg_StoreStack coll ids d f c)"
| "pg_exec coll (SStoreTarget t) d = fst (pg_StoreTarget d t)"

fun common_stmt :: "ds_stmt \<Rightarrow> bool" where
  "common_stmt (SStoreFormaCommand fa c) = (fc_StartTs fa mod 1000 = 0)"
| "common_stmt (SDeleteFormaCommand fa c) = True"
| "common_stmt SClearCommands = False"
| "common_stmt (SStoreResource i v r c) = (res_Ksuid r \<noteq> '''')"
| "common_stmt (SDeleteResource i v r c) = (res_Ksuid r \<noteq> '''')"
| "common_stmt (SStoreStack ids f c) = list_all (\<lambda>r. res_Ksuid r \<noteq> '''') (forma_Resources f)"
| "common_stmt (SStoreTarget t) = True"

lemma exec_same: "common_stmt s \<Longrightarrow> pg_exec (<) s d = exec_stmt s d"
  by (cases s) (simp_all add: StoreFormaCommand_same pg_DeleteFormaCommand_def DeleteFormaCommand_def StoreResource_same
      pg_DeleteResource_def DeleteResource_def store_same pg_StoreStack_def StoreStack_def StoreStack_same StoreTarget_same)

lemma exec_run_same: "list_all common_stmt ss \<Longrightarrow> fold (pg_exec (<)) ss d = fold exec_stmt ss d"
  by (induction ss arbitrary: d) (simp_all add: exec_same)

section \<open>Answers\<close>

lemma commands_same:
  "pg_LoadFormaCommands d = LoadFormaCommands d" "pg_LoadIncompleteFormaCommands d = LoadIncompleteFormaCommands d"
  "pg_GetFormaCommandByCommandID d = GetFormaCommandByCommandID d"
  "pg_GetMostRecentFormaCommandByClientID d = GetMostRecentFormaCommandByClientID d"
  by (simp_all add: fun_eq_iff pg_LoadFormaCommands_def LoadFormaCommands_def pg_LoadIncompleteFormaCommands_def
      LoadIncompleteFormaCommands_def pg_GetFormaCommandByCommandID_def GetFormaCommandByCommandID_def find_filter
      pg_GetMostRecentFormaCommandByClientID_def GetMostRecentFormaCommandByClientID_def split: list.split)

lemma resources_same:
  "pg_LoadResource (<) d = LoadResource d" "pg_LoadResourceById (<) d = LoadResourceById d"
  "pg_LoadResourceByNativeID (<) d = LoadResourceByNativeID d" "pg_LoadAllResources (<) d = LoadAllResources d"
  "pg_LoadStack (<) d = LoadStack d" "pg_QueryResources (<) d = QueryResources d"
  by (simp_all add: fun_eq_iff pg_LoadResource_def LoadResource_def pg_LoadResourceById_def LoadResourceById_def
      pg_LoadResourceByNativeID_def LoadResourceByNativeID_def load_first_def find_filter pg_LoadAllResources_def
      LoadAllResources_def pg_LoadStack_def LoadStack_def live_rows_def pg_QueryResources_def QueryResources_def
      pg_bytewise conj_ac split: list.split option.split)

lemma triplets_same:
  "pg_GetKSUIDByTriplet (<) d = GetKSUIDByTriplet d" "pg_BatchGetKSUIDsByTriplets (<) d = BatchGetKSUIDsByTriplets d"
  "pg_BatchGetTripletsByKSUIDs (<) d = BatchGetTripletsByKSUIDs d"
  by (simp_all add: fun_eq_iff pg_GetKSUIDByTriplet_def GetKSUIDByTriplet_def pg_BatchGetKSUIDsByTriplets_def
      BatchGetKSUIDsByTriplets_def pg_BatchGetTripletsByKSUIDs_def BatchGetTripletsByKSUIDs_def rr_triplet_def pg_bytewise conj_ac)


lemma LoadAllStacks_same: "pg_LoadAllStacks (<) ord d = LoadAllStacks ord d"
  if "\<And>ks. set (ord ks) \<subseteq> set ks"
proof -
  have pick: "concat (map (\<lambda>k. case map_of m k of None \<Rightarrow> [] | Some rs \<Rightarrow> if length rs > 0 then [F rs] else []) ks) =
      map F (filter (\<lambda>l. length l > 0) (map (\<lambda>k. the (map_of m k)) ks))"
    if "set ks \<subseteq> set (map fst m)" for m :: "(string \<times> Resource list) list" and F ks
    using that by (induction ks) (auto split: option.split simp: map_of_eq_None_iff)
  show ?thesis
    unfolding pg_LoadAllStacks_def LoadAllStacks_def bytewise_live stack_resources_def [symmetric] Let_def
    by (cases "load_rows (live_rows (ds_resources d))") (simp_all only: sum.case pick [OF that])
qed

lemma targets_same: "pg_LoadTarget d = LoadTarget d" "pg_LoadAllTargets d = LoadAllTargets d" "pg_LoadTargetsByLabels d = LoadTargetsByLabels d"
  by (auto simp: fun_eq_iff pg_LoadTarget_def LoadTarget_def find_filter row_target_def pg_LoadAllTargets_def LoadAllTargets_def
      pg_LoadTargetsByLabels_def LoadTargetsByLabels_def split: list.split dest!: filter_eq_ConsD)

lemma QueryFormaCommands_same: "QueryFormaCommands d q = map_sum id (take 10) (pg_QueryFormaCommands d q)"
  by (simp add: QueryFormaCommands_def pg_QueryFormaCommands_def Let_def pg_bytewise DefaultFormaCommandsQueryLimit_def
      take_map min_def nat_le_eq_zle split: option.split)

lemma Stats_same: "pg_Stats (<) d = ds_Stats d"
proof -
  have count: "card (f ` set xs) = length (remdups (map f xs))" for f :: "'r \<Rightarrow> string" and xs
    by (metis length_remdups_card_conv set_map)
  show ?thesis
    by (simp add: pg_Stats_def ds_Stats_def Let_def pg_bytewise live_rows_def count conj_ac)
qed

lemma like_same:
  "sql_lower p = p \<Longrightarrow> sql_lower s = s \<Longrightarrow> CHR 0x5C \<notin> set p \<Longrightarrow> pg_like p s = sql_like p s"
  by (induction p s rule: pg_like.induct) (auto simp: sql_lower_def)

lemma LatestLabel_same:
  assumes "sql_lower label = label" "CHR 0x5C \<notin> set label" "\<forall>row \<in> set (ds_resources d). sql_lower (rr_label row) = rr_label row"
  shows "pg_LatestLabelForResource (<) d label = LatestLabelForResource d label"
proof -
  have "sql_lower (label @ ''-%'') = label @ ''-%''" using assms(1) by (simp add: sql_lower_def lower_char_def)
  then have "pg_like (label @ ''-%'') (rr_label row) = sql_like (label @ ''-%'') (rr_label row)"
    if "row \<in> set (ds_resources d)" for row
    using like_same [of "label @ ''-%''" "rr_label row"] assms(2,3) that by simp
  then have "filter (\<lambda>l. l = label \<or> pg_like (label @ ''-%'') l) (map rr_label (ds_resources d)) =
      filter (\<lambda>l. l = label \<or> sql_like (label @ ''-%'') l) (map rr_label (ds_resources d))"
    by (intro filter_cong) auto
  then show ?thesis by (simp only: pg_LatestLabelForResource_def LatestLabelForResource_def)
qed

lemma modifications_same:
  assumes "ord [] = []"
  shows "pg_GetResourceModificationsSinceLastReconcile (<) ord d stack = GetResourceModificationsSinceLastReconcile ord d stack"
proof -
  let ?live = "list_ex (\<lambda>r1. rr_stack r1 = stack \<and>
       \<not> list_ex (\<lambda>r2. rr_ksuid r1 = rr_ksuid r2 \<and> rr_version r1 < rr_version r2) (ds_resources d) \<and>
       rr_operation r1 \<noteq> OperationDelete) (ds_resources d)"
  have drop: "concat (map (\<lambda>x. map g (filter (A x) ys)) (filter p xs)) = concat (map (\<lambda>x. map g (filter (\<lambda>y. p x \<and> A x y) ys)) xs)"
    for g :: "resource_row \<Rightarrow> ResourceModification" and A p ys and xs :: "command_row list"
    by (induction xs) auto
  have none: "concat (map (\<lambda>x. []) xs) = []" for xs :: "command_row list" by (induction xs) auto
  show ?thesis
    using assms unfolding pg_GetResourceModificationsSinceLastReconcile_def GetResourceModificationsSinceLastReconcile_def exists_same drop
    by (cases ?live; cases "last_reconcile d") (simp_all add: none conj_ac)
qed

text \<open>What the update generator asks a datastore: the PostgreSQL one keeps the same contract, so that the
  theorems about the generator over a \<open>resource_lookup\<close> hold for it.\<close>

definition pg_lookup :: "collation \<Rightarrow> (string list \<Rightarrow> string list) \<Rightarrow> datastore \<Rightarrow> ResourceDataLookup" where
  "pg_lookup coll ord d = \<lparr>rl_LoadStack = pg_LoadStack coll d, rl_LoadAllStacks = pg_LoadAllStacks coll ord d,
     rl_BatchGetKSUIDsByTriplets = (\<lambda>ts. Inr (pg_BatchGetKSUIDsByTriplets coll d ts)),
     rl_GetKSUIDByTriplet = (\<lambda>s l t. Inr (pg_GetKSUIDByTriplet coll d s l t))\<rparr>"

definition postgres_ok :: "ResourceDataLookup \<Rightarrow> bool" where
  "postgres_ok ds \<longleftrightarrow> (\<exists>ord d. range_order ord \<and> ds_ok d \<and> ds = pg_lookup (<) ord d)"

lemma postgres_lookup: "postgres_ok ds \<Longrightarrow> datastore_ok ds"
proof -
  assume "postgres_ok ds"
  then obtain ord d where ds: "range_order ord" "ds_ok d" "ds = pg_lookup (<) ord d" unfolding postgres_ok_def by blast
  have "pg_LoadAllStacks (<) ord d = LoadAllStacks ord d"
    by (rule LoadAllStacks_same) (simp add: range_orderD(2) [OF ds(1)])
  then have "ds = datastore_lookup ord d"
    by (simp add: ds(3) pg_lookup_def datastore_lookup_def resources_same triplets_same)
  with ds(1,2) show ?thesis unfolding datastore_ok_def by blast
qed

interpretation pgl: resource_lookup postgres_ok
  by unfold_locales
    (blast dest: postgres_lookup dsl.loads dsl.loads_all dsl.stack_label dsl.stack_listed dsl.listed_stack)+

section \<open>Properties\<close>

lemma exec_run_ok: "ds_ok d \<Longrightarrow> ds_ok (fold exec_stmt ss d)"
  by (induction ss arbitrary: d) (simp_all add: exec_stmt_ok)

text \<open>C11: The two datastores agree. Under the bytewise collation, take any sequence of statements in which every
  resource has its KSUID, every command starts at a whole microsecond and the commands are not cleared, for
  which PostgreSQL has no function. Executed on both from the empty database, it leaves the same tables, which
  satisfy the integrity conditions. Each of the queries listed answers the same on them, except that SQLite
  cuts the list of commands after ten. The latest label is the same when no letter is a capital and
  there is no backslash, because the LIKE of SQLite ignores case and that of PostgreSQL escapes. What the
  statements themselves answer is not compared.\<close>

theorem postgres_agrees:
  assumes "list_all common_stmt ss" "\<And>ks. set (ord ks) \<subseteq> set ks" "mord [] = []"
  shows "let d = fold (pg_exec (<)) ss (NewDatastorePostgres a) in
    d = fold exec_stmt ss (NewDatastoreSQLite a) \<and> ds_ok d \<and>
    pg_LoadFormaCommands d = LoadFormaCommands d \<and> pg_LoadIncompleteFormaCommands d = LoadIncompleteFormaCommands d \<and>
    pg_GetFormaCommandByCommandID d = GetFormaCommandByCommandID d \<and>
    pg_GetMostRecentFormaCommandByClientID d = GetMostRecentFormaCommandByClientID d \<and>
    QueryFormaCommands d q = map_sum id (take 10) (pg_QueryFormaCommands d q) \<and>
    pg_GetResourceModificationsSinceLastReconcile (<) mord d stack = GetResourceModificationsSinceLastReconcile mord d stack \<and>
    pg_LoadResource (<) d = LoadResource d \<and> pg_LoadResourceById (<) d = LoadResourceById d \<and>
    pg_LoadResourceByNativeID (<) d = LoadResourceByNativeID d \<and> pg_LoadAllResources (<) d = LoadAllResources d \<and>
    pg_LoadStack (<) d = LoadStack d \<and> pg_LoadAllStacks (<) ord d = LoadAllStacks ord d \<and>
    pg_QueryResources (<) d = QueryResources d \<and> pg_GetKSUIDByTriplet (<) d = GetKSUIDByTriplet d \<and>
    pg_BatchGetKSUIDsByTriplets (<) d = BatchGetKSUIDsByTriplets d \<and>
    pg_BatchGetTripletsByKSUIDs (<) d = BatchGetTripletsByKSUIDs d \<and>
    pg_LoadTarget d = LoadTarget d \<and> pg_LoadAllTargets d = LoadAllTargets d \<and>
    pg_LoadTargetsByLabels d = LoadTargetsByLabels d \<and> pg_Stats (<) d = ds_Stats d \<and>
    (sql_lower label = label \<and> CHR 0x5C \<notin> set label \<and> (\<forall>row \<in> set (ds_resources d). sql_lower (rr_label row) = rr_label row) \<longrightarrow>
       pg_LatestLabelForResource (<) d label = LatestLabelForResource d label)"
proof -
  have start: "NewDatastorePostgres a = NewDatastoreSQLite a"
    by (simp add: NewDatastorePostgres_def NewDatastoreSQLite_def)
  show ?thesis
    unfolding Let_def start exec_run_same [OF assms(1)]
    by (intro conjI refl exec_run_ok ds_ok_New commands_same QueryFormaCommands_same modifications_same assms resources_same
        LoadAllStacks_same triplets_same targets_same Stats_same impI) (simp add: LatestLabel_same)
qed

definition sample_stmts :: "ds_stmt list" where
  "sample_stmts = [SStoreResource ''i'' ''v1'' sample_r ''c1'', SStoreResource ''i'' ''v2'' (sample_r\<lparr>res_Label := ''web-1''\<rparr>) ''c2'']"

definition sample_query :: StatusQuery where
  "sample_query = \<lparr>sq_CommandID = None, sq_ClientID = None, sq_Command = None, sq_Status = None, sq_Stack = None,
     sq_Managed = None, sq_N = 0\<rparr>"

theorem postgres_agrees_witness:
  "let d = fold (pg_exec (<)) sample_stmts (NewDatastorePostgres ''agent'')
   in length (ds_resources d) = 2 \<and> ds_ok d \<and> pg_LoadResource (<) d = LoadResource d"
proof -
  have common: "list_all common_stmt sample_stmts" by (simp add: sample_stmts_def sample_r_def)
  have sub: "set (id ks) \<subseteq> set ks" for ks :: "string list" by simp
  define d where "d = fold (pg_exec (<)) sample_stmts (NewDatastorePostgres ''agent'')"
  have len: "length (ds_resources d) = 2" unfolding d_def by code_simp
  note agree = postgres_agrees [where ord = id and mord = id and a = "''agent''", OF common sub id_apply, folded d_def, unfolded Let_def]
  have "ds_ok d" by (rule agree [THEN conjunct2, THEN conjunct1])
  moreover have "pg_LoadResource (<) d = LoadResource d"
    using agree [where q = sample_query and stack = "''s''" and label = "''web''"] by (elim conjE)
  ultimately show ?thesis unfolding d_def [symmetric] Let_def using len by (intro conjI)
qed

text \<open>A row that does not sort after the best one leaves it the best.\<close>

lemma latest_kept:
  assumes "pg_latest_where coll p rows = Some ex" "\<not> coll (rr_version ex) (rr_version row)"
  shows "pg_latest_where coll p (rows @ [row]) = Some ex"
  using assms by (auto simp: pg_latest_where_def split: list.splits)

text \<open>C22: Under another collation an update can be lost from view. Suppose that the resource is stored, that what
  is to be stored differs from it, and that the collation of the database does not sort the freshly drawn
  version after the stored one, as the natural-language collations do with some versions of mixed case. Then
  the store succeeds and returns the fresh version, but loading the resource returns what was stored
  before.\<close>

theorem collation_hides_update:
  assumes "pg_latest_where coll (\<lambda>q. rr_native_id q = res_NativeID r \<and> rr_type q = res_Type r) (ds_resources d) = Some ex"
    "pg_latest_where coll (\<lambda>q. rr_uri q = res_URI r \<and> rr_operation q \<noteq> OperationDelete) (ds_resources d) = Some ex"
    "rr_managed ex \<noteq> 0" "Resource_unmarshal (rr_data ex) = Some old" "\<not> fst (resourcesAreEqual r old)"
    "\<not> coll (rr_version ex) fresh" "(res_URI r, fresh) \<notin> rr_key ` set (ds_resources d)"
    "res_Ksuid r \<noteq> ''''" "Resource_marshal r = Some data"
  shows "\<exists>d'. pg_StoreResource coll newID fresh d r c = (d', Inr (version_id (res_Ksuid r) fresh)) \<and>
    pg_LoadResource coll d' (res_URI r) = Inr (Some (old\<lparr>res_Ksuid := rr_ksuid ex\<rparr>))"
proof -
  obtain ro where eq: "resourcesAreEqual r old = (False, ro)" using assms(5) by (metis fst_conv surj_pair)
  let ?row = "new_row r fresh c OperationUpdate data"
  let ?d' = "d\<lparr>ds_resources := ds_resources d @ [?row]\<rparr>"
  have "pg_upsert rr_key ?row (ds_resources d) = ds_resources d @ [?row]"
    using assms(7) by (auto simp: pg_upsert_def list_ex_iff rr_key_def image_iff)
  then have store: "pg_StoreResource coll newID fresh d r c = (?d', Inr (version_id (res_Ksuid r) fresh))"
    using assms(1,3,4,8,9) eq
    by (simp add: pg_StoreResource_def pg_storeResource_def pg_ensure_ksuid_def Let_def pg_store_existing_def)
  have "pg_latest_where coll (\<lambda>q. rr_uri q = res_URI r \<and> rr_operation q \<noteq> OperationDelete) (ds_resources ?d') = Some ex"
    using latest_kept [OF assms(2), of ?row] assms(6) by simp
  then have "pg_LoadResource coll ?d' (res_URI r) = Inr (Some (old\<lparr>res_Ksuid := rr_ksuid ex\<rparr>))"
    using assms(4) by (simp add: pg_LoadResource_def load_first_def load_row_def)
  with store show ?thesis by blast
qed

text \<open>A collation that ignores case, and two versions in the order they are drawn.\<close>

definition ignoring_case :: collation where
  "ignoring_case a b = (sql_lower a < sql_lower b)"

definition sample_pg :: datastore where
  "sample_pg = fst (pg_StoreResource ignoring_case ''id'' ''1B'' (NewDatastorePostgres ''agent'') sample_r ''c1'')"

definition sample_new :: Resource where
  "sample_new = sample_r\<lparr>res_Label := ''web-2''\<rparr>"

theorem collation_hides_update_witness:
  "''1B'' < ''1a'' \<and> (\<exists>d' l. pg_StoreResource ignoring_case ''id'' ''1a'' sample_pg sample_new ''c2'' = (d', Inr ''k1_1a'') \<and>
     pg_LoadResource ignoring_case d' (res_URI sample_new) = Inr (Some l) \<and> res_Label l = ''web'')"
proof -
  let ?ex = "hd (ds_resources sample_pg)"
  let ?old = "the (Resource_unmarshal (rr_data ?ex))"
  have "pg_latest_where ignoring_case (\<lambda>q. rr_native_id q = res_NativeID sample_new \<and> rr_type q = res_Type sample_new) (ds_resources sample_pg) = Some ?ex"
    by code_simp
  moreover have "pg_latest_where ignoring_case (\<lambda>q. rr_uri q = res_URI sample_new \<and> rr_operation q \<noteq> OperationDelete) (ds_resources sample_pg) = Some ?ex"
    by code_simp
  moreover have "rr_managed ?ex \<noteq> 0" by code_simp
  moreover have "Resource_unmarshal (rr_data ?ex) = Some ?old" by code_simp
  moreover have "\<not> fst (resourcesAreEqual sample_new ?old)" by code_simp
  moreover have "\<not> ignoring_case (rr_version ?ex) ''1a''" by code_simp
  moreover have "(res_URI sample_new, ''1a'') \<notin> rr_key ` set (ds_resources sample_pg)" by code_simp
  moreover have "res_Ksuid sample_new \<noteq> ''''" by code_simp
  moreover have "Resource_marshal sample_new = Some (the (Resource_marshal sample_new))" by code_simp
  ultimately obtain d' where "pg_StoreResource ignoring_case ''id'' ''1a'' sample_pg sample_new ''c2'' =
      (d', Inr (version_id (res_Ksuid sample_new) ''1a''))"
    "pg_LoadResource ignoring_case d' (res_URI sample_new) = Inr (Some (?old\<lparr>res_Ksuid := rr_ksuid ?ex\<rparr>))"
    using collation_hides_update by blast
  moreover have "version_id (res_Ksuid sample_new) ''1a'' = ''k1_1a''" by code_simp
  moreover have "res_Label (?old\<lparr>res_Ksuid := rr_ksuid ?ex\<rparr>) = ''web''" by code_simp
  moreover have "''1B'' < (''1a'' :: string)" by code_simp
  ultimately show ?thesis by (intro conjI exI [of _ d'] exI [of _ "?old\<lparr>res_Ksuid := rr_ksuid ?ex\<rparr>"]) simp_all
qed

end
