(* ===== verification/Querier.thy ===== *)
theory Querier
  imports Metastructure
begin

text \<open>
  \<^verbatim>\<open>internal/metastructure/querier/bluge_querier.go\<close>: query strings. The library parses
  a text into a tree (\<open>parse\<close>, a parameter); the querier walks the tree and fills one item per
  field of a datastore query. \<open>QueryPanic\<close> is a failed type assertion.
\<close>

section \<open>Definitions\<close>

datatype bluge_query =
    BooleanQuery "bluge_query list" "bluge_query list" "bluge_query list" \<comment> \<open>musts, shoulds and must-nots\<close>
  | MatchQuery string string
  | OtherQuery

datatype query_failure =
    QueryPanic
  | SyntaxError string
  | FieldMissing string
  | UnknownField string
  | InvalidBoolean string
  | UnsupportedQueryType

text \<open>A loop that ends with the first error.\<close>

fun efold :: "('a \<Rightarrow> 's \<Rightarrow> 'e + 's) \<Rightarrow> 'a list \<Rightarrow> 's \<Rightarrow> 'e + 's" where
  "efold f [] s = Inr s"
| "efold f (x # xs) s = (case f x s of Inl e \<Rightarrow> Inl e | Inr s' \<Rightarrow> efold f xs s')"

lemma efold_cong [fundef_cong]:
  "xs = ys \<Longrightarrow> s = t \<Longrightarrow> (\<And>x u. x \<in> set ys \<Longrightarrow> f x u = g x u) \<Longrightarrow> efold f xs s = efold g ys t"
proof -
  have "(\<And>x u. x \<in> set ys \<Longrightarrow> f x u = g x u) \<Longrightarrow> efold f ys t = efold g ys t"
    by (induction ys arbitrary: t) (auto split: sum.split)
  then show "xs = ys \<Longrightarrow> s = t \<Longrightarrow> (\<And>x u. x \<in> set ys \<Longrightarrow> f x u = g x u) \<Longrightarrow> efold f xs s = efold g ys t" by simp
qed

lemma efold_append: "efold f (xs @ ys) s = (case efold f xs s of Inl e \<Rightarrow> Inl e | Inr t \<Rightarrow> efold f ys t)"
  by (induction xs arbitrary: s) (auto split: sum.split)

text \<open>\<^verbatim>\<open>strconv.ParseBool\<close>.\<close>

definition ParseBool :: "string \<Rightarrow> bool option" where
  "ParseBool s =
     (if s \<in> {''1'', ''t'', ''T'', ''TRUE'', ''true'', ''True''} then Some True
      else if s \<in> {''0'', ''f'', ''F'', ''FALSE'', ''false'', ''False''} then Some False
      else None)"

definition queryItem :: "'a \<Rightarrow> QueryItemConstraint \<Rightarrow> 'a QueryItem option" where
  "queryItem value constraint = Some \<lparr>qi_Item = value, qi_Constraint = constraint\<rparr>"

definition zero_StatusQuery :: StatusQuery where
  "zero_StatusQuery = \<lparr>sq_CommandID = None, sq_ClientID = None, sq_Command = None, sq_Status = None, sq_Stack = None,
     sq_Managed = None, sq_N = 0\<rparr>"

definition zero_ResourceQuery :: ResourceQuery where
  "zero_ResourceQuery = \<lparr>rq_Stack = None, rq_Type = None, rq_Label = None, rq_Target = None, rq_LastChangeStatus = None,
     rq_NativeID = None, rq_Managed = None, rq_N = 0\<rparr>"

text \<open>The value of a match is a string, so that the assertion to a boolean always fails.\<close>

definition assignTermToStatusQuery ::
  "string \<Rightarrow> string \<Rightarrow> string \<Rightarrow> QueryItemConstraint \<Rightarrow> StatusQuery \<Rightarrow> query_failure + StatusQuery" where
  "assignTermToStatusQuery field value clientID constraint sq =
     (let f = sql_lower field
      in if field = '''' then Inl (FieldMissing value)
         else if f = ''id'' then Inr (sq\<lparr>sq_CommandID := queryItem value constraint\<rparr>)
         else if f = ''client'' then
           Inr (sq\<lparr>sq_ClientID := queryItem (if value = ''me'' then clientID else value) constraint\<rparr>)
         else if f = ''command'' then Inr (sq\<lparr>sq_Command := queryItem value constraint\<rparr>)
         else if f = ''status'' then Inr (sq\<lparr>sq_Status := queryItem value constraint\<rparr>)
         else if f = ''stack'' then Inr (sq\<lparr>sq_Stack := queryItem value constraint\<rparr>)
         else if f = ''managed'' then Inl QueryPanic
         else Inl (UnknownField field))"

fun processStatusQueryNode ::
  "string \<Rightarrow> bluge_query \<Rightarrow> QueryItemConstraint \<Rightarrow> StatusQuery \<Rightarrow> query_failure + StatusQuery" where
  "processStatusQueryNode clientID (BooleanQuery musts shoulds mustNots) constraint sq =
     (case efold (\<lambda>q s. processStatusQueryNode clientID q Required s) musts sq of Inl e \<Rightarrow> Inl e | Inr sq \<Rightarrow>
     (case efold (\<lambda>q s. processStatusQueryNode clientID q Optional s) shoulds sq of Inl e \<Rightarrow> Inl e | Inr sq \<Rightarrow>
      efold (\<lambda>q s. processStatusQueryNode clientID q Excluded s) mustNots sq))"
| "processStatusQueryNode clientID (MatchQuery field match) constraint sq =
     assignTermToStatusQuery field match clientID constraint sq"
| "processStatusQueryNode clientID OtherQuery constraint sq = Inl UnsupportedQueryType"

definition translateToStatusQuery :: "bluge_query \<Rightarrow> string \<Rightarrow> query_failure + StatusQuery" where
  "translateToStatusQuery blugeQuery clientID = processStatusQueryNode clientID blugeQuery Required zero_StatusQuery"

definition statusQuery ::
  "(string \<Rightarrow> string + bluge_query) \<Rightarrow> string \<Rightarrow> string \<Rightarrow> int \<Rightarrow> query_failure + StatusQuery" where
  "statusQuery parse queryString clientID n =
     (case parse queryString of
        Inl err \<Rightarrow> Inl (SyntaxError err)
      | Inr q \<Rightarrow> (case translateToStatusQuery q clientID of Inl e \<Rightarrow> Inl e | Inr sq \<Rightarrow> Inr (sq\<lparr>sq_N := n\<rparr>)))"

text \<open>The error of a query: the querier's own, or the datastore's.\<close>

datatype query_error = InvalidQuery query_failure | DatastoreFailed ds_error

definition QueryStatus ::
  "(string \<Rightarrow> string + bluge_query) \<Rightarrow> datastore \<Rightarrow> string \<Rightarrow> string \<Rightarrow> int \<Rightarrow> query_error + FormaCommand list" where
  "QueryStatus parse d queryString clientID n =
     (case (if queryString = '''' then Inr (zero_StatusQuery\<lparr>sq_N := n\<rparr>) else statusQuery parse queryString clientID n) of
        Inl e \<Rightarrow> Inl (InvalidQuery e)
      | Inr sq \<Rightarrow> map_sum DatastoreFailed id (QueryFormaCommands d sq))"

definition assignTermToResourceQuery ::
  "string \<Rightarrow> string \<Rightarrow> QueryItemConstraint \<Rightarrow> ResourceQuery \<Rightarrow> query_failure + ResourceQuery" where
  "assignTermToResourceQuery field value constraint rq =
     (let f = sql_lower field
      in if field = '''' then Inl (FieldMissing value)
         else if f = ''stack'' then Inr (rq\<lparr>rq_Stack := queryItem value constraint\<rparr>)
         else if f = ''type'' then Inr (rq\<lparr>rq_Type := queryItem value constraint\<rparr>)
         else if f = ''label'' then Inr (rq\<lparr>rq_Label := queryItem value constraint\<rparr>)
         else if f = ''managed'' then
           (case ParseBool value of None \<Rightarrow> Inl (InvalidBoolean value)
            | Some b \<Rightarrow> Inr (rq\<lparr>rq_Managed := queryItem b constraint\<rparr>))
         else Inl (UnknownField field))"

fun processResourceQueryNode ::
  "bluge_query \<Rightarrow> QueryItemConstraint \<Rightarrow> ResourceQuery \<Rightarrow> query_failure + ResourceQuery" where
  "processResourceQueryNode (BooleanQuery musts shoulds mustNots) constraint rq =
     (case efold (\<lambda>q s. processResourceQueryNode q Required s) musts rq of Inl e \<Rightarrow> Inl e | Inr rq \<Rightarrow>
     (case efold (\<lambda>q s. processResourceQueryNode q Optional s) shoulds rq of Inl e \<Rightarrow> Inl e | Inr rq \<Rightarrow>
      efold (\<lambda>q s. processResourceQueryNode q Excluded s) mustNots rq))"
| "processResourceQueryNode (MatchQuery field match) constraint rq = assignTermToResourceQuery field match constraint rq"
| "processResourceQueryNode OtherQuery constraint rq = Inl UnsupportedQueryType"

definition translateToResourceQuery :: "bluge_query \<Rightarrow> query_failure + ResourceQuery" where
  "translateToResourceQuery blugeQuery = processResourceQueryNode blugeQuery Required zero_ResourceQuery"

definition resourceQuery :: "(string \<Rightarrow> string + bluge_query) \<Rightarrow> string \<Rightarrow> query_failure + ResourceQuery" where
  "resourceQuery parse queryString =
     (case parse queryString of Inl err \<Rightarrow> Inl (SyntaxError err) | Inr q \<Rightarrow> translateToResourceQuery q)"

text \<open>\<^verbatim>\<open>strings.ReplaceAll\<close> of two colons by two escaped ones.\<close>

fun escape_colons :: "string \<Rightarrow> string" where
  "escape_colons (a # b # s) = (if a = CHR '':'' \<and> b = CHR '':''
     then [CHR 0x5C, CHR '':'', CHR 0x5C, CHR '':''] @ escape_colons s else a # escape_colons (b # s))"
| "escape_colons s = s"

definition BlugeQueryResources ::
  "(string \<Rightarrow> string + bluge_query) \<Rightarrow> datastore \<Rightarrow> string \<Rightarrow> query_error + Resource list" where
  "BlugeQueryResources parse d queryString =
     (let queryString = escape_colons queryString
      in case (if queryString = '''' then Inr zero_ResourceQuery else resourceQuery parse queryString) of
           Inl e \<Rightarrow> Inl (InvalidQuery e)
         | Inr rq \<Rightarrow> map_sum DatastoreFailed id (QueryResources d rq))"

section \<open>What a query selects\<close>

text \<open>The terms of a tree in the order in which they are assigned, each with the constraint of the list it is
  in; \<open>None\<close> if the tree has a node that is not supported.\<close>

fun query_terms :: "bluge_query \<Rightarrow> QueryItemConstraint \<Rightarrow> (QueryItemConstraint \<times> string \<times> string) list option" where
  "query_terms (BooleanQuery musts shoulds mustNots) c =
     map_option concat (those (map (\<lambda>q. query_terms q Required) musts @ map (\<lambda>q. query_terms q Optional) shoulds @
       map (\<lambda>q. query_terms q Excluded) mustNots))"
| "query_terms (MatchQuery field match) c = Some [(c, field, match)]"
| "query_terms OtherQuery c = None"

text \<open>A term holds of a row.\<close>

fun term_holds :: "QueryItemConstraint \<times> string \<times> string \<Rightarrow> resource_row \<Rightarrow> bool" where
  "term_holds (c, field, value) r = (let same =
       (if sql_lower field = ''stack'' then rr_stack r = value
        else if sql_lower field = ''type'' then sql_lower (rr_type r) = sql_lower value
        else if sql_lower field = ''label'' then rr_label r = value
        else (rr_managed r = 1) = (ParseBool value = Some True))
     in if c = Excluded then \<not> same else same)"

fun known_term :: "QueryItemConstraint \<times> string \<times> string \<Rightarrow> bool" where
  "known_term (c, field, value) \<longleftrightarrow> c \<noteq> ConstraintUnset \<and> (sql_lower field \<in> {''stack'', ''type'', ''label''} \<or>
     sql_lower field = ''managed'' \<and> ParseBool value \<noteq> None)"

text \<open>The last term of a field.\<close>

definition term_field :: "QueryItemConstraint \<times> string \<times> string \<Rightarrow> string" where
  "term_field t = sql_lower (fst (snd t))"

definition last_term :: "(QueryItemConstraint \<times> string \<times> string) list \<Rightarrow> string \<Rightarrow> (QueryItemConstraint \<times> string \<times> string) option" where
  "last_term ts f = find (\<lambda>t. term_field t = f) (rev ts)"

definition selected :: "(QueryItemConstraint \<times> string \<times> string) list \<Rightarrow> resource_row \<Rightarrow> bool" where
  "selected ts r = list_all (\<lambda>f. case last_term ts f of None \<Rightarrow> True | Some t \<Rightarrow> term_holds t r)
     [''stack'', ''type'', ''label'', ''managed'']"

lemma those_append:
  "those (xs @ ys) = (case those xs of None \<Rightarrow> None | Some as \<Rightarrow> map_option ((@) as) (those ys))"
  by (induction xs) (cases "those ys"; auto split: option.splits)+

lemma resource_terms:
  "query_terms q c = Some ts \<Longrightarrow>
    processResourceQueryNode q c rq = efold (\<lambda>(c, f, v). assignTermToResourceQuery f v c) ts rq"
proof (induction q arbitrary: c rq ts)
  case (BooleanQuery musts shoulds mustNots)
  let ?A = "\<lambda>(c, f, v). assignTermToResourceQuery f v c"
  have group: "efold (\<lambda>q s. processResourceQueryNode q k s) qs s = efold ?A (concat tss) s"
    if "those (map (\<lambda>q. query_terms q k) qs) = Some tss"
      "\<And>q s ts. q \<in> set qs \<Longrightarrow> query_terms q k = Some ts \<Longrightarrow> processResourceQueryNode q k s = efold ?A ts s" for k qs s tss
    using that by (induction qs arbitrary: s tss) (auto simp: efold_append split: option.splits sum.split)
  from BooleanQuery.prems obtain t1 t2 t3 where t: "those (map (\<lambda>q. query_terms q Required) musts) = Some t1"
    "those (map (\<lambda>q. query_terms q Optional) shoulds) = Some t2" "those (map (\<lambda>q. query_terms q Excluded) mustNots) = Some t3"
    "ts = concat t1 @ concat t2 @ concat t3"
    by (auto simp: those_append split: option.splits)
  have "efold (\<lambda>q s. processResourceQueryNode q Required s) musts s = efold ?A (concat t1) s" for s
    by (rule group [OF t(1)]) (rule BooleanQuery.IH(1))
  moreover have "efold (\<lambda>q s. processResourceQueryNode q Optional s) shoulds s = efold ?A (concat t2) s" for s
    by (rule group [OF t(2)]) (rule BooleanQuery.IH(2))
  moreover have "efold (\<lambda>q s. processResourceQueryNode q Excluded s) mustNots s = efold ?A (concat t3) s" for s
    by (rule group [OF t(3)]) (rule BooleanQuery.IH(3))
  ultimately show ?case by (simp add: t(4) efold_append split: sum.split)
qed (simp_all split: sum.split)

text \<open>What one item of a query asks of a row.\<close>

definition item_holds :: "'a QueryItem option \<Rightarrow> ('a \<Rightarrow> bool) \<Rightarrow> bool" where
  "item_holds item same = (case item of None \<Rightarrow> True
     | Some q \<Rightarrow> if qi_Constraint q = Excluded then \<not> same (qi_Item q) else same (qi_Item q))"

definition rq_holds :: "ResourceQuery \<Rightarrow> string \<Rightarrow> resource_row \<Rightarrow> bool" where
  "rq_holds rq f r =
     (if f = ''stack'' then item_holds (rq_Stack rq) (\<lambda>x. rr_stack r = x)
      else if f = ''type'' then item_holds (rq_Type rq) (\<lambda>x. sql_lower (rr_type r) = sql_lower x)
      else if f = ''label'' then item_holds (rq_Label rq) (\<lambda>x. rr_label r = x)
      else if f = ''managed'' then item_holds (rq_Managed rq) (\<lambda>x. (rr_managed r = 1) = x)
      else True)"

definition item_set :: "'a QueryItem option \<Rightarrow> bool" where
  "item_set item = (case item of None \<Rightarrow> True | Some q \<Rightarrow> qi_Constraint q \<noteq> ConstraintUnset)"

definition proper_query :: "ResourceQuery \<Rightarrow> bool" where
  "proper_query rq \<longleftrightarrow> rq_NativeID rq = None \<and> rq_Target rq = None \<and> item_set (rq_Stack rq) \<and> item_set (rq_Type rq) \<and>
     item_set (rq_Label rq) \<and> item_set (rq_Managed rq)"

lemma extend_item:
  "item_set item \<Longrightarrow> extendSQLiteQueryString (Some p) item (\<lambda>op r x. op (f r) (g x)) =
    Some (\<lambda>r. p r \<and> item_holds item (\<lambda>x. f r = g x))"
  by (cases item) (auto simp: extendSQLiteQueryString_def item_set_def item_holds_def fun_eq_iff
      intro: QueryItemConstraint.exhaust [of "qi_Constraint (the item)"])

lemma QueryResources_selects:
  assumes "proper_query rq"
  shows "QueryResources d rq = load_rows (sort_key rr_type (sort_key rr_label
    (filter (\<lambda>r. list_all (\<lambda>f. rq_holds rq f r) [''stack'', ''type'', ''label'', ''managed'']) (live_rows (ds_resources d)))))"
proof -
  note ext = extend_item [where g = "\<lambda>x. x"] extend_item [where g = sql_lower]
  have none: "extendSQLiteQueryString q None h = q" for q h by (simp add: extendSQLiteQueryString_def)
  show ?thesis
    using assms unfolding QueryResources_def Let_def proper_query_def live_rows_def
    by (simp add: none ext rq_holds_def conj_ac)
qed

text \<open>A known term sets the item of its field and no other.\<close>

lemma assign_known:
  assumes "known_term (c, f, v)" "proper_query rq"
  obtains rq' where "assignTermToResourceQuery f v c rq = Inr rq'" "proper_query rq'"
    "\<And>k r. rq_holds rq' k r = (if k = sql_lower f then term_holds (c, f, v) r else rq_holds rq k r)"
proof -
  have ne: "f \<noteq> ''''" using assms(1) by (auto simp: sql_lower_def)
  note defs = assignTermToResourceQuery_def Let_def proper_query_def item_set_def rq_holds_def queryItem_def item_holds_def
  from assms(1) consider "sql_lower f = ''stack''" | "sql_lower f = ''type''" | "sql_lower f = ''label''"
    | b where "sql_lower f = ''managed''" "ParseBool v = Some b" by auto
  then show thesis
  proof cases
    case 1
    show thesis by (rule that [of "rq\<lparr>rq_Stack := queryItem v c\<rparr>"]) (use assms ne 1 in \<open>simp_all add: defs\<close>)
  next
    case 2
    show thesis by (rule that [of "rq\<lparr>rq_Type := queryItem v c\<rparr>"]) (use assms ne 2 in \<open>simp_all add: defs\<close>)
  next
    case 3
    show thesis by (rule that [of "rq\<lparr>rq_Label := queryItem v c\<rparr>"]) (use assms ne 3 in \<open>simp_all add: defs\<close>)
  next
    case 4
    show thesis by (rule that [of "rq\<lparr>rq_Managed := queryItem b c\<rparr>"]) (use assms ne 4 in \<open>simp_all add: defs\<close>)
  qed
qed

lemma find_append_case: "find p (xs @ ys) = (case find p xs of Some u \<Rightarrow> Some u | None \<Rightarrow> find p ys)"
  by (induction xs) auto

lemma last_term_Cons:
  "last_term (t # ts) k = (case last_term ts k of Some u \<Rightarrow> Some u | None \<Rightarrow> if term_field t = k then Some t else None)"
  by (simp add: last_term_def find_append_case split: option.split)

lemma assign_terms:
  "list_all known_term ts \<Longrightarrow> proper_query rq \<Longrightarrow>
    \<exists>rq'. efold (\<lambda>(c, f, v). assignTermToResourceQuery f v c) ts rq = Inr rq' \<and> proper_query rq' \<and>
      (\<forall>k r. rq_holds rq' k r = (case last_term ts k of None \<Rightarrow> rq_holds rq k r | Some t \<Rightarrow> term_holds t r))"
proof (induction ts arbitrary: rq)
  case Nil
  then show ?case by (simp add: last_term_def)
next
  case (Cons t ts)
  obtain c f v where t: "t = (c, f, v)" by (cases t)
  obtain rq1 where rq1: "assignTermToResourceQuery f v c rq = Inr rq1" "proper_query rq1"
    "\<And>k r. rq_holds rq1 k r = (if k = sql_lower f then term_holds (c, f, v) r else rq_holds rq k r)"
    by (rule assign_known [of c f v rq]) (use Cons.prems t in auto)
  from Cons.IH [OF _ rq1(2)] Cons.prems obtain rq' where
    "efold (\<lambda>(c, f, v). assignTermToResourceQuery f v c) ts rq1 = Inr rq'" "proper_query rq'"
    "\<forall>k r. rq_holds rq' k r = (case last_term ts k of None \<Rightarrow> rq_holds rq1 k r | Some t \<Rightarrow> term_holds t r)"
    by auto
  then show ?case using rq1(1,3) t
    by (intro exI [of _ rq']) (auto simp: last_term_Cons term_field_def split: option.splits)
qed

section \<open>Properties\<close>

definition sample_tree :: bluge_query where
  "sample_tree = BooleanQuery [MatchQuery ''Stack'' ''s'', MatchQuery ''type'' ''t''] [] [MatchQuery ''label'' ''web'']"

definition query_d :: datastore where
  "query_d = fold (\<lambda>(v, r) d. fst (StoreResource '''' v d r ''c1''))
     (map (\<lambda>(v, s, l). (v, zero_Resource\<lparr>res_Label := l, res_Type := ''T'', res_Stack := s, res_NativeID := v, res_Ksuid := v,
        res_Properties := RawJson (JObj [])\<rparr>))
       [(''v1'', ''s'', ''web''), (''v2'', ''s'', ''db''), (''v3'', ''q'', ''db'')]) (NewDatastoreSQLite ''agent'')"

text \<open>C26: What a query string selects. When the text parses to a tree of known terms, the query answers the live
  resources, by type and label, for which the last term of each field holds: equality for musts and for
  shoulds alike, inequality for must-nots, types without regard to case. Earlier terms of the same field
  are forgotten, and an alternative of two fields is read as both.\<close>

theorem query_selects:
  assumes "escape_colons s \<noteq> ''''" "parse (escape_colons s) = Inr q" "query_terms q Required = Some ts" "list_all known_term ts"
  shows "BlugeQueryResources parse d s = map_sum DatastoreFailed id
    (load_rows (sort_key rr_type (sort_key rr_label (filter (selected ts) (live_rows (ds_resources d))))))"
proof -
  have proper: "proper_query zero_ResourceQuery"
    by (simp add: proper_query_def zero_ResourceQuery_def item_set_def)
  have zero: "rq_holds zero_ResourceQuery k r" for k r
    by (simp add: zero_ResourceQuery_def rq_holds_def item_holds_def)
  obtain rq where
    rq: "efold (\<lambda>(c, f, v). assignTermToResourceQuery f v c) ts zero_ResourceQuery = Inr rq" "proper_query rq"
    "\<And>k r. rq_holds rq k r = (case last_term ts k of None \<Rightarrow> rq_holds zero_ResourceQuery k r | Some t \<Rightarrow> term_holds t r)"
    using assign_terms [OF assms(4) proper] by (elim exE conjE) auto
  have "translateToResourceQuery q = Inr rq"
    using resource_terms [OF assms(3)] rq(1) by (simp add: translateToResourceQuery_def)
  then have query: "BlugeQueryResources parse d s = map_sum DatastoreFailed id (QueryResources d rq)"
    using assms(1,2) by (simp add: BlugeQueryResources_def resourceQuery_def Let_def)
  have holds: "rq_holds rq k r = (case last_term ts k of None \<Rightarrow> True | Some t \<Rightarrow> term_holds t r)" for k r
    using rq(3) [of k r] zero [of k r] by (cases "last_term ts k") auto
  have sel: "selected ts = (\<lambda>r. list_all (\<lambda>f. rq_holds rq f r) [''stack'', ''type'', ''label'', ''managed''])"
    by (rule ext) (simp only: selected_def holds)
  show ?thesis unfolding query sel QueryResources_selects [OF rq(2)] ..
qed

theorem query_selects_witness:
  "map_sum (\<lambda>_. ()) (map res_Label) (BlugeQueryResources (\<lambda>s. if s = ''q'' then Inr sample_tree else Inl ''bad'') query_d ''q'') =
     Inr [''db''] \<and> length (ds_resources query_d) = 3"
proof -
  let ?ts = "[(Required, ''Stack'', ''s''), (Required, ''type'', ''t''), (Excluded, ''label'', ''web'')]"
  have eq: "BlugeQueryResources (\<lambda>s. if s = ''q'' then Inr sample_tree else Inl ''bad'') query_d ''q'' = map_sum DatastoreFailed id
    (load_rows (sort_key rr_type (sort_key rr_label (filter (selected ?ts) (live_rows (ds_resources query_d))))))"
    by (rule query_selects [where q = sample_tree]) code_simp+
  show ?thesis unfolding eq by code_simp
qed


end
