(* ===== verification/Api.thy ===== *)
theory Api
  imports Querier Map_Strings
begin

text \<open>
  \<^verbatim>\<open>internal/api\<close> and \<^verbatim>\<open>internal/api/model/errors.go\<close>: the HTTP server
  in front of the metastructure, and the client that the command line uses. The queries of the metastructure go
  through the querier here. A request keeps what the handlers read of it: the method, the path, the header with
  the name of the client, the first values of the query and of the form, and the uploaded file. A body is the
  value it encodes; \<open>sent\<close> functions say what is left of a value after it has been written and read
  with \<^verbatim>\<open>encoding/json\<close>, \<open>None\<close> if it cannot be written. The middleware, the
  parser of queries and the texts of errors are parameters of the server.
\<close>

section \<open>Errors\<close>

datatype APIError =
    APIConflictingCommands | APIPatchRejected | APIReconcileRejected | APICyclesDetected | APITargetAlreadyExists
  | APIReferencedResourcesNotFound | APIRequiredFieldMissingOnCreate | APIStackReferenceNotFound
  | APITargetReferenceNotFound | APIInvalidQuery

fun api_error_string :: "APIError \<Rightarrow> string" where
  "api_error_string APIConflictingCommands = ''ConflictingCommands''"
| "api_error_string APIPatchRejected = ''PatchRejected''"
| "api_error_string APIReconcileRejected = ''ReconcileRejected''"
| "api_error_string APICyclesDetected = ''CyclesDetected''"
| "api_error_string APITargetAlreadyExists = ''TargetAlreadyExists''"
| "api_error_string APIReferencedResourcesNotFound = ''ReferencedResourcesNotFound''"
| "api_error_string APIRequiredFieldMissingOnCreate = ''RequiredFieldMissingOnCreate''"
| "api_error_string APIStackReferenceNotFound = ''StackReferenceNotFound''"
| "api_error_string APITargetReferenceNotFound = ''TargetReferenceNotFound''"
| "api_error_string APIInvalidQuery = ''InvalidQueryError''"

record TargetAlreadyExistsError =
  ta_TargetLabel :: string
  ta_MismatchType :: string
  ta_ExistingNamespace :: string
  ta_FormaNamespace :: string
  ta_ExistingConfig :: raw
  ta_FormaConfig :: raw

datatype error_data =
    FormaConflictingCommandsError "api_Command list"
  | FormaReconcileRejectedError "(string \<times> ResourceModification list) list"
  | FormaCyclesDetected
  | FormaPatchRejectedError "Stack list" "Resource list"
  | FormaReferencedResourcesNotFoundError "Resource list"
  | TargetAlreadyExists TargetAlreadyExistsError
  | RequiredFieldMissing "string list" string string string
  | InvalidQueryError string
  | StackReferenceNotFoundError string
  | TargetReferenceNotFoundError string

section \<open>Requests and responses\<close>

datatype http_method = GET | POST

text \<open>What comes of opening and decoding an uploaded file.\<close>

datatype upload = OpenFails string | FileEmpty | DecodeFails string | Decoded Forma

record http_request =
  hq_Method :: http_method
  hq_Path :: string
  hq_Authorization :: string
  hq_ClientID :: string
  hq_Query :: "(string \<times> string) list"
  hq_Form :: "(string \<times> string) list"
  hq_File :: "upload option"

datatype body =
    SubmitBody SubmitCommandResponse
  | ErrorBody string error_data \<comment> \<open>\<^verbatim>\<open>ErrorResponse\<close>: name and data\<close>
  | StatusBody "api_Command list"
  | FormaBody Forma
  | StatsBody api_Stats
  | MessageBody string \<comment> \<open>an error of echo\<close>
  | FailureBody string \<comment> \<open>an object with an error text\<close>
  | TextBody string
  | NullBody

record http_response =
  hs_Status :: nat
  hs_Location :: string
  hs_Body :: body

section \<open>Bodies after encoding and decoding\<close>

definition sent_update :: "api_ResourceUpdate \<Rightarrow> api_ResourceUpdate option" where
  "sent_update u =
     (case (stored_raw_omit (au_PatchDocument u), stored_raw_omit (au_Properties u), stored_raw_omit (au_OldProperties u)) of
        (Some pd, Some p, Some old) \<Rightarrow> Some (u\<lparr>au_PatchDocument := pd, au_Properties := p, au_OldProperties := old,
           au_ReferenceLabels := sort_key fst (au_ReferenceLabels u)\<rparr>)
      | _ \<Rightarrow> None)"

definition sent_Command :: "api_Command \<Rightarrow> api_Command option" where
  "sent_Command c = map_option (\<lambda>us. c\<lparr>ac_ResourceUpdates := us\<rparr>) (those (map sent_update (ac_ResourceUpdates c)))"

definition sent_response :: "SubmitCommandResponse \<Rightarrow> SubmitCommandResponse option" where
  "sent_response r = map_option (\<lambda>c. r\<lparr>sr_Command := c\<rparr>) (sent_Command (sr_Command r))"

fun sent_data :: "error_data \<Rightarrow> error_data option" where
  "sent_data (FormaConflictingCommandsError cs) = map_option FormaConflictingCommandsError (those (map sent_Command cs))"
| "sent_data (FormaReconcileRejectedError m) = Some (FormaReconcileRejectedError (sort_key fst m))"
| "sent_data (FormaPatchRejectedError ss rs) = map_option (FormaPatchRejectedError ss) (those (map stored_Resource rs))"
| "sent_data (FormaReferencedResourcesNotFoundError rs) =
     map_option FormaReferencedResourcesNotFoundError (those (map stored_Resource rs))"
| "sent_data (TargetAlreadyExists t) =
     (case (stored_raw_omit (ta_ExistingConfig t), stored_raw_omit (ta_FormaConfig t)) of
        (Some e, Some f) \<Rightarrow> Some (TargetAlreadyExists (t\<lparr>ta_ExistingConfig := e, ta_FormaConfig := f\<rparr>))
      | _ \<Rightarrow> None)"
| "sent_data d = Some d"

fun sent_body :: "body \<Rightarrow> body option" where
  "sent_body (SubmitBody r) = map_option SubmitBody (sent_response r)"
| "sent_body (ErrorBody name d) = map_option (ErrorBody name) (sent_data d)"
| "sent_body (StatusBody cs) = map_option StatusBody (those (map sent_Command cs))"
| "sent_body (FormaBody f) = map_option FormaBody (stored_Forma f)"
| "sent_body b = Some b"

section \<open>The metastructure behind the server\<close>

text \<open>Errors with their origin, and the methods that query, with the querier they call.\<close>

datatype service_error = MetastructureError ms_error | QueryError query_error

record server =
  sv_parse :: "string \<Rightarrow> string + bluge_query"
  sv_middleware :: "http_request \<Rightarrow> http_response option"
  sv_query_text :: "query_failure \<Rightarrow> string"
  sv_error_text :: "service_error \<Rightarrow> string"
  sv_set_text :: set_text
  sv_version :: string
  sv_agentID :: string
  sv_send_sync :: bool
  sv_send_discover :: bool

definition as_service :: "'e + 'a \<Rightarrow> ('e \<Rightarrow> service_error) \<Rightarrow> service_error + 'a" where
  "as_service r f = (case r of Inl e \<Rightarrow> Inl (f e) | Inr x \<Rightarrow> Inr x)"

type_synonym service_submission = "datastore \<times> ms_effect list \<times> (service_error + SubmitCommandResponse)"

definition svc_submission :: "submission \<Rightarrow> service_submission" where
  "svc_submission s = (case s of (d, effects, r) \<Rightarrow> (d, effects, as_service r MetastructureError))"

definition svc_DestroyByQuery ::
  "server \<Rightarrow> ms_env \<Rightarrow> datastore \<Rightarrow> string \<Rightarrow> SubmitConfig \<Rightarrow> string \<Rightarrow> nat \<Rightarrow> service_submission" where
  "svc_DestroyByQuery srv env d query config clientID n =
     (case BlugeQueryResources (sv_parse srv) d query of
        Inl err \<Rightarrow> (d, [], Inl (QueryError err))
      | Inr resources \<Rightarrow> svc_submission (DestroyByQuery env d (Inr resources) config clientID n))"

definition svc_ListFormaCommandStatus ::
  "server \<Rightarrow> datastore \<Rightarrow> string \<Rightarrow> string \<Rightarrow> int \<Rightarrow> service_error + api_Command list" where
  "svc_ListFormaCommandStatus srv d query clientID n =
     (case (if query \<noteq> '''' then QueryStatus (sv_parse srv) d query clientID n else Inr []) of
        Inl err \<Rightarrow> Inl (QueryError err)
      | Inr formaCommands \<Rightarrow> as_service (ListFormaCommandStatus d query (Inr formaCommands) clientID) MetastructureError)"

definition svc_ExtractResources :: "server \<Rightarrow> ms_env \<Rightarrow> datastore \<Rightarrow> string \<Rightarrow> service_error + Forma" where
  "svc_ExtractResources srv env d query =
     (case BlugeQueryResources (sv_parse srv) d query of
        Inl err \<Rightarrow> Inl (QueryError err)
      | Inr resources \<Rightarrow>
          as_service (ExtractResources (me_gen env) (sv_set_text srv) d (Inr resources)) MetastructureError)"

section \<open>Answers\<close>

definition HTTPError :: "nat \<Rightarrow> string \<Rightarrow> http_response" where
  "HTTPError code msg = \<lparr>hs_Status = code, hs_Location = '''', hs_Body = MessageBody msg\<rparr>"

text \<open>A body that cannot be encoded, like any other error of a handler, is answered with a plain 500.\<close>

definition internal_error :: http_response where
  "internal_error = HTTPError 500 ''Internal Server Error''"

definition JSON_response :: "nat \<Rightarrow> string \<Rightarrow> body \<Rightarrow> http_response" where
  "JSON_response code location b =
     (case sent_body b of
        None \<Rightarrow> internal_error\<lparr>hs_Location := location\<rparr>
      | Some b' \<Rightarrow> \<lparr>hs_Status = code, hs_Location = location, hs_Body = b'\<rparr>)"

definition apiError :: "nat \<Rightarrow> APIError \<Rightarrow> error_data \<Rightarrow> http_response" where
  "apiError status errorType dat = JSON_response status '''' (ErrorBody (api_error_string errorType) dat)"

definition target_mismatch :: "string \<Rightarrow> string \<Rightarrow> string \<Rightarrow> string \<Rightarrow> raw \<Rightarrow> raw \<Rightarrow> error_data" where
  "target_mismatch label kind existingNs formaNs existingConfig formaConfig = TargetAlreadyExists
     \<lparr>ta_TargetLabel = label, ta_MismatchType = kind, ta_ExistingNamespace = existingNs, ta_FormaNamespace = formaNs,
      ta_ExistingConfig = existingConfig, ta_FormaConfig = formaConfig\<rparr>"

text \<open>The errors that have a type of their own in the API. Nothing raises an error for missing referenced
  resources.\<close>

fun public_error :: "server \<Rightarrow> service_error \<Rightarrow> (nat \<times> APIError \<times> error_data) option" where
  "public_error srv (MetastructureError (ReconcileRejected m)) = Some (409, APIReconcileRejected, FormaReconcileRejectedError m)"
| "public_error srv (MetastructureError (ConflictingCommands cs)) =
     Some (409, APIConflictingCommands, FormaConflictingCommandsError cs)"
| "public_error srv (MetastructureError (ChangesetFailed FormaCyclesDetectedError)) = Some (400, APICyclesDetected, FormaCyclesDetected)"
| "public_error srv (MetastructureError PatchRejected) = Some (422, APIPatchRejected, FormaPatchRejectedError [] [])"
| "public_error srv (MetastructureError (GenerationFailed (TargetNamespaceMismatch l e f))) =
     Some (409, APITargetAlreadyExists, target_mismatch l ''namespace'' e f RawNil RawNil)"
| "public_error srv (MetastructureError (GenerationFailed (TargetConfigMismatch l e f))) =
     Some (409, APITargetAlreadyExists, target_mismatch l ''config'' '''' '''' e f)"
| "public_error srv (MetastructureError (GenerationFailed (RequiredFieldMissingOnCreate fs stack label t))) =
     Some (400, APIRequiredFieldMissingOnCreate, RequiredFieldMissing fs stack label t)"
| "public_error srv (QueryError (InvalidQuery q)) =
     (if q = QueryPanic then None else Some (400, APIInvalidQuery, InvalidQueryError (sv_query_text srv q)))"
| "public_error srv (MetastructureError (GenerationFailed (StackReferenceNotFound l))) =
     Some (400, APIStackReferenceNotFound, StackReferenceNotFoundError l)"
| "public_error srv (MetastructureError (GenerationFailed (TargetReferenceNotFound l))) =
     Some (400, APITargetReferenceNotFound, TargetReferenceNotFoundError l)"
| "public_error srv e = None"

text \<open>A panic closes the connection: no middleware recovers.\<close>

fun panics :: "service_error \<Rightarrow> bool" where
  "panics (MetastructureError GoPanic) = True"
| "panics (MetastructureError (GenerationFailed (NilTarget l))) = True"
| "panics (MetastructureError (GenerationFailed (NilStack l))) = True"
| "panics (QueryError (InvalidQuery QueryPanic)) = True"
| "panics e = False"

definition mapError :: "server \<Rightarrow> service_error \<Rightarrow> http_response option" where
  "mapError srv err =
     (if panics err then None
      else Some (case public_error srv err of
          Some (status, errorType, dat) \<Rightarrow> apiError status errorType dat
        | None \<Rightarrow> HTTPError 500 (sv_error_text srv err)))"

section \<open>Handlers\<close>

text \<open>What a request does besides changing the datastore.\<close>

datatype api_effect = Submitted ms_effect | SentSynchronize | SentDiscover

type_synonym served = "datastore \<times> api_effect list \<times> http_response option"

text \<open>The form of a request with an upload lists the values of the query before those of the body.\<close>

definition FormValue :: "http_request \<Rightarrow> string \<Rightarrow> string" where
  "FormValue c k = (case map_of (hq_Query c @ hq_Form c) k of None \<Rightarrow> '''' | Some v \<Rightarrow> v)"

definition QueryParam :: "http_request \<Rightarrow> string \<Rightarrow> string" where
  "QueryParam c k = (case map_of (hq_Query c) k of None \<Rightarrow> '''' | Some v \<Rightarrow> v)"

definition getOptionalBool :: "http_request \<Rightarrow> string \<Rightarrow> bool \<Rightarrow> bool" where
  "getOptionalBool c key defaultValue =
     (let valStr = FormValue c key
      in if valStr = '''' then defaultValue else (case ParseBool valStr of None \<Rightarrow> defaultValue | Some b \<Rightarrow> b))"

definition hasFormaFile :: "http_request \<Rightarrow> bool" where
  "hasFormaFile c \<longleftrightarrow> hq_File c \<noteq> None"

definition getForma :: "http_request \<Rightarrow> string + Forma" where
  "getForma c =
     (case hq_File c of
        None \<Rightarrow> Inl ''file form field missing''
      | Some (OpenFails err) \<Rightarrow> Inl (''failed to open file stream: '' @ err)
      | Some FileEmpty \<Rightarrow> Inl ''file is empty''
      | Some (DecodeFails err) \<Rightarrow> Inl (''invalid JSON format in file: '' @ err)
      | Some (Decoded forma) \<Rightarrow> Inr forma)"

text \<open>The mode is the text of the form. A text that is no mode is refused by the generator, as
  \<open>FormaApplyModeNone\<close> is.\<close>

definition form_mode :: "string \<Rightarrow> FormaApplyMode option" where
  "form_mode s =
     (if s = '''' then None
      else if s = ''patch'' then Some FormaApplyModePatch
      else if s = ''reconcile'' then Some FormaApplyModeReconcile
      else if s = ''properties'' then Some FormaApplyModeProperties
      else Some FormaApplyModeNone)"

definition CommandStatusRoute :: string where
  "CommandStatusRoute = ''/api/v1/commands/:id/status''"

text \<open>\<^verbatim>\<open>strings.Replace\<close> of the first occurrence of a nonempty text.\<close>

fun replace_first :: "string \<Rightarrow> string \<Rightarrow> string \<Rightarrow> string" where
  "replace_first [] pat new = []"
| "replace_first (c # s) pat new =
     (if take (length pat) (c # s) = pat then new @ drop (length pat) (c # s) else c # replace_first s pat new)"

definition submission_answer :: "server \<Rightarrow> service_submission \<Rightarrow> served" where
  "submission_answer srv sub = (case sub of (d', effects, r) \<Rightarrow> (d', map Submitted effects,
     (case r of
        Inl err \<Rightarrow> mapError srv err
      | Inr resp \<Rightarrow> Some (JSON_response 202 (replace_first CommandStatusRoute '':id'' (sr_CommandID resp))
          (SubmitBody resp)))))"

definition SubmitFormaCommand :: "server \<Rightarrow> ms_env \<Rightarrow> nat \<Rightarrow> datastore \<Rightarrow> http_request \<Rightarrow> served" where
  "SubmitFormaCommand srv env n d c =
     (let clientID = hq_ClientID c; command = FormValue c ''command''; simulate = getOptionalBool c ''simulate'' False
      in if clientID = '''' then (d, [], Some (HTTPError 400 ''Client-ID header is required''))
         else if command = '''' then (d, [], Some (HTTPError 400 ''command is required''))
         else if command = ''apply'' then
           (let mode = form_mode (FormValue c ''mode''); force = getOptionalBool c ''force'' False
            in if \<not> hasFormaFile c then (d, [], Some (HTTPError 400 ''file form field is required for apply command''))
               else (case getForma c of
                       Inl err \<Rightarrow> (d, [], Some (HTTPError 500 err))
                     | Inr forma \<Rightarrow> submission_answer srv (svc_submission
                         (ApplyForma env d forma \<lparr>sc_Mode = mode, sc_Force = force, sc_Simulate = simulate\<rparr> clientID n))))
         else if command = ''destroy'' then
           (let query = FormValue c ''query''; config = \<lparr>sc_Mode = None, sc_Force = False, sc_Simulate = simulate\<rparr>
            in if query \<noteq> '''' then submission_answer srv (svc_DestroyByQuery srv env d query config clientID n)
               else if \<not> hasFormaFile c then
                 (d, [], Some (HTTPError 400 ''either query form field or file form field is required for destroy command''))
               else (case getForma c of
                       Inl err \<Rightarrow> (d, [], Some (HTTPError 500 err))
                     | Inr forma \<Rightarrow> submission_answer srv (svc_submission (DestroyForma env d forma config clientID n))))
         else (d, [], Some internal_error))"

definition getCommandStatus :: "server \<Rightarrow> datastore \<Rightarrow> string \<Rightarrow> string \<Rightarrow> int \<Rightarrow> http_response option" where
  "getCommandStatus srv d clientID query n =
     (case svc_ListFormaCommandStatus srv d query clientID n of
        Inl err \<Rightarrow> mapError srv err
      | Inr commands \<Rightarrow>
          if length commands = 0 then Some (HTTPError 404 ''Not Found'') else Some (JSON_response 200 '''' (StatusBody commands)))"

text \<open>The identifier is looked up among the parameters of the query, not of the path.\<close>

definition CommandStatus :: "server \<Rightarrow> datastore \<Rightarrow> http_request \<Rightarrow> http_response option" where
  "CommandStatus srv d c =
     (let clientID = hq_ClientID c; i = QueryParam c ''id''
      in if clientID = '''' then Some (HTTPError 400 ''Client-ID header is required'')
         else if i = '''' then Some (HTTPError 400 ''id is required'')
         else getCommandStatus srv d clientID (''id:'' @ i) 1)"

definition ListCommandStatus :: "server \<Rightarrow> datastore \<Rightarrow> http_request \<Rightarrow> http_response option" where
  "ListCommandStatus srv d c =
     (let clientID = hq_ClientID c; maxResults = QueryParam c ''max_results''; query = QueryParam c ''query'';
          maxResults' = (if maxResults = '''' then ''10'' else maxResults)
      in if clientID = '''' then Some (HTTPError 400 ''Client-ID header is required'')
         else (case Atoi maxResults' of
                 None \<Rightarrow> Some (HTTPError 400 ''N must be an integer'')
               | Some n \<Rightarrow> getCommandStatus srv d clientID query n))"

definition server_ListResources :: "server \<Rightarrow> ms_env \<Rightarrow> datastore \<Rightarrow> http_request \<Rightarrow> http_response option" where
  "server_ListResources srv env d c =
     (case svc_ExtractResources srv env d (QueryParam c ''query'') of
        Inl err \<Rightarrow> mapError srv err
      | Inr resources \<Rightarrow>
          if length (forma_Resources resources) = 0
          then Some (JSON_response 404 '''' (FailureBody ''Resources cannot be extracted: <nil>''))
          else Some (JSON_response 200 '''' (FormaBody resources)))"

definition server_Stats :: "server \<Rightarrow> datastore \<Rightarrow> http_response option" where
  "server_Stats srv d = Some (JSON_response 200 '''' (StatsBody (ms_Stats (sv_version srv) (sv_agentID srv) d)))"

definition Health :: "http_response option" where
  "Health = Some (JSON_response 200 '''' NullBody)"

definition server_ForceSync :: "server \<Rightarrow> datastore \<Rightarrow> served" where
  "server_ForceSync srv d =
     (if sv_send_sync srv then (d, [SentSynchronize], Some (JSON_response 200 '''' (TextBody '''')))
      else (d, [], Some internal_error))"

definition server_ForceDiscover :: "server \<Rightarrow> datastore \<Rightarrow> served" where
  "server_ForceDiscover srv d =
     (if sv_send_discover srv then (d, [SentDiscover], Some (JSON_response 200 '''' (TextBody '''')))
      else (d, [], Some internal_error))"

section \<open>Routing\<close>

text \<open>
  The table of \<^verbatim>\<open>configureEcho\<close>, by the segments of the path. The routes for metrics and for
  the documentation are handlers of other packages and not in the table.
\<close>

definition configureEcho ::
  "server \<Rightarrow> ms_env \<Rightarrow> nat \<Rightarrow> datastore \<Rightarrow> http_request \<Rightarrow> http_method \<Rightarrow> string list \<Rightarrow> served" where
  "configureEcho srv env n d c method segments =
     (let reading = (\<lambda>r. (d, [], r))
      in if segments = [''commands''] \<and> method = POST then SubmitFormaCommand srv env n d c
         else if segments = [''commands'', ''status''] \<and> method = GET then reading (ListCommandStatus srv d c)
         else if length segments = 3 \<and> hd segments = ''commands'' \<and> last segments = ''status'' \<and> method = GET
         then reading (CommandStatus srv d c)
         else if segments = [''resources''] \<and> method = GET then reading (server_ListResources srv env d c)
         else if segments = [''stats''] \<and> method = GET then reading (server_Stats srv d)
         else if segments = [''health''] \<and> method = GET then reading Health
         else if segments = [''admin'', ''synchronize''] \<and> method = POST then server_ForceSync srv d
         else if segments = [''admin'', ''discover''] \<and> method = POST then server_ForceDiscover srv d
         else if segments \<in> {[''commands''], [''commands'', ''status''], [''resources''], [''stats''], [''health''],
             [''admin'', ''synchronize''], [''admin'', ''discover'']} \<or>
           length segments = 3 \<and> hd segments = ''commands'' \<and> last segments = ''status''
         then reading (Some (HTTPError 405 ''Method Not Allowed''))
         else reading (Some (HTTPError 404 ''Not Found'')))"

definition serve :: "server \<Rightarrow> ms_env \<Rightarrow> nat \<Rightarrow> datastore \<Rightarrow> http_request \<Rightarrow> served" where
  "serve srv env n d c =
     (case sv_middleware srv c of
        Some resp \<Rightarrow> (d, [], Some resp)
      | None \<Rightarrow> (let segments = strings_Split (CHR ''/'') (hq_Path c)
          in if take 3 segments = ['''', ''api'', ''v1''] then configureEcho srv env n d c (hq_Method c) (drop 3 segments)
             else (d, [], Some (HTTPError 404 ''Not Found''))))"

section \<open>Client\<close>

record Client =
  cl_endpoint :: string
  cl_auth :: string

text \<open>The header \<^verbatim>\<open>Authorization\<close> of the authentication plugin, if there is one.\<close>

definition NewClient :: "string \<Rightarrow> nat \<Rightarrow> string option \<Rightarrow> Client" where
  "NewClient url port auth =
     \<lparr>cl_endpoint = url @ '':'' @ nat_string port, cl_auth = (case auth of None \<Rightarrow> '''' | Some h \<Rightarrow> h)\<rparr>"

text \<open>
  Sending is a function of the state of the world: it gives the response, \<open>None\<close> if there is none. A
  response of the wrong kind for its status does not occur with this server; reading it gives a zero value.
\<close>

type_synonym 's sender = "http_request \<Rightarrow> 's \<Rightarrow> http_response option \<times> 's"

datatype client_error =
    MarshalFailed
  | SendFailed
  | ParseFailed
  | UnknownErrorType string
  | APIFailure APIError error_data
  | NothingToDestroy
  | UnexpectedCode nat body

type_synonym ('a, 's) call = "'s \<Rightarrow> (client_error + 'a) \<times> 's"

definition client_request :: "Client \<Rightarrow> http_method \<Rightarrow> string \<Rightarrow> http_request" where
  "client_request cl method path = \<lparr>hq_Method = method, hq_Path = path, hq_Authorization = cl_auth cl, hq_ClientID = '''',
     hq_Query = [], hq_Form = [], hq_File = None\<rparr>"

definition bool_text :: "bool \<Rightarrow> string" where
  "bool_text b = (if b then ''true'' else ''false'')"

fun mode_text :: "FormaApplyMode option \<Rightarrow> string" where
  "mode_text None = ''''"
| "mode_text (Some FormaApplyModePatch) = ''patch''"
| "mode_text (Some FormaApplyModeReconcile) = ''reconcile''"
| "mode_text (Some FormaApplyModeNone) = ''none''"
| "mode_text (Some FormaApplyModeProperties) = ''properties''"

text \<open>The type that an error name stands for.\<close>

fun data_kind :: "error_data \<Rightarrow> APIError" where
  "data_kind (FormaConflictingCommandsError cs) = APIConflictingCommands"
| "data_kind (FormaReconcileRejectedError m) = APIReconcileRejected"
| "data_kind FormaCyclesDetected = APICyclesDetected"
| "data_kind (FormaPatchRejectedError ss rs) = APIPatchRejected"
| "data_kind (FormaReferencedResourcesNotFoundError rs) = APIReferencedResourcesNotFound"
| "data_kind (TargetAlreadyExists t) = APITargetAlreadyExists"
| "data_kind (RequiredFieldMissing fs s l t) = APIRequiredFieldMissingOnCreate"
| "data_kind (InvalidQueryError r) = APIInvalidQuery"
| "data_kind (StackReferenceNotFoundError l) = APIStackReferenceNotFound"
| "data_kind (TargetReferenceNotFoundError l) = APITargetReferenceNotFound"

fun base_error :: "body \<Rightarrow> string option" where
  "base_error (ErrorBody name d) = Some name"
| "base_error (FailureBody err) = Some err"
| "base_error (TextBody s) = None"
| "base_error b = Some ''''"

text \<open>Reading an error, among the kinds that a call knows.\<close>

definition parse_error :: "APIError list \<Rightarrow> body \<Rightarrow> client_error" where
  "parse_error kinds b =
     (case base_error b of
        None \<Rightarrow> ParseFailed
      | Some name \<Rightarrow>
          (case find (\<lambda>k. api_error_string k = name) kinds of
             None \<Rightarrow> UnknownErrorType name
           | Some k \<Rightarrow>
               (case b of ErrorBody _ dat \<Rightarrow> if data_kind dat = k then APIFailure k dat else ParseFailed | _ \<Rightarrow> ParseFailed)))"

definition parseSubmitCommandErrorResponse :: "body \<Rightarrow> client_error" where
  "parseSubmitCommandErrorResponse = parse_error
     [APIConflictingCommands, APIReconcileRejected, APIPatchRejected, APICyclesDetected, APIReferencedResourcesNotFound,
      APITargetAlreadyExists, APIRequiredFieldMissingOnCreate, APIInvalidQuery, APIStackReferenceNotFound,
      APITargetReferenceNotFound]"

definition parseListCommandStatusErrorResponse :: "body \<Rightarrow> client_error" where
  "parseListCommandStatusErrorResponse = parse_error [APIInvalidQuery]"

definition parseListResourcesErrorResponse :: "body \<Rightarrow> client_error" where
  "parseListResourcesErrorResponse = parse_error [APIInvalidQuery]"

definition zero_response :: SubmitCommandResponse where
  "zero_response = \<lparr>sr_CommandID = '''', sr_Description = \<lparr>desc_Text = '''', desc_Confirm = False\<rparr>,
     sr_ChangesRequired = False, sr_Command = zero_api_Command\<rparr>"

definition submit_body :: "body \<Rightarrow> SubmitCommandResponse" where
  "submit_body b = (case b of SubmitBody r \<Rightarrow> r | _ \<Rightarrow> zero_response)"

definition client_ApplyForma ::
  "Client \<Rightarrow> 's sender \<Rightarrow> Forma \<Rightarrow> FormaApplyMode option \<Rightarrow> bool \<Rightarrow> string \<Rightarrow> bool \<Rightarrow> (SubmitCommandResponse, 's) call" where
  "client_ApplyForma cl send forma mode simulate clientID force s =
     (case stored_Forma forma of
        None \<Rightarrow> (Inl MarshalFailed, s)
      | Some formaJSON \<Rightarrow>
          (case send ((client_request cl POST ''/api/v1/commands'')\<lparr>hq_ClientID := clientID,
             hq_Form := [(''command'', ''apply''), (''mode'', mode_text mode), (''simulate'', bool_text simulate),
               (''force'', bool_text force)], hq_File := Some (Decoded formaJSON)\<rparr>) s of
             (None, s') \<Rightarrow> (Inl SendFailed, s')
           | (Some resp, s') \<Rightarrow>
               (if hs_Status resp = 202 then Inr (submit_body (hs_Body resp))
                else if hs_Status resp \<in> {400, 409, 422} then Inl (parseSubmitCommandErrorResponse (hs_Body resp))
                else Inl (UnexpectedCode (hs_Status resp) (hs_Body resp)), s')))"

definition client_DestroyForma ::
  "Client \<Rightarrow> 's sender \<Rightarrow> Forma \<Rightarrow> bool \<Rightarrow> string \<Rightarrow> (SubmitCommandResponse, 's) call" where
  "client_DestroyForma cl send forma simulate clientID s =
     (case stored_Forma forma of
        None \<Rightarrow> (Inl MarshalFailed, s)
      | Some formaJSON \<Rightarrow>
          (case send ((client_request cl POST ''/api/v1/commands'')\<lparr>hq_ClientID := clientID,
             hq_Form := [(''command'', ''destroy''), (''simulate'', bool_text simulate)],
             hq_File := Some (Decoded formaJSON)\<rparr>) s of
             (None, s') \<Rightarrow> (Inl SendFailed, s')
           | (Some resp, s') \<Rightarrow>
               (if hs_Status resp = 202 then Inr (submit_body (hs_Body resp))
                else if hs_Status resp \<in> {400, 409} then Inl (parseSubmitCommandErrorResponse (hs_Body resp))
                else Inl (UnexpectedCode (hs_Status resp) (hs_Body resp)), s')))"

definition client_DestroyByQuery ::
  "Client \<Rightarrow> 's sender \<Rightarrow> string \<Rightarrow> bool \<Rightarrow> string \<Rightarrow> (SubmitCommandResponse, 's) call" where
  "client_DestroyByQuery cl send query simulate clientID s =
     (case send ((client_request cl POST ''/api/v1/commands'')\<lparr>hq_ClientID := clientID,
        hq_Form := [(''command'', ''destroy''), (''query'', query), (''simulate'', bool_text simulate)]\<rparr>) s of
        (None, s') \<Rightarrow> (Inl SendFailed, s')
      | (Some resp, s') \<Rightarrow>
          (if hs_Status resp = 202 then Inr (submit_body (hs_Body resp))
           else if hs_Status resp = 404 then Inl NothingToDestroy
           else if hs_Status resp \<in> {400, 409} then Inl (parseSubmitCommandErrorResponse (hs_Body resp))
           else Inl (UnexpectedCode (hs_Status resp) (hs_Body resp)), s'))"

definition client_GetFormaCommandsStatus ::
  "Client \<Rightarrow> 's sender \<Rightarrow> string \<Rightarrow> string \<Rightarrow> int \<Rightarrow> (api_Command list option, 's) call" where
  "client_GetFormaCommandsStatus cl send query clientID n s =
     (case send ((client_request cl GET ''/api/v1/commands/status'')\<lparr>hq_ClientID := clientID,
        hq_Query := [(''query'', query), (''max_results'', int_string n)]\<rparr>) s of
        (None, s') \<Rightarrow> (Inl SendFailed, s')
      | (Some resp, s') \<Rightarrow>
          (if hs_Status resp = 200 then Inr (Some (case hs_Body resp of StatusBody cs \<Rightarrow> cs | _ \<Rightarrow> []))
           else if hs_Status resp = 400 then Inl (parseListCommandStatusErrorResponse (hs_Body resp))
           else if hs_Status resp = 404 then Inr None
           else Inl (UnexpectedCode (hs_Status resp) (hs_Body resp)), s'))"

definition client_ExtractResources :: "Client \<Rightarrow> 's sender \<Rightarrow> string \<Rightarrow> (Forma option, 's) call" where
  "client_ExtractResources cl send query s =
     (case send ((client_request cl GET ''/api/v1/resources'')\<lparr>hq_Query := [(''query'', query)]\<rparr>) s of
        (None, s') \<Rightarrow> (Inl SendFailed, s')
      | (Some resp, s') \<Rightarrow>
          (if hs_Status resp = 200 then Inr (Some (case hs_Body resp of FormaBody f \<Rightarrow> f | _ \<Rightarrow> zero_Forma))
           else if hs_Status resp = 404 then Inr None
           else if hs_Status resp = 400 then Inl (parseListResourcesErrorResponse (hs_Body resp))
           else Inl (UnexpectedCode (hs_Status resp) (hs_Body resp)), s'))"

text \<open>A response of any status counts as success.\<close>

definition client_ForceSync :: "Client \<Rightarrow> 's sender \<Rightarrow> (unit, 's) call" where
  "client_ForceSync cl send s =
     (case send (client_request cl POST ''/api/v1/admin/synchronize'') s of
        (None, s') \<Rightarrow> (Inl SendFailed, s') | (Some resp, s') \<Rightarrow> (Inr (), s'))"

definition client_ForceDiscover :: "Client \<Rightarrow> 's sender \<Rightarrow> (unit, 's) call" where
  "client_ForceDiscover cl send s =
     (case send (client_request cl POST ''/api/v1/admin/discover'') s of
        (None, s') \<Rightarrow> (Inl SendFailed, s') | (Some resp, s') \<Rightarrow> (Inr (), s'))"

definition client_Stats :: "Client \<Rightarrow> 's sender \<Rightarrow> (api_Stats option, 's) call" where
  "client_Stats cl send s =
     (case send (client_request cl GET ''/api/v1/stats'') s of
        (None, s') \<Rightarrow> (Inl SendFailed, s')
      | (Some resp, s') \<Rightarrow>
          (if hs_Status resp \<noteq> 200 then Inl (UnexpectedCode (hs_Status resp) (hs_Body resp))
           else Inr (case hs_Body resp of StatsBody st \<Rightarrow> Some st | _ \<Rightarrow> None), s'))"

text \<open>Waiting until the agent is healthy, over the answers to the successive requests; it may wait forever.\<close>

partial_function (option) WaitOnAvailable :: "(nat \<Rightarrow> nat) \<Rightarrow> nat \<Rightarrow> bool option" where
  "WaitOnAvailable status i = (if status i = 200 then Some True else WaitOnAvailable status (Suc i))"

end
