(* ===== verification/Api_Facts.thy ===== *)
theory Api_Facts
  imports Api Metastructure_Facts
begin

text \<open>
  What the client sees of the metastructure: the outcome of every call, the same errors with the same data, up to
  the loss that the encoding of a body brings with it.
\<close>

section \<open>Names of errors\<close>

lemma api_error_string_inject [simp]: "api_error_string k = api_error_string k' \<longleftrightarrow> k = k'"
  by (cases k; cases k') simp_all

lemma sent_data_kind: "sent_data dat = Some dat' \<Longrightarrow> data_kind dat' = data_kind dat"
  by (cases dat) (auto split: option.splits)

lemma public_error_kind: "public_error srv e = Some (code, k, dat) \<Longrightarrow> data_kind dat = k"
  by (induction srv e rule: public_error.induct) (auto simp: target_mismatch_def split: if_splits)

lemma public_error_code: "public_error srv e = Some (code, k, dat) \<Longrightarrow> code \<in> {400, 409, 422}"
  by (induction srv e rule: public_error.induct) (auto split: if_splits)

lemma public_error_422:
  "public_error srv e = Some (422, k, dat) \<Longrightarrow> e = MetastructureError PatchRejected"
  by (induction srv e rule: public_error.induct) (auto split: if_splits)

lemma parse_error_known:
  assumes "k \<in> set kinds" "data_kind dat = k"
  shows "parse_error kinds (ErrorBody (api_error_string k) dat) = APIFailure k dat"
proof -
  have "find (\<lambda>k'. k' = k) kinds = Some k" using assms(1) by (induction kinds) auto
  then show ?thesis using assms(2) by (simp add: parse_error_def)
qed

lemma submit_kinds: "data_kind dat = k \<Longrightarrow>
    parseSubmitCommandErrorResponse (ErrorBody (api_error_string k) dat) = APIFailure k dat"
  unfolding parseSubmitCommandErrorResponse_def by (rule parse_error_known) (cases k, simp_all)

section \<open>Reading an answer\<close>

text \<open>What a client makes of an error of the metastructure.\<close>

definition seen_error :: "server \<Rightarrow> service_error \<Rightarrow> client_error" where
  "seen_error srv e =
     (if panics e then SendFailed
      else case public_error srv e of
        None \<Rightarrow> UnexpectedCode 500 (MessageBody (sv_error_text srv e))
      | Some (code, kind, dat) \<Rightarrow>
          (case sent_data dat of
             None \<Rightarrow> UnexpectedCode 500 (MessageBody ''Internal Server Error'')
           | Some dat' \<Rightarrow> APIFailure kind dat'))"

definition seen :: "server \<Rightarrow> service_error + SubmitCommandResponse \<Rightarrow> client_error + SubmitCommandResponse" where
  "seen srv r = (case r of
       Inl e \<Rightarrow> Inl (seen_error srv e)
     | Inr resp \<Rightarrow> (case sent_response resp of
           None \<Rightarrow> Inl (UnexpectedCode 500 (MessageBody ''Internal Server Error''))
         | Some resp' \<Rightarrow> Inr resp'))"

text \<open>The world of a client that talks to one server: its datastore, and what has been done for it.\<close>

definition over_http :: "server \<Rightarrow> ms_env \<Rightarrow> nat \<Rightarrow> (datastore \<times> api_effect list) sender" where
  "over_http srv env n req s = (case serve srv env n (fst s) req of (d', effects, resp) \<Rightarrow> (resp, (d', snd s @ effects)))"

definition passes :: "server \<Rightarrow> bool" where
  "passes srv \<longleftrightarrow> (\<forall>c. sv_middleware srv c = None)"

lemma mapError_answer:
  obtains "panics e" "mapError srv e = None" "seen_error srv e = SendFailed"
  | "\<not> panics e" "public_error srv e = None" "mapError srv e = Some (HTTPError 500 (sv_error_text srv e))"
      "seen_error srv e = UnexpectedCode 500 (MessageBody (sv_error_text srv e))"
  | code k dat where "\<not> panics e" "public_error srv e = Some (code, k, dat)" "sent_data dat = None"
      "mapError srv e = Some internal_error" "seen_error srv e = UnexpectedCode 500 (MessageBody ''Internal Server Error'')"
  | code k dat dat' where "\<not> panics e" "public_error srv e = Some (code, k, dat)" "data_kind dat' = k"
      "mapError srv e = Some \<lparr>hs_Status = code, hs_Location = '''', hs_Body = ErrorBody (api_error_string k) dat'\<rparr>"
      "seen_error srv e = APIFailure k dat'"
proof (cases "panics e")
  case True
  then show thesis by (intro that(1)) (simp_all add: mapError_def seen_error_def)
next
  case False
  show thesis
  proof (cases "public_error srv e")
    case None
    then show thesis using False by (intro that(2)) (simp_all add: mapError_def seen_error_def)
  next
    case (Some p)
    obtain code k dat where p: "p = (code, k, dat)" by (cases p)
    note kind = public_error_kind [OF Some [unfolded p]]
    show thesis
    proof (cases "sent_data dat")
      case None
      then show thesis using False Some p
        by (intro that(3)) (simp_all add: mapError_def seen_error_def apiError_def JSON_response_def internal_error_def HTTPError_def)
    next
      case (Some dat')
      then show thesis using False \<open>public_error srv e = Some p\<close> p kind sent_data_kind [OF Some]
        by (intro that(4)) (simp_all add: mapError_def seen_error_def apiError_def JSON_response_def)
    qed
  qed
qed

text \<open>The answers of a client that knows the given error codes.\<close>

definition read_submit :: "nat set \<Rightarrow> http_response option \<Rightarrow> client_error + SubmitCommandResponse" where
  "read_submit codes r = (case r of
       None \<Rightarrow> Inl SendFailed
     | Some resp \<Rightarrow>
         if hs_Status resp = 202 then Inr (submit_body (hs_Body resp))
         else if hs_Status resp \<in> codes then Inl (parseSubmitCommandErrorResponse (hs_Body resp))
         else Inl (UnexpectedCode (hs_Status resp) (hs_Body resp)))"

lemma read_answer:
  assumes "\<And>e code k dat. r = Inl e \<Longrightarrow> public_error srv e = Some (code, k, dat) \<Longrightarrow> code \<in> codes"
    "202 \<notin> codes" "500 \<notin> codes"
  shows "read_submit codes (snd (snd (submission_answer srv (d', effects, r)))) = seen srv r"
proof (cases r)
  case (Inl e)
  show ?thesis
  proof (cases rule: mapError_answer [of e srv])
    case (4 code k dat dat')
    have "code \<in> codes" using assms(1) Inl 4(2) by blast
    then show ?thesis using 4 assms(2)
      by (auto simp: Inl submission_answer_def read_submit_def seen_def submit_kinds)
  qed (use assms(3) in \<open>simp_all add: Inl submission_answer_def read_submit_def seen_def HTTPError_def internal_error_def\<close>)
next
  case (Inr resp)
  then show ?thesis using assms(2,3)
    by (cases "sent_response resp")
      (auto simp: submission_answer_def read_submit_def seen_def JSON_response_def internal_error_def HTTPError_def submit_body_def)
qed

section \<open>Submitting over HTTP\<close>

lemma serve_submit:
  assumes "passes srv" "hq_Path c = ''/api/v1/commands''" "hq_Method c = POST"
  shows "serve srv env n d c = SubmitFormaCommand srv env n d c"
  using assms by (simp add: serve_def passes_def configureEcho_def)

lemma ParseBool_text [simp]: "ParseBool (bool_text b) = Some b"
  by (cases b) (simp_all add: ParseBool_def bool_text_def)

lemma bool_text_ne [simp]: "bool_text b \<noteq> ''''"
  by (simp add: bool_text_def)

lemma form_mode_text [simp]: "form_mode (mode_text m) = m"
  by (induction m rule: mode_text.induct) (simp_all add: form_mode_def)

lemma submission_answer_parts:
  "fst (submission_answer srv (svc_submission s)) = fst s"
  "fst (snd (submission_answer srv (svc_submission s))) = map Submitted (fst (snd s))"
  by (cases s; simp add: submission_answer_def svc_submission_def)+

lemma DestroyForma_PatchRejected: "snd (snd (DestroyForma env d forma config clientID n)) \<noteq> Inl PatchRejected"
  by (auto simp: DestroyForma_def FormaCommandFromForma_def checkForConflictingCommands_def launch_def Let_def
      split: sum.splits prod.splits option.splits if_splits call_outcome.splits)

text \<open>The submission of a call, as it is seen, with what it does.\<close>

definition submitted ::
  "server \<Rightarrow> service_submission \<Rightarrow> api_effect list \<Rightarrow> (client_error + SubmitCommandResponse) \<times> datastore \<times> api_effect list" where
  "submitted srv s past = (case s of (d', effects, r) \<Rightarrow> (seen srv r, d', past @ map Submitted effects))"

lemma destroy_code:
  assumes "r = Inl e" "public_error srv e = Some (code, k, dat)" "r \<noteq> Inl (MetastructureError PatchRejected)"
  shows "code \<in> {400, 409}"
  using public_error_code [OF assms(2)] public_error_422 [of srv e k dat] assms by auto

lemma as_service_simps [simp]:
  "as_service (Inl e) f = Inl (f e)" "as_service (Inr x) f = Inr x"
  by (simp_all add: as_service_def)

lemma as_service_Inl: "as_service r f = Inl e \<longleftrightarrow> (\<exists>err. r = Inl err \<and> e = f err)"
  by (cases r) auto

text \<open>A call of the client is a request whose answer it reads.\<close>

lemma client_call:
  assumes "send req s = (resp, s')"
  shows "(case send req s of
      (None, s') \<Rightarrow> (Inl SendFailed, s')
    | (Some resp, s') \<Rightarrow>
        (if hs_Status resp = 202 then Inr (submit_body (hs_Body resp))
         else if hs_Status resp \<in> codes then Inl (parseSubmitCommandErrorResponse (hs_Body resp))
         else Inl (UnexpectedCode (hs_Status resp) (hs_Body resp)), s')) = (read_submit codes resp, s')"
  using assms by (simp add: read_submit_def split: option.split)

lemma over_http_submit:
  assumes "passes srv" "hq_Path c = ''/api/v1/commands''" "hq_Method c = POST" "SubmitFormaCommand srv env n d c = submission_answer srv s"
  shows "over_http srv env n c (d, past) =
    (snd (snd (submission_answer srv s)), fst s, past @ map Submitted (fst (snd s)))"
  by (cases s) (simp add: over_http_def serve_submit [OF assms(1-3)] assms(4) submission_answer_def)

lemma submitted_read:
  assumes "\<And>e code k dat. snd (snd s) = Inl e \<Longrightarrow> public_error srv e = Some (code, k, dat) \<Longrightarrow> code \<in> codes"
    "202 \<notin> codes" "500 \<notin> codes"
  shows "(read_submit codes (snd (snd (submission_answer srv s))), fst s, past @ map Submitted (fst (snd s))) =
    submitted srv s past"
  by (cases s) (use assms in \<open>simp add: submitted_def read_answer\<close>)

section \<open>The location of an answer\<close>

lemma submission_command_id:
  "snd (snd (ApplyForma env d forma config clientID n)) = Inr r \<Longrightarrow> sr_CommandID r = me_newID env"
  "snd (snd (DestroyForma env d forma config clientID n)) = Inr r \<Longrightarrow> sr_CommandID r = me_newID env"
  "snd (snd (DestroyByQuery env d answer config clientID n)) = Inr r \<Longrightarrow> sr_CommandID r = me_newID env"
proof -
  have fa: "fc_ID fa = me_newID env" if "FormaCommandFromForma env forma config cmd d clientID src n = Inr fa" for forma config cmd src fa
    using that by (auto simp: FormaCommandFromForma_def Let_def NewFormaCommand_def split: sum.splits)
  show "snd (snd (ApplyForma env d forma config clientID n)) = Inr r \<Longrightarrow> sr_CommandID r = me_newID env"
    by (auto simp: ApplyForma_def Let_def response_def fa split: sum.splits option.splits prod.splits if_splits)
  have destroy: "snd (snd (DestroyForma env d forma config clientID n)) = Inr r \<Longrightarrow> sr_CommandID r = me_newID env" for forma config
    by (auto simp: DestroyForma_def Let_def response_def fa split: sum.splits option.splits prod.splits if_splits)
  show "snd (snd (DestroyForma env d forma config clientID n)) = Inr r \<Longrightarrow> sr_CommandID r = me_newID env"
    by (rule destroy)
  show "snd (snd (DestroyByQuery env d answer config clientID n)) = Inr r \<Longrightarrow> sr_CommandID r = me_newID env"
    using destroy by (auto simp: DestroyByQuery_def split: sum.splits)
qed

lemma accepted_location:
  assumes "snd (snd (submission_answer srv s)) = Some resp" "hs_Status resp = 202"
    "\<And>r. snd (snd s) = Inr r \<Longrightarrow> sr_CommandID r = i"
  shows "hs_Location resp = ''/api/v1/commands/'' @ i @ ''/status''"
proof -
  obtain d' effects r where s: "s = (d', effects, r)" by (cases s) auto
  show ?thesis
  proof (cases r)
    case (Inl e)
    then show ?thesis using assms(1,2) public_error_code [of srv e]
      by (cases rule: mapError_answer [of e srv]) (auto simp: s submission_answer_def HTTPError_def internal_error_def)
  next
    case (Inr resp')
    then show ?thesis using assms
      by (auto simp: s submission_answer_def JSON_response_def internal_error_def HTTPError_def CommandStatusRoute_def split: option.splits)
  qed
qed

lemma submission_location:
  assumes "SubmitFormaCommand srv env n d c = (d', effects, Some resp)" "hs_Status resp = 202"
  shows "hs_Location resp = ''/api/v1/commands/'' @ me_newID env @ ''/status''"
proof -
  have ids: "snd (snd (svc_submission (ApplyForma env d forma config clientID n))) = Inr r \<Longrightarrow> sr_CommandID r = me_newID env"
    "snd (snd (svc_submission (DestroyForma env d forma config clientID n))) = Inr r \<Longrightarrow> sr_CommandID r = me_newID env"
    "snd (snd (svc_DestroyByQuery srv env d query config clientID n)) = Inr r \<Longrightarrow> sr_CommandID r = me_newID env"
    for forma config clientID r query
    using submission_command_id [of env d]
    by (auto simp: svc_submission_def svc_DestroyByQuery_def as_service_def split: sum.splits prod.splits) (metis snd_conv)+
  obtain s where "submission_answer srv s = (d', effects, Some resp)" "\<And>r. snd (snd s) = Inr r \<Longrightarrow> sr_CommandID r = me_newID env"
    using assms ids by (auto simp: SubmitFormaCommand_def Let_def HTTPError_def internal_error_def split: if_splits sum.splits)
  with accepted_location [of srv s resp] assms(2) show ?thesis by simp
qed

section \<open>Reading commands\<close>

lemma Atoi_int_string:
  assumes "- (2 ^ 63) \<le> i" "i < 2 ^ 63"
  shows "Atoi (int_string i) = Some i" "int_string i \<noteq> ''''"
proof -
  have digits: "nat_string m \<noteq> ''''" "list_all is_digit (nat_string m)" "digits_value (nat_string m) = m" for m
    using is_digit_nat_string [of m] digits_value_nat_string [of m] by auto
  show "Atoi (int_string i) = Some i"
  proof (cases "i < 0")
    case True
    then show ?thesis using assms digits [of "nat (- i)"] by (simp add: int_string_def Atoi_def Let_def)
  next
    case False
    then show ?thesis using assms Atoi_nat_string [of "nat i"] by (simp add: int_string_def)
  qed
  show "int_string i \<noteq> ''''" using digits(1) by (simp add: int_string_def)
qed

lemma serve_status:
  assumes "passes srv" "hq_Path c = ''/api/v1/commands/status''" "hq_Method c = GET"
  shows "serve srv env n d c = (d, [], ListCommandStatus srv d c)"
  using assms by (simp add: serve_def passes_def configureEcho_def)

text \<open>What a client makes of the commands.\<close>

definition seen_commands :: "server \<Rightarrow> service_error + api_Command list \<Rightarrow> client_error + api_Command list option" where
  "seen_commands srv r = (case r of
       Inl e \<Rightarrow> Inl (seen_error srv e)
     | Inr cs \<Rightarrow> if cs = [] then Inr None
         else (case those (map sent_Command cs) of
             None \<Rightarrow> Inl (UnexpectedCode 500 (MessageBody ''Internal Server Error''))
           | Some cs' \<Rightarrow> Inr (Some cs')))"

lemma status_errors:
  assumes "svc_ListFormaCommandStatus srv d query clientID n = Inl e" "public_error srv e = Some (code, k, dat)"
  shows "code = 400 \<and> k = APIInvalidQuery"
  using assms
  by (cases e) (auto simp: svc_ListFormaCommandStatus_def as_service_def ListFormaCommandStatus_def
      split: sum.splits if_splits elim!: public_error.elims)

section \<open>Samples\<close>

definition sample_srv :: server where
  "sample_srv = \<lparr>sv_parse = (\<lambda>s. if s = ''id:cmd'' then Inr (MatchQuery ''id'' ''cmd'') else Inl ''syntax''),
     sv_middleware = (\<lambda>_. None), sv_query_text = (\<lambda>_. ''invalid''), sv_error_text = (\<lambda>_. ''failed''),
     sv_set_text = (\<lambda>r p v. r), sv_version = ''1'', sv_agentID = ''agent'', sv_send_sync = True, sv_send_discover = True\<rparr>"

definition sample_cl :: Client where
  "sample_cl = NewClient ''http://localhost'' 80 None"

definition sample_submit :: http_request where
  "sample_submit = (client_request sample_cl POST ''/api/v1/commands'')\<lparr>hq_ClientID := ''me'',
     hq_Form := [(''command'', ''apply''), (''mode'', ''reconcile'')], hq_File := Some (Decoded stack_forma)\<rparr>"

lemma sample_passes: "passes sample_srv"
  by (simp add: passes_def sample_srv_def)

lemma sample_form: "stored_Forma stack_forma = Some (the (stored_Forma stack_forma))"
proof -
  have "stored_Forma stack_forma \<noteq> None" by code_simp
  then show ?thesis by simp
qed

section \<open>Properties\<close>

text \<open>C8: The client sees the outcome of the metastructure. Whatever the metastructure answers to a submission,
  the call of the client returns it: the response, or the error with its data under the name of its kind, or an
  unexpected code for an error without a kind, all up to what the encoding of a body loses; the datastore and
  the effects are those of the submission of the forma as it arrives, with the mode, the flags and the name of the
  client that were passed.\<close>

theorem client_sees_outcome:
  assumes "passes srv" "clientID \<noteq> ''''" "stored_Forma forma = Some formaJSON"
  shows "client_ApplyForma cl (over_http srv env n) forma mode simulate clientID force (d, past) = submitted srv (svc_submission
      (ApplyForma env d formaJSON \<lparr>sc_Mode = mode, sc_Force = force, sc_Simulate = simulate\<rparr> clientID n)) past \<and>
    client_DestroyForma cl (over_http srv env n) forma simulate clientID (d, past) = submitted srv (svc_submission
      (DestroyForma env d formaJSON \<lparr>sc_Mode = None, sc_Force = False, sc_Simulate = simulate\<rparr> clientID n)) past"
proof
  note defs = SubmitFormaCommand_def FormValue_def getOptionalBool_def hasFormaFile_def getForma_def client_request_def Let_def
  let ?a = "svc_submission (ApplyForma env d formaJSON \<lparr>sc_Mode = mode, sc_Force = force, sc_Simulate = simulate\<rparr> clientID n)"
  show "client_ApplyForma cl (over_http srv env n) forma mode simulate clientID force (d, past) = submitted srv ?a past"
    unfolding client_ApplyForma_def assms(3) option.case
    by (subst client_call [where send = "over_http srv env n", OF over_http_submit [OF assms(1), where s = ?a]])
      (use public_error_code assms(2) in \<open>simp_all add: defs submitted_read\<close>)
  let ?d = "svc_submission (DestroyForma env d formaJSON \<lparr>sc_Mode = None, sc_Force = False, sc_Simulate = simulate\<rparr> clientID n)"
  have code: "code \<in> {400, 409}" if "snd (snd ?d) = Inl e" "public_error srv e = Some (code, k, dat)" for e code k dat
    by (rule destroy_code [OF that])
      (use DestroyForma_PatchRejected [of env d formaJSON "\<lparr>sc_Mode = None, sc_Force = False, sc_Simulate = simulate\<rparr>" clientID n]
        in \<open>auto simp: svc_submission_def as_service_Inl split: prod.splits\<close>)
  show "client_DestroyForma cl (over_http srv env n) forma simulate clientID (d, past) = submitted srv ?d past"
    unfolding client_DestroyForma_def assms(3) option.case
    by (subst client_call [where send = "over_http srv env n", OF over_http_submit [OF assms(1), where s = ?d]])
      (use code assms(2) in \<open>simp_all add: defs submitted_read\<close>)
qed

theorem client_sees_outcome_witness:
  "map_sum (\<lambda>_. ()) sr_CommandID (fst (client_ApplyForma sample_cl (over_http sample_srv sample_ms 0) stack_forma
     (Some FormaApplyModeReconcile) False ''me'' False (sample_ds, []))) = Inr ''cmd''"
proof -
  have ne: "''me'' \<noteq> ''''" by simp
  note eq = conjunct1 [OF client_sees_outcome [OF sample_passes ne sample_form, where cl = sample_cl and env = sample_ms
    and n = 0 and mode = "Some FormaApplyModeReconcile" and simulate = False and force = False and d = sample_ds and past = "[]"]]
  show ?thesis unfolding eq by code_simp
qed

text \<open>C25: A client that asks for commands gets those that the metastructure lists for its query and its name, up
  to encoding, nothing if there are none, and otherwise the error; it changes nothing. The number of results
  arrives as it was sent.\<close>

theorem client_sees_commands:
  assumes "passes srv" "clientID \<noteq> ''''" "- (2 ^ 63) \<le> k" "k < 2 ^ 63"
  shows "client_GetFormaCommandsStatus cl (over_http srv env n) query clientID k (d, past) =
    (seen_commands srv (svc_ListFormaCommandStatus srv d query clientID k), d, past)"
proof -
  let ?c = "(client_request cl GET ''/api/v1/commands/status'')\<lparr>hq_ClientID := clientID,
    hq_Query := [(''query'', query), (''max_results'', int_string k)]\<rparr>"
  have "ListCommandStatus srv d ?c = getCommandStatus srv d clientID query k"
    using assms(2) by (simp add: ListCommandStatus_def QueryParam_def Atoi_int_string [OF assms(3,4)] client_request_def Let_def)
  then have http: "over_http srv env n ?c (d, past) = (getCommandStatus srv d clientID query k, d, past)"
    using serve_status [OF assms(1), of ?c] by (simp add: over_http_def client_request_def)
  show ?thesis
  proof (cases "svc_ListFormaCommandStatus srv d query clientID k")
    case (Inr cs)
    then show ?thesis
      by (cases "those (map sent_Command cs)") (auto simp: client_GetFormaCommandsStatus_def http getCommandStatus_def seen_commands_def
          HTTPError_def JSON_response_def internal_error_def)
  next
    case (Inl e)
    note known = status_errors [OF Inl]
    show ?thesis
    proof (cases rule: mapError_answer [of e srv])
      case (4 code kind dat dat')
      have "code = 400" "kind = APIInvalidQuery" using known [OF 4(2)] by auto
      then show ?thesis using Inl 4 parse_error_known [of kind "[APIInvalidQuery]" dat']
        by (simp add: client_GetFormaCommandsStatus_def http getCommandStatus_def seen_commands_def parseListCommandStatusErrorResponse_def)
    qed (simp_all add: Inl client_GetFormaCommandsStatus_def http getCommandStatus_def seen_commands_def HTTPError_def internal_error_def)
  qed
qed

theorem client_sees_commands_witness:
  "fst (client_GetFormaCommandsStatus sample_cl (over_http sample_srv sample_ms 0) ''id:cmd'' ''me'' 5 (sample_ds, [])) = Inr None"
proof -
  have "- (2 ^ 63) \<le> (5 :: int)" "(5 :: int) < 2 ^ 63" "''me'' \<noteq> ''''" by simp_all
  note eq = client_sees_commands [OF sample_passes this(3,1,2), where cl = sample_cl and n = 0 and env = sample_ms and d = sample_ds
    and query = "''id:cmd''" and past = "[]"]
  have "svc_ListFormaCommandStatus sample_srv sample_ds ''id:cmd'' ''me'' 5 = Inr []" by code_simp
  then show ?thesis by (simp add: eq seen_commands_def)
qed

text \<open>C21: The location of an accepted command leads nowhere. Whatever the state of the agent, a request to the URL
  that the answer to a submission names is refused as one without an identifier.\<close>

theorem location_dead_end:
  assumes "passes srv" "SubmitFormaCommand srv env n d req = (d', effects, Some resp)" "hs_Status resp = 202"
    "CHR ''/'' \<notin> set (me_newID env)"
    "hq_Method c = GET" "hq_Path c = hs_Location resp" "hq_Query c = []"
  shows "\<exists>msg. serve srv env' n' d'' c = (d'', [], Some (HTTPError 400 msg))"
proof -
  have "strings_Split (CHR ''/'') (me_newID env @ CHR ''/'' # ''status'') = [me_newID env, ''status'']"
    using assms(4) by (subst strings_Split_append) simp_all
  then have "strings_Split (CHR ''/'') (hq_Path c) = ['''', ''api'', ''v1'', ''commands'', me_newID env, ''status'']"
    by (simp add: assms(6) submission_location [OF assms(2,3)])
  then have "serve srv env' n' d'' c = (d'', [], CommandStatus srv d'' c)"
    using assms(1,5) by (simp add: serve_def passes_def configureEcho_def Let_def)
  then show ?thesis using assms(7) by (auto simp: CommandStatus_def QueryParam_def Let_def)
qed

theorem location_dead_end_witness:
  "\<exists>resp. snd (snd (SubmitFormaCommand sample_srv sample_ms 0 sample_ds sample_submit)) = Some resp \<and> hs_Status resp = 202 \<and>
    (\<exists>msg. serve sample_srv sample_ms 0 sample_ds ((client_request sample_cl GET (hs_Location resp))\<lparr>hq_ClientID := ''me''\<rparr>) =
      (sample_ds, [], Some (HTTPError 400 msg)))"
proof -
  obtain d' effects r where r: "SubmitFormaCommand sample_srv sample_ms 0 sample_ds sample_submit = (d', effects, r)"
    by (metis surj_pair)
  have "map_option hs_Status (snd (snd (SubmitFormaCommand sample_srv sample_ms 0 sample_ds sample_submit))) = Some 202"
    by code_simp
  then obtain resp where resp: "r = Some resp" "hs_Status resp = 202" by (auto simp: r)
  have "\<exists>msg. serve sample_srv sample_ms 0 sample_ds ((client_request sample_cl GET (hs_Location resp))\<lparr>hq_ClientID := ''me''\<rparr>) =
      (sample_ds, [], Some (HTTPError 400 msg))"
    by (rule location_dead_end [OF sample_passes r [unfolded resp(1)] resp(2)])
      (simp_all add: sample_ms_def client_request_def)
  with r resp show ?thesis by simp
qed

end
