(* ===== verification/Client_App.thy ===== *)
theory Client_App
  imports Api_Facts
begin

text \<open>
  The command line: \<^verbatim>\<open>internal/cli/app/app.go\<close>, what \<^verbatim>\<open>apply\<close> and
  \<^verbatim>\<open>destroy\<close> do with it, and the watch of \<^verbatim>\<open>internal/cli/status\<close>. The
  plugins, the configuration of the machine, the printers and the user at the terminal are parameters. A command
  that calls the agent twice gets the application and the agent as they are at either call.
\<close>

section \<open>The application\<close>

record AppConfig =
  conf_URL :: string
  conf_Port :: nat
  conf_DisableUsageReporting :: bool
  conf_Authentication :: "string option"
  conf_Network :: "string option"

text \<open>A plugin answers a configuration, which may be nil, and an error, which may be nil.\<close>

record schema_plugin =
  sp_FormaeConfig :: "string \<Rightarrow> AppConfig option \<times> string option"
  sp_Evaluate :: "string \<Rightarrow> Command \<Rightarrow> FormaApplyMode option \<Rightarrow> (string \<times> string) list \<Rightarrow> string + Forma"

record App =
  app_Plugin :: "string \<Rightarrow> string + schema_plugin"
  app_Extensions :: "string list"
  app_Auth :: "string \<Rightarrow> string + string" \<comment> \<open>the plugin for a configuration, and its header\<close>
  app_Net :: "string \<Rightarrow> string + unit"
  app_ClientID :: "string + string"
  app_Config :: AppConfig
  app_Version :: string
  app_LightBlue :: "string \<Rightarrow> string"

datatype app_error =
    PluginError string
  | ConfigError string
  | StatsUnavailable client_error
  | IncompatibleVersion string string
  | EvaluateError string
  | ClientIDError string
  | CallError client_error
  | InvalidOptions string
  | PrintError

type_synonym ('a, 's) app_call = "'s \<Rightarrow> (app_error + 'a) \<times> 's"

definition abind :: "('a, 's) app_call \<Rightarrow> ('a \<Rightarrow> ('b, 's) app_call) \<Rightarrow> ('b, 's) app_call" where
  "abind m f s = (case m s of (Inl e, s') \<Rightarrow> (Inl e, s') | (Inr x, s') \<Rightarrow> f x s')"

definition alift :: "('e \<Rightarrow> app_error) \<Rightarrow> 'e + 'a \<Rightarrow> ('a, 's) app_call" where
  "alift g r s = (case r of Inl e \<Rightarrow> (Inl (g e), s) | Inr x \<Rightarrow> (Inr x, s))"

definition acall :: "(client_error \<Rightarrow> app_error) \<Rightarrow> ('a, 's) call \<Rightarrow> ('a, 's) app_call" where
  "acall g m s = (case m s of (Inl e, s') \<Rightarrow> (Inl (g e), s') | (Inr x, s') \<Rightarrow> (Inr x, s'))"

definition aret :: "'a \<Rightarrow> ('a, 's) app_call" where
  "aret x s = (Inr x, s)"

text \<open>\<^verbatim>\<open>filepath.Ext\<close>: from the last dot of the last element of the path.\<close>

definition Ext :: "string \<Rightarrow> string" where
  "Ext path =
     (let t = takeWhile (\<lambda>c. c \<noteq> CHR ''.'' \<and> c \<noteq> CHR ''/'') (rev path); rest = drop (length t) (rev path)
      in if rest \<noteq> [] \<and> hd rest = CHR ''.'' then CHR ''.'' # rev t else '''')"

section \<open>Configuration\<close>

text \<open>The loop over the file extensions: the new configuration and, if the loop returned, its error.\<close>

fun load_first_config ::
  "App \<Rightarrow> (string \<Rightarrow> string) \<Rightarrow> string \<Rightarrow> string list \<Rightarrow> AppConfig option \<Rightarrow> AppConfig option \<times> app_error option option" where
  "load_first_config a expand pre [] config = (config, None)"
| "load_first_config a expand pre (fileExtension # exts) config =
     (case app_Plugin a fileExtension of
        Inl err \<Rightarrow> (config, Some (Some (PluginError err)))
      | Inr schemaPlugin \<Rightarrow>
          (case sp_FormaeConfig schemaPlugin (expand (pre @ fileExtension)) of
             (config', None) \<Rightarrow> (config', Some None)
           | (config', Some err) \<Rightarrow>
               if strings_Contains err ''does not exist'' \<or> strings_Contains err ''not supported''
               then load_first_config a expand pre exts config'
               else (config', Some (Some (ConfigError err)))))"

definition LoadConfig ::
  "App \<Rightarrow> (string \<Rightarrow> string) \<Rightarrow> string \<Rightarrow> string \<Rightarrow> AppConfig option \<Rightarrow> AppConfig option \<times> app_error option" where
  "LoadConfig a expand path configPathPrefix config =
     (let search = (\<lambda>config. case load_first_config a expand configPathPrefix (app_Extensions a) config of
            (config', Some r) \<Rightarrow> (config', r)
          | (config', None) \<Rightarrow>
              (case app_Plugin a ''.pkl'' of
                 Inl err \<Rightarrow> (config', Some (PluginError err))
               | Inr schemaPlugin \<Rightarrow> map_prod id (map_option ConfigError) (sp_FormaeConfig schemaPlugin '''')))
      in if path \<noteq> '''' then
           (case app_Plugin a (Ext path) of
              Inl err \<Rightarrow> (config, Some (PluginError err))
            | Inr schemaPlugin \<Rightarrow>
                (case sp_FormaeConfig schemaPlugin path of
                   (config', Some err) \<Rightarrow> (config', Some (ConfigError err))
                 | (config', None) \<Rightarrow> search config'))
         else search config)"

section \<open>Calls of the agent\<close>

definition getAuthAndNetHandlers :: "App \<Rightarrow> string + string option" where
  "getAuthAndNetHandlers a =
     (let auth = (case conf_Authentication (app_Config a) of None \<Rightarrow> Inr None | Some c \<Rightarrow> map_sum id Some (app_Auth a c))
      in case auth of
           Inl err \<Rightarrow> Inl err
         | Inr header \<Rightarrow> (case conf_Network (app_Config a) of
               None \<Rightarrow> Inr header
             | Some c \<Rightarrow> (case app_Net a c of Inl err \<Rightarrow> Inl err | Inr _ \<Rightarrow> Inr header)))"

definition calculateNags :: "App \<Rightarrow> api_Stats \<Rightarrow> string list" where
  "calculateNags a st =
     (let unmanaged = st_UnmanagedResources (as_Stats st); plural = (if unmanaged = 1 then '''' else ''s'')
      in if unmanaged > 0 then [''You have '' @ nat_string unmanaged @ '' unmanaged resource'' @ plural @
           ''. You can extract them using '' @ app_LightBlue a (''formae extract --query='' @ [CHR 0x27] @ ''managed:false'' @ [CHR 0x27]) @
           '', adjust and apply the changes.''] else [])"

text \<open>The statistics, those reported to the usage service, and the hints for the user.\<close>

definition runBeforeCommand ::
  "App \<Rightarrow> Client \<Rightarrow> 's sender \<Rightarrow> bool \<Rightarrow> (api_Stats option \<times> api_Stats list \<times> string list, 's) app_call" where
  "runBeforeCommand a cl send transmitStats = abind (acall StatsUnavailable (client_Stats cl send)) (\<lambda>r.
     case r of
       None \<Rightarrow> alift id (Inl (IncompatibleVersion (app_Version a) ''''))
     | Some st \<Rightarrow>
         if as_Version st \<noteq> app_Version a then alift id (Inl (IncompatibleVersion (app_Version a) (as_Version st)))
         else aret (Some st, if transmitStats \<and> \<not> conf_DisableUsageReporting (app_Config a) then [st] else [], calculateNags a st))"

text \<open>The start of every command: a client, and the check of the agent.\<close>

definition with_agent ::
  "App \<Rightarrow> 's sender \<Rightarrow> bool \<Rightarrow> (Client \<Rightarrow> api_Stats option \<Rightarrow> string list \<Rightarrow> ('a, 's) app_call) \<Rightarrow> ('a, 's) app_call" where
  "with_agent a send transmitStats f = abind (alift PluginError (getAuthAndNetHandlers a)) (\<lambda>auth.
     let cl = NewClient (conf_URL (app_Config a)) (conf_Port (app_Config a)) auth
     in abind (runBeforeCommand a cl send transmitStats) (\<lambda>(st, reported, nags). f cl st nags))"

definition evaluated ::
  "App \<Rightarrow> string \<Rightarrow> Command \<Rightarrow> FormaApplyMode option \<Rightarrow> (string \<times> string) list \<Rightarrow> app_error + Forma" where
  "evaluated a path command mode props =
     (case app_Plugin a (Ext path) of
        Inl err \<Rightarrow> Inl (PluginError err)
      | Inr schemaPlugin \<Rightarrow> map_sum EvaluateError id (sp_Evaluate schemaPlugin path command mode props))"

definition app_Apply ::
  "App \<Rightarrow> 's sender \<Rightarrow> string \<Rightarrow> (string \<times> string) list \<Rightarrow> FormaApplyMode option \<Rightarrow> bool \<Rightarrow> bool \<Rightarrow>
    (SubmitCommandResponse \<times> string list, 's) app_call" where
  "app_Apply a send path props mode simulate force = with_agent a send True (\<lambda>cl _ nags.
     abind (alift id (evaluated a path CommandApply mode props)) (\<lambda>forma.
     abind (alift ClientIDError (app_ClientID a)) (\<lambda>clientID.
     abind (acall CallError (client_ApplyForma cl send forma mode simulate clientID force)) (\<lambda>resp. aret (resp, nags)))))"

definition app_Destroy ::
  "App \<Rightarrow> 's sender \<Rightarrow> string \<Rightarrow> string \<Rightarrow> (string \<times> string) list \<Rightarrow> bool \<Rightarrow>
    (SubmitCommandResponse \<times> string list, 's) app_call" where
  "app_Destroy a send path query props simulate = with_agent a send True (\<lambda>cl _ nags.
     abind (alift ClientIDError (app_ClientID a)) (\<lambda>clientID.
     abind (if path \<noteq> ''''
            then abind (alift id (evaluated a path CommandDestroy (Some FormaApplyModeReconcile) props))
                   (\<lambda>forma. acall CallError (client_DestroyForma cl send forma simulate clientID))
            else acall CallError (client_DestroyByQuery cl send query simulate clientID)) (\<lambda>resp. aret (resp, nags))))"

definition app_GetCommandsStatus ::
  "App \<Rightarrow> 's sender \<Rightarrow> string \<Rightarrow> int \<Rightarrow> bool \<Rightarrow> (api_Command list \<times> string list, 's) app_call" where
  "app_GetCommandsStatus a send query n fromWatch = with_agent a send (\<not> fromWatch) (\<lambda>cl _ nags.
     abind (alift ClientIDError (app_ClientID a)) (\<lambda>clientID.
     abind (acall CallError (client_GetFormaCommandsStatus cl send query clientID n))
       (\<lambda>res. aret (case res of None \<Rightarrow> [] | Some cs \<Rightarrow> cs, nags))))"

definition app_ExtractResources :: "App \<Rightarrow> 's sender \<Rightarrow> string \<Rightarrow> (Forma \<times> string list, 's) app_call" where
  "app_ExtractResources a send query = with_agent a send True (\<lambda>cl _ nags.
     abind (acall CallError (client_ExtractResources cl send query))
       (\<lambda>f. aret (case f of None \<Rightarrow> zero_Forma | Some f \<Rightarrow> f, nags)))"

definition app_ForceSync :: "App \<Rightarrow> 's sender \<Rightarrow> (unit, 's) app_call" where
  "app_ForceSync a send = with_agent a send True (\<lambda>cl _ _. acall CallError (client_ForceSync cl send))"

definition app_ForceDiscover :: "App \<Rightarrow> 's sender \<Rightarrow> (unit, 's) app_call" where
  "app_ForceDiscover a send = with_agent a send True (\<lambda>cl _ _. acall CallError (client_ForceDiscover cl send))"

definition app_Stats :: "App \<Rightarrow> 's sender \<Rightarrow> (api_Stats option \<times> string list, 's) app_call" where
  "app_Stats a send = with_agent a send True (\<lambda>_ st nags. aret (st, nags))"

section \<open>Applying and destroying\<close>

text \<open>The terminal: whether the printer succeeds, and whether the user answers the prompt for a command with the
  letter Y.\<close>

record terminal =
  tm_Print :: "api_Command \<Rightarrow> bool"
  tm_Confirm :: "api_Command \<Rightarrow> bool"

record ApplyOptions =
  ao_OutputConsumer :: string
  ao_FormaFile :: string
  ao_Mode :: string
  ao_Force :: bool
  ao_Yes :: bool
  ao_Simulate :: bool
  ao_OutputSchema :: string
  ao_Watch :: bool
  ao_Properties :: "(string \<times> string) list"

text \<open>How a command ends: what is printed last, or the query that is watched.\<close>

datatype run_outcome =
    NoChangesNeeded
  | SimulationOnly
  | CommandAborted
  | CommandStarted string "string list"
  | WatchCommand string
  | PrintedSimulation bool api_Command
  | PrintedCommandID string

definition check_output :: "string \<Rightarrow> string \<Rightarrow> string option" where
  "check_output consumer schema =
     (if consumer \<noteq> ''human'' \<and> consumer \<noteq> ''machine'' then Some ''output consumer must be either human or machine''
      else if consumer = ''machine'' \<and> schema \<noteq> ''json'' \<and> schema \<noteq> ''yaml''
      then Some ''output schema must be either json or yaml for machine consumer'' else None)"

definition validateApplyOptions :: "ApplyOptions \<Rightarrow> string option" where
  "validateApplyOptions opts =
     (if ao_FormaFile opts = '''' then Some ''forma file is required''
      else if ao_Mode opts = '''' then Some ''the --mode flag is required''
      else if form_mode (ao_Mode opts) \<noteq> Some FormaApplyModeReconcile \<and> form_mode (ao_Mode opts) \<noteq> Some FormaApplyModePatch
      then Some ''invalid mode''
      else check_output (ao_OutputConsumer opts) (ao_OutputSchema opts))"

text \<open>A simulation, then the question, then the command itself: the rest of a run for humans, once the simulation
  has been answered. \<open>again\<close> submits for real.\<close>

definition proceed ::
  "terminal \<Rightarrow> bool \<Rightarrow> bool \<Rightarrow> bool \<Rightarrow> (SubmitCommandResponse \<times> string list, 's) app_call \<Rightarrow> SubmitCommandResponse \<Rightarrow>
    (run_outcome, 's) app_call" where
  "proceed tm yes simulate watch again res =
     (if \<not> sr_ChangesRequired res then aret NoChangesNeeded
      else if \<not> yes \<and> \<not> tm_Print tm (sr_Command res) then alift id (Inl PrintError)
      else if simulate then aret SimulationOnly
      else if \<not> yes \<and> \<not> tm_Confirm tm (sr_Command res) then aret CommandAborted
      else abind again (\<lambda>(resp, nags).
        aret (if watch then WatchCommand (''id:'' @ sr_CommandID resp) else CommandStarted (sr_CommandID resp) nags)))"

definition runApplyForHumans ::
  "terminal \<Rightarrow> App \<Rightarrow> 's sender \<Rightarrow> App \<Rightarrow> 's sender \<Rightarrow> ApplyOptions \<Rightarrow> (run_outcome, 's) app_call" where
  "runApplyForHumans tm a send a' send' opts =
     (let apply = (\<lambda>a send simulate. app_Apply a send (ao_FormaFile opts) (ao_Properties opts) (form_mode (ao_Mode opts)) simulate (ao_Force opts))
      in abind (apply a send True) (\<lambda>(res, _).
           proceed tm (ao_Yes opts) (ao_Simulate opts) (ao_Watch opts) (apply a' send' False) res))"

definition runApplyForMachines :: "terminal \<Rightarrow> App \<Rightarrow> 's sender \<Rightarrow> ApplyOptions \<Rightarrow> (run_outcome, 's) app_call" where
  "runApplyForMachines tm a send opts =
     (let apply = app_Apply a send (ao_FormaFile opts) (ao_Properties opts) (form_mode (ao_Mode opts))
      in if ao_Simulate opts
         then abind (apply True (ao_Force opts)) (\<lambda>(res, _). aret (PrintedSimulation (sr_ChangesRequired res) (sr_Command res)))
         else abind (apply False (ao_Force opts)) (\<lambda>(res, _). aret (PrintedCommandID (sr_CommandID res))))"

definition runApply ::
  "terminal \<Rightarrow> App \<Rightarrow> 's sender \<Rightarrow> App \<Rightarrow> 's sender \<Rightarrow> ApplyOptions \<Rightarrow> (run_outcome, 's) app_call" where
  "runApply tm a send a' send' opts =
     (case validateApplyOptions opts of
        Some err \<Rightarrow> alift id (Inl (InvalidOptions err))
      | None \<Rightarrow> if ao_OutputConsumer opts = ''human'' then runApplyForHumans tm a send a' send' opts
          else runApplyForMachines tm a send opts)"

record DestroyOptions =
  do_FormaFile :: string
  do_Query :: string
  do_OutputConsumer :: string
  do_OutputSchema :: string
  do_Watch :: bool
  do_Simulate :: bool
  do_Yes :: bool
  do_Properties :: "(string \<times> string) list"

definition validateDestroyOptions :: "DestroyOptions \<Rightarrow> string option" where
  "validateDestroyOptions opts =
     (if do_FormaFile opts = '''' \<and> do_Query opts = ''''
      then Some ''either a forma file needs to be provided, or --query must be specified''
      else if do_FormaFile opts \<noteq> '''' \<and> do_Query opts \<noteq> ''''
      then Some ''either a forma file needs to be provided, or --query must be specified, but not both''
      else check_output (do_OutputConsumer opts) (do_OutputSchema opts))"

definition runDestroyForHumans ::
  "terminal \<Rightarrow> App \<Rightarrow> 's sender \<Rightarrow> App \<Rightarrow> 's sender \<Rightarrow> DestroyOptions \<Rightarrow> (run_outcome, 's) app_call" where
  "runDestroyForHumans tm a send a' send' opts =
     (let destroy = (\<lambda>a send simulate. app_Destroy a send (do_FormaFile opts) (do_Query opts) (do_Properties opts) simulate)
      in abind (destroy a send True) (\<lambda>(res, _).
           proceed tm (do_Yes opts) (do_Simulate opts) (do_Watch opts) (destroy a' send' False) res))"

definition runDestroyForMachines :: "terminal \<Rightarrow> App \<Rightarrow> 's sender \<Rightarrow> DestroyOptions \<Rightarrow> (run_outcome, 's) app_call" where
  "runDestroyForMachines tm a send opts =
     (let destroy = app_Destroy a send (do_FormaFile opts) (do_Query opts) (do_Properties opts)
      in if do_Simulate opts
         then abind (destroy True) (\<lambda>(res, _). aret (PrintedSimulation (sr_ChangesRequired res) (sr_Command res)))
         else abind (destroy False) (\<lambda>(res, _). aret (PrintedCommandID (sr_CommandID res))))"

definition runDestroy ::
  "terminal \<Rightarrow> App \<Rightarrow> 's sender \<Rightarrow> App \<Rightarrow> 's sender \<Rightarrow> DestroyOptions \<Rightarrow> (run_outcome, 's) app_call" where
  "runDestroy tm a send a' send' opts =
     (case validateDestroyOptions opts of
        Some err \<Rightarrow> alift id (Inl (InvalidOptions err))
      | None \<Rightarrow> if do_OutputConsumer opts = ''human'' then runDestroyForHumans tm a send a' send' opts
          else runDestroyForMachines tm a send opts)"

section \<open>Watching\<close>

definition allFinished :: "api_Command list \<Rightarrow> bool" where
  "allFinished = list_all (\<lambda>c. ac_State c = ''Success'' \<or> ac_State c = ''Failed'')"

text \<open>The loop over the answers of the successive calls; \<open>None\<close> is a watch that never ends.\<close>

partial_function (option) WatchCommandsStatus :: "(nat \<Rightarrow> app_error + api_Command list) \<Rightarrow> nat \<Rightarrow> (app_error option) option" where
  "WatchCommandsStatus status i =
     (case status i of
        Inl err \<Rightarrow> Some (Some err)
      | Inr commands \<Rightarrow> if allFinished commands then Some None else WatchCommandsStatus status (Suc i))"

section \<open>Calls that change nothing\<close>

named_theorems harmless_intros

definition harmless :: "('a, 's) app_call \<Rightarrow> bool" where
  "harmless m \<longleftrightarrow> (\<forall>s. snd (m s) = s)"

lemma harmless_abind [harmless_intros]: "harmless m \<Longrightarrow> (\<And>x. harmless (f x)) \<Longrightarrow> harmless (abind m f)"
  by (simp add: harmless_def abind_def split: prod.split sum.split) (metis snd_conv)

lemma harmless_alift [harmless_intros]: "harmless (alift g r)"
  by (simp add: harmless_def alift_def split: sum.split)

lemma harmless_aret [harmless_intros]: "harmless (aret x)"
  by (simp add: harmless_def aret_def)

lemma harmless_acall: "(\<And>s. snd (m s) = s) \<Longrightarrow> harmless (acall g m)"
  by (simp add: harmless_def acall_def split: prod.split sum.split) (metis snd_conv)

text \<open>The agent does not change when it is asked for something.\<close>

lemma over_http_unchanged:
  assumes "hq_Method c = GET \<or> hq_Path c = ''/api/v1/commands'' \<and> FormValue c ''simulate'' = ''true''"
  shows "snd (over_http srv env n c s) = s"
proof -
  have applied: "\<exists>r. ApplyForma env d forma config clientID n = (d, [], r)" if "sc_Simulate config" for d forma config clientID
    by (cases "ApplyForma env d forma config clientID n" rule: prod_cases3) (use that apply_cases in blast)
  have destroyed: "\<exists>r. DestroyForma env d forma config clientID n = (d, [], r)" if "sc_Simulate config" for d forma config clientID
    by (cases "DestroyForma env d forma config clientID n" rule: prod_cases3) (use that destroy_cases in blast)
  have answer: "\<exists>r. submission_answer srv (svc_submission (d, [], r')) = (d, [], r)" for d r'
    by (simp add: submission_answer_def svc_submission_def)
  have submit: "\<exists>r. SubmitFormaCommand srv env n d c = (d, [], r)" if "FormValue c ''simulate'' = ''true''" for d
  proof -
    have sim: "getOptionalBool c ''simulate'' False = True" by (simp add: getOptionalBool_def that ParseBool_def)
    have by_forma: "\<exists>r. submission_answer srv (svc_submission (ApplyForma env d f \<lparr>sc_Mode = m, sc_Force = b, sc_Simulate = True\<rparr> i n)) = (d, [], r)"
      "\<exists>r. submission_answer srv (svc_submission (DestroyForma env d f \<lparr>sc_Mode = m, sc_Force = b, sc_Simulate = True\<rparr> i n)) = (d, [], r)"
      for f m b i
      using applied [of "\<lparr>sc_Mode = m, sc_Force = b, sc_Simulate = True\<rparr>" d f i]
        destroyed [of "\<lparr>sc_Mode = m, sc_Force = b, sc_Simulate = True\<rparr>" d f i] answer by auto
    have by_query: "\<exists>r. submission_answer srv (svc_DestroyByQuery srv env d q \<lparr>sc_Mode = m, sc_Force = b, sc_Simulate = True\<rparr> i n) = (d, [], r)"
      for q m b i
      using by_forma(2) by (auto simp: svc_DestroyByQuery_def DestroyByQuery_def submission_answer_def split: sum.split)
    show ?thesis
      using by_forma by_query by (auto simp: SubmitFormaCommand_def Let_def sim split: sum.split)
  qed
  have "\<exists>r. serve srv env n d c = (d, [], r)" for d
    using assms submit [of d]
    by (auto simp: serve_def configureEcho_def Let_def split: option.split)
  then obtain r where "serve srv env n (fst s) c = (fst s, [], r)" by blast
  then show ?thesis by (simp add: over_http_def)
qed

lemma snd_read: "snd (case r of (None, s') \<Rightarrow> (Inl SendFailed, s') | (Some resp, s') \<Rightarrow> (f resp, s')) = snd r"
  by (simp split: prod.split option.split)

lemma client_Stats_harmless [harmless_intros]: "harmless (acall g (client_Stats cl (over_http srv env n)))"
  by (rule harmless_acall) (simp only: client_Stats_def snd_read, rule over_http_unchanged, simp add: client_request_def)

lemma client_simulation_harmless [harmless_intros]:
  "harmless (acall g (client_ApplyForma cl (over_http srv env n) forma mode True clientID force))"
  "harmless (acall g (client_DestroyForma cl (over_http srv env n) forma True clientID))"
  "harmless (acall g (client_DestroyByQuery cl (over_http srv env n) query True clientID))"
proof -
  note unchanged = over_http_unchanged [of _ srv env n]
  show "harmless (acall g (client_ApplyForma cl (over_http srv env n) forma mode True clientID force))"
    by (rule harmless_acall, cases "stored_Forma forma"; simp only: client_ApplyForma_def snd_read option.case snd_conv)
      (rule unchanged, simp add: client_request_def FormValue_def bool_text_def)
  show "harmless (acall g (client_DestroyForma cl (over_http srv env n) forma True clientID))"
    by (rule harmless_acall, cases "stored_Forma forma"; simp only: client_DestroyForma_def snd_read option.case snd_conv)
      (rule unchanged, simp add: client_request_def FormValue_def bool_text_def)
  show "harmless (acall g (client_DestroyByQuery cl (over_http srv env n) query True clientID))"
    by (rule harmless_acall) (simp only: client_DestroyByQuery_def snd_read, rule unchanged,
      simp add: client_request_def FormValue_def bool_text_def)
qed

lemma with_agent_harmless [harmless_intros]:
  "(\<And>cl st nags. harmless (f cl st nags)) \<Longrightarrow> harmless (with_agent a (over_http srv env n) t f)"
  unfolding with_agent_def runBeforeCommand_def Let_def
  by (intro harmless_intros) (auto simp: split_beta split: option.split intro!: harmless_intros)

lemma app_simulation_harmless [harmless_intros]:
  "harmless (app_Apply a (over_http srv env n) path props mode True force)"
  "harmless (app_Destroy a (over_http srv env n) path query props True)"
  unfolding app_Apply_def app_Destroy_def by (intro harmless_intros; auto intro!: harmless_intros)+

lemma proceed_harmless [harmless_intros]:
  "simulate \<or> \<not> yes \<and> (\<forall>c. \<not> tm_Confirm tm c) \<Longrightarrow> harmless (proceed tm yes simulate watch again res)"
  unfolding proceed_def by (auto intro!: harmless_intros)

section \<open>Samples\<close>

definition sample_app :: App where
  "sample_app = \<lparr>app_Plugin = (\<lambda>_. Inr \<lparr>sp_FormaeConfig = (\<lambda>_. (None, None)), sp_Evaluate = (\<lambda>path command mode props. Inr stack_forma)\<rparr>),
     app_Extensions = [], app_Auth = Inr, app_Net = (\<lambda>_. Inr ()), app_ClientID = Inr ''me'',
     app_Config = \<lparr>conf_URL = ''http://localhost'', conf_Port = 80, conf_DisableUsageReporting = False,
       conf_Authentication = None, conf_Network = None\<rparr>, app_Version = ''1'', app_LightBlue = id\<rparr>"

definition sample_options :: ApplyOptions where
  "sample_options = \<lparr>ao_OutputConsumer = ''human'', ao_FormaFile = ''forma.pkl'', ao_Mode = ''reconcile'', ao_Force = False,
     ao_Yes = False, ao_Simulate = False, ao_OutputSchema = ''json'', ao_Watch = False, ao_Properties = []\<rparr>"

definition sample_destroy :: DestroyOptions where
  "sample_destroy = \<lparr>do_FormaFile = ''forma.pkl'', do_Query = '''', do_OutputConsumer = ''human'', do_OutputSchema = ''json'',
     do_Watch = False, do_Simulate = False, do_Yes = False, do_Properties = []\<rparr>"

definition user :: "bool \<Rightarrow> terminal" where
  "user answer = \<lparr>tm_Print = (\<lambda>_. True), tm_Confirm = (\<lambda>_. answer)\<rparr>"

definition run_sample :: "bool \<Rightarrow> (app_error + run_outcome) \<times> datastore \<times> api_effect list" where
  "run_sample answer = runApply (user answer) sample_app (over_http sample_srv sample_ms 0) sample_app (over_http sample_srv sample_ms 0)
     sample_options (sample_ds, [])"

section \<open>Properties\<close>

text \<open>C9: Nothing happens without consent. If a command is only simulated, or if it is run for a human who has not
  waived the question and does not answer it with yes, the agent is left exactly as it was, its datastore and what it
  has started, whatever the forma, the query, the plugins, and the state of the agent at either call.\<close>

theorem nothing_unconfirmed:
  assumes "ao_Simulate opts \<or> ao_OutputConsumer opts = ''human'' \<and> \<not> ao_Yes opts \<and> (\<forall>c. \<not> tm_Confirm tm c)"
    "do_Simulate opts' \<or> do_OutputConsumer opts' = ''human'' \<and> \<not> do_Yes opts' \<and> (\<forall>c. \<not> tm_Confirm tm c)"
  shows "snd (runApply tm a (over_http srv env n) a' (over_http srv' env' n') opts (d, past)) = (d, past) \<and>
    snd (runDestroy tm a (over_http srv env n) a' (over_http srv' env' n') opts' (d, past)) = (d, past)"
proof -
  have "harmless (runApply tm a (over_http srv env n) a' (over_http srv' env' n') opts)"
    using assms(1) unfolding runApply_def runApplyForHumans_def runApplyForMachines_def Let_def
    by (auto simp: split_beta intro!: harmless_intros split: option.split)
  moreover have "harmless (runDestroy tm a (over_http srv env n) a' (over_http srv' env' n') opts')"
    using assms(2) unfolding runDestroy_def runDestroyForHumans_def runDestroyForMachines_def Let_def
    by (auto simp: split_beta intro!: harmless_intros split: option.split)
  ultimately show ?thesis unfolding harmless_def by blast
qed

theorem nothing_unconfirmed_witness:
  "map_sum (\<lambda>_. ()) id (fst (run_sample False)) = Inr CommandAborted \<and> snd (run_sample False) = (sample_ds, []) \<and>
   map_sum (\<lambda>_. ()) id (fst (run_sample True)) = Inr (CommandStarted ''cmd'' []) \<and> length (snd (snd (run_sample True))) = 2"
proof (intro conjI)
  show "snd (run_sample False) = (sample_ds, [])"
    unfolding run_sample_def
    by (rule conjunct1 [OF nothing_unconfirmed [where opts' = sample_destroy]])
      (simp_all add: sample_options_def sample_destroy_def user_def)
qed code_simp+

end
