(* ===== verification/Spec2Isabelle.thy ===== *)
theory Spec2Isabelle
  imports Changeset_Executor Resolve_Cache Discovery_Facts Postgres_Facts Client_App
begin

text \<open>
  \<^bold>\<open>The metastructure of formae.\<close>
  formae turns a description of infrastructure (a \<^emph>\<open>forma\<close>: stacks, targets and resources with
  properties that may refer to each other) into calls of cloud plugins. The command line sends a forma to the
  API of an agent; the agent's core, \<^verbatim>\<open>internal/metastructure\<close>, compares it with the stored
  inventory, stores a \<^emph>\<open>command\<close> made of resource updates, and carries the command out with a
  set of actors. This development models that core, with the API and the command line in front of it,
  from the call of a user to the rows of the datastore, one theory for each component, and proves what each component promises its callers.

  \<^bold>\<open>How the parts interact.\<close>
  A call of the command line (\<^theory_text>\<open>Client_App\<close>) goes through the client and the server of the API
  (\<^theory_text>\<open>Api\<close>). A submission (\<^theory_text>\<open>Metastructure\<close>) loads stacks and targets from the datastore and asks the
  generator (\<^theory_text>\<open>Update_Generator\<close>) for the resource updates, which the factory
  (\<^theory_text>\<open>Update_Factory\<close>) builds with the help of the comparison
  (\<^theory_text>\<open>Resource_Comparison\<close>) and the patch document (\<^theory_text>\<open>Patch_Document\<close>). The
  command is stored by the command persister, and the updates become a changeset: a graph of groups of updates
  (\<^theory_text>\<open>Pipeline\<close>, \<^theory_text>\<open>Changeset\<close>), which an executor actor
  (\<^theory_text>\<open>Changeset_Executor\<close>) runs in the order of the graph, under the tokens of a rate limiter
  (\<^theory_text>\<open>Rate_Limiter\<close>). Each update is carried out by an updater actor
  (\<^theory_text>\<open>Resource_Updater\<close>), which asks the resolve cache for the values that references stand
  for, and starts a plugin operator (\<^theory_text>\<open>Plugin_Operator\<close>) for every plugin operation. Progress
  goes to the command persister and the resource persister, which write to the datastore
  (\<^theory_text>\<open>Datastore\<close> for SQLite, \<^theory_text>\<open>Postgres\<close> for PostgreSQL). The synchroniser and
  the discovery make commands of their own from the inventory and from what the plugins list.

  \<^bold>\<open>Theories and sources\<close> (under \<^verbatim>\<open>src/\<close>; \<open>m/\<close> stands for
  \<^verbatim>\<open>internal/metastructure/\<close>).
  \<^item> \<^theory_text>\<open>Prelude\<close>: results, loops that fail, visiting orders of maps, and the locales
    \<open>invariant_machine\<close> and \<open>work_machine\<close>.
  \<^item> \<^theory_text>\<open>Formae_Uri\<close>, \<^theory_text>\<open>Domain\<close>, \<^theory_text>\<open>Progress\<close>,
    \<^theory_text>\<open>Resource_Properties\<close>: \<^verbatim>\<open>pkg/model\<close> and the progress type of
    \<^verbatim>\<open>pkg/plugin/resource\<close>.
  \<^item> \<^theory_text>\<open>Resource_Update\<close>, \<^theory_text>\<open>Resource_Labeler\<close>,
    \<^theory_text>\<open>Update_Factory\<close>, \<^theory_text>\<open>Resource_Comparison\<close>,
    \<^theory_text>\<open>Update_Generator\<close> (with \<open>_Facts\<close>, \<open>_Apply\<close>, \<open>_Safety\<close>, \<open>_Datastore\<close>),
    \<^theory_text>\<open>Resource_Updater\<close>: \<open>m/\<close>\<^verbatim>\<open>resource_update\<close>.
  \<^item> \<^theory_text>\<open>Pipeline\<close>, \<^theory_text>\<open>Changeset\<close>, \<^theory_text>\<open>Changeset_Execution\<close>,
    \<^theory_text>\<open>Changeset_Executor\<close>, \<^theory_text>\<open>Rate_Limiter\<close>,
    \<^theory_text>\<open>Resolve_Cache\<close>: \<open>m/\<close>\<^verbatim>\<open>changeset\<close>.
  \<^item> \<^theory_text>\<open>Plugin_Operator\<close>: \<open>m/\<close>\<^verbatim>\<open>plugin_operation\<close>.
    \<^theory_text>\<open>Messages\<close>: \<open>m/\<close>\<^verbatim>\<open>messages\<close>.
  \<^item> \<^theory_text>\<open>Resolver\<close>: \<open>m/\<close>\<^verbatim>\<open>resolver\<close>. \<^theory_text>\<open>Patch_Document\<close>:
    \<open>m/\<close>\<^verbatim>\<open>patch\<close>. \<^theory_text>\<open>Persist_Transformer\<close>:
    \<open>m/\<close>\<^verbatim>\<open>transformations\<close>.
  \<^item> \<^theory_text>\<open>Stored_Json\<close>, \<^theory_text>\<open>Map_Strings\<close>: \<open>m/\<close>\<^verbatim>\<open>util\<close>, and the
    JSON form in which structs are stored.
  \<^item> \<^theory_text>\<open>Forma_Command\<close>, \<^theory_text>\<open>Forma_Command_Persister\<close>,
    \<^theory_text>\<open>Resource_Persister\<close>: \<open>m/\<close>\<^verbatim>\<open>forma_command\<close>,
    \<open>m/\<close>\<^verbatim>\<open>forma_persister\<close>, \<open>m/\<close>\<^verbatim>\<open>resource_persister\<close>.
  \<^item> \<^theory_text>\<open>Datastore\<close>, \<^theory_text>\<open>Datastore_Facts\<close>, \<^theory_text>\<open>Postgres\<close>,
    \<^theory_text>\<open>Postgres_Facts\<close>: \<open>m/\<close>\<^verbatim>\<open>datastore\<close>.
    \<^theory_text>\<open>Querier\<close>: \<open>m/\<close>\<^verbatim>\<open>querier\<close>.
  \<^item> \<^theory_text>\<open>Api\<close>, \<^theory_text>\<open>Api_Facts\<close>: \<^verbatim>\<open>internal/api\<close> and its error model, server and client.
    \<^theory_text>\<open>Client_App\<close>: \<^verbatim>\<open>internal/cli/app\<close>, and the commands \<^verbatim>\<open>apply\<close>,
    \<^verbatim>\<open>destroy\<close> and the watch of \<^verbatim>\<open>internal/cli\<close>.
  \<^item> \<^theory_text>\<open>Metastructure\<close>, \<^theory_text>\<open>Metastructure_Facts\<close>:
    \<open>m/\<close>\<^verbatim>\<open>metastructure.go\<close>. \<^theory_text>\<open>Synchronizer\<close>:
    \<open>m/\<close>\<^verbatim>\<open>synchronizer.go\<close>. \<^theory_text>\<open>Discovery\<close>,
    \<^theory_text>\<open>Discovery_Facts\<close>: \<open>m/\<close>\<^verbatim>\<open>discovery\<close>.

  \<^bold>\<open>How the code is read.\<close>
  \<^item> A struct is a record, a string-typed enumeration a datatype (its zero value a constructor where it occurs),
    a method a function of its receiver. The definitions keep the names of the code.
  \<^item> Actors: a handler is a function of the state, of the message, and of the answers of the actors it calls,
    which are fields of an environment; what it sends is a list of outputs. The life of an actor is a step
    relation over its handlers, in which the environment may answer differently at every step.
  \<^item> An error is a value on the left of a sum. \<open>None\<close> is a Go panic (a nil dereference, a failed type
    assertion) where the theory says so; theorems exclude it or say when it happens.
  \<^item> Iterating over a Go map visits its entries in an arbitrary order: an argument that permutes the entries
    (\<open>range_order\<close>), over which the theorems quantify.
  \<^item> Pointers between groups are keys of a heap; a slice of values is a list.
  \<^item> Third-party packages are parameters: gjson and sjson, jsonpatch, the query parser, KSUID generation, SHA-256,
    and the plugins themselves. The clock is an argument of the operations that read it.
  \<^item> A database table is the list of its rows; statements are functions on it.

  \<^bold>\<open>Recursion and fuel.\<close>
  The cascade of a failure through the graph takes the number of groups plus one as fuel: every call but the
  first removes a group from the pipeline, so that the fuel is never used up, which
  \<^theory_text>\<open>Changeset\<close> proves before anything is said about the result. The loop over the pages of a plugin's
  listing ends when the plugin stops handing out page tokens, which nothing guarantees; its fuel is an argument,
  and it is shown to be enough as soon as it is not less than the number of pages. Everything else terminates
  by a measure or by structure, the mutual recursion of the handlers of the updater included; the depth-first
  search for cycles terminates because it marks what it visits.

  \<^bold>\<open>What is shown.\<close>
  \<^item> Planning: reconcile and patch plans contain exactly the creates, changes, replacements and deletes that the
    forma and the inventory call for; ids are stable; no nil target is dereferenced,
    under the conditions on the inventory that the theorem names; a forgotten dependent is exhibited.
  \<^item> Ordering: the construction of the graph is correct and independent of visiting orders, cycles are found
    exactly, execution hands an operation out only after everything it depends on, a failure takes exactly its
    dependents with it, nothing deadlocks, every execution ends. The executor actor refines the changeset, and a
    forma is applied in the order of its references (below, from the generator to the execution).
  \<^item> Carrying out: the plugin operations of an update come in the required order, a resumed update
    issues what is left of them, drift is rejected, the updater
    reports once, an operator neither gets stuck nor retries without bound, the rate limiter keeps its window.
  \<^item> Storing: statements keep the integrity of the tables, what is stored is loaded again, secrets are hashed,
    the state of a command follows from its updates, and the two datastores agree on the
    statements both provide, under the bytewise collation.
  \<^item> Submitting: an apply is admitted only if its checks passed and otherwise leaves no trace, up to the exceptions
    named; conflicts are reported exactly; the synchroniser and the discovery read and bring in what they should.
    Where the code does less than it means to, the theorem states what it does.
  \<^item> Calling: the client sees exactly the outcome of the metastructure, up to what encoding loses, a query selects
    what its last term for each field says, and nothing happens on the agent without the consent of the user.

  \<^bold>\<open>Interfaces.\<close>
  \<open>invariant_machine\<close> and \<open>work_machine\<close> (reachability, invariants and progress) are interpreted by the changeset,
  the executor, the operator, the updater, the datastore, both persisters, the synchroniser and the discovery.
  \<open>token_source\<close> is the contract of the rate limiter, \<open>command_store\<close> what the command persister needs of a
  datastore, \<open>resource_lookup\<close> what the generator needs of one; the datastore models interpret them, PostgreSQL's
  included.

  \<^bold>\<open>Not modelled.\<close>
  The plugins and their manager, the evaluation of the configuration language, the renderer, the prompts and the
  other commands of the command line, the start of the server with its listeners, the package tools, logging, telemetry and usage reporting, documentation and embedded assets: they
  are input and output around the core or calls of packages that are not part of the repository. Of the core, the
  supervisors, the bridge actor and the constructors and start-up code of the actor framework, the URL form of
  resource names (\<^verbatim>\<open>net/url\<close>), and the in-place editing of JSON text when references are merged,
  which goes through sjson and is a parameter.
\<close>

section \<open>From a forma to an execution\<close>

lemma Stripped_res_URI: "CHR ''#'' \<notin> set (res_Ksuid r) \<Longrightarrow> Stripped (res_URI r) = res_URI r"
  by (simp add: res_URI_def)

lemma well_formed_fresh: "well_formed source command us \<Longrightarrow> \<forall>u \<in> set us. clean_ksuid u \<Longrightarrow> fresh_updates us"
  by (auto simp: well_formed_def fresh_updates_def fresh_update_def list_all_iff)

lemma well_formed_ops: "well_formed source command us \<Longrightarrow> all_ops us = us"
  by (induction us) (auto simp: well_formed_def all_ops_def fresh_update_def)

lemma deletes_precede:
  assumes "deletes env source d a" "deletes env source r b" "depends_on env d r" "clean_ksuid b"
  shows "precedes a b"
proof -
  obtain uri where "uri \<in> set (resolvables env d)" "Stripped uri = Stripped (res_URI r)"
    using assms(3) by (auto simp: depends_on_def list_ex_iff)
  moreover have "Stripped (res_URI r) = ru_URI b"
    using assms(2,4) Stripped_res_URI [of r] by (simp add: deletes_def ru_URI_def clean_ksuid_def)
  ultimately have "ru_URI b \<in> Stripped ` set (ru_RemainingResolvables a)"
    using assms(1) by (auto simp: deletes_def intro: rev_image_eqI)
  then show ?thesis using assms(1,2) by (simp add: precedes_def deletes_def)
qed

lemma creates_precede:
  assumes "creates env source p a" "creates env source q b" "depends_on env q p" "clean_ksuid a"
  shows "precedes a b"
proof -
  obtain uri where "uri \<in> set (resolvables env q)" "Stripped uri = Stripped (res_URI p)"
    using assms(3) by (auto simp: depends_on_def list_ex_iff)
  moreover have "Stripped (res_URI p) = ru_URI a"
    using assms(1,4) Stripped_res_URI [of p] by (simp add: creates_def ru_URI_def clean_ksuid_def res_URI_def)
  ultimately have "ru_URI a \<in> Stripped ` set (ru_RemainingResolvables b)"
    using assms(2) by (auto simp: creates_def intro: rev_image_eqI)
  then show ?thesis using assms(1,2) by (simp add: precedes_def creates_def)
qed

text \<open>C1: A forma is applied in the order of its references. When the updates of a command become a
  changeset and the changeset is executed, a resource is deleted only after the deletes of everything
  that refers to it have succeeded, and a resource is created only after everything that it refers to
  and that is created with it has been created. The updates delete each resource at most once and create or
  change it at most once, the precondition of every changeset.\<close>

theorem applied_in_order:
  assumes "range_order (ge_ord env)" "range_orders ord"
    "GenerateResourceUpdates env forma command mode source existingTargets ds filters n = Inr (us, n')"
    "\<forall>u \<in> set us. clean_ksuid u" "distinct_resources us"
    "NewChangesetFromResourceUpdates ord us cid = Some (Inr c)"
    "cs.run c (es @ HandOut ns k ws # es') c'" "w \<in> set ws" "op_URI w = op_URI b" "a \<in> set us" "b \<in> set us"
    "deletes env source d a \<and> deletes env source r b \<and> depends_on env d r \<or>
     creates env source d a \<and> creates env source r b \<and> depends_on env r d"
  shows "\<exists>fs. Finish (op_URI a) ResourceUpdateStateSuccess fs \<in> set es"
proof -
  have wf: "well_formed source command us"
    using gpostD [OF generation_posts [OF assms(1)] assms(3)] by blast
  have "precedes a b"
    using assms(4,10,11,12) deletes_precede creates_precede by blast
  then have "(op_URI a, op_URI w) \<in> must_precede (all_ops us)"
    using assms(9,10,11) unfolding must_precede_def well_formed_ops [OF wf] by blast
  then show ?thesis
    using handed_out_after [OF assms(2) well_formed_fresh [OF wf assms(4)] _ assms(6,7,8)] assms(5)
    by (simp add: well_formed_ops [OF wf])
qed

text \<open>The reconcile of the sample stacks, executed: \<open>c\<close> refers to \<open>a\<close>, so that \<open>a\<close> is deleted after \<open>c\<close>.\<close>

definition ordered_us :: "ResourceUpdate list" where
  "ordered_us = (case GenerateResourceUpdates sample_gen sample_forma CommandApply FormaApplyModeReconcile
     FormaCommandSourceUser (map snd sample_targets) sample_lookup None 0 of Inl e \<Rightarrow> [] | Inr (us, n) \<Rightarrow> us)"

definition ordered_c0 :: Changeset where
  "ordered_c0 = (case NewChangesetFromResourceUpdates (\<lambda>_. id) ordered_us ''cmd'' of
     Some (Inr c) \<Rightarrow> c
   | _ \<Rightarrow> \<lparr>cs_CommandID = [], cs_Pipeline = \<lparr>pl_keys = [], pl_heap = []\<rparr>, cs_trackedUpdates = []\<rparr>)"

definition hand_out_T :: "Changeset \<Rightarrow> ResourceUpdate list \<times> Changeset" where
  "hand_out_T c = (case GetExecutableUpdates (\<lambda>_. id) ''T'' 5 c of None \<Rightarrow> ([], c) | Some r \<Rightarrow> r)"

definition finish_ok :: "string \<Rightarrow> Changeset \<Rightarrow> Changeset \<times> ResourceUpdate list" where
  "finish_ok k c = (case UpdatePipeline ((hd (upds (cs_heap c) k))\<lparr>ru_State := ResourceUpdateStateSuccess\<rparr>)
        (set_state k ResourceUpdateStateSuccess c) of
      Some (c', Inr fs) \<Rightarrow> (c', fs) | _ \<Rightarrow> (c, []))"

definition ordered_c1 :: Changeset where "ordered_c1 = snd (hand_out_T ordered_c0)"
definition ordered_c2 :: Changeset where "ordered_c2 = fst (finish_ok ''k3//delete'' ordered_c1)"

lemma hand_out_T_step:
  assumes "wf_changeset c"
  shows "cs_step c (HandOut ''T'' 5 (fst (hand_out_T c))) (snd (hand_out_T c))"
proof -
  obtain us c' where "GetExecutableUpdates (\<lambda>_. id) ''T'' 5 c = Some (us, c')"
    using GetExecutableUpdates_wf [OF sample_orders] assms by (metis wf_changeset_def)
  then show ?thesis using cs_step.hand_out [OF sample_orders] by (simp add: hand_out_T_def)
qed

lemma finish_ok_step:
  assumes "wf_changeset c" "upds (cs_heap c) k = [ru]" "ru_State ru = ResourceUpdateStateInProgress"
  shows "cs_step c (Finish k ResourceUpdateStateSuccess (snd (finish_ok k c))) (fst (finish_ok k c))"
proof -
  have f: "final_update_state ResourceUpdateStateSuccess" by (simp add: final_update_state_def)
  obtain c' fs where "UpdatePipeline (ru\<lparr>ru_State := ResourceUpdateStateSuccess\<rparr>) (set_state k ResourceUpdateStateSuccess c) = Some (c', Inr fs)"
    using finish_wf [OF _ assms(2) f] assms(1) by (auto simp: wf_changeset_def)
  then show ?thesis
    using cs_step.finish [OF assms(2,3) f] assms(2) by (simp add: finish_ok_def)
qed

lemma ordered_generated:
  "\<exists>n. GenerateResourceUpdates sample_gen sample_forma CommandApply FormaApplyModeReconcile
     FormaCommandSourceUser (map snd sample_targets) sample_lookup None 0 = Inr (ordered_us, n)"
proof -
  have "outline (GenerateResourceUpdates sample_gen sample_forma CommandApply FormaApplyModeReconcile
     FormaCommandSourceUser (map snd sample_targets) sample_lookup None 0) =
       Some [(OperationCreate, ''b''), (OperationDelete, ''a''), (OperationDelete, ''c'')]"
    by code_simp
  from outline_Some [OF this] show ?thesis by (auto simp: ordered_us_def)
qed

lemma ordered_facts:
  "\<forall>u \<in> set ordered_us. clean_ksuid u" "distinct_resources ordered_us" "fresh_updates ordered_us"
  "map op_URI ordered_us = [''k2//create'', ''k1//delete'', ''k3//delete'']"
  "map (\<lambda>u. (ru_Operation u, ru_Resource u)) (tl ordered_us) =
     map (\<lambda>r. (OperationDelete, r)) [stored ''s'' ''a'' ''k1'' (JObj []), stored ''z'' ''c'' ''k3'' (JObj [(''p'', ref_json (NewFormaeURI ''k1'' ''Id''))])]"
  "depends_on sample_gen (stored ''z'' ''c'' ''k3'' (JObj [(''p'', ref_json (NewFormaeURI ''k1'' ''Id''))])) (stored ''s'' ''a'' ''k1'' (JObj []))"
  "map op_URI (fst (hand_out_T ordered_c2)) = [''k1//delete'']"
  "map ru_State (upds (cs_heap ordered_c1) ''k3//delete'') = [ResourceUpdateStateInProgress]"
  by code_simp+

lemma ordered_new: "NewChangesetFromResourceUpdates (\<lambda>_. id) ordered_us ''cmd'' = Some (Inr ordered_c0)"
proof -
  have "case NewChangesetFromResourceUpdates (\<lambda>_. id) ordered_us ''cmd'' of Some (Inr c) \<Rightarrow> True | _ \<Rightarrow> False"
    by code_simp
  then show ?thesis by (auto simp: ordered_c0_def split: option.splits sum.splits)
qed

definition ordered_prefix :: "cs_event list" where
  "ordered_prefix = [HandOut ''T'' 5 (fst (hand_out_T ordered_c0)),
     Finish ''k3//delete'' ResourceUpdateStateSuccess (snd (finish_ok ''k3//delete'' ordered_c1))]"

lemma ordered_run:
  "cs.run ordered_c0 (ordered_prefix @ HandOut ''T'' 5 (fst (hand_out_T ordered_c2)) # []) (snd (hand_out_T ordered_c2))"
proof -
  have wf0: "wf_changeset ordered_c0"
    using NewChangeset_wf [OF sample_orders ordered_facts(3) ordered_new] by blast
  note s0 = hand_out_T_step [OF wf0, folded ordered_c1_def]
  have wf1: "wf_changeset ordered_c1" by (rule cs_step_wf [OF wf0 s0])
  obtain ru where ru: "upds (cs_heap ordered_c1) ''k3//delete'' = [ru]" "ru_State ru = ResourceUpdateStateInProgress"
    using ordered_facts(8) by auto
  note s1 = finish_ok_step [OF wf1 ru, folded ordered_c2_def]
  have wf2: "wf_changeset ordered_c2" by (rule cs_step_wf [OF wf1 s1])
  show ?thesis
    unfolding ordered_prefix_def append.simps
    by (rule cs.run_cons [OF s0], rule cs.run_cons [OF s1], rule cs.run_cons [OF hand_out_T_step [OF wf2]], rule cs.run_nil)
qed

lemma ordered_deletes:
  "\<exists>b a. b \<in> set ordered_us \<and> a \<in> set ordered_us \<and> op_URI b = ''k1//delete'' \<and> op_URI a = ''k3//delete'' \<and>
    deletes sample_gen FormaCommandSourceUser (stored ''s'' ''a'' ''k1'' (JObj [])) b \<and>
    deletes sample_gen FormaCommandSourceUser (stored ''z'' ''c'' ''k3'' (JObj [(''p'', ref_json (NewFormaeURI ''k1'' ''Id''))])) a"
proof -
  obtain x b a where us: "ordered_us = [x, b, a]"
    using arg_cong [OF ordered_facts(4), of length] by (auto simp: length_Suc_conv)
  obtain n where "GenerateResourceUpdates sample_gen sample_forma CommandApply FormaApplyModeReconcile
     FormaCommandSourceUser (map snd sample_targets) sample_lookup None 0 = Inr (ordered_us, n)"
    using ordered_generated by blast
  from gpostD [OF generation_posts [OF sample_gen_order] this]
  have "fresh_update FormaCommandSourceUser b" "fresh_update FormaCommandSourceUser a"
    by (auto simp: us well_formed_def)
  moreover have "map (\<lambda>u. (ru_ExistingResource u = ru_Resource u, ru_RemainingResolvables u = resolvables sample_gen (ru_Resource u))) (tl ordered_us) =
      [(True, True), (True, True)]"
    by code_simp
  ultimately show ?thesis
    using ordered_facts(4,5) unfolding us deletes_def by (intro exI [of _ b] exI [of _ a]) auto
qed

theorem applied_in_order_witness:
  "cs.run ordered_c0 (ordered_prefix @ HandOut ''T'' 5 (fst (hand_out_T ordered_c2)) # []) (snd (hand_out_T ordered_c2)) \<and>
   map op_URI (fst (hand_out_T ordered_c2)) = [''k1//delete''] \<and>
   (\<exists>fs. Finish ''k3//delete'' ResourceUpdateStateSuccess fs \<in> set ordered_prefix)"
proof -
  obtain n where gen: "GenerateResourceUpdates sample_gen sample_forma CommandApply FormaApplyModeReconcile
     FormaCommandSourceUser (map snd sample_targets) sample_lookup None 0 = Inr (ordered_us, n)"
    using ordered_generated by blast
  obtain b a where ab: "b \<in> set ordered_us" "a \<in> set ordered_us" "op_URI b = ''k1//delete''" "op_URI a = ''k3//delete''"
    "deletes sample_gen FormaCommandSourceUser (stored ''s'' ''a'' ''k1'' (JObj [])) b"
    "deletes sample_gen FormaCommandSourceUser (stored ''z'' ''c'' ''k3'' (JObj [(''p'', ref_json (NewFormaeURI ''k1'' ''Id''))])) a"
    using ordered_deletes by blast
  obtain w where w: "fst (hand_out_T ordered_c2) = [w]" "op_URI w = ''k1//delete''"
    using ordered_facts(7) by auto
  have "\<exists>fs. Finish (op_URI a) ResourceUpdateStateSuccess fs \<in> set ordered_prefix"
    by (rule applied_in_order [OF sample_gen_order sample_orders gen ordered_facts(1,2) ordered_new ordered_run, of w b])
      (use ab w ordered_facts(6) in auto)
  with ab(4) ordered_run ordered_facts(7) show ?thesis by simp
qed

end
